(* ===== verification/Prelude.thy ===== *)
theory Prelude
  imports Complex_Main "HOL-Library.AList" "HOL-Library.List_Lexorder" "HOL-Library.Char_ord"
begin

text \<open>
  Shared vocabulary of the development: Python strings and floats, the state-and-exception
  programs in which stateful handlers are written, a small Hoare logic for them, and generic
  facts on lists and maps. The collections \<open>prog_simps\<close>, \<open>prog_rules\<close> and \<open>keeps_rules\<close>
  carry the proofs of the component theories.
\<close>

named_theorems prog_simps \<open>evaluation equations of the program combinators\<close>
named_theorems prog_rules \<open>Hoare rules of the program combinators\<close>
named_theorems keeps_rules \<open>invariant preservation, per combinator and per operation\<close>

section \<open>Python values\<close>

subsection \<open>Strings\<close>

text \<open>
  A Python string is a list of characters; a \<open>char\<close> stands for a code point below 256.
  \<open>str.strip\<close> removes the characters for which \<open>str.isspace\<close> holds on both sides.
\<close>

definition is_space :: "char \<Rightarrow> bool" where
  "is_space c \<longleftrightarrow> (let n = of_char c :: nat in
     (9 \<le> n \<and> n \<le> 13) \<or> (28 \<le> n \<and> n \<le> 32) \<or> n = 133 \<or> n = 160)"

definition strip :: "string \<Rightarrow> string" where
  "strip s = rev (dropWhile is_space (rev (dropWhile is_space s)))"

definition blank :: "string \<Rightarrow> bool" where
  "blank s \<longleftrightarrow> strip s = []"

text \<open>\<open>str.upper\<close> on the ASCII letters; other characters are left alone.\<close>

definition upper_char :: "char \<Rightarrow> char" where
  "upper_char c = (let n = of_char c :: nat in
     if 97 \<le> n \<and> n \<le> 122 then char_of (n - 32) else c)"

definition upper :: "string \<Rightarrow> string" where
  "upper = map upper_char"

lemma dropWhile_idem_last:
  "dropWhile P (rev (dropWhile P (rev (dropWhile P xs)))) = rev (dropWhile P (rev (dropWhile P xs)))"
proof (cases "dropWhile P xs")
  case Nil
  then show ?thesis by (simp only: dropWhile.simps rev.simps)
next
  case (Cons y ys)
  then have ny: "\<not> P y"
    by (simp add: dropWhile_eq_Cons_conv)
  have "\<exists>zs. dropWhile P (rev ys @ [y]) = zs @ [y]"
    using ny by (induction "rev ys" arbitrary: ys) (auto simp: dropWhile_append)
  then obtain zs where zs: "dropWhile P (rev ys @ [y]) = zs @ [y]" ..
  show ?thesis
    using ny by (simp add: Cons zs)
qed

lemma strip_strip [simp]: "strip (strip s) = strip s"
  unfolding strip_def by (simp add: dropWhile_idem_last)

lemma blank_strip [simp]: "blank (strip s) = blank s"
  by (simp add: blank_def)

lemma strip_Nil [simp]: "strip [] = []"
  by (simp add: strip_def)

lemma not_blank_Nil: "\<not> blank s \<Longrightarrow> s \<noteq> []"
  by (auto simp: blank_def)

subsection \<open>Floats\<close>

text \<open>
  A Python float is a finite number, kept as an exact rational (rounding is not modelled), or
  one of the three non-finite values. \<open>isfinite\<close> and the comparisons follow IEEE 754: every
  comparison with \<open>NaN\<close> is false.
\<close>

datatype pyfloat = Fin rat | PosInf | NegInf | NaN

fun isfinite :: "pyfloat \<Rightarrow> bool" where
  "isfinite (Fin _) = True"
| "isfinite _ = False"

fun float_le :: "pyfloat \<Rightarrow> pyfloat \<Rightarrow> bool" where
  "float_le NaN _ = False"
| "float_le _ NaN = False"
| "float_le NegInf _ = True"
| "float_le _ PosInf = True"
| "float_le (Fin a) (Fin b) = (a \<le> b)"
| "float_le _ _ = False"

fun float_less :: "pyfloat \<Rightarrow> pyfloat \<Rightarrow> bool" where
  "float_less NaN _ = False"
| "float_less _ NaN = False"
| "float_less (Fin a) (Fin b) = (a < b)"
| "float_less NegInf b = (b \<noteq> NegInf)"
| "float_less a PosInf = (a \<noteq> PosInf)"
| "float_less _ _ = False"

subsection \<open>Objects of metadata mappings\<close>

text \<open>
  The values a \<open>Mapping[str, object]\<close> may hold: the JSON-like ones by constructor, and any
  other object (bytes, instances of classes) as \<open>POther\<close> with its type name. A mapping is the
  list of its items in insertion order, since the encoders iterate over it; its keys are
  values, because the code has to reject the ones that are no strings.
\<close>

datatype pyval =
    PNone
  | PBool bool
  | PInt int
  | PFloat pyfloat
  | PStr string
  | PList "pyval list"
  | PDict "(pyval \<times> pyval) list"
  | POther string

section \<open>Programs with state and exceptions\<close>

text \<open>
  A handler of the source that reads and writes attributes, awaits components and may raise is
  a function from the state to its outcome (\<open>Inl\<close> the exception, \<open>Inr\<close> the value) and the new
  state: the state changes made before an exception are kept, as in Python.
\<close>

type_synonym ('s, 'e, 'a) prog = "'s \<Rightarrow> ('e + 'a) \<times> 's"

definition returnE :: "'a \<Rightarrow> ('s, 'e, 'a) prog" where
  "returnE x = (\<lambda>s. (Inr x, s))"

definition raiseE :: "'e \<Rightarrow> ('s, 'e, 'a) prog" where
  "raiseE e = (\<lambda>s. (Inl e, s))"

definition bindE :: "('s, 'e, 'a) prog \<Rightarrow> ('a \<Rightarrow> ('s, 'e, 'b) prog) \<Rightarrow> ('s, 'e, 'b) prog" where
  "bindE m f = (\<lambda>s. case m s of (Inl e, s') \<Rightarrow> (Inl e, s') | (Inr x, s') \<Rightarrow> f x s')"

definition thenE :: "('s, 'e, 'a) prog \<Rightarrow> ('s, 'e, 'b) prog \<Rightarrow> ('s, 'e, 'b) prog" where
  "thenE m k = bindE m (\<lambda>_. k)"

text \<open>\<open>tryE m h\<close> runs \<open>m\<close>; an exception \<open>e\<close> is passed to the handler \<open>h e\<close>.\<close>

definition tryE :: "('s, 'e, 'a) prog \<Rightarrow> ('e \<Rightarrow> ('s, 'e, 'a) prog) \<Rightarrow> ('s, 'e, 'a) prog" where
  "tryE m h = (\<lambda>s. case m s of (Inl e, s') \<Rightarrow> h e s' | (Inr x, s') \<Rightarrow> (Inr x, s'))"

definition getE :: "('s, 'e, 's) prog" where
  "getE = (\<lambda>s. (Inr s, s))"

definition modifyE :: "('s \<Rightarrow> 's) \<Rightarrow> ('s, 'e, unit) prog" where
  "modifyE f = (\<lambda>s. (Inr (), f s))"

definition liftE :: "'e + 'a \<Rightarrow> ('s, 'e, 'a) prog" where
  "liftE r = (\<lambda>s. (r, s))"

definition whenE :: "bool \<Rightarrow> ('s, 'e, unit) prog \<Rightarrow> ('s, 'e, unit) prog" where
  "whenE b m = (if b then m else returnE ())"

lemma returnE_run [prog_simps]: "returnE x s = (Inr x, s)"
  by (simp add: returnE_def)

lemma raiseE_run [prog_simps]: "raiseE e s = (Inl e, s)"
  by (simp add: raiseE_def)

lemma bindE_run [prog_simps]:
  "bindE m f s = (case m s of (Inl e, s') \<Rightarrow> (Inl e, s') | (Inr x, s') \<Rightarrow> f x s')"
  by (simp add: bindE_def)

lemma thenE_run [prog_simps]:
  "thenE m k s = (case m s of (Inl e, s') \<Rightarrow> (Inl e, s') | (Inr x, s') \<Rightarrow> k s')"
  by (simp add: thenE_def bindE_def)

lemma tryE_run [prog_simps]:
  "tryE m h s = (case m s of (Inl e, s') \<Rightarrow> h e s' | (Inr x, s') \<Rightarrow> (Inr x, s'))"
  by (simp add: tryE_def)

lemma getE_run [prog_simps]: "getE s = (Inr s, s)"
  by (simp add: getE_def)

lemma modifyE_run [prog_simps]: "modifyE f s = (Inr (), f s)"
  by (simp add: modifyE_def)

lemma liftE_run [prog_simps]: "liftE r s = (r, s)"
  by (simp add: liftE_def)

lemma whenE_run [prog_simps]: "whenE b m s = (if b then m s else (Inr (), s))"
  by (simp add: whenE_def returnE_def)

lemma bindE_returnE [simp]: "bindE (returnE x) f = f x"
  by (simp add: bindE_def returnE_def)

lemma bindE_assoc: "bindE (bindE m f) g = bindE m (\<lambda>x. bindE (f x) g)"
  by (auto simp: bindE_def fun_eq_iff split: sum.splits prod.splits)

subsection \<open>Hoare triples\<close>

text \<open>
  \<open>hoare P m Q E\<close>: from a state satisfying \<open>P\<close>, a value returned by \<open>m\<close> and its final state
  satisfy \<open>Q\<close>, an exception raised by \<open>m\<close> and its final state satisfy \<open>E\<close>. Programs are
  total functions, so this is total correctness.
\<close>

definition hoare ::
  "('s \<Rightarrow> bool) \<Rightarrow> ('s, 'e, 'a) prog \<Rightarrow> ('a \<Rightarrow> 's \<Rightarrow> bool) \<Rightarrow> ('e \<Rightarrow> 's \<Rightarrow> bool) \<Rightarrow> bool" where
  "hoare P m Q E \<longleftrightarrow>
     (\<forall>s. P s \<longrightarrow> (case m s of (Inl e, s') \<Rightarrow> E e s' | (Inr x, s') \<Rightarrow> Q x s'))"

lemma hoareI:
  assumes "\<And>s e s'. P s \<Longrightarrow> m s = (Inl e, s') \<Longrightarrow> E e s'"
    and "\<And>s x s'. P s \<Longrightarrow> m s = (Inr x, s') \<Longrightarrow> Q x s'"
  shows "hoare P m Q E"
  using assms by (auto simp: hoare_def split: prod.splits sum.splits)

lemma hoareD_ok: "hoare P m Q E \<Longrightarrow> P s \<Longrightarrow> m s = (Inr x, s') \<Longrightarrow> Q x s'"
  by (auto simp: hoare_def split: prod.splits sum.splits)

lemma hoareD_err: "hoare P m Q E \<Longrightarrow> P s \<Longrightarrow> m s = (Inl e, s') \<Longrightarrow> E e s'"
  by (auto simp: hoare_def split: prod.splits sum.splits)

lemma hoare_pre: "hoare P' m Q E \<Longrightarrow> (\<And>s. P s \<Longrightarrow> P' s) \<Longrightarrow> hoare P m Q E"
  by (auto simp: hoare_def)

lemma hoare_post:
  assumes "hoare P m Q' E'" and "\<And>x s. Q' x s \<Longrightarrow> Q x s" and "\<And>e s. E' e s \<Longrightarrow> E e s"
  shows "hoare P m Q E"
  using assms by (intro hoareI) (auto dest: hoareD_ok hoareD_err)

lemma hoare_conseq:
  assumes "hoare P' m Q' E'" and "\<And>s. P s \<Longrightarrow> P' s"
    and "\<And>x s. Q' x s \<Longrightarrow> Q x s" and "\<And>e s. E' e s \<Longrightarrow> E e s"
  shows "hoare P m Q E"
  using assms by (blast intro: hoare_pre hoare_post)

lemma hoare_returnE [prog_rules]: "hoare (Q x) (returnE x) Q E"
  by (simp add: hoare_def returnE_def)

lemma hoare_raiseE [prog_rules]: "hoare (E e) (raiseE e) Q E"
  by (simp add: hoare_def raiseE_def)

lemma hoare_bindE [prog_rules]:
  assumes "hoare P m R E" and "\<And>x. hoare (R x) (f x) Q E"
  shows "hoare P (bindE m f) Q E"
  using assms unfolding hoare_def bindE_def by (fastforce split: prod.splits sum.splits)

lemma hoare_thenE [prog_rules]:
  assumes "hoare P m R E" and "\<And>x. hoare (R x) k Q E"
  shows "hoare P (thenE m k) Q E"
  unfolding thenE_def using assms by (rule hoare_bindE)

lemma hoare_tryE [prog_rules]:
  assumes "hoare P m Q F" and "\<And>e. hoare (F e) (h e) Q E"
  shows "hoare P (tryE m h) Q E"
  using assms unfolding hoare_def tryE_def by (fastforce split: prod.splits sum.splits)

lemma hoare_getE [prog_rules]: "hoare (\<lambda>s. Q s s) getE Q E"
  by (simp add: hoare_def getE_def)

lemma hoare_modifyE [prog_rules]: "hoare (\<lambda>s. Q () (f s)) (modifyE f) Q E"
  by (simp add: hoare_def modifyE_def)

lemma hoare_if [prog_rules]:
  assumes "b \<Longrightarrow> hoare P m Q E" and "\<not> b \<Longrightarrow> hoare P k Q E"
  shows "hoare P (if b then m else k) Q E"
  using assms by simp

lemma hoare_whenE [prog_rules]:
  assumes "b \<Longrightarrow> hoare P m Q E" and "\<And>s. \<not> b \<Longrightarrow> P s \<Longrightarrow> Q () s"
  shows "hoare P (whenE b m) Q E"
  using assms by (auto simp: whenE_def hoare_def returnE_def)

subsection \<open>Invariants of programs\<close>

text \<open>\<open>keeps I m\<close>: \<open>m\<close> preserves \<open>I\<close>, whether it returns or raises.\<close>

definition keeps :: "('s \<Rightarrow> bool) \<Rightarrow> ('s, 'e, 'a) prog \<Rightarrow> bool" where
  "keeps I m \<longleftrightarrow> (\<forall>s. I s \<longrightarrow> I (snd (m s)))"

lemma keepsD: "keeps I m \<Longrightarrow> I s \<Longrightarrow> I (snd (m s))"
  by (simp add: keeps_def)

lemma keeps_run: "keeps I m \<Longrightarrow> m s = (r, s') \<Longrightarrow> I s \<Longrightarrow> I s'"
  by (auto simp: keeps_def dest: spec [where x = s])

lemma keeps_returnE [keeps_rules]: "keeps I (returnE x)"
  by (simp add: keeps_def returnE_def)

lemma keeps_raiseE [keeps_rules]: "keeps I (raiseE e)"
  by (simp add: keeps_def raiseE_def)

lemma keeps_liftE [keeps_rules]: "keeps I (liftE r)"
  by (simp add: keeps_def liftE_def)

lemma keeps_getE [keeps_rules]: "keeps I getE"
  by (simp add: keeps_def getE_def)

lemma keeps_modifyE: "(\<And>s. I s \<Longrightarrow> I (f s)) \<Longrightarrow> keeps I (modifyE f)"
  by (simp add: keeps_def modifyE_def)

lemma keeps_bindE [keeps_rules]:
  "keeps I m \<Longrightarrow> (\<And>x. keeps I (f x)) \<Longrightarrow> keeps I (bindE m f)"
  unfolding keeps_def bindE_def
  by (fastforce split: prod.splits sum.splits)

lemma keeps_thenE [keeps_rules]: "keeps I m \<Longrightarrow> keeps I k \<Longrightarrow> keeps I (thenE m k)"
  unfolding thenE_def by (rule keeps_bindE)

lemma keeps_tryE [keeps_rules]:
  "keeps I m \<Longrightarrow> (\<And>e. keeps I (h e)) \<Longrightarrow> keeps I (tryE m h)"
  unfolding keeps_def tryE_def
  by (fastforce split: prod.splits sum.splits)

lemma keeps_if [keeps_rules]:
  "(b \<Longrightarrow> keeps I m) \<Longrightarrow> (\<not> b \<Longrightarrow> keeps I k) \<Longrightarrow> keeps I (if b then m else k)"
  by simp

lemma keeps_whenE [keeps_rules]: "(b \<Longrightarrow> keeps I m) \<Longrightarrow> keeps I (whenE b m)"
  by (simp add: whenE_def keeps_returnE)

lemma keeps_option [keeps_rules]:
  "keeps I m \<Longrightarrow> (\<And>x. keeps I (f x)) \<Longrightarrow> keeps I (case x of None \<Rightarrow> m | Some y \<Rightarrow> f y)"
  by (cases x) simp_all

lemma keeps_sum [keeps_rules]:
  "(\<And>e. keeps I (g e)) \<Longrightarrow> (\<And>x. keeps I (f x)) \<Longrightarrow> keeps I (case x of Inl e \<Rightarrow> g e | Inr y \<Rightarrow> f y)"
  by (cases x) simp_all

lemma keeps_prod [keeps_rules]:
  "(\<And>a b. keeps I (f a b)) \<Longrightarrow> keeps I (case x of (a, b) \<Rightarrow> f a b)"
  by (cases x) simp

lemma keeps_let [keeps_rules]: "(\<And>x. keeps I (f x)) \<Longrightarrow> keeps I (let x = t in f x)"
  by simp

section \<open>Dictionaries\<close>

text \<open>
  A Python \<open>dict\<close> iterates in insertion order, and assigning to a present key keeps its
  position: an association list with distinct keys under \<open>AList.update\<close> and \<open>AList.delete\<close>.
\<close>

type_synonym ('k, 'v) dict = "('k \<times> 'v) list"

abbreviation dict_get :: "('k, 'v) dict \<Rightarrow> 'k \<Rightarrow> 'v option" where
  "dict_get \<equiv> map_of"

abbreviation dict_set :: "'k \<Rightarrow> 'v \<Rightarrow> ('k, 'v) dict \<Rightarrow> ('k, 'v) dict" where
  "dict_set \<equiv> AList.update"

abbreviation dict_del :: "'k \<Rightarrow> ('k, 'v) dict \<Rightarrow> ('k, 'v) dict" where
  "dict_del \<equiv> AList.delete"

abbreviation dict_keys :: "('k, 'v) dict \<Rightarrow> 'k list" where
  "dict_keys d \<equiv> map fst d"

abbreviation dict_values :: "('k, 'v) dict \<Rightarrow> 'v list" where
  "dict_values d \<equiv> map snd d"

definition dict_ok :: "('k, 'v) dict \<Rightarrow> bool" where
  "dict_ok d \<longleftrightarrow> distinct (dict_keys d)"

definition dict_has :: "'k \<Rightarrow> ('k, 'v) dict \<Rightarrow> bool" where
  "dict_has k d \<longleftrightarrow> k \<in> set (dict_keys d)"

text \<open>\<open>d.update(e)\<close>: the items of \<open>e\<close> are assigned one after the other.\<close>

definition dict_update :: "('k, 'v) dict \<Rightarrow> ('k, 'v) dict \<Rightarrow> ('k, 'v) dict" where
  "dict_update d e = fold (\<lambda>(k, v). dict_set k v) e d"

lemma dict_get_set [simp]: "dict_get (dict_set k v d) = (dict_get d)(k \<mapsto> v)"
  by (rule update_conv')

lemma dict_get_del [simp]: "dict_get (dict_del k d) = (dict_get d)(k := None)"
  by (rule delete_conv')

lemma dict_ok_Nil [simp]: "dict_ok []"
  by (simp add: dict_ok_def)

lemma dict_ok_set [simp]: "dict_ok d \<Longrightarrow> dict_ok (dict_set k v d)"
  unfolding dict_ok_def by (rule distinct_update)

lemma dict_ok_del [simp]: "dict_ok d \<Longrightarrow> dict_ok (dict_del k d)"
  unfolding dict_ok_def by (rule distinct_delete)

lemma dict_has_get: "dict_has k d \<longleftrightarrow> dict_get d k \<noteq> None"
  by (simp add: dict_has_def map_of_eq_None_iff)

lemma dict_get_iff: "dict_ok d \<Longrightarrow> dict_get d k = Some v \<longleftrightarrow> (k, v) \<in> set d"
  unfolding dict_ok_def by (rule map_of_eq_Some_iff)

lemma dict_values_get: "dict_ok d \<Longrightarrow> v \<in> set (dict_values d) \<longleftrightarrow> (\<exists>k. dict_get d k = Some v)"
  by (force simp: dict_get_iff)

lemma dict_keys_set [simp]: "set (dict_keys (dict_set k v d)) = insert k (set (dict_keys d))"
  by (simp add: dom_map_of_conv_image_fst [symmetric])

lemma dict_keys_del [simp]: "set (dict_keys (dict_del k d)) = set (dict_keys d) - {k}"
  by (simp add: dom_map_of_conv_image_fst [symmetric])

lemma dict_has_set [simp]: "dict_has k (dict_set k' v d) \<longleftrightarrow> k = k' \<or> dict_has k d"
  by (auto simp: dict_has_get)

lemma dict_has_del [simp]: "dict_has k (dict_del k' d) \<longleftrightarrow> k \<noteq> k' \<and> dict_has k d"
  by (auto simp: dict_has_get)

lemma dict_update_Nil [simp]: "dict_update d [] = d"
  by (simp add: dict_update_def)

lemma dict_update_Cons [simp]: "dict_update d ((k, v) # e) = dict_update (dict_set k v d) e"
  by (simp add: dict_update_def)

lemma dict_ok_update [simp]: "dict_ok d \<Longrightarrow> dict_ok (dict_update d e)"
  by (induction e arbitrary: d) auto

lemma dict_get_update:
  "dict_ok e \<Longrightarrow> dict_get (dict_update d e) k =
     (case dict_get e k of None \<Rightarrow> dict_get d k | Some v \<Rightarrow> Some v)"
proof (induction e arbitrary: d)
  case Nil
  then show ?case by simp
next
  case (Cons p e)
  obtain k' v where p: "p = (k', v)" by fastforce
  with Cons.prems have "dict_ok e" and "dict_get e k' = None"
    by (auto simp: dict_ok_def map_of_eq_None_iff)
  with Cons.IH [OF this(1)] show ?case
    by (auto simp: p split: option.splits)
qed

section \<open>Lists\<close>

lemma distinct_count_length: "(length xs = card (set xs)) = distinct xs"
  by (metis card_distinct distinct_card)

end
