(* ===== verification/LoopStatus.thy ===== *)
theory LoopStatus
  imports Prelude
begin

text \<open>
  \<open>matterloop_core/state/machine.py\<close>: the life-cycle states of a loop, the structured stop
  reasons, the resume modes, and the protected transition relation that every status change
  of the controller goes through.
\<close>

section \<open>States, stop reasons, resume modes\<close>

datatype loop_status =
    CREATED
  | PLANNING
  | EXECUTING
  | VERIFYING
  | WAITING_APPROVAL
  | PAUSED
  | COMPLETED
  | BLOCKED
  | CANCELLED
  | TIMED_OUT
  | FAILED

fun status_value :: "loop_status \<Rightarrow> string" where
  "status_value CREATED = ''created''"
| "status_value PLANNING = ''planning''"
| "status_value EXECUTING = ''executing''"
| "status_value VERIFYING = ''verifying''"
| "status_value WAITING_APPROVAL = ''waiting_approval''"
| "status_value PAUSED = ''paused''"
| "status_value COMPLETED = ''completed''"
| "status_value BLOCKED = ''blocked''"
| "status_value CANCELLED = ''cancelled''"
| "status_value TIMED_OUT = ''timed_out''"
| "status_value FAILED = ''failed''"

definition is_terminal :: "loop_status \<Rightarrow> bool" where
  "is_terminal s \<longleftrightarrow> s \<in> {COMPLETED, CANCELLED, TIMED_OUT, FAILED}"

datatype stop_reason =
    SR_COMPLETED
  | SR_POLICY_REJECTED
  | SR_APPROVAL_REJECTED
  | SR_APPROVAL_DEFERRED
  | SR_HUMAN_INPUT_REQUIRED
  | SR_HUMAN_REJECTED
  | SR_COMPLETION_REJECTED
  | SR_CYCLE_LIMIT
  | SR_ATTEMPT_LIMIT
  | SR_STEP_LIMIT
  | SR_CANCELLED
  | SR_TIMED_OUT
  | SR_COMPONENT_ERROR
  | SR_BUDGET_EXHAUSTED
  | SR_RECOVERY_REQUIRED

fun stop_reason_value :: "stop_reason \<Rightarrow> string" where
  "stop_reason_value SR_COMPLETED = ''completed''"
| "stop_reason_value SR_POLICY_REJECTED = ''policy_rejected''"
| "stop_reason_value SR_APPROVAL_REJECTED = ''approval_rejected''"
| "stop_reason_value SR_APPROVAL_DEFERRED = ''approval_deferred''"
| "stop_reason_value SR_HUMAN_INPUT_REQUIRED = ''human_input_required''"
| "stop_reason_value SR_HUMAN_REJECTED = ''human_rejected''"
| "stop_reason_value SR_COMPLETION_REJECTED = ''completion_rejected''"
| "stop_reason_value SR_CYCLE_LIMIT = ''cycle_limit''"
| "stop_reason_value SR_ATTEMPT_LIMIT = ''attempt_limit''"
| "stop_reason_value SR_STEP_LIMIT = ''step_limit''"
| "stop_reason_value SR_CANCELLED = ''cancelled''"
| "stop_reason_value SR_TIMED_OUT = ''timed_out''"
| "stop_reason_value SR_COMPONENT_ERROR = ''component_error''"
| "stop_reason_value SR_BUDGET_EXHAUSTED = ''budget_exhausted''"
| "stop_reason_value SR_RECOVERY_REQUIRED = ''recovery_required''"

datatype resume_mode = CONTINUE | REPLAN

section \<open>The transition table\<close>

fun allowed_transitions :: "loop_status \<Rightarrow> loop_status list" where
  "allowed_transitions CREATED = [PLANNING, BLOCKED, CANCELLED, TIMED_OUT, FAILED]"
| "allowed_transitions PLANNING =
     [WAITING_APPROVAL, EXECUTING, BLOCKED, CANCELLED, TIMED_OUT, FAILED]"
| "allowed_transitions WAITING_APPROVAL =
     [EXECUTING, PAUSED, BLOCKED, CANCELLED, TIMED_OUT, FAILED]"
| "allowed_transitions EXECUTING =
     [PLANNING, BLOCKED, VERIFYING, CANCELLED, TIMED_OUT, FAILED]"
| "allowed_transitions VERIFYING =
     [PLANNING, WAITING_APPROVAL, EXECUTING, COMPLETED, PAUSED, BLOCKED, CANCELLED, TIMED_OUT,
      FAILED]"
| "allowed_transitions PAUSED =
     [PLANNING, WAITING_APPROVAL, EXECUTING, COMPLETED, BLOCKED, CANCELLED, TIMED_OUT, FAILED]"
| "allowed_transitions COMPLETED = []"
| "allowed_transitions BLOCKED =
     [PLANNING, WAITING_APPROVAL, EXECUTING, CANCELLED, TIMED_OUT, FAILED]"
| "allowed_transitions CANCELLED = []"
| "allowed_transitions TIMED_OUT = []"
| "allowed_transitions FAILED = []"

definition allowed :: "loop_status \<Rightarrow> loop_status \<Rightarrow> bool" where
  "allowed s t \<longleftrightarrow> t \<in> set (allowed_transitions s)"

text \<open>
  \<open>ensure_transition\<close> raises \<open>InvalidStateTransitionError(current, target)\<close>; the pair is the
  payload of the exception.
\<close>

definition ensure_transition ::
  "loop_status \<Rightarrow> loop_status \<Rightarrow> (loop_status \<times> loop_status) + unit" where
  "ensure_transition cur target = (if allowed cur target then Inr () else Inl (cur, target))"

instantiation loop_status :: enum
begin

definition enum_loop_status :: "loop_status list" where
  "enum_loop_status = [CREATED, PLANNING, EXECUTING, VERIFYING, WAITING_APPROVAL, PAUSED,
     COMPLETED, BLOCKED, CANCELLED, TIMED_OUT, FAILED]"

definition enum_all_loop_status :: "(loop_status \<Rightarrow> bool) \<Rightarrow> bool" where
  "enum_all_loop_status P \<longleftrightarrow> list_all P enum_class.enum"

definition enum_ex_loop_status :: "(loop_status \<Rightarrow> bool) \<Rightarrow> bool" where
  "enum_ex_loop_status P \<longleftrightarrow> list_ex P enum_class.enum"

lemma loop_status_UNIV: "(UNIV :: loop_status set) = set enum_class.enum"
proof (rule set_eqI)
  show "x \<in> UNIV \<longleftrightarrow> x \<in> set enum_class.enum" for x :: loop_status
    by (cases x) (simp_all add: enum_loop_status_def)
qed

instance
proof
  show "(UNIV :: loop_status set) = set enum_class.enum"
    by (rule loop_status_UNIV)
  show "distinct (enum_class.enum :: loop_status list)"
    by (simp add: enum_loop_status_def)
  show "enum_class.enum_all P \<longleftrightarrow> Ball UNIV P" for P :: "loop_status \<Rightarrow> bool"
    by (simp add: enum_all_loop_status_def loop_status_UNIV list_all_iff)
  show "enum_class.enum_ex P \<longleftrightarrow> Bex UNIV P" for P :: "loop_status \<Rightarrow> bool"
    by (simp add: enum_ex_loop_status_def loop_status_UNIV list_ex_iff)
qed

end

section \<open>Facts of the relation\<close>

lemma terminal_no_exit: "is_terminal s \<Longrightarrow> \<not> allowed s t"
  by (cases s) (auto simp: is_terminal_def allowed_def)

lemma allowed_FAILED: "\<not> is_terminal s \<Longrightarrow> allowed s FAILED"
  by (cases s) (auto simp: is_terminal_def allowed_def)

lemma allowed_CANCELLED: "\<not> is_terminal s \<Longrightarrow> allowed s CANCELLED"
  by (cases s) (auto simp: is_terminal_def allowed_def)

lemma allowed_TIMED_OUT: "\<not> is_terminal s \<Longrightarrow> allowed s TIMED_OUT"
  by (cases s) (auto simp: is_terminal_def allowed_def)

lemma allowed_BLOCKED: "\<not> is_terminal s \<Longrightarrow> s \<noteq> BLOCKED \<Longrightarrow> allowed s BLOCKED"
  by (cases s) (auto simp: is_terminal_def allowed_def)

lemma allowed_irrefl: "\<not> allowed s s"
  by (cases s) (auto simp: allowed_def)

lemma never_back_to_CREATED: "\<not> allowed s CREATED"
  by (cases s) (auto simp: allowed_def)

lemma into_VERIFYING: "allowed s VERIFYING \<longleftrightarrow> s = EXECUTING"
  by (cases s) (auto simp: allowed_def)

lemma into_COMPLETED: "allowed s COMPLETED \<longleftrightarrow> s = VERIFYING \<or> s = PAUSED"
  by (cases s) (auto simp: allowed_def)

lemma into_PAUSED: "allowed s PAUSED \<longleftrightarrow> s = WAITING_APPROVAL \<or> s = VERIFYING"
  by (cases s) (auto simp: allowed_def)

lemma ensure_transition_Inr [simp]: "ensure_transition s t = Inr u \<longleftrightarrow> allowed s t"
  by (simp add: ensure_transition_def)

lemma status_value_inj: "status_value s = status_value t \<Longrightarrow> s = t"
  by (cases s; cases t) auto

lemma stop_reason_value_inj: "stop_reason_value s = stop_reason_value t \<Longrightarrow> s = t"
  by (cases s; cases t) auto

text \<open>The states reachable by zero or more legal transitions.\<close>

inductive status_path :: "loop_status \<Rightarrow> loop_status \<Rightarrow> bool" where
  status_refl: "status_path s s"
| status_step: "status_path s t \<Longrightarrow> allowed t u \<Longrightarrow> status_path s u"

inductive_cases status_path_cases: "status_path s t"

lemma status_path_trans: "status_path s t \<Longrightarrow> status_path t u \<Longrightarrow> status_path s u"
proof -
  assume st: "status_path s t"
  assume "status_path t u"
  then show ?thesis
    using st by (induction rule: status_path.induct) (auto intro: status_path.intros)
qed

lemma status_path_terminal: "status_path s t \<Longrightarrow> is_terminal s \<Longrightarrow> t = s"
  by (induction rule: status_path.induct) (auto dest: terminal_no_exit)

text \<open>
  Two gates of the table: a completed run came through verification or a human pause, and an
  approval-free run that executes a step leaves through verification, a stop or a replan.
\<close>

inductive path_avoiding :: "loop_status set \<Rightarrow> loop_status \<Rightarrow> loop_status \<Rightarrow> bool"
  for B :: "loop_status set" where
  pa_refl: "s \<notin> B \<Longrightarrow> path_avoiding B s s"
| pa_step: "path_avoiding B s t \<Longrightarrow> allowed t u \<Longrightarrow> u \<notin> B \<Longrightarrow> path_avoiding B s u"

inductive_simps path_avoiding_bad: "path_avoiding B s t"

lemma path_avoiding_end: "path_avoiding B s t \<Longrightarrow> t \<notin> B"
  by (induction rule: path_avoiding.induct) auto

lemma path_avoiding_status_path: "path_avoiding B s t \<Longrightarrow> status_path s t"
  by (induction rule: path_avoiding.induct) (auto intro: status_path.intros)

lemma completed_needs_verification_or_pause:
  assumes "path_avoiding {VERIFYING, PAUSED} s COMPLETED"
  shows "s = COMPLETED"
  using assms
proof cases
  case pa_refl
  then show ?thesis by simp
next
  case (pa_step t)
  then show ?thesis
    using path_avoiding_end [OF pa_step(1)] by (auto simp: into_COMPLETED)
qed

end
