(* ===== verification/LoopModels.thy ===== *)
theory LoopModels
  imports LoopStatus
begin

text \<open>
  The value objects of \<open>matterloop_core\<close>: the exceptions of \<open>exceptions/errors.py\<close>, the human
  interaction objects of \<open>context/human.py\<close>, the plan, evidence and context objects of
  \<open>context/models.py\<close>, the decisions of \<open>control/decisions.py\<close> and the events of
  \<open>events/models.py\<close>. A frozen dataclass is a record; its constructor with the checks of
  \<open>__post_init__\<close> is \<open>new_<Class>\<close>, which returns the exception or the object. Mutable defaults
  (fresh identifiers, the current time) are arguments of the constructors.
\<close>

section \<open>Exceptions\<close>

text \<open>
  The exceptions of the kernel, the ones of Python it handles, and \<open>Other type message\<close> for any
  further \<open>Exception\<close> a component may raise. \<open>Stopped\<close> is the controller's \<open>_LoopStopped\<close>,
  \<open>Cancelled\<close> is \<open>asyncio.CancelledError\<close> and \<open>OtherBase\<close> any further \<open>BaseException\<close>.
  \<open>Suspended\<close> is no exception of the program: it ends the observation of a run that still waits
  for a component; \<open>FuelOut\<close> would mark an exhausted loop bound of the model. Neither is caught
  by any handler.
\<close>

datatype exn =
    Stopped
  | Cancelled
  | OtherBase string
  | Suspended
  | FuelOut
  | ComponentNotFound string
  | ComponentAlreadyRegistered string
  | InvalidPlugin string
  | InvalidPlan string
  | CheckpointSchema string
  | CheckpointConflict string
  | InvalidTransition loop_status loop_status
  | LoopNotFound string
  | LoopNotResumable string
  | RequestConflict string
  | HumanNotPending string
  | HumanConflict string
  | ResourceLimit string string
  | ValueError string
  | KeyError string
  | RuntimeError string
  | Other string string

text \<open>\<open>isinstance(e, Exception)\<close>.\<close>

fun is_exception :: "exn \<Rightarrow> bool" where
  "is_exception Stopped = False"
| "is_exception Cancelled = False"
| "is_exception (OtherBase _) = False"
| "is_exception Suspended = False"
| "is_exception FuelOut = False"
| "is_exception _ = True"

text \<open>\<open>type(e).__name__\<close> and \<open>str(e)\<close>; \<open>ResourceLimit\<close> carries the name of the subclass raised.\<close>

fun exn_type :: "exn \<Rightarrow> string" where
  "exn_type Stopped = ''_LoopStopped''"
| "exn_type Cancelled = ''CancelledError''"
| "exn_type (OtherBase t) = t"
| "exn_type Suspended = []"
| "exn_type FuelOut = []"
| "exn_type (ComponentNotFound _) = ''ComponentNotFoundError''"
| "exn_type (ComponentAlreadyRegistered _) = ''ComponentAlreadyRegisteredError''"
| "exn_type (InvalidPlugin _) = ''InvalidPluginError''"
| "exn_type (InvalidPlan _) = ''InvalidPlanError''"
| "exn_type (CheckpointSchema _) = ''CheckpointSchemaError''"
| "exn_type (CheckpointConflict _) = ''CheckpointConflictError''"
| "exn_type (InvalidTransition _ _) = ''InvalidStateTransitionError''"
| "exn_type (LoopNotFound _) = ''LoopNotFoundError''"
| "exn_type (LoopNotResumable _) = ''LoopNotResumableError''"
| "exn_type (RequestConflict _) = ''LoopRequestConflictError''"
| "exn_type (HumanNotPending _) = ''HumanInteractionNotPendingError''"
| "exn_type (HumanConflict _) = ''HumanResponseConflictError''"
| "exn_type (ResourceLimit t _) = t"
| "exn_type (ValueError _) = ''ValueError''"
| "exn_type (KeyError _) = ''KeyError''"
| "exn_type (RuntimeError _) = ''RuntimeError''"
| "exn_type (Other t _) = t"

fun exn_message :: "exn \<Rightarrow> string" where
  "exn_message (InvalidTransition s t) =
     ''invalid loop state transition: '' @ status_value s @ '' -> '' @ status_value t"
| "exn_message (ComponentNotFound m) = m"
| "exn_message (ComponentAlreadyRegistered m) = m"
| "exn_message (InvalidPlugin m) = m"
| "exn_message (InvalidPlan m) = m"
| "exn_message (CheckpointSchema m) = m"
| "exn_message (CheckpointConflict m) = m"
| "exn_message (LoopNotFound m) = m"
| "exn_message (LoopNotResumable m) = m"
| "exn_message (RequestConflict m) = m"
| "exn_message (HumanNotPending m) = m"
| "exn_message (HumanConflict m) = m"
| "exn_message (ResourceLimit _ m) = m"
| "exn_message (ValueError m) = m"
| "exn_message (KeyError m) = m"
| "exn_message (RuntimeError m) = m"
| "exn_message (Other _ m) = m"
| "exn_message _ = []"

definition exn_text :: "exn \<Rightarrow> string" where
  "exn_text e = exn_type e @ '': '' @ exn_message e"

definition require :: "bool \<Rightarrow> string \<Rightarrow> (exn + 'a) \<Rightarrow> exn + 'a" where
  "require b msg r = (if b then r else Inl (ValueError msg))"

lemma require_Inr [simp]: "require b msg r = Inr x \<longleftrightarrow> b \<and> r = Inr x"
  by (simp add: require_def)

section \<open>Equality and times\<close>

text \<open>
  \<open>==\<close> on metadata values: numbers compare across \<open>bool\<close>, \<open>int\<close> and \<open>float\<close>, mappings compare
  without regard to insertion order.
\<close>

fun py_num :: "pyval \<Rightarrow> pyfloat option" where
  "py_num (PBool b) = Some (Fin (if b then 1 else 0))"
| "py_num (PInt i) = Some (Fin (of_int i))"
| "py_num (PFloat f) = Some f"
| "py_num _ = None"

function (sequential) py_eq :: "pyval \<Rightarrow> pyval \<Rightarrow> bool"
  and py_eq_list :: "pyval list \<Rightarrow> pyval list \<Rightarrow> bool"
  and py_eq_items :: "(pyval \<times> pyval) list \<Rightarrow> (pyval \<times> pyval) list \<Rightarrow> bool"
  and py_eq_mem :: "pyval \<Rightarrow> pyval \<Rightarrow> (pyval \<times> pyval) list \<Rightarrow> bool" where
  "py_eq PNone PNone = True"
| "py_eq (PStr a) (PStr b) = (a = b)"
| "py_eq (PList xs) (PList ys) = py_eq_list xs ys"
| "py_eq (PDict xs) (PDict ys) = (length xs = length ys \<and> py_eq_items xs ys)"
| "py_eq (POther a) (POther b) = (a = b)"
| "py_eq a b = (case (py_num a, py_num b) of (Some x, Some y) \<Rightarrow> x = y \<and> x \<noteq> NaN | _ \<Rightarrow> False)"
| "py_eq_list [] [] = True"
| "py_eq_list (x # xs) (y # ys) = (py_eq x y \<and> py_eq_list xs ys)"
| "py_eq_list _ _ = False"
| "py_eq_items [] ys = True"
| "py_eq_items ((k, v) # xs) ys = (py_eq_mem k v ys \<and> py_eq_items xs ys)"
| "py_eq_mem k v [] = False"
| "py_eq_mem k v ((k', v') # ys) = ((py_eq k k' \<and> py_eq v v') \<or> py_eq_mem k v ys)"
  by pat_completeness auto
termination
  by (relation "measure (\<lambda>x. case x of
        Inl (Inl (a, b)) \<Rightarrow> size a + size b
      | Inl (Inr (xs, ys)) \<Rightarrow> size_list size xs + size_list size ys
      | Inr (Inl (xs, ys)) \<Rightarrow> size_list (size_prod size size) xs + size_list (size_prod size size) ys
      | Inr (Inr (k, v, ys)) \<Rightarrow> size k + size v + size_list (size_prod size size) ys)")
     auto

type_synonym metadata = "(pyval \<times> pyval) list"

definition metadata_eq :: "metadata \<Rightarrow> metadata \<Rightarrow> bool" where
  "metadata_eq m n = py_eq (PDict m) (PDict n)"

text \<open>
  A \<open>datetime\<close> by its fields, with the offset from UTC in seconds for an aware one. \<open>instant\<close> is
  the proleptic Gregorian instant in microseconds; the difference of two aware datetimes is the
  difference of their instants, \<open>total_seconds\<close> reads it in seconds.
\<close>

record datetime =
  dt_year :: int
  dt_month :: int
  dt_day :: int
  dt_hour :: int
  dt_minute :: int
  dt_second :: int
  dt_microsecond :: int
  dt_offset :: "int option"

definition is_leap :: "int \<Rightarrow> bool" where
  "is_leap y \<longleftrightarrow> y mod 4 = 0 \<and> (y mod 100 \<noteq> 0 \<or> y mod 400 = 0)"

definition days_in_month :: "int \<Rightarrow> int \<Rightarrow> int" where
  "days_in_month y m =
     (if m = 2 then (if is_leap y then 29 else 28)
      else if m \<in> {4, 6, 9, 11} then 30 else 31)"

definition toordinal :: "datetime \<Rightarrow> int" where
  "toordinal d = (let y = dt_year d - 1 in
     y * 365 + y div 4 - y div 100 + y div 400
     + sum_list (map (days_in_month (dt_year d)) [1..dt_month d - 1]) + dt_day d)"

definition instant :: "datetime \<Rightarrow> int" where
  "instant d =
     ((toordinal d * 86400 + dt_hour d * 3600 + dt_minute d * 60 + dt_second d
       - (case dt_offset d of None \<Rightarrow> 0 | Some k \<Rightarrow> k)) * 1000000) + dt_microsecond d"

definition total_seconds :: "datetime \<Rightarrow> datetime \<Rightarrow> rat" where
  "total_seconds a b = of_int (instant a - instant b) / 1000000"

section \<open>Human interaction\<close>

datatype human_kind = APPROVAL | INPUT | COMPLETION_REVIEW

datatype human_action = APPROVE | REJECT | REVISE | PROVIDE_INPUT

fun human_kind_value :: "human_kind \<Rightarrow> string" where
  "human_kind_value APPROVAL = ''approval''"
| "human_kind_value INPUT = ''input''"
| "human_kind_value COMPLETION_REVIEW = ''completion_review''"

fun human_action_value :: "human_action \<Rightarrow> string" where
  "human_action_value APPROVE = ''approve''"
| "human_action_value REJECT = ''reject''"
| "human_action_value REVISE = ''revise''"
| "human_action_value PROVIDE_INPUT = ''provide_input''"

record interaction =
  hi_kind :: human_kind
  hi_prompt :: string
  hi_allowed_actions :: "human_action list"
  hi_interaction_id :: string
  hi_step_id :: "string option"
  hi_metadata :: metadata
  hi_created_at :: datetime

definition new_HumanInteractionRequest ::
  "human_kind \<Rightarrow> string \<Rightarrow> human_action list \<Rightarrow> string \<Rightarrow> string option \<Rightarrow> metadata \<Rightarrow> datetime
   \<Rightarrow> exn + interaction" where
  "new_HumanInteractionRequest kind prompt actions iid sid meta created =
     require (\<not> blank prompt) ''prompt must not be empty''
    (require (\<not> blank iid) ''interaction_id must not be empty''
    (require (actions \<noteq> []) ''allowed_actions must not be empty''
    (require (distinct actions) ''allowed_actions must not contain duplicates''
    (require (case sid of None \<Rightarrow> True | Some i \<Rightarrow> \<not> blank i) ''step_id must not be empty''
    (require (dt_offset created \<noteq> None) ''created_at must include a timezone''
    (Inr \<lparr>hi_kind = kind, hi_prompt = prompt, hi_allowed_actions = actions,
          hi_interaction_id = iid, hi_step_id = sid, hi_metadata = meta,
          hi_created_at = created\<rparr>))))))"

record response =
  hr_interaction_id :: string
  hr_action :: human_action
  hr_content :: string
  hr_idempotency_key :: string
  hr_metadata :: metadata
  hr_responded_at :: datetime

definition new_HumanResponse ::
  "string \<Rightarrow> human_action \<Rightarrow> string \<Rightarrow> string \<Rightarrow> metadata \<Rightarrow> datetime \<Rightarrow> exn + response" where
  "new_HumanResponse iid action content key meta responded =
     require (\<not> blank iid) ''interaction_id must not be empty''
    (require (\<not> blank key) ''idempotency_key must not be empty''
    (require (\<not> (action \<in> {REVISE, PROVIDE_INPUT} \<and> blank content))
       (human_action_value action @ '' requires non-empty content'')
    (require (dt_offset responded \<noteq> None) ''responded_at must include a timezone''
    (Inr \<lparr>hr_interaction_id = iid, hr_action = action, hr_content = content,
          hr_idempotency_key = key, hr_metadata = meta, hr_responded_at = responded\<rparr>))))"

record human_record =
  hx_request :: interaction
  hx_response :: response
  hx_recorded_at :: datetime

definition new_HumanInteractionRecord ::
  "interaction \<Rightarrow> response \<Rightarrow> datetime \<Rightarrow> exn + human_record" where
  "new_HumanInteractionRecord req resp recorded =
     require (hi_interaction_id req = hr_interaction_id resp)
       ''request and response interaction_id must match''
    (require (dt_offset recorded \<noteq> None) ''recorded_at must include a timezone''
    (Inr \<lparr>hx_request = req, hx_response = resp, hx_recorded_at = recorded\<rparr>))"

section \<open>Requests and plans\<close>

record loop_limits =
  max_cycles :: int
  max_attempts :: int
  max_steps_per_plan :: int
  timeout_seconds :: "pyfloat option"

definition valid_timeout :: "pyfloat option \<Rightarrow> bool" where
  "valid_timeout t = (case t of None \<Rightarrow> True | Some x \<Rightarrow> isfinite x \<and> \<not> float_le x (Fin 0))"

definition new_LoopLimits :: "int \<Rightarrow> int \<Rightarrow> int \<Rightarrow> pyfloat option \<Rightarrow> exn + loop_limits" where
  "new_LoopLimits mc ma ms t =
     require (mc \<ge> 1) ''max_cycles must be at least 1''
    (require (ma \<ge> 1) ''max_attempts must be at least 1''
    (require (ms \<ge> 1) ''max_steps_per_plan must be at least 1''
    (require (valid_timeout t) ''timeout_seconds must be finite and greater than 0''
    (Inr \<lparr>max_cycles = mc, max_attempts = ma, max_steps_per_plan = ms, timeout_seconds = t\<rparr>))))"

record loop_request =
  goal :: string
  acceptance_criteria :: "string list"
  limits :: loop_limits
  req_metadata :: metadata

definition new_LoopRequest ::
  "string \<Rightarrow> string list \<Rightarrow> loop_limits \<Rightarrow> metadata \<Rightarrow> exn + loop_request" where
  "new_LoopRequest g ac lm meta =
     require (\<not> blank g) ''goal must not be empty''
    (require (\<not> list_ex blank ac) ''acceptance_criteria must not contain empty values''
    (Inr \<lparr>goal = g, acceptance_criteria = ac, limits = lm, req_metadata = meta\<rparr>))"

definition request_eq :: "loop_request \<Rightarrow> loop_request \<Rightarrow> bool" where
  "request_eq r s \<longleftrightarrow> goal r = goal s \<and> acceptance_criteria r = acceptance_criteria s
     \<and> limits r = limits s \<and> metadata_eq (req_metadata r) (req_metadata s)"

record plan_step =
  description :: string
  executor :: string
  step_criteria :: "string list"
  requires_approval :: bool
  step_id :: string

definition new_PlanStep ::
  "string \<Rightarrow> string \<Rightarrow> string list \<Rightarrow> bool \<Rightarrow> string \<Rightarrow> exn + plan_step" where
  "new_PlanStep d ex ac appr sid =
     require (\<not> blank d) ''description must not be empty''
    (require (\<not> blank ex) ''executor must not be empty''
    (require (\<not> blank sid) ''step_id must not be empty''
    (require (\<not> list_ex blank ac) ''acceptance_criteria must not contain empty values''
    (Inr \<lparr>description = d, executor = ex, step_criteria = ac, requires_approval = appr,
          step_id = sid\<rparr>))))"

record plan =
  steps :: "plan_step list"

section \<open>Evidence\<close>

record artifact =
  art_name :: string
  art_uri :: string
  art_media_type :: "string option"
  art_metadata :: metadata

definition new_ArtifactRef ::
  "string \<Rightarrow> string \<Rightarrow> string option \<Rightarrow> metadata \<Rightarrow> exn + artifact" where
  "new_ArtifactRef n u mt meta =
     require (\<not> blank n) ''name must not be empty''
    (require (\<not> blank u) ''uri must not be empty''
    (require (case mt of None \<Rightarrow> True | Some t \<Rightarrow> \<not> blank t) ''media_type must not be empty''
    (Inr \<lparr>art_name = n, art_uri = u, art_media_type = mt, art_metadata = meta\<rparr>)))"

record state_ref =
  ref_kind :: string
  ref_key :: string
  ref_revision :: int
  ref_checksum :: string
  ref_schema_version :: int

definition new_ExternalStateRef ::
  "string \<Rightarrow> string \<Rightarrow> int \<Rightarrow> string \<Rightarrow> int \<Rightarrow> exn + state_ref" where
  "new_ExternalStateRef k ky rv chk ver =
     require (\<not> blank k) ''kind must not be empty''
    (require (\<not> blank ky) ''key must not be empty''
    (require (\<not> blank chk) ''checksum must not be empty''
    (require (\<not> (rv < 1 \<or> ver < 1)) ''external state reference versions must be positive''
    (Inr \<lparr>ref_kind = k, ref_key = ky, ref_revision = rv, ref_checksum = chk,
          ref_schema_version = ver\<rparr>))))"

record execution_result =
  ex_output :: string
  ex_artifacts :: "artifact list"
  ex_metadata :: metadata

record verification_result =
  passed :: bool
  v_feedback :: string
  score :: "pyfloat option"
  evidence :: "string list"
  failed_criteria :: "string list"

definition valid_score :: "pyfloat option \<Rightarrow> bool" where
  "valid_score s =
     (case s of None \<Rightarrow> True | Some x \<Rightarrow> float_le (Fin 0) x \<and> float_le x (Fin 100))"

definition new_VerificationResult ::
  "bool \<Rightarrow> string \<Rightarrow> pyfloat option \<Rightarrow> string list \<Rightarrow> string list \<Rightarrow> exn + verification_result" where
  "new_VerificationResult p fb sc ev fc =
     require (valid_score sc) ''score must be between 0 and 100''
    (require (\<not> list_ex blank ev) ''evidence must not contain empty values''
    (require (\<not> list_ex blank fc) ''failed_criteria must not contain empty values''
    (require (\<not> (p \<and> fc \<noteq> [])) ''passed verification must not contain failed criteria''
    (Inr \<lparr>passed = p, v_feedback = fb, score = sc, evidence = ev, failed_criteria = fc\<rparr>))))"

record iteration_record =
  rec_cycle :: int
  rec_step_index :: int
  rec_step :: plan_step
  rec_execution :: execution_result
  rec_verification :: verification_result
  rec_attempt :: int

definition new_IterationRecord ::
  "int \<Rightarrow> int \<Rightarrow> plan_step \<Rightarrow> execution_result \<Rightarrow> verification_result \<Rightarrow> int \<Rightarrow> exn + iteration_record"
where
  "new_IterationRecord cyc idx st ex ver att =
     require (cyc \<ge> 1) ''cycle must be at least 1''
    (require (idx \<ge> 0) ''step_index must not be negative''
    (require (att \<ge> 1) ''attempt must be at least 1''
    (Inr \<lparr>rec_cycle = cyc, rec_step_index = idx, rec_step = st, rec_execution = ex,
          rec_verification = ver, rec_attempt = att\<rparr>)))"

section \<open>The loop context\<close>

text \<open>
  \<open>LoopContext\<close> is the one mutable object of the controller. The model passes it by value, so
  \<open>LoopContext.snapshot()\<close>, which copies every container, is the value itself: later updates of
  the context cannot reach a snapshot.
\<close>

record loop_context =
  request :: loop_request
  run_id :: string
  status :: loop_status
  records :: "iteration_record list"
  feedback :: string
  current_plan :: "plan option"
  current_step_index :: int
  cycle_count :: int
  total_attempts :: int
  completed_steps :: int
  stop_reason_of :: "stop_reason option"
  error :: string
  pending_interaction :: "interaction option"
  human_interactions :: "human_record list"
  approved_step_ids :: "string set"
  replan_required :: bool
  completion_approved :: bool
  active_operation_id :: "string option"
  pending_execution :: "execution_result option"
  pending_attempt :: "int option"
  last_heartbeat_at :: "datetime option"
  event_sequence :: int
  revision :: int
  active_elapsed_seconds :: rat
  active_started_at :: "datetime option"
  propagation_context :: "(string \<times> string) list"
  external_state_refs :: "state_ref list"
  started_at :: datetime
  updated_at :: datetime

definition new_LoopContext :: "loop_request \<Rightarrow> string \<Rightarrow> datetime \<Rightarrow> datetime \<Rightarrow> loop_context" where
  "new_LoopContext req rid started updated =
     \<lparr>request = req, run_id = rid, status = CREATED, records = [], feedback = [],
      current_plan = None, current_step_index = 0, cycle_count = 0, total_attempts = 0,
      completed_steps = 0, stop_reason_of = None, error = [], pending_interaction = None,
      human_interactions = [], approved_step_ids = {}, replan_required = False,
      completion_approved = False, active_operation_id = None, pending_execution = None,
      pending_attempt = None, last_heartbeat_at = None, event_sequence = 0, revision = 0,
      active_elapsed_seconds = 0, active_started_at = None, propagation_context = [],
      external_state_refs = [], started_at = started, updated_at = updated\<rparr>"

definition snapshot :: "loop_context \<Rightarrow> loop_context" where
  "snapshot c =
     \<lparr>request = request c, run_id = run_id c, status = status c, records = records c,
      feedback = feedback c, current_plan = current_plan c,
      current_step_index = current_step_index c, cycle_count = cycle_count c,
      total_attempts = total_attempts c, completed_steps = completed_steps c,
      stop_reason_of = stop_reason_of c, error = error c,
      pending_interaction = pending_interaction c, human_interactions = human_interactions c,
      approved_step_ids = approved_step_ids c, replan_required = replan_required c,
      completion_approved = completion_approved c, active_operation_id = active_operation_id c,
      pending_execution = pending_execution c, pending_attempt = pending_attempt c,
      last_heartbeat_at = last_heartbeat_at c, event_sequence = event_sequence c,
      revision = revision c, active_elapsed_seconds = active_elapsed_seconds c,
      active_started_at = active_started_at c, propagation_context = propagation_context c,
      external_state_refs = external_state_refs c, started_at = started_at c,
      updated_at = updated_at c\<rparr>"

lemma snapshot_id [simp]: "snapshot c = c"
  by (simp add: snapshot_def)

record loop_result =
  lr_run_id :: string
  lr_status :: loop_status
  lr_output :: string
  lr_cycles :: int
  lr_total_attempts :: int
  lr_completed_steps :: int
  lr_records :: "iteration_record list"
  lr_stop_reason :: "stop_reason option"
  lr_error :: string
  lr_pending_interaction :: "interaction option"
  lr_human_interactions :: "human_record list"
  lr_active_operation_id :: "string option"
  lr_last_heartbeat_at :: "datetime option"
  lr_revision :: int
  lr_event_sequence :: int

definition result_from_context :: "loop_context \<Rightarrow> loop_result" where
  "result_from_context c =
     \<lparr>lr_run_id = run_id c, lr_status = status c,
      lr_output = (if records c \<noteq> [] then ex_output (rec_execution (last (records c))) else []),
      lr_cycles = cycle_count c, lr_total_attempts = total_attempts c,
      lr_completed_steps = completed_steps c, lr_records = records c,
      lr_stop_reason = stop_reason_of c, lr_error = error c,
      lr_pending_interaction = pending_interaction c,
      lr_human_interactions = human_interactions c,
      lr_active_operation_id = active_operation_id c,
      lr_last_heartbeat_at = last_heartbeat_at c, lr_revision = revision c,
      lr_event_sequence = event_sequence c\<rparr>"

section \<open>Decisions and events\<close>

datatype approval_decision = APPROVED | REJECTED | DEFERRED

datatype retry_action = RA_RETRY | RA_REPLAN | RA_FAIL

record retry_decision =
  rd_action :: retry_action
  delay_seconds :: pyfloat

definition new_RetryDecision :: "retry_action \<Rightarrow> pyfloat \<Rightarrow> exn + retry_decision" where
  "new_RetryDecision a d =
     require (isfinite d \<and> \<not> float_less d (Fin 0)) ''delay_seconds must be finite and not negative''
       (Inr \<lparr>rd_action = a, delay_seconds = d\<rparr>)"

datatype completion_action = CA_ACCEPT | CA_REPLAN | CA_REQUEST_HUMAN | CA_STOP

fun completion_action_value :: "completion_action \<Rightarrow> string" where
  "completion_action_value CA_ACCEPT = ''accept''"
| "completion_action_value CA_REPLAN = ''replan''"
| "completion_action_value CA_REQUEST_HUMAN = ''request_human''"
| "completion_action_value CA_STOP = ''stop''"

record completion_decision =
  cd_action :: completion_action
  cd_feedback :: string
  cd_interaction :: "interaction option"

definition new_CompletionDecision ::
  "completion_action \<Rightarrow> string \<Rightarrow> interaction option \<Rightarrow> exn + completion_decision" where
  "new_CompletionDecision a fb i =
     require (\<not> (a = CA_REQUEST_HUMAN \<and> i = None)) ''request_human decision requires an interaction''
    (require (\<not> (a \<noteq> CA_REQUEST_HUMAN \<and> i \<noteq> None))
       ''interaction is only valid for request_human decision''
    (Inr \<lparr>cd_action = a, cd_feedback = fb, cd_interaction = i\<rparr>))"

datatype event_type =
    LOOP_STARTED | LOOP_RESUMED | LOOP_RECOVERED | LOOP_HEARTBEAT
  | PLANNING_STARTED | PLAN_CREATED
  | APPROVAL_REQUESTED | APPROVAL_GRANTED
  | HUMAN_INTERACTION_REQUESTED | HUMAN_RESPONSE_SUBMITTED
  | HUMAN_APPROVED | HUMAN_REJECTED | HUMAN_REVISED | HUMAN_INPUT_PROVIDED
  | LOOP_PAUSED | COMPONENT_RETRYING
  | EXECUTION_STARTED | EXECUTION_DISPATCHED | EXECUTION_COMPLETED
  | VERIFICATION_STARTED | ITERATION_COMPLETED
  | COMPLETION_EVALUATION_STARTED | COMPLETION_EVALUATION_COMPLETED
  | COMPLETION_REPLAN_REQUESTED
  | LOOP_COMPLETED | LOOP_BLOCKED | LOOP_CANCELLED | LOOP_TIMED_OUT | LOOP_FAILED

record loop_event =
  ev_type :: event_type
  ev_context :: loop_context
  ev_occurred_at :: datetime
  ev_detail :: string
  ev_sequence :: int

section \<open>What the constructors guarantee\<close>

lemmas constructor_defs =
  new_HumanInteractionRequest_def new_HumanResponse_def new_HumanInteractionRecord_def
  new_LoopLimits_def new_LoopRequest_def new_PlanStep_def new_ArtifactRef_def
  new_ExternalStateRef_def new_VerificationResult_def new_IterationRecord_def
  new_RetryDecision_def new_CompletionDecision_def

fun_cases isfiniteE: "isfinite x"

lemma new_LoopLimits_bounds:
  "new_LoopLimits mc ma ms t = Inr l \<Longrightarrow>
     max_cycles l \<ge> 1 \<and> max_attempts l \<ge> 1 \<and> max_steps_per_plan l \<ge> 1
     \<and> (case timeout_seconds l of None \<Rightarrow> True | Some x \<Rightarrow> \<exists>r > 0. x = Fin r)"
  by (auto simp: new_LoopLimits_def valid_timeout_def split: option.splits elim!: isfiniteE)

lemma new_VerificationResult_score:
  "new_VerificationResult p fb sc ev fc = Inr v \<Longrightarrow> score v = Some x
     \<Longrightarrow> \<exists>r. x = Fin r \<and> 0 \<le> r \<and> r \<le> 100"
  by (cases x) (auto simp: new_VerificationResult_def valid_score_def)

lemma new_HumanResponse_content:
  "new_HumanResponse iid a c k m d = Inr r \<Longrightarrow> hr_action r \<in> {REVISE, PROVIDE_INPUT}
     \<Longrightarrow> \<not> blank (hr_content r)"
  by (auto simp: new_HumanResponse_def)

lemma new_RetryDecision_delay:
  "new_RetryDecision a d = Inr r \<Longrightarrow> \<exists>x \<ge> 0. delay_seconds r = Fin x"
  by (cases d) (auto simp: new_RetryDecision_def not_less)

lemma result_status [simp]: "lr_status (result_from_context c) = status c"
  by (simp add: result_from_context_def)

lemma result_run_id [simp]: "lr_run_id (result_from_context c) = run_id c"
  by (simp add: result_from_context_def)

lemma result_stop_reason [simp]: "lr_stop_reason (result_from_context c) = stop_reason_of c"
  by (simp add: result_from_context_def)

end
