(* ===== verification/LoopController.thy ===== *)
theory LoopController
  imports LoopModels
begin

text \<open>
  \<open>AgentLoop\<close> of \<open>matterloop_core/loop/controller.py\<close>, method by method. The controller's
  attributes and locals that survive a call are the fields of \<open>loop_state\<close>; the components it
  awaits are the fields of \<open>loop_env\<close>, parameters of the model. Each method is a program over
  the state: what it changed before an exception stays changed.
\<close>

section \<open>Components and state\<close>

text \<open>
  An awaited component call is the script of what the polling loop of \<open>_await_component\<close> sees:
  \<open>Pending\<close> for a poll that finds the task unfinished, \<open>Done\<close> for its exception or result, and
  \<open>Hang\<close> where the observation of a run that still waits ends.
\<close>

datatype 'r task = Pending "'r task" | Done "exn + 'r" | Hang

text \<open>
  The environment of a controller. Every field may read and change the world \<open>'w\<close>, so repeated
  calls may answer differently; the ones that return a sum may raise. \<open>e_plan name c\<close> is
  \<open>planners.get(name).plan(c)\<close>, so it raises for an unknown name, and likewise \<open>e_execute\<close> and
  \<open>e_verify\<close>. \<open>e_prepare\<close> is present when the publisher is a \<open>CheckpointPreparer\<close>; its contract
  lets it set only the two fields it returns. \<open>e_cancels\<close> are the arguments of the \<open>cancel\<close>
  calls made by other threads since the flag was last read. \<open>e_wait\<close> is one \<open>asyncio.wait\<close>
  with its timeout, \<open>e_reap\<close> the cancellation of an unfinished task.
\<close>

record 'w loop_env =
  e_now :: "'w \<Rightarrow> datetime \<times> 'w"
  e_mono :: "'w \<Rightarrow> rat \<times> 'w"
  e_uuid :: "'w \<Rightarrow> string \<times> 'w"
  e_wait :: "rat \<Rightarrow> 'w \<Rightarrow> (exn + unit) \<times> 'w"
  e_reap :: "'w \<Rightarrow> (exn + unit) \<times> 'w"
  e_cancels :: "'w \<Rightarrow> string list \<times> 'w"
  e_save :: "loop_context \<Rightarrow> int \<Rightarrow> 'w \<Rightarrow> (exn + int) \<times> 'w"
  e_load :: "string \<Rightarrow> 'w \<Rightarrow> (exn + loop_context option) \<times> 'w"
  e_prepare :: "(loop_context \<Rightarrow> event_type list \<Rightarrow> 'w
                 \<Rightarrow> (exn + (string \<times> string) list \<times> state_ref list) \<times> 'w) option"
  e_publish :: "loop_event \<Rightarrow> 'w \<Rightarrow> (exn + unit) \<times> 'w"
  e_can_continue :: "loop_context \<Rightarrow> 'w \<Rightarrow> (exn + bool) \<times> 'w"
  e_plan :: "string \<Rightarrow> loop_context \<Rightarrow> 'w \<Rightarrow> (exn + plan task) \<times> 'w"
  e_execute :: "string \<Rightarrow> plan_step \<Rightarrow> loop_context \<Rightarrow> 'w \<Rightarrow> (exn + execution_result task) \<times> 'w"
  e_verify :: "string \<Rightarrow> plan_step \<Rightarrow> execution_result \<Rightarrow> loop_context \<Rightarrow> 'w
               \<Rightarrow> (exn + verification_result task) \<times> 'w"
  e_decide :: "plan_step \<Rightarrow> loop_context \<Rightarrow> 'w \<Rightarrow> (exn + approval_decision task) \<times> 'w"
  e_evaluate :: "(loop_context \<Rightarrow> 'w \<Rightarrow> (exn + completion_decision task) \<times> 'w) option"
  e_retry :: "exn \<Rightarrow> int \<Rightarrow> loop_context \<Rightarrow> 'w \<Rightarrow> (exn + retry_decision) \<times> 'w"
  e_sleep :: "pyfloat \<Rightarrow> 'w \<Rightarrow> (exn + unit task) \<times> 'w"
  heartbeat_interval :: rat
  poll_interval :: rat

text \<open>
  The trace records the observable actions in order: committed saves, published events and
  component calls. The code keeps no such list; the theorems are stated over it.
\<close>

datatype action =
    Saved loop_context int
  | Published loop_event
  | PlannerCalled
  | ExecutorCalled plan_step
  | VerifierCalled plan_step execution_result
  | GateCalled plan_step
  | EvaluatorCalled

record 'w loop_state =
  ctx :: loop_context
  world :: 'w
  cancelled :: "string set"
  trace :: "action list"

type_synonym ('w, 'a) loop = "('w loop_state, exn, 'a) prog"

definition envE :: "('w \<Rightarrow> (exn + 'a) \<times> 'w) \<Rightarrow> ('w, 'a) loop" where
  "envE f = (\<lambda>s. case f (world s) of (r, w) \<Rightarrow> (r, s\<lparr>world := w\<rparr>))"

definition askE :: "('w \<Rightarrow> 'a \<times> 'w) \<Rightarrow> ('w, 'a) loop" where
  "askE f = (\<lambda>s. case f (world s) of (x, w) \<Rightarrow> (Inr x, s\<lparr>world := w\<rparr>))"

definition ctxE :: "('w, loop_context) loop" where
  "ctxE = (\<lambda>s. (Inr (ctx s), s))"

definition updE :: "(loop_context \<Rightarrow> loop_context) \<Rightarrow> ('w, unit) loop" where
  "updE f = modifyE (\<lambda>s. s\<lparr>ctx := f (ctx s)\<rparr>)"

definition logE :: "action \<Rightarrow> ('w, unit) loop" where
  "logE a = modifyE (\<lambda>s. s\<lparr>trace := trace s @ [a]\<rparr>)"

section \<open>Timers\<close>

text \<open>\<open>_start_active_timer\<close>, \<open>_pause_active_timer\<close>, \<open>_settle_crashed_timer\<close>.\<close>

definition start_active_timer :: "'w loop_env \<Rightarrow> ('w, unit) loop" where
  "start_active_timer env = bindE ctxE (\<lambda>c.
     if active_started_at c = None then
       bindE (askE (e_now env)) (\<lambda>t. updE (\<lambda>c. c\<lparr>active_started_at := Some t\<rparr>))
     else returnE ())"

definition pause_active_timer :: "'w loop_env \<Rightarrow> ('w, unit) loop" where
  "pause_active_timer env = bindE ctxE (\<lambda>c.
     case active_started_at c of
       None \<Rightarrow> returnE ()
     | Some t0 \<Rightarrow> bindE (askE (e_now env)) (\<lambda>t.
         updE (\<lambda>c. c\<lparr>active_elapsed_seconds := active_elapsed_seconds c + max 0 (total_seconds t t0),
                     active_started_at := None\<rparr>)))"

definition settle_crashed_timer :: "('w, unit) loop" where
  "settle_crashed_timer = bindE ctxE (\<lambda>c.
     case active_started_at c of
       None \<Rightarrow> returnE ()
     | Some t0 \<Rightarrow>
         let observed_until = (case last_heartbeat_at c of Some t \<Rightarrow> t | None \<Rightarrow> updated_at c) in
         updE (\<lambda>c. c\<lparr>active_elapsed_seconds :=
                       active_elapsed_seconds c + max 0 (total_seconds observed_until t0),
                     active_started_at := None\<rparr>))"

text \<open>\<open>_remaining_timeout\<close>: \<open>None\<close> without a limit; a finite limit minus the active time.\<close>

definition remaining_timeout :: "'w loop_env \<Rightarrow> ('w, pyfloat option) loop" where
  "remaining_timeout env = bindE ctxE (\<lambda>c.
     case timeout_seconds (limits (request c)) of
       None \<Rightarrow> returnE None
     | Some lm \<Rightarrow>
         bindE (case active_started_at c of
                  None \<Rightarrow> returnE (active_elapsed_seconds c)
                | Some t0 \<Rightarrow> bindE (askE (e_now env)) (\<lambda>t.
                    returnE (active_elapsed_seconds c + total_seconds t t0)))
           (\<lambda>elapsed. returnE (Some (case lm of Fin x \<Rightarrow> Fin (x - elapsed) | y \<Rightarrow> y))))"

section \<open>Commits and transitions\<close>

text \<open>\<open>_checkpoint_and_emit_many\<close>: save under the current revision, then publish in order.\<close>

fun publish_all :: "'w loop_env \<Rightarrow> loop_context \<Rightarrow> string \<Rightarrow> int \<Rightarrow> event_type list \<Rightarrow> ('w, unit) loop" where
  "publish_all env snap detail sq [] = returnE ()"
| "publish_all env snap detail sq (et # ets) =
     bindE (askE (e_now env)) (\<lambda>t.
       let ev = \<lparr>ev_type = et, ev_context = snap, ev_occurred_at = t, ev_detail = detail,
                 ev_sequence = sq\<rparr> in
       thenE (envE (e_publish env ev))
      (thenE (logE (Published ev))
             (publish_all env snap detail (sq + 1) ets)))"

definition commit :: "'w loop_env \<Rightarrow> ('w, unit) loop" where
  "commit env = bindE ctxE (\<lambda>c.
     bindE (envE (e_save env (snapshot c) (revision c))) (\<lambda>rv.
       if rv \<le> revision c then
         raiseE (CheckpointConflict ''checkpoint revision did not advance'')
       else
         thenE (logE (Saved (snapshot c) rv))
               (updE (\<lambda>c. c\<lparr>revision := rv\<rparr>))))"

definition checkpoint_and_emit_many ::
  "'w loop_env \<Rightarrow> event_type list \<Rightarrow> string \<Rightarrow> ('w, unit) loop" where
  "checkpoint_and_emit_many env ets detail =
     (if ets = [] then returnE () else
      bindE (askE (e_now env)) (\<lambda>t.
      thenE (updE (\<lambda>c. c\<lparr>updated_at := t\<rparr>))
     (bindE ctxE (\<lambda>c0. let first_sequence = event_sequence c0 + 1 in
      thenE (updE (\<lambda>c. c\<lparr>event_sequence := event_sequence c + int (length ets)\<rparr>))
     (thenE (case e_prepare env of
               None \<Rightarrow> returnE ()
             | Some p \<Rightarrow> bindE ctxE (\<lambda>c. bindE (envE (p c ets)) (\<lambda>(prop, refs).
                 updE (\<lambda>c. c\<lparr>propagation_context := prop, external_state_refs := refs\<rparr>))))
     (thenE (commit env)
     (bindE ctxE (\<lambda>snap. publish_all env (snapshot snap) detail first_sequence ets))))))))"

definition checkpoint_and_emit :: "'w loop_env \<Rightarrow> event_type \<Rightarrow> string \<Rightarrow> ('w, unit) loop" where
  "checkpoint_and_emit env et detail = checkpoint_and_emit_many env [et] detail"

definition set_status :: "loop_status \<Rightarrow> ('w, unit) loop" where
  "set_status target = bindE ctxE (\<lambda>c.
     case ensure_transition (status c) target of
       Inl (a, b) \<Rightarrow> raiseE (InvalidTransition a b)
     | Inr _ \<Rightarrow> updE (\<lambda>c. c\<lparr>status := target\<rparr>))"

definition transition :: "'w loop_env \<Rightarrow> loop_status \<Rightarrow> event_type \<Rightarrow> ('w, unit) loop" where
  "transition env target et =
     thenE (set_status target)
    (bindE (askE (e_now env)) (\<lambda>t.
     thenE (updE (\<lambda>c. c\<lparr>updated_at := t\<rparr>))
           (checkpoint_and_emit env et [])))"

definition stop :: "'w loop_env \<Rightarrow> loop_status \<Rightarrow> stop_reason \<Rightarrow> event_type \<Rightarrow> ('w, unit) loop" where
  "stop env st reason et =
     thenE (pause_active_timer env)
    (thenE (updE (\<lambda>c. c\<lparr>stop_reason_of := Some reason\<rparr>))
    (bindE ctxE (\<lambda>c.
       if status c = st then checkpoint_and_emit env et [] else transition env st et)))"

definition fail :: "'w loop_env \<Rightarrow> exn \<Rightarrow> ('w, unit) loop" where
  "fail env e =
     thenE (pause_active_timer env)
    (thenE (updE (\<lambda>c. c\<lparr>stop_reason_of := Some SR_COMPONENT_ERROR, error := exn_text e\<rparr>))
    (bindE ctxE (\<lambda>c.
       if is_terminal (status c) then returnE () else transition env FAILED LOOP_FAILED)))"

section \<open>Cancellation and safe boundaries\<close>

text \<open>\<open>cancel\<close>: registers a request under the stripped identifier.\<close>

definition cancel :: "string \<Rightarrow> string set \<Rightarrow> (exn + bool) \<times> string set" where
  "cancel rid cs =
     (let normalized = strip rid in
      if normalized = [] then (Inl (ValueError ''run_id must not be empty''), cs)
      else (Inr (normalized \<notin> cs), insert normalized cs))"

definition is_cancelled :: "'w loop_env \<Rightarrow> ('w, bool) loop" where
  "is_cancelled env =
     bindE (askE (e_cancels env)) (\<lambda>rids.
     thenE (modifyE (\<lambda>s. s\<lparr>cancelled := fold (\<lambda>rid cs. snd (cancel rid cs)) rids (cancelled s)\<rparr>))
           (\<lambda>s. (Inr (run_id (ctx s) \<in> cancelled s), s)))"

definition stop_at_safe_boundary :: "'w loop_env \<Rightarrow> ('w, bool) loop" where
  "stop_at_safe_boundary env =
     bindE (is_cancelled env) (\<lambda>b.
     if b then thenE (stop env CANCELLED SR_CANCELLED LOOP_CANCELLED) (returnE True)
     else bindE ctxE (\<lambda>c. bindE (envE (e_can_continue env (snapshot c))) (\<lambda>ok.
       if \<not> ok then thenE (stop env BLOCKED SR_POLICY_REJECTED LOOP_BLOCKED) (returnE True)
       else returnE False)))"

section \<open>Supervised component calls\<close>

text \<open>
  \<open>unfinished env m\<close> is \<open>m\<close> under the \<open>finally\<close> of \<open>_await_component\<close> while the task has not
  finished: an exception that leaves \<open>m\<close> first cancels and reaps the task.
\<close>

definition unfinished :: "'w loop_env \<Rightarrow> ('w, 'a) loop \<Rightarrow> ('w, 'a) loop" where
  "unfinished env m = tryE m (\<lambda>e.
     if e = Suspended \<or> e = FuelOut then raiseE e
     else thenE (envE (e_reap env)) (raiseE e))"

definition stop_run :: "'w loop_env \<Rightarrow> loop_status \<Rightarrow> stop_reason \<Rightarrow> event_type \<Rightarrow> ('w, 'a) loop" where
  "stop_run env st reason et = thenE (stop env st reason et) (raiseE Stopped)"

text \<open>One turn of the polling loop up to the end of \<open>asyncio.wait\<close>; \<open>k\<close> is the rest of the turn.\<close>

definition expired :: "pyfloat option \<Rightarrow> bool" where
  "expired rem = (case rem of None \<Rightarrow> False | Some x \<Rightarrow> float_le x (Fin 0))"

definition wait_time :: "'w loop_env \<Rightarrow> rat \<Rightarrow> rat \<Rightarrow> pyfloat option \<Rightarrow> rat" where
  "wait_time env next_heartbeat now rem =
     (let w = min (poll_interval env) (max 0 (next_heartbeat - now)) in
      case rem of Some (Fin x) \<Rightarrow> min w x | _ \<Rightarrow> w)"

definition poll_turn :: "'w loop_env \<Rightarrow> rat \<Rightarrow> ('w, 'r) loop \<Rightarrow> ('w, 'r) loop" where
  "poll_turn env next_heartbeat k =
     bindE (is_cancelled env) (\<lambda>b.
     if b then thenE (unfinished env (envE (e_reap env)))
                     (stop_run env CANCELLED SR_CANCELLED LOOP_CANCELLED)
     else bindE (remaining_timeout env) (\<lambda>rem.
       if expired rem then thenE (unfinished env (envE (e_reap env)))
                                 (stop_run env TIMED_OUT SR_TIMED_OUT LOOP_TIMED_OUT)
       else bindE (askE (e_mono env)) (\<lambda>now.
         thenE (unfinished env (envE (e_wait env (wait_time env next_heartbeat now rem)))) k)))"

definition finish_task :: "'w loop_env \<Rightarrow> exn + 'r \<Rightarrow> ('w, 'r) loop" where
  "finish_task env r =
     bindE (is_cancelled env) (\<lambda>b.
     if b then stop_run env CANCELLED SR_CANCELLED LOOP_CANCELLED else liftE r)"

definition heartbeat :: "'w loop_env \<Rightarrow> string \<Rightarrow> ('w, unit) loop" where
  "heartbeat env component =
     unfinished env
      (bindE (askE (e_now env)) (\<lambda>t.
       thenE (updE (\<lambda>c. c\<lparr>last_heartbeat_at := Some t\<rparr>))
             (checkpoint_and_emit env LOOP_HEARTBEAT component)))"

primrec await_task :: "'w loop_env \<Rightarrow> string \<Rightarrow> 'r task \<Rightarrow> rat \<Rightarrow> ('w, 'r) loop" where
  "await_task env component (Done r) next_heartbeat = poll_turn env next_heartbeat (finish_task env r)"
| "await_task env component Hang next_heartbeat = poll_turn env next_heartbeat (raiseE Suspended)"
| "await_task env component (Pending t) next_heartbeat =
     poll_turn env next_heartbeat
      (bindE (askE (e_mono env)) (\<lambda>now.
        if now \<ge> next_heartbeat
        then thenE (heartbeat env component)
                   (await_task env component t (now + heartbeat_interval env))
        else await_task env component t next_heartbeat))"

definition await_component :: "'w loop_env \<Rightarrow> string \<Rightarrow> 'r task \<Rightarrow> ('w, 'r) loop" where
  "await_component env component t =
     bindE (askE (e_mono env)) (\<lambda>now. await_task env component t (now + heartbeat_interval env))"

section \<open>Human interaction, approval\<close>

definition request_human_interaction ::
  "'w loop_env \<Rightarrow> interaction \<Rightarrow> stop_reason \<Rightarrow> ('w, unit) loop" where
  "request_human_interaction env i reason = bindE ctxE (\<lambda>c.
     if pending_interaction c \<noteq> None then
       raiseE (HumanNotPending ''run already has a pending human interaction'')
     else
       thenE (updE (\<lambda>c. c\<lparr>pending_interaction := Some i, stop_reason_of := Some reason\<rparr>))
      (thenE (pause_active_timer env)
      (thenE (if status c = PAUSED then checkpoint_and_emit env HUMAN_INTERACTION_REQUESTED []
              else transition env PAUSED HUMAN_INTERACTION_REQUESTED)
             (checkpoint_and_emit env LOOP_PAUSED []))))"

text \<open>
  The prompt is Chinese text followed by the step's description; the code points outside the
  range of \<open>char\<close> are transliterated.
\<close>

definition approval_prompt :: "plan_step \<Rightarrow> string" where
  "approval_prompt st = ''approve step: '' @ description st"

definition approve :: "'w loop_env \<Rightarrow> plan_step \<Rightarrow> ('w, bool) loop" where
  "approve env st = bindE ctxE (\<lambda>c.
     if step_id st \<in> approved_step_ids c then
       thenE (checkpoint_and_emit env APPROVAL_GRANTED [])
      (thenE (transition env EXECUTING EXECUTION_STARTED) (returnE True))
     else
       thenE (transition env WAITING_APPROVAL APPROVAL_REQUESTED)
      (bindE ctxE (\<lambda>c.
       bindE (envE (e_decide env st (snapshot c))) (\<lambda>t.
       thenE (logE (GateCalled st))
      (bindE (await_component env ''approval_gate'' t) (\<lambda>decision.
         case decision of
           APPROVED \<Rightarrow>
             thenE (checkpoint_and_emit env APPROVAL_GRANTED [])
            (thenE (transition env EXECUTING EXECUTION_STARTED) (returnE True))
         | DEFERRED \<Rightarrow>
             bindE (askE (e_uuid env)) (\<lambda>iid.
             bindE (askE (e_now env)) (\<lambda>now.
             bindE (liftE (new_HumanInteractionRequest APPROVAL (approval_prompt st)
                      [APPROVE, REJECT, REVISE] iid (Some (step_id st))
                      [(PStr ''executor'', PStr (executor st))] now)) (\<lambda>i.
             thenE (request_human_interaction env i SR_APPROVAL_DEFERRED) (returnE False))))
         | REJECTED \<Rightarrow>
             thenE (stop env BLOCKED SR_APPROVAL_REJECTED LOOP_BLOCKED) (returnE False)))))))"

section \<open>Execution with retries\<close>

fun nat_text :: "nat \<Rightarrow> string" where
  "nat_text n =
     (if n < 10 then [char_of (48 + n)] else nat_text (n div 10) @ [char_of (48 + n mod 10)])"

declare nat_text.simps [simp del]

definition int_text :: "int \<Rightarrow> string" where
  "int_text n = (if n < 0 then ''-'' @ nat_text (nat (- n)) else nat_text (nat n))"

definition operation_id :: "loop_context \<Rightarrow> plan_step \<Rightarrow> string" where
  "operation_id c st = run_id c @ '':'' @ int_text (cycle_count c) @ '':'' @ step_id st"

text \<open>
  \<open>_execute\<close>. The loop runs at most \<open>max_attempts - total_attempts\<close> times before it stops at
  the attempt limit; \<open>attempt_fuel\<close> is one more than that, and \<open>LoopRefinement\<close> proves that it is
  never used up.
\<close>

definition attempt_fuel :: "loop_context \<Rightarrow> nat" where
  "attempt_fuel c = Suc (nat (max_attempts (limits (request c)) - total_attempts c))"

definition call_executor ::
  "'w loop_env \<Rightarrow> plan_step \<Rightarrow> string \<Rightarrow> int \<Rightarrow> ('w, (execution_result \<times> int) option) loop" where
  "call_executor env st op attempt =
     bindE ctxE (\<lambda>c.
     bindE (envE (e_execute env (executor st) st (snapshot c))) (\<lambda>t.
     thenE (logE (ExecutorCalled st))
    (bindE (await_component env (''executor:'' @ executor st) t) (\<lambda>result.
     thenE (updE (\<lambda>c. c\<lparr>pending_execution := Some result\<rparr>))
    (thenE (checkpoint_and_emit env EXECUTION_COMPLETED op)
           (returnE (Some (result, attempt))))))))"

text \<open>The two \<open>except\<close> clauses; \<open>again\<close> is the next turn of the loop.\<close>

definition apply_retry ::
  "'w loop_env \<Rightarrow> int \<Rightarrow> ('w, (execution_result \<times> int) option) loop \<Rightarrow> exn
   \<Rightarrow> ('w, (execution_result \<times> int) option) loop"
where
  "apply_retry env attempt again e =
     bindE ctxE (\<lambda>c. bindE (envE (e_retry env e attempt (snapshot c))) (\<lambda>d.
       case rd_action d of
         RA_FAIL \<Rightarrow> raiseE e
       | RA_REPLAN \<Rightarrow>
           thenE (updE (\<lambda>c. c\<lparr>feedback := exn_text e, current_plan := None,
                              current_step_index := 0, active_operation_id := None,
                              pending_attempt := None\<rparr>))
          (thenE (transition env PLANNING COMPONENT_RETRYING) (returnE None))
       | RA_RETRY \<Rightarrow>
           thenE (checkpoint_and_emit env COMPONENT_RETRYING (int_text (attempt + 1)))
          (thenE (if delay_seconds d = Fin 0 then returnE ()
                  else bindE (envE (e_sleep env (delay_seconds d)))
                         (await_component env ''retry_backoff''))
                 again)))"

definition retry_handler ::
  "'w loop_env \<Rightarrow> int \<Rightarrow> ('w, (execution_result \<times> int) option) loop \<Rightarrow> exn
   \<Rightarrow> ('w, (execution_result \<times> int) option) loop"
where
  "retry_handler env attempt again e =
     (case e of
        ResourceLimit _ _ \<Rightarrow>
          thenE (updE (\<lambda>c. c\<lparr>active_operation_id := None, pending_attempt := None,
                             error := exn_text e\<rparr>))
         (thenE (stop env BLOCKED SR_BUDGET_EXHAUSTED LOOP_BLOCKED) (returnE None))
      | _ \<Rightarrow> if is_exception e then apply_retry env attempt again e else raiseE e)"

primrec execute_loop ::
  "'w loop_env \<Rightarrow> plan_step \<Rightarrow> string \<Rightarrow> nat \<Rightarrow> int \<Rightarrow> ('w, (execution_result \<times> int) option) loop"
where
  "execute_loop env st op 0 attempt = raiseE FuelOut"
| "execute_loop env st op (Suc n) attempt =
     bindE (stop_at_safe_boundary env) (\<lambda>stopped.
     if stopped then returnE None
     else bindE ctxE (\<lambda>c.
       if total_attempts c \<ge> max_attempts (limits (request c)) then
         thenE (stop env BLOCKED SR_ATTEMPT_LIMIT LOOP_BLOCKED) (returnE None)
       else
         thenE (updE (\<lambda>c. c\<lparr>total_attempts := total_attempts c + 1, pending_attempt := Some attempt\<rparr>))
        (thenE (checkpoint_and_emit env EXECUTION_DISPATCHED op)
        (tryE (call_executor env st op attempt)
              (retry_handler env attempt (execute_loop env st op n (attempt + 1)))))))"

definition execute :: "'w loop_env \<Rightarrow> plan_step \<Rightarrow> ('w, (execution_result \<times> int) option) loop" where
  "execute env st = bindE ctxE (\<lambda>c.
     let op = operation_id c st in
     if active_operation_id c \<notin> {None, Some op} then
       raiseE (LoopNotResumable ''another execution operation is already active'')
     else
       thenE (updE (\<lambda>c. c\<lparr>active_operation_id := Some op\<rparr>))
             (execute_loop env st op (attempt_fuel c) 1))"

section \<open>Plans and cycles\<close>

datatype plan_outcome = PO_COMPLETED | PO_REPLAN | PO_STOPPED

definition verify_step ::
  "'w loop_env \<Rightarrow> string \<Rightarrow> int \<Rightarrow> plan_step \<Rightarrow> execution_result \<Rightarrow> int \<Rightarrow> ('w, verification_result) loop"
where
  "verify_step env verifier idx st ex attempt =
     bindE ctxE (\<lambda>c.
     thenE (whenE (status c \<noteq> VERIFYING) (transition env VERIFYING VERIFICATION_STARTED))
    (bindE ctxE (\<lambda>c.
     bindE (envE (e_verify env verifier st ex (snapshot c))) (\<lambda>t.
     thenE (logE (VerifierCalled st ex))
    (bindE (await_component env (''verifier:'' @ verifier) t) (\<lambda>v.
     bindE ctxE (\<lambda>c.
     bindE (liftE (new_IterationRecord (cycle_count c) idx st ex v attempt)) (\<lambda>r.
     thenE (updE (\<lambda>c. c\<lparr>records := records c @ [r], completed_steps := completed_steps c + 1,
                        current_step_index := idx + 1, feedback := v_feedback v,
                        approved_step_ids := approved_step_ids c - {step_id st},
                        active_operation_id := None, pending_execution := None,
                        pending_attempt := None\<rparr>))
    (thenE (checkpoint_and_emit env ITERATION_COMPLETED [])
           (returnE v))))))))))"

text \<open>
  The part of the loop body of \<open>_execute_plan\<close> that obtains the execution result: a stored
  pending result is reused, otherwise the step is approved and executed. \<open>Inl\<close> is an early
  return of the whole plan.
\<close>

definition obtain_execution ::
  "'w loop_env \<Rightarrow> plan_step \<Rightarrow> ('w, plan_outcome + (execution_result \<times> int)) loop" where
  "obtain_execution env st = bindE ctxE (\<lambda>c.
     case pending_execution c of
       None \<Rightarrow>
         bindE (if requires_approval st then approve env st
                else thenE (whenE (status c \<noteq> EXECUTING) (transition env EXECUTING EXECUTION_STARTED))
                           (returnE True)) (\<lambda>ok.
         if \<not> ok then returnE (Inl PO_STOPPED)
         else bindE (execute env st) (\<lambda>res.
           case res of
             None \<Rightarrow> bindE ctxE (\<lambda>c.
               returnE (Inl (if status c = PLANNING then PO_REPLAN else PO_STOPPED)))
           | Some p \<Rightarrow> returnE (Inr p)))
     | Some ex \<Rightarrow>
         if active_operation_id c \<noteq> Some (operation_id c st) then
           raiseE (LoopNotResumable ''pending execution does not belong to the current plan step'')
         else (case pending_attempt c of
             None \<Rightarrow> raiseE (LoopNotResumable ''pending execution has no attempt number'')
           | Some a \<Rightarrow> returnE (Inr (ex, a))))"

fun execute_steps :: "'w loop_env \<Rightarrow> string \<Rightarrow> (int \<times> plan_step) list \<Rightarrow> ('w, plan_outcome) loop" where
  "execute_steps env verifier [] = returnE PO_COMPLETED"
| "execute_steps env verifier ((idx, st) # rest) =
     thenE (updE (\<lambda>c. c\<lparr>current_step_index := idx\<rparr>))
    (bindE (stop_at_safe_boundary env) (\<lambda>stopped.
     if stopped then returnE PO_STOPPED
     else bindE (obtain_execution env st) (\<lambda>r.
       case r of
         Inl po \<Rightarrow> returnE po
       | Inr (ex, attempt) \<Rightarrow>
           bindE (verify_step env verifier idx st ex attempt) (\<lambda>v.
           if passed v then execute_steps env verifier rest
           else
             thenE (updE (\<lambda>c. c\<lparr>current_plan := None, current_step_index := 0\<rparr>))
            (thenE (transition env PLANNING PLANNING_STARTED) (returnE PO_REPLAN))))))"

definition plan_range :: "int \<Rightarrow> plan \<Rightarrow> (int \<times> plan_step) list" where
  "plan_range k p = drop (nat k) (zip (map int [0..<length (steps p)]) (steps p))"

definition execute_plan :: "'w loop_env \<Rightarrow> plan \<Rightarrow> string \<Rightarrow> ('w, plan_outcome) loop" where
  "execute_plan env p verifier = bindE ctxE (\<lambda>c.
     execute_steps env verifier (plan_range (current_step_index c) p))"

definition complete_run :: "'w loop_env \<Rightarrow> ('w, bool) loop" where
  "complete_run env = thenE (stop env COMPLETED SR_COMPLETED LOOP_COMPLETED) (returnE True)"

definition finish_plan_outcome :: "'w loop_env \<Rightarrow> plan_outcome \<Rightarrow> ('w, bool) loop" where
  "finish_plan_outcome env po =
     (case po of
        PO_STOPPED \<Rightarrow> returnE True
      | PO_REPLAN \<Rightarrow> returnE False
      | PO_COMPLETED \<Rightarrow> bindE ctxE (\<lambda>c.
          if completion_approved c then
            thenE (updE (\<lambda>c. c\<lparr>completion_approved := False\<rparr>)) (complete_run env)
          else (case e_evaluate env of
              None \<Rightarrow> complete_run env
            | Some evaluate \<Rightarrow>
                thenE (checkpoint_and_emit env COMPLETION_EVALUATION_STARTED [])
               (bindE ctxE (\<lambda>c.
                bindE (envE (evaluate (snapshot c))) (\<lambda>t.
                thenE (logE EvaluatorCalled)
               (bindE (await_component env ''completion_evaluator'' t) (\<lambda>d.
                thenE (whenE (cd_feedback d \<noteq> []) (updE (\<lambda>c. c\<lparr>feedback := cd_feedback d\<rparr>)))
               (thenE (checkpoint_and_emit env COMPLETION_EVALUATION_COMPLETED
                         (completion_action_value (cd_action d)))
                (case cd_action d of
                   CA_REPLAN \<Rightarrow>
                     thenE (updE (\<lambda>c. c\<lparr>current_plan := None, current_step_index := 0\<rparr>))
                    (thenE (checkpoint_and_emit env COMPLETION_REPLAN_REQUESTED [])
                    (thenE (transition env PLANNING PLANNING_STARTED) (returnE False)))
                 | CA_REQUEST_HUMAN \<Rightarrow>
                     (case cd_interaction d of
                        None \<Rightarrow> raiseE (RuntimeError ''completion evaluator omitted human interaction'')
                      | Some i \<Rightarrow>
                          thenE (request_human_interaction env i SR_HUMAN_INPUT_REQUIRED)
                                (returnE True))
                 | CA_STOP \<Rightarrow>
                     thenE (stop env BLOCKED SR_COMPLETION_REJECTED LOOP_BLOCKED) (returnE True)
                 | CA_ACCEPT \<Rightarrow> complete_run env))))))))))"

text \<open>
  The \<open>while True\<close> of \<open>_run_cycles\<close>: every turn that goes on raises \<open>cycle_count\<close>, and a turn
  that finds it at the limit stops. \<open>cycle_fuel\<close> is one more than the turns left.
\<close>

definition cycle_fuel :: "loop_context \<Rightarrow> nat" where
  "cycle_fuel c = Suc (nat (max_cycles (limits (request c)) - cycle_count c))"

definition validate_plan :: "plan \<Rightarrow> ('w, unit) loop" where
  "validate_plan p =
     (if distinct (map step_id (steps p)) then returnE ()
      else raiseE (InvalidPlan ''planner returned duplicate step identifiers''))"

definition call_planner :: "'w loop_env \<Rightarrow> string \<Rightarrow> ('w, plan) loop" where
  "call_planner env planner =
     thenE (updE (\<lambda>c. c\<lparr>cycle_count := cycle_count c + 1\<rparr>))
    (bindE ctxE (\<lambda>c.
     bindE (envE (e_plan env planner (snapshot c))) (\<lambda>t.
     thenE (logE PlannerCalled)
           (await_component env (''planner:'' @ planner) t))))"

primrec cycle_loop :: "'w loop_env \<Rightarrow> string \<Rightarrow> string \<Rightarrow> nat \<Rightarrow> ('w, unit) loop" where
  "cycle_loop env planner verifier 0 = raiseE FuelOut"
| "cycle_loop env planner verifier (Suc n) =
     bindE (stop_at_safe_boundary env) (\<lambda>stopped.
     if stopped then returnE ()
     else bindE ctxE (\<lambda>c.
       if cycle_count c \<ge> max_cycles (limits (request c)) then
         stop env BLOCKED SR_CYCLE_LIMIT LOOP_BLOCKED
       else
         thenE (whenE (status c \<noteq> PLANNING) (transition env PLANNING PLANNING_STARTED))
        (bindE (call_planner env planner) (\<lambda>p.
         if steps p = [] then raiseE (InvalidPlan ''planner returned an empty plan'')
         else if int (length (steps p)) > max_steps_per_plan (limits (request c)) then
           thenE (updE (\<lambda>c. c\<lparr>current_plan := None, current_step_index := 0\<rparr>))
                 (stop env BLOCKED SR_STEP_LIMIT LOOP_BLOCKED)
         else
           thenE (validate_plan p)
          (thenE (updE (\<lambda>c. c\<lparr>current_plan := Some p, current_step_index := 0\<rparr>))
          (thenE (checkpoint_and_emit env PLAN_CREATED [])
          (bindE (execute_plan env p verifier) (\<lambda>po.
           bindE (finish_plan_outcome env po) (\<lambda>fin.
             if fin then returnE () else cycle_loop env planner verifier n)))))))))"

definition run_cycles :: "'w loop_env \<Rightarrow> string \<Rightarrow> string \<Rightarrow> bool \<Rightarrow> ('w, unit) loop" where
  "run_cycles env planner verifier continue_current_plan =
     bindE (if continue_current_plan then
              bindE ctxE (\<lambda>c. case current_plan c of
                  None \<Rightarrow> raiseE (LoopNotResumable ''checkpoint has no current plan'')
                | Some p \<Rightarrow> bindE (execute_plan env p verifier) (finish_plan_outcome env))
            else returnE False) (\<lambda>fin.
     if fin then returnE ()
     else bindE ctxE (\<lambda>c. cycle_loop env planner verifier (cycle_fuel c)))"

section \<open>The driver and the public operations\<close>

definition is_stable :: "loop_status \<Rightarrow> bool" where
  "is_stable s \<longleftrightarrow> s \<in> {PAUSED, BLOCKED, COMPLETED, CANCELLED, TIMED_OUT, FAILED}"

definition drive_handler :: "'w loop_env \<Rightarrow> exn \<Rightarrow> ('w, unit) loop" where
  "drive_handler env e =
     (case e of
        Stopped \<Rightarrow> returnE ()
      | Cancelled \<Rightarrow> bindE ctxE (\<lambda>c.
          thenE (whenE (\<not> is_terminal (status c)) (stop env CANCELLED SR_CANCELLED LOOP_CANCELLED))
                (raiseE Cancelled))
      | CheckpointConflict _ \<Rightarrow> raiseE e
      | ResourceLimit _ _ \<Rightarrow>
          thenE (updE (\<lambda>c. c\<lparr>error := exn_text e\<rparr>))
                (stop env BLOCKED SR_BUDGET_EXHAUSTED LOOP_BLOCKED)
      | _ \<Rightarrow> if is_exception e then thenE (fail env e) (raiseE e) else raiseE e)"

definition discard_cancellation :: "('w, unit) loop" where
  "discard_cancellation = modifyE (\<lambda>s. s\<lparr>cancelled := cancelled s - {run_id (ctx s)}\<rparr>)"

definition finallyE :: "('w, unit) loop \<Rightarrow> ('w, unit) loop \<Rightarrow> ('w, unit) loop" where
  "finallyE m k = thenE (tryE m (\<lambda>e.
     if e = Suspended \<or> e = FuelOut then raiseE e else thenE k (raiseE e))) k"

definition drive :: "'w loop_env \<Rightarrow> string \<Rightarrow> string \<Rightarrow> bool \<Rightarrow> ('w, loop_result) loop" where
  "drive env planner verifier continue_current_plan =
     thenE (finallyE
       (tryE (thenE (run_cycles env planner verifier continue_current_plan)
                    (bindE ctxE (\<lambda>c. whenE (\<not> is_stable (status c))
                       (fail env (RuntimeError ''Loop driver exited without a stable terminal state'')))))
             (drive_handler env))
       discard_cancellation)
    (bindE ctxE (\<lambda>c. returnE (result_from_context c)))"

definition ensure_same_request :: "loop_request \<Rightarrow> loop_request \<Rightarrow> string \<Rightarrow> ('w, unit) loop" where
  "ensure_same_request existing incoming rid =
     (if request_eq existing incoming then returnE ()
      else raiseE (RequestConflict (''run_id already belongs to a different request: '' @ rid)))"

definition begin_run :: "'w loop_env \<Rightarrow> loop_request \<Rightarrow> string \<Rightarrow> ('w, unit) loop" where
  "begin_run env req rid =
     bindE (askE (e_now env)) (\<lambda>t1. bindE (askE (e_now env)) (\<lambda>t2.
     thenE (updE (\<lambda>_. new_LoopContext req rid t1 t2))
    (thenE (start_active_timer env)
    (bindE (askE (e_now env)) (\<lambda>t. updE (\<lambda>c. c\<lparr>last_heartbeat_at := Some t\<rparr>))))))"

text \<open>
  The new run after its context is built. Another controller may have created the same run
  meanwhile; then the first save conflicts and the stored run is answered instead.
\<close>

definition start_run ::
  "'w loop_env \<Rightarrow> loop_request \<Rightarrow> string \<Rightarrow> string \<Rightarrow> string \<Rightarrow> ('w, loop_result) loop" where
  "start_run env req planner verifier rid =
     bindE (tryE (thenE (checkpoint_and_emit env LOOP_STARTED []) (returnE None)) (\<lambda>e.
              case e of
                CheckpointConflict _ \<Rightarrow> bindE (envE (e_load env rid)) (\<lambda>again.
                  case again of
                    None \<Rightarrow> raiseE e
                  | Some c \<Rightarrow> thenE (ensure_same_request (request c) req rid)
                                    (returnE (Some (result_from_context c))))
              | _ \<Rightarrow> raiseE e)) (\<lambda>early.
     case early of
       Some r \<Rightarrow> returnE r
     | None \<Rightarrow> drive env planner verifier False)"

definition run ::
  "'w loop_env \<Rightarrow> loop_request \<Rightarrow> string \<Rightarrow> string \<Rightarrow> string option \<Rightarrow> ('w, loop_result) loop" where
  "run env req planner verifier rid_opt =
     bindE (case rid_opt of
              Some rid \<Rightarrow> if rid \<noteq> [] then returnE rid else askE (e_uuid env)
            | None \<Rightarrow> askE (e_uuid env)) (\<lambda>rid.
     if blank rid then raiseE (ValueError ''run_id must not be empty'')
     else
     bindE (if rid_opt = None then returnE None else envE (e_load env rid)) (\<lambda>existing.
     case existing of
       Some c \<Rightarrow> thenE (ensure_same_request (request c) req rid) (returnE (result_from_context c))
     | None \<Rightarrow> thenE (begin_run env req rid) (start_run env req planner verifier rid)))"

definition load_context :: "'w loop_env \<Rightarrow> string \<Rightarrow> ('w, unit) loop" where
  "load_context env rid =
     bindE (envE (e_load env rid)) (\<lambda>found.
       case found of
         None \<Rightarrow> raiseE (LoopNotFound rid)
       | Some c \<Rightarrow> updE (\<lambda>_. c))"

definition resume_guard :: "loop_context \<Rightarrow> resume_mode \<Rightarrow> exn option" where
  "resume_guard c mode =
     (if status c \<notin> {PAUSED, BLOCKED} then Some (LoopNotResumable (status_value (status c)))
      else if pending_interaction c \<noteq> None then
        Some (LoopNotResumable ''checkpoint is waiting for a human response'')
      else if stop_reason_of c = Some SR_HUMAN_REJECTED \<and> mode = CONTINUE then
        Some (LoopNotResumable ''human-rejected runs require explicit replan'')
      else if stop_reason_of c = Some SR_RECOVERY_REQUIRED then
        Some (LoopNotResumable ''recovery-required runs must be reconciled by the host before resuming'')
      else if (if replan_required c then REPLAN else mode) = CONTINUE
              \<and> (case current_plan c of
                   None \<Rightarrow> True
                 | Some p \<Rightarrow> current_step_index c \<ge> int (length (steps p)) \<and> \<not> completion_approved c)
        then Some (LoopNotResumable ''checkpoint has no unfinished plan'')
      else None)"

definition resume_started :: "'w loop_env \<Rightarrow> resume_mode \<Rightarrow> ('w, unit) loop" where
  "resume_started env effective_mode =
     thenE (updE (\<lambda>c. c\<lparr>stop_reason_of := None, error := []\<rparr>))
    (thenE (start_active_timer env)
    (if effective_mode = REPLAN then
       thenE (updE (\<lambda>c. c\<lparr>current_plan := None, current_step_index := 0, approved_step_ids := {},
                          completion_approved := False, replan_required := False\<rparr>))
      (thenE (transition env PLANNING LOOP_RESUMED)
             (checkpoint_and_emit env PLANNING_STARTED []))
     else checkpoint_and_emit env LOOP_RESUMED []))"

definition resume ::
  "'w loop_env \<Rightarrow> string \<Rightarrow> resume_mode \<Rightarrow> string \<Rightarrow> string \<Rightarrow> ('w, loop_result) loop" where
  "resume env rid mode planner verifier =
     thenE (load_context env rid)
    (bindE ctxE (\<lambda>c.
     case resume_guard c mode of
       Some e \<Rightarrow> raiseE e
     | None \<Rightarrow>
         let effective_mode = (if replan_required c then REPLAN else mode) in
         thenE (resume_started env effective_mode)
               (drive env planner verifier (effective_mode = CONTINUE))))"

definition recovery_block :: "'w loop_env \<Rightarrow> string \<Rightarrow> ('w, loop_result) loop" where
  "recovery_block env msg =
     thenE (updE (\<lambda>c. c\<lparr>error := msg\<rparr>))
    (thenE (stop env BLOCKED SR_RECOVERY_REQUIRED LOOP_BLOCKED)
    (bindE ctxE (\<lambda>c. returnE (result_from_context c))))"

text \<open>The two messages are Chinese in the source; they are transliterated.\<close>

definition recover ::
  "'w loop_env \<Rightarrow> string \<Rightarrow> string \<Rightarrow> string \<Rightarrow> ('w, loop_result) loop" where
  "recover env rid planner verifier =
     thenE (load_context env rid)
    (bindE ctxE (\<lambda>c.
     if is_terminal (status c) \<or> status c \<in> {PAUSED, BLOCKED} then returnE (result_from_context c)
     else
       thenE settle_crashed_timer
      (thenE (start_active_timer env)
      (bindE ctxE (\<lambda>c.
       if status c = EXECUTING \<and> pending_execution c = None then
         recovery_block env ''execution state unknown; reconcile by active_operation_id; not resubmitted''
       else if status c = WAITING_APPROVAL then
         recovery_block env ''approval state unknown; approval was not requested again''
       else
         let continue_current_plan =
               (current_plan c \<noteq> None \<and> status c \<in> {EXECUTING, VERIFYING}) in
         thenE (checkpoint_and_emit env LOOP_RECOVERED [])
               (drive env planner verifier continue_current_plan))))))"

definition find_response :: "loop_context \<Rightarrow> string \<Rightarrow> human_record option" where
  "find_response c key =
     find (\<lambda>r. hr_idempotency_key (hx_response r) = key) (human_interactions c)"

definition same_response :: "response \<Rightarrow> response \<Rightarrow> bool" where
  "same_response existing incoming \<longleftrightarrow>
     hr_interaction_id existing = hr_interaction_id incoming
     \<and> hr_action existing = hr_action incoming
     \<and> hr_content existing = hr_content incoming
     \<and> metadata_eq (hr_metadata existing) (hr_metadata incoming)"

text \<open>The context changes of an accepted response, and the events that announce it.\<close>

definition apply_response :: "interaction \<Rightarrow> response \<Rightarrow> loop_context \<Rightarrow> loop_context" where
  "apply_response pending resp c0 =
     (let c1 = c0\<lparr>pending_interaction := None,
                  feedback := (if hr_content resp \<noteq> [] then hr_content resp else feedback c0)\<rparr> in
      case hr_action resp of
        APPROVE \<Rightarrow>
          (let c2 = (case hi_step_id pending of
                       Some sid \<Rightarrow> if hi_kind pending = APPROVAL
                                   then c1\<lparr>approved_step_ids := insert sid (approved_step_ids c1)\<rparr>
                                   else c1
                     | None \<Rightarrow> c1) in
           if hi_kind pending = COMPLETION_REVIEW
              \<or> (case current_plan c2 of
                   None \<Rightarrow> False
                 | Some p \<Rightarrow> current_step_index c2 \<ge> int (length (steps p)))
           then c2\<lparr>completion_approved := True\<rparr> else c2)
      | REVISE \<Rightarrow> c1\<lparr>replan_required := True\<rparr>
      | PROVIDE_INPUT \<Rightarrow> c1\<lparr>replan_required := True\<rparr>
      | REJECT \<Rightarrow> c1)"

fun response_events :: "human_action \<Rightarrow> event_type list" where
  "response_events REJECT = [HUMAN_RESPONSE_SUBMITTED, HUMAN_REJECTED, LOOP_BLOCKED]"
| "response_events APPROVE = [HUMAN_RESPONSE_SUBMITTED, HUMAN_APPROVED]"
| "response_events REVISE = [HUMAN_RESPONSE_SUBMITTED, HUMAN_REVISED]"
| "response_events PROVIDE_INPUT = [HUMAN_RESPONSE_SUBMITTED, HUMAN_INPUT_PROVIDED]"

definition response_guard :: "loop_context \<Rightarrow> response \<Rightarrow> exn + interaction" where
  "response_guard c resp =
     (case pending_interaction c of
        None \<Rightarrow> Inl (HumanNotPending ''run has no pending human interaction'')
      | Some pending \<Rightarrow>
          if hi_interaction_id pending \<noteq> hr_interaction_id resp then
            Inl (HumanNotPending (hr_interaction_id resp))
          else if hr_action resp \<notin> set (hi_allowed_actions pending) then
            Inl (HumanNotPending (''action '' @ human_action_value (hr_action resp)
                                  @ '' is not allowed for this interaction''))
          else Inr pending)"

definition accept_response :: "'w loop_env \<Rightarrow> interaction \<Rightarrow> response \<Rightarrow> ('w, unit) loop" where
  "accept_response env pending resp =
     bindE (askE (e_now env)) (\<lambda>now.
     bindE (liftE (new_HumanInteractionRecord pending resp now)) (\<lambda>r.
     thenE (updE (\<lambda>c. apply_response pending resp
                        (c\<lparr>human_interactions := human_interactions c @ [r]\<rparr>)))
    (thenE (if hr_action resp = REJECT then
              thenE (pause_active_timer env)
             (thenE (updE (\<lambda>c. c\<lparr>stop_reason_of := Some SR_HUMAN_REJECTED\<rparr>))
             (bindE ctxE (\<lambda>c. whenE (status c \<noteq> BLOCKED) (set_status BLOCKED))))
            else returnE ())
           (checkpoint_and_emit_many env (response_events (hr_action resp)) []))))"

definition submit_human_response ::
  "'w loop_env \<Rightarrow> string \<Rightarrow> response \<Rightarrow> ('w, loop_result) loop" where
  "submit_human_response env rid resp =
     thenE (load_context env rid)
    (bindE ctxE (\<lambda>c.
     case find_response c (hr_idempotency_key resp) of
       Some r \<Rightarrow>
         if same_response (hx_response r) resp then returnE (result_from_context c)
         else raiseE (HumanConflict (hr_idempotency_key resp))
     | None \<Rightarrow>
         bindE (liftE (response_guard c resp)) (\<lambda>pending.
         bindE (tryE (thenE (accept_response env pending resp) (returnE None)) (\<lambda>e.
                  case e of
                    CheckpointConflict _ \<Rightarrow> bindE (envE (e_load env rid)) (\<lambda>latest.
                      case latest of
                        None \<Rightarrow> raiseE e
                      | Some d \<Rightarrow>
                          (case find_response d (hr_idempotency_key resp) of
                             Some r \<Rightarrow> if same_response (hx_response r) resp
                                       then returnE (Some (result_from_context d)) else raiseE e
                           | None \<Rightarrow> raiseE e))
                  | _ \<Rightarrow> raiseE e)) (\<lambda>early.
         case early of
           Some r \<Rightarrow> returnE r
         | None \<Rightarrow> bindE ctxE (\<lambda>c. returnE (result_from_context c))))))"

end
