(* ===== verification/LoopExamples.thy ===== *)
theory LoopExamples
  imports LoopController
begin

text \<open>
  A concrete environment on which the theorems on the controller are instantiated: one planner,
  one executor and one verifier that answer at once, a gate that approves, a store that gives
  every save the next revision.
\<close>

definition demo_time :: datetime where
  "demo_time = \<lparr>dt_year = 2026, dt_month = 1, dt_day = 1, dt_hour = 0, dt_minute = 0, dt_second = 0,
     dt_microsecond = 0, dt_offset = Some 0\<rparr>"

definition demo_step :: plan_step where
  "demo_step = \<lparr>description = ''d'', executor = ''e'', step_criteria = [], requires_approval = True,
     step_id = ''s''\<rparr>"

definition demo_plan :: plan where
  "demo_plan = \<lparr>steps = [demo_step]\<rparr>"

definition demo_execution :: execution_result where
  "demo_execution = \<lparr>ex_output = ''out'', ex_artifacts = [], ex_metadata = []\<rparr>"

definition demo_verification :: "bool \<Rightarrow> verification_result" where
  "demo_verification p = \<lparr>passed = p, v_feedback = ''f'', score = None, evidence = [], failed_criteria = []\<rparr>"

definition demo_request :: loop_request where
  "demo_request = \<lparr>goal = ''g'', acceptance_criteria = [],
     limits = \<lparr>max_cycles = 1, max_attempts = 1, max_steps_per_plan = 1, timeout_seconds = None\<rparr>,
     req_metadata = []\<rparr>"

definition demo_env :: "loop_context option \<Rightarrow> bool \<Rightarrow> unit loop_env" where
  "demo_env x p =
     \<lparr>e_now = (\<lambda>w. (demo_time, w)), e_mono = (\<lambda>w. (0, w)), e_uuid = (\<lambda>w. (''u'', w)),
      e_wait = (\<lambda>_ w. (Inr (), w)), e_reap = (\<lambda>w. (Inr (), w)), e_cancels = (\<lambda>w. ([], w)),
      e_save = (\<lambda>c rv w. (Inr (rv + 1), w)), e_load = (\<lambda>_ w. (Inr x, w)), e_prepare = None,
      e_publish = (\<lambda>_ w. (Inr (), w)), e_can_continue = (\<lambda>_ w. (Inr True, w)),
      e_plan = (\<lambda>_ _ w. (Inr (Done (Inr demo_plan)), w)),
      e_execute = (\<lambda>_ _ _ w. (Inr (Done (Inr demo_execution)), w)),
      e_verify = (\<lambda>_ _ _ _ w. (Inr (Done (Inr (demo_verification p))), w)),
      e_decide = (\<lambda>_ _ w. (Inr (Done (Inr APPROVED)), w)), e_evaluate = None,
      e_retry = (\<lambda>_ _ _ w. (Inr \<lparr>rd_action = RA_FAIL, delay_seconds = Fin 0\<rparr>, w)),
      e_sleep = (\<lambda>_ w. (Inr (Done (Inr ())), w)), heartbeat_interval = 5, poll_interval = 1\<rparr>"

definition demo_state :: "unit loop_state" where
  "demo_state = \<lparr>ctx = new_LoopContext demo_request ''r'' demo_time demo_time, world = (),
     cancelled = {}, trace = []\<rparr>"

definition demo_run :: "bool \<Rightarrow> (exn + loop_result) \<times> unit loop_state" where
  "demo_run p = run (demo_env None p) demo_request ''p'' ''v'' (Some ''r'') demo_state"

lemma demo_run_completed: "map_sum id lr_status (fst (demo_run True)) = Inr COMPLETED"
  by code_simp

lemma demo_run_blocked: "map_sum id lr_stop_reason (fst (demo_run False)) = Inr (Some SR_CYCLE_LIMIT)"
  by code_simp

end
