(* ===== verification/LoopSteps.thy ===== *)
theory LoopSteps
  imports LoopController
begin

text \<open>
  The controller as a state machine. \<open>loop_step\<close> has one rule per kind of state change the
  methods of \<open>AgentLoop\<close> make, with the condition under which they make it; \<open>refines\<close> is a
  Hoare triple that also says a program moves along these steps. \<open>LoopRefinement\<close> shows that
  the methods refine the machine, \<open>LoopProperties\<close> derives the safety properties by rule
  induction over it.
\<close>

section \<open>Views of the context and the trace\<close>

text \<open>\<open>core\<close> forgets the clock, revision and audit fields that every commit may change.\<close>

definition core :: "loop_context \<Rightarrow> loop_context" where
  "core c = c\<lparr>event_sequence := 0, revision := 0, active_elapsed_seconds := 0,
              active_started_at := None, last_heartbeat_at := None, propagation_context := [],
              external_state_refs := [], updated_at := started_at c\<rparr>"

text \<open>\<open>work\<close> also forgets the status with its reason and text.\<close>

definition work :: "loop_context \<Rightarrow> loop_context" where
  "work c = core (c\<lparr>status := CREATED, stop_reason_of := None, error := []\<rparr>)"

lemma core_fields [simp]:
  "request (core c) = request c" "run_id (core c) = run_id c" "status (core c) = status c"
  "records (core c) = records c" "feedback (core c) = feedback c"
  "current_plan (core c) = current_plan c" "current_step_index (core c) = current_step_index c"
  "cycle_count (core c) = cycle_count c" "total_attempts (core c) = total_attempts c"
  "completed_steps (core c) = completed_steps c" "stop_reason_of (core c) = stop_reason_of c"
  "error (core c) = error c" "pending_interaction (core c) = pending_interaction c"
  "human_interactions (core c) = human_interactions c"
  "approved_step_ids (core c) = approved_step_ids c" "replan_required (core c) = replan_required c"
  "completion_approved (core c) = completion_approved c"
  "active_operation_id (core c) = active_operation_id c"
  "pending_execution (core c) = pending_execution c" "pending_attempt (core c) = pending_attempt c"
  by (simp_all add: core_def)

lemma work_fields [simp]:
  "request (work c) = request c" "run_id (work c) = run_id c"
  "records (work c) = records c" "feedback (work c) = feedback c"
  "current_plan (work c) = current_plan c" "current_step_index (work c) = current_step_index c"
  "cycle_count (work c) = cycle_count c" "total_attempts (work c) = total_attempts c"
  "completed_steps (work c) = completed_steps c"
  "pending_interaction (work c) = pending_interaction c"
  "human_interactions (work c) = human_interactions c"
  "approved_step_ids (work c) = approved_step_ids c" "replan_required (work c) = replan_required c"
  "completion_approved (work c) = completion_approved c"
  "active_operation_id (work c) = active_operation_id c"
  "pending_execution (work c) = pending_execution c" "pending_attempt (work c) = pending_attempt c"
  by (simp_all add: work_def)

lemma core_updates [simp]:
  "core (c\<lparr>event_sequence := n\<rparr>) = core c" "core (c\<lparr>revision := r\<rparr>) = core c"
  "core (c\<lparr>active_elapsed_seconds := x\<rparr>) = core c" "core (c\<lparr>active_started_at := t\<rparr>) = core c"
  "core (c\<lparr>last_heartbeat_at := h\<rparr>) = core c" "core (c\<lparr>propagation_context := p\<rparr>) = core c"
  "core (c\<lparr>external_state_refs := e\<rparr>) = core c" "core (c\<lparr>updated_at := u\<rparr>) = core c"
  by (simp_all add: core_def)

lemma work_updates [simp]:
  "work (c\<lparr>status := s\<rparr>) = work c" "work (c\<lparr>stop_reason_of := r\<rparr>) = work c"
  "work (c\<lparr>error := e\<rparr>) = work c" "work (core c) = work c"
  by (simp_all add: work_def core_def)

lemma core_work: "core c = core d \<Longrightarrow> work c = work d"
  using work_updates(4) by metis

fun last_save :: "action list \<Rightarrow> (loop_context \<times> int) option" where
  "last_save [] = None"
| "last_save (a # as) =
     (case last_save as of Some p \<Rightarrow> Some p
      | None \<Rightarrow> (case a of Saved c rv \<Rightarrow> Some (c, rv) | _ \<Rightarrow> None))"

lemma last_save_snoc [simp]:
  "last_save (as @ [a]) = (case a of Saved c rv \<Rightarrow> Some (c, rv) | _ \<Rightarrow> last_save as)"
  by (induction as) (auto split: action.splits option.splits)

text \<open>\<open>synced\<close>: the last committed checkpoint agrees with the context outside the clock fields.\<close>

definition synced :: "'w loop_state \<Rightarrow> bool" where
  "synced s \<longleftrightarrow> (\<exists>d rv. last_save (trace s) = Some (d, rv) \<and> core d = core (ctx s))"

text \<open>Component calls of the trace, and the sequence numbers of its events.\<close>

fun is_call :: "action \<Rightarrow> bool" where
  "is_call (Saved _ _) = False"
| "is_call (Published _) = False"
| "is_call _ = True"

fun is_executor_call :: "action \<Rightarrow> bool" where
  "is_executor_call (ExecutorCalled _) = True"
| "is_executor_call _ = False"

fun is_planner_call :: "action \<Rightarrow> bool" where
  "is_planner_call PlannerCalled = True"
| "is_planner_call _ = False"

definition calls :: "(action \<Rightarrow> bool) \<Rightarrow> action list \<Rightarrow> int" where
  "calls P tr = int (length (filter P tr))"

definition component_calls :: "action list \<Rightarrow> action list" where
  "component_calls tr = filter is_call tr"

lemma calls_append [simp]: "calls P (tr @ tr') = calls P tr + calls P tr'"
  by (simp add: calls_def)

lemma calls_Nil [simp]: "calls P [] = 0"
  by (simp add: calls_def)

lemma calls_Cons [simp]: "calls P (a # tr) = (if P a then 1 else 0) + calls P tr"
  by (simp add: calls_def)

lemma calls_none [simp]: "\<forall>a \<in> set tr. \<not> P a \<Longrightarrow> calls P tr = 0"
  by (simp add: calls_def)

lemma component_calls_append [simp]:
  "component_calls (tr @ tr') = component_calls tr @ component_calls tr'"
  by (simp add: component_calls_def)

lemma component_calls_Nil [simp]: "component_calls [] = []"
  by (simp add: component_calls_def)

lemma component_calls_Cons [simp]:
  "component_calls (a # tr) = (if is_call a then [a] else []) @ component_calls tr"
  by (simp add: component_calls_def)

lemma component_calls_published [simp]: "component_calls (map Published evs) = []"
  by (induction evs) simp_all

lemma calls_component_calls:
  "calls is_executor_call (component_calls tr) = calls is_executor_call tr"
  "calls is_planner_call (component_calls tr) = calls is_planner_call tr"
proof -
  show "calls is_executor_call (component_calls tr) = calls is_executor_call tr"
  proof (induction tr)
    case (Cons a tr)
    then show ?case by (cases a) simp_all
  qed simp
  show "calls is_planner_call (component_calls tr) = calls is_planner_call tr"
  proof (induction tr)
    case (Cons a tr)
    then show ?case by (cases a) simp_all
  qed simp
qed

definition sequences :: "action list \<Rightarrow> int list" where
  "sequences tr = concat (map (\<lambda>a. case a of Published ev \<Rightarrow> [ev_sequence ev] | _ \<Rightarrow> []) tr)"

lemma sequences_append [simp]: "sequences (tr @ tr') = sequences tr @ sequences tr'"
  by (simp add: sequences_def)

lemma sequences_Nil [simp]: "sequences [] = []"
  by (simp add: sequences_def)

lemma sequences_Cons [simp]:
  "sequences (a # tr) = (case a of Published ev \<Rightarrow> [ev_sequence ev] | _ \<Rightarrow> []) @ sequences tr"
  by (simp add: sequences_def)

lemma sequences_published [simp]: "sequences (map Published evs) = map ev_sequence evs"
  by (induction evs) simp_all

section \<open>The steps\<close>

text \<open>\<open>numbered\<close>: events that carry the committed snapshot, numbered consecutively from \<open>sq\<close>.\<close>

fun numbered :: "loop_context \<Rightarrow> int \<Rightarrow> loop_event list \<Rightarrow> bool" where
  "numbered snap sq [] = True"
| "numbered snap sq (ev # evs) \<longleftrightarrow>
     ev_context ev = snap \<and> ev_sequence ev = sq \<and> numbered snap (sq + 1) evs"

text \<open>\<open>finished_plan\<close>: the cursor stands behind the last step of the current plan.\<close>

definition finished_plan :: "loop_context \<Rightarrow> bool" where
  "finished_plan c \<longleftrightarrow>
     (case current_plan c of None \<Rightarrow> False
      | Some p \<Rightarrow> int (length (steps p)) \<le> current_step_index c)"

text \<open>
  \<open>all_passed\<close>: the last records are the executed steps of the current plan, in order, and
  every one of them passed its verification.
\<close>

definition all_passed :: "loop_context \<Rightarrow> bool" where
  "all_passed c \<longleftrightarrow>
     (case current_plan c of None \<Rightarrow> True
      | Some p \<Rightarrow>
          let k = nat (current_step_index c); rs = drop (length (records c) - k) (records c) in
          k \<le> length (steps p) \<and> map rec_step rs = take k (steps p)
          \<and> (\<forall>r \<in> set rs. passed (rec_verification r)))"

text \<open>
  The steps. A commit publishes a prefix of its \<open>n\<close> events, since publishing may raise. Two
  updates of the operation fields are possible at a note or a dropped plan: none, or forgetting
  the operation.
\<close>

inductive loop_step :: "'w loop_state \<Rightarrow> 'w loop_state \<Rightarrow> bool" where
  ls_env: "loop_step s (s\<lparr>world := w, cancelled := cs\<rparr>)"
| ls_clock: "active_elapsed_seconds (ctx s) \<le> x \<Longrightarrow>
     loop_step s (s\<lparr>ctx := (ctx s)\<lparr>active_elapsed_seconds := x, active_started_at := t,
                                 last_heartbeat_at := h, updated_at := u\<rparr>\<rparr>)"
| ls_note: "(op, a) \<in> {(active_operation_id (ctx s), pending_attempt (ctx s)), (None, None)} \<Longrightarrow>
     loop_step s (s\<lparr>ctx := (ctx s)\<lparr>stop_reason_of := r, error := e, feedback := fb,
                                 active_operation_id := op, pending_attempt := a\<rparr>\<rparr>)"
| ls_status: "allowed (status (ctx s)) t \<Longrightarrow> (t = COMPLETED \<Longrightarrow> finished_plan (ctx s)) \<Longrightarrow>
     loop_step s (s\<lparr>ctx := (ctx s)\<lparr>status := t\<rparr>\<rparr>)"
| ls_sequence: "0 \<le> n \<Longrightarrow>
     loop_step s (s\<lparr>ctx := (ctx s)\<lparr>event_sequence := event_sequence (ctx s) + n,
                                 propagation_context := pc, external_state_refs := refs\<rparr>\<rparr>)"
| ls_commit: "loop_step s (s\<lparr>ctx := c\<lparr>revision := rv\<rparr>, world := w,
                           trace := trace s @ [Saved c rv] @ map Published evs\<rparr>)"
  if "c = (ctx s)\<lparr>event_sequence := event_sequence (ctx s) + n, propagation_context := pc,
                  external_state_refs := refs, updated_at := u\<rparr>"
    and "revision (ctx s) < rv" and "int (length evs) \<le> n"
    and "numbered (c\<lparr>revision := rv\<rparr>) (event_sequence (ctx s) + 1) evs"
| ls_interaction: "pending_interaction (ctx s) = None \<Longrightarrow>
     loop_step s (s\<lparr>ctx := (ctx s)\<lparr>pending_interaction := Some i, stop_reason_of := r\<rparr>\<rparr>)"
| ls_drop_plan: "(op, a) \<in> {(active_operation_id (ctx s), pending_attempt (ctx s)), (None, None)} \<Longrightarrow>
     loop_step s (s\<lparr>ctx := (ctx s)\<lparr>current_plan := None, current_step_index := 0, feedback := fb,
                                 active_operation_id := op, pending_attempt := a\<rparr>\<rparr>)"
| ls_new_plan: "steps p \<noteq> [] \<Longrightarrow> distinct (map step_id (steps p)) \<Longrightarrow>
     int (length (steps p)) \<le> max_steps_per_plan (limits (request (ctx s))) \<Longrightarrow>
     loop_step s (s\<lparr>ctx := (ctx s)\<lparr>current_plan := Some p, current_step_index := 0\<rparr>\<rparr>)"
| ls_cycle: "cycle_count (ctx s) < max_cycles (limits (request (ctx s))) \<Longrightarrow>
     loop_step s (s\<lparr>ctx := (ctx s)\<lparr>cycle_count := cycle_count (ctx s) + 1\<rparr>\<rparr>)"
| ls_plan_call: "calls is_planner_call (trace s) < cycle_count (ctx s) \<Longrightarrow>
     loop_step s (s\<lparr>trace := trace s @ [PlannerCalled]\<rparr>)"
| ls_attempt: "total_attempts (ctx s) < max_attempts (limits (request (ctx s))) \<Longrightarrow> 1 \<le> a \<Longrightarrow>
     active_operation_id (ctx s) \<noteq> None \<Longrightarrow>
     loop_step s (s\<lparr>ctx := (ctx s)\<lparr>total_attempts := total_attempts (ctx s) + 1,
                                 pending_attempt := Some a\<rparr>\<rparr>)"
| ls_execute_call: "synced s \<Longrightarrow> calls is_executor_call (trace s) < total_attempts (ctx s) \<Longrightarrow>
     active_operation_id (ctx s) = Some (operation_id (ctx s) st) \<Longrightarrow>
     pending_attempt (ctx s) \<noteq> None \<Longrightarrow>
     loop_step s (s\<lparr>trace := trace s @ [ExecutorCalled st]\<rparr>)"
| ls_verify_call: "synced s \<Longrightarrow> pending_execution (ctx s) = Some ex \<Longrightarrow>
     status (ctx s) = VERIFYING \<Longrightarrow>
     active_operation_id (ctx s) = Some (operation_id (ctx s) st) \<Longrightarrow>
     loop_step s (s\<lparr>trace := trace s @ [VerifierCalled st ex]\<rparr>)"
| ls_gate_call: "status (ctx s) = WAITING_APPROVAL \<Longrightarrow> synced s \<Longrightarrow>
     loop_step s (s\<lparr>trace := trace s @ [GateCalled st]\<rparr>)"
| ls_evaluator_call: "finished_plan (ctx s) \<Longrightarrow> synced s \<Longrightarrow>
     loop_step s (s\<lparr>trace := trace s @ [EvaluatorCalled]\<rparr>)"
| ls_operation: "active_operation_id (ctx s) \<in> {None, Some (operation_id (ctx s) st)} \<Longrightarrow>
     loop_step s (s\<lparr>ctx := (ctx s)\<lparr>active_operation_id := Some (operation_id (ctx s) st)\<rparr>\<rparr>)"
| ls_result: "active_operation_id (ctx s) \<noteq> None \<Longrightarrow> pending_attempt (ctx s) \<noteq> None \<Longrightarrow>
     loop_step s (s\<lparr>ctx := (ctx s)\<lparr>pending_execution := Some ex\<rparr>\<rparr>)"
| ls_record: "current_plan (ctx s) = Some p \<Longrightarrow> current_step_index (ctx s) = idx \<Longrightarrow>
     0 \<le> idx \<Longrightarrow> nat idx < length (steps p) \<Longrightarrow> rec_step r = steps p ! nat idx \<Longrightarrow>
     pending_execution (ctx s) = Some (rec_execution r) \<Longrightarrow> rec_cycle r = cycle_count (ctx s) \<Longrightarrow>
     loop_step s (s\<lparr>ctx := (ctx s)\<lparr>records := records (ctx s) @ [r],
                        completed_steps := completed_steps (ctx s) + 1,
                        current_step_index := idx + 1,
                        feedback := v_feedback (rec_verification r),
                        approved_step_ids := approved_step_ids (ctx s) - {step_id (rec_step r)},
                        active_operation_id := None, pending_execution := None,
                        pending_attempt := None\<rparr>\<rparr>)"
| ls_completion_used:
     "loop_step s (s\<lparr>ctx := (ctx s)\<lparr>completion_approved := False\<rparr>\<rparr>)"
| ls_reset:
     "loop_step s (s\<lparr>ctx := (ctx s)\<lparr>current_plan := None, current_step_index := 0,
                        approved_step_ids := {}, completion_approved := False,
                        replan_required := False\<rparr>\<rparr>)"

text \<open>\<open>budget\<close>: calls never exceed the counters the limits are checked against.\<close>

definition budget :: "'w loop_state \<Rightarrow> bool" where
  "budget s \<longleftrightarrow> calls is_planner_call (trace s) \<le> cycle_count (ctx s)
              \<and> calls is_executor_call (trace s) \<le> total_attempts (ctx s)"

lemma calls_published [simp]:
  "calls is_planner_call (map Published evs) = 0" "calls is_executor_call (map Published evs) = 0"
  by auto

lemma loop_step_budget: "loop_step s t \<Longrightarrow> budget s \<Longrightarrow> budget t"
  by (induction rule: loop_step.induct) (auto simp: budget_def)

inductive reach :: "'w loop_state \<Rightarrow> 'w loop_state \<Rightarrow> bool" where
  reach_refl: "reach s s"
| reach_step: "reach s t \<Longrightarrow> loop_step t u \<Longrightarrow> reach s u"

lemma reach_trans: "reach s t \<Longrightarrow> reach t u \<Longrightarrow> reach s u"
proof -
  assume st: "reach s t"
  assume "reach t u"
  then show ?thesis
    using st by (induction rule: reach.induct) (auto intro: reach.intros)
qed

lemma reach_one: "loop_step s t \<Longrightarrow> reach s t"
  by (blast intro: reach.intros)

text \<open>Induction from a fixed start: an invariant that every step keeps holds at the end.\<close>

lemma reach_invariant:
  assumes "reach s t" and "I s" and "\<And>u v. I u \<Longrightarrow> loop_step u v \<Longrightarrow> I v"
  shows "I t"
  using assms by (induction rule: reach.induct) auto

lemma reach_budget: "reach s t \<Longrightarrow> budget s \<Longrightarrow> budget t"
  by (erule reach_invariant) (auto intro: loop_step_budget)

section \<open>Triples that move along the steps\<close>

text \<open>
  \<open>refines P m Q E\<close>: started in a state with \<open>P\<close> and \<open>budget\<close>, \<open>m\<close> moves along \<open>reach\<close>; a
  returned value satisfies \<open>Q\<close> with the final state, an exception satisfies \<open>E\<close>.
\<close>

definition refines ::
  "('w loop_state \<Rightarrow> bool) \<Rightarrow> ('w, 'a) loop \<Rightarrow> ('a \<Rightarrow> 'w loop_state \<Rightarrow> bool)
   \<Rightarrow> (exn \<Rightarrow> 'w loop_state \<Rightarrow> bool) \<Rightarrow> bool" where
  "refines P m Q E \<longleftrightarrow>
     (\<forall>s. P s \<and> budget s \<longrightarrow> reach s (snd (m s))
        \<and> (case m s of (Inl e, s') \<Rightarrow> E e s' | (Inr x, s') \<Rightarrow> Q x s'))"

lemma refines_reach: "refines P m Q E \<Longrightarrow> P s \<Longrightarrow> budget s \<Longrightarrow> m s = (r, s') \<Longrightarrow> reach s s'"
  by (auto simp: refines_def dest: spec [where x = s])

lemma refines_ok: "refines P m Q E \<Longrightarrow> P s \<Longrightarrow> budget s \<Longrightarrow> m s = (Inr x, s') \<Longrightarrow> Q x s'"
  by (auto simp: refines_def dest: spec [where x = s])

lemma refines_err: "refines P m Q E \<Longrightarrow> P s \<Longrightarrow> budget s \<Longrightarrow> m s = (Inl e, s') \<Longrightarrow> E e s'"
  by (auto simp: refines_def dest: spec [where x = s])

lemma refines_budget: "refines P m Q E \<Longrightarrow> P s \<Longrightarrow> budget s \<Longrightarrow> m s = (r, s') \<Longrightarrow> budget s'"
  by (blast intro: reach_budget dest: refines_reach)

lemma refinesI:
  assumes "\<And>s r s'. P s \<Longrightarrow> budget s \<Longrightarrow> m s = (r, s') \<Longrightarrow> reach s s'"
    and "\<And>s x s'. P s \<Longrightarrow> budget s \<Longrightarrow> m s = (Inr x, s') \<Longrightarrow> Q x s'"
    and "\<And>s e s'. P s \<Longrightarrow> budget s \<Longrightarrow> m s = (Inl e, s') \<Longrightarrow> E e s'"
  shows "refines P m Q E"
  unfolding refines_def
proof (intro allI impI conjI)
  fix s assume "P s \<and> budget s"
  then have P: "P s" "budget s" by auto
  then show "reach s (snd (m s))" using assms(1) [of s "fst (m s)" "snd (m s)"] by simp
  show "case m s of (Inl e, s') \<Rightarrow> E e s' | (Inr x, s') \<Rightarrow> Q x s'"
    using P assms(2,3) by (auto split: prod.splits sum.splits)
qed

lemma refines_runI:
  assumes "\<And>s r s'. P s \<Longrightarrow> budget s \<Longrightarrow> m s = (r, s') \<Longrightarrow>
             reach s s' \<and> (case r of Inl e \<Rightarrow> E e s' | Inr x \<Rightarrow> Q x s')"
  shows "refines P m Q E"
  by (rule refinesI) (use assms in force)+

lemma refines_conseq:
  assumes "refines P' m Q' E'" and "\<And>s. P s \<Longrightarrow> P' s"
    and "\<And>x s. Q' x s \<Longrightarrow> Q x s" and "\<And>e s. E' e s \<Longrightarrow> E e s"
  shows "refines P m Q E"
  by (rule refinesI) (use assms in \<open>blast dest: refines_reach refines_ok refines_err\<close>)+

lemma refines_pre: "refines P' m Q E \<Longrightarrow> (\<And>s. P s \<Longrightarrow> P' s) \<Longrightarrow> refines P m Q E"
  by (rule refines_conseq)

lemma refines_weaken:
  assumes "refines P m Q' E'" and "\<And>x s. Q' x s \<Longrightarrow> Q x s" and "\<And>e s. E' e s \<Longrightarrow> E e s"
  shows "refines P m Q E"
  by (rule refines_conseq [OF assms(1)]) (use assms(2,3) in auto)

text \<open>A fact that the precondition and \<open>budget\<close> give about the logical variables.\<close>

lemma refines_fact:
  assumes "\<And>s. P s \<Longrightarrow> budget s \<Longrightarrow> A" and "A \<Longrightarrow> refines P m Q E"
  shows "refines P m Q E"
  by (rule refinesI) (use assms in \<open>blast dest: refines_reach refines_ok refines_err\<close>)+

lemma refines_False [simp]: "refines (\<lambda>s. False) m Q E"
  by (simp add: refines_def)

lemma refines_ex:
  assumes "\<And>v. refines (P v) m Q E"
  shows "refines (\<lambda>s. \<exists>v. P v s) m Q E"
  by (rule refinesI)
     (use assms in \<open>blast dest: refines_reach refines_ok refines_err\<close>)+

lemma refines_returnE: "(\<And>s. P s \<Longrightarrow> Q x s) \<Longrightarrow> refines P (returnE x) Q E"
  by (rule refinesI) (auto simp: returnE_def intro: reach_refl)

lemma refines_raiseE: "(\<And>s. P s \<Longrightarrow> E e s) \<Longrightarrow> refines P (raiseE e) Q E"
  by (rule refinesI) (auto simp: raiseE_def intro: reach_refl)

lemma refines_liftE:
  assumes "\<And>x s. r = Inr x \<Longrightarrow> P s \<Longrightarrow> Q x s" and "\<And>e s. r = Inl e \<Longrightarrow> P s \<Longrightarrow> E e s"
  shows "refines P (liftE r) Q E"
  by (rule refinesI) (use assms in \<open>auto simp: liftE_def intro: reach_refl\<close>)

lemma refines_seq:
  assumes "refines P m R F" and "\<And>e s. F e s \<Longrightarrow> E e s" and "\<And>x. refines (R x) (f x) Q E"
  shows "refines P (bindE m f) Q E"
proof (rule refinesI)
  fix s r s'
  assume P: "P s" "budget s" and run: "bindE m f s = (r, s')"
  obtain r1 s1 where m: "m s = (r1, s1)" by fastforce
  show "reach s s'"
  proof (cases r1)
    case (Inl e)
    with m run show ?thesis using refines_reach [OF assms(1) P m] by (simp add: bindE_def)
  next
    case (Inr x)
    with m run have "f x s1 = (r, s')" by (simp add: bindE_def)
    with Inr m show ?thesis
      using refines_reach [OF assms(1) P m] refines_budget [OF assms(1) P m]
        refines_reach [OF assms(3) refines_ok [OF assms(1) P]]
      by (blast intro: reach_trans)
  qed
next
  fix s x s'
  assume "P s" "budget s" and "bindE m f s = (Inr x, s')"
  then show "Q x s'"
    by (auto simp: bindE_def split: prod.splits sum.splits
        dest: refines_ok [OF assms(1)] refines_budget [OF assms(1)] refines_ok [OF assms(3)])
next
  fix s e s'
  assume "P s" "budget s" and "bindE m f s = (Inl e, s')"
  then show "E e s'"
    by (auto simp: bindE_def split: prod.splits sum.splits
        dest: assms(2) refines_err [OF assms(1)] refines_ok [OF assms(1)]
          refines_budget [OF assms(1)] refines_err [OF assms(3)])
qed

lemma refines_then:
  assumes "refines P m R F" and "\<And>e s. F e s \<Longrightarrow> E e s" and "\<And>x. refines (R x) k Q E"
  shows "refines P (thenE m k) Q E"
  unfolding thenE_def using assms by (rule refines_seq)

lemma refines_tryE:
  assumes "refines P m Q F" and "\<And>e. refines (F e) (h e) Q E"
  shows "refines P (tryE m h) Q E"
proof (rule refinesI)
  fix s r s'
  assume P: "P s" "budget s" and run: "tryE m h s = (r, s')"
  obtain r1 s1 where m: "m s = (r1, s1)" by fastforce
  show "reach s s'"
  proof (cases r1)
    case (Inr x)
    with m run show ?thesis using refines_reach [OF assms(1) P m] by (simp add: tryE_def)
  next
    case (Inl e)
    with m run have "h e s1 = (r, s')" by (simp add: tryE_def)
    with Inl m show ?thesis
      using refines_reach [OF assms(1) P m] refines_budget [OF assms(1) P m]
        refines_reach [OF assms(2) refines_err [OF assms(1) P]]
      by (blast intro: reach_trans)
  qed
next
  fix s x s'
  assume "P s" "budget s" and "tryE m h s = (Inr x, s')"
  then show "Q x s'"
    by (auto simp: tryE_def split: prod.splits sum.splits
        dest: refines_ok [OF assms(1)] refines_err [OF assms(1)] refines_budget [OF assms(1)]
          refines_ok [OF assms(2)])
next
  fix s e s'
  assume "P s" "budget s" and "tryE m h s = (Inl e, s')"
  then show "E e s'"
    by (auto simp: tryE_def split: prod.splits sum.splits
        dest: refines_err [OF assms(1)] refines_budget [OF assms(1)] refines_err [OF assms(2)])
qed

lemma refines_if:
  assumes "b \<Longrightarrow> refines P m Q E" and "\<not> b \<Longrightarrow> refines P k Q E"
  shows "refines P (if b then m else k) Q E"
  using assms by simp

lemma refines_whenE:
  assumes "b \<Longrightarrow> refines P m (\<lambda>_. Q ()) E" and "\<And>s. \<not> b \<Longrightarrow> P s \<Longrightarrow> Q () s"
  shows "refines P (whenE b m) Q E"
  unfolding whenE_def by (rule refines_if) (use assms in \<open>auto intro: refines_returnE\<close>)

text \<open>
  Logical descriptions of a state. \<open>here c k b\<close>: the context is \<open>c\<close> up to the fields a commit
  changes, the component calls so far are \<open>k\<close>, and with \<open>b\<close> this context has been saved.
  \<open>near c k\<close> also leaves the status fields open. \<open>fault c k\<close> is the condition at an exception: a
  \<open>Stopped\<close> comes with one of the two statuses it is raised for, and the fuel of a loop never ran out.
\<close>

definition here :: "loop_context \<Rightarrow> action list \<Rightarrow> bool \<Rightarrow> 'w loop_state \<Rightarrow> bool" where
  "here c k b s \<longleftrightarrow> core (ctx s) = core c \<and> component_calls (trace s) = k \<and> (b \<longrightarrow> synced s)"

definition near :: "loop_context \<Rightarrow> action list \<Rightarrow> 'w loop_state \<Rightarrow> bool" where
  "near c k s \<longleftrightarrow> work (ctx s) = work c \<and> component_calls (trace s) = k"

definition ended :: "exn \<Rightarrow> 'w loop_state \<Rightarrow> bool" where
  "ended e s \<longleftrightarrow> e \<noteq> FuelOut \<and> (e = Stopped \<longrightarrow> status (ctx s) \<in> {CANCELLED, TIMED_OUT})"

definition fault :: "loop_context \<Rightarrow> action list \<Rightarrow> exn \<Rightarrow> 'w loop_state \<Rightarrow> bool" where
  "fault c k e s \<longleftrightarrow> near c k s \<and> ended e s"

lemma here_near: "here c k b s \<Longrightarrow> near c k s"
  by (auto simp: here_def near_def intro: core_work)

lemma fault_ended [simp]: "fault c k e s \<Longrightarrow> ended e s"
  by (simp add: fault_def)

lemma here_weak: "here c k True s \<Longrightarrow> here c k b s"
  by (simp add: here_def)

lemma here_unsaved: "here c k b s \<Longrightarrow> here c k False s"
  by (simp add: here_def)

lemma core_eq_fields:
  assumes "core d = core c"
  shows "request d = request c" "run_id d = run_id c" "status d = status c"
    "records d = records c" "feedback d = feedback c"
    "current_plan d = current_plan c" "current_step_index d = current_step_index c"
    "cycle_count d = cycle_count c" "total_attempts d = total_attempts c"
    "completed_steps d = completed_steps c" "stop_reason_of d = stop_reason_of c"
    "error d = error c" "pending_interaction d = pending_interaction c"
    "human_interactions d = human_interactions c"
    "approved_step_ids d = approved_step_ids c" "replan_required d = replan_required c"
    "completion_approved d = completion_approved c"
    "active_operation_id d = active_operation_id c"
    "pending_execution d = pending_execution c" "pending_attempt d = pending_attempt c"
  using assms core_fields by metis+

lemma work_eq_fields:
  assumes "work d = work c"
  shows "request d = request c" "run_id d = run_id c"
    "records d = records c" "feedback d = feedback c"
    "current_plan d = current_plan c" "current_step_index d = current_step_index c"
    "cycle_count d = cycle_count c" "total_attempts d = total_attempts c"
    "completed_steps d = completed_steps c"
    "pending_interaction d = pending_interaction c"
    "human_interactions d = human_interactions c"
    "approved_step_ids d = approved_step_ids c" "replan_required d = replan_required c"
    "completion_approved d = completion_approved c"
    "active_operation_id d = active_operation_id c"
    "pending_execution d = pending_execution c" "pending_attempt d = pending_attempt c"
  using assms work_fields by metis+

lemmas here_fields = core_eq_fields [OF conjunct1 [OF iffD1 [OF here_def]]]

lemmas near_fields = work_eq_fields [OF conjunct1 [OF iffD1 [OF near_def]]]

text \<open>Reading the context gives it a name for the rest of the triple.\<close>

lemma refines_ctxE:
  assumes "\<And>c. refines (\<lambda>s. P s \<and> ctx s = c) (f c) Q E"
  shows "refines P (bindE ctxE f) Q E"
  by (rule refinesI)
     (use assms in \<open>auto simp: bindE_def ctxE_def dest: refines_reach refines_ok refines_err\<close>)

lemma refines_ctxE_last:
  assumes "\<And>s. P s \<Longrightarrow> Q (ctx s) s"
  shows "refines P ctxE Q E"
  by (rule refinesI) (use assms in \<open>auto simp: ctxE_def intro: reach_refl\<close>)

lemma refines_updE:
  assumes "\<And>s. P s \<Longrightarrow> budget s \<Longrightarrow> loop_step s (s\<lparr>ctx := f (ctx s)\<rparr>)"
    and "\<And>s. P s \<Longrightarrow> budget s \<Longrightarrow> Q () (s\<lparr>ctx := f (ctx s)\<rparr>)"
  shows "refines P (updE f) Q E"
  by (rule refinesI) (use assms in \<open>auto simp: updE_def modifyE_def intro: reach_one\<close>)

lemma refines_logE:
  assumes "\<And>s. P s \<Longrightarrow> budget s \<Longrightarrow> loop_step s (s\<lparr>trace := trace s @ [a]\<rparr>)"
    and "\<And>s. P s \<Longrightarrow> budget s \<Longrightarrow> Q () (s\<lparr>trace := trace s @ [a]\<rparr>)"
  shows "refines P (logE a) Q E"
  by (rule refinesI) (use assms in \<open>auto simp: logE_def modifyE_def intro: reach_one\<close>)

text \<open>Calls of the environment change the world only.\<close>

definition world_free :: "('w loop_state \<Rightarrow> bool) \<Rightarrow> bool" where
  "world_free P \<longleftrightarrow> (\<forall>s w cs. P s \<longrightarrow> P (s\<lparr>world := w, cancelled := cs\<rparr>))"

lemma world_freeD: "world_free P \<Longrightarrow> P s \<Longrightarrow> P (s\<lparr>world := w, cancelled := cs\<rparr>)"
  by (simp add: world_free_def)

lemma world_freeD_world: "world_free P \<Longrightarrow> P s \<Longrightarrow> P (s\<lparr>world := w\<rparr>)"
  using world_freeD [where s = s and w = w and cs = "cancelled s"] by simp

lemma loop_step_world: "loop_step s (s\<lparr>world := w\<rparr>)"
  using ls_env [where s = s and w = w and cs = "cancelled s"] by simp

lemma loop_step_cancelled: "loop_step s (s\<lparr>cancelled := cs\<rparr>)"
  using ls_env [where s = s and w = "world s" and cs = cs] by simp

lemma refines_envE:
  assumes "world_free P" and "\<And>x s. P s \<Longrightarrow> Q x s" and "\<And>e s. P s \<Longrightarrow> E e s"
  shows "refines P (envE f) Q E"
  by (rule refinesI)
     (use assms(1) in \<open>auto simp: envE_def intro!: reach_one loop_step_world assms(2,3)
        elim: world_freeD_world split: prod.splits\<close>)

lemma refines_askE:
  assumes "world_free P" and "\<And>x s. P s \<Longrightarrow> Q x s"
  shows "refines P (askE f) Q E"
  by (rule refinesI)
     (use assms(1) in \<open>auto simp: askE_def intro!: reach_one loop_step_world assms(2)
        elim: world_freeD_world split: prod.splits\<close>)

lemma world_free_ctx [simp]: "world_free (\<lambda>s. P (ctx s))"
  by (simp add: world_free_def)

lemma world_free_trace [simp]: "world_free (\<lambda>s. P (trace s))"
  by (simp add: world_free_def)

lemma world_free_ctx_trace [simp]: "world_free (\<lambda>s. P (ctx s) (trace s))"
  by (simp add: world_free_def)

lemma world_free_synced [simp]: "world_free synced"
  by (simp add: world_free_def synced_def)

lemma world_free_conj [simp]: "world_free P \<Longrightarrow> world_free Q \<Longrightarrow> world_free (\<lambda>s. P s \<and> Q s)"
  by (simp add: world_free_def)

lemma world_free_imp [simp]: "world_free P \<Longrightarrow> world_free (\<lambda>s. b \<longrightarrow> P s)"
  by (simp add: world_free_def)

lemma world_free_const [simp]: "world_free (\<lambda>s. b)"
  by (simp add: world_free_def)

end
