(* ===== verification/LoopCommits.thy ===== *)
theory LoopCommits
  imports LoopSteps
begin

text \<open>
  The methods of the controller move along \<open>loop_step\<close>, first part: timers, commits,
  transitions, cancellation and the supervision of a component call. Each lemma named after a
  method gives its triple: what it leaves of the context, of the calls made and of the last
  save. The collection \<open>refine_rules\<close> holds them, so that the triple of a method follows from
  those of the methods it calls.
\<close>

named_theorems refine_rules \<open>triples of the methods and combinators\<close>
named_theorems tail_rules \<open>the same with weaker conditions, for the last call of a method\<close>

section \<open>Components that raise only their own exceptions\<close>

text \<open>
  \<open>_LoopStopped\<close> is private to the controller, and the two exceptions of the model that end an
  observation are raised by no component.
\<close>

definition ordinary_exn :: "exn \<Rightarrow> bool" where
  "ordinary_exn e \<longleftrightarrow> e \<noteq> Stopped \<and> e \<noteq> FuelOut \<and> e \<noteq> Suspended"

fun ordinary_result :: "exn + 'a \<Rightarrow> bool" where
  "ordinary_result (Inl e) = ordinary_exn e"
| "ordinary_result (Inr _) = True"

primrec ordinary_task :: "'r task \<Rightarrow> bool" where
  "ordinary_task (Pending t) = ordinary_task t"
| "ordinary_task (Done r) = ordinary_result r"
| "ordinary_task Hang = True"

definition raises_ordinary :: "('w \<Rightarrow> (exn + 'a) \<times> 'w) \<Rightarrow> bool" where
  "raises_ordinary f \<longleftrightarrow> (\<forall>w. ordinary_result (fst (f w)))"

definition starts_ordinary :: "('w \<Rightarrow> (exn + 'r task) \<times> 'w) \<Rightarrow> bool" where
  "starts_ordinary f \<longleftrightarrow> raises_ordinary f \<and> (\<forall>w t. fst (f w) = Inr t \<longrightarrow> ordinary_task t)"

definition ordinary_env :: "'w loop_env \<Rightarrow> bool" where
  "ordinary_env env \<longleftrightarrow>
     (\<forall>x. raises_ordinary (e_wait env x)) \<and> raises_ordinary (e_reap env)
     \<and> (\<forall>c n. raises_ordinary (e_save env c n)) \<and> (\<forall>r. raises_ordinary (e_load env r))
     \<and> (\<forall>p. e_prepare env = Some p \<longrightarrow> (\<forall>c ets. raises_ordinary (p c ets)))
     \<and> (\<forall>ev. raises_ordinary (e_publish env ev)) \<and> (\<forall>c. raises_ordinary (e_can_continue env c))
     \<and> (\<forall>n c. starts_ordinary (e_plan env n c))
     \<and> (\<forall>n st c. starts_ordinary (e_execute env n st c))
     \<and> (\<forall>n st ex c. starts_ordinary (e_verify env n st ex c))
     \<and> (\<forall>st c. starts_ordinary (e_decide env st c))
     \<and> (\<forall>f. e_evaluate env = Some f \<longrightarrow> (\<forall>c. starts_ordinary (f c)))
     \<and> (\<forall>e n c. raises_ordinary (e_retry env e n c)) \<and> (\<forall>d. starts_ordinary (e_sleep env d))"

lemma ordinary_envD:
  assumes "ordinary_env env"
  shows "raises_ordinary (e_wait env x)" "raises_ordinary (e_reap env)"
    "raises_ordinary (e_save env c n)" "raises_ordinary (e_load env r)"
    "e_prepare env = Some p \<Longrightarrow> raises_ordinary (p c ets)"
    "raises_ordinary (e_publish env ev)" "raises_ordinary (e_can_continue env c)"
    "starts_ordinary (e_plan env nm c)" "starts_ordinary (e_execute env nm st c)"
    "starts_ordinary (e_verify env nm st ex c)" "starts_ordinary (e_decide env st c)"
    "e_evaluate env = Some f \<Longrightarrow> starts_ordinary (f c)"
    "raises_ordinary (e_retry env e n c)" "starts_ordinary (e_sleep env d)"
  using assms unfolding ordinary_env_def by auto

lemma raises_ordinaryD: "raises_ordinary f \<Longrightarrow> f w = (Inl e, w') \<Longrightarrow> ordinary_exn e"
  unfolding raises_ordinary_def by (metis fst_conv ordinary_result.simps(1))

lemma starts_raises: "starts_ordinary f \<Longrightarrow> raises_ordinary f"
  by (simp add: starts_ordinary_def)

lemma starts_task: "starts_ordinary f \<Longrightarrow> f w = (Inr t, w') \<Longrightarrow> ordinary_task t"
  by (simp add: starts_ordinary_def) (metis fst_conv)

lemma ordinary_ended [simp]: "ordinary_exn e \<Longrightarrow> ended e s"
  by (simp add: ended_def ordinary_exn_def)

section \<open>Rules for \<open>here\<close>\<close>

lemma core_eq_iff:
  "core d = core c \<longleftrightarrow>
     request d = request c \<and> run_id d = run_id c \<and> status d = status c
     \<and> records d = records c \<and> feedback d = feedback c \<and> current_plan d = current_plan c
     \<and> current_step_index d = current_step_index c \<and> cycle_count d = cycle_count c
     \<and> total_attempts d = total_attempts c \<and> completed_steps d = completed_steps c
     \<and> stop_reason_of d = stop_reason_of c \<and> error d = error c
     \<and> pending_interaction d = pending_interaction c \<and> human_interactions d = human_interactions c
     \<and> approved_step_ids d = approved_step_ids c \<and> replan_required d = replan_required c
     \<and> completion_approved d = completion_approved c \<and> active_operation_id d = active_operation_id c
     \<and> pending_execution d = pending_execution c \<and> pending_attempt d = pending_attempt c
     \<and> started_at d = started_at c"
  by (cases c, cases d) (auto simp: core_def)

lemma here_core: "core d = core c \<Longrightarrow> here d k b = here c k b"
  by (rule ext) (simp add: here_def)

lemma world_free_here [simp]: "world_free (here c k b)"
  by (auto simp: world_free_def here_def synced_def)

lemma near_updates [simp]:
  "near (c\<lparr>status := t\<rparr>) k = near c k" "near (c\<lparr>stop_reason_of := r\<rparr>) k = near c k"
  "near (c\<lparr>error := e\<rparr>) k = near c k"
  by (simp_all add: near_def fun_eq_iff)

lemma fault_updates [simp]:
  "fault (c\<lparr>status := t\<rparr>) k = fault c k" "fault (c\<lparr>stop_reason_of := r\<rparr>) k = fault c k"
  "fault (c\<lparr>error := e\<rparr>) k = fault c k"
  by (simp_all add: fault_def fun_eq_iff)

lemma here_fault: "here c k b s \<Longrightarrow> ordinary_exn e \<Longrightarrow> fault c k e s"
  by (simp add: fault_def here_near)

lemma refines_ctx_here [refine_rules]:
  fixes E :: "exn \<Rightarrow> 'w loop_state \<Rightarrow> bool"
  assumes "\<And>d. core d = core c \<Longrightarrow> refines (here c k b) (f d) Q E"
  shows "refines (here c k b) (bindE ctxE f) Q E"
proof (rule refines_ctxE)
  fix d
  show "refines (\<lambda>s. here c k b s \<and> ctx s = d) (f d) Q E"
  proof (rule refines_fact)
    show "core d = core c" if "here c k b s \<and> ctx s = d" for s :: "'w loop_state"
      using that by (auto simp: here_def)
    show "refines (\<lambda>s. here c k b s \<and> ctx s = d) (f d) Q E" if "core d = core c"
      by (rule refines_pre [OF assms [OF that]]) simp
  qed
qed

lemma refines_upd_here:
  fixes E :: "exn \<Rightarrow> 'w loop_state \<Rightarrow> bool"
  assumes "\<And>s :: 'w loop_state. core (ctx s) = core c \<Longrightarrow> component_calls (trace s) = k \<Longrightarrow> budget s \<Longrightarrow>
             loop_step s (s\<lparr>ctx := f (ctx s)\<rparr>)"
    and "\<And>d. core d = core c \<Longrightarrow> core (f d) = core (f c)"
  shows "refines (here c k b) (updE f) (\<lambda>_. here (f c) k False) E"
proof (rule refines_updE)
  fix s :: "'w loop_state"
  assume "here c k b s" and bs: "budget s"
  then have cs: "core (ctx s) = core c" "component_calls (trace s) = k"
    by (simp_all add: here_def)
  show "loop_step s (s\<lparr>ctx := f (ctx s)\<rparr>)"
    by (rule assms(1) [OF cs bs])
  show "here (f c) k False (s\<lparr>ctx := f (ctx s)\<rparr>)"
    using assms(2) [OF cs(1)] cs(2) by (simp add: here_def)
qed

lemma refines_clock_here:
  fixes E :: "exn \<Rightarrow> 'w loop_state \<Rightarrow> bool"
  assumes "\<And>s :: 'w loop_state. core (ctx s) = core c \<Longrightarrow> loop_step s (s\<lparr>ctx := f (ctx s)\<rparr>)"
    and "\<And>d. core (f d) = core d"
  shows "refines (here c k b) (updE f) (\<lambda>_. here c k b) E"
proof (rule refines_updE)
  fix s :: "'w loop_state"
  assume h: "here c k b s"
  show "loop_step s (s\<lparr>ctx := f (ctx s)\<rparr>)"
    by (rule assms(1)) (use h in \<open>simp add: here_def\<close>)
  show "here c k b (s\<lparr>ctx := f (ctx s)\<rparr>)"
    using h by (auto simp: here_def synced_def assms(2))
qed

lemma refines_log_here:
  fixes E :: "exn \<Rightarrow> 'w loop_state \<Rightarrow> bool"
  assumes "\<And>s :: 'w loop_state. here c k b s \<Longrightarrow> budget s \<Longrightarrow> loop_step s (s\<lparr>trace := trace s @ [a]\<rparr>)"
    and "is_call a"
  shows "refines (here c k b) (logE a) (\<lambda>_. here c (k @ [a]) b) E"
proof (rule refines_logE)
  fix s :: "'w loop_state"
  assume h: "here c k b s" and "budget s"
  then show "loop_step s (s\<lparr>trace := trace s @ [a]\<rparr>)"
    by (rule assms(1))
  show "here c (k @ [a]) b (s\<lparr>trace := trace s @ [a]\<rparr>)"
    using h assms(2) by (cases a) (auto simp: here_def synced_def)
qed

lemma refines_env_here:
  fixes f :: "'w \<Rightarrow> (exn + 'a) \<times> 'w"
  assumes "raises_ordinary f"
  shows "refines (here c k b) (envE f) (\<lambda>_. here c k b) (fault c k)"
proof (rule refines_runI)
  fix s :: "'w loop_state" and r s'
  assume h: "here c k b s" and run: "envE f s = (r, s')"
  obtain w where s': "s' = s\<lparr>world := w\<rparr>" and f: "f (world s) = (r, w)"
    using run by (auto simp: envE_def split: prod.splits)
  have "here c k b s'"
    unfolding s' using world_free_here h by (rule world_freeD_world)
  moreover from this have "fault c k e s'" if "r = Inl e" for e
    using raises_ordinaryD [OF assms] f that by (blast intro: here_fault)
  ultimately show "reach s s' \<and> (case r of Inl e \<Rightarrow> fault c k e s' | Inr x \<Rightarrow> here c k b s')"
    unfolding s' by (auto intro: reach_one loop_step_world split: sum.splits)
qed

lemma refines_start_here:
  fixes f :: "'w \<Rightarrow> (exn + 'r task) \<times> 'w"
  assumes "starts_ordinary f"
  shows "refines (here c k b) (envE f) (\<lambda>t s. here c k b s \<and> ordinary_task t) (fault c k)"
proof -
  have "refines (here c k b) (envE f) (\<lambda>_. here c k b) (fault c k)"
    by (rule refines_env_here) (simp add: starts_raises assms)
  note h = this
  show ?thesis
  proof (rule refinesI)
    fix s :: "'w loop_state" and x s'
    assume "here c k b s" "budget s" and run: "envE f s = (Inr x, s')"
    then have "here c k b s'"
      by (rule refines_ok [OF h])
    moreover have "ordinary_task x"
      using run by (auto simp: envE_def intro: starts_task [OF assms] split: prod.splits)
    ultimately show "here c k b s' \<and> ordinary_task x" ..
  qed (rule refines_reach [OF h] refines_err [OF h]; assumption)+
qed

lemmas env_here [refine_rules] =
  refines_env_here [OF ordinary_envD(1)] refines_env_here [OF ordinary_envD(2)]
  refines_env_here [OF ordinary_envD(7)] refines_env_here [OF ordinary_envD(13)]
  refines_start_here [OF ordinary_envD(8)] refines_start_here [OF ordinary_envD(9)]
  refines_start_here [OF ordinary_envD(10)] refines_start_here [OF ordinary_envD(11)]
  refines_start_here [OF ordinary_envD(12)] refines_start_here [OF ordinary_envD(14)]

lemma refines_ask_here [refine_rules]: "refines (here c k b) (askE f) (\<lambda>_. here c k b) E"
  by (rule refines_askE) simp_all

lemma refines_return_here: "refines (here c k b) (returnE x) (\<lambda>_. here c k b) E"
  by (rule refines_returnE)

text \<open>A pure fact about the returned value moves out of the precondition.\<close>

lemma refines_conj_fact [refine_rules]:
  assumes "A \<Longrightarrow> refines P m Q E"
  shows "refines (\<lambda>s. P s \<and> A) m Q E"
  by (rule refinesI) (use assms in \<open>auto dest: refines_reach refines_ok refines_err\<close>)

lemmas refine_seq [refine_rules] = refines_seq refines_then

section \<open>Timers and commits\<close>

lemma start_active_timer [refine_rules]:
  fixes E :: "exn \<Rightarrow> 'w loop_state \<Rightarrow> bool"
  shows
  "refines (here c k b) (start_active_timer env) (\<lambda>_. here c k b) E"
  unfolding start_active_timer_def
proof (rule refines_ctx_here)
  fix d
  have "refines (here c k b) (updE (\<lambda>c. c\<lparr>active_started_at := Some t\<rparr>)) (\<lambda>_. here c k b) E" for t
  proof (rule refines_clock_here)
    fix s :: "'w loop_state"
    show "loop_step s (s\<lparr>ctx := (ctx s)\<lparr>active_started_at := Some t\<rparr>\<rparr>)"
      using ls_clock [where s = s and x = "active_elapsed_seconds (ctx s)" and t = "Some t"
          and h = "last_heartbeat_at (ctx s)" and u = "updated_at (ctx s)"] by simp
  qed simp
  then show "refines (here c k b)
      (if active_started_at d = None
       then bindE (askE (e_now env)) (\<lambda>t. updE (\<lambda>c. c\<lparr>active_started_at := Some t\<rparr>))
       else returnE ()) (\<lambda>_. here c k b) E"
    by (auto intro!: refines_if refines_returnE refines_seq [OF refines_ask_here [where E = E]])
qed

lemma pause_active_timer [refine_rules]:
  fixes E :: "exn \<Rightarrow> 'w loop_state \<Rightarrow> bool"
  shows "refines (here c k b) (pause_active_timer env) (\<lambda>_. here c k b) E"
  unfolding pause_active_timer_def
proof (rule refines_ctx_here)
  fix d
  have "refines (here c k b) (updE (\<lambda>c. c\<lparr>active_elapsed_seconds :=
          active_elapsed_seconds c + max 0 (total_seconds t t0), active_started_at := None\<rparr>))
        (\<lambda>_. here c k b) E" for t t0
  proof (rule refines_clock_here)
    fix s :: "'w loop_state"
    show "loop_step s (s\<lparr>ctx := (ctx s)\<lparr>active_elapsed_seconds :=
            active_elapsed_seconds (ctx s) + max 0 (total_seconds t t0),
            active_started_at := None\<rparr>\<rparr>)"
      using ls_clock [where s = s and t = None and h = "last_heartbeat_at (ctx s)"
          and x = "active_elapsed_seconds (ctx s) + max 0 (total_seconds t t0)"
          and u = "updated_at (ctx s)"] by simp
  qed simp
  then show "refines (here c k b)
      (case active_started_at d of None \<Rightarrow> returnE ()
       | Some t0 \<Rightarrow> bindE (askE (e_now env)) (\<lambda>t.
           updE (\<lambda>c. c\<lparr>active_elapsed_seconds :=
               active_elapsed_seconds c + max 0 (total_seconds t t0), active_started_at := None\<rparr>)))
      (\<lambda>_. here c k b) E"
    by (auto intro!: refines_returnE refines_seq [OF refines_ask_here [where E = E]]
        split: option.splits)
qed

lemma settle_crashed_timer [refine_rules]:
  fixes E :: "exn \<Rightarrow> 'w loop_state \<Rightarrow> bool"
  shows "refines (here c k b) settle_crashed_timer (\<lambda>_. here c k b) E"
  unfolding settle_crashed_timer_def Let_def
proof (rule refines_ctx_here)
  fix d
  have "refines (here c k b) (updE (\<lambda>c. c\<lparr>active_elapsed_seconds :=
          active_elapsed_seconds c + max 0 x, active_started_at := None\<rparr>))
        (\<lambda>_. here c k b) E" for x
  proof (rule refines_clock_here)
    fix s :: "'w loop_state"
    show "loop_step s (s\<lparr>ctx := (ctx s)\<lparr>active_elapsed_seconds :=
            active_elapsed_seconds (ctx s) + max 0 x, active_started_at := None\<rparr>\<rparr>)"
      using ls_clock [where s = s and t = None and h = "last_heartbeat_at (ctx s)"
          and x = "active_elapsed_seconds (ctx s) + max 0 x"
          and u = "updated_at (ctx s)"] by simp
  qed simp
  then show "refines (here c k b)
      (case active_started_at d of None \<Rightarrow> returnE ()
       | Some t0 \<Rightarrow> updE (\<lambda>c. c\<lparr>active_elapsed_seconds := active_elapsed_seconds c
             + max 0 (total_seconds
                 (case last_heartbeat_at d of None \<Rightarrow> updated_at d | Some t \<Rightarrow> t) t0),
             active_started_at := None\<rparr>))
      (\<lambda>_. here c k b) E"
    by (auto intro!: refines_returnE split: option.splits)
qed

lemma upd_updated_at [refine_rules]:
  fixes E :: "exn \<Rightarrow> 'w loop_state \<Rightarrow> bool"
  shows "refines (here c k b) (updE (\<lambda>c. c\<lparr>updated_at := t\<rparr>)) (\<lambda>_. here c k b) E"
proof (rule refines_clock_here)
  fix s :: "'w loop_state"
  show "loop_step s (s\<lparr>ctx := (ctx s)\<lparr>updated_at := t\<rparr>\<rparr>)"
    using ls_clock [where s = s and t = "active_started_at (ctx s)"
        and h = "last_heartbeat_at (ctx s)" and x = "active_elapsed_seconds (ctx s)" and u = t]
    by simp
qed simp

lemma upd_heartbeat_at [refine_rules]:
  fixes E :: "exn \<Rightarrow> 'w loop_state \<Rightarrow> bool"
  shows "refines (here c k b) (updE (\<lambda>c. c\<lparr>last_heartbeat_at := t\<rparr>)) (\<lambda>_. here c k b) E"
proof (rule refines_clock_here)
  fix s :: "'w loop_state"
  show "loop_step s (s\<lparr>ctx := (ctx s)\<lparr>last_heartbeat_at := t\<rparr>\<rparr>)"
    using ls_clock [where s = s and t = "active_started_at (ctx s)"
        and h = t and x = "active_elapsed_seconds (ctx s)" and u = "updated_at (ctx s)"]
    by simp
qed simp

lemma remaining_timeout [refine_rules]:
  "refines (here c k b) (remaining_timeout env) (\<lambda>_. here c k b) E"
  unfolding remaining_timeout_def
proof (rule refines_ctx_here)
  fix d
  have *: "refines (here c k b)
      (case active_started_at d of None \<Rightarrow> returnE (active_elapsed_seconds d)
       | Some t0 \<Rightarrow> bindE (askE (e_now env)) (\<lambda>t.
           returnE (active_elapsed_seconds d + total_seconds t t0))) (\<lambda>_. here c k b) E"
    by (auto intro!: refines_returnE refines_seq [OF refines_ask_here [where E = E]]
        split: option.splits)
  show "refines (here c k b)
      (case timeout_seconds (limits (request d)) of None \<Rightarrow> returnE None
       | Some lm \<Rightarrow> bindE
           (case active_started_at d of None \<Rightarrow> returnE (active_elapsed_seconds d)
            | Some t0 \<Rightarrow> bindE (askE (e_now env)) (\<lambda>t.
                returnE (active_elapsed_seconds d + total_seconds t t0)))
           (\<lambda>elapsed. returnE (Some (case lm of Fin x \<Rightarrow> Fin (x - elapsed) | y \<Rightarrow> y))))
      (\<lambda>_. here c k b) E"
    by (cases "timeout_seconds (limits (request d))"; simp only: option.case)
       (auto intro!: refines_returnE refines_seq [OF *])
qed

text \<open>A commit: what \<open>publish_all\<close> and \<open>checkpoint_and_emit_many\<close> do to the whole state.\<close>

lemma publish_all_run:
  assumes "publish_all env snap detail sq ets s = (r, s')" and "ordinary_env env"
  shows "\<exists>w evs. s' = s\<lparr>world := w, trace := trace s @ map Published evs\<rparr>
           \<and> numbered snap sq evs \<and> length evs \<le> length ets \<and> ordinary_result r
           \<and> map ev_type evs = take (length evs) ets
           \<and> (r = Inr () \<longrightarrow> length evs = length ets)"
  using assms(1)
proof (induction ets arbitrary: sq s r s')
  case Nil
  then have "r = Inr ()" "s' = s" by (auto simp: returnE_def)
  then show ?case
    by (intro exI [of _ "world s"] exI [of _ "[]"]) simp
next
  case (Cons et ets)
  obtain t w1 where now: "e_now env (world s) = (t, w1)" by fastforce
  define ev where "ev = \<lparr>ev_type = et, ev_context = snap, ev_occurred_at = t,
                         ev_detail = detail, ev_sequence = sq\<rparr>"
  obtain r1 w2 where pub: "e_publish env ev w1 = (r1, w2)" by fastforce
  show ?case
  proof (cases r1)
    case (Inl e)
    with Cons.prems now pub have "r = Inl e" "s' = s\<lparr>world := w2\<rparr>"
      by (auto simp: prog_simps askE_def envE_def ev_def Let_def)
    moreover have "ordinary_exn e"
      using raises_ordinaryD [OF ordinary_envD(6) [OF assms(2)] pub [unfolded Inl]] .
    ultimately show ?thesis
      by (intro exI [of _ w2] exI [of _ "[]"]) simp
  next
    case (Inr u)
    with Cons.prems now pub have
      "publish_all env snap detail (sq + 1) ets
         (s\<lparr>world := w2, trace := trace s @ [Published ev]\<rparr>) = (r, s')"
      by (auto simp: prog_simps askE_def envE_def ev_def Let_def logE_def)
    from Cons.IH [OF this] obtain w evs where ih:
      "s' = s\<lparr>world := w, trace := trace s @ Published ev # map Published evs\<rparr>"
      "numbered snap (sq + 1) evs" "length evs \<le> length ets" "ordinary_result r"
      "map ev_type evs = take (length evs) ets" "r = Inr () \<longrightarrow> length evs = length ets"
      by auto
    then show ?thesis
      by (intro exI [of _ w] exI [of _ "ev # evs"]) (simp add: ev_def)
  qed
qed

lemma commit_run:
  assumes "commit env s = (r, s')" and "ordinary_env env"
  shows "(\<exists>e w. r = Inl e \<and> ordinary_exn e \<and> s' = s\<lparr>world := w\<rparr>)
       \<or> (\<exists>w rv. r = Inr () \<and> revision (ctx s) < rv
            \<and> s' = s\<lparr>ctx := (ctx s)\<lparr>revision := rv\<rparr>, world := w, trace := trace s @ [Saved (ctx s) rv]\<rparr>)"
proof -
  obtain r1 w where save: "e_save env (ctx s) (revision (ctx s)) (world s) = (r1, w)"
    by fastforce
  show ?thesis
  proof (cases r1)
    case (Inl e)
    then show ?thesis
      using assms(1) save raises_ordinaryD [OF ordinary_envD(3) [OF assms(2)]]
      by (auto simp: commit_def prog_simps ctxE_def envE_def)
  next
    case (Inr rv)
    show ?thesis
    proof (cases "rv \<le> revision (ctx s)")
      case True
      with Inr assms(1) save have
        "r = Inl (CheckpointConflict ''checkpoint revision did not advance'')" "s' = s\<lparr>world := w\<rparr>"
        by (auto simp: commit_def prog_simps ctxE_def envE_def)
      then show ?thesis
        by (auto simp: ordinary_exn_def)
    next
      case False
      with Inr assms(1) save have
        "r = Inr ()" "s' = s\<lparr>ctx := (ctx s)\<lparr>revision := rv\<rparr>, world := w, trace := trace s @ [Saved (ctx s) rv]\<rparr>"
        by (auto simp: commit_def prog_simps ctxE_def envE_def logE_def updE_def)
      with False show ?thesis
        by (intro disjI2 exI [of _ w] exI [of _ rv]) simp
    qed
  qed
qed

text \<open>
  The checkpoint under a commit's number: \<open>emit_step s n s'\<close> for a commit with \<open>n\<close> events,
  \<open>emit_stop s n s'\<close> for one that failed before the save succeeded.
\<close>

definition emit_context ::
  "loop_context \<Rightarrow> int \<Rightarrow> datetime \<Rightarrow> (string \<times> string) list \<Rightarrow> state_ref list \<Rightarrow> loop_context" where
  "emit_context c n u pc refs =
     c\<lparr>event_sequence := event_sequence c + n, propagation_context := pc,
       external_state_refs := refs, updated_at := u\<rparr>"

lemma core_emit_context [simp]: "core (emit_context c n u pc refs) = core c"
  by (simp add: emit_context_def)

lemma checkpoint_and_emit_many_run:
  assumes "checkpoint_and_emit_many env ets detail s = (r, s')" and "ordinary_env env" and "ets \<noteq> []"
  shows "(\<exists>e w u n pc refs. r = Inl e \<and> ordinary_exn e \<and> 0 \<le> n
            \<and> s' = s\<lparr>ctx := emit_context (ctx s) n u pc refs, world := w\<rparr>)
       \<or> (\<exists>w u pc refs rv evs. ordinary_result r \<and> revision (ctx s) < rv
            \<and> length evs \<le> length ets \<and> (r = Inr () \<longrightarrow> length evs = length ets)
            \<and> map ev_type evs = take (length evs) ets
            \<and> (let c = emit_context (ctx s) (int (length ets)) u pc refs in
               numbered (c\<lparr>revision := rv\<rparr>) (event_sequence (ctx s) + 1) evs
               \<and> s' = s\<lparr>ctx := c\<lparr>revision := rv\<rparr>, world := w,
                         trace := trace s @ [Saved c rv] @ map Published evs\<rparr>))"
    (is "?failed \<or> ?done")
proof -
  let ?n = "int (length ets)"
  obtain t w1 where now: "e_now env (world s) = (t, w1)" by fastforce
  define s1 where "s1 = s\<lparr>world := w1, ctx := (ctx s)\<lparr>updated_at := t,
      event_sequence := event_sequence (ctx s) + ?n\<rparr>\<rparr>"
  define prep where "prep = (case e_prepare env of
               None \<Rightarrow> returnE ()
             | Some p \<Rightarrow> bindE ctxE (\<lambda>c. bindE (envE (p c ets)) (\<lambda>(prop, refs).
                 updE (\<lambda>c. c\<lparr>propagation_context := prop, external_state_refs := refs\<rparr>))))"
  define rest where "rest = thenE (commit env)
     (bindE ctxE (\<lambda>snap. publish_all env (snapshot snap) detail (event_sequence (ctx s) + 1) ets))"
  have run: "thenE prep rest s1 = (r, s')"
    using assms(1,3) now
    by (simp add: checkpoint_and_emit_many_def prog_simps askE_def updE_def ctxE_def Let_def
        prep_def rest_def s1_def cong: sum.case_cong prod.case_cong)
  obtain r2 s2 where prep: "prep s1 = (r2, s2)" by fastforce
  have "\<exists>w pc refs. s2 = s\<lparr>ctx := emit_context (ctx s) ?n t pc refs, world := w\<rparr> \<and> ordinary_result r2"
  proof (cases "e_prepare env")
    case None
    with prep have "s2 = s1" "r2 = Inr ()" by (auto simp: prep_def returnE_def)
    then show ?thesis
      by (intro exI [of _ w1] exI [of _ "propagation_context (ctx s)"]
          exI [of _ "external_state_refs (ctx s)"]) (simp add: s1_def emit_context_def)
  next
    case (Some p)
    obtain r3 w3 where p: "p (ctx s1) ets w1 = (r3, w3)" by fastforce
    show ?thesis
    proof (cases r3)
      case (Inl e)
      with prep Some p have "s2 = s1\<lparr>world := w3\<rparr>" "r2 = Inl e"
        by (auto simp: prep_def prog_simps ctxE_def envE_def s1_def)
      moreover have "ordinary_exn e"
        using raises_ordinaryD [OF ordinary_envD(5) [OF assms(2) Some] p [unfolded Inl]] .
      ultimately show ?thesis
        by (intro exI [of _ w3] exI [of _ "propagation_context (ctx s)"]
            exI [of _ "external_state_refs (ctx s)"]) (simp add: s1_def emit_context_def)
    next
      case (Inr x)
      obtain pc refs where "x = (pc, refs)" by fastforce
      with Inr prep Some p have "r2 = Inr ()" "s2 = s1\<lparr>ctx := (ctx s1)\<lparr>propagation_context := pc,
          external_state_refs := refs\<rparr>, world := w3\<rparr>"
        by (auto simp: prep_def prog_simps ctxE_def envE_def s1_def updE_def)
      then show ?thesis
        by (intro exI [of _ w3] exI [of _ pc] exI [of _ refs]) (simp add: s1_def emit_context_def)
    qed
  qed
  then obtain w2 pc refs where s2: "s2 = s\<lparr>ctx := emit_context (ctx s) ?n t pc refs, world := w2\<rparr>"
    and r2: "ordinary_result r2" by blast
  show ?thesis
  proof (cases r2)
    case (Inl e)
    with run prep have "r = Inl e" "s' = s2" by (auto simp: prog_simps)
    with s2 r2 Inl have ?failed
      by (intro exI [of _ e] exI [of _ w2] exI [of _ t] exI [of _ ?n] exI [of _ pc] exI [of _ refs]) simp
    then show ?thesis ..
  next
    case (Inr u)
    with run prep have rest: "rest s2 = (r, s')" by (auto simp: prog_simps)
    obtain r4 s4 where commit: "commit env s2 = (r4, s4)" by fastforce
    from commit_run [OF commit assms(2)] show ?thesis
    proof (elim disjE exE conjE)
      fix e w
      assume "r4 = Inl e" "ordinary_exn e" "s4 = s2\<lparr>world := w\<rparr>"
      with rest commit s2 have ?failed
        by (intro exI [of _ e] exI [of _ w] exI [of _ t] exI [of _ ?n] exI [of _ pc] exI [of _ refs])
           (auto simp: rest_def prog_simps)
      then show ?thesis ..
    next
      fix w rv
      let ?c = "emit_context (ctx s) ?n t pc refs"
      assume c: "r4 = Inr ()" "revision (ctx s2) < rv"
        "s4 = s2\<lparr>ctx := (ctx s2)\<lparr>revision := rv\<rparr>, world := w, trace := trace s2 @ [Saved (ctx s2) rv]\<rparr>"
      with rest commit have pub: "publish_all env (ctx s4) detail (event_sequence (ctx s) + 1) ets s4 = (r, s')"
        by (auto simp: rest_def prog_simps ctxE_def)
      from publish_all_run [OF pub assms(2)] obtain w' evs where
        "s' = s4\<lparr>world := w', trace := trace s4 @ map Published evs\<rparr>"
        "numbered (ctx s4) (event_sequence (ctx s) + 1) evs" "length evs \<le> length ets"
        "ordinary_result r" "map ev_type evs = take (length evs) ets"
        "r = Inr () \<longrightarrow> length evs = length ets" by blast
      with c s2 have ?done
        by (intro exI [of _ w'] exI [of _ t] exI [of _ pc] exI [of _ refs] exI [of _ rv] exI [of _ evs])
           (simp add: emit_context_def)
      then show ?thesis ..
    qed
  qed
qed

lemma emit_failed_reach:
  assumes "0 \<le> n"
  shows "reach s (s\<lparr>ctx := emit_context (ctx s) n u pc refs, world := w\<rparr>)"
proof -
  let ?s1 = "s\<lparr>ctx := (ctx s)\<lparr>updated_at := u\<rparr>\<rparr>"
  let ?s2 = "?s1\<lparr>ctx := (ctx ?s1)\<lparr>event_sequence := event_sequence (ctx ?s1) + n,
                propagation_context := pc, external_state_refs := refs\<rparr>\<rparr>"
  have "loop_step s ?s1"
    using ls_clock [where s = s and t = "active_started_at (ctx s)"
        and h = "last_heartbeat_at (ctx s)" and x = "active_elapsed_seconds (ctx s)" and u = u]
    by simp
  moreover have "loop_step ?s1 ?s2"
    by (rule ls_sequence [OF assms])
  moreover have "loop_step ?s2 (?s2\<lparr>world := w\<rparr>)"
    by (rule loop_step_world)
  ultimately have "reach s (?s2\<lparr>world := w\<rparr>)"
    by (blast intro: reach.intros)
  moreover have "?s2\<lparr>world := w\<rparr> = s\<lparr>ctx := emit_context (ctx s) n u pc refs, world := w\<rparr>"
    by (simp add: emit_context_def)
  ultimately show ?thesis by simp
qed

lemma last_save_published [simp]: "last_save (tr @ map Published evs) = last_save tr"
  by (induction evs rule: rev_induct) (simp_all flip: append_assoc)

lemma last_save_commit [simp]: "last_save (tr @ Saved c rv # map Published evs) = Some (c, rv)"
  using last_save_published [of "tr @ [Saved c rv]" evs] by simp

lemma checkpoint_and_emit_many:
  assumes "ordinary_env env" and "ets \<noteq> []"
  shows "refines (here c k b) (checkpoint_and_emit_many env ets detail)
           (\<lambda>_. here c k True) (fault c k)"
proof (rule refines_runI)
  fix s r s'
  assume h: "here c k b s" and run: "checkpoint_and_emit_many env ets detail s = (r, s')"
  from checkpoint_and_emit_many_run [OF run assms]
  show "reach s s' \<and> (case r of Inl e \<Rightarrow> fault c k e s' | Inr x \<Rightarrow> here c k True s')"
  proof (elim disjE exE conjE)
    fix e w u n pc refs
    assume f: "r = Inl e" "ordinary_exn e" "0 \<le> n"
      "s' = s\<lparr>ctx := emit_context (ctx s) n u pc refs, world := w\<rparr>"
    then have "here c k False s'"
      using h by (simp add: here_def)
    with f show ?thesis
      by (auto intro: emit_failed_reach here_fault)
  next
    fix w u pc refs rv evs
    let ?c = "emit_context (ctx s) (int (length ets)) u pc refs"
    assume r: "ordinary_result r" and rv: "revision (ctx s) < rv" and len: "length evs \<le> length ets"
      and rest: "let c = ?c in numbered (c\<lparr>revision := rv\<rparr>) (event_sequence (ctx s) + 1) evs
         \<and> s' = s\<lparr>ctx := c\<lparr>revision := rv\<rparr>, world := w,
                  trace := trace s @ [Saved c rv] @ map Published evs\<rparr>"
    then have s': "s' = s\<lparr>ctx := ?c\<lparr>revision := rv\<rparr>, world := w,
                  trace := trace s @ [Saved ?c rv] @ map Published evs\<rparr>"
      and nums: "numbered (?c\<lparr>revision := rv\<rparr>) (event_sequence (ctx s) + 1) evs"
      by (simp_all add: Let_def)
    have "loop_step s s'"
      unfolding s' by (rule ls_commit [OF emit_context_def rv _ nums]) (simp add: len of_nat_mono)
    moreover have "here c k True s'"
      using h by (auto simp: s' here_def synced_def)
    ultimately show ?thesis
      using r by (auto intro: reach_one here_fault here_unsaved split: sum.splits
          elim: ordinary_result.elims)
  qed
qed

lemma checkpoint_and_emit [refine_rules]:
  "ordinary_env env \<Longrightarrow>
   refines (here c k b) (checkpoint_and_emit env et detail) (\<lambda>_. here c k True) (fault c k)"
  unfolding checkpoint_and_emit_def by (rule checkpoint_and_emit_many) simp_all

lemmas checkpoint_and_emit_tail [tail_rules] = refines_weaken [OF checkpoint_and_emit]

section \<open>Transitions\<close>

lemma finished_plan_core: "core d = core c \<Longrightarrow> finished_plan d = finished_plan c"
  by (metis core_fields(6,7) finished_plan_def)

lemma all_passed_core:
  assumes "core d = core c"
  shows "all_passed d = all_passed c"
  unfolding all_passed_def core_eq_fields(4,6,7) [OF assms] ..

lemma plan_updates [simp]:
  "finished_plan (c\<lparr>status := t\<rparr>) = finished_plan c"
  "finished_plan (c\<lparr>stop_reason_of := r\<rparr>) = finished_plan c"
  "finished_plan (c\<lparr>error := e\<rparr>) = finished_plan c"
  "finished_plan (c\<lparr>feedback := fb\<rparr>) = finished_plan c"
  "finished_plan (c\<lparr>completion_approved := ca\<rparr>) = finished_plan c"
  "all_passed (c\<lparr>status := t\<rparr>) = all_passed c"
  "all_passed (c\<lparr>stop_reason_of := r\<rparr>) = all_passed c"
  "all_passed (c\<lparr>error := e\<rparr>) = all_passed c"
  "all_passed (c\<lparr>feedback := fb\<rparr>) = all_passed c"
  "all_passed (c\<lparr>completion_approved := ca\<rparr>) = all_passed c"
  by (simp_all add: finished_plan_def all_passed_def Let_def cong: option.case_cong)

lemma upd_status:
  fixes E :: "exn \<Rightarrow> 'w loop_state \<Rightarrow> bool"
  assumes "allowed (status c) t" and "t = COMPLETED \<Longrightarrow> finished_plan c"
  shows "refines (here c k b) (updE (\<lambda>c. c\<lparr>status := t\<rparr>)) (\<lambda>_. here (c\<lparr>status := t\<rparr>) k False) E"
proof (rule refines_upd_here)
  fix s :: "'w loop_state"
  assume "core (ctx s) = core c"
  then show "loop_step s (s\<lparr>ctx := (ctx s)\<lparr>status := t\<rparr>\<rparr>)"
    using assms finished_plan_core core_eq_fields(3) by (intro ls_status) metis+
qed (simp add: core_eq_iff)

lemma set_status [refine_rules]:
  assumes "t = COMPLETED \<Longrightarrow> finished_plan c"
  shows "refines (here c k b) (set_status t) (\<lambda>_. here (c\<lparr>status := t\<rparr>) k False) (fault c k)"
  unfolding set_status_def
proof (rule refines_ctx_here)
  fix d
  assume d: "core d = core c"
  show "refines (here c k b)
      (case ensure_transition (status d) t of Inl (a, b) \<Rightarrow> raiseE (InvalidTransition a b)
       | Inr _ \<Rightarrow> updE (\<lambda>c. c\<lparr>status := t\<rparr>)) (\<lambda>_. here (c\<lparr>status := t\<rparr>) k False) (fault c k)"
    using assms core_eq_fields(3) [OF d]
    by (auto simp: ensure_transition_def ordinary_exn_def
        intro!: upd_status refines_raiseE here_fault)
qed

lemma ls_note_to:
  assumes "c' = (ctx s)\<lparr>stop_reason_of := stop_reason_of c', error := error c',
             feedback := feedback c', active_operation_id := active_operation_id c',
             pending_attempt := pending_attempt c'\<rparr>"
    and "(active_operation_id c', pending_attempt c')
           \<in> {(active_operation_id (ctx s), pending_attempt (ctx s)), (None, None)}"
  shows "loop_step s (s\<lparr>ctx := c'\<rparr>)"
  by (subst assms(1)) (rule ls_note [OF assms(2)])

lemma upd_note [refine_rules]:
  fixes E :: "exn \<Rightarrow> 'w loop_state \<Rightarrow> bool"
  shows "refines (here c k b) (updE (\<lambda>c. c\<lparr>stop_reason_of := r\<rparr>))
           (\<lambda>_. here (c\<lparr>stop_reason_of := r\<rparr>) k False) E"
    and "refines (here c k b) (updE (\<lambda>c. c\<lparr>error := e\<rparr>)) (\<lambda>_. here (c\<lparr>error := e\<rparr>) k False) E"
    and "refines (here c k b) (updE (\<lambda>c. c\<lparr>feedback := fb\<rparr>)) (\<lambda>_. here (c\<lparr>feedback := fb\<rparr>) k False) E"
    and "refines (here c k b) (updE (\<lambda>c. c\<lparr>stop_reason_of := r, error := e\<rparr>))
           (\<lambda>_. here (c\<lparr>stop_reason_of := r, error := e\<rparr>) k False) E"
    and "refines (here c k b) (updE (\<lambda>c. c\<lparr>active_operation_id := None, pending_attempt := None, error := e\<rparr>))
           (\<lambda>_. here (c\<lparr>active_operation_id := None, pending_attempt := None, error := e\<rparr>) k False) E"
proof -
qed (rule refines_upd_here, rule ls_note_to, simp, simp, simp add: core_eq_iff)+



lemma status_same: "status c = t \<Longrightarrow> c\<lparr>status := t\<rparr> = c"
  by (cases c) simp

lemma transition [refine_rules]:
  assumes "ordinary_env env" and "t = COMPLETED \<Longrightarrow> finished_plan c"
  shows "refines (here c k b) (transition env t et) (\<lambda>_. here (c\<lparr>status := t\<rparr>) k True) (fault c k)"
  unfolding transition_def
  by (assumption | rule refine_rules assms | rule tail_rules | (simp; fail))+

lemma stop_spec [refine_rules]:
  assumes "ordinary_env env" and "st = COMPLETED \<Longrightarrow> finished_plan c"
  shows "refines (here c k b) (stop env st reason et)
           (\<lambda>_. here (c\<lparr>stop_reason_of := Some reason, status := st\<rparr>) k True) (fault c k)"
  unfolding stop_def
proof ((assumption | rule refine_rules | rule tail_rules | (simp; fail))+, rule refines_if)
  fix d
  assume "core d = core (c\<lparr>stop_reason_of := Some reason\<rparr>)"
  from core_eq_fields(3) [OF this] have d: "status d = status c"
    by simp
  let ?c = "c\<lparr>stop_reason_of := Some reason\<rparr>"
  show "refines (here ?c k False) (checkpoint_and_emit env et [])
          (\<lambda>_. here (?c\<lparr>status := st\<rparr>) k True) (fault c k)" if "status d = st"
    using that d checkpoint_and_emit [OF assms(1), of ?c k False et "[]"]
    by (simp add: status_same)
  show "refines (here ?c k False) (transition env st et)
          (\<lambda>_. here (?c\<lparr>status := st\<rparr>) k True) (fault c k)"
    using transition [OF assms(1), of st ?c k False et] assms(2)
    by simp
qed

text \<open>The post-condition of \<open>stop\<close> up to the order of the two updates; the way it ends a run.\<close>

lemmas stop_tail [tail_rules] = refines_weaken [OF stop_spec]

lemma here_stopped:
  "here c k b s \<Longrightarrow> status c \<in> {CANCELLED, TIMED_OUT} \<Longrightarrow> fault c k Stopped s"
  unfolding fault_def ended_def by (metis here_near here_fields(3) exn.distinct(7))

lemma stop_run [refine_rules]:
  assumes "ordinary_env env" and "st \<in> {CANCELLED, TIMED_OUT}"
  shows "refines (here c k b) (stop_run env st reason et) Q (fault c k)"
  unfolding stop_run_def
  by (assumption | rule refine_rules assms(1) refines_raiseE | rule tail_rules
      | (use assms(2) in auto; fail) | (drule here_stopped; use assms(2) in simp; fail))+

section \<open>Cancellation, boundaries and the supervision of a call\<close>

lemma is_cancelled [refine_rules]:
  fixes E :: "exn \<Rightarrow> 'w loop_state \<Rightarrow> bool"
  shows "refines (here c k b) (is_cancelled env) (\<lambda>_. here c k b) E"
proof (rule refines_runI)
  fix s :: "'w loop_state" and r s'
  assume h: "here c k b s" and run: "is_cancelled env s = (r, s')"
  obtain w cs where s': "s' = s\<lparr>world := w, cancelled := cs\<rparr>" and "\<exists>x. r = Inr x"
    using run by (auto simp: is_cancelled_def prog_simps askE_def split: prod.splits)
  then show "reach s s' \<and> (case r of Inl e \<Rightarrow> E e s' | Inr x \<Rightarrow> here c k b s')"
    using world_freeD [OF world_free_here h] by (auto intro!: reach_one ls_env)
qed

lemma stop_at_safe_boundary [refine_rules]:
  assumes "ordinary_env env"
  shows "refines (here c k b) (stop_at_safe_boundary env)
           (\<lambda>x s. if x then near c k s \<and> status (ctx s) \<in> {CANCELLED, BLOCKED}
                  else here c k b s) (fault c k)"
  unfolding stop_at_safe_boundary_def
  by (assumption | rule refine_rules assms refines_if refines_returnE | rule tail_rules
      | (simp; fail) | (frule here_near, drule here_fields(3), simp; fail))+

lemma world_free_fault: "world_free (fault c k e)"
  by (simp add: world_free_def fault_def near_def ended_def)

lemma reap_fault:
  assumes "ordinary_env env"
  shows "refines (fault c k e) (thenE (envE (e_reap env)) (raiseE e)) Q (fault c k)"
proof (rule refines_then)
  show "refines (fault c k e) (envE (e_reap env)) (\<lambda>_. fault c k e) (fault c k)"
  proof (rule refines_runI)
    fix s r s'
    assume h: "fault c k e s" and run: "envE (e_reap env) s = (r, s')"
    obtain w where s': "s' = s\<lparr>world := w\<rparr>" and f: "e_reap env (world s) = (r, w)"
      using run by (auto simp: envE_def split: prod.splits)
    have h': "fault c k e s'"
      unfolding s' using world_free_fault h by (rule world_freeD_world)
    moreover have "fault c k e' s'" if "r = Inl e'" for e'
      using raises_ordinaryD [OF ordinary_envD(2) [OF assms]] f that h'
      by (auto simp: fault_def)
    ultimately show "reach s s' \<and> (case r of Inl e \<Rightarrow> fault c k e s' | Inr x \<Rightarrow> fault c k e s')"
      unfolding s' by (auto intro: reach_one loop_step_world split: sum.splits)
  qed
  show "refines (fault c k e) (raiseE e) Q (fault c k)" for x :: unit
    by (rule refines_raiseE)
qed

lemma unfinished:
  assumes "ordinary_env env" and "refines P m Q (fault c k)"
  shows "refines P (unfinished env m) Q (fault c k)"
  unfolding unfinished_def
  by (rule refines_tryE [OF assms(2)], rule refines_if)
     (auto intro: refines_raiseE reap_fault [OF assms(1)])

lemma poll_turn:
  assumes "ordinary_env env" and "refines (here c k b) m Q (fault c k)"
  shows "refines (here c k b) (poll_turn env nh m) Q (fault c k)"
  unfolding poll_turn_def
  by (assumption | rule refine_rules unfinished assms refines_if | rule tail_rules
      | (simp; fail))+

lemma finish_task:
  assumes "ordinary_env env" and "ordinary_result r"
  shows "refines (here c k b) (finish_task env r) (\<lambda>_. here c k b) (fault c k)"
  unfolding finish_task_def
  by (assumption | rule refine_rules assms refines_if refines_liftE | rule tail_rules
      | (use assms(2) in \<open>simp add: here_fault\<close>; fail))+

lemma heartbeat:
  assumes "ordinary_env env"
  shows "refines (here c k b) (heartbeat env component) (\<lambda>_. here c k b) (fault c k)"
  unfolding heartbeat_def
  by (assumption | rule refine_rules unfinished assms | rule tail_rules | (simp add: here_weak; fail))+

lemma await_task:
  assumes "ordinary_env env" and "ordinary_task t"
  shows "refines (here c k b) (await_task env component t nh) (\<lambda>_. here c k b) (fault c k)"
  using assms(2)
proof (induction t arbitrary: nh)
  case (Pending t)
  then show ?case
    unfolding await_task.simps
    by (intro poll_turn assms)
       (assumption | rule refines_seq refines_then refines_ask_here refines_if heartbeat assms
        | (simp; fail))+
next
  case (Done r)
  then show ?case
    by (simp add: poll_turn finish_task assms(1))
next
  case Hang
  show ?case
    unfolding await_task.simps
    by (intro poll_turn assms refines_raiseE) (simp add: fault_def ended_def here_near)
qed

lemma await_component [refine_rules]:
  assumes "ordinary_env env" and "ordinary_task t"
  shows "refines (here c k b) (await_component env component t) (\<lambda>_. here c k b) (fault c k)"
  unfolding await_component_def
  by (assumption | rule refine_rules await_task assms)+

lemmas await_component_tail [tail_rules] = refines_weaken [OF await_component]

end
