(* ===== verification/LoopRefinement.thy ===== *)
theory LoopRefinement
  imports LoopCommits
begin

text \<open>
  The methods of the controller move along \<open>loop_step\<close>, second part: human interaction,
  approval, execution with retries, and the execution and verification of one plan step.
\<close>

section \<open>Human interaction and approval\<close>

lemma upd_interaction:
  fixes E :: "exn \<Rightarrow> 'w loop_state \<Rightarrow> bool"
  assumes "pending_interaction c = None"
  shows "refines (here c k b) (updE (\<lambda>c. c\<lparr>pending_interaction := Some i, stop_reason_of := r\<rparr>))
           (\<lambda>_. here (c\<lparr>pending_interaction := Some i, stop_reason_of := r\<rparr>) k False) E"
proof (rule refines_upd_here)
  fix s :: "'w loop_state"
  assume "core (ctx s) = core c"
  from core_eq_fields(13) [OF this] assms
  show "loop_step s (s\<lparr>ctx := (ctx s)\<lparr>pending_interaction := Some i, stop_reason_of := r\<rparr>\<rparr>)"
    by (intro ls_interaction) simp
qed (simp add: core_eq_iff)

lemma request_human_interaction:
  assumes "ordinary_env env"
  shows "refines (here c k b) (request_human_interaction env i reason)
           (\<lambda>_. here (c\<lparr>pending_interaction := Some i, stop_reason_of := Some reason, status := PAUSED\<rparr>) k True)
           ended"
  unfolding request_human_interaction_def
proof (rule refines_ctx_here, rule refines_if)
  fix d
  show "refines (here c k b) (raiseE (HumanNotPending ''run already has a pending human interaction''))
      (\<lambda>_. here (c\<lparr>pending_interaction := Some i, stop_reason_of := Some reason, status := PAUSED\<rparr>) k True)
      ended"
    by (rule refines_raiseE) (simp add: ordinary_exn_def)
next
  fix d
  assume d: "core d = core c" and "\<not> pending_interaction d \<noteq> None"
  then have none: "pending_interaction c = None"
    using core_eq_fields(13) [OF d] by simp
  let ?c = "c\<lparr>pending_interaction := Some i, stop_reason_of := Some reason\<rparr>"
  have paused: "refines (here ?c k False)
      (if status d = PAUSED then checkpoint_and_emit env HUMAN_INTERACTION_REQUESTED []
       else transition env PAUSED HUMAN_INTERACTION_REQUESTED)
      (\<lambda>_. here (?c\<lparr>status := PAUSED\<rparr>) k True) (fault (?c\<lparr>status := PAUSED\<rparr>) k)"
  proof (rule refines_if)
    assume "status d = PAUSED"
    then have "?c\<lparr>status := PAUSED\<rparr> = ?c"
      using core_eq_fields(3) [OF d] by (intro status_same) simp
    then show "refines (here ?c k False) (checkpoint_and_emit env HUMAN_INTERACTION_REQUESTED [])
      (\<lambda>_. here (?c\<lparr>status := PAUSED\<rparr>) k True) (fault (?c\<lparr>status := PAUSED\<rparr>) k)"
      using checkpoint_and_emit [OF assms, of ?c k False HUMAN_INTERACTION_REQUESTED "[]"] by simp
  next
    show "refines (here ?c k False) (transition env PAUSED HUMAN_INTERACTION_REQUESTED)
      (\<lambda>_. here (?c\<lparr>status := PAUSED\<rparr>) k True) (fault (?c\<lparr>status := PAUSED\<rparr>) k)"
      using transition [OF assms, of PAUSED ?c k False HUMAN_INTERACTION_REQUESTED] by simp
  qed
  show "refines (here c k b)
      (thenE (updE (\<lambda>c. c\<lparr>pending_interaction := Some i, stop_reason_of := Some reason\<rparr>))
        (thenE (pause_active_timer env)
          (thenE (if status d = PAUSED then checkpoint_and_emit env HUMAN_INTERACTION_REQUESTED []
             else transition env PAUSED HUMAN_INTERACTION_REQUESTED)
            (checkpoint_and_emit env LOOP_PAUSED []))))
      (\<lambda>_. here (?c\<lparr>status := PAUSED\<rparr>) k True) ended"
    by (assumption | rule tail_rules | rule upd_interaction none paused refine_rules assms | (simp; fail))+
qed

lemma refines_lift_here:
  assumes "\<And>e. r = Inl e \<Longrightarrow> ordinary_exn e"
  shows "refines (here c k b) (liftE r) (\<lambda>_. here c k b) (fault c k)"
  by (rule refines_liftE) (auto intro: here_fault assms)

lemma new_HumanInteractionRequest_ordinary:
  "new_HumanInteractionRequest kd pr acts iid sid md t = Inl e \<Longrightarrow> ordinary_exn e"
  by (auto simp: new_HumanInteractionRequest_def require_def ordinary_exn_def Let_def
      split: if_splits sum.splits)

lemma refines_case_approval:
  assumes "refines P a Q E" and "refines P r Q E" and "refines P f Q E"
  shows "refines P (case d of APPROVED \<Rightarrow> a | REJECTED \<Rightarrow> r | DEFERRED \<Rightarrow> f) Q E"
  using assms by (cases d) simp_all

definition granted :: "loop_context \<Rightarrow> bool \<Rightarrow> 'w loop_state \<Rightarrow> bool" where
  "granted c ok s \<longleftrightarrow>
     (if ok then \<exists>k. here (c\<lparr>status := EXECUTING\<rparr>) k True s
      else status (ctx s) \<in> {PAUSED, BLOCKED})"

lemma granted_intros:
  "here (c\<lparr>status := EXECUTING\<rparr>) k True s \<Longrightarrow> granted c True s"
  "here d k b s \<Longrightarrow> status d \<in> {PAUSED, BLOCKED} \<Longrightarrow> granted c False s"
  by (auto simp: granted_def here_fields(3))

lemma approve:
  assumes "ordinary_env env"
  shows "refines (here c k b) (approve env st)
           (granted c) ended"
  unfolding approve_def
proof (rule refines_ctx_here, rule refines_if)
  fix d
  show "refines (here c k b)
     (thenE (checkpoint_and_emit env APPROVAL_GRANTED [])
       (thenE (transition env EXECUTING EXECUTION_STARTED) (returnE True)))
     (granted c) ended"
    by (assumption | rule refine_rules refines_returnE assms | rule tail_rules | (simp; fail)
        | (erule granted_intros))+
next
  fix d
  note request = request_human_interaction [OF assms]
  have gate: "refines (here (c\<lparr>status := WAITING_APPROVAL\<rparr>) k True) (logE (GateCalled st))
       (\<lambda>_. here (c\<lparr>status := WAITING_APPROVAL\<rparr>) (k @ [GateCalled st]) True) (fault c k)" for k
    by (rule refines_log_here, rule ls_gate_call)
       (auto simp: here_def dest: core_eq_fields(3))
  show "refines (here c k b)
     (thenE (transition env WAITING_APPROVAL APPROVAL_REQUESTED)
      (bindE ctxE (\<lambda>c.
       bindE (envE (e_decide env st (snapshot c))) (\<lambda>t.
       thenE (logE (GateCalled st))
      (bindE (await_component env ''approval_gate'' t) (\<lambda>decision.
         case decision of
           APPROVED \<Rightarrow>
             thenE (checkpoint_and_emit env APPROVAL_GRANTED [])
            (thenE (transition env EXECUTING EXECUTION_STARTED) (returnE True))
         | DEFERRED \<Rightarrow>
             bindE (askE (e_uuid env)) (\<lambda>iid.
             bindE (askE (e_now env)) (\<lambda>now.
             bindE (liftE (new_HumanInteractionRequest APPROVAL (approval_prompt st)
                      [APPROVE, REJECT, REVISE] iid (Some (step_id st))
                      [(PStr ''executor'', PStr (executor st))] now)) (\<lambda>i.
             thenE (request_human_interaction env i SR_APPROVAL_DEFERRED) (returnE False))))
         | REJECTED \<Rightarrow>
             thenE (stop env BLOCKED SR_APPROVAL_REJECTED LOOP_BLOCKED) (returnE False)))))))
     (granted c) ended"
    by (assumption | rule refine_rules gate request refines_case_approval refines_returnE assms
        refines_lift_here [OF new_HumanInteractionRequest_ordinary]
        | rule tail_rules | (simp; fail) | (simp, erule granted_intros(1); fail)
        | (erule granted_intros(2), simp; fail))+
qed


section \<open>Execution with retries\<close>

lemma here_budget:
  assumes "here c k b s" and "budget s"
  shows "calls is_executor_call k \<le> total_attempts c" "calls is_planner_call k \<le> cycle_count c"
  using assms core_eq_fields(8,9) [of "ctx s" c] calls_component_calls [of "trace s"]
  by (auto simp: here_def budget_def)

lemma refines_near:
  assumes "\<And>d. work d = work c \<Longrightarrow> refines (here d k False) m Q E"
  shows "refines (near c k) m Q E"
proof (rule refines_runI)
  fix s r s'
  assume n: "near c k s" and bs: "budget s" and run: "m s = (r, s')"
  then have "refines (here (ctx s) k False) m Q E"
    by (intro assms) (simp add: near_def)
  moreover have "here (ctx s) k False s"
    using n by (simp add: here_def near_def)
  ultimately show "reach s s' \<and> (case r of Inl e \<Rightarrow> E e s' | Inr x \<Rightarrow> Q x s')"
    using bs run by (auto dest: refines_reach refines_ok refines_err split: sum.splits)
qed

lemma operation_id_core: "core d = core c \<Longrightarrow> operation_id d st = operation_id c st"
  unfolding operation_id_def by (metis core_fields(2,8))

text \<open>\<open>same_plan\<close>: what an execution leaves alone; \<open>executed\<close>: what it returns.\<close>

definition same_plan :: "loop_context \<Rightarrow> loop_context \<Rightarrow> bool" where
  "same_plan d c \<longleftrightarrow> request d = request c \<and> run_id d = run_id c \<and> records d = records c
     \<and> current_plan d = current_plan c \<and> current_step_index d = current_step_index c
     \<and> cycle_count d = cycle_count c"

lemma same_plan_refl [simp]: "same_plan c c"
  by (simp add: same_plan_def)

lemma same_plan_trans: "same_plan e d \<Longrightarrow> same_plan d c \<Longrightarrow> same_plan e c"
  by (simp add: same_plan_def)

lemma same_plan_core: "core d = core c \<Longrightarrow> same_plan d c"
  by (simp add: core_eq_iff same_plan_def)

lemma same_plan_work: "work d = work c \<Longrightarrow> same_plan d c"
  unfolding same_plan_def by (blast intro: work_eq_fields)

lemma same_plan_operation: "same_plan d c \<Longrightarrow> operation_id d st = operation_id c st"
  by (simp add: same_plan_def operation_id_def)

lemma same_plan_updates [simp]:
  "same_plan (d\<lparr>status := t\<rparr>) c = same_plan d c"
  "same_plan (d\<lparr>total_attempts := n\<rparr>) c = same_plan d c"
  "same_plan (d\<lparr>pending_attempt := a\<rparr>) c = same_plan d c"
  "same_plan (d\<lparr>pending_execution := ex\<rparr>) c = same_plan d c"
  "same_plan (d\<lparr>active_operation_id := op\<rparr>) c = same_plan d c"
  by (simp_all add: same_plan_def)

definition executed ::
  "loop_context \<Rightarrow> string \<Rightarrow> (execution_result \<times> int) option \<Rightarrow> 'w loop_state \<Rightarrow> bool" where
  "executed c op x s \<longleftrightarrow>
     (case x of None \<Rightarrow> status (ctx s) \<in> {CANCELLED, BLOCKED, PLANNING}
      | Some (ex, a) \<Rightarrow> \<exists>d k. here d k True s \<and> same_plan d c \<and> active_operation_id d = Some op
          \<and> pending_execution d = Some ex \<and> pending_attempt d = Some a \<and> 1 \<le> a)"

lemma upd_attempt:
  fixes E :: "exn \<Rightarrow> 'w loop_state \<Rightarrow> bool"
  assumes "total_attempts c < max_attempts (limits (request c))" and "1 \<le> a"
    and "active_operation_id c \<noteq> None"
  shows "refines (here c k b) (updE (\<lambda>c. c\<lparr>total_attempts := total_attempts c + 1, pending_attempt := Some a\<rparr>))
           (\<lambda>_. here (c\<lparr>total_attempts := total_attempts c + 1, pending_attempt := Some a\<rparr>) k False) E"
proof (rule refines_upd_here)
  fix s :: "'w loop_state"
  assume "core (ctx s) = core c"
  note f = core_eq_fields [OF this]
  show "loop_step s (s\<lparr>ctx := (ctx s)\<lparr>total_attempts := total_attempts (ctx s) + 1,
                                        pending_attempt := Some a\<rparr>\<rparr>)"
    by (rule ls_attempt) (use assms f in simp_all)
qed (simp add: core_eq_iff)

lemma upd_result:
  fixes E :: "exn \<Rightarrow> 'w loop_state \<Rightarrow> bool"
  assumes "active_operation_id c \<noteq> None" and "pending_attempt c \<noteq> None"
  shows "refines (here c k b) (updE (\<lambda>c. c\<lparr>pending_execution := Some ex\<rparr>))
           (\<lambda>_. here (c\<lparr>pending_execution := Some ex\<rparr>) k False) E"
proof (rule refines_upd_here)
  fix s :: "'w loop_state"
  assume "core (ctx s) = core c"
  note f = core_eq_fields [OF this]
  show "loop_step s (s\<lparr>ctx := (ctx s)\<lparr>pending_execution := Some ex\<rparr>\<rparr>)"
    by (rule ls_result) (use assms f in simp_all)
qed (simp add: core_eq_iff)

lemma log_executor:
  assumes "calls is_executor_call k < total_attempts c" and "pending_attempt c \<noteq> None"
    and "active_operation_id c = Some (operation_id c st)"
  shows "refines (here c k True) (logE (ExecutorCalled st)) (\<lambda>_. here c (k @ [ExecutorCalled st]) True) E"
proof (rule refines_log_here)
  fix s assume h: "here c k True s"
  then have eq: "core (ctx s) = core c" and "component_calls (trace s) = k" "synced s"
    by (auto simp: here_def)
  then show "loop_step s (s\<lparr>trace := trace s @ [ExecutorCalled st]\<rparr>)"
    using assms calls_component_calls(1) [of "trace s"] operation_id_core [OF eq]
      core_eq_fields(9,18,20) [OF eq]
    by (intro ls_execute_call) simp_all
qed simp

text \<open>Conditions at an exception of \<open>call_executor\<close>: the result may already be stored.\<close>

definition exec_fault :: "loop_context \<Rightarrow> exn \<Rightarrow> 'w loop_state \<Rightarrow> bool" where
  "exec_fault c e s \<longleftrightarrow> ended e s \<and> (\<exists>x k. near (c\<lparr>pending_execution := x\<rparr>) k s)"

lemma fault_exec_fault:
  "fault c k e s \<Longrightarrow> exec_fault c e s"
  "fault (c\<lparr>pending_execution := x\<rparr>) k e s \<Longrightarrow> exec_fault c e s"
proof -
  have "c = c\<lparr>pending_execution := pending_execution c\<rparr>" by simp
  then show "fault c k e s \<Longrightarrow> exec_fault c e s"
    unfolding fault_def exec_fault_def by metis
  show "fault (c\<lparr>pending_execution := x\<rparr>) k e s \<Longrightarrow> exec_fault c e s"
    unfolding fault_def exec_fault_def by blast
qed

lemma call_executor:
  assumes env: "ordinary_env env" and a: "1 \<le> attempt"
    and k: "calls is_executor_call k < total_attempts c" and pa: "pending_attempt c = Some attempt"
    and op: "active_operation_id c = Some op" "op = operation_id c st"
  shows "refines (here c k True) (call_executor env st op attempt) (executed c op) (exec_fault c)"
  unfolding call_executor_def
proof (rule refines_ctx_here)
  fix d
  have act: "active_operation_id c \<noteq> None" "pending_attempt c \<noteq> None" using op pa by simp_all
  show "refines (here c k True)
     (bindE (envE (e_execute env (executor st) st (snapshot d))) (\<lambda>t.
      thenE (logE (ExecutorCalled st))
     (bindE (await_component env (''executor:'' @ executor st) t) (\<lambda>result.
      thenE (updE (\<lambda>c. c\<lparr>pending_execution := Some result\<rparr>))
     (thenE (checkpoint_and_emit env EXECUTION_COMPLETED op)
            (returnE (Some (result, attempt)))))))) (executed c op) (exec_fault c)"
    apply (assumption | rule refine_rules log_executor upd_result refines_returnE env k act op(1)[unfolded op(2)]
        | rule tail_rules | erule fault_exec_fault | (simp; fail))+
    using a pa op by (auto simp: executed_def)
qed


lemma ls_drop_plan_to:
  assumes "c' = (ctx s)\<lparr>current_plan := None, current_step_index := 0, feedback := feedback c',
             active_operation_id := active_operation_id c', pending_attempt := pending_attempt c'\<rparr>"
    and "(active_operation_id c', pending_attempt c')
           \<in> {(active_operation_id (ctx s), pending_attempt (ctx s)), (None, None)}"
  shows "loop_step s (s\<lparr>ctx := c'\<rparr>)"
  by (subst assms(1)) (rule ls_drop_plan [OF assms(2)])

lemma upd_drop_plan [refine_rules]:
  fixes E :: "exn \<Rightarrow> 'w loop_state \<Rightarrow> bool"
  shows "refines (here c k b) (updE (\<lambda>c. c\<lparr>current_plan := None, current_step_index := 0\<rparr>))
           (\<lambda>_. here (c\<lparr>current_plan := None, current_step_index := 0\<rparr>) k False) E"
    and "refines (here c k b) (updE (\<lambda>c. c\<lparr>feedback := fb, current_plan := None,
             current_step_index := 0, active_operation_id := None, pending_attempt := None\<rparr>))
           (\<lambda>_. here (c\<lparr>feedback := fb, current_plan := None, current_step_index := 0,
                       active_operation_id := None, pending_attempt := None\<rparr>) k False) E"
proof -
qed (rule refines_upd_here, rule ls_drop_plan_to, simp, simp, simp add: core_eq_iff)+

lemma is_exception_ordinary [simp]: "is_exception e \<Longrightarrow> ordinary_exn e"
  by (cases e) (simp_all add: ordinary_exn_def)

lemma executed_plan: "executed d op x s \<Longrightarrow> same_plan d c \<Longrightarrow> executed c op x s"
  by (auto simp: executed_def split: option.splits intro: same_plan_trans)

lemma executed_None:
  "here d k b s \<Longrightarrow> status d \<in> {CANCELLED, BLOCKED, PLANNING} \<Longrightarrow> executed c op None s"
  unfolding executed_def by (simp add: here_fields(3))

lemma refines_exec_fault:
  assumes "\<And>d k. work d = work (c\<lparr>pending_execution := pending_execution d\<rparr>) \<Longrightarrow>
             refines (here d k False) m Q E"
  shows "refines (exec_fault c e) m Q E"
proof -
  have "refines (\<lambda>s. \<exists>x k. near (c\<lparr>pending_execution := x\<rparr>) k s) m Q E"
  proof (intro refines_ex refines_near)
    fix x k d
    assume "work d = work (c\<lparr>pending_execution := x\<rparr>)"
    moreover from work_eq_fields(16) [OF this] have "pending_execution d = x" by simp
    ultimately show "refines (here d k False) m Q E"
      by (intro assms) simp
  qed
  then show ?thesis
    by (rule refines_pre) (simp add: exec_fault_def)
qed

lemma refines_case_retry:
  assumes "refines P f Q E" and "refines P p Q E" and "refines P r Q E"
  shows "refines P (case d of RA_FAIL \<Rightarrow> f | RA_REPLAN \<Rightarrow> p | RA_RETRY \<Rightarrow> r) Q E"
  using assms by (cases d) simp_all

lemma retry_handler:
  assumes env: "ordinary_env env"
    and loop: "\<And>d k b. same_plan d c \<Longrightarrow> total_attempts d = total_attempts c \<Longrightarrow>
      active_operation_id d = active_operation_id c \<Longrightarrow>
      refines (here d k b) again (executed c op) ended"
  shows "refines (exec_fault c e) (retry_handler env attempt again e) (executed c op) ended"
proof -
  have stop: "refines (here d k False)
     (thenE (updE (\<lambda>c. c\<lparr>active_operation_id := None, pending_attempt := None, error := t\<rparr>))
         (thenE (stop env BLOCKED SR_BUDGET_EXHAUSTED LOOP_BLOCKED) (returnE None)))
     (executed c op) ended" for d k t
    by (assumption | rule refine_rules refines_returnE env | rule tail_rules | (simp; fail)
        | (erule executed_None, simp))+
  have sleep: "refines (here d k b) (if delay_seconds rd = Fin 0 then returnE ()
                     else bindE (envE (e_sleep env (delay_seconds rd)))
                            (await_component env ''retry_backoff''))
                 (\<lambda>_. here d k b) (fault d k)" for d k b rd
    by (rule refines_if refines_return_here
        | assumption | rule refine_rules env | rule tail_rules | (simp; fail))+
  have retry: "refines (here d k False) (apply_retry env attempt again e) (executed c op) ended"
    if "is_exception e" and w: "work d = work (c\<lparr>pending_execution := pending_execution d\<rparr>)" for d k
  proof -
    have d: "same_plan d c" "total_attempts d = total_attempts c"
      "active_operation_id d = active_operation_id c"
      using same_plan_work [OF w] work_eq_fields(8,15) [OF w] by (simp_all add: same_plan_def)
    show ?thesis
      unfolding apply_retry_def
      by (assumption | rule refine_rules refines_case_retry refines_returnE refines_raiseE sleep env
            loop d
          | rule tail_rules | (simp add: that; fail) | (erule executed_None, simp))+
  qed
  show ?thesis
  proof (cases "is_exception e")
    case True
    show ?thesis
    proof (cases "\<exists>t m. e = ResourceLimit t m")
      case True
      then obtain t m where e: "e = ResourceLimit t m" by blast
      show ?thesis
        unfolding retry_handler_def e exn.case by (rule refines_exec_fault, rule stop)
    next
      case False
      then have "retry_handler env attempt again e = apply_retry env attempt again e"
        using \<open>is_exception e\<close> by (cases e) (simp_all add: retry_handler_def)
      then show ?thesis
        using refines_exec_fault [OF retry [OF \<open>is_exception e\<close>]] by simp
    qed
  next
    case False
    then show ?thesis
      unfolding retry_handler_def
      by (cases e) (auto intro!: refines_raiseE simp: exec_fault_def)
  qed
qed


lemma execute_loop:
  assumes env: "ordinary_env env"
  shows "1 \<le> attempt \<Longrightarrow> 0 < n \<Longrightarrow> max_attempts (limits (request c)) - total_attempts c < int n \<Longrightarrow>
    active_operation_id c = Some op \<Longrightarrow> op = operation_id c st \<Longrightarrow>
    refines (here c k b) (execute_loop env st op n attempt) (executed c op) ended"
proof (induction n arbitrary: attempt c k b)
  case 0
  then show ?case by simp
next
  case (Suc n)
  have again: "refines (here c k b)
      (bindE ctxE (\<lambda>c.
       if total_attempts c \<ge> max_attempts (limits (request c)) then
         thenE (stop env BLOCKED SR_ATTEMPT_LIMIT LOOP_BLOCKED) (returnE None)
       else
         thenE (updE (\<lambda>c. c\<lparr>total_attempts := total_attempts c + 1, pending_attempt := Some attempt\<rparr>))
        (thenE (checkpoint_and_emit env EXECUTION_DISPATCHED op)
        (tryE (call_executor env st op attempt)
              (retry_handler env attempt (execute_loop env st op n (attempt + 1)))))))
      (executed c op) ended"
  proof (rule refines_fact)
    show "calls is_executor_call k \<le> total_attempts c" if "here c k b s" "budget s"
      for s :: "'a loop_state"
      using that by (rule here_budget)
  next
    assume k: "calls is_executor_call k \<le> total_attempts c"
    show "refines (here c k b)
      (bindE ctxE (\<lambda>c.
       if total_attempts c \<ge> max_attempts (limits (request c)) then
         thenE (stop env BLOCKED SR_ATTEMPT_LIMIT LOOP_BLOCKED) (returnE None)
       else
         thenE (updE (\<lambda>c. c\<lparr>total_attempts := total_attempts c + 1, pending_attempt := Some attempt\<rparr>))
        (thenE (checkpoint_and_emit env EXECUTION_DISPATCHED op)
        (tryE (call_executor env st op attempt)
              (retry_handler env attempt (execute_loop env st op n (attempt + 1)))))))
      (executed c op) ended"
    proof (rule refines_ctx_here, rule refines_if)
      show "refines (here c k b)
        (thenE (stop env BLOCKED SR_ATTEMPT_LIMIT LOOP_BLOCKED) (returnE None)) (executed c op) ended"
        by (assumption | rule refine_rules refines_returnE env | rule tail_rules | (simp; fail)
            | (erule executed_None, simp))+
    next
      fix d
      assume d: "core d = core c" and "\<not> max_attempts (limits (request d)) \<le> total_attempts d"
      then have less: "total_attempts c < max_attempts (limits (request c))"
        using core_eq_fields(1,9) [OF d] by simp
      let ?c = "c\<lparr>total_attempts := total_attempts c + 1, pending_attempt := Some attempt\<rparr>"
      have op: "op = operation_id ?c st"
        using Suc.prems by (simp add: operation_id_def)
      have call: "refines (here ?c k True) (call_executor env st op attempt)
          (executed c op) (exec_fault ?c)"
        by (rule refines_weaken [OF call_executor [OF env Suc.prems(1)]])
           (use k op Suc.prems in \<open>auto elim: executed_plan\<close>)
      have handler: "refines (exec_fault ?c e)
          (retry_handler env attempt (execute_loop env st op n (attempt + 1)) e)
          (executed c op) ended" for e
      proof (rule refines_weaken [OF retry_handler [OF env]])
        fix d k b
        assume d: "same_plan d ?c" "total_attempts d = total_attempts ?c"
          "active_operation_id d = active_operation_id ?c"
        then have req: "request d = request c" and "op = operation_id d st"
          using Suc.prems(5) by (simp_all add: same_plan_def operation_id_def)
        have "refines (here d k b) (execute_loop env st op n (attempt + 1)) (executed d op) ended"
          by (rule Suc.IH) (use Suc.prems less d req \<open>op = operation_id d st\<close> in auto)
        then show "refines (here d k b) (execute_loop env st op n (attempt + 1))
            (executed ?c op) ended"
          by (rule refines_weaken) (use d in \<open>auto elim: executed_plan\<close>)
      qed (auto elim: executed_plan)
      show "refines (here c k b)
        (thenE (updE (\<lambda>c. c\<lparr>total_attempts := total_attempts c + 1, pending_attempt := Some attempt\<rparr>))
        (thenE (checkpoint_and_emit env EXECUTION_DISPATCHED op)
        (tryE (call_executor env st op attempt)
              (retry_handler env attempt (execute_loop env st op n (attempt + 1))))))
        (executed c op) ended"
        by (assumption | rule refine_rules upd_attempt less env refines_tryE call handler
            | rule tail_rules | (simp add: Suc.prems; fail))+
    qed
  qed
  have stopped: "refines (\<lambda>s. near c k s \<and> status (ctx s) \<in> {CANCELLED, BLOCKED})
      (returnE None) (executed c op) ended"
    by (rule refines_returnE) (auto simp: executed_def)
  show ?case
    unfolding execute_loop.simps
    by (rule refines_seq [OF stop_at_safe_boundary [OF env]])
       (use stopped again in auto)
qed

lemma upd_operation:
  fixes E :: "exn \<Rightarrow> 'w loop_state \<Rightarrow> bool"
  assumes "active_operation_id c \<in> {None, Some op}" and "op = operation_id c st"
  shows "refines (here c k b) (updE (\<lambda>c. c\<lparr>active_operation_id := Some op\<rparr>))
           (\<lambda>_. here (c\<lparr>active_operation_id := Some op\<rparr>) k False) E"
proof (rule refines_upd_here)
  fix s :: "'w loop_state"
  assume c: "core (ctx s) = core c"
  show "loop_step s (s\<lparr>ctx := (ctx s)\<lparr>active_operation_id := Some op\<rparr>\<rparr>)"
    using ls_operation [of s st] assms operation_id_core [OF c, of st] core_eq_fields(18) [OF c]
    by simp
qed (simp add: core_eq_iff)

lemma execute [refine_rules]:
  assumes "ordinary_env env"
  shows "refines (here c k b) (execute env st) (executed c (operation_id c st)) ended"
  unfolding execute_def Let_def
proof (rule refines_ctx_here, rule refines_if)
  fix d
  show "refines (here c k b)
      (raiseE (LoopNotResumable ''another execution operation is already active''))
      (executed c (operation_id c st)) ended"
    by (rule refines_raiseE) (simp add: ordinary_exn_def)
next
  fix d
  assume d: "core d = core c"
    and op: "\<not> active_operation_id d \<notin> {None, Some (operation_id d st)}"
  let ?op = "operation_id c st" and ?c = "c\<lparr>active_operation_id := Some (operation_id c st)\<rparr>"
  have "refines (here ?c k False) (execute_loop env st ?op (attempt_fuel d) 1) (executed ?c ?op) ended"
    by (rule execute_loop [OF assms])
       (use core_eq_fields(1,9) [OF d] in \<open>simp_all add: attempt_fuel_def operation_id_def\<close>)
  then have loop: "refines (here ?c k False) (execute_loop env st ?op (attempt_fuel d) 1) (executed c ?op) ended"
    by (rule refines_weaken) (auto elim: executed_plan)
  have "refines (here c k b) (updE (\<lambda>c. c\<lparr>active_operation_id := Some ?op\<rparr>))
           (\<lambda>_. here ?c k False) ended"
    using op core_eq_fields(18) [OF d] operation_id_core [OF d, of st]
    by (intro upd_operation [where st = st]) auto
  then show "refines (here c k b)
     (thenE (updE (\<lambda>c. c\<lparr>active_operation_id := Some (operation_id d st)\<rparr>))
       (execute_loop env st (operation_id d st) (attempt_fuel d) 1)) (executed c ?op) ended"
    unfolding operation_id_core [OF d] by (rule refines_then) (auto intro: loop)
qed

section \<open>Steps of a plan\<close>

text \<open>The status under which a plan was left before its end.\<close>

definition left_plan :: "plan_outcome \<Rightarrow> 'w loop_state \<Rightarrow> bool" where
  "left_plan po s \<longleftrightarrow>
     (case po of PO_COMPLETED \<Rightarrow> False
      | PO_REPLAN \<Rightarrow> status (ctx s) = PLANNING
      | PO_STOPPED \<Rightarrow> status (ctx s) \<in> {CANCELLED, BLOCKED, PAUSED})"

definition obtained ::
  "loop_context \<Rightarrow> plan_step \<Rightarrow> plan_outcome + execution_result \<times> int \<Rightarrow> 'w loop_state \<Rightarrow> bool" where
  "obtained c st x s \<longleftrightarrow>
     (case x of Inl po \<Rightarrow> left_plan po s
      | Inr (ex, a) \<Rightarrow> \<exists>d k. here d k True s \<and> same_plan d c
          \<and> active_operation_id d = Some (operation_id c st) \<and> pending_execution d = Some ex)"

lemma obtained_executed:
  "executed c (operation_id c st) (Some p) s \<Longrightarrow> obtained c st (Inr p) s"
  by (cases p) (auto simp: executed_def obtained_def)

lemma refines_ctx_any:
  assumes "\<And>d. refines P (f d) Q E"
  shows "refines P (bindE ctxE f) Q E"
  by (rule refines_ctxE, rule refines_pre [OF assms]) simp

lemma obtain_execution:
  assumes env: "ordinary_env env"
  shows "refines (here c k True) (obtain_execution env st) (obtained c st) ended"
  unfolding obtain_execution_def
proof (rule refines_ctx_here)
  fix d
  assume d: "core d = core c"
  have start: "refines (here c k True)
      (if requires_approval st then approve env st
       else thenE (whenE (status d \<noteq> EXECUTING) (transition env EXECUTING EXECUTION_STARTED))
                  (returnE True))
      (granted c) ended"
  proof (rule refines_if)
    show "refines (here c k True) (approve env st)
      (granted c) ended"
      by (rule approve [OF env])
    have "refines (here c k True)
        (whenE (status d \<noteq> EXECUTING) (transition env EXECUTING EXECUTION_STARTED))
        (\<lambda>_. here (c\<lparr>status := EXECUTING\<rparr>) k True) (fault c k)"
      using transition [OF env, of EXECUTING c k True EXECUTION_STARTED]
        core_eq_fields(3) [OF d]
      by (intro refines_whenE) (simp_all add: status_same)
    then show "refines (here c k True)
        (thenE (whenE (status d \<noteq> EXECUTING) (transition env EXECUTING EXECUTION_STARTED))
               (returnE True))
        (granted c) ended"
      by (rule refines_then) (auto intro!: refines_returnE granted_intros(1))
  qed
  have run: "refines (granted c ok)
     (if \<not> ok then returnE (Inl PO_STOPPED)
      else bindE (execute env st) (\<lambda>res.
           case res of
             None \<Rightarrow> bindE ctxE (\<lambda>c.
               returnE (Inl (if status c = PLANNING then PO_REPLAN else PO_STOPPED)))
           | Some p \<Rightarrow> returnE (Inr p))) (obtained c st) ended" for ok
  proof (rule refines_if)
    show "refines (granted c ok) (returnE (Inl PO_STOPPED)) (obtained c st) ended" if "\<not> ok"
      using that by (intro refines_returnE) (auto simp: obtained_def granted_def left_plan_def)
  next
    assume "\<not> \<not> ok"
    have after: "refines (executed c (operation_id c st) res)
       (case res of
             None \<Rightarrow> bindE ctxE (\<lambda>c.
               returnE (Inl (if status c = PLANNING then PO_REPLAN else PO_STOPPED)))
           | Some p \<Rightarrow> returnE (Inr p)) (obtained c st) ended" for res
    proof (cases res)
      case None
      show ?thesis
        unfolding None option.case
        by (rule refines_ctxE, rule refines_returnE)
           (auto simp: obtained_def executed_def left_plan_def)
    qed (auto intro!: refines_returnE obtained_executed)
    have exec: "refines (here (c\<lparr>status := EXECUTING\<rparr>) k' True) (execute env st)
        (executed c (operation_id c st)) ended" for k'
      by (rule refines_weaken [OF execute [OF env]])
         (auto elim!: executed_plan simp: operation_id_def)
    have "refines (\<lambda>s. \<exists>k'. here (c\<lparr>status := EXECUTING\<rparr>) k' True s)
       (bindE (execute env st) (\<lambda>res.
           case res of
             None \<Rightarrow> bindE ctxE (\<lambda>c.
               returnE (Inl (if status c = PLANNING then PO_REPLAN else PO_STOPPED)))
           | Some p \<Rightarrow> returnE (Inr p))) (obtained c st) ended"
      by (intro refines_ex, rule refines_seq [OF exec _ after])
    then show "refines (granted c ok)
       (bindE (execute env st) (\<lambda>res.
           case res of
             None \<Rightarrow> bindE ctxE (\<lambda>c.
               returnE (Inl (if status c = PLANNING then PO_REPLAN else PO_STOPPED)))
           | Some p \<Rightarrow> returnE (Inr p))) (obtained c st) ended"
      by (rule refines_pre) (use \<open>\<not> \<not> ok\<close> in \<open>auto simp: granted_def\<close>)
  qed
  show "refines (here c k True)
     (case pending_execution d of
       None \<Rightarrow>
         bindE (if requires_approval st then approve env st
                else thenE (whenE (status d \<noteq> EXECUTING) (transition env EXECUTING EXECUTION_STARTED))
                           (returnE True)) (\<lambda>ok.
         if \<not> ok then returnE (Inl PO_STOPPED)
         else bindE (execute env st) (\<lambda>res.
           case res of
             None \<Rightarrow> bindE ctxE (\<lambda>c.
               returnE (Inl (if status c = PLANNING then PO_REPLAN else PO_STOPPED)))
           | Some p \<Rightarrow> returnE (Inr p)))
     | Some ex \<Rightarrow>
         if active_operation_id d \<noteq> Some (operation_id d st) then
           raiseE (LoopNotResumable ''pending execution does not belong to the current plan step'')
         else (case pending_attempt d of
             None \<Rightarrow> raiseE (LoopNotResumable ''pending execution has no attempt number'')
           | Some a \<Rightarrow> returnE (Inr (ex, a)))) (obtained c st) ended"
  proof (cases "pending_execution d")
    case None
    show ?thesis
      unfolding None option.case by (rule refines_seq [OF start _ run])
  next
    case (Some ex)
    have same: "same_plan c c" by simp
    show ?thesis
      unfolding Some option.case
      using core_eq_fields(18,19,20) [OF d] operation_id_core [OF d, of st] Some same
      by (auto intro!: refines_if refines_raiseE refines_returnE
          simp: ordinary_exn_def obtained_def split: option.splits)
         (blast intro: same)
  qed
qed


lemma upd_record:
  fixes E :: "exn \<Rightarrow> 'w loop_state \<Rightarrow> bool"
  assumes "current_plan c = Some p" and "current_step_index c = int i" and "i < length (steps p)"
    and "rec_step r = steps p ! i" and "pending_execution c = Some (rec_execution r)"
    and "rec_cycle r = cycle_count c" and "v = rec_verification r" and "st = rec_step r"
  shows "refines (here c k b)
     (updE (\<lambda>c. c\<lparr>records := records c @ [r], completed_steps := completed_steps c + 1,
                   current_step_index := int i + 1, feedback := v_feedback v,
                   approved_step_ids := approved_step_ids c - {step_id st},
                   active_operation_id := None, pending_execution := None,
                   pending_attempt := None\<rparr>))
     (\<lambda>_. here (c\<lparr>records := records c @ [r], completed_steps := completed_steps c + 1,
                   current_step_index := int i + 1, feedback := v_feedback v,
                   approved_step_ids := approved_step_ids c - {step_id st},
                   active_operation_id := None, pending_execution := None,
                   pending_attempt := None\<rparr>) k False) E"
proof (rule refines_upd_here)
  fix s :: "'w loop_state"
  assume "core (ctx s) = core c"
  note f = core_eq_fields [OF this]
  show "loop_step s (s\<lparr>ctx := (ctx s)\<lparr>records := records (ctx s) @ [r],
                   completed_steps := completed_steps (ctx s) + 1,
                   current_step_index := int i + 1, feedback := v_feedback v,
                   approved_step_ids := approved_step_ids (ctx s) - {step_id st},
                   active_operation_id := None, pending_execution := None,
                   pending_attempt := None\<rparr>\<rparr>)"
    unfolding assms(7,8) by (rule ls_record [where p = p]) (use assms f in simp_all)
qed (simp add: core_eq_iff)

lemma log_verifier:
  assumes "pending_execution c = Some ex" and "status c = VERIFYING"
    and "active_operation_id c = Some (operation_id c st)"
  shows "refines (here c k True) (logE (VerifierCalled st ex))
           (\<lambda>_. here c (k @ [VerifierCalled st ex]) True) E"
proof (rule refines_log_here)
  fix s assume "here c k True s"
  then have eq: "core (ctx s) = core c" and "synced s"
    by (auto simp: here_def)
  then show "loop_step s (s\<lparr>trace := trace s @ [VerifierCalled st ex]\<rparr>)"
    using assms operation_id_core [OF eq] core_eq_fields(3,18,19) [OF eq]
    by (intro ls_verify_call) simp_all
qed simp

definition verified ::
  "loop_context \<Rightarrow> plan \<Rightarrow> nat \<Rightarrow> verification_result \<Rightarrow> 'w loop_state \<Rightarrow> bool" where
  "verified c p i v s \<longleftrightarrow>
     (\<exists>d k r. here d k True s \<and> current_plan d = Some p \<and> current_step_index d = int i + 1
        \<and> records d = records c @ [r] \<and> rec_step r = steps p ! i \<and> rec_verification r = v)"

lemma new_IterationRecord_ordinary:
  "new_IterationRecord cyc idx st ex ver att = Inl e \<Longrightarrow> ordinary_exn e"
  by (auto simp: new_IterationRecord_def require_def ordinary_exn_def split: if_splits)

lemma new_IterationRecord_Inr:
  "new_IterationRecord cyc idx st ex ver att = Inr r \<Longrightarrow>
     rec_cycle r = cyc \<and> rec_step r = st \<and> rec_execution r = ex \<and> rec_verification r = ver"
  by (auto simp: new_IterationRecord_def)

lemma refines_lift_value:
  assumes "\<And>e. r = Inl e \<Longrightarrow> ordinary_exn e"
  shows "refines (here c k b) (liftE r) (\<lambda>x s. here c k b s \<and> r = Inr x) (fault c k)"
  by (rule refines_liftE) (auto intro: here_fault assms)

lemma verify_step:
  assumes env: "ordinary_env env"
    and c: "current_plan c = Some p" "current_step_index c = int i" "i < length (steps p)"
      "pending_execution c = Some ex" "active_operation_id c = Some (operation_id c st)"
    and st: "st = steps p ! i"
  shows "refines (here c k True) (verify_step env verifier (int i) st ex attempt)
           (verified c p i) ended"
  unfolding verify_step_def
proof (rule refines_ctx_here, goal_cases)
  case (1 d)
  note d = 1
  let ?c = "c\<lparr>status := VERIFYING\<rparr>"
  have go: "refines (here c k True)
      (whenE (status d \<noteq> VERIFYING) (transition env VERIFYING VERIFICATION_STARTED))
      (\<lambda>_. here ?c k True) (fault c k)"
    using transition [OF env, of VERIFYING c k True VERIFICATION_STARTED]
      core_eq_fields(3) [OF d]
    by (intro refines_whenE) (simp_all add: status_same)
  have op: "operation_id ?c st = operation_id c st"
    by (simp add: operation_id_def)
  have finish: "refines (here ?c k' True)
     (bindE ctxE (\<lambda>c.
      bindE (liftE (new_IterationRecord (cycle_count c) (int i) st ex v attempt)) (\<lambda>r.
      thenE (updE (\<lambda>c. c\<lparr>records := records c @ [r], completed_steps := completed_steps c + 1,
                         current_step_index := int i + 1, feedback := v_feedback v,
                         approved_step_ids := approved_step_ids c - {step_id st},
                         active_operation_id := None, pending_execution := None,
                         pending_attempt := None\<rparr>))
     (thenE (checkpoint_and_emit env ITERATION_COMPLETED [])
            (returnE v))))) (verified c p i) ended" for k' v
  proof (rule refines_ctx_here, goal_cases)
    case (1 d)
    from core_eq_fields(8) [OF this] have cyc: "cycle_count d = cycle_count c" by simp
    have tail: "refines (here ?c k' True)
      (thenE (updE (\<lambda>c. c\<lparr>records := records c @ [r], completed_steps := completed_steps c + 1,
                         current_step_index := int i + 1, feedback := v_feedback v,
                         approved_step_ids := approved_step_ids c - {step_id st},
                         active_operation_id := None, pending_execution := None,
                         pending_attempt := None\<rparr>))
     (thenE (checkpoint_and_emit env ITERATION_COMPLETED [])
            (returnE v))) (verified c p i) ended"
      if "new_IterationRecord (cycle_count d) (int i) st ex v attempt = Inr r" for r
    proof -
      note r = new_IterationRecord_Inr [OF that]
      have upd: "refines (here ?c k' True)
         (updE (\<lambda>c. c\<lparr>records := records c @ [r], completed_steps := completed_steps c + 1,
                         current_step_index := int i + 1, feedback := v_feedback v,
                         approved_step_ids := approved_step_ids c - {step_id st},
                         active_operation_id := None, pending_execution := None,
                         pending_attempt := None\<rparr>))
         (\<lambda>_. here (?c\<lparr>records := records c @ [r], completed_steps := completed_steps c + 1,
                         current_step_index := int i + 1, feedback := v_feedback v,
                         approved_step_ids := approved_step_ids c - {step_id st},
                         active_operation_id := None, pending_execution := None,
                         pending_attempt := None\<rparr>) k' False) ended"
        using upd_record [of ?c p i r v st k' True ended] c r cyc st by simp
      show ?thesis
        by (rule refines_then [OF upd], assumption, rule refines_then [OF checkpoint_and_emit [OF env]])
           (use c r st in \<open>auto intro!: refines_returnE exI simp: verified_def\<close>)
    qed
    show ?case
      by (rule refines_seq [OF refines_lift_value [OF new_IterationRecord_ordinary]])
         (auto intro: refines_conj_fact tail)
  qed
  have log: "refines (here ?c k True) (logE (VerifierCalled st ex))
     (\<lambda>_. here ?c (k @ [VerifierCalled st ex]) True) ended"
    by (rule log_verifier) (use c op in simp_all)
  show ?case
    by (assumption | rule finish | rule go log refine_rules env | rule tail_rules | (simp; fail))+
qed


end
