(* ===== verification/LoopRuns.thy ===== *)
theory LoopRuns
  imports LoopRefinement
begin

text \<open>
  The methods of the controller move along \<open>loop_step\<close>, last part: plans, cycles, the driver and
  the public operations.
\<close>

section \<open>Plans\<close>

lemma plan_range_Cons:
  assumes "i < length (steps p)"
  shows "plan_range (int i) p = (int i, steps p ! i) # plan_range (int i + 1) p"
proof -
  let ?z = "zip (map int [0..<length (steps p)]) (steps p)"
  have "drop i ?z = ?z ! i # drop (Suc i) ?z"
    using assms by (intro Cons_nth_drop_Suc [symmetric]) simp
  then show ?thesis
    using assms by (simp add: plan_range_def nat_add_distrib)
qed

lemma plan_range_Nil: "length (steps p) \<le> i \<Longrightarrow> plan_range (int i) p = []"
  by (simp add: plan_range_def)

lemma all_passed_snoc:
  assumes "all_passed c" and "current_plan c = Some p" and "current_step_index c = int i"
    and "i < length (steps p)" and "current_plan d = Some p" and "current_step_index d = int i + 1"
    and "records d = records c @ [r]" and "rec_step r = steps p ! i"
    and "passed (rec_verification r)"
  shows "all_passed d"
proof -
  let ?rs = "drop (length (records c) - i) (records c)"
  have old: "map rec_step ?rs = take i (steps p)" "\<forall>r \<in> set ?rs. passed (rec_verification r)"
    using assms(1-3) by (simp_all add: all_passed_def Let_def)
  have "length ?rs = i"
    using arg_cong [OF old(1), of length] assms(4) by simp
  then have "i \<le> length (records c)"
    by simp
  then have "drop (length (records d) - Suc i) (records d) = ?rs @ [r]"
    by (simp add: assms(7))
  moreover have "nat (int i + 1) = Suc i" by simp
  ultimately show ?thesis
    using old assms(4-9) by (simp add: all_passed_def Let_def take_Suc_conv_app_nth)
qed

definition steps_done :: "loop_context \<Rightarrow> plan \<Rightarrow> plan_outcome \<Rightarrow> 'w loop_state \<Rightarrow> bool" where
  "steps_done c p po s \<longleftrightarrow>
     (if po = PO_COMPLETED
      then \<exists>d k. here d k True s \<and> current_plan d = Some p \<and> finished_plan d
             \<and> (all_passed c \<longrightarrow> all_passed d)
      else left_plan po s)"

lemma upd_same_index:
  fixes E :: "exn \<Rightarrow> 'w loop_state \<Rightarrow> bool"
  assumes "current_step_index c = idx"
  shows "refines (here c k b) (updE (\<lambda>c. c\<lparr>current_step_index := idx\<rparr>)) (\<lambda>_. here c k b) E"
proof (rule refines_updE)
  fix s :: "'w loop_state"
  assume h: "here c k b s"
  from here_fields(7) [OF h] assms have "(ctx s)\<lparr>current_step_index := idx\<rparr> = ctx s" by simp
  then show "loop_step s (s\<lparr>ctx := (ctx s)\<lparr>current_step_index := idx\<rparr>\<rparr>)"
    and "here c k b (s\<lparr>ctx := (ctx s)\<lparr>current_step_index := idx\<rparr>\<rparr>)"
    using h ls_env [where s = s and w = "world s" and cs = "cancelled s"] by simp_all
qed

lemma execute_steps:
  assumes env: "ordinary_env env"
  shows "current_plan c = Some p \<Longrightarrow> current_step_index c = int i \<Longrightarrow>
    refines (here c k True) (execute_steps env verifier (plan_range (int i) p)) (steps_done c p) ended"
proof (induction "length (steps p) - i" arbitrary: c k i)
  case 0
  then have "plan_range (int i) p = []"
    by (intro plan_range_Nil) simp
  moreover have "finished_plan c"
    using 0 by (simp add: finished_plan_def)
  ultimately show ?case
    using 0 by (auto intro!: refines_returnE simp: steps_done_def)
next
  case (Suc n)
  then have i: "i < length (steps p)" and n: "n = length (steps p) - Suc i" by simp_all
  let ?st = "steps p ! i"
  have next_step: "refines (verified c p i v)
     (if passed v then execute_steps env verifier (plan_range (int i + 1) p)
      else thenE (updE (\<lambda>c. c\<lparr>current_plan := None, current_step_index := 0\<rparr>))
            (thenE (transition env PLANNING PLANNING_STARTED) (returnE PO_REPLAN)))
     (steps_done c p) ended" for v
    unfolding verified_def
  proof (intro refines_ex, goal_cases)
    case (1 d k r)
    show ?case
    proof (rule refines_fact [where A = "current_plan d = Some p \<and> current_step_index d = int (Suc i)
        \<and> records d = records c @ [r] \<and> rec_step r = ?st \<and> rec_verification r = v"])
      assume d: "current_plan d = Some p \<and> current_step_index d = int (Suc i)
        \<and> records d = records c @ [r] \<and> rec_step r = ?st \<and> rec_verification r = v"
      have "refines (here d k True)
         (if passed v then execute_steps env verifier (plan_range (int i + 1) p)
          else thenE (updE (\<lambda>c. c\<lparr>current_plan := None, current_step_index := 0\<rparr>))
                (thenE (transition env PLANNING PLANNING_STARTED) (returnE PO_REPLAN)))
         (steps_done c p) ended"
      proof (rule refines_if)
        assume v: "passed v"
        have "refines (here d k True) (execute_steps env verifier (plan_range (int (Suc i)) p))
            (steps_done d p) ended"
          using d by (intro Suc.hyps(1) [OF n]) simp_all
        moreover have "all_passed c \<Longrightarrow> all_passed d"
          using all_passed_snoc [of c p i d r] Suc.prems i d v by simp
        moreover from this have "steps_done c p po s" if "steps_done d p po s"
          for po and s :: "'a loop_state"
          using that unfolding steps_done_def by (simp split: if_splits) blast
        ultimately show "refines (here d k True)
            (execute_steps env verifier (plan_range (int i + 1) p)) (steps_done c p) ended"
          by (auto elim!: refines_weaken simp: add.commute)
      next
        show "refines (here d k True)
           (thenE (updE (\<lambda>c. c\<lparr>current_plan := None, current_step_index := 0\<rparr>))
                (thenE (transition env PLANNING PLANNING_STARTED) (returnE PO_REPLAN)))
           (steps_done c p) ended"
          by (assumption | rule refine_rules refines_returnE env | rule tail_rules
              | (simp; fail) | (simp add: steps_done_def left_plan_def here_fields(3); fail))+
      qed
      then show ?case
        by (rule refines_pre) simp
    qed simp
  qed
  have verify: "refines (obtained c ?st r)
     (case r of Inl po \<Rightarrow> returnE po
      | Inr (ex, attempt) \<Rightarrow>
          bindE (verify_step env verifier (int i) ?st ex attempt) (\<lambda>v.
          if passed v then execute_steps env verifier (plan_range (int i + 1) p)
          else thenE (updE (\<lambda>c. c\<lparr>current_plan := None, current_step_index := 0\<rparr>))
                (thenE (transition env PLANNING PLANNING_STARTED) (returnE PO_REPLAN))))
     (steps_done c p) ended" for r
  proof (cases r)
    case (Inl po)
    then show ?thesis
      by (auto intro!: refines_returnE simp: obtained_def steps_done_def left_plan_def
          split: plan_outcome.splits)
  next
    case (Inr q)
    obtain ex a where q: "q = (ex, a)" by fastforce
    have "refines (\<lambda>s. here d k True s \<and> same_plan d c
         \<and> active_operation_id d = Some (operation_id c ?st) \<and> pending_execution d = Some ex)
       (verify_step env verifier (int i) ?st ex a) (verified c p i) ended" for d k
    proof (rule refines_fact)
      assume d: "same_plan d c \<and> active_operation_id d = Some (operation_id c ?st)
         \<and> pending_execution d = Some ex"
      have "refines (here d k True) (verify_step env verifier (int i) ?st ex a) (verified d p i) ended"
        by (rule verify_step [OF env])
           (use d Suc.prems i in \<open>simp_all add: same_plan_def operation_id_def\<close>)
      then show "refines (\<lambda>s. here d k True s \<and> same_plan d c
         \<and> active_operation_id d = Some (operation_id c ?st) \<and> pending_execution d = Some ex)
         (verify_step env verifier (int i) ?st ex a) (verified c p i) ended"
        by (rule refines_conseq) (use d in \<open>auto simp: verified_def same_plan_def\<close>)
    qed simp
    then have "refines (obtained c ?st r) (verify_step env verifier (int i) ?st ex a)
        (verified c p i) ended"
      unfolding Inr q obtained_def sum.case prod.case by (intro refines_ex)
    then show ?thesis
      unfolding Inr q sum.case prod.case by (rule refines_seq) (assumption, rule next_step)
  qed
  have stopped: "refines (\<lambda>s. near c k s \<and> status (ctx s) \<in> {CANCELLED, BLOCKED})
      (returnE PO_STOPPED) (steps_done c p) ended"
    by (rule refines_returnE) (auto simp: steps_done_def left_plan_def)
  have body: "refines (here c k True) (bindE (obtain_execution env ?st) (\<lambda>r.
     case r of Inl po \<Rightarrow> returnE po
      | Inr (ex, attempt) \<Rightarrow>
          bindE (verify_step env verifier (int i) ?st ex attempt) (\<lambda>v.
          if passed v then execute_steps env verifier (plan_range (int i + 1) p)
          else thenE (updE (\<lambda>c. c\<lparr>current_plan := None, current_step_index := 0\<rparr>))
                (thenE (transition env PLANNING PLANNING_STARTED) (returnE PO_REPLAN)))))
     (steps_done c p) ended"
    by (rule refines_seq [OF obtain_execution [OF env]]) (assumption, rule verify)
  show ?case
    unfolding plan_range_Cons [OF i] execute_steps.simps
    by (rule refines_then [OF upd_same_index [OF Suc.prems(2)]], assumption,
        rule refines_seq [OF stop_at_safe_boundary [OF env]])
       (use stopped body in auto)
qed


lemma execute_plan:
  assumes "ordinary_env env" and "current_plan c = Some p" and "0 \<le> current_step_index c"
  shows "refines (here c k True) (execute_plan env p verifier) (steps_done c p) ended"
  unfolding execute_plan_def
proof (rule refines_ctx_here, goal_cases)
  case (1 d)
  then have "current_step_index d = int (nat (current_step_index c))"
    using core_eq_fields(7) [OF 1] assms(3) by simp
  then show ?case
    using execute_steps [OF assms(1), of c p "nat (current_step_index c)"] assms(2,3) by simp
qed

text \<open>How a turn of the driver may end: \<open>ap\<close> says that the turn began with \<open>all_passed\<close>.\<close>

definition run_done :: "bool \<Rightarrow> 'w loop_state \<Rightarrow> bool" where
  "run_done ap s \<longleftrightarrow> status (ctx s) \<in> {CANCELLED, BLOCKED, PAUSED}
     \<or> status (ctx s) = COMPLETED \<and> finished_plan (ctx s) \<and> (ap \<longrightarrow> all_passed (ctx s))"

definition cycle_done :: "bool \<Rightarrow> bool \<Rightarrow> 'w loop_state \<Rightarrow> bool" where
  "cycle_done ap fin s \<longleftrightarrow> (fin \<longrightarrow> run_done ap s)"

lemma run_done_stopped: "here c k b s \<Longrightarrow> status c \<in> {CANCELLED, BLOCKED, PAUSED} \<Longrightarrow> run_done ap s"
  by (simp add: run_done_def here_fields(3))

lemma here_plan: "here c k b s \<Longrightarrow> finished_plan (ctx s) = finished_plan c"
  "here c k b s \<Longrightarrow> all_passed (ctx s) = all_passed c"
  by (rule finished_plan_core all_passed_core, simp add: here_def)+

lemma run_done_completed:
  "here c k b s \<Longrightarrow> status c = COMPLETED \<Longrightarrow> finished_plan c \<Longrightarrow> (ap \<longrightarrow> all_passed c) \<Longrightarrow> run_done ap s"
  by (simp add: run_done_def here_fields(3) here_plan)

lemma complete_run:
  assumes "ordinary_env env" and "finished_plan c" and "ap \<longrightarrow> all_passed c"
  shows "refines (here c k b) (complete_run env) (cycle_done ap) ended"
  unfolding complete_run_def
  by (assumption | rule refine_rules refines_returnE assms | rule tail_rules | (simp; fail)
      | (simp add: cycle_done_def, erule run_done_completed; simp add: assms))+

lemma log_evaluator:
  assumes "finished_plan c"
  shows "refines (here c k True) (logE EvaluatorCalled) (\<lambda>_. here c (k @ [EvaluatorCalled]) True) E"
proof (rule refines_log_here)
  fix s assume h: "here c k True s"
  then show "loop_step s (s\<lparr>trace := trace s @ [EvaluatorCalled]\<rparr>)"
    using assms here_plan(1) [OF h] by (intro ls_evaluator_call) (auto simp: here_def)
qed simp

lemma upd_completion_used [refine_rules]:
  fixes E :: "exn \<Rightarrow> 'w loop_state \<Rightarrow> bool"
  shows "refines (here c k b) (updE (\<lambda>c. c\<lparr>completion_approved := False\<rparr>))
           (\<lambda>_. here (c\<lparr>completion_approved := False\<rparr>) k False) E"
  by (rule refines_upd_here) (auto simp: core_eq_iff intro: ls_completion_used)

lemma upd_some_feedback:
  fixes E :: "exn \<Rightarrow> 'w loop_state \<Rightarrow> bool"
  shows "refines (here c k b) (whenE (fb \<noteq> []) (updE (\<lambda>c. c\<lparr>feedback := fb\<rparr>)))
     (\<lambda>_. here (c\<lparr>feedback := (if fb \<noteq> [] then fb else feedback c)\<rparr>) k False) E"
  by (rule refines_whenE) (use upd_note(3) in \<open>auto intro: here_unsaved\<close>)

lemma refines_case_completion:
  assumes "refines P a Q E" and "refines P r Q E" and "refines P h Q E" and "refines P s Q E"
  shows "refines P (case d of CA_ACCEPT \<Rightarrow> a | CA_REPLAN \<Rightarrow> r | CA_REQUEST_HUMAN \<Rightarrow> h | CA_STOP \<Rightarrow> s) Q E"
  using assms by (cases d) simp_all

lemma refines_case_option:
  assumes "refines P a Q E" and "\<And>x. o' = Some x \<Longrightarrow> refines P (f x) Q E"
  shows "refines P (case o' of None \<Rightarrow> a | Some x \<Rightarrow> f x) Q E"
  using assms by (cases o') simp_all

lemma finish_plan_outcome:
  assumes env: "ordinary_env env"
  shows "refines (steps_done c p po) (finish_plan_outcome env po) (cycle_done (all_passed c)) ended"
proof (cases po)
  case PO_COMPLETED
  have "refines (\<lambda>s. here d k True s \<and> current_plan d = Some p \<and> finished_plan d
      \<and> (all_passed c \<longrightarrow> all_passed d)) (finish_plan_outcome env po) (cycle_done (all_passed c)) ended" for d k
  proof (rule refines_fact)
    assume d: "current_plan d = Some p \<and> finished_plan d \<and> (all_passed c \<longrightarrow> all_passed d)"
    let ?e = "\<lambda>fb. d\<lparr>feedback := fb\<rparr>"
    have complete: "refines (here e k' b) (complete_run env) (cycle_done (all_passed c)) ended"
      if "finished_plan e = finished_plan d" "all_passed e = all_passed d" for e k' b
      by (rule complete_run [OF env]) (use d that in simp_all)
    note log = log_evaluator [OF conjunct1 [OF conjunct2 [OF d]]]
    note request = request_human_interaction [OF env]
    have "refines (here d k True) (finish_plan_outcome env po) (cycle_done (all_passed c)) ended"
      unfolding finish_plan_outcome_def PO_COMPLETED plan_outcome.case
      by (assumption | rule refines_if refines_case_option refines_case_completion complete log request
            upd_some_feedback refine_rules env refines_returnE refines_raiseE
          | rule tail_rules | (simp; fail) | (simp add: cycle_done_def ordinary_exn_def; fail)
          | (simp add: cycle_done_def, erule run_done_stopped, simp; fail))+
    then show "refines (\<lambda>s. here d k True s \<and> current_plan d = Some p \<and> finished_plan d
        \<and> (all_passed c \<longrightarrow> all_passed d)) (finish_plan_outcome env po) (cycle_done (all_passed c)) ended"
      by (rule refines_pre) simp
  qed simp
  then show ?thesis
    unfolding steps_done_def using PO_COMPLETED
    by (simp only: refl if_True) (intro refines_ex, assumption)
next
  case PO_REPLAN
  then show ?thesis
    by (auto simp: finish_plan_outcome_def cycle_done_def intro!: refines_returnE)
next
  case PO_STOPPED
  then show ?thesis
    by (auto simp: finish_plan_outcome_def cycle_done_def steps_done_def left_plan_def run_done_def
        intro!: refines_returnE)
qed


section \<open>Cycles\<close>

text \<open>What every step keeps may be added to a triple: here the request and the cycles used.\<close>

lemma refines_keep:
  assumes "refines P m Q E" and "\<And>u v. loop_step u v \<Longrightarrow> J u \<Longrightarrow> J v"
  shows "refines (\<lambda>s. P s \<and> J s) m (\<lambda>x s. Q x s \<and> J s) E"
proof (rule refines_runI)
  fix s r s'
  assume P: "P s \<and> J s" "budget s" and run: "m s = (r, s')"
  then have r: "reach s s'"
    using refines_reach [OF assms(1)] by blast
  moreover have "J s'"
    using reach_invariant [OF r, of J] P assms(2) by blast
  ultimately show "reach s s' \<and> (case r of Inl e \<Rightarrow> E e s' | Inr x \<Rightarrow> Q x s' \<and> J s')"
    using P run refines_ok [OF assms(1)] refines_err [OF assms(1)] by (auto split: sum.splits)
qed

definition cycles_from :: "loop_request \<Rightarrow> int \<Rightarrow> 'w loop_state \<Rightarrow> bool" where
  "cycles_from rq n s \<longleftrightarrow> request (ctx s) = rq \<and> n \<le> cycle_count (ctx s)"

lemma loop_step_cycles_from: "loop_step u v \<Longrightarrow> cycles_from rq n u \<Longrightarrow> cycles_from rq n v"
  by (induction rule: loop_step.induct) (auto simp: cycles_from_def)

lemma refines_any:
  assumes "\<And>s. P s \<Longrightarrow> refines (here (ctx s) (component_calls (trace s)) False) m Q E"
  shows "refines P m Q E"
proof (rule refines_runI)
  fix s r s'
  assume P: "P s" "budget s" and run: "m s = (r, s')"
  moreover have "here (ctx s) (component_calls (trace s)) False s"
    by (simp add: here_def)
  ultimately show "reach s s' \<and> (case r of Inl e \<Rightarrow> E e s' | Inr x \<Rightarrow> Q x s')"
    using assms [OF P(1)] by (auto dest: refines_reach refines_ok refines_err split: sum.splits)
qed

lemma upd_cycle:
  fixes E :: "exn \<Rightarrow> 'w loop_state \<Rightarrow> bool"
  assumes "cycle_count c < max_cycles (limits (request c))"
  shows "refines (here c k b) (updE (\<lambda>c. c\<lparr>cycle_count := cycle_count c + 1\<rparr>))
           (\<lambda>_. here (c\<lparr>cycle_count := cycle_count c + 1\<rparr>) k False) E"
proof (rule refines_upd_here)
  fix s :: "'w loop_state"
  assume "core (ctx s) = core c"
  note f = core_eq_fields [OF this]
  show "loop_step s (s\<lparr>ctx := (ctx s)\<lparr>cycle_count := cycle_count (ctx s) + 1\<rparr>\<rparr>)"
    by (rule ls_cycle) (use assms f in simp)
qed (simp add: core_eq_iff)

lemma log_planner:
  assumes "calls is_planner_call k < cycle_count c"
  shows "refines (here c k b) (logE PlannerCalled) (\<lambda>_. here c (k @ [PlannerCalled]) b) E"
proof (rule refines_log_here)
  fix s assume h: "here c k b s"
  then show "loop_step s (s\<lparr>trace := trace s @ [PlannerCalled]\<rparr>)"
    using assms calls_component_calls(2) [of "trace s"] here_fields(8) [OF h]
    by (intro ls_plan_call) (auto simp: here_def)
qed simp

lemma call_planner:
  assumes "ordinary_env env" and "cycle_count c < max_cycles (limits (request c))"
  shows "refines (here c k b) (call_planner env planner)
     (\<lambda>_. here (c\<lparr>cycle_count := cycle_count c + 1\<rparr>) (k @ [PlannerCalled]) False) ended"
proof (rule refines_fact)
  show "calls is_planner_call k \<le> cycle_count c" if "here c k b s" "budget s" for s :: "'a loop_state"
    using that by (rule here_budget)
  assume k: "calls is_planner_call k \<le> cycle_count c"
  show "refines (here c k b) (call_planner env planner)
     (\<lambda>_. here (c\<lparr>cycle_count := cycle_count c + 1\<rparr>) (k @ [PlannerCalled]) False) ended"
    unfolding call_planner_def
    by (assumption | rule upd_cycle log_planner refine_rules assms | rule tail_rules
        | (simp add: k; fail) | (use k in simp; fail))+
qed

lemma upd_new_plan:
  fixes E :: "exn \<Rightarrow> 'w loop_state \<Rightarrow> bool"
  assumes "steps p \<noteq> []" and "distinct (map step_id (steps p))"
    and "int (length (steps p)) \<le> max_steps_per_plan (limits (request c))"
  shows "refines (here c k b) (updE (\<lambda>c. c\<lparr>current_plan := Some p, current_step_index := 0\<rparr>))
           (\<lambda>_. here (c\<lparr>current_plan := Some p, current_step_index := 0\<rparr>) k False) E"
proof (rule refines_upd_here)
  fix s :: "'w loop_state"
  assume "core (ctx s) = core c"
  from core_eq_fields(1) [OF this] assms
  show "loop_step s (s\<lparr>ctx := (ctx s)\<lparr>current_plan := Some p, current_step_index := 0\<rparr>\<rparr>)"
    by (intro ls_new_plan) simp_all
qed (simp add: core_eq_iff)

lemma validate_plan:
  "refines (here c k b) (validate_plan p)
     (\<lambda>_ s. here c k b s \<and> distinct (map step_id (steps p))) ended"
  unfolding validate_plan_def
  by (rule refines_if) (auto intro!: refines_returnE refines_raiseE simp: ordinary_exn_def)

lemma all_passed_new [simp]:
  "all_passed (c\<lparr>current_plan := Some p, current_step_index := 0\<rparr>)"
  by (simp add: all_passed_def)

text \<open>A turn that has a plan: it stores the plan, executes it and settles the outcome.\<close>

lemma plan_turn:
  assumes env: "ordinary_env env" and p: "steps p \<noteq> []" "int (length (steps p)) \<le> max_steps_per_plan (limits (request c))"
    and again: "\<And>Q. refines (\<lambda>s. cycles_from (request c) (cycle_count c) s) again (\<lambda>_. run_done True) ended"
  shows "refines (here c k b)
     (thenE (validate_plan p)
     (thenE (updE (\<lambda>c. c\<lparr>current_plan := Some p, current_step_index := 0\<rparr>))
     (thenE (checkpoint_and_emit env PLAN_CREATED [])
     (bindE (execute_plan env p verifier) (\<lambda>po.
      bindE (finish_plan_outcome env po) (\<lambda>fin. if fin then returnE () else again))))))
     (\<lambda>_. run_done True) ended"
proof (rule refines_then [OF validate_plan], assumption, rule refines_conj_fact)
  assume dist: "distinct (map step_id (steps p))"
  let ?J = "cycles_from (request c) (cycle_count c)"
  let ?c = "c\<lparr>current_plan := Some p, current_step_index := 0\<rparr>"
  have after: "refines (\<lambda>s. cycle_done (all_passed ?c) fin s \<and> ?J s)
      (if fin then returnE () else again) (\<lambda>_. run_done True) ended" for fin
  proof (cases fin)
    case True
    then show ?thesis by (auto intro!: refines_returnE simp: cycle_done_def)
  next
    case False
    then show ?thesis by (auto intro: refines_pre [OF again])
  qed
  have outcome: "refines (\<lambda>s. steps_done ?c p po s \<and> ?J s)
      (bindE (finish_plan_outcome env po) (\<lambda>fin. if fin then returnE () else again))
      (\<lambda>_. run_done True) ended" for po
    by (rule refines_seq [OF refines_keep [OF finish_plan_outcome [OF env] loop_step_cycles_from]])
       (assumption | rule after)+
  have exec: "refines (\<lambda>s. here ?c k True s \<and> ?J s)
      (bindE (execute_plan env p verifier) (\<lambda>po.
       bindE (finish_plan_outcome env po) (\<lambda>fin. if fin then returnE () else again)))
      (\<lambda>_. run_done True) ended"
    by (rule refines_seq [OF refines_keep [OF execute_plan [OF env] loop_step_cycles_from]])
       (assumption | rule outcome | simp)+
  have exec': "refines (here ?c k True)
      (bindE (execute_plan env p verifier) (\<lambda>po.
       bindE (finish_plan_outcome env po) (\<lambda>fin. if fin then returnE () else again)))
      (\<lambda>_. run_done True) ended"
  proof (rule refines_pre [OF exec])
    fix s :: "'a loop_state"
    assume h: "here ?c k True s"
    then show "here ?c k True s \<and> ?J s"
      using here_fields(1,8) [OF h] by (simp add: cycles_from_def)
  qed
  show "refines (here c k b)
     (thenE (updE (\<lambda>c. c\<lparr>current_plan := Some p, current_step_index := 0\<rparr>))
     (thenE (checkpoint_and_emit env PLAN_CREATED [])
     (bindE (execute_plan env p verifier) (\<lambda>po.
      bindE (finish_plan_outcome env po) (\<lambda>fin. if fin then returnE () else again)))))
     (\<lambda>_. run_done True) ended"
    by (assumption | rule exec' upd_new_plan p dist refine_rules env | (simp; fail))+
qed


lemma cycle_loop:
  assumes env: "ordinary_env env"
  shows "0 < n \<Longrightarrow> max_cycles (limits rq) - m < int n \<Longrightarrow>
    refines (cycles_from rq m) (cycle_loop env planner verifier n) (\<lambda>_. run_done True) ended"
proof (induction n arbitrary: m)
  case 0
  then show ?case by simp
next
  case (Suc n)
  have turn: "refines (here c k b)
     (bindE ctxE (\<lambda>c.
       if cycle_count c \<ge> max_cycles (limits (request c)) then
         stop env BLOCKED SR_CYCLE_LIMIT LOOP_BLOCKED
       else
         thenE (whenE (status c \<noteq> PLANNING) (transition env PLANNING PLANNING_STARTED))
        (bindE (call_planner env planner) (\<lambda>p.
         if steps p = [] then raiseE (InvalidPlan ''planner returned an empty plan'')
         else if int (length (steps p)) > max_steps_per_plan (limits (request c)) then
           thenE (updE (\<lambda>c. c\<lparr>current_plan := None, current_step_index := 0\<rparr>))
                 (stop env BLOCKED SR_STEP_LIMIT LOOP_BLOCKED)
         else
           thenE (validate_plan p)
          (thenE (updE (\<lambda>c. c\<lparr>current_plan := Some p, current_step_index := 0\<rparr>))
          (thenE (checkpoint_and_emit env PLAN_CREATED [])
          (bindE (execute_plan env p verifier) (\<lambda>po.
           bindE (finish_plan_outcome env po) (\<lambda>fin.
             if fin then returnE () else cycle_loop env planner verifier n)))))))))
     (\<lambda>_. run_done True) ended" if c: "request c = rq" "m \<le> cycle_count c" for c k b
  proof (rule refines_ctx_here, rule refines_if, goal_cases)
    case (1 d)
    show ?case
      by (assumption | rule refine_rules env | rule tail_rules | (simp; fail)
          | (erule run_done_stopped, simp; fail))+
  next
    case (2 d)
    note f = core_eq_fields [OF 2(1)]
    have less: "cycle_count c < max_cycles (limits (request c))"
      using 2(2) f by simp
    let ?c = "c\<lparr>status := PLANNING\<rparr>"
    have go: "refines (here c k b) (whenE (status d \<noteq> PLANNING) (transition env PLANNING PLANNING_STARTED))
        (\<lambda>_. here ?c k False) ended"
      by (rule refines_whenE, rule refines_weaken [OF transition [OF env]])
         (use f(3) in \<open>auto intro: here_unsaved simp: status_same\<close>)
    have again: "refines (cycles_from rq (cycle_count c + 1)) (cycle_loop env planner verifier n)
        (\<lambda>_. run_done True) ended"
      by (rule Suc.IH) (use Suc.prems less c in auto)
    have plan: "refines (here (?c\<lparr>cycle_count := cycle_count ?c + 1\<rparr>) k' False)
        (if steps p = [] then raiseE (InvalidPlan ''planner returned an empty plan'')
         else if int (length (steps p)) > max_steps_per_plan (limits (request d)) then
           thenE (updE (\<lambda>c. c\<lparr>current_plan := None, current_step_index := 0\<rparr>))
                 (stop env BLOCKED SR_STEP_LIMIT LOOP_BLOCKED)
         else
           thenE (validate_plan p)
          (thenE (updE (\<lambda>c. c\<lparr>current_plan := Some p, current_step_index := 0\<rparr>))
          (thenE (checkpoint_and_emit env PLAN_CREATED [])
          (bindE (execute_plan env p verifier) (\<lambda>po.
           bindE (finish_plan_outcome env po) (\<lambda>fin.
             if fin then returnE () else cycle_loop env planner verifier n))))))
        (\<lambda>_. run_done True) ended" for p k'
    proof (intro refines_if, goal_cases)
      case 1
      show ?case by (rule refines_raiseE) (simp add: ordinary_exn_def)
    next
      case 2
      show ?case
        by (assumption | rule refine_rules env | rule tail_rules | (simp; fail)
            | (erule run_done_stopped, simp; fail))+
    next
      case 3
      then show ?case
        using again c f(1) by (intro plan_turn [OF env]) simp_all
    qed
    show ?case
      by (rule refines_then [OF go], assumption, rule refines_seq [OF call_planner [OF env]])
         (use less plan in simp_all)
  qed
  show ?case
    unfolding cycle_loop.simps
  proof (rule refines_any)
    fix s :: "'a loop_state"
    assume s: "cycles_from rq m s"
    then have c: "request (ctx s) = rq" "m \<le> cycle_count (ctx s)"
      by (simp_all add: cycles_from_def)
    have stopped: "refines (\<lambda>t. near (ctx s) k t \<and> status (ctx t) \<in> {CANCELLED, BLOCKED})
        (returnE ()) (\<lambda>_. run_done True) ended" for k
      by (rule refines_returnE) (auto simp: run_done_def)
    show "refines (here (ctx s) (component_calls (trace s)) False)
      (bindE (stop_at_safe_boundary env) (\<lambda>stopped. if stopped then returnE () else
     (bindE ctxE (\<lambda>c.
       if cycle_count c \<ge> max_cycles (limits (request c)) then
         stop env BLOCKED SR_CYCLE_LIMIT LOOP_BLOCKED
       else
         thenE (whenE (status c \<noteq> PLANNING) (transition env PLANNING PLANNING_STARTED))
        (bindE (call_planner env planner) (\<lambda>p.
         if steps p = [] then raiseE (InvalidPlan ''planner returned an empty plan'')
         else if int (length (steps p)) > max_steps_per_plan (limits (request c)) then
           thenE (updE (\<lambda>c. c\<lparr>current_plan := None, current_step_index := 0\<rparr>))
                 (stop env BLOCKED SR_STEP_LIMIT LOOP_BLOCKED)
         else
           thenE (validate_plan p)
          (thenE (updE (\<lambda>c. c\<lparr>current_plan := Some p, current_step_index := 0\<rparr>))
          (thenE (checkpoint_and_emit env PLAN_CREATED [])
          (bindE (execute_plan env p verifier) (\<lambda>po.
           bindE (finish_plan_outcome env po) (\<lambda>fin.
             if fin then returnE () else cycle_loop env planner verifier n)))))))))))
      (\<lambda>_. run_done True) ended"
      by (rule refines_seq [OF stop_at_safe_boundary [OF env]])
         (use stopped turn [OF c] in auto)
  qed
qed

lemma run_cycles:
  assumes env: "ordinary_env env" and ap: "cont \<Longrightarrow> 0 \<le> current_step_index c"
  shows "refines (here c k cont) (run_cycles env planner verifier cont)
     (\<lambda>_. run_done (cont \<longrightarrow> all_passed c)) ended"
proof -
  have again: "refines P
      (bindE ctxE (\<lambda>c. cycle_loop env planner verifier (cycle_fuel c)))
      (\<lambda>_. run_done (cont \<longrightarrow> all_passed c)) ended" for P
  proof (rule refines_ctxE)
    fix d
    have "refines (cycles_from (request d) (cycle_count d))
       (cycle_loop env planner verifier (cycle_fuel d)) (\<lambda>_. run_done True) ended"
      by (rule cycle_loop [OF env]) (simp_all add: cycle_fuel_def)
    then show "refines (\<lambda>s. P s \<and> ctx s = d) (cycle_loop env planner verifier (cycle_fuel d))
       (\<lambda>_. run_done (cont \<longrightarrow> all_passed c)) ended"
      by (rule refines_conseq) (auto simp: cycles_from_def run_done_def)
  qed
  have rest: "refines (cycle_done (all_passed c) fin)
      (if fin then returnE ()
       else bindE ctxE (\<lambda>c. cycle_loop env planner verifier (cycle_fuel c)))
      (\<lambda>_. run_done (cont \<longrightarrow> all_passed c)) ended" if cont for fin
    using that by (intro refines_if again refines_returnE) (auto simp: cycle_done_def run_done_def)
  have cont: "refines (here c k True)
      (bindE ctxE (\<lambda>c. case current_plan c of
           None \<Rightarrow> raiseE (LoopNotResumable ''checkpoint has no current plan'')
         | Some p \<Rightarrow> bindE (execute_plan env p verifier) (finish_plan_outcome env)))
      (cycle_done (all_passed c)) ended" if cont
  proof (rule refines_ctx_here, rule refines_case_option, goal_cases)
    case (1 d)
    show ?case by (rule refines_raiseE) (simp add: ordinary_exn_def)
  next
    case (2 d p)
    then have "current_plan c = Some p"
      using core_eq_fields(6) [OF 2(1)] by simp
    then show ?case
      by (intro refines_seq [OF execute_plan [OF env _ ap [OF that]]])
         (auto intro: finish_plan_outcome [OF env])
  qed
  show ?thesis
  proof (cases cont)
    case True
    then show ?thesis
      unfolding run_cycles_def using cont rest
      by (auto intro: refines_seq)
  next
    case False
    then show ?thesis
      unfolding run_cycles_def using again by simp
  qed
qed


section \<open>The driver\<close>

definition drive_done :: "bool \<Rightarrow> 'w loop_state \<Rightarrow> bool" where
  "drive_done ap s \<longleftrightarrow> run_done ap s \<or> status (ctx s) = TIMED_OUT"

definition no_fuel_out :: "exn \<Rightarrow> 'w loop_state \<Rightarrow> bool" where
  "no_fuel_out e s \<longleftrightarrow> e \<noteq> FuelOut"

lemma ended_no_fuel_out [simp]: "ended e s \<Longrightarrow> no_fuel_out e s"
  by (simp add: ended_def no_fuel_out_def)

lemma world_free_drive_done: "world_free (drive_done ap)"
  by (simp add: world_free_def drive_done_def run_done_def)

lemma world_free_no_fuel_out: "world_free (no_fuel_out e)"
  by (simp add: world_free_def no_fuel_out_def)

lemma refines_discard:
  assumes "world_free P"
  shows "refines P discard_cancellation (\<lambda>_. P) E"
proof (rule refines_runI)
  fix s r s'
  assume "P s" and run: "discard_cancellation s = (r, s')"
  then have "r = Inr ()" "s' = s\<lparr>cancelled := cancelled s - {run_id (ctx s)}\<rparr>"
    by (auto simp: discard_cancellation_def prog_simps)
  then show "reach s s' \<and> (case r of Inl e \<Rightarrow> E e s' | Inr x \<Rightarrow> P s')"
    using world_freeD [OF assms \<open>P s\<close>, where w = "world s" and cs = "cancelled s - {run_id (ctx s)}"]
    by (auto intro: reach_one loop_step_cancelled)
qed

lemma refines_finally:
  assumes "refines P m (\<lambda>_. Q) E" and "world_free Q" and "\<And>e. world_free (E e)"
  shows "refines P (finallyE m discard_cancellation) (\<lambda>_. Q) E"
  unfolding finallyE_def
proof (rule refines_then [where F = E])
  show "refines P (tryE m (\<lambda>e. if e = Suspended \<or> e = FuelOut then raiseE e
      else thenE discard_cancellation (raiseE e))) (\<lambda>_. Q) E"
    by (rule refines_tryE [OF assms(1)])
       (auto intro!: refines_if refines_raiseE refines_then [OF refines_discard [OF assms(3)]])
  show "refines Q discard_cancellation (\<lambda>_. Q) E"
    by (rule refines_discard [OF assms(2)])
qed simp

lemma fail_spec:
  assumes "ordinary_env env"
  shows "refines P (fail env e) (\<lambda>_ s. is_terminal (status (ctx s))) ended"
proof (rule refines_any)
  fix s :: "'a loop_state"
  let ?c = "ctx s" and ?k = "component_calls (trace s)"
  let ?d = "?c\<lparr>stop_reason_of := Some SR_COMPONENT_ERROR, error := exn_text e\<rparr>"
  have tail: "refines (here ?d ?k False)
     (bindE ctxE (\<lambda>c. if is_terminal (status c) then returnE () else transition env FAILED LOOP_FAILED))
     (\<lambda>_ s. is_terminal (status (ctx s))) ended"
  proof (rule refines_ctx_here, rule refines_if, goal_cases)
    case (1 d)
    then show ?case
      using core_eq_fields(3) [OF 1(1)] here_fields(3)
      by (intro refines_returnE) (fastforce simp: here_fields(3))
  next
    case (2 d)
    show ?case
      by (rule refines_weaken [OF transition [OF assms]])
         (auto simp: here_fields(3) is_terminal_def)
  qed
  show "refines (here ?c ?k False) (fail env e) (\<lambda>_ s. is_terminal (status (ctx s))) ended"
    unfolding fail_def
    by (assumption | rule tail | rule refine_rules | (simp; fail))+
qed

lemma drive_handler:
  assumes env: "ordinary_env env"
  shows "refines (ended e) (drive_handler env e) (\<lambda>_. drive_done ap) no_fuel_out"
proof -
  have stop: "refines (here c k b) (stop env CANCELLED SR_CANCELLED LOOP_CANCELLED) (\<lambda>_ _. True) no_fuel_out"
    for c k b
    by (rule refines_weaken [OF stop_spec [OF env]]) auto
  have cancelled: "refines P (bindE ctxE (\<lambda>c.
          thenE (whenE (\<not> is_terminal (status c)) (stop env CANCELLED SR_CANCELLED LOOP_CANCELLED))
                (raiseE Cancelled))) (\<lambda>_. drive_done ap) no_fuel_out" for P
  proof (rule refines_any, rule refines_ctx_here, rule refines_then, rule refines_whenE, rule stop)
    show "refines (\<lambda>_. True) (raiseE Cancelled) (\<lambda>_. drive_done ap) no_fuel_out"
      by (rule refines_raiseE) (simp add: no_fuel_out_def)
  qed simp_all
  have limit: "refines P (thenE (updE (\<lambda>c. c\<lparr>error := t\<rparr>)) (stop env BLOCKED SR_BUDGET_EXHAUSTED LOOP_BLOCKED))
      (\<lambda>_. drive_done ap) no_fuel_out" for P t
    by (rule refines_any)
       (assumption | rule refine_rules env | rule tail_rules | (simp; fail)
        | (unfold drive_done_def, rule disjI1, erule run_done_stopped, simp; fail))+
  have failed: "refines P (thenE (fail env e) (raiseE e)) (\<lambda>_. drive_done ap) no_fuel_out"
    if "is_exception e" for P
    by (rule refines_then [OF fail_spec [OF env]])
       (use that in \<open>auto intro!: refines_raiseE simp: no_fuel_out_def ended_def\<close>)
  have raised: "refines (ended e) (raiseE e) (\<lambda>_. drive_done ap) no_fuel_out"
    by (rule refines_raiseE) simp
  show ?thesis
  proof (cases "e = Stopped")
    case True
    then show ?thesis
      by (auto simp: drive_handler_def ended_def drive_done_def run_done_def intro!: refines_returnE)
  next
    case False
    show ?thesis
      unfolding drive_handler_def
      using cancelled limit failed raised False
      by (cases e) (auto simp del: exn_text_def)
  qed
qed

lemma drive:
  assumes env: "ordinary_env env" and "cont \<Longrightarrow> 0 \<le> current_step_index c"
  shows "refines (here c k cont) (drive env planner verifier cont)
     (\<lambda>r s. r = result_from_context (ctx s) \<and> drive_done (cont \<longrightarrow> all_passed c) s) no_fuel_out"
proof -
  let ?ap = "cont \<longrightarrow> all_passed c"
  have stable: "refines (run_done ?ap) (bindE ctxE (\<lambda>c. whenE (\<not> is_stable (status c))
       (fail env (RuntimeError ''Loop driver exited without a stable terminal state''))))
       (\<lambda>_. drive_done ?ap) ended"
  proof (rule refines_ctxE, rule refines_fact)
    fix d :: loop_context and s :: "'a loop_state"
    assume "run_done ?ap s \<and> ctx s = d"
    then show "is_stable (status d)"
      by (auto simp: run_done_def is_stable_def)
  next
    fix d :: loop_context
    assume "is_stable (status d)"
    then show "refines (\<lambda>s. run_done ?ap s \<and> ctx s = d) (whenE (\<not> is_stable (status d))
       (fail env (RuntimeError ''Loop driver exited without a stable terminal state'')))
       (\<lambda>_. drive_done ?ap) ended"
      by (intro refines_whenE) (simp_all add: drive_done_def)
  qed
  have body: "refines (here c k cont)
     (tryE (thenE (run_cycles env planner verifier cont)
                    (bindE ctxE (\<lambda>c. whenE (\<not> is_stable (status c))
                       (fail env (RuntimeError ''Loop driver exited without a stable terminal state'')))))
             (drive_handler env)) (\<lambda>_. drive_done ?ap) no_fuel_out"
    by (rule refines_tryE [where F = ended], rule refines_then [OF run_cycles [OF env assms(2)]])
       (auto intro: stable drive_handler [OF env])
  show ?thesis
    unfolding drive_def
    by (rule refines_then [OF refines_finally [OF body world_free_drive_done world_free_no_fuel_out]])
       (auto intro!: refines_ctxE refines_returnE)
qed


section \<open>Starting, resuming and recovering\<close>

text \<open>What the checkpoint codec guarantees of the counters of a stored context.\<close>

definition counters_ok :: "loop_context \<Rightarrow> bool" where
  "counters_ok c \<longleftrightarrow> 0 \<le> cycle_count c \<and> 0 \<le> total_attempts c \<and> 0 \<le> current_step_index c"

definition loads_ok :: "'w loop_env \<Rightarrow> bool" where
  "loads_ok env \<longleftrightarrow> (\<forall>rid w c. fst (e_load env rid w) = Inr (Some c) \<longrightarrow> counters_ok c)"

text \<open>A controller call starts from its context with an empty trace.\<close>

definition start_from :: "loop_context \<Rightarrow> 'w loop_state \<Rightarrow> bool" where
  "start_from c s \<longleftrightarrow> core (ctx s) = core c \<and> trace s = [] \<and> event_sequence (ctx s) = event_sequence c
     \<and> revision (ctx s) = revision c"

lemma start_from_here: "start_from c s \<Longrightarrow> here c [] False s"
  by (simp add: start_from_def here_def)

lemma start_from_budget: "start_from c s \<Longrightarrow> counters_ok c \<Longrightarrow> budget s"
  using core_eq_fields(8,9) [of "ctx s" c]
  by (simp add: start_from_def budget_def counters_ok_def)

lemma upd_reset:
  fixes E :: "exn \<Rightarrow> 'w loop_state \<Rightarrow> bool"
  shows "refines (here c k b) (updE (\<lambda>c. c\<lparr>current_plan := None, current_step_index := 0,
             approved_step_ids := {}, completion_approved := False, replan_required := False\<rparr>))
     (\<lambda>_. here (c\<lparr>current_plan := None, current_step_index := 0, approved_step_ids := {},
                 completion_approved := False, replan_required := False\<rparr>) k False) E"
  by (rule refines_upd_here) (auto simp: core_eq_iff intro: ls_reset)

text \<open>The context a resumed run goes on with.\<close>

definition resumed :: "resume_mode \<Rightarrow> loop_context \<Rightarrow> loop_context" where
  "resumed mode c =
     (let d = c\<lparr>stop_reason_of := None, error := []\<rparr> in
      if mode = REPLAN
      then d\<lparr>current_plan := None, current_step_index := 0, approved_step_ids := {},
             completion_approved := False, replan_required := False, status := PLANNING\<rparr>
      else d)"

lemma resume_started:
  assumes "ordinary_env env"
  shows "refines (here c k b) (resume_started env mode) (\<lambda>_. here (resumed mode c) k True) ended"
  unfolding resume_started_def resumed_def Let_def
  by (cases mode)
     (simp only: resume_mode.distinct refl if_True if_False;
      (assumption | rule upd_reset refine_rules assms | rule tail_rules | (simp; fail))+)+

lemma resumed_plan:
  "0 \<le> current_step_index c \<Longrightarrow> 0 \<le> current_step_index (resumed mode c)"
  "mode = CONTINUE \<Longrightarrow> all_passed (resumed mode c) = all_passed c"
  by (simp_all add: resumed_def Let_def)

definition returned :: "bool \<Rightarrow> loop_result \<Rightarrow> 'w loop_state \<Rightarrow> bool" where
  "returned ap r s \<longleftrightarrow> r = result_from_context (ctx s) \<and> drive_done ap s"

lemma resume_and_drive:
  assumes env: "ordinary_env env" and c: "counters_ok c"
  shows "refines (here c k b)
     (thenE (resume_started env mode) (drive env planner verifier (mode = CONTINUE)))
     (returned (mode = CONTINUE \<longrightarrow> all_passed c)) no_fuel_out"
proof (rule refines_then [OF resume_started [OF env]])
  have "refines (here (resumed mode c) k (mode = CONTINUE)) (drive env planner verifier (mode = CONTINUE))
     (returned (mode = CONTINUE \<longrightarrow> all_passed c)) no_fuel_out"
    by (rule refines_weaken [OF drive [OF env]])
       (use c resumed_plan in \<open>auto simp: counters_ok_def returned_def\<close>)
  then show "refines (here (resumed mode c) k True) (drive env planner verifier (mode = CONTINUE))
     (returned (mode = CONTINUE \<longrightarrow> all_passed c)) no_fuel_out"
    by (rule refines_pre) (rule here_weak)
qed simp

lemma recovery_block:
  assumes "ordinary_env env"
  shows "refines (here c k b) (recovery_block env msg)
     (\<lambda>r s. r = result_from_context (ctx s)
        \<and> here (c\<lparr>error := msg, stop_reason_of := Some SR_RECOVERY_REQUIRED, status := BLOCKED\<rparr>) k True s)
     (fault c k)"
  unfolding recovery_block_def
  by (rule refines_then [OF upd_note(2)], assumption,
      rule refines_then [OF stop_spec [OF assms]])
     (auto intro!: refines_ctxE refines_returnE)

text \<open>\<open>recover\<close> after its context is loaded.\<close>

definition recover_loaded ::
  "'w loop_env \<Rightarrow> string \<Rightarrow> string \<Rightarrow> ('w, loop_result) loop" where
  "recover_loaded env planner verifier = bindE ctxE (\<lambda>c.
     if is_terminal (status c) \<or> status c \<in> {PAUSED, BLOCKED} then returnE (result_from_context c)
     else
       thenE settle_crashed_timer
      (thenE (start_active_timer env)
      (bindE ctxE (\<lambda>c.
       if status c = EXECUTING \<and> pending_execution c = None then
         recovery_block env ''execution state unknown; reconcile by active_operation_id; not resubmitted''
       else if status c = WAITING_APPROVAL then
         recovery_block env ''approval state unknown; approval was not requested again''
       else
         let continue_current_plan =
               (current_plan c \<noteq> None \<and> status c \<in> {EXECUTING, VERIFYING}) in
         thenE (checkpoint_and_emit env LOOP_RECOVERED [])
               (drive env planner verifier continue_current_plan)))))"

lemma recover_unfold:
  "recover env rid planner verifier = thenE (load_context env rid) (recover_loaded env planner verifier)"
  by (simp add: recover_def recover_loaded_def)

definition recover_continues :: "loop_context \<Rightarrow> bool" where
  "recover_continues c \<longleftrightarrow> current_plan c \<noteq> None \<and> status c \<in> {EXECUTING, VERIFYING}"

lemma recover_loaded:
  assumes env: "ordinary_env env" and c: "counters_ok c"
    and open_run: "\<not> is_terminal (status c)" "status c \<notin> {PAUSED, BLOCKED}"
  shows "refines (here c k b) (recover_loaded env planner verifier)
     (returned (recover_continues c \<longrightarrow> all_passed c)) no_fuel_out"
  unfolding recover_loaded_def Let_def
proof (rule refines_ctx_here, goal_cases)
  case (1 d)
  have st: "status d = status c"
    using core_eq_fields(3) [OF 1] .
  have block: "refines (here c k b) (recovery_block env msg)
     (returned (recover_continues c \<longrightarrow> all_passed c)) no_fuel_out" for msg k b
    by (rule refines_weaken [OF recovery_block [OF env]])
       (auto simp: returned_def drive_done_def intro: run_done_stopped)
  have go: "refines (here c k b)
     (bindE ctxE (\<lambda>c.
       if status c = EXECUTING \<and> pending_execution c = None then
         recovery_block env ''execution state unknown; reconcile by active_operation_id; not resubmitted''
       else if status c = WAITING_APPROVAL then
         recovery_block env ''approval state unknown; approval was not requested again''
       else
         thenE (checkpoint_and_emit env LOOP_RECOVERED [])
               (drive env planner verifier
                  (current_plan c \<noteq> None \<and> status c \<in> {EXECUTING, VERIFYING}))))
     (returned (recover_continues c \<longrightarrow> all_passed c)) no_fuel_out" for k b
  proof (rule refines_ctx_here, rule refines_if [OF block], rule refines_if [OF block], goal_cases)
    case (1 e)
    have cont: "(current_plan e \<noteq> None \<and> status e \<in> {EXECUTING, VERIFYING}) = recover_continues c"
      using core_eq_fields(3,6) [OF 1(1)] by (simp add: recover_continues_def)
    have "refines (here c k (recover_continues c)) (drive env planner verifier (recover_continues c))
       (returned (recover_continues c \<longrightarrow> all_passed c)) no_fuel_out"
      by (rule refines_weaken [OF drive [OF env]])
         (use c in \<open>auto simp: counters_ok_def returned_def\<close>)
    then have "refines (here c k True) (drive env planner verifier (recover_continues c))
       (returned (recover_continues c \<longrightarrow> all_passed c)) no_fuel_out"
      by (rule refines_pre) (rule here_weak)
    then show ?case
      unfolding cont by (rule refines_then [OF checkpoint_and_emit [OF env], rotated]) simp
  qed
  show ?case
    using open_run st
    by (simp only: simp_thms if_False)
       (assumption | rule go | rule refine_rules | (simp; fail))+
qed


text \<open>\<open>stored env rid r\<close>: some load of \<open>rid\<close> answers a context with the result \<open>r\<close>.\<close>

definition stored :: "'w loop_env \<Rightarrow> string \<Rightarrow> loop_result \<Rightarrow> bool" where
  "stored env rid r \<longleftrightarrow> (\<exists>w w' c. e_load env rid w = (Inr (Some c), w') \<and> r = result_from_context c)"

lemma refines_load_here:
  assumes "ordinary_env env"
  shows "refines (\<lambda>_. True) (envE (e_load env rid))
     (\<lambda>x s. \<forall>c. x = Some c \<longrightarrow> stored env rid (result_from_context c)) no_fuel_out"
proof (rule refines_runI)
  fix s r s'
  assume run: "envE (e_load env rid) s = (r, s')"
  obtain w where s': "s' = s\<lparr>world := w\<rparr>" and f: "e_load env rid (world s) = (r, w)"
    using run by (auto simp: envE_def split: prod.splits)
  then have "reach s s'"
    by (auto intro: reach_one loop_step_world)
  moreover have "no_fuel_out e s'" if "r = Inl e" for e
    using raises_ordinaryD [OF ordinary_envD(4) [OF assms]] f that
    by (auto simp: no_fuel_out_def ordinary_exn_def)
  ultimately show "reach s s' \<and> (case r of Inl e \<Rightarrow> no_fuel_out e s'
      | Inr x \<Rightarrow> \<forall>c. x = Some c \<longrightarrow> stored env rid (result_from_context c))"
    using f by (auto simp: stored_def split: sum.splits)
qed

lemma start_run:
  assumes env: "ordinary_env env"
  shows "refines (here c k False) (start_run env req planner verifier rid)
     (\<lambda>r s. returned True r s \<or> stored env rid r) no_fuel_out"
proof -
  let ?Q = "\<lambda>r s. returned True r s \<or> stored env rid r"
  have drive': "refines (here c k False) (drive env planner verifier False) ?Q no_fuel_out"
    by (rule refines_weaken [OF drive [OF env]]) (auto simp: returned_def)
  have reload: "refines P (bindE (envE (e_load env rid)) (\<lambda>again.
      case again of
        None \<Rightarrow> raiseE (CheckpointConflict m)
      | Some d \<Rightarrow> thenE (ensure_same_request (request d) req rid)
                        (returnE (Some (result_from_context d)))))
      (\<lambda>x s. case x of None \<Rightarrow> here c k False s | Some r \<Rightarrow> stored env rid r) no_fuel_out" for P m
  proof (rule refines_seq [OF refines_pre [OF refines_load_here [OF env]]])
    fix x :: "loop_context option"
    show "refines (\<lambda>s. \<forall>c. x = Some c \<longrightarrow> stored env rid (result_from_context c))
      (case x of
        None \<Rightarrow> raiseE (CheckpointConflict m)
      | Some d \<Rightarrow> thenE (ensure_same_request (request d) req rid)
                        (returnE (Some (result_from_context d))))
      (\<lambda>x s. case x of None \<Rightarrow> here c k False s | Some r \<Rightarrow> stored env rid r) no_fuel_out"
    proof (cases x)
      case (Some d)
      have "refines (\<lambda>s. stored env rid (result_from_context d))
         (ensure_same_request (request d) req rid)
         (\<lambda>_ s. stored env rid (result_from_context d)) no_fuel_out"
        unfolding ensure_same_request_def
        by (rule refines_if) (auto intro!: refines_raiseE refines_returnE simp: no_fuel_out_def)
      then show ?thesis
        unfolding Some option.case
        by (intro refines_then) (auto intro!: refines_returnE elim: refines_pre)
    qed (auto intro!: refines_raiseE simp: no_fuel_out_def)
  qed simp_all
  have first: "refines (here c k False)
     (tryE (thenE (checkpoint_and_emit env LOOP_STARTED []) (returnE None)) (\<lambda>e.
              case e of
                CheckpointConflict _ \<Rightarrow> bindE (envE (e_load env rid)) (\<lambda>again.
                  case again of
                    None \<Rightarrow> raiseE e
                  | Some c \<Rightarrow> thenE (ensure_same_request (request c) req rid)
                                    (returnE (Some (result_from_context c))))
              | _ \<Rightarrow> raiseE e))
     (\<lambda>x s. case x of None \<Rightarrow> here c k False s | Some r \<Rightarrow> stored env rid r) no_fuel_out"
  proof (rule refines_tryE [where F = "fault c k"], rule refines_then [OF checkpoint_and_emit [OF env]])
    fix e
    have other: "refines (fault c k e) (raiseE e)
        (\<lambda>x s. case x of None \<Rightarrow> here c k False s | Some r \<Rightarrow> stored env rid r) no_fuel_out"
      by (rule refines_raiseE) simp
    show "refines (fault c k e)
     (case e of
        CheckpointConflict _ \<Rightarrow> bindE (envE (e_load env rid)) (\<lambda>again.
          case again of
            None \<Rightarrow> raiseE e
          | Some c \<Rightarrow> thenE (ensure_same_request (request c) req rid)
                            (returnE (Some (result_from_context c))))
      | _ \<Rightarrow> raiseE e)
        (\<lambda>x s. case x of None \<Rightarrow> here c k False s | Some r \<Rightarrow> stored env rid r) no_fuel_out"
      using other reload by (cases e) simp_all
  qed (auto intro!: refines_returnE intro: here_unsaved)
  show ?thesis
    unfolding start_run_def
    by (rule refines_seq [OF first])
       (auto intro!: refines_returnE drive' split: option.splits)
qed


end
