(* ===== verification/LoopProperties.thy ===== *)
theory LoopProperties
  imports LoopRuns LoopExamples
begin

text \<open>
  What the controller promises its callers, by rule induction over \<open>loop_step\<close>: the statuses a
  run goes through, the limits, the audit trail of saves and events, the write-ahead discipline
  of external calls, the meaning of a completed run.
\<close>

section \<open>Sessions\<close>

lemmas start_fields = core_eq_fields [OF conjunct1 [OF iffD1 [OF start_from_def]]]

lemma start_trace: "start_from c s \<Longrightarrow> trace s = []"
  by (simp add: start_from_def)

text \<open>
  A session is what one call of \<open>run\<close>, \<open>resume\<close> or \<open>recover\<close> does from the moment it has its
  context: it starts from \<open>c\<close> with nothing done yet.
\<close>

definition session :: "loop_context \<Rightarrow> 'w loop_state \<Rightarrow> bool" where
  "session c s \<longleftrightarrow> (\<exists>s0. start_from c s0 \<and> reach s0 s)"

lemma sessionI: "start_from c s0 \<Longrightarrow> reach s0 s \<Longrightarrow> session c s"
  by (auto simp: session_def)

lemma session_invariant:
  assumes "session c s" and "\<And>s0. start_from c s0 \<Longrightarrow> I s0"
    and "\<And>u v. I u \<Longrightarrow> loop_step u v \<Longrightarrow> I v"
  shows "I s"
  using assms by (auto simp: session_def intro: reach_invariant)

lemma refines_session:
  assumes "refines (here c [] False) m Q E" and "start_from c s" and "counters_ok c"
    and "m s = (r, s')"
  shows "session c s'"
    and "r = Inr x \<Longrightarrow> Q x s'"
    and "r = Inl e \<Longrightarrow> E e s'"
proof -
  note h = start_from_here [OF assms(2)] start_from_budget [OF assms(2,3)]
  show "session c s'"
    by (rule sessionI [OF assms(2)]) (rule refines_reach [OF assms(1) h assms(4)])
  show "r = Inr x \<Longrightarrow> Q x s'"
    using refines_ok [OF assms(1) h] assms(4) by simp
  show "r = Inl e \<Longrightarrow> E e s'"
    using refines_err [OF assms(1) h] assms(4) by simp
qed

lemma begin_run_start:
  assumes "begin_run env req rid s = (r, s')" and "trace s = []"
  shows "r = Inr () \<and> (\<exists>t u. start_from (new_LoopContext req rid t u) s')"
proof -
  obtain t w1 where t: "e_now env (world s) = (t, w1)" by fastforce
  obtain u w2 where u: "e_now env w1 = (u, w2)" by fastforce
  obtain v w3 where v: "e_now env w2 = (v, w3)" by fastforce
  obtain x w4 where x: "e_now env w3 = (x, w4)" by fastforce
  have "r = Inr ()" and s': "s' = s\<lparr>world := w4, ctx := (new_LoopContext req rid t u)
      \<lparr>active_started_at := Some v, last_heartbeat_at := Some x\<rparr>\<rparr>"
    using assms(1) t u v x
    by (auto simp: begin_run_def start_active_timer_def prog_simps askE_def updE_def ctxE_def
        new_LoopContext_def split: prod.splits sum.splits)
  then show ?thesis
    using assms(2) by (auto simp: start_from_def)
qed

lemma new_context_counters [simp]: "counters_ok (new_LoopContext req rid t u)"
  by (simp add: counters_ok_def new_LoopContext_def)

lemma same_world: "\<exists>w. s = s\<lparr>world := w\<rparr>"
  by (rule exI [of _ "world s"]) simp

text \<open>\<open>run\<close> either answers without doing anything, or is a session of a new context.\<close>

lemma run_cases:
  assumes env: "ordinary_env env" and "trace s = []"
    and run: "run env req planner verifier rid s = (r, s')"
  obtains (idle) "trace s' = []" "r \<noteq> Inl FuelOut"
  | (new) i t u where "session (new_LoopContext req i t u) s'" "r \<noteq> Inl FuelOut"
      "\<And>x. r = Inr x \<Longrightarrow> returned True x s' \<or> stored env i x"
proof -
  note load = raises_ordinaryD [OF ordinary_envD(4) [OF env]]
  define ask where "ask = (case rid of
      Some i \<Rightarrow> if i \<noteq> [] then returnE i else askE (e_uuid env) | None \<Rightarrow> askE (e_uuid env))"
  have "\<exists>i w. ask s = (Inr i, s\<lparr>world := w\<rparr>)"
    using same_world [of s]
    by (auto simp: ask_def returnE_def askE_def split: option.splits prod.splits)
  then obtain i w where ask: "ask s = (Inr i, s\<lparr>world := w\<rparr>)" by blast
  have run': "(if blank i then raiseE (ValueError ''run_id must not be empty'')
     else
     bindE (if rid = None then returnE None else envE (e_load env i)) (\<lambda>existing.
     case existing of
       Some c \<Rightarrow> thenE (ensure_same_request (request c) req i) (returnE (result_from_context c))
     | None \<Rightarrow> thenE (begin_run env req i) (start_run env req planner verifier i))) (s\<lparr>world := w\<rparr>)
     = (r, s')"
    using run ask by (simp add: run_def ask_def [symmetric] bindE_def)
  show thesis
  proof (cases "blank i")
    case True
    with run' assms(2) show thesis
      by (intro idle) (auto simp: raiseE_def)
  next
    case False
    define existing where
      "existing = (if rid = None then returnE None else envE (e_load env i)) (s\<lparr>world := w\<rparr>)"
    obtain r2 s2 where ex: "existing = (r2, s2)" by fastforce
    then have s2: "trace s2 = []" and r2: "r2 \<noteq> Inl FuelOut"
      using assms(2) load
      by (auto simp: existing_def returnE_def envE_def ordinary_exn_def split: if_splits prod.splits)
    show thesis
    proof (cases "r2 = Inr None")
      case True
      with run' False ex have go: "thenE (begin_run env req i) (start_run env req planner verifier i) s2 = (r, s')"
        by (simp add: bindE_def existing_def split: if_splits)
      obtain r3 s3 where b: "begin_run env req i s2 = (r3, s3)" by fastforce
      from begin_run_start [OF b s2] obtain t u where
        r3: "r3 = Inr ()" and st: "start_from (new_LoopContext req i t u) s3" by blast
      with go b have st_run: "start_run env req planner verifier i s3 = (r, s')"
        by (simp add: prog_simps)
      note ses = refines_session [OF start_run [OF env] st new_context_counters st_run]
      show thesis
        using ses(1,2) ses(3) by (intro new) (auto simp: no_fuel_out_def)
    next
      case other: False
      with run' False ex s2 r2 show thesis
        by (intro idle)
           (auto simp: bindE_def thenE_def existing_def ensure_same_request_def raiseE_def
             returnE_def split: sum.splits option.splits if_splits)
    qed
  qed
qed

lemma load_context_cases:
  assumes "ordinary_env env" and "trace s = []" and "load_context env rid s = (r, s')"
  shows "(\<exists>e. r = Inl e \<and> e \<noteq> FuelOut \<and> trace s' = [])
       \<or> (\<exists>c w. r = Inr () \<and> e_load env rid (world s) = (Inr (Some c), w) \<and> start_from c s'
            \<and> ctx s' = c)"
  using assms raises_ordinaryD [OF ordinary_envD(4) [OF assms(1)]]
  by (auto simp: load_context_def prog_simps envE_def updE_def start_from_def ordinary_exn_def
      split: prod.splits sum.splits option.splits)

lemma load_counters: "loads_ok env \<Longrightarrow> e_load env rid w = (Inr (Some c), w') \<Longrightarrow> counters_ok c"
  unfolding loads_ok_def by (metis fst_conv)

text \<open>\<open>resume\<close> raises without doing anything, or is a session of the loaded context.\<close>

lemma resume_cases:
  assumes env: "ordinary_env env" "loads_ok env" and "trace s = []"
    and run: "resume env rid mode planner verifier s = (r, s')"
  obtains (refused) e where "r = Inl e" "e \<noteq> FuelOut" "trace s' = []"
  | (resumed) c w m where "e_load env rid (world s) = (Inr (Some c), w)" "resume_guard c mode = None"
      "m = (if replan_required c then REPLAN else mode)"
      "session c s'" "r \<noteq> Inl FuelOut"
      "\<And>x. r = Inr x \<Longrightarrow> returned (m = CONTINUE \<longrightarrow> all_passed c) x s'"
proof -
  obtain r1 s1 where l: "load_context env rid s = (r1, s1)" by fastforce
  from load_context_cases [OF env(1) assms(3) l] show thesis
  proof (elim disjE exE conjE)
    fix e assume "r1 = Inl e" "e \<noteq> FuelOut" "trace s1 = []"
    with run l show thesis by (intro refused [of e]) (auto simp: resume_def prog_simps)
  next
    fix c w
    assume c: "r1 = Inr ()" "e_load env rid (world s) = (Inr (Some c), w)" "start_from c s1" "ctx s1 = c"
    show thesis
    proof (cases "resume_guard c mode")
      case (Some e)
      have "e \<noteq> FuelOut"
        using Some by (auto simp: resume_guard_def split: if_splits)
      with Some run l c show thesis
        by (intro refused [of e]) (auto simp: resume_def prog_simps ctxE_def start_from_def)
    next
      case None
      define m where "m = (if replan_required c then REPLAN else mode)"
      have go: "thenE (resume_started env m) (drive env planner verifier (m = CONTINUE)) s1 = (r, s')"
        using run l c None by (auto simp: resume_def prog_simps ctxE_def Let_def m_def)
      note ses = refines_session [OF resume_and_drive [OF env(1) load_counters [OF env(2) c(2)]]
          c(3) load_counters [OF env(2) c(2)] go]
      show thesis
        using ses(1,2) ses(3) by (intro resumed [OF c(2) None m_def]) (auto simp: no_fuel_out_def)
    qed
  qed
qed

text \<open>
  \<open>recover\<close> raises or answers a stable checkpoint without doing anything, or is a session of the
  loaded context.
\<close>

lemma recover_cases:
  assumes env: "ordinary_env env" "loads_ok env" and "trace s = []"
    and run: "recover env rid planner verifier s = (r, s')"
  obtains (idle) "r \<noteq> Inl FuelOut" "trace s' = []"
  | (recovered) c w where "e_load env rid (world s) = (Inr (Some c), w)"
      "\<not> is_terminal (status c)" "status c \<notin> {PAUSED, BLOCKED}"
      "session c s'" "r \<noteq> Inl FuelOut"
      "\<And>x. r = Inr x \<Longrightarrow> returned (recover_continues c \<longrightarrow> all_passed c) x s'"
proof -
  obtain r1 s1 where l: "load_context env rid s = (r1, s1)" by fastforce
  from load_context_cases [OF env(1) assms(3) l] show thesis
  proof (elim disjE exE conjE)
    fix e assume "r1 = Inl e" "e \<noteq> FuelOut" "trace s1 = []"
    with run l show thesis by (intro idle) (auto simp: recover_def prog_simps)
  next
    fix c w
    assume c: "r1 = Inr ()" "e_load env rid (world s) = (Inr (Some c), w)" "start_from c s1" "ctx s1 = c"
    show thesis
    proof (cases "is_terminal (status c) \<or> status c \<in> {PAUSED, BLOCKED}")
      case True
      with run l c show thesis
        by (intro idle) (auto simp: recover_def prog_simps ctxE_def start_from_def)
    next
      case False
      then have open_run: "\<not> is_terminal (status c)" "status c \<notin> {PAUSED, BLOCKED}" by auto
      have go: "recover_loaded env planner verifier s1 = (r, s')"
        using run l c(1) by (simp add: recover_unfold prog_simps)
      note ok = load_counters [OF env(2) c(2)]
      note ses = refines_session [OF recover_loaded [OF env(1) ok open_run] c(3) ok go]
      show thesis
        using ses(1,2) ses(3) by (intro recovered [OF c(2) open_run]) (auto simp: no_fuel_out_def)
    qed
  qed
qed

section \<open>Invariants of a session\<close>

subsection \<open>Statuses\<close>

lemma loop_step_status:
  "loop_step s t \<Longrightarrow> status (ctx t) = status (ctx s) \<or> allowed (status (ctx s)) (status (ctx t))"
  by (induction rule: loop_step.induct) auto

lemma session_status: "session c s \<Longrightarrow> status_path (status c) (status (ctx s))"
proof (erule session_invariant)
  show "status_path (status c) (status (ctx s0))" if "start_from c s0" for s0 :: "'a loop_state"
    using start_fields(3) [OF that] start_trace [OF that] by (simp add: status_refl)
  show "status_path (status c) (status (ctx v))"
    if "status_path (status c) (status (ctx u))" "loop_step u v" for u v :: "'a loop_state"
    using loop_step_status [OF that(2)] that(1) by (auto intro: status_step)
qed

text \<open>The statuses of the checkpoints of a trace, in order, with the status before.\<close>

fun saved_statuses :: "action list \<Rightarrow> loop_status list" where
  "saved_statuses [] = []"
| "saved_statuses (Saved c rv # tr) = status c # saved_statuses tr"
| "saved_statuses (a # tr) = saved_statuses tr"

lemma saved_statuses_append [simp]: "saved_statuses (xs @ ys) = saved_statuses xs @ saved_statuses ys"
  by (induction xs rule: saved_statuses.induct) auto

lemma saved_statuses_published [simp]: "saved_statuses (map Published evs) = []"
  by (induction evs) auto







subsection \<open>Limits\<close>

definition within_limits :: "loop_context \<Rightarrow> 'w loop_state \<Rightarrow> bool" where
  "within_limits c s \<longleftrightarrow> request (ctx s) = request c
     \<and> cycle_count (ctx s) \<le> max (cycle_count c) (max_cycles (limits (request c)))
     \<and> total_attempts (ctx s) \<le> max (total_attempts c) (max_attempts (limits (request c)))"

lemma session_limits:
  assumes "session c s" and "counters_ok c"
  shows "within_limits c s \<and> budget s"
  using assms(1)
proof (rule session_invariant)
  show "within_limits c s0 \<and> budget s0" if "start_from c s0" for s0 :: "'a loop_state"
    using start_from_budget [OF that assms(2)] start_fields(1,8,9) [OF that]
    by (simp add: within_limits_def)
  show "within_limits c v \<and> budget v" if "within_limits c u \<and> budget u" "loop_step u v"
    for u v :: "'a loop_state"
  proof -
    have "within_limits c v"
      using that(2) conjunct1 [OF that(1)]
      by (induction rule: loop_step.induct) (auto simp: within_limits_def max_def split: if_splits)
    with that loop_step_budget show ?thesis by blast
  qed
qed

subsection \<open>The audit trail\<close>

text \<open>
  \<open>audit\<close> reads a trace with the revision to be expected next, the last sequence number and the
  last committed snapshot: every save names the revision of the save before it and gets a larger
  one, and every event carries the snapshot of the last save and a larger sequence number.
\<close>

fun audit :: "int \<times> int \<times> loop_context option \<Rightarrow> action list
              \<Rightarrow> (int \<times> int \<times> loop_context option) option" where
  "audit st [] = Some st"
| "audit (rv, sq, snap) (Saved c rv' # tr) =
     (if revision c = rv \<and> rv < rv' \<and> sq \<le> event_sequence c
      then audit (rv', sq, Some (c\<lparr>revision := rv'\<rparr>)) tr else None)"
| "audit (rv, sq, snap) (Published ev # tr) =
     (if snap = Some (ev_context ev) \<and> sq < ev_sequence ev
         \<and> ev_sequence ev \<le> event_sequence (ev_context ev)
      then audit (rv, ev_sequence ev, snap) tr else None)"
| "audit st (a # tr) = audit st tr"

lemma audit_append: "audit st (xs @ ys) = (case audit st xs of None \<Rightarrow> None | Some st' \<Rightarrow> audit st' ys)"
  by (induction st xs rule: audit.induct) auto

lemma audit_published:
  assumes "numbered snap sq evs" and "sq' < sq" and "sq + int (length evs) \<le> event_sequence snap + 1"
  shows "audit (rv, sq', Some snap) (map Published evs)
    = Some (rv, if evs = [] then sq' else sq + int (length evs) - 1, Some snap)"
  using assms
proof (induction evs arbitrary: sq sq')
  case (Cons ev evs)
  then show ?case
    using Cons.IH [of "sq + 1" sq] by auto
qed simp

definition audited :: "loop_context \<Rightarrow> action list \<Rightarrow> bool" where
  "audited c tr \<longleftrightarrow> audit (revision c, event_sequence c, None) tr \<noteq> None"

definition audit_state :: "loop_context \<Rightarrow> 'w loop_state \<Rightarrow> bool" where
  "audit_state c s \<longleftrightarrow>
     (\<exists>sq snap. audit (revision c, event_sequence c, None) (trace s) = Some (revision (ctx s), sq, snap)
        \<and> sq \<le> event_sequence (ctx s))"

lemma audit_state_commit:
  assumes "audit_state c s" and d: "d = (ctx s)\<lparr>event_sequence := event_sequence (ctx s) + n,
      propagation_context := pc, external_state_refs := refs, updated_at := u\<rparr>"
    and "revision (ctx s) < rv" and "int (length evs) \<le> n"
    and nums: "numbered (d\<lparr>revision := rv\<rparr>) (event_sequence (ctx s) + 1) evs"
  shows "audit_state c (s\<lparr>ctx := d\<lparr>revision := rv\<rparr>, world := w,
           trace := trace s @ [Saved d rv] @ map Published evs\<rparr>)"
proof -
  obtain sq snap where a: "audit (revision c, event_sequence c, None) (trace s)
      = Some (revision (ctx s), sq, snap)" and sq: "sq \<le> event_sequence (ctx s)"
    using assms(1) by (auto simp: audit_state_def)
  have "0 \<le> n" using assms(4) by linarith
  moreover have "audit (rv, sq, Some (d\<lparr>revision := rv\<rparr>)) (map Published evs)
    = Some (rv, if evs = [] then sq else event_sequence (ctx s) + 1 + int (length evs) - 1,
        Some (d\<lparr>revision := rv\<rparr>))"
    by (rule audit_published [OF nums]) (use sq assms(4) d in auto)
  ultimately show ?thesis
    using a sq assms(3,4) d by (auto simp: audit_state_def audit_append)
qed

lemma session_audit: "session c s \<Longrightarrow> audit_state c s"
proof (erule session_invariant)
  show "audit_state c s0" if "start_from c s0" for s0 :: "'a loop_state"
    using that by (auto simp: start_from_def audit_state_def)
  show "audit_state c v" if "audit_state c u" "loop_step u v" for u v :: "'a loop_state"
    using that(2,1)
  proof (induction rule: loop_step.induct)
    case (ls_commit d s n pc refs u rv evs w)
    then show ?case by (intro audit_state_commit)
  qed (auto simp: audit_state_def audit_append)
qed

subsection \<open>Write-ahead\<close>

text \<open>
  \<open>write_ahead\<close>: before every call of an executor the last save holds the operation and its
  attempt, before every call of a verifier the result to be verified, before every call of an
  approval gate the waiting status.
\<close>

definition recorded :: "loop_context \<Rightarrow> action \<Rightarrow> bool" where
  "recorded c a \<longleftrightarrow>
     (case a of
        ExecutorCalled st \<Rightarrow>
          active_operation_id c = Some (operation_id c st) \<and> pending_attempt c \<noteq> None
      | VerifierCalled st ex \<Rightarrow>
          active_operation_id c = Some (operation_id c st) \<and> pending_execution c = Some ex
          \<and> status c = VERIFYING
      | GateCalled st \<Rightarrow> status c = WAITING_APPROVAL
      | EvaluatorCalled \<Rightarrow> finished_plan c
      | _ \<Rightarrow> True)"

definition write_ahead :: "action list \<Rightarrow> bool" where
  "write_ahead tr \<longleftrightarrow>
     (\<forall>pre a post. tr = pre @ a # post \<longrightarrow> is_call a \<longrightarrow> a \<noteq> PlannerCalled \<longrightarrow>
        (\<exists>c rv. last_save pre = Some (c, rv) \<and> recorded c a))"

lemma write_ahead_Nil [simp]: "write_ahead []"
  by (simp add: write_ahead_def)

lemma write_ahead_snoc:
  "write_ahead (tr @ [a]) \<longleftrightarrow> write_ahead tr
     \<and> (is_call a \<longrightarrow> a \<noteq> PlannerCalled \<longrightarrow> (\<exists>c rv. last_save tr = Some (c, rv) \<and> recorded c a))"
  (is "?l \<longleftrightarrow> ?r")
proof
  assume l: ?l
  have "write_ahead tr"
    unfolding write_ahead_def
  proof (intro allI impI)
    fix pre b post
    assume "tr = pre @ b # post" "is_call b" "b \<noteq> PlannerCalled"
    moreover from this have "tr @ [a] = pre @ b # (post @ [a])" by simp
    ultimately show "\<exists>c rv. last_save pre = Some (c, rv) \<and> recorded c b"
      using l unfolding write_ahead_def by blast
  qed
  with l show ?r
    unfolding write_ahead_def by blast
next
  assume r: ?r
  show ?l
    unfolding write_ahead_def
  proof (intro allI impI)
    fix pre b post
    assume s: "tr @ [a] = pre @ b # post" and b: "is_call b" "b \<noteq> PlannerCalled"
    show "\<exists>c rv. last_save pre = Some (c, rv) \<and> recorded c b"
    proof (cases post rule: rev_cases)
      case Nil
      with s b r show ?thesis by auto
    next
      case (snoc post' x)
      with s have "tr = pre @ b # post'" by simp
      with b r show ?thesis unfolding write_ahead_def by blast
    qed
  qed
qed

lemma write_ahead_published [simp]:
  "write_ahead (tr @ map Published evs) = write_ahead tr"
  by (induction evs rule: rev_induct) (simp_all add: write_ahead_snoc flip: append_assoc)

lemma write_ahead_commit [simp]:
  "write_ahead (tr @ Saved c rv # map Published evs) = write_ahead tr"
  using write_ahead_published [of "tr @ [Saved c rv]" evs] by (simp add: write_ahead_snoc)




lemma write_ahead_planner [simp]: "write_ahead (tr @ [PlannerCalled]) = write_ahead tr"
  by (simp add: write_ahead_snoc)



subsection \<open>Stored plans and the history\<close>

definition plan_ok :: "loop_context \<Rightarrow> bool" where
  "plan_ok c \<longleftrightarrow>
     (case current_plan c of None \<Rightarrow> True
      | Some p \<Rightarrow> steps p \<noteq> [] \<and> distinct (map step_id (steps p))
          \<and> int (length (steps p)) \<le> max_steps_per_plan (limits (request c))
          \<and> 0 \<le> current_step_index c \<and> current_step_index c \<le> int (length (steps p)))"

lemma session_plan_ok:
  assumes "session c s" and "plan_ok c"
  shows "plan_ok (ctx s)"
  using assms(1)
proof (rule session_invariant)
  show "plan_ok (ctx s0)" if "start_from c s0" for s0 :: "'a loop_state"
    using assms(2) start_fields(1,6,7) [OF that]
    by (cases "current_plan c") (simp_all add: plan_ok_def)
  show "plan_ok (ctx v)" if "plan_ok (ctx u)" "loop_step u v" for u v :: "'a loop_state"
    using that(2,1)
    by (induction rule: loop_step.induct) (auto simp: plan_ok_def split: option.splits)
qed

text \<open>Nothing a session does forgets what happened before.\<close>

definition extends_history :: "loop_context \<Rightarrow> loop_context \<Rightarrow> bool" where
  "extends_history c d \<longleftrightarrow>
     request d = request c \<and> run_id d = run_id c
     \<and> (\<exists>rs. records d = records c @ rs \<and> completed_steps d = completed_steps c + int (length rs))
     \<and> human_interactions d = human_interactions c
     \<and> event_sequence c \<le> event_sequence d \<and> revision c \<le> revision d
     \<and> cycle_count c \<le> cycle_count d \<and> total_attempts c \<le> total_attempts d"

lemma session_history: "session c s \<Longrightarrow> extends_history c (ctx s)"
proof (erule session_invariant)
  show "extends_history c (ctx s0)" if "start_from c s0" for s0 :: "'a loop_state"
    using start_fields(1,2,4,8,9,10,14) [OF that] that
    by (simp add: extends_history_def start_from_def)
  show "extends_history c (ctx v)" if "extends_history c (ctx u)" "loop_step u v"
    for u v :: "'a loop_state"
    using that(2,1) by (induction rule: loop_step.induct) (auto simp: extends_history_def)
qed

section \<open>The public calls\<close>

text \<open>
  \<open>begins env m s c\<close>: the public call \<open>m\<close>, made in the state \<open>s\<close>, starts from the context \<open>c\<close>:
  a new one for \<open>run\<close>, the stored one for \<open>resume\<close> and \<open>recover\<close>.
\<close>

inductive public_call :: "'w loop_env \<Rightarrow> ('w, loop_result) loop \<Rightarrow> bool" for env where
  call_run: "public_call env (run env req planner verifier rid)"
| call_resume: "public_call env (resume env rid mode planner verifier)"
| call_recover: "public_call env (recover env rid planner verifier)"

inductive begins :: "'w loop_env \<Rightarrow> ('w, loop_result) loop \<Rightarrow> 'w loop_state \<Rightarrow> loop_context \<Rightarrow> bool"
  for env where
  begins_run:
    "begins env (run env req planner verifier rid) s (new_LoopContext req i t u)"
| begins_resume: "e_load env rid (world s) = (Inr (Some c), w) \<Longrightarrow>
     begins env (resume env rid mode planner verifier) s c"
| begins_recover: "e_load env rid (world s) = (Inr (Some c), w) \<Longrightarrow>
     begins env (recover env rid planner verifier) s c"

lemma call_session:
  assumes "public_call env m" and env: "ordinary_env env" "loads_ok env" and s: "trace s = []"
    and run: "m s = (r, s')"
  shows "r \<noteq> Inl FuelOut
     \<and> (trace s' = [] \<or> (\<exists>c. begins env m s c \<and> counters_ok c \<and> session c s'))"
  using assms(1)
proof cases
  case (call_run req planner verifier rid)
  show ?thesis
  proof (cases rule: run_cases [OF env(1) s run [unfolded call_run]])
    case (2 i t u)
    moreover have "begins env m s (new_LoopContext req i t u)"
      unfolding call_run by (rule begins_run)
    ultimately show ?thesis by auto
  qed simp
next
  case (call_resume rid mode planner verifier)
  show ?thesis
  proof (cases rule: resume_cases [OF env s run [unfolded call_resume]])
    case (2 c w m')
    moreover have "begins env m s c"
      unfolding call_resume by (rule begins_resume [OF 2(1)])
    moreover have "counters_ok c"
      by (rule load_counters [OF env(2) 2(1)])
    ultimately show ?thesis by auto
  qed simp
next
  case (call_recover rid planner verifier)
  show ?thesis
  proof (cases rule: recover_cases [OF env s run [unfolded call_recover]])
    case (2 c w)
    moreover have "begins env m s c"
      unfolding call_recover by (rule begins_recover [OF 2(1)])
    moreover have "counters_ok c"
      by (rule load_counters [OF env(2) 2(1)])
    ultimately show ?thesis by auto
  qed simp
qed


lemma demo_env_ordinary [simp]: "ordinary_env (demo_env x p)"
  by (simp add: ordinary_env_def raises_ordinary_def starts_ordinary_def demo_env_def)

lemma demo_env_loads: "(\<And>c. x = Some c \<Longrightarrow> counters_ok c) \<Longrightarrow> loads_ok (demo_env x p)"
  by (simp add: loads_ok_def demo_env_def)

lemma demo_env_loads_none [simp]: "loads_ok (demo_env None p)"
  by (rule demo_env_loads) simp

lemma demo_state_trace [simp]: "trace demo_state = []"
  by (simp add: demo_state_def)

lemma demo_run_call:
  "public_call (demo_env x p) (run (demo_env x p) demo_request ''p'' ''v'' (Some ''r''))"
  by (rule call_run)

lemma demo_run_pair:
  "run (demo_env None p) demo_request ''p'' ''v'' (Some ''r'') demo_state
     = (fst (demo_run p), snd (demo_run p))"
  by (simp add: demo_run_def)

section \<open>Properties\<close>


lemma demo_trace: "trace (snd (demo_run p)) \<noteq> []"
proof (cases p)
  case True
  have "list_ex (\<lambda>_. True) (trace (snd (demo_run True)))" by code_simp
  with True show ?thesis by (auto simp: list_ex_iff)
next
  case False
  have "list_ex (\<lambda>_. True) (trace (snd (demo_run False)))" by code_simp
  with False show ?thesis by (auto simp: list_ex_iff)
qed


text \<open>
  C3. The limits of the request bound every call: planner calls never exceed the cycles used,
  executor calls never exceed the attempts used, and neither counter passes its limit (a stored
  counter that is already over its limit is not raised further).
\<close>

theorem calls_within_limits:
  assumes "public_call env m" and "ordinary_env env" and "loads_ok env" and "trace s = []"
    and "m s = (r, s')" and "trace s' \<noteq> []"
  shows "\<exists>c. begins env m s c
     \<and> calls is_planner_call (trace s') \<le> cycle_count (ctx s')
     \<and> cycle_count (ctx s') \<le> max (cycle_count c) (max_cycles (limits (request c)))
     \<and> calls is_executor_call (trace s') \<le> total_attempts (ctx s')
     \<and> total_attempts (ctx s') \<le> max (total_attempts c) (max_attempts (limits (request c)))"
proof -
  obtain c where c: "begins env m s c" "counters_ok c" "session c s'"
    using call_session [OF assms(1-5)] assms(6) by blast
  from session_limits [OF c(3,2)] c(1) show ?thesis
    unfolding within_limits_def budget_def by blast
qed

theorem calls_within_limits_witness:
  "\<exists>c. begins (demo_env None False)
       (run (demo_env None False) demo_request ''p'' ''v'' (Some ''r'')) demo_state c
     \<and> calls is_planner_call (trace (snd (demo_run False))) \<le> cycle_count (ctx (snd (demo_run False)))
     \<and> cycle_count (ctx (snd (demo_run False))) \<le> max (cycle_count c) (max_cycles (limits (request c)))
     \<and> calls is_executor_call (trace (snd (demo_run False))) \<le> total_attempts (ctx (snd (demo_run False)))
     \<and> total_attempts (ctx (snd (demo_run False))) \<le> max (total_attempts c) (max_attempts (limits (request c)))"
  by (rule calls_within_limits [OF demo_run_call _ _ _ demo_run_pair demo_trace])
     simp_all

text \<open>
  C5. The audit trail of a call is consistent: every save is made against the revision that the
  save before it returned and obtains a larger one, and every event published carries the
  snapshot of the last committed save, with a sequence number larger than all before it and
  covered by the counter of that snapshot. Nothing is published that was not saved.
\<close>

theorem calls_leave_audit_trail:
  assumes "public_call env m" and "ordinary_env env" and "loads_ok env" and "trace s = []"
    and "m s = (r, s')" and "trace s' \<noteq> []"
  shows "\<exists>c. begins env m s c \<and> audited c (trace s')"
proof -
  obtain c where c: "begins env m s c" "session c s'"
    using call_session [OF assms(1-5)] assms(6) by blast
  then show ?thesis
    using session_audit [OF c(2)] by (auto simp: audit_state_def audited_def)
qed

theorem calls_leave_audit_trail_witness:
  "\<exists>c. begins (demo_env None True)
       (run (demo_env None True) demo_request ''p'' ''v'' (Some ''r'')) demo_state c
     \<and> audited c (trace (snd (demo_run True)))"
  by (rule calls_leave_audit_trail [OF demo_run_call _ _ _ demo_run_pair demo_trace])
     simp_all



text \<open>
  C4. Every public call comes back, unless a component it awaits never does: the loops over
  attempts and over cycles end before their fuel does, so no call ends with \<open>FuelOut\<close>.
\<close>

theorem calls_terminate:
  assumes "public_call env m" and "ordinary_env env" and "loads_ok env" and "trace s = []"
  shows "fst (m s) \<noteq> Inl FuelOut"
  using call_session [OF assms, of "fst (m s)" "snd (m s)"] by simp

theorem calls_terminate_witness: "fst (demo_run False) \<noteq> Inl FuelOut"
  using calls_terminate [OF demo_run_call [of None False], of demo_state]
  by (simp add: demo_run_def)





text \<open>
  A session only adds to the history of its run: request, identifier and earlier records
  stay, every new record raises \<open>completed_steps\<close> by one, no human interaction is touched, and
  the event sequence, the revision and the used cycles and attempts never go back.
\<close>

theorem calls_extend_history:
  assumes "public_call env m" and "ordinary_env env" and "loads_ok env" and "trace s = []"
    and "m s = (r, s')" and "trace s' \<noteq> []"
  shows "\<exists>c. begins env m s c \<and> extends_history c (ctx s')"
  using call_session [OF assms(1-5)] assms(6) session_history by blast

theorem calls_extend_history_witness:
  "\<exists>c. begins (demo_env None False)
       (run (demo_env None False) demo_request ''p'' ''v'' (Some ''r'')) demo_state c
     \<and> extends_history c (ctx (snd (demo_run False)))"
  by (rule calls_extend_history [OF demo_run_call _ _ _ demo_run_pair demo_trace]) simp_all

text \<open>
  A plan that a run stores is executable: it is not empty, its step identifiers are
  distinct, it is no longer than the request allows, and the cursor stays inside it.
\<close>

theorem run_stores_valid_plans:
  assumes "ordinary_env env" and "trace s = []"
    and "run env req planner verifier rid s = (r, s')" and "trace s' \<noteq> []"
  shows "plan_ok (ctx s')"
proof (rule run_cases [OF assms(1-3)])
  fix i t u
  assume ses: "session (new_LoopContext req i t u) s'"
  have "plan_ok (new_LoopContext req i t u)"
    by (simp add: plan_ok_def new_LoopContext_def)
  with ses show "plan_ok (ctx s')"
    by (rule session_plan_ok)
qed (use assms(4) in simp_all)

theorem run_stores_valid_plans_witness: "plan_ok (ctx (snd (demo_run True)))"
  by (rule run_stores_valid_plans [OF demo_env_ordinary demo_state_trace demo_run_pair demo_trace])

text \<open>
  \<open>resume\<close> refuses runs that are not paused or blocked, that wait for a human answer, that
  were rejected by a human (unless a new plan is asked for) or need reconciliation, and does
  nothing then. Otherwise it returns as \<open>run\<close> does; when it continues the stored plan, a
  \<open>COMPLETED\<close> result has every step passed if the steps already executed had passed.
\<close>

theorem resume_returns_settled:
  assumes "ordinary_env env" and "loads_ok env" and "trace s = []"
    and "resume env rid mode planner verifier s = (Inr x, s')"
  shows "\<exists>c w. e_load env rid (world s) = (Inr (Some c), w)
     \<and> status c \<in> {PAUSED, BLOCKED} \<and> pending_interaction c = None
     \<and> stop_reason_of c \<noteq> Some SR_RECOVERY_REQUIRED
     \<and> (stop_reason_of c = Some SR_HUMAN_REJECTED \<longrightarrow> mode = REPLAN)
     \<and> x = result_from_context (ctx s')
     \<and> lr_status x \<in> {CANCELLED, BLOCKED, PAUSED, TIMED_OUT, COMPLETED}
     \<and> (lr_status x = COMPLETED \<longrightarrow> finished_plan (ctx s')
          \<and> (mode = REPLAN \<or> replan_required c \<or> all_passed c \<longrightarrow> all_passed (ctx s')))"
proof (rule resume_cases [OF assms])
  fix c w m
  assume c: "e_load env rid (world s) = (Inr (Some c), w)" and g: "resume_guard c mode = None"
    and m: "m = (if replan_required c then REPLAN else mode)" and "session c s'"
    and ret: "\<And>y. Inr x = Inr y \<Longrightarrow> returned (m = CONTINUE \<longrightarrow> all_passed c) y s'"
  have "status c \<in> {PAUSED, BLOCKED}" "pending_interaction c = None"
    "stop_reason_of c \<noteq> Some SR_RECOVERY_REQUIRED"
    "stop_reason_of c = Some SR_HUMAN_REJECTED \<longrightarrow> mode = REPLAN"
    using g by (cases mode; auto simp: resume_guard_def split: if_splits)+
  with c m ret [OF refl] show ?thesis
    by (auto simp: returned_def drive_done_def run_done_def)
qed simp_all

definition demo_paused :: loop_context where
  "demo_paused = (new_LoopContext demo_request ''r'' demo_time demo_time)
     \<lparr>status := PAUSED, current_plan := Some demo_plan, cycle_count := 1\<rparr>"

definition demo_resume :: "(exn + loop_result) \<times> unit loop_state" where
  "demo_resume = resume (demo_env (Some demo_paused) True) ''r'' CONTINUE ''p'' ''v'' demo_state"

lemma demo_resume_completed: "map_sum id lr_status (fst demo_resume) = Inr COMPLETED"
  by code_simp

theorem resume_returns_settled_witness:
  "\<exists>x. fst demo_resume = Inr x \<and> lr_status x = COMPLETED
     \<and> finished_plan (ctx (snd demo_resume)) \<and> all_passed (ctx (snd demo_resume))"
proof (cases "fst demo_resume")
  case (Inl e)
  then show ?thesis using demo_resume_completed by simp
next
  case (Inr x)
  have run: "resume (demo_env (Some demo_paused) True) ''r'' CONTINUE ''p'' ''v'' demo_state
      = (Inr x, snd demo_resume)"
    unfolding demo_resume_def [symmetric] Inr [symmetric] by simp
  have load: "loads_ok (demo_env (Some demo_paused) True)"
    by (rule demo_env_loads) (auto simp: demo_paused_def counters_ok_def new_LoopContext_def)
  have "all_passed demo_paused" by code_simp
  with resume_returns_settled [OF demo_env_ordinary load demo_state_trace run] Inr demo_resume_completed
  show ?thesis by (auto simp: demo_env_def)
qed

lemma recover_blocks:
  assumes env: "ordinary_env env" and open_run: "\<not> is_terminal (status c)" "status c \<notin> {PAUSED, BLOCKED}"
    and lost: "status c = EXECUTING \<and> pending_execution c = None \<or> status c = WAITING_APPROVAL"
  shows "refines (here c k b) (recover_loaded env planner verifier)
     (\<lambda>x s. component_calls (trace s) = k \<and> lr_status x = BLOCKED
        \<and> lr_stop_reason x = Some SR_RECOVERY_REQUIRED)
     (\<lambda>e s. component_calls (trace s) = k)"
proof -
  let ?Q = "\<lambda>x s. component_calls (trace s) = k \<and> lr_status x = BLOCKED
        \<and> lr_stop_reason x = Some SR_RECOVERY_REQUIRED"
  let ?E = "\<lambda>(e :: exn) s. component_calls (trace s) = k"
  have block: "refines (here c k b) (recovery_block env msg) ?Q ?E" for msg b
  proof (rule refines_weaken [OF recovery_block [OF env]])
    fix x and s :: "'a loop_state"
    let ?d = "c\<lparr>error := msg, stop_reason_of := Some SR_RECOVERY_REQUIRED, status := BLOCKED\<rparr>"
    assume h: "x = result_from_context (ctx s) \<and> here ?d k True s"
    then show "?Q x s"
      using here_fields(3,11) [OF conjunct2 [OF h]] by (simp add: here_def)
  qed (simp add: fault_def near_def)
  show ?thesis
    unfolding recover_loaded_def Let_def
  proof (rule refines_ctx_here, goal_cases)
    case (1 d)
    have st: "status d = status c"
      using core_eq_fields(3) [OF 1] .
    have go: "refines (here c k b)
     (bindE ctxE (\<lambda>c.
       if status c = EXECUTING \<and> pending_execution c = None then
         recovery_block env ''execution state unknown; reconcile by active_operation_id; not resubmitted''
       else if status c = WAITING_APPROVAL then
         recovery_block env ''approval state unknown; approval was not requested again''
       else
         thenE (checkpoint_and_emit env LOOP_RECOVERED [])
               (drive env planner verifier
                  (current_plan c \<noteq> None \<and> status c \<in> {EXECUTING, VERIFYING})))) ?Q ?E" for b
    proof (rule refines_ctx_here, rule refines_if [OF block], rule refines_if [OF block], goal_cases)
      case (1 e)
      then show ?case
        using lost core_eq_fields(3,19) [OF 1(1)] by simp
    qed
    show ?case
      using open_run st
      by (simp only: simp_thms if_False)
         (assumption | rule go | rule refine_rules | (simp; fail))+
  qed
qed

text \<open>
  C8. \<open>recover\<close> never repeats an external effect it cannot account for: a run whose checkpoint
  says that an executor was running and holds no result, or that an approval was being asked
  for, is blocked for reconciliation without a call of any component.
\<close>

theorem recover_never_replays:
  assumes "ordinary_env env" and "loads_ok env" and "trace s = []"
    and "e_load env rid (world s) = (Inr (Some c), w)"
    and "status c = EXECUTING \<and> pending_execution c = None \<or> status c = WAITING_APPROVAL"
    and "recover env rid planner verifier s = (r, s')"
  shows "component_calls (trace s') = []
     \<and> (\<forall>x. r = Inr x \<longrightarrow> lr_status x = BLOCKED \<and> lr_stop_reason x = Some SR_RECOVERY_REQUIRED)"
proof -
  have c: "counters_ok c" "\<not> is_terminal (status c)" "status c \<notin> {PAUSED, BLOCKED}"
    using load_counters [OF assms(2,4)] assms(5) by (auto simp: is_terminal_def)
  obtain r1 s1 where l: "load_context env rid s = (r1, s1)" by fastforce
  with load_context_cases [OF assms(1,3) l] assms(4) assms(6)
  have st: "start_from c s1" and go: "recover_loaded env planner verifier s1 = (r, s')"
    by (auto simp: recover_unfold prog_simps load_context_def envE_def updE_def)
  note ses = refines_session [OF recover_blocks [OF assms(1) c(2,3) assms(5)] st c(1) go]
  show ?thesis
    using ses(2,3) by (cases r) auto
qed

definition demo_lost :: loop_context where
  "demo_lost = (new_LoopContext demo_request ''r'' demo_time demo_time)
     \<lparr>status := EXECUTING, current_plan := Some demo_plan, cycle_count := 1, total_attempts := 1,
      active_operation_id := Some ''r:1:s'', pending_attempt := Some 1\<rparr>"

definition demo_recover_lost :: "(exn + loop_result) \<times> unit loop_state" where
  "demo_recover_lost = recover (demo_env (Some demo_lost) True) ''r'' ''p'' ''v'' demo_state"

theorem recover_never_replays_witness:
  "component_calls (trace (snd demo_recover_lost)) = []
     \<and> (case fst demo_recover_lost of Inl e \<Rightarrow> True
          | Inr x \<Rightarrow> lr_status x = BLOCKED \<and> lr_stop_reason x = Some SR_RECOVERY_REQUIRED)"
proof -
  have loads: "loads_ok (demo_env (Some demo_lost) True)"
    by (rule demo_env_loads) (auto simp: demo_lost_def counters_ok_def new_LoopContext_def)
  have load: "e_load (demo_env (Some demo_lost) True) ''r'' (world demo_state) = (Inr (Some demo_lost), ())"
    by (simp add: demo_env_def)
  have st: "status demo_lost = EXECUTING \<and> pending_execution demo_lost = None
      \<or> status demo_lost = WAITING_APPROVAL"
    by (simp add: demo_lost_def new_LoopContext_def)
  have call: "recover (demo_env (Some demo_lost) True) ''r'' ''p'' ''v'' demo_state
      = (fst demo_recover_lost, snd demo_recover_lost)"
    by (simp add: demo_recover_lost_def)
  show ?thesis
    using recover_never_replays [OF _ loads _ load st call] by (simp split: sum.split)
qed

end
