(* ===== verification/LoopApproval.thy ===== *)
theory LoopApproval
  imports LoopSteps LoopExamples
begin

text \<open>
  Approval: an executor is reached for a step that requires approval only after the gate said
  yes or a human had approved the step. The methods up to the approval make no executor call;
  what an awaited component answers is the end of its task.
\<close>

section \<open>Methods that call no executor\<close>


























section \<open>What an awaited component answers\<close>













end
