(* ===== verification/LoopHuman.thy ===== *)
theory LoopHuman
  imports LoopProperties
begin

text \<open>
  \<open>submit_human_response\<close>: a response is accepted once. A repetition under the same idempotency
  key answers from the stored record; whenever the call returns, the response is in the
  interactions of the run it returns.
\<close>

lemma find_response_key: "find_response c key = Some r \<Longrightarrow> hr_idempotency_key (hx_response r) = key"
  by (auto simp: find_response_def find_Some_iff)

lemma find_response_snoc:
  "find_response c key = None \<Longrightarrow> human_interactions d = human_interactions c @ [r] \<Longrightarrow>
   hr_idempotency_key (hx_response r) = key \<Longrightarrow> find_response d key = Some r"
  by (auto simp: find_response_def find_Some_iff find_None_iff nth_append)

lemma apply_response_fields [simp]:
  "human_interactions (apply_response p resp c) = human_interactions c"
  "pending_interaction (apply_response p resp c) = None"
  "status (apply_response p resp c) = status c"
  "records (apply_response p resp c) = records c"
  "current_plan (apply_response p resp c) = current_plan c"
  "current_step_index (apply_response p resp c) = current_step_index c"
  "run_id (apply_response p resp c) = run_id c"
  "event_sequence (apply_response p resp c) = event_sequence c"
  "revision (apply_response p resp c) = revision c"
  by (cases "hr_action resp"; auto simp: apply_response_def Let_def split: option.splits)+

definition with_key :: "response \<Rightarrow> loop_result \<Rightarrow> bool" where
  "with_key resp x \<longleftrightarrow>
     (\<exists>r. find (\<lambda>r. hr_idempotency_key (hx_response r) = hr_idempotency_key resp)
            (lr_human_interactions x) = Some r \<and> same_response (hx_response r) resp)"

lemma with_key_context:
  "find_response c (hr_idempotency_key resp) = Some r \<Longrightarrow> same_response (hx_response r) resp \<Longrightarrow>
   with_key resp (result_from_context c)"
  by (auto simp: with_key_def find_response_def result_from_context_def)

lemma submit_again_run:
  assumes "e_load env rid (world s) = (Inr (Some c), w)"
    and "find_response c (hr_idempotency_key resp) = Some r"
  shows "submit_human_response env rid resp s
     = (if same_response (hx_response r) resp then Inr (result_from_context c)
        else Inl (HumanConflict (hr_idempotency_key resp)), s\<lparr>world := w, ctx := c\<rparr>)"
  using assms
  by (simp add: submit_human_response_def load_context_def prog_simps envE_def updE_def ctxE_def)

section \<open>The accepted response\<close>

definition accepted :: "interaction \<Rightarrow> response \<Rightarrow> human_record \<Rightarrow> loop_context \<Rightarrow> loop_context" where
  "accepted p resp r c =
     (let d = apply_response p resp (c\<lparr>human_interactions := human_interactions c @ [r]\<rparr>) in
      if hr_action resp = REJECT
      then d\<lparr>stop_reason_of := Some SR_HUMAN_REJECTED, status := BLOCKED\<rparr> else d)"

lemma accepted_interactions [simp]:
  "human_interactions (accepted p resp r c) = human_interactions c @ [r]"
  by (simp add: accepted_def Let_def)

lemma commit_response:
  assumes "ordinary_env env"
  shows "refines (here d k b)
     (thenE (if hr_action resp = REJECT then
              thenE (pause_active_timer env)
             (thenE (updE (\<lambda>c. c\<lparr>stop_reason_of := Some SR_HUMAN_REJECTED\<rparr>))
             (bindE ctxE (\<lambda>c. whenE (status c \<noteq> BLOCKED) (set_status BLOCKED))))
            else returnE ())
           (checkpoint_and_emit_many env (response_events (hr_action resp)) []))
     (\<lambda>_. here (if hr_action resp = REJECT
                then d\<lparr>stop_reason_of := Some SR_HUMAN_REJECTED, status := BLOCKED\<rparr> else d) k True)
     ended"
proof -
  let ?e = "if hr_action resp = REJECT
            then d\<lparr>stop_reason_of := Some SR_HUMAN_REJECTED, status := BLOCKED\<rparr> else d"
  have block: "refines (here c k False)
      (bindE ctxE (\<lambda>c. whenE (status c \<noteq> BLOCKED) (set_status BLOCKED)))
      (\<lambda>_. here (c\<lparr>status := BLOCKED\<rparr>) k False) (fault c k)" for c
    by (rule refines_ctx_here, rule refines_whenE, rule set_status)
       (auto dest: core_eq_fields(3) simp: status_same)
  have first: "refines (here d k b)
     (if hr_action resp = REJECT then
              thenE (pause_active_timer env)
             (thenE (updE (\<lambda>c. c\<lparr>stop_reason_of := Some SR_HUMAN_REJECTED\<rparr>))
             (bindE ctxE (\<lambda>c. whenE (status c \<noteq> BLOCKED) (set_status BLOCKED))))
            else returnE ()) (\<lambda>_. here ?e k False) ended"
  proof (rule refines_if)
    assume r: "hr_action resp = REJECT"
    have "refines (here d k b) (thenE (pause_active_timer env)
             (thenE (updE (\<lambda>c. c\<lparr>stop_reason_of := Some SR_HUMAN_REJECTED\<rparr>))
             (bindE ctxE (\<lambda>c. whenE (status c \<noteq> BLOCKED) (set_status BLOCKED)))))
        (\<lambda>_. here (d\<lparr>stop_reason_of := Some SR_HUMAN_REJECTED, status := BLOCKED\<rparr>) k False) ended"
      by (rule refines_then [OF pause_active_timer], assumption,
          rule refines_then [OF upd_note(1)], assumption, rule refines_weaken [OF block]) simp_all
    with r show "refines (here d k b) (thenE (pause_active_timer env)
             (thenE (updE (\<lambda>c. c\<lparr>stop_reason_of := Some SR_HUMAN_REJECTED\<rparr>))
             (bindE ctxE (\<lambda>c. whenE (status c \<noteq> BLOCKED) (set_status BLOCKED)))))
        (\<lambda>_. here ?e k False) ended" by simp
  next
    assume "hr_action resp \<noteq> REJECT"
    then show "refines (here d k b) (returnE ()) (\<lambda>_. here ?e k False) ended"
      by (auto intro!: refines_returnE intro: here_unsaved)
  qed
  have events: "response_events (hr_action resp) \<noteq> []"
    by (cases "hr_action resp") simp_all
  show ?thesis
    by (rule refines_then [OF first], assumption,
        rule refines_weaken [OF checkpoint_and_emit_many [OF assms events]]) simp_all
qed

lemma thenE_updE: "thenE (updE f) m s = m (s\<lparr>ctx := f (ctx s)\<rparr>)"
  by (simp add: prog_simps updE_def)

lemma accept_response_run:
  assumes env: "ordinary_env env" and s: "trace s = []" "ctx s = c" "counters_ok c"
    and run: "accept_response env p resp s = (r, s')"
  shows "case r of Inl e \<Rightarrow> e \<noteq> Stopped \<or> status (ctx s') \<in> {CANCELLED, TIMED_OUT}
     | Inr _ \<Rightarrow> \<exists>x. hx_request x = p \<and> hx_response x = resp \<and> core (ctx s') = core (accepted p resp x c)
                   \<and> synced s' \<and> audited c (trace s')"
proof -
  obtain now w where now: "e_now env (world s) = (now, w)" by fastforce
  define r0 where "r0 = new_HumanInteractionRecord p resp now"
  show ?thesis
  proof (cases r0)
    case (Inl e)
    have "ordinary_exn e"
      using Inl by (auto simp: r0_def new_HumanInteractionRecord_def require_def ordinary_exn_def split: if_splits)
    moreover have "r = Inl e"
      using run now Inl by (auto simp: accept_response_def prog_simps askE_def r0_def)
    ultimately show ?thesis by (auto simp: ordinary_exn_def)
  next
    case (Inr x)
    have x: "hx_request x = p" "hx_response x = resp"
      using Inr by (auto simp: r0_def new_HumanInteractionRecord_def)
    let ?d = "apply_response p resp (c\<lparr>human_interactions := human_interactions c @ [x]\<rparr>)"
    let ?s = "s\<lparr>world := w, ctx := ?d\<rparr>"
    have go: "thenE (if hr_action resp = REJECT then
              thenE (pause_active_timer env)
             (thenE (updE (\<lambda>c. c\<lparr>stop_reason_of := Some SR_HUMAN_REJECTED\<rparr>))
             (bindE ctxE (\<lambda>c. whenE (status c \<noteq> BLOCKED) (set_status BLOCKED))))
            else returnE ())
           (checkpoint_and_emit_many env (response_events (hr_action resp)) []) ?s = (r, s')"
      using run now Inr s(2)
      by (simp add: accept_response_def bindE_run thenE_updE askE_def liftE_def r0_def)
    have st: "start_from ?d ?s"
      using s(1) by (simp add: start_from_def)
    have cs: "counters_ok ?d"
      using s(3) by (cases "hr_action resp") (auto simp: counters_ok_def apply_response_def Let_def split: option.splits)
    note ses = refines_session [OF commit_response [OF env] st cs go]
    have "audited ?d (trace s')"
      using session_audit [OF ses(1)] by (auto simp: audit_state_def audited_def)
    then have "audited c (trace s')"
      by (simp add: audited_def)
    then show ?thesis
      using ses(2,3) x by (auto simp: here_def accepted_def Let_def ended_def split: sum.splits)
  qed
qed

text \<open>
  A response that was already recorded under its idempotency key is answered from the
  record, or refused as a conflict when its content differs: nothing is saved, published or
  changed.
\<close>

theorem submit_again:
  assumes "e_load env rid (world s) = (Inr (Some c), w)"
    and "find_response c (hr_idempotency_key resp) = Some r"
  shows "submit_human_response env rid resp s
     = (if same_response (hx_response r) resp then Inr (result_from_context c)
        else Inl (HumanConflict (hr_idempotency_key resp)), s\<lparr>world := w, ctx := c\<rparr>)"
  using assms by (rule submit_again_run)

text \<open>
  A response is refused, without any effect, when the run waits for no answer, for the
  answer to another interaction, or does not allow the action.
\<close>

theorem submit_refused:
  assumes "e_load env rid (world s) = (Inr (Some c), w)"
    and "find_response c (hr_idempotency_key resp) = None"
    and "\<nexists>p. pending_interaction c = Some p \<and> hi_interaction_id p = hr_interaction_id resp
             \<and> hr_action resp \<in> set (hi_allowed_actions p)"
  shows "\<exists>msg. submit_human_response env rid resp s
     = (Inl (HumanNotPending msg), s\<lparr>world := w, ctx := c\<rparr>)"
  using assms
  by (auto simp: submit_human_response_def load_context_def prog_simps envE_def updE_def ctxE_def
      response_guard_def split: option.splits)

text \<open>
  Whenever \<open>submit_human_response\<close> returns, the response is among the interactions of the run
  it answers with, under its idempotency key and with the same content; also when the first
  save lost a race and the answer comes from the checkpoint of the winner.
\<close>

theorem submit_records:
  assumes "ordinary_env env" and "loads_ok env" and "trace s = []" and "same_response resp resp"
    and "submit_human_response env rid resp s = (Inr x, s')"
  shows "with_key resp x"
proof -
  obtain c w where load: "e_load env rid (world s) = (Inr (Some c), w)"
    using assms(5)
    by (auto simp: submit_human_response_def load_context_def prog_simps envE_def
        split: prod.splits sum.splits option.splits)
  let ?key = "hr_idempotency_key resp" and ?s = "s\<lparr>world := w, ctx := c\<rparr>"
  show ?thesis
  proof (cases "find_response c ?key")
    case (Some r)
    with submit_again_run [OF load Some] assms(5) show ?thesis
      by (auto split: if_splits intro: with_key_context)
  next
    case None
    then obtain p where p: "response_guard c resp = Inr p"
      using assms(5) load
      by (cases "response_guard c resp")
         (auto simp: submit_human_response_def load_context_def prog_simps envE_def updE_def ctxE_def)
    obtain r2 s2 where acc: "accept_response env p resp ?s = (r2, s2)" by fastforce
    note run = accept_response_run [OF assms(1) _ _ load_counters [OF assms(2) load] acc]
    have found: "with_key resp (result_from_context (ctx s2))" if "r2 = Inr ()"
    proof -
      obtain h where h: "hx_response h = resp" "core (ctx s2) = core (accepted p resp h c)"
        using run assms(3) \<open>r2 = Inr ()\<close> by auto
      have "find_response (ctx s2) ?key = Some h"
        by (rule find_response_snoc [OF None]) (use core_eq_fields(14) [OF h(2)] h(1) in simp_all)
      then show ?thesis
        by (rule with_key_context) (use h(1) assms(4) in simp)
    qed
    show ?thesis
    proof (cases r2)
      case (Inr u)
      with found acc assms(5) load None p show ?thesis
        by (auto simp: submit_human_response_def load_context_def prog_simps envE_def updE_def ctxE_def)
    next
      case (Inl e)
      with acc assms(5) load None p show ?thesis
        by (cases e)
           (auto simp: submit_human_response_def load_context_def prog_simps envE_def updE_def
             ctxE_def split: prod.splits sum.splits option.splits if_splits intro: with_key_context)
    qed
  qed
qed

text \<open>
  An accepted response ends the interaction it answers, is appended to the interactions and
  changes the run as its action says: an approval of a step is remembered for that step, a
  revision or an input asks for a new plan, a rejection blocks the run; records, plan and cursor
  stay. The change is committed before the call returns. (The other possibility is a run that
  another caller answered first.)
\<close>

theorem submit_accepts:
  assumes "ordinary_env env" and "loads_ok env" and "trace s = []"
    and load: "e_load env rid (world s) = (Inr (Some c), w)"
    and none: "find_response c (hr_idempotency_key resp) = None"
    and run: "submit_human_response env rid resp s = (Inr x, s')"
  shows "stored env rid x
     \<or> (\<exists>p h. response_guard c resp = Inr p \<and> hx_request h = p \<and> hx_response h = resp
          \<and> x = result_from_context (ctx s') \<and> synced s' \<and> audited c (trace s')
          \<and> pending_interaction (ctx s') = None
          \<and> human_interactions (ctx s') = human_interactions c @ [h]
          \<and> status (ctx s') = (if hr_action resp = REJECT then BLOCKED else status c)
          \<and> replan_required (ctx s')
              = (replan_required c \<or> hr_action resp \<in> {REVISE, PROVIDE_INPUT})
          \<and> approved_step_ids (ctx s')
              = approved_step_ids c \<union>
                (if hr_action resp = APPROVE \<and> hi_kind p = APPROVAL
                 then set_option (hi_step_id p) else {})
          \<and> records (ctx s') = records c \<and> current_plan (ctx s') = current_plan c
          \<and> current_step_index (ctx s') = current_step_index c)"
proof -
  obtain p where p: "response_guard c resp = Inr p"
    using run load none
    by (cases "response_guard c resp")
       (auto simp: submit_human_response_def load_context_def prog_simps envE_def updE_def ctxE_def)
  let ?s = "s\<lparr>world := w, ctx := c\<rparr>"
  obtain r2 s2 where acc: "accept_response env p resp ?s = (r2, s2)" by fastforce
  note eff = accept_response_run [OF assms(1) _ _ load_counters [OF assms(2) load] acc]
  show ?thesis
  proof (cases r2)
    case (Inr u)
    then obtain h where h: "hx_request h = p" "hx_response h = resp"
      "core (ctx s2) = core (accepted p resp h c)" "synced s2" "audited c (trace s2)"
      using eff assms(3) by auto
    have "x = result_from_context (ctx s2)" "s' = s2"
      using run load none p acc Inr
      by (auto simp: submit_human_response_def load_context_def prog_simps envE_def updE_def ctxE_def)
    moreover have "replan_required (accepted p resp h c)
        = (replan_required c \<or> hr_action resp \<in> {REVISE, PROVIDE_INPUT})"
      by (cases "hr_action resp")
         (auto simp: accepted_def apply_response_def Let_def split: option.splits)
    moreover have "approved_step_ids (accepted p resp h c) = approved_step_ids c \<union>
                (if hr_action resp = APPROVE \<and> hi_kind p = APPROVAL
                 then set_option (hi_step_id p) else {})"
      by (cases "hr_action resp")
         (auto simp: accepted_def apply_response_def Let_def split: option.splits)
    ultimately show ?thesis
      using p h core_eq_fields(3,4,6,7,13,14,15,16) [OF h(3)]
      by (intro disjI2 exI [of _ p] exI [of _ h]) (auto simp: accepted_def Let_def)
  next
    case (Inl e)
    with run load none p acc show ?thesis
      by (cases e)
         (auto simp: submit_human_response_def load_context_def prog_simps envE_def updE_def
           ctxE_def stored_def split: prod.splits sum.splits option.splits if_splits)
  qed
qed

section \<open>Instances\<close>

definition demo_question :: interaction where
  "demo_question = \<lparr>hi_kind = APPROVAL, hi_prompt = ''q'', hi_allowed_actions = [APPROVE, REJECT],
     hi_interaction_id = ''i'', hi_step_id = Some ''s'', hi_metadata = [], hi_created_at = demo_time\<rparr>"

definition demo_answer :: response where
  "demo_answer = \<lparr>hr_interaction_id = ''i'', hr_action = APPROVE, hr_content = [],
     hr_idempotency_key = ''k'', hr_metadata = [], hr_responded_at = demo_time\<rparr>"

definition demo_waiting :: loop_context where
  "demo_waiting = demo_paused\<lparr>pending_interaction := Some demo_question\<rparr>"

definition demo_answered :: loop_context where
  "demo_answered = demo_paused\<lparr>human_interactions :=
     [\<lparr>hx_request = demo_question, hx_response = demo_answer, hx_recorded_at = demo_time\<rparr>]\<rparr>"

definition demo_submit :: "(exn + loop_result) \<times> unit loop_state" where
  "demo_submit = submit_human_response (demo_env (Some demo_waiting) True) ''r'' demo_answer demo_state"

lemma demo_submit_returns: "isl (fst demo_submit) = False"
  by code_simp

lemma demo_waiting_loads: "loads_ok (demo_env (Some demo_waiting) True)"
  by (rule demo_env_loads)
     (auto simp: demo_waiting_def demo_paused_def counters_ok_def new_LoopContext_def)

lemma demo_submit_run:
  obtains x where "submit_human_response (demo_env (Some demo_waiting) True) ''r'' demo_answer demo_state
    = (Inr x, snd demo_submit)" "fst demo_submit = Inr x"
proof (cases "fst demo_submit")
  case (Inl e)
  then show thesis using demo_submit_returns by simp
next
  case (Inr x)
  then show thesis
    using that [of x] prod.collapse [of demo_submit] by (simp add: demo_submit_def)
qed

lemma demo_load [simp]: "e_load (demo_env (Some c) p) rid w = (Inr (Some c), ())"
  by (simp add: demo_env_def)

theorem submit_again_witness:
  "submit_human_response (demo_env (Some demo_answered) True) ''r'' demo_answer demo_state
     = (Inr (result_from_context demo_answered), demo_state\<lparr>world := (), ctx := demo_answered\<rparr>)"
proof -
  have f: "find_response demo_answered (hr_idempotency_key demo_answer)
     = Some \<lparr>hx_request = demo_question, hx_response = demo_answer, hx_recorded_at = demo_time\<rparr>"
    by (simp add: demo_answered_def find_response_def demo_answer_def)
  have "same_response demo_answer demo_answer"
    by (simp add: same_response_def metadata_eq_def demo_answer_def)
  with submit_again [OF demo_load f] show ?thesis by simp
qed

theorem submit_refused_witness:
  "\<exists>msg. submit_human_response (demo_env (Some demo_paused) True) ''r'' demo_answer demo_state
     = (Inl (HumanNotPending msg), demo_state\<lparr>world := (), ctx := demo_paused\<rparr>)"
  by (rule submit_refused [OF demo_load])
     (simp_all add: demo_paused_def new_LoopContext_def find_response_def)

theorem submit_records_witness: "\<exists>x. fst demo_submit = Inr x \<and> with_key demo_answer x"
proof -
  obtain x where x: "submit_human_response (demo_env (Some demo_waiting) True) ''r'' demo_answer demo_state
    = (Inr x, snd demo_submit)" "fst demo_submit = Inr x"
    by (rule demo_submit_run)
  have "same_response demo_answer demo_answer"
    by (simp add: same_response_def metadata_eq_def demo_answer_def)
  from submit_records [OF demo_env_ordinary demo_waiting_loads demo_state_trace this x(1)] x(2)
  show ?thesis by blast
qed

theorem submit_accepts_witness:
  "\<exists>x. fst demo_submit = Inr x
     \<and> (stored (demo_env (Some demo_waiting) True) ''r'' x
        \<or> pending_interaction (ctx (snd demo_submit)) = None
          \<and> approved_step_ids (ctx (snd demo_submit)) = {''s''}
          \<and> audited demo_waiting (trace (snd demo_submit)))"
proof -
  obtain x where x: "submit_human_response (demo_env (Some demo_waiting) True) ''r'' demo_answer demo_state
    = (Inr x, snd demo_submit)" "fst demo_submit = Inr x"
    by (rule demo_submit_run)
  have none: "find_response demo_waiting (hr_idempotency_key demo_answer) = None"
    and p: "response_guard demo_waiting demo_answer = Inr demo_question"
    and "approved_step_ids demo_waiting = {}"
    by (simp_all add: find_response_def demo_waiting_def demo_paused_def new_LoopContext_def
        response_guard_def demo_question_def demo_answer_def)
  moreover have "hr_action demo_answer = APPROVE" "hi_kind demo_question = APPROVAL"
    "hi_step_id demo_question = Some ''s''"
    by (simp_all add: demo_answer_def demo_question_def)
  ultimately show ?thesis
    using submit_accepts [OF demo_env_ordinary demo_waiting_loads demo_state_trace demo_load none x(1)] x(2)
    by auto
qed


end
