(* ===== verification/LoopFindings.thy ===== *)
theory LoopFindings
  imports LoopHuman LoopApproval
begin

text \<open>
  Behaviours of the controller that its documentation does not intend, each shown by running
  the model on a concrete environment.
\<close>

text \<open>A crash after a save: the stored context is the saved one under its new revision.\<close>

fun crash_points :: "action list \<Rightarrow> loop_context list" where
  "crash_points [] = []"
| "crash_points (Saved c rv # tr) = c\<lparr>revision := rv\<rparr> # crash_points tr"
| "crash_points (_ # tr) = crash_points tr"

text \<open>\<open>recovered_as c p\<close>: the status that recovery from \<open>c\<close> answers when the verifier says \<open>p\<close>.\<close>

definition recovered_as :: "loop_context \<Rightarrow> bool \<Rightarrow> loop_status option" where
  "recovered_as c p =
     (case fst (recover (demo_env (Some c) p) ''r'' ''p'' ''v'' demo_state) of
        Inl _ \<Rightarrow> None | Inr x \<Rightarrow> Some (lr_status x))"

text \<open>
  A step whose verification failed can end as a completed run. The controller saves the
  failed record with the plan still in place and the cursor behind the step, and drops the plan
  only in the next save; when the process dies between the two, \<open>recover\<close> goes on behind the
  failed step. With a plan of one step it reports \<open>COMPLETED\<close> although the verifier refused
  every result.
\<close>

theorem recover_completes_failed_step:
  "list_ex (\<lambda>c. records c \<noteq> [] \<and> list_all (\<lambda>r. \<not> passed (rec_verification r)) (records c)
      \<and> recovered_as c False = Some COMPLETED) (crash_points (trace (snd (demo_run False))))"
  by code_simp

text \<open>The verifier runs out of budget once; afterwards everything works again.\<close>

definition demo_budget_env :: "unit loop_env" where
  "demo_budget_env = (demo_env None True)
     \<lparr>e_verify := \<lambda>_ _ _ _ w. (Inr (Done (Inl (ResourceLimit ''BudgetExceededError'' ''b''))), w)\<rparr>"

definition demo_generous :: loop_request where
  "demo_generous = demo_request\<lparr>limits := (limits demo_request)\<lparr>max_cycles := 5, max_attempts := 5\<rparr>\<rparr>"

definition budget_stop :: "(exn + loop_result) \<times> unit loop_state" where
  "budget_stop = run demo_budget_env demo_generous ''p'' ''v'' (Some ''r'') demo_state"

definition budget_checkpoint :: loop_context where
  "budget_checkpoint = last (crash_points (trace (snd budget_stop)))"

text \<open>
  A run that stopped because the budget ended during a verification can not be resumed,
  although its status says so: the stored result makes \<open>resume\<close> go straight to the verifier, a
  transition that \<open>BLOCKED\<close> does not have, and the run is failed; asking for a new plan fails
  as well, because the stored result belongs to the old plan.
\<close>

theorem budget_stop_not_resumable:
  "map_sum id (\<lambda>x. (lr_status x, lr_stop_reason x)) (fst budget_stop)
       = Inr (BLOCKED, Some SR_BUDGET_EXHAUSTED)
   \<and> fst (resume (demo_env (Some budget_checkpoint) True) ''r'' CONTINUE ''p'' ''v'' demo_state)
       = Inl (InvalidTransition BLOCKED VERIFYING)
   \<and> (case fst (resume (demo_env (Some budget_checkpoint) True) ''r'' REPLAN ''p'' ''v'' demo_state) of
        Inl (LoopNotResumable _) \<Rightarrow> True | _ \<Rightarrow> False)"
proof (intro conjI)
  show "map_sum id (\<lambda>x. (lr_status x, lr_stop_reason x)) (fst budget_stop)
       = Inr (BLOCKED, Some SR_BUDGET_EXHAUSTED)"
    by code_simp
  show "fst (resume (demo_env (Some budget_checkpoint) True) ''r'' CONTINUE ''p'' ''v'' demo_state)
       = Inl (InvalidTransition BLOCKED VERIFYING)"
    by code_simp
  show "case fst (resume (demo_env (Some budget_checkpoint) True) ''r'' REPLAN ''p'' ''v'' demo_state) of
        Inl (LoopNotResumable _) \<Rightarrow> True | _ \<Rightarrow> False"
    by code_simp
qed

text \<open>The publisher rejects the first event that announces a finished execution.\<close>

definition demo_publisher_env :: "nat loop_env" where
  "demo_publisher_env =
     \<lparr>e_now = (\<lambda>w. (demo_time, w)), e_mono = (\<lambda>w. (0, w)), e_uuid = (\<lambda>w. (''u'', w)),
      e_wait = (\<lambda>_ w. (Inr (), w)), e_reap = (\<lambda>w. (Inr (), w)), e_cancels = (\<lambda>w. ([], w)),
      e_save = (\<lambda>c rv w. (Inr (rv + 1), w)), e_load = (\<lambda>_ w. (Inr None, w)), e_prepare = None,
      e_publish = (\<lambda>ev w. if ev_type ev = EXECUTION_COMPLETED \<and> w = 0
                         then (Inl (RuntimeError ''bus''), 1) else (Inr (), w)),
      e_can_continue = (\<lambda>_ w. (Inr True, w)),
      e_plan = (\<lambda>_ _ w. (Inr (Done (Inr demo_plan)), w)),
      e_execute = (\<lambda>_ _ _ w. (Inr (Done (Inr demo_execution)), w)),
      e_verify = (\<lambda>_ _ _ _ w. (Inr (Done (Inr (demo_verification True))), w)),
      e_decide = (\<lambda>_ _ w. (Inr (Done (Inr APPROVED)), w)), e_evaluate = None,
      e_retry = (\<lambda>_ _ _ w. (Inr \<lparr>rd_action = RA_RETRY, delay_seconds = Fin 0\<rparr>, w)),
      e_sleep = (\<lambda>_ w. (Inr (Done (Inr ())), w)), heartbeat_interval = 5, poll_interval = 1\<rparr>"

definition demo_two_attempts :: loop_request where
  "demo_two_attempts = demo_request\<lparr>limits := (limits demo_request)\<lparr>max_attempts := 2\<rparr>\<rparr>"

definition publisher_run :: "(exn + loop_result) \<times> nat loop_state" where
  "publisher_run = run demo_publisher_env demo_two_attempts ''p'' ''v'' (Some ''r'')
     \<lparr>ctx = new_LoopContext demo_two_attempts ''r'' demo_time demo_time, world = 0,
      cancelled = {}, trace = []\<rparr>"

text \<open>
  An error of the event publisher after a successful execution is given to the retry policy
  like an error of the executor, and a policy that retries runs the executor again: one failed
  publication makes one step execute twice, under the same operation identifier, although the
  executor never failed.
\<close>

theorem publisher_error_repeats_execution:
  "map_sum id lr_status (fst publisher_run) = Inr COMPLETED
   \<and> calls is_executor_call (trace (snd publisher_run)) = 2"
proof
  show "map_sum id lr_status (fst publisher_run) = Inr COMPLETED"
    by code_simp
  have "length (filter is_executor_call (trace (snd publisher_run))) = 2"
    by code_simp
  then show "calls is_executor_call (trace (snd publisher_run)) = 2"
    by (simp add: calls_def)
qed

end
