(* ===== verification/CheckpointStore.thy ===== *)
theory CheckpointStore
  imports LoopModels
begin

text \<open>
  The \<open>CheckpointStore\<close> protocol of \<open>matterloop_core/protocols/interfaces.py\<close> as a locale, with
  what its documentation promises, and its in-process implementation
  \<open>InMemoryCheckpointStore\<close> of \<open>matterloop_memory/in_memory.py\<close>.
\<close>

section \<open>The interface\<close>

text \<open>
  \<open>save\<close> compares the stored revision with the expected one (\<open>None\<close>: the context's own) and
  returns the committed revision, which is greater; a stored revision that differs raises
  \<open>CheckpointConflictError\<close> and leaves the store alone. A run that was never saved has
  revision 0.
\<close>

locale checkpoint_store =
  fixes save :: "loop_context \<Rightarrow> int option \<Rightarrow> 's \<Rightarrow> (exn + int) \<times> 's"
    and load :: "string \<Rightarrow> 's \<Rightarrow> loop_context option"
    and delete :: "string \<Rightarrow> 's \<Rightarrow> bool \<times> 's"
  assumes save_stores:
    "save c ex s = (Inr r, s') \<Longrightarrow> load (run_id c) s' = Some (c\<lparr>revision := r\<rparr>)"
    and save_advances:
    "save c ex s = (Inr r, s') \<Longrightarrow> (case ex of None \<Rightarrow> revision c | Some e \<Rightarrow> e) < r"
    and save_frame:
    "save c ex s = (Inr r, s') \<Longrightarrow> rid \<noteq> run_id c \<Longrightarrow> load rid s' = load rid s"
    and save_cas:
    "save c ex s = (Inr r, s') \<Longrightarrow>
       (case load (run_id c) s of None \<Rightarrow> 0 | Some d \<Rightarrow> revision d) =
       (case ex of None \<Rightarrow> revision c | Some e \<Rightarrow> e)"
    and save_error: "save c ex s = (Inl e, s') \<Longrightarrow> s' = s"
    and load_run_id: "load rid s = Some c \<Longrightarrow> run_id c = rid"
    and delete_load: "delete rid s = (b, s') \<Longrightarrow> load rid' s' = (if rid' = rid then None else load rid' s)"
    and delete_result: "fst (delete rid s) \<longleftrightarrow> load rid s \<noteq> None"
begin

text \<open>Two writers that observed the same revision cannot both commit.\<close>

lemma no_lost_update:
  assumes "save c (Some e) s = (Inr r, s')" and "run_id d = run_id c"
  shows "\<exists>x. save d (Some e) s' = (Inl x, s')"
proof (cases "save d (Some e) s'")
  case (Pair res s'')
  show ?thesis
  proof (cases res)
    case (Inl x)
    then show ?thesis using Pair save_error by blast
  next
    case (Inr r')
    with Pair have "save d (Some e) s' = (Inr r', s'')" by simp
    from save_cas [OF this] have "revision (the (load (run_id c) s')) = e"
      using save_stores [OF assms(1)] assms(2) by simp
    moreover have "e < r" using save_advances [OF assms(1)] by simp
    ultimately show ?thesis using save_stores [OF assms(1)] by simp
  qed
qed

text \<open>The revision of a run only grows along successful saves.\<close>

lemma save_monotone:
  assumes "save c ex s = (Inr r, s')" and "load (run_id c) s = Some d"
  shows "revision d < revision (the (load (run_id c) s'))"
  using save_cas [OF assms(1)] save_advances [OF assms(1)] save_stores [OF assms(1)] assms(2)
  by (cases ex) auto

lemma load_after_delete: "load rid (snd (delete rid s)) = None"
  using delete_load [of rid s "fst (delete rid s)" "snd (delete rid s)" rid] by simp

end

section \<open>\<open>InMemoryCheckpointStore\<close>\<close>

text \<open>
  The store is the dictionary of isolated snapshots; its asyncio lock makes every method one
  atomic step, so a method is a function of the dictionary. The dictionary is indexed by the
  run identifier of the context it holds, an invariant of \<open>save\<close> that \<open>mem_store\<close> carries.
\<close>

definition mem_store_ok :: "(string, loop_context) dict \<Rightarrow> bool" where
  "mem_store_ok d \<longleftrightarrow> dict_ok d \<and> (\<forall>(k, c) \<in> set d. run_id c = k)"

typedef mem_store = "{d :: (string, loop_context) dict. mem_store_ok d}"
  by (rule exI [where x = "[]"]) (simp add: mem_store_ok_def)

setup_lifting type_definition_mem_store

definition save_dict ::
  "loop_context \<Rightarrow> int option \<Rightarrow> (string, loop_context) dict
   \<Rightarrow> (exn + int) \<times> (string, loop_context) dict" where
  "save_dict c expected_revision d =
     (let expected = (case expected_revision of None \<Rightarrow> revision c | Some e \<Rightarrow> e) in
      if expected < 0 then (Inl (ValueError ''expected_revision must not be negative''), d)
      else
        let current = dict_get d (run_id c);
            current_revision = (case current of None \<Rightarrow> 0 | Some x \<Rightarrow> revision x) in
        if current_revision \<noteq> expected then
          (Inl (CheckpointConflict (''checkpoint revision conflict for '' @ run_id c)), d)
        else
          let rv = expected + 1;
              snap = (snapshot c)\<lparr>revision := rv\<rparr> in
          (Inr rv, dict_set (run_id c) snap d))"

definition load_dict :: "string \<Rightarrow> (string, loop_context) dict \<Rightarrow> loop_context option" where
  "load_dict rid d = map_option snapshot (dict_get d rid)"

definition delete_dict ::
  "string \<Rightarrow> (string, loop_context) dict \<Rightarrow> bool \<times> (string, loop_context) dict" where
  "delete_dict rid d = (dict_get d rid \<noteq> None, dict_del rid d)"

definition list_run_ids :: "(string, loop_context) dict \<Rightarrow> string list" where
  "list_run_ids d = sort (dict_keys d)"

lemma mem_store_ok_get: "mem_store_ok d \<Longrightarrow> dict_get d k = Some c \<Longrightarrow> run_id c = k"
  by (auto simp: mem_store_ok_def dict_get_iff)

lemma mem_store_ok_iff:
  "mem_store_ok d \<longleftrightarrow> dict_ok d \<and> (\<forall>k c. dict_get d k = Some c \<longrightarrow> run_id c = k)"
  by (auto simp: mem_store_ok_def dict_get_iff)

lemma save_dict_ok:
  assumes "mem_store_ok d"
  shows "mem_store_ok (snd (save_dict c ex d))"
  using assms by (auto simp: save_dict_def Let_def mem_store_ok_iff)

lemma delete_dict_ok: "mem_store_ok d \<Longrightarrow> mem_store_ok (snd (delete_dict rid d))"
  by (auto simp: delete_dict_def mem_store_ok_iff)

lift_definition mem_save :: "loop_context \<Rightarrow> int option \<Rightarrow> mem_store \<Rightarrow> mem_store"
  is "\<lambda>c ex d. snd (save_dict c ex d)"
  by (rule save_dict_ok)

lift_definition mem_delete :: "string \<Rightarrow> mem_store \<Rightarrow> mem_store"
  is "\<lambda>rid d. snd (delete_dict rid d)"
  by (rule delete_dict_ok)

definition store_save :: "loop_context \<Rightarrow> int option \<Rightarrow> mem_store \<Rightarrow> (exn + int) \<times> mem_store" where
  "store_save c ex s = (fst (save_dict c ex (Rep_mem_store s)), mem_save c ex s)"

definition store_load :: "string \<Rightarrow> mem_store \<Rightarrow> loop_context option" where
  "store_load rid s = load_dict rid (Rep_mem_store s)"

definition store_delete :: "string \<Rightarrow> mem_store \<Rightarrow> bool \<times> mem_store" where
  "store_delete rid s = (fst (delete_dict rid (Rep_mem_store s)), mem_delete rid s)"

lemma Rep_mem_store_ok [simp]: "mem_store_ok (Rep_mem_store s)"
  using Rep_mem_store by simp

lemma store_save_run:
  "store_save c ex s = (r, s') \<longleftrightarrow>
     save_dict c ex (Rep_mem_store s) = (r, Rep_mem_store s')"
  by (auto simp: store_save_def mem_save.rep_eq Rep_mem_store_inject [symmetric] prod_eq_iff)

lemma store_delete_run:
  "store_delete rid s = (b, s') \<longleftrightarrow>
     delete_dict rid (Rep_mem_store s) = (b, Rep_mem_store s')"
  by (auto simp: store_delete_def mem_delete.rep_eq Rep_mem_store_inject [symmetric] prod_eq_iff)

interpretation mem: checkpoint_store store_save store_load store_delete
proof
  fix c :: loop_context and ex s r s' rid
  assume save: "store_save c ex s = (Inr r, s')"
  show "store_load (run_id c) s' = Some (c\<lparr>revision := r\<rparr>)"
    using save by (auto simp: store_save_run store_load_def load_dict_def save_dict_def Let_def
        split: if_splits dest: sym)
  show "(case ex of None \<Rightarrow> revision c | Some e \<Rightarrow> e) < r"
    using save by (auto simp: store_save_run save_dict_def Let_def split: if_splits)
  show "store_load rid s' = store_load rid s" if "rid \<noteq> run_id c"
    using save that by (auto simp: store_save_run store_load_def load_dict_def save_dict_def Let_def
        split: if_splits dest: sym)
  show "(case store_load (run_id c) s of None \<Rightarrow> 0 | Some d \<Rightarrow> revision d) =
        (case ex of None \<Rightarrow> revision c | Some e \<Rightarrow> e)"
    using save by (auto simp: store_save_run store_load_def load_dict_def save_dict_def Let_def
        split: if_splits option.splits)
next
  fix c ex s e s'
  assume "store_save c ex s = (Inl e, s')"
  then show "s' = s"
    by (auto simp: store_save_run save_dict_def Let_def Rep_mem_store_inject split: if_splits)
next
  fix rid s c
  assume "store_load rid s = Some c"
  then show "run_id c = rid"
    by (auto simp: store_load_def load_dict_def intro: mem_store_ok_get [OF Rep_mem_store_ok])
next
  fix rid s b s' rid'
  assume "store_delete rid s = (b, s')"
  then have "Rep_mem_store s' = dict_del rid (Rep_mem_store s)"
    by (simp add: store_delete_run delete_dict_def)
  then show "store_load rid' s' = (if rid' = rid then None else store_load rid' s)"
    by (simp add: store_load_def load_dict_def)
next
  fix rid s
  show "fst (store_delete rid s) = (store_load rid s \<noteq> None)"
    by (simp add: store_delete_def delete_dict_def store_load_def load_dict_def)
qed

end
