(* ===== verification/Usage.thy ===== *)
theory Usage
  imports Prelude
begin

text \<open>
  The usage ledger of \<open>matterloop_policies/usage.py\<close> with the limits of \<open>budget.py\<close>: amounts of
  counted resources, reservations over several scopes, their settlement. A method of
  \<open>UsageLedger\<close> is a function of the ledger to a result and the new ledger; its lock makes it
  one atomic step.
\<close>

section \<open>Amounts\<close>

datatype usage_error =
    UE_Value string
  | UE_Reservation string
  | UE_Limit string string int int int
  | UE_Key string

text \<open>
  \<open>costs_micros\<close> is a read-only mapping that is compared and queried, never iterated in an
  observable order: the model keeps it as an association list sorted by currency.
\<close>

record usage_amount =
  model_calls :: int
  input_tokens :: int
  output_tokens :: int
  total_tokens :: int
  cache_hit_tokens :: int
  cache_miss_tokens :: int
  reasoning_tokens :: int
  tool_calls :: int
  agent_tasks :: int
  attempts :: int
  costs_micros :: "(string, int) dict"

definition currency_of :: "string \<Rightarrow> string" where
  "currency_of s = upper (strip s)"

fun freeze_items ::
  "(string, int) dict \<Rightarrow> (string \<times> int) list \<Rightarrow> usage_error + (string, int) dict" where
  "freeze_items acc [] = Inr acc"
| "freeze_items acc ((raw, v) # items) =
     (let cur = currency_of raw in
      if cur = [] then Inl (UE_Value ''currency must not be empty'')
      else if v < 0 then Inl (UE_Value ''cost must not be negative'')
      else freeze_items
        (if v \<noteq> 0 then dict_set cur (case dict_get acc cur of None \<Rightarrow> v | Some x \<Rightarrow> x + v) acc
         else acc) items)"

definition freeze_costs :: "(string \<times> int) list \<Rightarrow> usage_error + (string, int) dict" where
  "freeze_costs items = map_sum id (sort_key fst) (freeze_items [] items)"

definition counters :: "usage_amount \<Rightarrow> int list" where
  "counters a = [model_calls a, input_tokens a, output_tokens a, total_tokens a, cache_hit_tokens a,
     cache_miss_tokens a, reasoning_tokens a, tool_calls a, agent_tasks a, attempts a]"

text \<open>\<open>UsageAmount.__post_init__\<close>: the argument holds the raw items of the costs.\<close>

definition new_UsageAmount :: "usage_amount \<Rightarrow> usage_error + usage_amount" where
  "new_UsageAmount a =
     (if list_ex (\<lambda>x. x < 0) (counters a)
      then Inl (UE_Value ''usage values must not be negative'')
      else map_sum id (\<lambda>cs. a\<lparr>costs_micros := cs\<rparr>) (freeze_costs (costs_micros a)))"

definition cost_for :: "usage_amount \<Rightarrow> string \<Rightarrow> int" where
  "cost_for a cur = (case dict_get (costs_micros a) (currency_of cur) of None \<Rightarrow> 0 | Some v \<Rightarrow> v)"

definition cost_micros :: "usage_amount \<Rightarrow> int" where
  "cost_micros a = cost_for a ''USD''"

definition is_zero :: "usage_amount \<Rightarrow> bool" where
  "is_zero a \<longleftrightarrow> \<not> list_ex (\<lambda>x. x \<noteq> 0) (counters a @ dict_values (costs_micros a))"

definition zero_amount :: usage_amount where
  "zero_amount = \<lparr>model_calls = 0, input_tokens = 0, output_tokens = 0, total_tokens = 0,
     cache_hit_tokens = 0, cache_miss_tokens = 0, reasoning_tokens = 0, tool_calls = 0,
     agent_tasks = 0, attempts = 0, costs_micros = []\<rparr>"

text \<open>\<open>_add\<close> and \<open>_subtract\<close>, for an operation on the counters.\<close>

definition combine :: "(int \<Rightarrow> int \<Rightarrow> int) \<Rightarrow> usage_amount \<Rightarrow> usage_amount \<Rightarrow> usage_error + usage_amount" where
  "combine f l r = new_UsageAmount
     \<lparr>model_calls = f (model_calls l) (model_calls r),
      input_tokens = f (input_tokens l) (input_tokens r),
      output_tokens = f (output_tokens l) (output_tokens r),
      total_tokens = f (total_tokens l) (total_tokens r),
      cache_hit_tokens = f (cache_hit_tokens l) (cache_hit_tokens r),
      cache_miss_tokens = f (cache_miss_tokens l) (cache_miss_tokens r),
      reasoning_tokens = f (reasoning_tokens l) (reasoning_tokens r),
      tool_calls = f (tool_calls l) (tool_calls r),
      agent_tasks = f (agent_tasks l) (agent_tasks r),
      attempts = f (attempts l) (attempts r),
      costs_micros = map (\<lambda>c. (c, f (cost_for l c) (cost_for r c)))
        (remdups (dict_keys (costs_micros l) @ dict_keys (costs_micros r)))\<rparr>"

definition add_amounts :: "usage_amount \<Rightarrow> usage_amount \<Rightarrow> usage_error + usage_amount" where
  "add_amounts = combine (+)"

definition subtract_amounts :: "usage_amount \<Rightarrow> usage_amount \<Rightarrow> usage_error + usage_amount" where
  "subtract_amounts = combine (-)"

section \<open>Limits\<close>

record budget_limits =
  max_model_calls :: "int option"
  max_concurrent_model_calls :: "int option"
  max_attempts :: "int option"
  max_executor_attempts :: "int option"
  max_input_tokens :: "int option"
  max_output_tokens :: "int option"
  max_total_tokens :: "int option"
  max_cache_hit_tokens :: "int option"
  max_cache_miss_tokens :: "int option"
  max_reasoning_tokens :: "int option"
  max_cost_micros :: "int option"
  cost_currency :: string
  max_tool_calls :: "int option"
  max_agent_tasks :: "int option"

definition limit_values :: "budget_limits \<Rightarrow> int option list" where
  "limit_values b = [max_model_calls b, max_concurrent_model_calls b, max_attempts b,
     max_input_tokens b, max_output_tokens b, max_total_tokens b, max_cache_hit_tokens b,
     max_cache_miss_tokens b, max_reasoning_tokens b, max_cost_micros b, max_tool_calls b,
     max_agent_tasks b]"

definition new_BudgetLimits :: "budget_limits \<Rightarrow> usage_error + budget_limits" where
  "new_BudgetLimits b =
     (if max_attempts b \<noteq> None \<and> max_executor_attempts b \<noteq> None
         \<and> max_attempts b \<noteq> max_executor_attempts b
      then Inl (UE_Value ''attempt limit aliases must match'')
      else let attempt_limit = (if max_attempts b \<noteq> None then max_attempts b
                                else max_executor_attempts b);
               b' = b\<lparr>max_attempts := attempt_limit, max_executor_attempts := attempt_limit\<rparr> in
        if list_ex (\<lambda>v. case v of None \<Rightarrow> False | Some x \<Rightarrow> x < 1) (limit_values b')
        then Inl (UE_Value ''budget limits must be positive'')
        else if currency_of (cost_currency b) = []
        then Inl (UE_Value ''cost currency must not be empty'')
        else Inr (b'\<lparr>cost_currency := currency_of (cost_currency b)\<rparr>))"

section \<open>The ledger\<close>

record reservation =
  reservation_id :: string
  scopes :: "string list"
  amount :: usage_amount

record scope_state =
  committed :: usage_amount
  reserved :: usage_amount
  active_model_calls :: int

definition new_scope_state :: scope_state where
  "new_scope_state = \<lparr>committed = zero_amount, reserved = zero_amount, active_model_calls = 0\<rparr>"

record ledger =
  default_limits :: "budget_limits option"
  scope_limits :: "(string, budget_limits) dict"
  states :: "(string, scope_state) dict"
  reservations :: "(string, reservation) dict"

definition new_ledger :: "budget_limits option \<Rightarrow> ledger" where
  "new_ledger d = \<lparr>default_limits = d, scope_limits = [], states = [], reservations = []\<rparr>"

definition normalize_scope :: "string \<Rightarrow> usage_error + string" where
  "normalize_scope s =
     (if strip s = [] then Inl (UE_Value ''usage scope must not be empty'') else Inr (strip s))"

fun normalize_all :: "string list \<Rightarrow> usage_error + string list" where
  "normalize_all [] = Inr []"
| "normalize_all (s # ss) =
     (case normalize_scope s of
        Inl e \<Rightarrow> Inl e
      | Inr t \<Rightarrow> (case normalize_all ss of Inl e \<Rightarrow> Inl e | Inr ts \<Rightarrow> Inr (t # ts)))"

definition normalize_scopes :: "string list \<Rightarrow> usage_error + string list" where
  "normalize_scopes ss =
     (if ss = [] then Inl (UE_Value ''at least one usage scope is required'')
      else case normalize_all ss of
        Inl e \<Rightarrow> Inl e
      | Inr ts \<Rightarrow> if distinct ts then Inr ts
                  else Inl (UE_Value ''usage scopes must not contain duplicates''))"

definition state_of :: "ledger \<Rightarrow> string \<Rightarrow> scope_state" where
  "state_of L scope = (case dict_get (states L) scope of None \<Rightarrow> new_scope_state | Some st \<Rightarrow> st)"

definition limits_of :: "ledger \<Rightarrow> string \<Rightarrow> budget_limits option" where
  "limits_of L scope =
     (case dict_get (scope_limits L) scope of None \<Rightarrow> default_limits L | Some b \<Rightarrow> Some b)"

text \<open>The rows of \<open>checks\<close>: resource, projected value, current value, limit.\<close>

definition limit_checks ::
  "scope_state \<Rightarrow> usage_amount \<Rightarrow> usage_amount \<Rightarrow> usage_amount \<Rightarrow> budget_limits
   \<Rightarrow> (string \<times> int \<times> int \<times> int option) list" where
  "limit_checks st req cur proj b =
     [(''model_calls'', model_calls proj, model_calls cur, max_model_calls b),
      (''concurrent_model_calls'', active_model_calls st + model_calls req, active_model_calls st,
         max_concurrent_model_calls b),
      (''input_tokens'', input_tokens proj, input_tokens cur, max_input_tokens b),
      (''output_tokens'', output_tokens proj, output_tokens cur, max_output_tokens b),
      (''total_tokens'', total_tokens proj, total_tokens cur, max_total_tokens b),
      (''cache_hit_tokens'', cache_hit_tokens proj, cache_hit_tokens cur, max_cache_hit_tokens b),
      (''cache_miss_tokens'', cache_miss_tokens proj, cache_miss_tokens cur, max_cache_miss_tokens b),
      (''reasoning_tokens'', reasoning_tokens proj, reasoning_tokens cur, max_reasoning_tokens b),
      (''tool_calls'', tool_calls proj, tool_calls cur, max_tool_calls b),
      (''agent_tasks'', agent_tasks proj, agent_tasks cur, max_agent_tasks b),
      (''attempts'', attempts proj, attempts cur, max_attempts b),
      (''cost_micros:'' @ cost_currency b, cost_for proj (cost_currency b),
         cost_for cur (cost_currency b), max_cost_micros b)]"

fun first_violation ::
  "string \<Rightarrow> (string \<times> int \<times> int \<times> int option) list \<Rightarrow> usage_error option" where
  "first_violation scope [] = None"
| "first_violation scope ((rs, val, cur, bound) # rows) =
     (case bound of
        None \<Rightarrow> first_violation scope rows
      | Some l \<Rightarrow> if val > l then Some (UE_Limit scope rs l cur (val - cur))
                  else first_violation scope rows)"

definition check_limits ::
  "string \<Rightarrow> scope_state \<Rightarrow> usage_amount \<Rightarrow> budget_limits \<Rightarrow> usage_error + unit" where
  "check_limits scope st req b =
     (case add_amounts (committed st) (reserved st) of
        Inl e \<Rightarrow> Inl e
      | Inr cur \<Rightarrow> (case add_amounts cur req of
          Inl e \<Rightarrow> Inl e
        | Inr proj \<Rightarrow> (case first_violation scope (limit_checks st req cur proj b) of
            None \<Rightarrow> Inr () | Some e \<Rightarrow> Inl e)))"

fun check_scopes :: "ledger \<Rightarrow> usage_amount \<Rightarrow> string list \<Rightarrow> usage_error + unit" where
  "check_scopes L a [] = Inr ()"
| "check_scopes L a (scope # ss) =
     (case (case limits_of L scope of None \<Rightarrow> Inr () | Some b \<Rightarrow> check_limits scope (state_of L scope) a b) of
        Inl e \<Rightarrow> Inl e | Inr _ \<Rightarrow> check_scopes L a ss)"

text \<open>
  The loops over the scope states. \<open>states.setdefault\<close> inserts an empty state where there is none,
  \<open>states[scope]\<close> raises \<open>KeyError\<close>; what a scope has changed before an error stays changed.
\<close>

definition state_default :: "string \<Rightarrow> ledger \<Rightarrow> (usage_error + scope_state) \<times> ledger" where
  "state_default scope L = (Inr (state_of L scope), L\<lparr>states := dict_set scope (state_of L scope) (states L)\<rparr>)"

definition state_at :: "string \<Rightarrow> ledger \<Rightarrow> (usage_error + scope_state) \<times> ledger" where
  "state_at scope L =
     ((case dict_get (states L) scope of None \<Rightarrow> Inl (UE_Key scope) | Some st \<Rightarrow> Inr st), L)"

fun update_scopes ::
  "(string \<Rightarrow> ledger \<Rightarrow> (usage_error + scope_state) \<times> ledger)
   \<Rightarrow> (scope_state \<Rightarrow> (usage_error + unit) \<times> scope_state) \<Rightarrow> string list
   \<Rightarrow> ledger \<Rightarrow> (usage_error + unit) \<times> ledger" where
  "update_scopes look f [] L = (Inr (), L)"
| "update_scopes look f (scope # ss) L =
     (case look scope L of
        (Inl e, L1) \<Rightarrow> (Inl e, L1)
      | (Inr st, L1) \<Rightarrow> (case f st of (res, st') \<Rightarrow>
          let L2 = L1\<lparr>states := dict_set scope st' (states L1)\<rparr> in
          (case res of Inl e \<Rightarrow> (Inl e, L2) | Inr _ \<Rightarrow> update_scopes look f ss L2)))"

definition hold :: "usage_amount \<Rightarrow> scope_state \<Rightarrow> (usage_error + unit) \<times> scope_state" where
  "hold a st = (case add_amounts (reserved st) a of
       Inl e \<Rightarrow> (Inl e, st)
     | Inr x \<Rightarrow>
         (Inr (), st\<lparr>reserved := x, active_model_calls := active_model_calls st + model_calls a\<rparr>))"

definition release :: "usage_amount \<Rightarrow> scope_state \<Rightarrow> (usage_error + unit) \<times> scope_state" where
  "release a st = (case subtract_amounts (reserved st) a of
       Inl e \<Rightarrow> (Inl e, st)
     | Inr x \<Rightarrow>
         (Inr (), st\<lparr>reserved := x, active_model_calls := active_model_calls st - model_calls a\<rparr>))"

definition spend :: "usage_amount \<Rightarrow> scope_state \<Rightarrow> (usage_error + unit) \<times> scope_state" where
  "spend a st = (case add_amounts (committed st) a of
       Inl e \<Rightarrow> (Inl e, st) | Inr x \<Rightarrow> (Inr (), st\<lparr>committed := x\<rparr>))"

definition settle ::
  "usage_amount \<Rightarrow> usage_amount \<Rightarrow> scope_state \<Rightarrow> (usage_error + unit) \<times> scope_state" where
  "settle held actual st = (case release held st of
       (Inl e, st') \<Rightarrow> (Inl e, st') | (Inr _, st') \<Rightarrow> spend actual st')"

definition configure_scope ::
  "string \<Rightarrow> budget_limits \<Rightarrow> ledger \<Rightarrow> (usage_error + unit) \<times> ledger" where
  "configure_scope scope b L =
     (case normalize_scope scope of
        Inl e \<Rightarrow> (Inl e, L)
      | Inr n \<Rightarrow> (case check_limits n (state_of L n) zero_amount b of
          Inl e \<Rightarrow> (Inl e, L)
        | Inr _ \<Rightarrow> (Inr (), L\<lparr>scope_limits := dict_set n b (scope_limits L)\<rparr>)))"

definition limits_for :: "string \<Rightarrow> ledger \<Rightarrow> usage_error + budget_limits option" where
  "limits_for scope L = map_sum id (limits_of L) (normalize_scope scope)"

definition cost_limit_currencies :: "string list \<Rightarrow> ledger \<Rightarrow> usage_error + string set" where
  "cost_limit_currencies ss L = map_sum id
     (\<lambda>ns. set (concat (map (\<lambda>n. case limits_of L n of
        None \<Rightarrow> [] | Some b \<Rightarrow> if max_cost_micros b \<noteq> None then [cost_currency b] else []) ns)))
     (normalize_scopes ss)"

definition has_cost_limit :: "string list \<Rightarrow> ledger \<Rightarrow> usage_error + bool" where
  "has_cost_limit ss L = map_sum id (\<lambda>cs. cs \<noteq> {}) (cost_limit_currencies ss L)"

text \<open>\<open>rid\<close> is the given identifier or the fresh one of \<open>uuid4\<close>.\<close>

definition ledger_reserve ::
  "string list \<Rightarrow> usage_amount \<Rightarrow> string \<Rightarrow> ledger \<Rightarrow> (usage_error + reservation) \<times> ledger" where
  "ledger_reserve ss a rid L =
     (case normalize_scopes ss of
        Inl e \<Rightarrow> (Inl e, L)
      | Inr ns \<Rightarrow>
          if is_zero a then (Inl (UE_Value ''reservation amount must not be empty''), L)
          else if blank rid then (Inl (UE_Value ''reservation id must not be empty''), L)
          else if dict_has rid (reservations L)
          then (Inl (UE_Reservation ''reservation id already exists''), L)
          else (case check_scopes L a ns of
              Inl e \<Rightarrow> (Inl e, L)
            | Inr _ \<Rightarrow>
                let r = \<lparr>reservation_id = rid, scopes = ns, amount = a\<rparr> in
                (case update_scopes state_default (hold a) ns L of
                   (Inl e, L') \<Rightarrow> (Inl e, L')
                 | (Inr _, L') \<Rightarrow>
                     (Inr r, L'\<lparr>reservations := dict_set rid r (reservations L')\<rparr>))))"

definition require_reservation :: "reservation \<Rightarrow> ledger \<Rightarrow> usage_error + reservation" where
  "require_reservation r L =
     (case dict_get (reservations L) (reservation_id r) of
        None \<Rightarrow> Inl (UE_Reservation ''reservation is unknown or already finalized'')
      | Some stored \<Rightarrow>
          if stored \<noteq> r then Inl (UE_Reservation ''reservation is unknown or already finalized'')
          else Inr stored)"

fun first_current_violation :: "ledger \<Rightarrow> string list \<Rightarrow> usage_error option" where
  "first_current_violation L [] = None"
| "first_current_violation L (scope # ss) =
     (case limits_of L scope of
        None \<Rightarrow> first_current_violation L ss
      | Some b \<Rightarrow> (case dict_get (states L) scope of
          None \<Rightarrow> Some (UE_Key scope)
        | Some st \<Rightarrow> (case check_limits scope st zero_amount b of
            Inl e \<Rightarrow> Some e | Inr _ \<Rightarrow> first_current_violation L ss)))"

definition ledger_commit ::
  "reservation \<Rightarrow> usage_amount option \<Rightarrow> ledger \<Rightarrow> (usage_error + unit) \<times> ledger" where
  "ledger_commit r actual L =
     (let actual_amount = (case actual of None \<Rightarrow> amount r | Some a \<Rightarrow> a) in
      case require_reservation r L of
        Inl e \<Rightarrow> (Inl e, L)
      | Inr stored \<Rightarrow> (case update_scopes state_at (settle (amount stored) actual_amount) (scopes stored) L of
          (Inl e, L') \<Rightarrow> (Inl e, L')
        | (Inr _, L') \<Rightarrow>
            let L'' = L'\<lparr>reservations := dict_del (reservation_id stored) (reservations L')\<rparr> in
            (case first_current_violation L'' (scopes stored) of
               None \<Rightarrow> (Inr (), L'') | Some e \<Rightarrow> (Inl e, L''))))"

definition ledger_rollback :: "reservation \<Rightarrow> ledger \<Rightarrow> (usage_error + unit) \<times> ledger" where
  "ledger_rollback r L =
     (case require_reservation r L of
        Inl e \<Rightarrow> (Inl e, L)
      | Inr stored \<Rightarrow> (case update_scopes state_at (release (amount stored)) (scopes stored) L of
          (Inl e, L') \<Rightarrow> (Inl e, L')
        | (Inr _, L') \<Rightarrow>
            (Inr (), L'\<lparr>reservations := dict_del (reservation_id stored) (reservations L')\<rparr>)))"

definition ledger_consume :: "string list \<Rightarrow> usage_amount \<Rightarrow> ledger \<Rightarrow> (usage_error + unit) \<times> ledger" where
  "ledger_consume ss a L =
     (case normalize_scopes ss of
        Inl e \<Rightarrow> (Inl e, L)
      | Inr ns \<Rightarrow>
          if is_zero a then (Inr (), L)
          else (case check_scopes L a ns of
              Inl e \<Rightarrow> (Inl e, L)
            | Inr _ \<Rightarrow> update_scopes state_default (spend a) ns L))"

definition ledger_clear :: "string \<Rightarrow> ledger \<Rightarrow> (usage_error + unit) \<times> ledger" where
  "ledger_clear scope L =
     (case normalize_scope scope of
        Inl e \<Rightarrow> (Inl e, L)
      | Inr n \<Rightarrow>
          if (case dict_get (states L) n of None \<Rightarrow> False | Some st \<Rightarrow> active_model_calls st \<noteq> 0)
             \<or> list_ex (\<lambda>r. n \<in> set (scopes r)) (dict_values (reservations L))
          then (Inl (UE_Reservation ''cannot clear a scope with active reservations''), L)
          else (Inr (), L\<lparr>states := dict_del n (states L)\<rparr>))"

definition record_model_usage ::
  "string list \<Rightarrow> int \<Rightarrow> int \<Rightarrow> int option \<Rightarrow> int \<Rightarrow> int \<Rightarrow> int \<Rightarrow> int \<Rightarrow> string
   \<Rightarrow> ledger \<Rightarrow> (usage_error + unit) \<times> ledger" where
  "record_model_usage ss i out tot hit miss reasoning cost cur L =
     (case new_UsageAmount (zero_amount\<lparr>model_calls := 1, input_tokens := i, output_tokens := out,
         total_tokens := (case tot of None \<Rightarrow> i + out | Some t \<Rightarrow> t),
         cache_hit_tokens := hit, cache_miss_tokens := miss, reasoning_tokens := reasoning,
         costs_micros := [(cur, cost)]\<rparr>) of
        Inl e \<Rightarrow> (Inl e, L) | Inr a \<Rightarrow> ledger_consume ss a L)"

definition record_tool_call :: "string list \<Rightarrow> ledger \<Rightarrow> (usage_error + unit) \<times> ledger" where
  "record_tool_call ss = ledger_consume ss (zero_amount\<lparr>tool_calls := 1\<rparr>)"

definition record_agent_task :: "string list \<Rightarrow> ledger \<Rightarrow> (usage_error + unit) \<times> ledger" where
  "record_agent_task ss = ledger_consume ss (zero_amount\<lparr>agent_tasks := 1\<rparr>)"

definition record_attempt :: "string list \<Rightarrow> ledger \<Rightarrow> (usage_error + unit) \<times> ledger" where
  "record_attempt ss = ledger_consume ss (zero_amount\<lparr>attempts := 1\<rparr>)"

text \<open>A \<open>UsageSnapshot\<close> is the state of the scope; its validation rejects negative counts.\<close>

definition ledger_snapshot :: "string \<Rightarrow> ledger \<Rightarrow> usage_error + scope_state" where
  "ledger_snapshot scope L =
     (case normalize_scope scope of
        Inl e \<Rightarrow> Inl e
      | Inr n \<Rightarrow> let st = state_of L n in
          (case new_UsageAmount (committed st) of
             Inl e \<Rightarrow> Inl e
           | Inr current \<Rightarrow>
               if active_model_calls st < 0
               then Inl (UE_Value ''active model calls must not be negative'')
               else Inr (st\<lparr>committed := current\<rparr>)))"

section \<open>The budget policy\<close>

definition budget_checks :: "budget_limits \<Rightarrow> scope_state \<Rightarrow> (int \<times> int option) list" where
  "budget_checks b u =
     (let c = committed u; r = reserved u in
     [(model_calls c + model_calls r, max_model_calls b),
      (active_model_calls u, max_concurrent_model_calls b),
      (attempts c + attempts r, max_attempts b),
      (input_tokens c + input_tokens r, max_input_tokens b),
      (output_tokens c + output_tokens r, max_output_tokens b),
      (total_tokens c + total_tokens r, max_total_tokens b),
      (cache_hit_tokens c + cache_hit_tokens r, max_cache_hit_tokens b),
      (cache_miss_tokens c + cache_miss_tokens r, max_cache_miss_tokens b),
      (reasoning_tokens c + reasoning_tokens r, max_reasoning_tokens b),
      (cost_for c (cost_currency b) + cost_for r (cost_currency b), max_cost_micros b),
      (tool_calls c + tool_calls r, max_tool_calls b),
      (agent_tasks c + agent_tasks r, max_agent_tasks b)])"

definition budget_can_continue :: "budget_limits \<Rightarrow> ledger \<Rightarrow> string \<Rightarrow> usage_error + bool" where
  "budget_can_continue b L run_id = map_sum id
     (\<lambda>u. list_all (\<lambda>(val, bound). case bound of None \<Rightarrow> True | Some l \<Rightarrow> val < l) (budget_checks b u))
     (ledger_snapshot run_id L)"

end
