(* ===== verification/UsageFacts.thy ===== *)
theory UsageFacts
  imports Usage
begin

text \<open>
  The algebra of usage amounts and the invariant of the ledger. An amount is abstracted to the
  function \<open>res\<close> from resources to integers: addition and subtraction are pointwise, well-formed
  amounts are equal when they agree on every resource, and the limit checks of the code compare
  that function with \<open>cap\<close>.
\<close>

section \<open>Currencies\<close>

lemma of_char_upper: "of_char (upper_char c) =
    (if 97 \<le> (of_char c :: nat) \<and> of_char c \<le> (122 :: nat) then of_char c - 32 else (of_char c :: nat))"
  by (auto simp: upper_char_def Let_def)

lemma upper_char_idem [simp]: "upper_char (upper_char c) = upper_char c"
proof -
  have "\<not> (97 \<le> (of_char (upper_char c) :: nat) \<and> of_char (upper_char c) \<le> (122 :: nat))"
    by (auto simp: of_char_upper)
  then show ?thesis
    by (subst upper_char_def) (auto simp: Let_def)
qed

lemma is_space_upper [simp]: "is_space (upper_char c) = is_space c"
  by (auto simp: is_space_def of_char_upper Let_def)

lemma strip_upper: "strip (upper s) = upper (strip s)"
proof -
  have "is_space \<circ> upper_char = is_space"
    by (simp add: fun_eq_iff)
  then show ?thesis
    by (simp add: strip_def upper_def dropWhile_map rev_map)
qed

lemma upper_upper [simp]: "upper (upper s) = upper s"
  by (simp add: upper_def)

lemma currency_idem [simp]: "currency_of (currency_of s) = currency_of s"
  by (simp add: currency_of_def strip_upper)

section \<open>Resources\<close>

datatype resource =
    Model_Calls | Input_Tokens | Output_Tokens | Total_Tokens | Cache_Hit_Tokens
  | Cache_Miss_Tokens | Reasoning_Tokens | Tool_Calls | Agent_Tasks | Attempts | Cost string

fun res :: "resource \<Rightarrow> usage_amount \<Rightarrow> int" where
  "res Model_Calls a = model_calls a"
| "res Input_Tokens a = input_tokens a"
| "res Output_Tokens a = output_tokens a"
| "res Total_Tokens a = total_tokens a"
| "res Cache_Hit_Tokens a = cache_hit_tokens a"
| "res Cache_Miss_Tokens a = cache_miss_tokens a"
| "res Reasoning_Tokens a = reasoning_tokens a"
| "res Tool_Calls a = tool_calls a"
| "res Agent_Tasks a = agent_tasks a"
| "res Attempts a = attempts a"
| "res (Cost c) a = cost_for a c"

fun cap :: "resource \<Rightarrow> budget_limits \<Rightarrow> int option" where
  "cap Model_Calls b = max_model_calls b"
| "cap Input_Tokens b = max_input_tokens b"
| "cap Output_Tokens b = max_output_tokens b"
| "cap Total_Tokens b = max_total_tokens b"
| "cap Cache_Hit_Tokens b = max_cache_hit_tokens b"
| "cap Cache_Miss_Tokens b = max_cache_miss_tokens b"
| "cap Reasoning_Tokens b = max_reasoning_tokens b"
| "cap Tool_Calls b = max_tool_calls b"
| "cap Agent_Tasks b = max_agent_tasks b"
| "cap Attempts b = max_attempts b"
| "cap (Cost c) b =
     (if currency_of c = currency_of (cost_currency b) then max_cost_micros b else None)"

definition costs_ok :: "(string, int) dict \<Rightarrow> bool" where
  "costs_ok cs \<longleftrightarrow> sorted (dict_keys cs) \<and> dict_ok cs
     \<and> (\<forall>(c, v) \<in> set cs. currency_of c = c \<and> c \<noteq> [] \<and> 0 < v)"

definition amount_ok :: "usage_amount \<Rightarrow> bool" where
  "amount_ok a \<longleftrightarrow> (\<forall>x \<in> set (counters a). 0 \<le> x) \<and> costs_ok (costs_micros a)"

definition cost_at :: "(string, int) dict \<Rightarrow> string \<Rightarrow> int" where
  "cost_at d c = (case dict_get d c of None \<Rightarrow> 0 | Some v \<Rightarrow> v)"

lemma cost_for_at: "cost_for a c = cost_at (costs_micros a) (currency_of c)"
  by (simp add: cost_for_def cost_at_def)

lemma costs_ok_nonneg: "costs_ok d \<Longrightarrow> 0 \<le> cost_at d c"
  by (auto simp: cost_at_def costs_ok_def split: option.split dest!: map_of_SomeD)

lemma res_nonneg: "amount_ok a \<Longrightarrow> 0 \<le> res k a"
  by (cases k) (simp_all add: amount_ok_def counters_def cost_for_at costs_ok_nonneg)

lemma res_zero [simp]: "res k zero_amount = 0"
  by (cases k) (simp_all add: zero_amount_def cost_for_def)

lemma zero_ok [simp]: "amount_ok zero_amount"
  by (simp add: amount_ok_def zero_amount_def counters_def costs_ok_def)

section \<open>The constructor\<close>

definition items_at :: "(string \<times> int) list \<Rightarrow> string \<Rightarrow> int" where
  "items_at items c = sum_list (map snd (filter (\<lambda>(raw, v). currency_of raw = c) items))"

lemma items_at_simps [simp]:
  "items_at [] c = 0"
  "items_at ((raw, v) # items) c = (if currency_of raw = c then v else 0) + items_at items c"
  by (simp_all add: items_at_def)

definition entries_ok :: "(string, int) dict \<Rightarrow> bool" where
  "entries_ok d \<longleftrightarrow> dict_ok d \<and> (\<forall>(c, v) \<in> set d. currency_of c = c \<and> c \<noteq> [] \<and> 0 < v)"

lemma entries_ok_get: "entries_ok d \<Longrightarrow> dict_get d c = Some v \<Longrightarrow> currency_of c = c \<and> c \<noteq> [] \<and> 0 < v"
  by (auto simp: entries_ok_def dict_get_iff)

lemma entries_ok_set:
  assumes "entries_ok d" and "currency_of c = c" and "c \<noteq> []" and "0 < v"
  shows "entries_ok (dict_set c v d)"
  unfolding entries_ok_def
proof (intro conjI ballI)
  show ok: "dict_ok (dict_set c v d)"
    using assms by (simp add: entries_ok_def)
  fix x
  assume "x \<in> set (dict_set c v d)"
  then have "dict_get (dict_set c v d) (fst x) = Some (snd x)"
    using dict_get_iff [OF ok, of "fst x" "snd x"] by (simp del: dict_get_set)
  then show "case x of (c, v) \<Rightarrow> currency_of c = c \<and> c \<noteq> [] \<and> 0 < v"
    using assms by (cases x) (auto split: if_splits dest: entries_ok_get)
qed

lemma freeze_items_Inr:
  assumes "freeze_items acc items = Inr out" and "entries_ok acc"
  shows "entries_ok out \<and> (\<forall>c. cost_at out c = cost_at acc c + items_at items c)"
  using assms
proof (induction acc items arbitrary: out rule: freeze_items.induct)
  case (2 acc raw v items)
  let ?c = "currency_of raw"
  let ?acc = "if v \<noteq> 0 then dict_set ?c (case dict_get acc ?c of None \<Rightarrow> v | Some x \<Rightarrow> x + v) acc
         else acc"
  have c: "?c \<noteq> []" and v: "\<not> v < 0" and step: "freeze_items ?acc items = Inr out"
    using 2(2) by (auto simp: Let_def split: if_splits)
  have new: "entries_ok ?acc"
    using 2(3) c v
    by (auto intro!: entries_ok_set split: option.split dest: entries_ok_get)
  have "cost_at ?acc x = cost_at acc x + (if ?c = x then v else 0)" for x
    by (auto simp: cost_at_def split: option.splits)
  then show ?case
    using 2(1) [OF refl c v step new] by (auto simp: algebra_simps)
qed simp

lemma freeze_items_Inl:
  "\<lbrakk>\<forall>(raw, v) \<in> set items. currency_of raw \<noteq> [] \<and> 0 \<le> v\<rbrakk> \<Longrightarrow> \<exists>out. freeze_items acc items = Inr out"
  by (induction acc items rule: freeze_items.induct) (auto simp: Let_def)

lemma sort_key_get: "dict_ok d \<Longrightarrow> dict_get (sort_key fst d) = dict_get d"
  unfolding dict_ok_def
  by (rule map_of_inject_set [THEN iffD2])
    (metis distinct_map distinct_sort inj_on_def set_sort, assumption, simp)

lemma freeze_costs_Inr:
  assumes "freeze_costs items = Inr out"
  shows "costs_ok out \<and> (\<forall>c. cost_at out c = items_at items c)"
proof -
  obtain d where d: "freeze_items [] items = Inr d" and out: "out = sort_key fst d"
    using assms by (cases "freeze_items [] items") (auto simp: freeze_costs_def)
  have e: "entries_ok d" and c: "\<forall>c. cost_at d c = items_at items c"
    using freeze_items_Inr [OF d] by (simp_all add: entries_ok_def cost_at_def)
  then have ok: "dict_ok d"
    by (simp add: entries_ok_def)
  have "dict_ok out"
    using ok by (simp add: dict_ok_def distinct_map out)
  then show ?thesis
    using c e ok by (auto simp: costs_ok_def out entries_ok_def cost_at_def sort_key_get)
qed

lemma new_amount_Inr:
  assumes "new_UsageAmount x = Inr a"
  shows "amount_ok a" and "counters a = counters x"
    and "cost_for a c = items_at (costs_micros x) (currency_of c)"
proof -
  obtain cs where nn: "\<not> list_ex (\<lambda>x. x < 0) (counters x)" and fr: "freeze_costs (costs_micros x) = Inr cs"
    and a: "a = x\<lparr>costs_micros := cs\<rparr>"
    using assms by (cases "freeze_costs (costs_micros x)") (auto simp: new_UsageAmount_def split: if_splits)
  show cnt: "counters a = counters x"
    by (simp add: a counters_def)
  show "amount_ok a"
    using nn freeze_costs_Inr [OF fr] unfolding amount_ok_def cnt by (auto simp: list_ex_iff not_less a)
  show "cost_for a c = items_at (costs_micros x) (currency_of c)"
    using freeze_costs_Inr [OF fr] by (simp add: cost_for_at a)
qed

lemma new_amount_ex:
  assumes "\<forall>x \<in> set (counters x). 0 \<le> x"
    and "\<forall>(raw, v) \<in> set (costs_micros x). currency_of raw \<noteq> [] \<and> 0 \<le> v"
  shows "\<exists>a. new_UsageAmount x = Inr a"
proof -
  obtain d where "freeze_items [] (costs_micros x) = Inr d"
    using freeze_items_Inl [OF assms(2)] by blast
  moreover have "\<not> list_ex (\<lambda>x. x < 0) (counters x)"
    using assms(1) by (auto simp: list_ex_iff)
  ultimately show ?thesis
    by (simp add: new_UsageAmount_def freeze_costs_def)
qed

section \<open>Addition and subtraction\<close>

lemma items_at_map:
  assumes "distinct ks" and "\<forall>k \<in> set ks. currency_of k = k"
  shows "items_at (map (\<lambda>k. (k, g k)) ks) c = (if c \<in> set ks then g c else 0)"
  using assms by (induction ks) auto

lemma cost_at_absent: "c \<notin> set (dict_keys d) \<Longrightarrow> cost_at d c = 0"
  by (force simp: cost_at_def split: option.split dest!: map_of_SomeD)

lemma costs_ok_keys: "costs_ok d \<Longrightarrow> c \<in> set (dict_keys d) \<Longrightarrow> currency_of c = c \<and> c \<noteq> []"
  by (auto simp: costs_ok_def)

lemma combine_items:
  assumes "amount_ok l" and "amount_ok r" and "f 0 0 = (0 :: int)"
  shows "items_at (map (\<lambda>c. (c, f (cost_for l c) (cost_for r c)))
        (remdups (dict_keys (costs_micros l) @ dict_keys (costs_micros r)))) (currency_of c)
      = f (cost_for l c) (cost_for r c)"
    (is "items_at (map ?g ?ks) _ = _")
proof -
  have k: "\<forall>k \<in> set ?ks. currency_of k = k"
    using assms(1,2) costs_ok_keys [of "costs_micros l"] costs_ok_keys [of "costs_micros r"]
    unfolding amount_ok_def by auto
  have "items_at (map ?g ?ks) (currency_of c)
      = (if currency_of c \<in> set ?ks then f (cost_for l (currency_of c)) (cost_for r (currency_of c)) else 0)"
    by (rule items_at_map [OF distinct_remdups k])
  then show ?thesis
    using assms(3) by (auto simp: cost_for_at cost_at_absent)
qed

lemma combine_Inr:
  assumes "combine f l r = Inr s" and "amount_ok l" and "amount_ok r" and "f 0 0 = 0"
  shows "amount_ok s \<and> (\<forall>k. res k s = f (res k l) (res k r))"
proof -
  note n = new_amount_Inr [OF assms(1) [unfolded combine_def]]
  have "res k s = f (res k l) (res k r)" for k
    using n(2) n(3) combine_items [where f = f, OF assms(2,3,4)] by (cases k) (simp_all add: counters_def)
  with n(1) show ?thesis
    by blast
qed

lemma combine_ex:
  assumes "\<And>k. 0 \<le> f (res k l) (res k r)" and "amount_ok l" and "amount_ok r" and "f 0 0 = 0"
  shows "\<exists>s. combine f l r = Inr s"
  unfolding combine_def
proof (rule new_amount_ex, goal_cases)
  case 1
  show ?case
    using assms(1) [of Model_Calls] assms(1) [of Input_Tokens] assms(1) [of Output_Tokens]
      assms(1) [of Total_Tokens] assms(1) [of Cache_Hit_Tokens] assms(1) [of Cache_Miss_Tokens]
      assms(1) [of Reasoning_Tokens] assms(1) [of Tool_Calls] assms(1) [of Agent_Tasks]
      assms(1) [of Attempts]
    by (simp add: counters_def)
next
  case 2
  have "0 \<le> f (cost_for l c) (cost_for r c)" for c
    using assms(1) [of "Cost c"] by simp
  moreover have "currency_of c \<noteq> []"
    if "c \<in> set (dict_keys (costs_micros l)) \<or> c \<in> set (dict_keys (costs_micros r))" for c
    using that assms(2,3) costs_ok_keys [of "costs_micros l" c] costs_ok_keys [of "costs_micros r" c]
    unfolding amount_ok_def by metis
  ultimately show ?case
    by auto
qed

lemma add_ex:
  assumes "amount_ok l" and "amount_ok r"
  obtains s where "add_amounts l r = Inr s" "amount_ok s" "\<And>k. res k s = res k l + res k r"
proof -
  obtain s where s: "combine (+) l r = Inr s"
    using combine_ex [of "(+)" l r] assms by (auto simp: res_nonneg)
  with combine_Inr [OF s assms] that show thesis
    by (simp add: add_amounts_def)
qed

lemma subtract_ex:
  assumes "amount_ok l" and "amount_ok r" and "\<And>k. res k r \<le> res k l"
  obtains s where "subtract_amounts l r = Inr s" "amount_ok s" "\<And>k. res k s = res k l - res k r"
proof -
  obtain s where s: "combine (-) l r = Inr s"
    using combine_ex [of "(-)" l r] assms by auto
  with combine_Inr [OF s assms(1,2)] that show thesis
    by (simp add: subtract_amounts_def)
qed

section \<open>Extensionality\<close>

lemma cost_at_key:
  assumes "costs_ok d"
  shows "c \<in> set (dict_keys d) \<longleftrightarrow> cost_at d c \<noteq> 0"
proof (cases "dict_get d c")
  case None
  then show ?thesis
    by (simp add: cost_at_def) (simp add: map_of_eq_None_iff)
next
  case (Some v)
  then have "(c, v) \<in> set d"
    by (rule map_of_SomeD)
  with assms Some show ?thesis
    by (force simp: cost_at_def costs_ok_def)
qed

lemma costs_val: "costs_ok d \<Longrightarrow> (c, v) \<in> set d \<Longrightarrow> v = cost_at d c"
  by (simp add: cost_at_def costs_ok_def dict_ok_def)

lemma costs_eqI:
  assumes "costs_ok d" and "costs_ok e" and "\<And>c. cost_at d (currency_of c) = cost_at e (currency_of c)"
  shows "d = e"
proof -
  have at: "cost_at d c = cost_at e c" for c
  proof (cases "currency_of c = c")
    case True
    then show ?thesis
      using assms(3) [of c] by simp
  next
    case False
    then have "c \<notin> set (dict_keys d)" and "c \<notin> set (dict_keys e)"
      using costs_ok_keys [OF assms(1)] costs_ok_keys [OF assms(2)] by blast+
    then show ?thesis
      by (simp add: cost_at_absent)
  qed
  have "set (dict_keys d) = set (dict_keys e)"
    by (rule set_eqI) (simp only: at cost_at_key [OF assms(1)] cost_at_key [OF assms(2)])
  then have keys: "dict_keys d = dict_keys e"
    using assms(1,2) unfolding costs_ok_def dict_ok_def by (metis sorted_distinct_set_unique)
  have val: "\<And>p. p \<in> set d \<Longrightarrow> snd p = cost_at d (fst p)" "\<And>p. p \<in> set e \<Longrightarrow> snd p = cost_at e (fst p)"
    using costs_val [OF assms(1)] costs_val [OF assms(2)] by (metis prod.collapse)+
  have "map snd d = map (cost_at d) (dict_keys d)"
    unfolding map_map comp_def by (rule map_cong [OF refl val(1)])
  moreover have "map snd e = map (cost_at e) (dict_keys e)"
    unfolding map_map comp_def by (rule map_cong [OF refl val(2)])
  moreover have "cost_at d = cost_at e"
    using at by blast
  ultimately have "map snd d = map snd e"
    using keys by simp
  with keys show ?thesis
    by (rule pair_list_eqI)
qed

lemma amount_eqI:
  assumes "amount_ok a" and "amount_ok b" and "\<And>k. res k a = res k b"
  shows "a = b"
proof -
  have "costs_micros a = costs_micros b"
    using assms(1,2) assms(3) [of "Cost _"] by (auto intro!: costs_eqI simp: amount_ok_def cost_for_at)
  then show ?thesis
    using assms(3) [of Model_Calls] assms(3) [of Input_Tokens] assms(3) [of Output_Tokens]
      assms(3) [of Total_Tokens] assms(3) [of Cache_Hit_Tokens] assms(3) [of Cache_Miss_Tokens]
      assms(3) [of Reasoning_Tokens] assms(3) [of Tool_Calls] assms(3) [of Agent_Tasks]
      assms(3) [of Attempts]
    by simp
qed

lemma is_zero_iff: "amount_ok a \<Longrightarrow> is_zero a \<longleftrightarrow> a = zero_amount"
proof
  assume ok: "amount_ok a" and "is_zero a"
  then have "costs_micros a = []"
    by (cases "costs_micros a") (auto simp: is_zero_def amount_ok_def costs_ok_def)
  with \<open>is_zero a\<close> show "a = zero_amount"
    by (simp add: is_zero_def zero_amount_def counters_def)
qed (simp add: is_zero_def zero_amount_def counters_def)

section \<open>The constructor on its own values\<close>

lemma items_at_costs:
  assumes "dict_ok d" and "\<forall>(c, v) \<in> set d. currency_of c = c"
  shows "items_at d c = cost_at d c"
  using assms
proof (induction d)
  case (Cons p d)
  obtain k v where p: "p = (k, v)"
    by (cases p)
  have IH: "items_at d c = cost_at d c"
    using Cons by (simp add: dict_ok_def)
  have "k = c \<Longrightarrow> cost_at d c = 0"
    using Cons.prems(1) by (intro cost_at_absent) (simp add: p dict_ok_def)
  then show ?case
    using IH Cons.prems(2) by (auto simp: p cost_at_def)
qed (simp add: cost_at_def)

lemma new_amount_idem:
  assumes "amount_ok a"
  shows "new_UsageAmount a = Inr a"
proof -
  have "\<forall>(raw, v) \<in> set (costs_micros a). currency_of raw \<noteq> [] \<and> 0 \<le> v"
    using assms by (force simp: amount_ok_def costs_ok_def)
  moreover have "\<forall>x \<in> set (counters a). 0 \<le> x"
    using assms by (simp add: amount_ok_def)
  ultimately obtain b where b: "new_UsageAmount a = Inr b"
    using new_amount_ex by blast
  note n = new_amount_Inr [OF b]
  have "items_at (costs_micros a) (currency_of c) = cost_for a c" for c
    using assms items_at_costs [of "costs_micros a"] by (force simp: amount_ok_def costs_ok_def cost_for_at)
  then have "res k b = res k a" for k
    using n(2) n(3) by (cases k) (simp_all add: counters_def)
  with n(1) assms have "b = a"
    by (rule amount_eqI)
  with b show ?thesis
    by simp
qed

end
