(* ===== verification/UsageInvariant.thy ===== *)
theory UsageInvariant
  imports UsageFacts
begin

text \<open>
  The invariant of the usage ledger: what a scope has reserved is the sum of the outstanding
  reservations over it. Every operation keeps it, and under it the subtractions of
  \<open>commit\<close> and \<open>rollback\<close> cannot fail.
\<close>

section \<open>Limit checks\<close>

definition state_ok :: "scope_state \<Rightarrow> bool" where
  "state_ok st \<longleftrightarrow> amount_ok (committed st) \<and> amount_ok (reserved st)"

definition fits :: "scope_state \<Rightarrow> usage_amount \<Rightarrow> budget_limits \<Rightarrow> bool" where
  "fits st req b \<longleftrightarrow>
     (\<forall>k l. cap k b = Some l \<longrightarrow> res k (committed st) + res k (reserved st) + res k req \<le> l)
     \<and> (\<forall>l. max_concurrent_model_calls b = Some l \<longrightarrow> active_model_calls st + model_calls req \<le> l)"

lemma new_state_ok [simp]: "state_ok new_scope_state"
  by (simp add: state_ok_def new_scope_state_def)

lemma first_violation_None:
  "first_violation scope rows = None
     \<longleftrightarrow> (\<forall>(rs, val, cur, bound) \<in> set rows. case bound of None \<Rightarrow> True | Some l \<Rightarrow> val \<le> l)"
  by (induction scope rows rule: first_violation.induct) (auto split: option.splits)

lemma first_violation_Some:
  "first_violation scope rows = Some e
     \<Longrightarrow> \<exists>rs l cur req. e = UE_Limit scope rs l cur req \<and> l < cur + req"
  by (induction scope rows rule: first_violation.induct) (auto split: option.splits if_splits)

lemma cap_cost: "(\<forall>k l. cap k b = Some l \<longrightarrow> f k \<le> l) \<longleftrightarrow>
    (\<forall>k \<in> {Model_Calls, Input_Tokens, Output_Tokens, Total_Tokens, Cache_Hit_Tokens, Cache_Miss_Tokens,
        Reasoning_Tokens, Tool_Calls, Agent_Tasks, Attempts}. \<forall>l. cap k b = Some l \<longrightarrow> f k \<le> l)
    \<and> (\<forall>c l. currency_of c = currency_of (cost_currency b) \<longrightarrow> max_cost_micros b = Some l \<longrightarrow> f (Cost c) \<le> l)"
  (is "?L \<longleftrightarrow> ?R")
proof
  assume ?R
  then have "cap k b = Some l \<longrightarrow> f k \<le> l" for k l
    by (cases k) simp_all
  then show ?L
    by blast
qed auto

lemma cost_for_cong: "currency_of c = currency_of d \<Longrightarrow> cost_for a c = cost_for a d"
  by (simp add: cost_for_def)

lemma option_le: "(case b of None \<Rightarrow> True | Some l \<Rightarrow> v \<le> l) \<longleftrightarrow> (\<forall>l. b = Some l \<longrightarrow> v \<le> (l :: int))"
  by (cases b) auto

lemma check_limits_cases:
  assumes "state_ok st" and "amount_ok req"
  shows "check_limits scope st req b = Inr () \<longleftrightarrow> fits st req b"
    and "check_limits scope st req b = Inl e \<Longrightarrow> \<exists>rs l cur q. e = UE_Limit scope rs l cur q \<and> l < cur + q"
proof -
  obtain cur where cur: "add_amounts (committed st) (reserved st) = Inr cur" "amount_ok cur"
    "\<And>k. res k cur = res k (committed st) + res k (reserved st)"
    using assms(1) by (auto simp: state_ok_def intro: add_ex)
  obtain pr where pr: "add_amounts cur req = Inr pr" "\<And>k. res k pr = res k cur + res k req"
    using cur(2) assms(2) by (auto intro: add_ex)
  have eqs: "res k (committed st) + res k (reserved st) + res k req = res k pr" for k
    by (simp add: pr cur)
  have "fits st req b \<longleftrightarrow> first_violation scope (limit_checks st req cur pr b) = None"
    unfolding fits_def eqs cap_cost first_violation_None limit_checks_def
    by (auto simp: option_le dest: cost_for_cong [where a = pr])
  then show "check_limits scope st req b = Inr () \<longleftrightarrow> fits st req b"
    by (auto simp: check_limits_def cur pr split: option.split)
  show "check_limits scope st req b = Inl e \<Longrightarrow> \<exists>rs l cur q. e = UE_Limit scope rs l cur q \<and> l < cur + q"
    by (auto simp: check_limits_def cur pr split: option.splits dest: first_violation_Some)
qed

section \<open>Normalised scopes\<close>

lemma normalize_all_Inr: "normalize_all ss = Inr ts \<Longrightarrow> length ts = length ss"
  by (induction ss arbitrary: ts) (auto split: sum.splits)

lemma normalize_scopes_Inr: "normalize_scopes ss = Inr ts \<Longrightarrow> distinct ts \<and> ts \<noteq> []"
  by (auto simp: normalize_scopes_def split: if_splits sum.splits dest: normalize_all_Inr)

section \<open>Updating the scopes\<close>

lemma state_of_set [simp]:
  "state_of (L\<lparr>states := dict_set n st (states L)\<rparr>) m = (if m = n then st else state_of L m)"
  by (simp add: state_of_def)

lemma state_of_other [simp]:
  "state_of (L\<lparr>reservations := x\<rparr>) m = state_of L m"
  "state_of (L\<lparr>scope_limits := y\<rparr>) m = state_of L m"
  by (simp_all add: state_of_def)

lemma limits_of_other [simp]:
  "limits_of (L\<lparr>reservations := x\<rparr>) m = limits_of L m"
  "limits_of (L\<lparr>states := y\<rparr>) m = limits_of L m"
  by (simp_all add: limits_of_def split: option.split)

definition same_frame :: "ledger \<Rightarrow> ledger \<Rightarrow> bool" where
  "same_frame L L' \<longleftrightarrow> default_limits L' = default_limits L \<and> scope_limits L' = scope_limits L
     \<and> reservations L' = reservations L \<and> (dict_ok (states L) \<longrightarrow> dict_ok (states L'))"

lemma same_frame_limits: "same_frame L L' \<Longrightarrow> limits_of L' n = limits_of L n"
  by (simp add: same_frame_def limits_of_def split: option.split)

lemma dict_keys_image [simp]:
  "fst ` set (dict_set k v d) = insert k (fst ` set d)"
  "fst ` set (dict_del k d) = fst ` set d - {k}"
  using dict_keys_set [of k v d] dict_keys_del [of k d] by simp_all

lemma update_scopes_all:
  assumes "distinct ns" and "\<And>n. n \<in> set ns \<Longrightarrow> f (state_of L n) = (Inr (), g n)"
    and "look = state_default \<or> look = state_at \<and> set ns \<subseteq> set (dict_keys (states L))"
  obtains L' where "update_scopes look f ns L = (Inr (), L')" and "same_frame L L'"
    and "set (dict_keys (states L')) = set (dict_keys (states L)) \<union> set ns"
    and "\<And>n. state_of L' n = (if n \<in> set ns then g n else state_of L n)"
proof -
  have "\<exists>L'. update_scopes look f ns L = (Inr (), L') \<and> same_frame L L'
      \<and> set (dict_keys (states L')) = set (dict_keys (states L)) \<union> set ns
      \<and> (\<forall>n. state_of L' n = (if n \<in> set ns then g n else state_of L n))"
    using assms
  proof (induction ns arbitrary: L)
    case Nil
    then show ?case
      by (simp add: same_frame_def)
  next
    case (Cons n ns)
    obtain L1 where L1: "look n L = (Inr (state_of L n), L1)" "same_frame L L1"
      "set (dict_keys (states L1)) \<union> {n} = set (dict_keys (states L)) \<union> {n}"
      "\<And>m. state_of L1 m = state_of L m"
      using Cons.prems(3)
    proof (elim disjE conjE)
      assume "look = state_default"
      then show thesis
        by (intro that [of "L\<lparr>states := dict_set n (state_of L n) (states L)\<rparr>"])
          (auto simp: state_default_def same_frame_def)
    next
      assume "look = state_at" and "set (n # ns) \<subseteq> set (dict_keys (states L))"
      moreover from this(2) obtain st where "dict_get (states L) n = Some st"
        using dict_has_get [of n "states L"] by (auto simp: dict_has_def)
      ultimately show thesis
        by (intro that [of L]) (simp_all add: state_at_def same_frame_def state_of_def)
    qed
    let ?L2 = "L1\<lparr>states := dict_set n (g n) (states L1)\<rparr>"
    have keys: "set (dict_keys (states ?L2)) = set (dict_keys (states L)) \<union> {n}"
      using L1(3) by auto
    have "\<exists>L'. update_scopes look f ns ?L2 = (Inr (), L') \<and> same_frame ?L2 L'
      \<and> set (dict_keys (states L')) = set (dict_keys (states ?L2)) \<union> set ns
      \<and> (\<forall>m. state_of L' m = (if m \<in> set ns then g m else state_of ?L2 m))"
      using Cons.prems keys by (intro Cons.IH) (auto simp: L1(4))
    then obtain L' where L': "update_scopes look f ns ?L2 = (Inr (), L')" "same_frame ?L2 L'"
      "set (dict_keys (states L')) = set (dict_keys (states ?L2)) \<union> set ns"
      "\<forall>m. state_of L' m = (if m \<in> set ns then g m else state_of ?L2 m)"
      by blast
    have "update_scopes look f (n # ns) L = (Inr (), L')"
      using L1(1) L'(1) Cons.prems(2) [of n] by simp
    moreover have "same_frame L L'"
      using L1(2) L'(2) by (simp add: same_frame_def)
    moreover have "\<forall>m. state_of L' m = (if m \<in> set (n # ns) then g m else state_of L m)"
      using L'(4) L1(4) Cons.prems(1) by auto
    ultimately show ?case
      using L'(3) keys by auto
  qed
  then show thesis
    using that by blast
qed

section \<open>The invariant\<close>

definition held_by :: "resource \<Rightarrow> string \<Rightarrow> (string, reservation) dict \<Rightarrow> int" where
  "held_by k n rs = sum_list (map (\<lambda>r. if n \<in> set (scopes r) then res k (amount r) else 0) (dict_values rs))"

definition reservation_ok :: "string set \<Rightarrow> string \<Rightarrow> reservation \<Rightarrow> bool" where
  "reservation_ok known rid r \<longleftrightarrow> reservation_id r = rid \<and> amount_ok (amount r)
     \<and> distinct (scopes r) \<and> set (scopes r) \<subseteq> known"

definition ledger_ok :: "ledger \<Rightarrow> bool" where
  "ledger_ok L \<longleftrightarrow> dict_ok (states L) \<and> dict_ok (reservations L)
     \<and> (\<forall>n. state_ok (state_of L n))
     \<and> (\<forall>rid r. dict_get (reservations L) rid = Some r
          \<longrightarrow> reservation_ok (set (dict_keys (states L))) rid r)
     \<and> (\<forall>n k. res k (reserved (state_of L n)) = held_by k n (reservations L))
     \<and> (\<forall>n. active_model_calls (state_of L n) = held_by Model_Calls n (reservations L))"

lemma held_by_set:
  "rid \<notin> set (dict_keys rs) \<Longrightarrow> held_by k n (dict_set rid r rs)
     = held_by k n rs + (if n \<in> set (scopes r) then res k (amount r) else 0)"
  by (induction rs) (auto simp: held_by_def)

lemma held_by_del:
  "dict_ok rs \<Longrightarrow> dict_get rs rid = Some r \<Longrightarrow> held_by k n (dict_del rid rs)
     = held_by k n rs - (if n \<in> set (scopes r) then res k (amount r) else 0)"
proof (induction rs)
  case (Cons p rs)
  obtain i x where p: "p = (i, x)"
    by (cases p)
  show ?case
  proof (cases "i = rid")
    case True
    then have "dict_del rid rs = rs"
      using Cons.prems(1) by (simp add: p dict_ok_def)
    then show ?thesis
      using Cons.prems(2) True by (simp add: p held_by_def)
  next
    case False
    then show ?thesis
      using Cons.IH Cons.prems by (auto simp: p held_by_def dict_ok_def)
  qed
qed simp

lemma held_by_member:
  assumes "dict_ok rs" and "dict_get rs rid = Some r" and "n \<in> set (scopes r)"
    and "\<And>i x. dict_get rs i = Some x \<Longrightarrow> amount_ok (amount x)"
  shows "res k (amount r) \<le> held_by k n rs"
proof -
  have "0 \<le> held_by k n (dict_del rid rs)"
    unfolding held_by_def
  proof (rule sum_list_nonneg)
    fix v
    assume "v \<in> set (map (\<lambda>r. if n \<in> set (scopes r) then res k (amount r) else 0)
        (dict_values (dict_del rid rs)))"
    then obtain x where x: "x \<in> set (dict_values (dict_del rid rs))"
      and v: "v = (if n \<in> set (scopes x) then res k (amount x) else 0)"
      unfolding list.set_map by blast
    then obtain i where "dict_get (dict_del rid rs) i = Some x"
      using dict_values_get [OF dict_ok_del [OF assms(1)]] by blast
    then have "amount_ok (amount x)"
      using assms(4) by (auto split: if_splits)
    then show "0 \<le> v"
      by (simp add: v res_nonneg)
  qed
  then show ?thesis
    using held_by_del [OF assms(1,2)] assms(3) by simp
qed

lemma new_ledger_ok: "ledger_ok (new_ledger d)"
  by (simp add: ledger_ok_def new_ledger_def state_of_def held_by_def) (simp add: new_scope_state_def)

lemma ledger_okD:
  assumes "ledger_ok L"
  shows "dict_ok (states L)" and "dict_ok (reservations L)" and "state_ok (state_of L n)"
    and "res k (reserved (state_of L n)) = held_by k n (reservations L)"
    and "active_model_calls (state_of L n) = held_by Model_Calls n (reservations L)"
  using assms by (simp_all add: ledger_ok_def)

lemma ledger_ok_reservation:
  "ledger_ok L \<Longrightarrow> dict_get (reservations L) rid = Some r
     \<Longrightarrow> reservation_id r = rid \<and> amount_ok (amount r) \<and> distinct (scopes r)
       \<and> set (scopes r) \<subseteq> set (dict_keys (states L))"
  by (simp add: ledger_ok_def reservation_ok_def)

text \<open>A reserved amount covers each of the reservations it consists of.\<close>

lemma ledger_ok_covers:
  assumes "ledger_ok L" and "dict_get (reservations L) rid = Some r" and "n \<in> set (scopes r)"
  shows "res k (amount r) \<le> res k (reserved (state_of L n))"
  using held_by_member [OF ledger_okD(2) [OF assms(1)] assms(2,3)] ledger_ok_reservation [OF assms(1)]
  by (simp add: ledger_okD(4) [OF assms(1)])

end
