(* ===== verification/UsageBooks.thy ===== *)
theory UsageBooks
  imports UsageInvariant
begin

text \<open>
  The abstract specification of the ledger, and the refinement. The books keep per scope and
  resource what has been spent, the outstanding reservations, and the limits in force; what is
  held is derived from the outstanding reservations. Every operation of the ledger does to the
  books what the corresponding operation on books says, and answers with an error exactly when
  that one refuses.
\<close>

section \<open>Operations as data\<close>

datatype ledger_op =
    Configure string budget_limits
  | Reserve "string list" usage_amount string
  | Commit reservation "usage_amount option"
  | Rollback reservation
  | Consume "string list" usage_amount
  | Clear string

fun apply_op :: "ledger_op \<Rightarrow> ledger \<Rightarrow> (usage_error + unit) \<times> ledger" where
  "apply_op (Configure n b) L = configure_scope n b L"
| "apply_op (Reserve ss a rid) L =
     (case ledger_reserve ss a rid L of (out, L') \<Rightarrow> (map_sum id (\<lambda>_. ()) out, L'))"
| "apply_op (Commit r actual) L = ledger_commit r actual L"
| "apply_op (Rollback r) L = ledger_rollback r L"
| "apply_op (Consume ss a) L = ledger_consume ss a L"
| "apply_op (Clear n) L = ledger_clear n L"

definition run_ops :: "ledger_op list \<Rightarrow> ledger \<Rightarrow> ledger" where
  "run_ops ops L = fold (\<lambda>op L. snd (apply_op op L)) ops L"

text \<open>The arguments are values the constructors of the code can produce.\<close>

definition limits_ok :: "budget_limits \<Rightarrow> bool" where
  "limits_ok b \<longleftrightarrow> (\<forall>v \<in> set (limit_values b). case v of None \<Rightarrow> True | Some x \<Rightarrow> 1 \<le> x)"

fun op_ok :: "ledger_op \<Rightarrow> bool" where
  "op_ok (Configure n b) = limits_ok b"
| "op_ok (Reserve ss a rid) = amount_ok a"
| "op_ok (Commit r actual) = (case actual of None \<Rightarrow> True | Some a \<Rightarrow> amount_ok a)"
| "op_ok (Rollback r) = True"
| "op_ok (Consume ss a) = amount_ok a"
| "op_ok (Clear n) = True"

lemma limit_values_currency [simp]: "limit_values (b\<lparr>cost_currency := c\<rparr>) = limit_values b"
  by (simp add: limit_values_def)

lemma new_limits_ok:
  assumes "new_BudgetLimits b = Inr b'"
  shows "limits_ok b'"
proof -
  obtain b1 c where ok: "\<not> list_ex (\<lambda>v. case v of None \<Rightarrow> False | Some x \<Rightarrow> x < 1) (limit_values b1)"
    and b': "b' = b1\<lparr>cost_currency := c\<rparr>"
    using assms unfolding new_BudgetLimits_def Let_def by (metis sum.distinct(1) sum.inject(2))
  show ?thesis
    unfolding limits_ok_def b' limit_values_currency
    using ok by (auto simp: list_ex_iff not_less split: option.splits)
qed

section \<open>Books\<close>

record books =
  rules :: "string \<Rightarrow> budget_limits option"
  spent :: "string \<Rightarrow> resource \<Rightarrow> int"
  outstanding :: "string \<rightharpoonup> reservation"

definition held :: "(string \<rightharpoonup> reservation) \<Rightarrow> string \<Rightarrow> resource \<Rightarrow> int" where
  "held m n k = (\<Sum>i \<in> dom m. if n \<in> set (scopes (the (m i))) then res k (amount (the (m i))) else 0)"

definition affordable :: "books \<Rightarrow> string \<Rightarrow> usage_amount \<Rightarrow> bool" where
  "affordable B n a \<longleftrightarrow> (case rules B n of None \<Rightarrow> True | Some b \<Rightarrow>
     (\<forall>k l. cap k b = Some l \<longrightarrow> spent B n k + held (outstanding B) n k + res k a \<le> l)
     \<and> (\<forall>l. max_concurrent_model_calls b = Some l
            \<longrightarrow> held (outstanding B) n Model_Calls + model_calls a \<le> l))"

definition post :: "string list \<Rightarrow> usage_amount \<Rightarrow> books \<Rightarrow> books" where
  "post ns a B = B\<lparr>spent := (\<lambda>n k. spent B n k + (if n \<in> set ns then res k a else 0))\<rparr>"

definition drop :: "reservation \<Rightarrow> books \<Rightarrow> books" where
  "drop r B = B\<lparr>outstanding := (outstanding B)(reservation_id r := None)\<rparr>"

fun book_op :: "ledger_op \<Rightarrow> books \<Rightarrow> bool \<times> books" where
  "book_op (Configure n b) B = (case normalize_scope n of
       Inl _ \<Rightarrow> (False, B)
     | Inr m \<Rightarrow> let B' = B\<lparr>rules := (rules B)(m := Some b)\<rparr> in
         if affordable B' m zero_amount then (True, B') else (False, B))"
| "book_op (Reserve ss a rid) B = (case normalize_scopes ss of
       Inl _ \<Rightarrow> (False, B)
     | Inr ns \<Rightarrow>
         if a \<noteq> zero_amount \<and> \<not> blank rid \<and> outstanding B rid = None \<and> (\<forall>n \<in> set ns. affordable B n a)
         then (True, B\<lparr>outstanding := (outstanding B)(rid \<mapsto> \<lparr>reservation_id = rid, scopes = ns, amount = a\<rparr>)\<rparr>)
         else (False, B))"
| "book_op (Commit r actual) B =
     (if outstanding B (reservation_id r) = Some r
      then let B' = post (scopes r) (case actual of None \<Rightarrow> amount r | Some a \<Rightarrow> a) (drop r B) in
        (\<forall>n \<in> set (scopes r). affordable B' n zero_amount, B')
      else (False, B))"
| "book_op (Rollback r) B =
     (if outstanding B (reservation_id r) = Some r then (True, drop r B) else (False, B))"
| "book_op (Consume ss a) B = (case normalize_scopes ss of
       Inl _ \<Rightarrow> (False, B)
     | Inr ns \<Rightarrow>
         if a = zero_amount \<or> (\<forall>n \<in> set ns. affordable B n a) then (True, post ns a B) else (False, B))"
| "book_op (Clear n) B = (case normalize_scope n of
       Inl _ \<Rightarrow> (False, B)
     | Inr m \<Rightarrow>
         if \<exists>r \<in> ran (outstanding B). m \<in> set (scopes r) then (False, B)
         else (True, B\<lparr>spent := (spent B)(m := (\<lambda>_. 0))\<rparr>))"

definition books_of :: "ledger \<Rightarrow> books" where
  "books_of L = \<lparr>rules = limits_of L, spent = (\<lambda>n k. res k (committed (state_of L n))),
     outstanding = dict_get (reservations L)\<rparr>"

lemma books_of_simps [simp]:
  "rules (books_of L) = limits_of L"
  "spent (books_of L) n k = res k (committed (state_of L n))"
  "outstanding (books_of L) = dict_get (reservations L)"
  by (simp_all add: books_of_def)

lemma books_of_eqI:
  "\<lbrakk>\<And>n. limits_of L n = rules B n; \<And>n k. res k (committed (state_of L n)) = spent B n k;
    \<And>i. dict_get (reservations L) i = outstanding B i\<rbrakk> \<Longrightarrow> books_of L = B"
  by (cases B) (auto simp: books_of_def fun_eq_iff)

lemma held_by_held: "dict_ok rs \<Longrightarrow> held_by k n rs = held (dict_get rs) n k"
proof (induction rs)
  case Nil
  then show ?case
    by (simp add: held_by_def held_def)
next
  case (Cons p rs)
  obtain i x where p: "p = (i, x)"
    by (cases p)
  have i: "i \<notin> dom (dict_get rs)"
    using Cons.prems by (auto simp: p dict_ok_def dom_map_of_conv_image_fst)
  have "held (dict_get (p # rs)) n k = (if n \<in> set (scopes x) then res k (amount x) else 0)
      + (\<Sum>j \<in> dom (dict_get rs). if n \<in> set (scopes (the (dict_get (p # rs) j)))
           then res k (amount (the (dict_get (p # rs) j))) else 0)"
    using i by (simp add: held_def p finite_dom_map_of cong: if_cong)
  also have "(\<Sum>j \<in> dom (dict_get rs). if n \<in> set (scopes (the (dict_get (p # rs) j)))
           then res k (amount (the (dict_get (p # rs) j))) else 0) = held (dict_get rs) n k"
    unfolding held_def using i by (intro sum.cong refl) (auto simp: p)
  finally show ?case
    using Cons by (simp add: p held_by_def dict_ok_def)
qed

lemma held_reserved:
  "ledger_ok L \<Longrightarrow> held (dict_get (reservations L)) n k = res k (reserved (state_of L n))"
  using ledger_okD(4) held_by_held [OF ledger_okD(2)] by metis

lemma active_reserved:
  "ledger_ok L \<Longrightarrow> active_model_calls (state_of L n) = res Model_Calls (reserved (state_of L n))"
  using ledger_okD(4,5) by metis

lemma affordable_fits:
  assumes "ledger_ok L"
  shows "affordable (books_of L) n a
    \<longleftrightarrow> (\<forall>b. limits_of L n = Some b \<longrightarrow> fits (state_of L n) a b)"
  using active_reserved [OF assms, of n]
  by (auto simp: affordable_def fits_def held_reserved [OF assms] split: option.split)

lemma check_scopes_affordable:
  assumes "ledger_ok L" and "amount_ok a"
  shows "check_scopes L a ns = Inr () \<longleftrightarrow> (\<forall>n \<in> set ns. affordable (books_of L) n a)"
proof (induction ns)
  case (Cons n ns)
  have "(case limits_of L n of None \<Rightarrow> Inr () | Some b \<Rightarrow> check_limits n (state_of L n) a b) = Inr ()
      \<longleftrightarrow> affordable (books_of L) n a"
    using check_limits_cases(1) [OF ledger_okD(3) [OF assms(1)] assms(2), of n n]
    by (auto simp: affordable_fits [OF assms(1)] split: option.splits)
  then show ?case
    using Cons.IH by (auto split: sum.splits)
qed simp

lemma unit_sum: "(x :: 'e + unit) = Inr () \<or> (\<exists>e. x = Inl e)"
  by (cases x) auto

section \<open>Steps of a scope\<close>

lemma hold_ok:
  assumes "state_ok st" and "amount_ok a"
  shows "hold a st = (Inr (), snd (hold a st)) \<and> state_ok (snd (hold a st))
    \<and> committed (snd (hold a st)) = committed st
    \<and> (\<forall>k. res k (reserved (snd (hold a st))) = res k (reserved st) + res k a)
    \<and> active_model_calls (snd (hold a st)) = active_model_calls st + res Model_Calls a"
proof -
  obtain x where "add_amounts (reserved st) a = Inr x" "amount_ok x"
    "\<And>k. res k x = res k (reserved st) + res k a"
    using assms by (auto simp: state_ok_def intro: add_ex)
  then show ?thesis
    using assms by (simp add: hold_def state_ok_def)
qed

lemma release_ok:
  assumes "state_ok st" and "amount_ok a" and "\<And>k. res k a \<le> res k (reserved st)"
  shows "release a st = (Inr (), snd (release a st)) \<and> state_ok (snd (release a st))
    \<and> committed (snd (release a st)) = committed st
    \<and> (\<forall>k. res k (reserved (snd (release a st))) = res k (reserved st) - res k a)
    \<and> active_model_calls (snd (release a st)) = active_model_calls st - res Model_Calls a"
proof -
  obtain x where "subtract_amounts (reserved st) a = Inr x" "amount_ok x"
    "\<And>k. res k x = res k (reserved st) - res k a"
    using assms by (auto simp: state_ok_def intro: subtract_ex)
  then show ?thesis
    using assms by (simp add: release_def state_ok_def)
qed

lemma spend_ok:
  assumes "state_ok st" and "amount_ok a"
  shows "spend a st = (Inr (), snd (spend a st)) \<and> state_ok (snd (spend a st))
    \<and> reserved (snd (spend a st)) = reserved st
    \<and> (\<forall>k. res k (committed (snd (spend a st))) = res k (committed st) + res k a)
    \<and> active_model_calls (snd (spend a st)) = active_model_calls st"
proof -
  obtain x where "add_amounts (committed st) a = Inr x" "amount_ok x"
    "\<And>k. res k x = res k (committed st) + res k a"
    using assms by (auto simp: state_ok_def intro: add_ex)
  then show ?thesis
    using assms by (simp add: spend_def state_ok_def)
qed

lemma settle_ok:
  assumes "state_ok st" and "amount_ok a" and "\<And>k. res k a \<le> res k (reserved st)" and "amount_ok b"
  shows "settle a b st = (Inr (), snd (settle a b st)) \<and> state_ok (snd (settle a b st))
    \<and> (\<forall>k. res k (committed (snd (settle a b st))) = res k (committed st) + res k b)
    \<and> (\<forall>k. res k (reserved (snd (settle a b st))) = res k (reserved st) - res k a)
    \<and> active_model_calls (snd (settle a b st)) = active_model_calls st - res Model_Calls a"
proof -
  obtain st' where r: "release a st = (Inr (), st')" and st': "state_ok st'" "committed st' = committed st"
    "\<And>k. res k (reserved st') = res k (reserved st) - res k a"
    "active_model_calls st' = active_model_calls st - res Model_Calls a"
    using release_ok [OF assms(1-3)] by (metis snd_conv)
  show ?thesis
    using spend_ok [OF st'(1) assms(4)] st'(2-4) by (simp add: settle_def r)
qed

section \<open>The refinement, per operation\<close>

definition simulates :: "ledger_op \<Rightarrow> ledger \<Rightarrow> bool" where
  "simulates op L \<longleftrightarrow> (case apply_op op L of (out, L') \<Rightarrow>
     book_op op (books_of L) = (out = Inr (), books_of L') \<and> ledger_ok L')"

lemma simulates_refused:
  "\<lbrakk>apply_op op L = (Inl e, L); book_op op (books_of L) = (False, books_of L); ledger_ok L\<rbrakk>
     \<Longrightarrow> simulates op L"
  by (simp add: simulates_def)

lemma configure_simulates:
  assumes ok: "ledger_ok L"
  shows "simulates (Configure n b) L"
proof (cases "normalize_scope n")
  case (Inl e)
  then show ?thesis
    using ok by (intro simulates_refused) (simp_all add: configure_scope_def)
next
  case (Inr m)
  let ?L' = "L\<lparr>scope_limits := dict_set m b (scope_limits L)\<rparr>"
  let ?B' = "(books_of L)\<lparr>rules := (limits_of L)(m := Some b)\<rparr>"
  note chk = check_limits_cases [OF ledger_okD(3) [OF ok] zero_ok, of m m b]
  have books: "books_of ?L' = ?B'"
    by (rule books_of_eqI) (simp_all add: limits_of_def split: option.split)
  have "affordable ?B' m zero_amount \<longleftrightarrow> fits (state_of L m) zero_amount b"
    using active_reserved [OF ok, of m]
    by (simp add: affordable_def fits_def held_reserved [OF ok])
  moreover have "ledger_ok ?L'"
    using ok by (simp add: ledger_ok_def)
  ultimately show ?thesis
    using Inr chk(1) ok books
    by (cases "check_limits m (state_of L m) zero_amount b")
      (auto simp: simulates_def configure_scope_def Let_def)
qed

lemma reserve_simulates:
  assumes ok: "ledger_ok L" and a: "amount_ok a"
  shows "simulates (Reserve ss a rid) L"
proof (cases "\<exists>ns. normalize_scopes ss = Inr ns \<and> a \<noteq> zero_amount \<and> \<not> blank rid
    \<and> dict_get (reservations L) rid = None \<and> (\<forall>n \<in> set ns. affordable (books_of L) n a)")
  case False
  then show ?thesis
    using ok unit_sum [of "check_scopes L a _"] check_scopes_affordable [OF ok a]
    by (intro simulates_refused [where e = "case fst (ledger_reserve ss a rid L) of Inl e \<Rightarrow> e | Inr _ \<Rightarrow> UE_Value []"])
      (auto simp: ledger_reserve_def is_zero_iff [OF a] dict_has_get split: sum.splits)
next
  case True
  then obtain ns where ns: "normalize_scopes ss = Inr ns" and a0: "a \<noteq> zero_amount" and rid: "\<not> blank rid"
    and free: "dict_get (reservations L) rid = None" and aff: "\<forall>n \<in> set ns. affordable (books_of L) n a"
    by blast
  let ?r = "\<lparr>reservation_id = rid, scopes = ns, amount = a\<rparr>"
  let ?g = "\<lambda>n. snd (hold a (state_of L n))"
  note g = hold_ok [OF ledger_okD(3) [OF ok] a]
  obtain L' where L': "update_scopes state_default (hold a) ns L = (Inr (), L')" "same_frame L L'"
    "set (dict_keys (states L')) = set (dict_keys (states L)) \<union> set ns"
    "\<And>n. state_of L' n = (if n \<in> set ns then ?g n else state_of L n)"
    by (rule update_scopes_all [of ns "hold a" L ?g state_default])
      (use normalize_scopes_Inr [OF ns] g in auto)
  let ?M = "L'\<lparr>reservations := dict_set rid ?r (reservations L')\<rparr>"
  have "ledger_reserve ss a rid L = (Inr ?r, ?M)"
    using check_scopes_affordable [OF ok a, of ns] aff
    by (simp add: ledger_reserve_def ns is_zero_iff [OF a] a0 rid free dict_has_get L'(1) Let_def)
  moreover have "books_of ?M = (books_of L)\<lparr>outstanding := (dict_get (reservations L))(rid \<mapsto> ?r)\<rparr>"
    using L'(2) g by (intro books_of_eqI) (auto simp: same_frame_limits [OF L'(2)] same_frame_def L'(4))
  moreover have "ledger_ok ?M"
  proof -
    have "reservation_ok (set (dict_keys (states L'))) i x"
      if "((dict_get (reservations L))(rid \<mapsto> ?r)) i = Some x" for i x
      using that a normalize_scopes_Inr [OF ns] ledger_ok_reservation [OF ok, of i x]
      unfolding L'(3) by (auto simp: reservation_ok_def split: if_splits)
    moreover have "rid \<notin> set (dict_keys (reservations L))"
      using free by (simp add: map_of_eq_None_iff)
    ultimately show ?thesis
      using L'(2) g ledger_okD [OF ok]
      by (simp add: ledger_ok_def same_frame_def L'(4) held_by_set)
  qed
  ultimately show ?thesis
    by (simp add: simulates_def ns a0 rid free aff)
qed

lemma require_stored:
  assumes "ledger_ok L"
  shows "require_reservation r L
    = (if dict_get (reservations L) (reservation_id r) = Some r then Inr r
       else Inl (UE_Reservation ''reservation is unknown or already finalized''))"
  by (auto simp: require_reservation_def split: option.split)

lemma settled_ok:
  assumes ok: "ledger_ok L" and r: "dict_get (reservations L) (reservation_id r) = Some r"
    and M: "same_frame L M" "set (dict_keys (states M)) = set (dict_keys (states L)) \<union> set (scopes r)"
    and st: "\<And>n. state_ok (state_of M n)"
      "\<And>n k. res k (reserved (state_of M n))
         = res k (reserved (state_of L n)) - (if n \<in> set (scopes r) then res k (amount r) else 0)"
      "\<And>n. active_model_calls (state_of M n)
         = active_model_calls (state_of L n) - (if n \<in> set (scopes r) then res Model_Calls (amount r) else 0)"
  shows "ledger_ok (M\<lparr>reservations := dict_del (reservation_id r) (reservations M)\<rparr>)"
proof -
  have "reservation_ok (set (dict_keys (states M))) rid x"
    if "dict_get (reservations L) rid = Some x" for rid x
    using ledger_ok_reservation [OF ok that] M(2) by (auto simp: reservation_ok_def)
  then show ?thesis
    using M(1) ledger_okD [OF ok] held_by_del [OF ledger_okD(2) [OF ok] r]
    by (simp add: ledger_ok_def same_frame_def st)
qed

lemma settle_states:
  assumes ok: "ledger_ok L" and r: "dict_get (reservations L) (reservation_id r) = Some r"
    and a: "amount_ok a"
  obtains M where "update_scopes state_at (settle (amount r) a) (scopes r) L = (Inr (), M)"
    and "same_frame L M" and "set (scopes r) \<subseteq> set (dict_keys (states M))"
    and "\<And>n k. res k (committed (state_of M n))
       = res k (committed (state_of L n)) + (if n \<in> set (scopes r) then res k a else 0)"
    and "ledger_ok (M\<lparr>reservations := dict_del (reservation_id r) (reservations M)\<rparr>)"
proof -
  note res = ledger_ok_reservation [OF ok r]
  let ?g = "\<lambda>n. snd (settle (amount r) a (state_of L n))"
  have g: "settle (amount r) a (state_of L n) = (Inr (), ?g n) \<and> state_ok (?g n)
    \<and> (\<forall>k. res k (committed (?g n)) = res k (committed (state_of L n)) + res k a)
    \<and> (\<forall>k. res k (reserved (?g n)) = res k (reserved (state_of L n)) - res k (amount r))
    \<and> active_model_calls (?g n) = active_model_calls (state_of L n) - res Model_Calls (amount r)"
    if "n \<in> set (scopes r)" for n
    using res a ledger_ok_covers [OF ok r that] by (intro settle_ok ledger_okD(3) [OF ok]) auto
  obtain M where M: "update_scopes state_at (settle (amount r) a) (scopes r) L = (Inr (), M)"
    "same_frame L M" "set (dict_keys (states M)) = set (dict_keys (states L)) \<union> set (scopes r)"
    "\<And>n. state_of M n = (if n \<in> set (scopes r) then ?g n else state_of L n)"
    by (rule update_scopes_all [of "scopes r" "settle (amount r) a" L ?g state_at]) (use res g in auto)
  show thesis
  proof (rule that [OF M(1,2)])
    show "ledger_ok (M\<lparr>reservations := dict_del (reservation_id r) (reservations M)\<rparr>)"
      by (rule settled_ok [OF ok r M(2,3)]) (use g ledger_okD(3) [OF ok] in \<open>simp_all add: M(4)\<close>)
  qed (use g M(3) in \<open>simp_all add: M(4)\<close>)
qed

lemma release_states:
  assumes ok: "ledger_ok L" and r: "dict_get (reservations L) (reservation_id r) = Some r"
  obtains M where "update_scopes state_at (release (amount r)) (scopes r) L = (Inr (), M)"
    and "same_frame L M" and "\<And>n. committed (state_of M n) = committed (state_of L n)"
    and "ledger_ok (M\<lparr>reservations := dict_del (reservation_id r) (reservations M)\<rparr>)"
proof -
  note res = ledger_ok_reservation [OF ok r]
  let ?g = "\<lambda>n. snd (release (amount r) (state_of L n))"
  have g: "release (amount r) (state_of L n) = (Inr (), ?g n) \<and> state_ok (?g n)
    \<and> committed (?g n) = committed (state_of L n)
    \<and> (\<forall>k. res k (reserved (?g n)) = res k (reserved (state_of L n)) - res k (amount r))
    \<and> active_model_calls (?g n) = active_model_calls (state_of L n) - res Model_Calls (amount r)"
    if "n \<in> set (scopes r)" for n
    using res ledger_ok_covers [OF ok r that] by (intro release_ok ledger_okD(3) [OF ok]) auto
  obtain M where M: "update_scopes state_at (release (amount r)) (scopes r) L = (Inr (), M)"
    "same_frame L M" "set (dict_keys (states M)) = set (dict_keys (states L)) \<union> set (scopes r)"
    "\<And>n. state_of M n = (if n \<in> set (scopes r) then ?g n else state_of L n)"
    by (rule update_scopes_all [of "scopes r" "release (amount r)" L ?g state_at]) (use res g in auto)
  show thesis
  proof (rule that [OF M(1,2)])
    show "ledger_ok (M\<lparr>reservations := dict_del (reservation_id r) (reservations M)\<rparr>)"
      by (rule settled_ok [OF ok r M(2,3)]) (use g ledger_okD(3) [OF ok] in \<open>simp_all add: M(4)\<close>)
  qed (use g in \<open>simp add: M(4)\<close>)
qed

lemma first_current_None:
  assumes "ledger_ok L" and "set ns \<subseteq> set (dict_keys (states L))"
  shows "first_current_violation L ns = None \<longleftrightarrow> (\<forall>n \<in> set ns. affordable (books_of L) n zero_amount)"
  using assms(2)
proof (induction ns)
  case (Cons n ns)
  then obtain st where st: "dict_get (states L) n = Some st"
    using dict_has_get [of n "states L"] by (auto simp: dict_has_def)
  have chk: "check_limits n st zero_amount b = Inr () \<longleftrightarrow> fits (state_of L n) zero_amount b" for b
    using check_limits_cases(1) [OF ledger_okD(3) [OF assms(1)] zero_ok, of n n b]
    by (simp add: state_of_def st)
  show ?case
  proof (cases "limits_of L n")
    case None
    then show ?thesis
      using Cons by (simp add: affordable_fits [OF assms(1)])
  next
    case (Some b)
    then show ?thesis
      using Cons chk [of b] unit_sum [of "check_limits n st zero_amount b"]
      by (auto simp: affordable_fits [OF assms(1)] st)
  qed
qed simp

lemma commit_simulates:
  assumes ok: "ledger_ok L" and a: "op_ok (Commit r actual)"
  shows "simulates (Commit r actual) L"
proof (cases "dict_get (reservations L) (reservation_id r) = Some r")
  case False
  then show ?thesis
    using ok by (intro simulates_refused) (simp_all add: ledger_commit_def require_stored [OF ok] Let_def)
next
  case True
  let ?a = "case actual of None \<Rightarrow> amount r | Some a \<Rightarrow> a"
  have "amount_ok ?a"
    using a ledger_ok_reservation [OF ok True] by (simp split: option.splits)
  then obtain M where M: "update_scopes state_at (settle (amount r) ?a) (scopes r) L = (Inr (), M)"
    "same_frame L M" "set (scopes r) \<subseteq> set (dict_keys (states M))"
    "\<And>n k. res k (committed (state_of M n))
       = res k (committed (state_of L n)) + (if n \<in> set (scopes r) then res k ?a else 0)"
    and okM: "ledger_ok (M\<lparr>reservations := dict_del (reservation_id r) (reservations M)\<rparr>)"
    using settle_states [OF ok True] by blast
  let ?M = "M\<lparr>reservations := dict_del (reservation_id r) (reservations M)\<rparr>"
  have books: "books_of ?M = post (scopes r) ?a (drop r (books_of L))"
    using M(2) by (intro books_of_eqI)
      (simp_all add: post_def drop_def M(4) same_frame_limits [OF M(2)] same_frame_def)
  have "ledger_commit r actual L
      = (case first_current_violation ?M (scopes r) of None \<Rightarrow> (Inr (), ?M) | Some e \<Rightarrow> (Inl e, ?M))"
    by (simp add: ledger_commit_def require_stored [OF ok] True M(1) Let_def)
  then show ?thesis
    using True okM first_current_None [OF okM, of "scopes r"] M(3)
    by (auto simp: simulates_def books Let_def split: option.split)
qed

lemma rollback_simulates:
  assumes ok: "ledger_ok L"
  shows "simulates (Rollback r) L"
proof (cases "dict_get (reservations L) (reservation_id r) = Some r")
  case False
  then show ?thesis
    using ok by (intro simulates_refused) (simp_all add: ledger_rollback_def require_stored [OF ok])
next
  case True
  then obtain M where M: "update_scopes state_at (release (amount r)) (scopes r) L = (Inr (), M)"
    "same_frame L M" "\<And>n. committed (state_of M n) = committed (state_of L n)"
    and okM: "ledger_ok (M\<lparr>reservations := dict_del (reservation_id r) (reservations M)\<rparr>)"
    using release_states [OF ok] by blast
  have "books_of (M\<lparr>reservations := dict_del (reservation_id r) (reservations M)\<rparr>) = drop r (books_of L)"
    using M(2) by (intro books_of_eqI)
      (simp_all add: drop_def M(3) same_frame_limits [OF M(2)] same_frame_def)
  with okM show ?thesis
    by (simp add: simulates_def ledger_rollback_def require_stored [OF ok] True M(1))
qed

lemma consume_simulates:
  assumes ok: "ledger_ok L" and a: "amount_ok a"
  shows "simulates (Consume ss a) L"
proof (cases "normalize_scopes ss")
  case (Inl e)
  then show ?thesis
    using ok by (intro simulates_refused) (simp_all add: ledger_consume_def)
next
  case (Inr ns)
  have unspent: "post ns zero_amount (books_of L) = books_of L"
    by (simp add: post_def books_of_def fun_eq_iff)
  let ?g = "\<lambda>n. snd (spend a (state_of L n))"
  note g = spend_ok [OF ledger_okD(3) [OF ok] a]
  obtain M where M: "update_scopes state_default (spend a) ns L = (Inr (), M)" "same_frame L M"
    "set (dict_keys (states M)) = set (dict_keys (states L)) \<union> set ns"
    "\<And>n. state_of M n = (if n \<in> set ns then ?g n else state_of L n)"
    by (rule update_scopes_all [of ns "spend a" L ?g state_default])
      (use normalize_scopes_Inr [OF Inr] g in auto)
  have "books_of M = post ns a (books_of L)"
    using M(2) g by (intro books_of_eqI)
      (simp_all add: post_def M(4) same_frame_limits [OF M(2)] same_frame_def)
  moreover have "ledger_ok M"
  proof -
    have "reservation_ok (set (dict_keys (states M))) i x" if "dict_get (reservations L) i = Some x" for i x
      using ledger_ok_reservation [OF ok that] unfolding M(3) by (auto simp: reservation_ok_def)
    then show ?thesis
      using M(2) g ledger_okD [OF ok] by (simp add: ledger_ok_def same_frame_def M(4))
  qed
  ultimately have posted: "books_of M = post ns a (books_of L)" "ledger_ok M" .
  show ?thesis
  proof (cases "a = zero_amount")
    case True
    then show ?thesis
      using ok unspent by (simp add: simulates_def ledger_consume_def Inr is_zero_iff)
  next
    case False
    then show ?thesis
      using check_scopes_affordable [OF ok a, of ns] ok posted unit_sum [of "check_scopes L a ns"]
      by (auto simp: simulates_def ledger_consume_def is_zero_iff [OF a] Inr M(1))
  qed
qed

lemma clear_simulates:
  assumes ok: "ledger_ok L"
  shows "simulates (Clear n) L"
proof (cases "normalize_scope n")
  case (Inl e)
  then show ?thesis
    using ok by (intro simulates_refused) (simp_all add: ledger_clear_def)
next
  case (Inr m)
  have listed: "list_ex (\<lambda>r. m \<in> set (scopes r)) (dict_values (reservations L))
      \<longleftrightarrow> (\<exists>r \<in> ran (dict_get (reservations L)). m \<in> set (scopes r))"
    using dict_values_get [OF ledger_okD(2) [OF ok]] unfolding list_ex_iff ran_def by blast
  show ?thesis
  proof (cases "\<exists>r \<in> ran (dict_get (reservations L)). m \<in> set (scopes r)")
    case True
    then show ?thesis
      using ok by (intro simulates_refused) (simp_all add: ledger_clear_def Inr listed)
  next
    case False
    let ?M = "L\<lparr>states := dict_del m (states L)\<rparr>"
    have none: "held (dict_get (reservations L)) m k = 0" for k
      using False unfolding held_def by (intro sum.neutral) (force simp: ran_def)
    then have zero: "res k (reserved (state_of L m)) = 0" for k
      by (simp add: held_reserved [OF ok])
    have st: "state_of ?M x = (if x = m then new_scope_state else state_of L x)" for x
      by (simp add: state_of_def)
    have idle: "\<not> (case dict_get (states L) m of None \<Rightarrow> False | Some st \<Rightarrow> active_model_calls st \<noteq> 0)"
      using active_reserved [OF ok, of m] zero [of Model_Calls]
      by (auto simp: state_of_def split: option.splits)
    have "reserved (state_of L m) = zero_amount"
      using zero ledger_okD(3) [OF ok, of m] by (intro amount_eqI) (simp_all add: state_ok_def)
    have "reservation_ok (set (dict_keys (states ?M))) i x" if "dict_get (reservations L) i = Some x" for i x
      using ledger_ok_reservation [OF ok that] that False by (auto simp: reservation_ok_def ran_def)
    then have "ledger_ok ?M"
      using ledger_okD [OF ok] zero active_reserved [OF ok, of m]
      by (simp add: ledger_ok_def st) (metis new_scope_state_def res_zero scope_state.select_convs(2,3))
    moreover have "books_of ?M = (books_of L)\<lparr>spent := (spent (books_of L))(m := (\<lambda>_. 0))\<rparr>"
      by (rule books_of_eqI) (simp_all add: st new_scope_state_def)
    ultimately show ?thesis
      using False idle by (simp add: simulates_def ledger_clear_def Inr listed)
  qed
qed

lemma op_simulates: "ledger_ok L \<Longrightarrow> op_ok op \<Longrightarrow> simulates op L"
  by (cases op) (simp_all only: configure_simulates reserve_simulates commit_simulates
      rollback_simulates consume_simulates clear_simulates op_ok.simps)

end
