(* ===== verification/UsageProperties.thy ===== *)
theory UsageProperties
  imports UsageBooks
begin

text \<open>
  What the usage ledger promises, for every ledger reached from a new one by any interleaving of
  its operations: each method runs under the ledger's lock, so a concurrent history is a list of
  operations.
\<close>

section \<open>Reachable ledgers\<close>

lemma run_ops_simps [simp]:
  "run_ops [] L = L" "run_ops (op # ops) L = run_ops ops (snd (apply_op op L))"
  "run_ops (ops @ ops') L = run_ops ops' (run_ops ops L)"
  by (simp_all add: run_ops_def)

lemma simulatesD:
  assumes "simulates op L"
  shows "book_op op (books_of L) = (fst (apply_op op L) = Inr (), books_of (snd (apply_op op L)))"
    and "ledger_ok (snd (apply_op op L))"
  using assms by (simp_all add: simulates_def split: prod.splits)

lemma run_ops_ok: "ledger_ok L \<Longrightarrow> list_all op_ok ops \<Longrightarrow> ledger_ok (run_ops ops L)"
  by (induction ops arbitrary: L) (auto dest: op_simulates simulatesD)

lemmas reachable_ok = run_ops_ok [OF new_ledger_ok]

section \<open>Books that are not overdrawn\<close>

lemma held_new:
  assumes "finite (dom m)" and "m i = None"
  shows "held (m(i \<mapsto> r)) n k = held m n k + (if n \<in> set (scopes r) then res k (amount r) else 0)"
proof -
  have i: "i \<notin> dom m"
    using assms(2) by auto
  have "(\<Sum>j \<in> dom m. if n \<in> set (scopes (the ((m(i \<mapsto> r)) j))) then res k (amount (the ((m(i \<mapsto> r)) j))) else 0)
      = held m n k"
    unfolding held_def using i by (intro sum.cong refl) auto
  then show ?thesis
    using assms(1) i by (simp add: held_def del: fun_upd_apply) simp
qed

lemma held_gone:
  assumes "finite (dom m)" and "m i = Some r"
  shows "held (m(i := None)) n k = held m n k - (if n \<in> set (scopes r) then res k (amount r) else 0)"
  using held_new [of "m(i := None)" i r n k] assms by (simp add: fun_upd_idem)

lemma held_nonneg: "\<forall>r \<in> ran m. amount_ok (amount r) \<Longrightarrow> 0 \<le> held m n k"
  unfolding held_def by (intro sum_nonneg) (auto simp: res_nonneg ran_def)

definition solvent :: "books \<Rightarrow> bool" where
  "solvent B \<longleftrightarrow> (\<forall>n. affordable B n zero_amount)"

definition books_ok :: "books \<Rightarrow> bool" where
  "books_ok B \<longleftrightarrow> finite (dom (outstanding B)) \<and> (\<forall>r \<in> ran (outstanding B). amount_ok (amount r))
     \<and> (\<forall>n k. 0 \<le> spent B n k)"

text \<open>A commit within its reservation: the caller settles at most what it has reserved.\<close>

fun frugal :: "ledger_op \<Rightarrow> bool" where
  "frugal (Commit r (Some a)) \<longleftrightarrow> (\<forall>k. res k a \<le> res k (amount r))"
| "frugal _ \<longleftrightarrow> True"

lemma affordable_mono:
  assumes "affordable B n a"
    and "\<And>k. spent B' n k + held (outstanding B') n k + res k b \<le> spent B n k + held (outstanding B) n k + res k a"
    and "held (outstanding B') n Model_Calls + res Model_Calls b \<le> held (outstanding B) n Model_Calls + res Model_Calls a"
    and "rules B' n = rules B n"
  shows "affordable B' n b"
  using assms(1,3,4) assms(2) unfolding affordable_def
  by (cases "rules B n") (auto intro: order_trans)

lemma solvent_op:
  assumes op: "op_ok op" "frugal op" and B: "books_ok B" "solvent B"
  shows "solvent (snd (book_op op B))"
proof -
  have fin: "finite (dom (outstanding B))" and sp: "\<And>n k. 0 \<le> spent B n k"
    and pos: "\<And>r i k. outstanding B i = Some r \<Longrightarrow> 0 \<le> res k (amount r)"
    using B(1) by (auto simp: books_ok_def ran_def intro: res_nonneg)
  have aff: "\<And>n. affordable B n zero_amount"
    using B(2) by (simp add: solvent_def)
  show ?thesis
  proof (cases op)
    case (Configure n b)
    have "affordable (B\<lparr>rules := (rules B)(m := Some b)\<rparr>) x zero_amount"
      if "affordable (B\<lparr>rules := (rules B)(m := Some b)\<rparr>) m zero_amount" for m x
      using that aff [of x] by (cases "x = m") (auto simp: affordable_def split: option.splits)
    then show ?thesis
      using B(2) by (auto simp: Configure solvent_def Let_def split: sum.splits)
  next
    case (Reserve ss a rid)
    have "affordable (B\<lparr>outstanding := (outstanding B)(rid \<mapsto> \<lparr>reservation_id = rid, scopes = ns, amount = a\<rparr>)\<rparr>) x zero_amount"
      if "outstanding B rid = None" "\<forall>n \<in> set ns. affordable B n a" for ns x
      using that aff [of x]
      by (cases "x \<in> set ns") (auto simp: held_new [OF fin] intro: affordable_mono)
    then show ?thesis
      using B(2) by (auto simp: Reserve solvent_def split: sum.splits)
  next
    case (Commit r actual)
    let ?a = "case actual of None \<Rightarrow> amount r | Some a \<Rightarrow> a"
    have le: "res k ?a \<le> res k (amount r)" for k
      using op(2) by (auto simp: Commit split: option.splits)
    have "affordable (post (scopes r) ?a (drop r B)) x zero_amount"
      if "outstanding B (reservation_id r) = Some r" for x
      using aff [of x] by (rule affordable_mono)
        (use le pos [OF that] le [of Model_Calls] pos [OF that, of Model_Calls] in \<open>auto simp: post_def drop_def held_gone [OF fin that]\<close>)
    then show ?thesis
      using B(2) by (simp add: Commit solvent_def Let_def)
  next
    case (Rollback r)
    have "affordable (drop r B) x zero_amount" if "outstanding B (reservation_id r) = Some r" for x
      using aff [of x] by (rule affordable_mono)
        (use pos [OF that] pos [OF that, of Model_Calls] in \<open>auto simp: drop_def held_gone [OF fin that]\<close>)
    then show ?thesis
      using B(2) by (simp add: Rollback solvent_def)
  next
    case (Consume ss a)
    have "affordable (post ns a B) x zero_amount" if "a = zero_amount \<or> (\<forall>n \<in> set ns. affordable B n a)" for ns x
    proof (cases "x \<in> set ns \<and> a \<noteq> zero_amount")
      case True
      then have "affordable B x a"
        using that by auto
      then show ?thesis
        using res_nonneg [of a Model_Calls] op(1)
        by (elim affordable_mono) (simp_all add: post_def True Consume)
    next
      case False
      show ?thesis
        using aff [of x] by (rule affordable_mono) (use False in \<open>auto simp: post_def\<close>)
    qed
    then show ?thesis
      using B(2) by (auto simp: Consume solvent_def split: sum.splits)
  next
    case (Clear n)
    have "affordable (B\<lparr>spent := (spent B)(m := (\<lambda>_. 0))\<rparr>) x zero_amount" for m x
      using aff [of x] by (rule affordable_mono) (use sp in auto)
    then show ?thesis
      using B(2) by (auto simp: Clear solvent_def split: sum.splits)
  qed
qed

lemma books_of_ok: "ledger_ok L \<Longrightarrow> books_ok (books_of L)"
  using ledger_ok_reservation ledger_okD(3)
  by (auto simp: books_ok_def finite_dom_map_of ran_def state_ok_def intro!: res_nonneg)

lemma new_ledger_solvent:
  assumes "\<And>b. d = Some b \<Longrightarrow> limits_ok b"
  shows "solvent (books_of (new_ledger d))"
proof -
  have "0 \<le> l" if "d = Some b" "cap k b = Some l \<or> max_concurrent_model_calls b = Some l" for b k l
    using that(2) assms [OF that(1)] by (cases k) (auto simp: limits_ok_def limit_values_def split: if_splits)
  moreover have "model_calls zero_amount = 0"
    by (simp add: zero_amount_def)
  ultimately show ?thesis
    by (auto simp: solvent_def affordable_def new_ledger_def limits_of_def state_of_def held_def
        new_scope_state_def split: option.splits)
qed

lemma run_ops_solvent:
  "\<lbrakk>ledger_ok L; solvent (books_of L); list_all op_ok ops; list_all frugal ops\<rbrakk>
     \<Longrightarrow> solvent (books_of (run_ops ops L))"
proof (induction ops arbitrary: L)
  case (Cons op ops)
  note sim = simulatesD [OF op_simulates [of L op]]
  show ?case
    using Cons.prems solvent_op [of op "books_of L"] sim
    by (simp add: Cons.IH books_of_ok)
qed simp

section \<open>What the ledger promises\<close>

text \<open>
  C9. The ledger implements its books. From any ledger that a history of operations leads to, an
  operation does to the books (spent per scope and resource, outstanding reservations, limits)
  exactly what its specification \<open>book_op\<close> says, and raises exactly when that refuses it. In
  particular a reservation is granted in all its scopes or in none, and the decrements that
  \<open>commit\<close> and \<open>rollback\<close> make never fail.
\<close>
theorem ledger_refines_books:
  assumes "list_all op_ok (op # ops)"
  shows "let L = run_ops ops (new_ledger d) in case apply_op op L of (out, L') \<Rightarrow>
    book_op op (books_of L) = (out = Inr (), books_of L')"
  using op_simulates [OF reachable_ok [of ops d], of op] assms
  by (auto simp: simulates_def Let_def)

text \<open>
  C11. The reserved usage of a scope is always the sum of the outstanding reservations over it,
  resource by resource, and its count of active model calls is the sum of their model calls.
\<close>
theorem reservations_balance:
  assumes "list_all op_ok ops"
  shows "let L = run_ops ops (new_ledger d) in
    \<forall>n k. res k (reserved (state_of L n)) = held_by k n (reservations L)
      \<and> active_model_calls (state_of L n) = held_by Model_Calls n (reservations L)"
  using ledger_okD(4,5) [OF reachable_ok [OF assms, of d]] by (simp add: Let_def)

text \<open>
  C10. The ledger never oversells: as long as every commit settles at most what was reserved, the
  committed and reserved usage of every scope stays within every limit in force for it, and the
  active model calls stay within the concurrency limit, whatever the interleaving of
  reservations, settlements, rollbacks, direct consumption and new limits.
\<close>
theorem ledger_never_oversells:
  assumes "list_all op_ok ops" and "list_all frugal ops" and "\<And>b. d = Some b \<Longrightarrow> limits_ok b"
    and "limits_of (run_ops ops (new_ledger d)) n = Some b"
  shows "let st = state_of (run_ops ops (new_ledger d)) n in
    (\<forall>k l. cap k b = Some l \<longrightarrow> res k (committed st) + res k (reserved st) \<le> l)
    \<and> (\<forall>l. max_concurrent_model_calls b = Some l \<longrightarrow> active_model_calls st \<le> l)"
proof -
  let ?L = "run_ops ops (new_ledger d)"
  have ok: "ledger_ok ?L"
    by (rule reachable_ok [OF assms(1)])
  have "solvent (books_of ?L)"
    using new_ledger_solvent assms(1-3) by (intro run_ops_solvent new_ledger_ok) blast+
  then have "fits (state_of ?L n) zero_amount b"
    using assms(4) by (simp add: solvent_def affordable_fits [OF ok])
  moreover have "model_calls zero_amount = 0"
    by (simp add: zero_amount_def)
  ultimately show ?thesis
    by (simp add: fits_def Let_def)
qed

lemma op_refused:
  assumes ok: "ledger_ok L" and op: "op_ok op" and out: "apply_op op L = (Inl e, L')"
    and nc: "\<And>r actual. op = Commit r actual \<Longrightarrow> dict_get (reservations L) (reservation_id r) \<noteq> Some r"
  shows "L' = L"
proof -
  have refuse: "\<not> fst (book_op op (books_of L))"
    using simulatesD(1) [OF op_simulates [OF ok op]] out by simp
  show ?thesis
  proof (cases op)
    case (Configure n b)
    then show ?thesis
      using out by (auto simp: configure_scope_def split: sum.splits)
  next
    case (Reserve ss a rid)
    then show ?thesis
      using out refuse op check_scopes_affordable [OF ok, of a]
      by (auto simp: ledger_reserve_def is_zero_iff dict_has_get split: sum.splits if_splits)
  next
    case (Commit r actual)
    then show ?thesis
      using out nc by (auto simp: ledger_commit_def require_stored [OF ok] Let_def)
  next
    case (Rollback r)
    then show ?thesis
      using out refuse by (auto simp: ledger_rollback_def require_stored [OF ok] split: if_splits)
  next
    case (Consume ss a)
    then show ?thesis
      using out refuse op check_scopes_affordable [OF ok, of a]
      by (auto simp: ledger_consume_def is_zero_iff split: sum.splits if_splits)
  next
    case (Clear n)
    then show ?thesis
      using out by (auto simp: ledger_clear_def split: sum.splits if_splits)
  qed
qed

text \<open>
  A refused operation changes nothing at all: when an operation raises, the ledger is the one
  it was called on. The exception is a commit of an outstanding reservation, which raises only
  after it has recorded the usage.
\<close>
theorem refused_changes_nothing:
  assumes "list_all op_ok (op # ops)" and "L = run_ops ops (new_ledger d)"
    and "apply_op op L = (Inl e, L')"
    and "\<And>r actual. op = Commit r actual \<Longrightarrow> dict_get (reservations L) (reservation_id r) \<noteq> Some r"
  shows "L' = L"
  using op_refused [OF reachable_ok [of ops d], of op e L'] assms by auto

lemma first_current_error:
  assumes "ledger_ok L" and "set ns \<subseteq> set (dict_keys (states L))"
    and "first_current_violation L ns = Some e"
  shows "\<exists>n rs l cur q. e = UE_Limit n rs l cur q \<and> n \<in> set ns \<and> l < cur + q"
  using assms(2,3)
proof (induction ns)
  case (Cons n ns)
  then obtain st where st: "dict_get (states L) n = Some st"
    using dict_has_get [of n "states L"] by (auto simp: dict_has_def)
  have "state_of L n = st"
    by (simp add: state_of_def st)
  then have chk: "check_limits n st zero_amount b = Inl e' \<Longrightarrow> \<exists>rs l cur q. e' = UE_Limit n rs l cur q \<and> l < cur + q"
    for b e'
    using check_limits_cases(2) [OF ledger_okD(3) [OF assms(1)] zero_ok, of n n b e'] by simp
  show ?case
    using Cons chk by (auto simp: st split: option.splits sum.splits) blast+
qed simp

lemma commit_settled:
  assumes ok: "ledger_ok L" and r: "dict_get (reservations L) (reservation_id r) = Some r"
    and a: "op_ok (Commit r actual)" and out: "ledger_commit r actual L = (out, L')"
  shows "books_of L' = post (scopes r) (case actual of None \<Rightarrow> amount r | Some a \<Rightarrow> a) (drop r (books_of L))"
    and "out = Inl e \<Longrightarrow> \<exists>n rs l cur q. e = UE_Limit n rs l cur q \<and> n \<in> set (scopes r) \<and> l < cur + q"
proof -
  let ?a = "case actual of None \<Rightarrow> amount r | Some a \<Rightarrow> a"
  have sim: "book_op (Commit r actual) (books_of L) = (out = Inr (), books_of L')" "ledger_ok L'"
    using simulatesD [OF op_simulates [OF ok a]] out by simp_all
  then show "books_of L' = post (scopes r) ?a (drop r (books_of L))"
    using r by (simp add: Let_def)
  have "amount_ok ?a"
    using a ledger_ok_reservation [OF ok r] by (simp split: option.splits)
  then obtain M where M: "update_scopes state_at (settle (amount r) ?a) (scopes r) L = (Inr (), M)"
    "set (scopes r) \<subseteq> set (dict_keys (states M))"
    and okM: "ledger_ok (M\<lparr>reservations := dict_del (reservation_id r) (reservations M)\<rparr>)"
    by (elim settle_states [OF ok r]) iprover
  show "out = Inl e \<Longrightarrow> \<exists>n rs l cur q. e = UE_Limit n rs l cur q \<and> n \<in> set (scopes r) \<and> l < cur + q"
    using out first_current_error [OF okM, of "scopes r"] M
    by (auto simp: ledger_commit_def require_stored [OF ok] r Let_def split: option.splits)
qed

text \<open>
  A commit settles its reservation whatever it answers: the reservation is gone, every one of
  its scopes has the actual usage added to what it has spent (the reserved amount when no actual
  usage is given), nothing else changes, and the only error it can raise is that of a limit which
  the usage really exceeds, in one of these scopes. Usage that has happened is never lost.
\<close>
theorem commit_settles:
  assumes "list_all op_ok (Commit r actual # ops)" and "L = run_ops ops (new_ledger d)"
    and "dict_get (reservations L) (reservation_id r) = Some r"
    and "ledger_commit r actual L = (out, L')"
  shows "books_of L' = post (scopes r) (case actual of None \<Rightarrow> amount r | Some a \<Rightarrow> a) (drop r (books_of L))
    \<and> (\<forall>e. out = Inl e \<longrightarrow> (\<exists>n rs l cur q. e = UE_Limit n rs l cur q \<and> n \<in> set (scopes r) \<and> l < cur + q))"
  using commit_settled [of L r actual out L'] reachable_ok [of ops d] assms by auto

lemma snapshot_of_books:
  assumes "ledger_ok L" and "ledger_ok M" and "books_of L = books_of M"
  shows "state_of L n = state_of M n"
proof -
  have sp: "res k (committed (state_of L n)) = res k (committed (state_of M n))" for k
    using assms(3) by (metis books_of_simps(2))
  have "outstanding (books_of L) = outstanding (books_of M)"
    using assms(3) by simp
  then have re: "res k (reserved (state_of L n)) = res k (reserved (state_of M n))" for k
    using held_reserved [OF assms(1), of n k] held_reserved [OF assms(2), of n k] by simp
  have "committed (state_of L n) = committed (state_of M n)" "reserved (state_of L n) = reserved (state_of M n)"
    using ledger_okD(3) assms(1,2) sp re by (auto simp: state_ok_def intro!: amount_eqI)
  moreover have "active_model_calls (state_of L n) = active_model_calls (state_of M n)"
    unfolding active_reserved [OF assms(1)] active_reserved [OF assms(2)] by (rule re)
  ultimately show ?thesis
    by simp
qed

lemma reserved_books:
  assumes ok: "ledger_ok L" and a: "amount_ok a" and out: "ledger_reserve ss a rid L = (Inr r, M)"
  shows "ledger_ok M" and "dict_get (reservations L) (reservation_id r) = None"
    and "dict_get (reservations M) (reservation_id r) = Some r" and "drop r (books_of M) = books_of L"
proof -
  have op: "op_ok (Reserve ss a rid)"
    using a by simp
  have sim: "book_op (Reserve ss a rid) (books_of L) = (True, books_of M)" "ledger_ok M"
    using simulatesD [OF op_simulates [OF ok op]] out by simp_all
  obtain ns where ns: "normalize_scopes ss = Inr ns" and free: "dict_get (reservations L) rid = None"
    and B: "books_of M = (books_of L)\<lparr>outstanding := (dict_get (reservations L))(rid \<mapsto>
      \<lparr>reservation_id = rid, scopes = ns, amount = a\<rparr>)\<rparr>"
    using sim(1) by (auto split: sum.splits if_splits)
  have "r = \<lparr>reservation_id = rid, scopes = ns, amount = a\<rparr>"
    using out ns by (auto simp: ledger_reserve_def Let_def split: if_splits sum.splits prod.splits)
  moreover have "outstanding (books_of M) rid = Some \<lparr>reservation_id = rid, scopes = ns, amount = a\<rparr>"
    by (simp add: B del: books_of_simps)
  moreover have "drop \<lparr>reservation_id = rid, scopes = ns, amount = a\<rparr> (books_of M) = books_of L"
    using free by (simp add: B drop_def fun_upd_idem del: books_of_simps) (simp add: books_of_def)
  ultimately show "dict_get (reservations L) (reservation_id r) = None"
    "dict_get (reservations M) (reservation_id r) = Some r" "drop r (books_of M) = books_of L"
    using free by simp_all
  show "ledger_ok M"
    by (rule sim(2))
qed

text \<open>
  A reservation that is rolled back leaves no trace: the rollback succeeds, every scope has
  its old state again, and the same reservations are outstanding as before.
\<close>
theorem reserve_then_rollback:
  assumes "list_all op_ok ops" and "amount_ok a" and "L = run_ops ops (new_ledger d)"
    and "ledger_reserve ss a rid L = (Inr r, M)"
  shows "\<exists>N. ledger_rollback r M = (Inr (), N) \<and> (\<forall>n. state_of N n = state_of L n)
    \<and> dict_get (reservations N) = dict_get (reservations L) \<and> limits_of N = limits_of L"
proof -
  have ok: "ledger_ok L"
    using reachable_ok [OF assms(1)] assms(3) by simp
  note res = reserved_books [OF ok assms(2,4)]
  obtain out N where N: "ledger_rollback r M = (out, N)"
    by (cases "ledger_rollback r M")
  have sim: "book_op (Rollback r) (books_of M) = (out = Inr (), books_of N)" "ledger_ok N"
    using simulatesD [OF op_simulates [OF res(1), of "Rollback r"]] N by simp_all
  then have "out = Inr ()" and books: "books_of N = books_of L"
    using res(3,4) by simp_all
  moreover have "state_of N n = state_of L n" for n
    by (rule snapshot_of_books [OF sim(2) ok books])
  ultimately show ?thesis
    using N books by (metis books_of_simps(1,3))
qed

section \<open>The budget policy and the ledger\<close>

lemma snapshot_state:
  assumes "ledger_ok L" and "ledger_snapshot n L = Inr u"
  shows "u = state_of L (strip n) \<and> \<not> blank n"
proof -
  have "new_UsageAmount (committed (state_of L x)) = Inr (committed (state_of L x))" for x
    using ledger_okD(3) [OF assms(1), of x] by (intro new_amount_idem) (simp add: state_ok_def)
  then show ?thesis
    using assms(2)
    by (auto simp: ledger_snapshot_def normalize_scope_def blank_def Let_def split: if_splits)
qed

lemma budget_row:
  assumes "cap k b = Some l"
  shows "(res k (committed u) + res k (reserved u), Some l) \<in> set (budget_checks b u)"
proof (cases k)
  case (Cost c)
  then have "currency_of c = currency_of (cost_currency b)" and "max_cost_micros b = Some l"
    using assms by (simp_all split: if_splits)
  then show ?thesis
    unfolding Cost res.simps budget_checks_def Let_def
    by (simp only: cost_for_cong [of c "cost_currency b"]) simp
qed (use assms in \<open>simp_all add: budget_checks_def Let_def\<close>)

lemma budget_below:
  assumes "list_all (\<lambda>(val, bound). case bound of None \<Rightarrow> True | Some l \<Rightarrow> val < l) (budget_checks b u)"
  shows "cap k b = Some l \<Longrightarrow> res k (committed u) + res k (reserved u) < l"
    and "max_concurrent_model_calls b = Some m \<Longrightarrow> active_model_calls u < m"
proof -
  have row: "(val, Some x) \<in> set (budget_checks b u) \<Longrightarrow> val < x" for val x
    using assms by (force simp: list_all_iff)
  show "cap k b = Some l \<Longrightarrow> res k (committed u) + res k (reserved u) < l"
    by (rule row [OF budget_row])
  assume "max_concurrent_model_calls b = Some m"
  then have "(active_model_calls u, Some m) \<in> set (budget_checks b u)"
    by (simp add: budget_checks_def Let_def)
  then show "active_model_calls u < m"
    by (rule row)
qed

lemma consume_unit:
  assumes ok: "ledger_ok L" and u: "amount_ok u" "\<And>k. res k u \<le> 1" "model_calls u = 0"
    and n: "\<not> blank n" and b: "limits_of L (strip n) = Some b"
    and below: "\<And>k l. cap k b = Some l
        \<Longrightarrow> res k (committed (state_of L (strip n))) + res k (reserved (state_of L (strip n))) < l"
      "\<And>m. max_concurrent_model_calls b = Some m \<Longrightarrow> active_model_calls (state_of L (strip n)) < m"
  shows "fst (ledger_consume [n] u L) = Inr ()"
proof -
  have "res k (committed (state_of L (strip n))) + res k (reserved (state_of L (strip n))) + res k u \<le> l"
    if "cap k b = Some l" for k l
    using below(1) [OF that] u(2) [of k] by linarith
  moreover have "active_model_calls (state_of L (strip n)) + model_calls u \<le> m"
    if "max_concurrent_model_calls b = Some m" for m
    using below(2) [OF that] u(3) by simp
  ultimately have "fits (state_of L (strip n)) u b"
    by (simp add: fits_def)
  then have "affordable (books_of L) (strip n) u"
    by (simp add: affordable_fits [OF ok] b)
  moreover have "normalize_scopes [n] = Inr [strip n]"
    using n by (simp add: normalize_scopes_def normalize_scope_def blank_def)
  ultimately show ?thesis
    using simulatesD(1) [OF op_simulates [OF ok, of "Consume [n] u"]] u(1) by simp
qed

lemma unit_amounts:
  "model_calls zero_amount = 0"
  "amount_ok (zero_amount\<lparr>attempts := 1\<rparr>)" "res k (zero_amount\<lparr>attempts := 1\<rparr>) \<le> 1"
  "amount_ok (zero_amount\<lparr>tool_calls := 1\<rparr>)" "res k (zero_amount\<lparr>tool_calls := 1\<rparr>) \<le> 1"
  "amount_ok (zero_amount\<lparr>agent_tasks := 1\<rparr>)" "res k (zero_amount\<lparr>agent_tasks := 1\<rparr>) \<le> 1"
  by (simp add: zero_amount_def)
    (cases k; simp add: amount_ok_def counters_def zero_amount_def costs_ok_def cost_for_def)+

text \<open>
  The budget policy and the ledger agree: when the policy lets a run go on under the limits that
  the ledger has for it, the next attempt, the next tool call and the next agent task of the run
  can each be recorded without exceeding a limit.
\<close>
theorem policy_admits_next:
  assumes "list_all op_ok ops" and "L = run_ops ops (new_ledger d)"
    and "limits_of L (strip n) = Some b" and "budget_can_continue b L n = Inr True"
  shows "fst (record_attempt [n] L) = Inr () \<and> fst (record_tool_call [n] L) = Inr ()
    \<and> fst (record_agent_task [n] L) = Inr ()"
proof -
  have ok: "ledger_ok L"
    using reachable_ok [OF assms(1)] assms(2) by simp
  obtain u where u: "ledger_snapshot n L = Inr u"
    and below: "list_all (\<lambda>(val, bound). case bound of None \<Rightarrow> True | Some l \<Rightarrow> val < l) (budget_checks b u)"
    using assms(4) by (cases "ledger_snapshot n L") (auto simp: budget_can_continue_def)
  note st = snapshot_state [OF ok u]
  note unit = consume_unit [OF ok _ _ _ _ assms(3)]
  show ?thesis
    unfolding record_attempt_def record_tool_call_def record_agent_task_def
    using st budget_below [OF below] by (intro conjI unit) (simp_all add: unit_amounts)
qed

section \<open>A concrete history\<close>

definition demo_limits :: budget_limits where
  "demo_limits = \<lparr>max_model_calls = Some 2, max_concurrent_model_calls = Some 1, max_attempts = Some 3,
     max_executor_attempts = Some 3, max_input_tokens = Some 100, max_output_tokens = None,
     max_total_tokens = None, max_cache_hit_tokens = None, max_cache_miss_tokens = None,
     max_reasoning_tokens = None, max_cost_micros = Some 50, cost_currency = ''USD'',
     max_tool_calls = Some 3, max_agent_tasks = Some 2\<rparr>"

definition demo_call :: usage_amount where
  "demo_call = zero_amount\<lparr>model_calls := 1, input_tokens := 60, costs_micros := [(''USD'', 30)]\<rparr>"

definition demo_used :: usage_amount where
  "demo_used = zero_amount\<lparr>model_calls := 1, input_tokens := 40, costs_micros := [(''USD'', 20)]\<rparr>"

definition demo_over :: usage_amount where
  "demo_over = zero_amount\<lparr>model_calls := 1, input_tokens := 140, costs_micros := [(''USD'', 60)]\<rparr>"

definition demo_reservation :: reservation where
  "demo_reservation = \<lparr>reservation_id = ''r1'', scopes = [''run''], amount = demo_call\<rparr>"

definition demo_ops :: "ledger_op list" where
  "demo_ops = [Configure ''run'' demo_limits, Reserve ['' run ''] demo_call ''r1'',
     Commit demo_reservation (Some demo_used)]"

lemmas demo_usage_defs = demo_ops_def demo_reservation_def demo_limits_def demo_call_def demo_used_def
  demo_over_def

theorem ledger_refines_books_witness:
  "let L = run_ops demo_ops (new_ledger None) in
   case apply_op (Commit demo_reservation None) L of (out, L') \<Rightarrow>
     book_op (Commit demo_reservation None) (books_of L) = (out = Inr (), books_of L')"
  by (rule ledger_refines_books) code_simp

theorem reservations_balance_witness:
  "let L = run_ops (take 2 demo_ops) (new_ledger None) in
    \<forall>n k. res k (reserved (state_of L n)) = held_by k n (reservations L)
      \<and> active_model_calls (state_of L n) = held_by Model_Calls n (reservations L)"
  by (rule reservations_balance) code_simp

definition demo_ledger :: ledger where
  "demo_ledger = run_ops demo_ops (new_ledger None)"

definition demo_open :: ledger where
  "demo_open = run_ops (take 2 demo_ops) (new_ledger None)"

theorem ledger_never_oversells_witness:
  "limits_of demo_ledger ''run'' = Some demo_limits
   \<and> (\<forall>k. case cap k demo_limits of None \<Rightarrow> True | Some l \<Rightarrow>
        res k (committed (state_of demo_ledger ''run'')) + res k (reserved (state_of demo_ledger ''run'')) \<le> l)"
proof -
  have lim: "limits_of demo_ledger ''run'' = Some demo_limits"
    by code_simp
  have fr: "frugal (Commit demo_reservation (Some demo_used))"
    unfolding frugal.simps
  proof
    fix k
    show "res k demo_used \<le> res k (amount demo_reservation)"
      by (cases k) (simp_all add: demo_usage_defs zero_amount_def cost_for_def)
  qed
  have "list_all frugal demo_ops"
    using fr by (simp add: demo_ops_def)
  moreover have "list_all op_ok demo_ops"
    by code_simp
  ultimately show ?thesis
    using ledger_never_oversells [of demo_ops None "''run''" demo_limits] lim
    by (simp add: demo_ledger_def Let_def split: option.split)
qed

theorem refused_changes_nothing_witness:
  "snd (apply_op (Reserve [''run''] demo_over ''r2'') demo_ledger) = demo_ledger"
proof (rule refused_changes_nothing)
  show "list_all op_ok (Reserve [''run''] demo_over ''r2'' # demo_ops)"
    by code_simp
  show "demo_ledger = run_ops demo_ops (new_ledger None)"
    by (rule demo_ledger_def)
  have "fst (apply_op (Reserve [''run''] demo_over ''r2'') demo_ledger)
    = Inl (UE_Limit ''run'' ''input_tokens'' 100 40 140)"
    by code_simp
  then show "apply_op (Reserve [''run''] demo_over ''r2'') demo_ledger
    = (Inl (UE_Limit ''run'' ''input_tokens'' 100 40 140), snd (apply_op (Reserve [''run''] demo_over ''r2'') demo_ledger))"
    by (metis prod.collapse)
qed simp

theorem commit_settles_witness:
  "\<exists>L'. ledger_commit demo_reservation (Some demo_over) demo_open
      = (Inl (UE_Limit ''run'' ''input_tokens'' 100 140 0), L')
    \<and> books_of L' = post [''run''] demo_over (drop demo_reservation (books_of demo_open))"
proof -
  have fst: "fst (ledger_commit demo_reservation (Some demo_over) demo_open)
      = Inl (UE_Limit ''run'' ''input_tokens'' 100 140 0)"
    by code_simp
  have "list_all op_ok (Commit demo_reservation (Some demo_over) # take 2 demo_ops)"
    by code_simp
  moreover have "dict_get (reservations demo_open) (reservation_id demo_reservation) = Some demo_reservation"
    by code_simp
  moreover obtain L' where L': "ledger_commit demo_reservation (Some demo_over) demo_open
      = (Inl (UE_Limit ''run'' ''input_tokens'' 100 140 0), L')"
    using fst by (metis prod.collapse)
  ultimately have "books_of L' = post (scopes demo_reservation) demo_over (drop demo_reservation (books_of demo_open))"
    using commit_settles [of demo_reservation "Some demo_over" "take 2 demo_ops" demo_open None] 
    by (simp add: demo_open_def)
  with L' show ?thesis
    by (simp add: demo_reservation_def)
qed

theorem reserve_then_rollback_witness:
  "\<exists>r M N. ledger_reserve [''run''] demo_used ''r2'' demo_ledger = (Inr r, M)
    \<and> ledger_rollback r M = (Inr (), N) \<and> (\<forall>n. state_of N n = state_of demo_ledger n)"
proof -
  let ?r = "\<lparr>reservation_id = ''r2'', scopes = [''run''], amount = demo_used\<rparr>"
  have "fst (ledger_reserve [''run''] demo_used ''r2'' demo_ledger) = Inr ?r"
    by code_simp
  then obtain M where M: "ledger_reserve [''run''] demo_used ''r2'' demo_ledger = (Inr ?r, M)"
    by (metis prod.collapse)
  have "list_all op_ok demo_ops" and "amount_ok demo_used"
    by code_simp+
  then show ?thesis
    using reserve_then_rollback [OF _ _ demo_ledger_def M] M by blast
qed

theorem policy_admits_next_witness:
  "fst (record_attempt ['' run''] demo_ledger) = Inr ()"
proof -
  have "list_all op_ok demo_ops" and "limits_of demo_ledger (strip '' run'') = Some demo_limits"
    and "budget_can_continue demo_limits demo_ledger '' run'' = Inr True"
    by code_simp+
  then show ?thesis
    using policy_admits_next [OF _ demo_ledger_def] by blast
qed

end
