(* ===== verification/TeamModels.thy ===== *)
theory TeamModels
  imports LoopModels
begin

text \<open>
  The value objects of \<open>matterloop_agents/collaboration/models.py\<close> and the exceptions of
  \<open>errors.py\<close>: tasks, their states and results, agents, team requests, reviews and snapshots.
  A constructor \<open>new_X\<close> is the dataclass \<open>X\<close> with its \<open>__post_init__\<close>. Freezing metadata copies
  it, which is the identity on the immutable values of the model.
\<close>

section \<open>Exceptions\<close>

abbreviation InvalidTaskGraph :: "string \<Rightarrow> exn" where
  "InvalidTaskGraph \<equiv> Other ''InvalidTaskGraphError''"

abbreviation InvalidTaskTransition :: "string \<Rightarrow> exn" where
  "InvalidTaskTransition \<equiv> Other ''InvalidTaskTransitionError''"

abbreviation AgentAlreadyRegistered :: "string \<Rightarrow> exn" where
  "AgentAlreadyRegistered \<equiv> Other ''AgentAlreadyRegisteredError''"

abbreviation AgentNotFound :: "string \<Rightarrow> exn" where
  "AgentNotFound \<equiv> Other ''AgentNotFoundError''"

abbreviation NoCapableAgent :: "string \<Rightarrow> exn" where
  "NoCapableAgent \<equiv> Other ''NoCapableAgentError''"

abbreviation AgentCapacity :: "string \<Rightarrow> exn" where
  "AgentCapacity \<equiv> Other ''AgentCapacityError''"

text \<open>\<open>repr\<close> of a string without quotes, backslashes or control characters.\<close>

definition repr_text :: "string \<Rightarrow> string" where
  "repr_text s = [CHR 0x27] @ s @ [CHR 0x27]"

fun join :: "string \<Rightarrow> string list \<Rightarrow> string" where
  "join sep [] = []"
| "join sep [x] = x"
| "join sep (x # xs) = x @ sep @ join sep xs"

section \<open>Statuses\<close>

datatype team_status =
    T_CREATED | T_PLANNING | T_RUNNING | T_WAITING_APPROVAL | T_PAUSED | T_BLOCKED | T_COMPLETED
  | T_FAILED | T_CANCELLED | T_TIMED_OUT

definition team_is_terminal :: "team_status \<Rightarrow> bool" where
  "team_is_terminal s \<longleftrightarrow> s \<in> {T_COMPLETED, T_FAILED, T_CANCELLED, T_TIMED_OUT}"

datatype task_status =
    PENDING | READY | WAITING | RUNNING | CHECKING | SUCCEEDED | FAILED_TASK | BLOCKED_TASK | CANCELLED_TASK

fun task_status_value :: "task_status \<Rightarrow> string" where
  "task_status_value PENDING = ''pending''"
| "task_status_value READY = ''ready''"
| "task_status_value WAITING = ''waiting_approval''"
| "task_status_value RUNNING = ''running''"
| "task_status_value CHECKING = ''verifying''"
| "task_status_value SUCCEEDED = ''succeeded''"
| "task_status_value FAILED_TASK = ''failed''"
| "task_status_value BLOCKED_TASK = ''blocked''"
| "task_status_value CANCELLED_TASK = ''cancelled''"

definition task_is_terminal :: "task_status \<Rightarrow> bool" where
  "task_is_terminal s \<longleftrightarrow> s \<in> {SUCCEEDED, FAILED_TASK, BLOCKED_TASK, CANCELLED_TASK}"

datatype team_stop_reason =
    TS_COMPLETED | TS_APPROVAL_DEFERRED | TS_APPROVAL_REJECTED | TS_TASK_FAILED | TS_NO_CAPABLE_AGENT
  | TS_AGENT_CAPACITY | TS_DEADLOCK | TS_CANCELLED | TS_TIMED_OUT | TS_COMPONENT_ERROR | TS_CYCLE_LIMIT
  | TS_PLAN_REVISION_LIMIT | TS_REVIEW_STOPPED | TS_HUMAN_REJECTED | TS_BUDGET_EXHAUSTED
  | TS_RECOVERY_REQUIRED

section \<open>Requests\<close>

record team_limits =
  max_tasks :: int
  max_concurrency :: int
  max_task_attempts :: int
  tl_max_cycles :: int
  max_plan_revisions :: int
  tl_timeout_seconds :: "pyfloat option"

definition new_TeamLimits :: "team_limits \<Rightarrow> exn + team_limits" where
  "new_TeamLimits l =
     require (max_tasks l \<ge> 1) ''max_tasks must be at least 1''
    (require (max_concurrency l \<ge> 1) ''max_concurrency must be at least 1''
    (require (max_task_attempts l \<ge> 1) ''max_task_attempts must be at least 1''
    (require (tl_max_cycles l \<ge> 1) ''max_cycles must be at least 1''
    (require (max_plan_revisions l \<ge> 0) ''max_plan_revisions must not be negative''
    (require (case tl_timeout_seconds l of None \<Rightarrow> True
              | Some t \<Rightarrow> \<not> (\<not> isfinite t \<or> float_le t (Fin 0)))
       ''timeout_seconds must be finite and greater than 0''
    (Inr l))))))"

record team_request =
  tq_goal :: string
  tq_criteria :: "string list"
  tq_limits :: team_limits
  tq_metadata :: metadata

definition new_TeamRequest :: "team_request \<Rightarrow> exn + team_request" where
  "new_TeamRequest r =
     require (\<not> blank (tq_goal r)) ''goal must not be empty''
    (require (\<not> list_ex blank (tq_criteria r)) ''acceptance_criteria must not contain empty values''
    (Inr r))"

section \<open>Tasks\<close>

record task_spec =
  task_id :: string
  task_description :: string
  capability :: string
  dependencies :: "string list"
  task_criteria :: "string list"
  task_approval :: bool
  priority :: int
  task_metadata :: metadata
  replay_safe :: bool

definition new_TaskSpec :: "task_spec \<Rightarrow> exn + task_spec" where
  "new_TaskSpec t =
     require (\<not> blank (task_id t)) ''task_id must not be empty''
    (require (\<not> blank (task_description t)) ''description must not be empty''
    (require (\<not> blank (capability t)) ''capability must not be empty''
    (require (\<not> list_ex blank (dependencies t)) ''dependencies must not contain empty values''
    (require (distinct (dependencies t)) ''dependencies must not contain duplicates''
    (require (task_id t \<notin> set (dependencies t)) ''task must not depend on itself''
    (require (\<not> list_ex blank (task_criteria t)) ''acceptance_criteria must not contain empty values''
    (Inr t)))))))"

text \<open>
  \<open>==\<close> on task definitions, which compares metadata mappings by value. Python compares the same
  object as equal to itself even where it holds a \<open>NaN\<close>; so does the first disjunct.
\<close>

definition spec_eq :: "task_spec \<Rightarrow> task_spec \<Rightarrow> bool" where
  "spec_eq s t \<longleftrightarrow> s = t \<or> (s\<lparr>task_metadata := []\<rparr> = t\<lparr>task_metadata := []\<rparr>
     \<and> metadata_eq (task_metadata s) (task_metadata t))"

record task_result =
  tr_task :: string
  tr_agent :: string
  tr_success :: bool
  tr_output :: string
  tr_artifacts :: "artifact list"
  tr_error :: string
  tr_attempt :: int
  tr_metadata :: metadata

definition new_TaskResult :: "task_result \<Rightarrow> exn + task_result" where
  "new_TaskResult r =
     require (\<not> blank (tr_task r)) ''task_id must not be empty''
    (require (\<not> blank (tr_agent r)) ''agent_id must not be empty''
    (require (tr_attempt r \<ge> 1) ''attempt must be at least 1''
    (require (\<not> (tr_success r \<and> tr_error r \<noteq> [])) ''successful task result must not contain an error''
    (Inr r))))"

record task_verification =
  tv_passed :: bool
  tv_feedback :: string
  tv_score :: "pyfloat option"
  tv_evidence :: "string list"
  tv_failed :: "string list"

definition new_TaskVerification :: "task_verification \<Rightarrow> exn + task_verification" where
  "new_TaskVerification v =
     require (valid_score (tv_score v)) ''score must be between 0 and 100''
    (require (\<not> list_ex blank (tv_evidence v)) ''evidence must not contain empty values''
    (require (\<not> list_ex blank (tv_failed v)) ''failed_criteria must not contain empty values''
    (require (\<not> (tv_passed v \<and> tv_failed v \<noteq> [])) ''passed verification must not contain failed criteria''
    (Inr v))))"

record task_state =
  spec :: task_spec
  ts_status :: task_status
  ts_attempt :: int
  approval_granted :: bool
  assigned_agent :: "string option"
  ts_result :: "task_result option"
  ts_verification :: "task_verification option"
  ts_error :: string

definition new_TaskState :: "task_state \<Rightarrow> exn + task_state" where
  "new_TaskState s =
     require (\<not> ts_attempt s < 0) ''attempt must not be negative''
    (require (case assigned_agent s of None \<Rightarrow> True | Some a \<Rightarrow> \<not> blank a) ''assigned_agent must not be empty''
    (require (case ts_result s of None \<Rightarrow> True | Some r \<Rightarrow> tr_task r = task_id (spec s))
       ''task result belongs to another task''
    (require (\<not> (ts_status s \<in> {RUNNING, CHECKING} \<and> (ts_attempt s < 1 \<or> assigned_agent s = None)))
       ''inflight task must contain an attempt and assigned agent''
    (require (\<not> (ts_status s = CHECKING
                  \<and> (case ts_result s of None \<Rightarrow> True | Some r \<Rightarrow> \<not> tr_success r)))
       ''verifying task must contain a successful result''
    (require (\<not> (ts_status s = SUCCEEDED
                  \<and> ((case ts_result s of None \<Rightarrow> True | Some r \<Rightarrow> \<not> tr_success r)
                     \<or> (case ts_verification s of None \<Rightarrow> True | Some v \<Rightarrow> \<not> tv_passed v))))
       ''succeeded task must contain a successful result''
    (Inr s))))))"

definition initial_state :: "task_spec \<Rightarrow> task_status \<Rightarrow> task_state" where
  "initial_state t st = \<lparr>spec = t, ts_status = st, ts_attempt = 0, approval_granted = False,
     assigned_agent = None, ts_result = None, ts_verification = None, ts_error = []\<rparr>"

section \<open>Agents\<close>

text \<open>\<open>capabilities\<close> is a frozen set; the model keeps it as a set.\<close>

record agent_spec =
  agent_id :: string
  capabilities :: "string set"
  agent_concurrency :: int
  agent_version :: string
  agent_description :: string
  agent_role :: string
  agent_metadata :: metadata

definition new_AgentSpec :: "agent_spec \<Rightarrow> exn + agent_spec" where
  "new_AgentSpec a =
     require (\<not> blank (agent_id a)) ''agent_id must not be empty''
    (require (\<not> blank (agent_version a)) ''version must not be empty''
    (require (\<not> blank (agent_role a)) ''role must not be empty''
    (require (\<not> (capabilities a = {} \<or> (\<exists>c \<in> capabilities a. blank c)))
       ''capabilities must contain non-empty values''
    (require (agent_concurrency a \<ge> 1) ''max_concurrency must be at least 1''
    (Inr (a\<lparr>capabilities := strip ` capabilities a\<rparr>))))))"

section \<open>Reviews, cycles, snapshots\<close>

datatype review_action = RV_ACCEPT | RV_REPLAN | RV_REQUEST_HUMAN | RV_STOP

record team_review =
  rv_action :: review_action
  rv_feedback :: string
  rv_score :: "pyfloat option"
  rv_evidence :: "string list"
  rv_failed :: "string list"
  rv_interaction :: "interaction option"

definition new_TeamReview :: "team_review \<Rightarrow> exn + team_review" where
  "new_TeamReview r =
     require (valid_score (rv_score r)) ''score must be between 0 and 100''
    (require (\<not> list_ex blank (rv_evidence r)) ''evidence must not contain empty values''
    (require (\<not> list_ex blank (rv_failed r)) ''failed_criteria must not contain empty values''
    (require (\<not> (rv_action r = RV_REQUEST_HUMAN \<and> rv_interaction r = None))
       ''REQUEST_HUMAN review requires an interaction''
    (require (\<not> (rv_action r \<noteq> RV_REQUEST_HUMAN \<and> rv_interaction r \<noteq> None))
       ''only REQUEST_HUMAN review may contain an interaction''
    (Inr r)))))"

record cycle_record =
  cr_cycle :: int
  cr_revision :: int
  cr_tasks :: "task_state list"
  cr_output :: string
  cr_review :: "team_review option"
  cr_error :: string

definition new_TeamCycleRecord :: "cycle_record \<Rightarrow> exn + cycle_record" where
  "new_TeamCycleRecord c =
     require (cr_cycle c \<ge> 1) ''cycle must be at least 1''
    (require (\<not> cr_revision c < 0) ''plan_revision must not be negative''
    (Inr c))"

definition propagation_ok :: "(string \<times> string) list \<Rightarrow> bool" where
  "propagation_ok p \<longleftrightarrow> list_all (\<lambda>(h, v). h \<in> {''traceparent'', ''tracestate''}
     \<and> \<not> (h = ''traceparent'' \<and> v = [])) p"

record team_snapshot =
  tn_request :: team_request
  tn_tasks :: "task_state list"
  tn_run_id :: string
  tn_status :: team_status
  tn_version :: int
  tn_stop_reason :: "team_stop_reason option"
  tn_output :: string
  tn_error :: string
  tn_cycle :: int
  tn_plan_revision :: int
  tn_history :: "cycle_record list"
  tn_interaction :: "interaction option"
  tn_review :: "team_review option"
  tn_human :: "human_record list"
  tn_refs :: "state_ref list"
  tn_approved_cycle :: "int option"
  tn_elapsed :: rat
  tn_started :: "datetime option"
  tn_propagation :: "(string \<times> string) list"
  tn_created :: datetime
  tn_updated :: datetime

definition new_TeamSnapshot :: "team_snapshot \<Rightarrow> exn + team_snapshot" where
  "new_TeamSnapshot s =
     require (\<not> blank (tn_run_id s)) ''run_id must not be empty''
    (require (\<not> tn_version s < 0) ''version must not be negative''
    (require (\<not> tn_cycle s < 0) ''cycle must not be negative''
    (require (\<not> tn_plan_revision s < 0) ''plan_revision must not be negative''
    (require (case tn_approved_cycle s of None \<Rightarrow> True | Some c \<Rightarrow> \<not> c < 1)
       ''review_approved_cycle must be at least 1''
    (require (\<not> tn_elapsed s < 0) ''active_elapsed_seconds must not be negative''
    (require (distinct (map (task_id \<circ> spec) (tn_tasks s))) ''snapshot contains duplicate task identifiers''
    (require (propagation_ok (tn_propagation s))
       ''propagation_context must contain only traceparent/tracestate string values''
    (Inr s))))))))"

end
