(* ===== verification/TaskGraph.thy ===== *)
theory TaskGraph
  imports TeamModels "HOL-Library.Product_Lexorder"
begin

text \<open>
  The task graph of \<open>matterloop_agents/collaboration/task_graph.py\<close>: validation of the
  dependencies by Kahn's algorithm, the states of the tasks and the transitions between them.
  A method that changes the graph maps it to a result and the new graph; an exception leaves
  what was changed before it.
\<close>

section \<open>Validation\<close>

record task_graph =
  g_tasks :: "(string, task_spec) dict"
  g_states :: "(string, task_state) dict"
  dependents :: "(string, string list) dict"

definition in_progress :: "task_status list" where
  "in_progress = [WAITING, RUNNING, CHECKING]"

definition failed_dependencies :: "task_status list" where
  "failed_dependencies = [FAILED_TASK, BLOCKED_TASK, CANCELLED_TASK]"

text \<open>
  The dictionaries of the algorithm have an entry for every task, so the look-ups below never
  meet a missing key on the tasks that passed the earlier checks.
\<close>

definition list_at :: "(string, string list) dict \<Rightarrow> string \<Rightarrow> string list" where
  "list_at d k = (case dict_get d k of None \<Rightarrow> [] | Some xs \<Rightarrow> xs)"

definition count_at :: "(string, int) dict \<Rightarrow> string \<Rightarrow> int" where
  "count_at d k = (case dict_get d k of None \<Rightarrow> 0 | Some n \<Rightarrow> n)"

definition append_at :: "string \<Rightarrow> string \<Rightarrow> (string, string list) dict \<Rightarrow> (string, string list) dict" where
  "append_at k x d = dict_set k (list_at d k @ [x]) d"

definition index_dependents :: "task_spec list \<Rightarrow> (string, string list) dict" where
  "index_dependents ts =
     fold (\<lambda>t. fold (\<lambda>d. append_at d (task_id t)) (dependencies t)) ts (map (\<lambda>t. (task_id t, [])) ts)"

fun decrement ::
  "string list \<Rightarrow> (string, int) dict \<Rightarrow> string list \<Rightarrow> (string, int) dict \<times> string list" where
  "decrement [] remaining ready = (remaining, ready)"
| "decrement (x # xs) remaining ready =
     (let n = count_at remaining x - 1 in
      decrement xs (dict_set x n remaining) (if n = 0 then ready @ [x] else ready))"

definition positives :: "(string, int) dict \<Rightarrow> nat" where
  "positives d = length (filter (\<lambda>(k, n). 0 < n) d)"

lemma positives_set:
  "positives (dict_set x (count_at d x - 1) d) + (if count_at d x - 1 = 0 then 1 else 0) \<le> positives d"
proof (induction d)
  case (Cons p d)
  obtain k n where "p = (k, n)"
    by (cases p)
  with Cons show ?case
    by (auto simp: positives_def count_at_def)
qed (simp add: positives_def count_at_def)

lemma decrement_measure:
  "decrement xs d r = (d', r') \<Longrightarrow> positives d' + length r' \<le> positives d + length r"
proof (induction xs d r rule: decrement.induct)
  case (2 x xs d r)
  then show ?case
    using positives_set [of x d] by (fastforce simp: Let_def split: if_splits)
qed simp

function kahn ::
  "(string, string list) dict \<Rightarrow> (string, int) dict \<Rightarrow> string list \<Rightarrow> nat \<Rightarrow> nat" where
  "kahn deps remaining [] visited = visited"
| "kahn deps remaining (current # ready) visited =
     (case decrement (list_at deps current) remaining ready of
        (remaining', ready') \<Rightarrow> kahn deps remaining' ready' (visited + 1))"
  by pat_completeness auto
termination
  by (relation "measure (\<lambda>(deps, remaining, ready, visited). positives remaining + length ready)")
    (auto dest: decrement_measure [OF sym])

definition missing :: "task_spec list \<Rightarrow> task_spec \<Rightarrow> string list" where
  "missing ts t = sort (remdups (filter (\<lambda>d. d \<notin> set (map task_id ts)) (dependencies t)))"

definition validate_and_index :: "task_spec list \<Rightarrow> exn + (string, string list) dict" where
  "validate_and_index ts =
     (if ts = [] then Inl (InvalidTaskGraph ''task graph must contain at least one task'')
      else if \<not> distinct (map task_id ts)
      then Inl (InvalidTaskGraph ''task graph contains duplicate task identifiers'')
      else case find (\<lambda>t. missing ts t \<noteq> []) ts of
        Some t \<Rightarrow> Inl (InvalidTaskGraph (''task '' @ repr_text (task_id t)
                    @ '' references missing dependencies: '' @ join '', '' (missing ts t)))
      | None \<Rightarrow>
          let deps = index_dependents ts;
              remaining = map (\<lambda>t. (task_id t, int (length (dependencies t)))) ts;
              ready = map fst (filter (\<lambda>(k, n). n = 0) remaining) in
          if kahn deps remaining ready 0 \<noteq> length ts
          then Inl (InvalidTaskGraph ''task graph contains a dependency cycle'')
          else Inr deps)"

section \<open>Refreshing pending tasks\<close>

fun statuses_of :: "(string, task_state) dict \<Rightarrow> string list \<Rightarrow> exn + task_status list" where
  "statuses_of sts [] = Inr []"
| "statuses_of sts (d # ds) = (case dict_get sts d of
       None \<Rightarrow> Inl (KeyError d)
     | Some s \<Rightarrow> map_sum id (Cons (ts_status s)) (statuses_of sts ds))"

text \<open>The outcome for a pending task: blocked, ready, or no change.\<close>

definition pending_outcome :: "task_status list \<Rightarrow> task_state \<Rightarrow> task_state option" where
  "pending_outcome ss s =
     (if list_ex (\<lambda>x. x \<in> set failed_dependencies) ss
      then Some (s\<lparr>ts_status := BLOCKED_TASK, ts_error := ''dependency did not complete successfully''\<rparr>)
      else if list_all (\<lambda>x. x = SUCCEEDED) ss then Some (s\<lparr>ts_status := READY\<rparr>)
      else None)"

fun enqueue :: "string list \<Rightarrow> string list \<Rightarrow> string set \<Rightarrow> string list \<times> string set" where
  "enqueue [] pending queued = (pending, queued)"
| "enqueue (x # xs) pending queued =
     (if x \<notin> queued then enqueue xs (pending @ [x]) (insert x queued) else enqueue xs pending queued)"

definition pendings :: "(string, task_state) dict \<Rightarrow> nat" where
  "pendings sts = length (filter (\<lambda>(k, s). ts_status s = PENDING) sts)"

lemma pendings_set:
  assumes "dict_get sts t = Some s" and "ts_status s = PENDING" and "ts_status s' \<noteq> PENDING"
  shows "pendings (dict_set t s' sts) < pendings sts"
  using assms by (induction sts) (auto simp: pendings_def)

lemma pending_outcome_status: "pending_outcome ss s = Some s' \<Longrightarrow> ts_status s' \<noteq> PENDING"
  by (auto simp: pending_outcome_def split: if_splits)

text \<open>
  \<open>_refresh_pending\<close>. The states that \<open>replace\<close> builds are the old ones with the status \<open>BLOCKED\<close>
  or \<open>READY\<close>, for which \<open>TaskState\<close> has no further condition.
\<close>

function refresh ::
  "(string, string list) dict \<Rightarrow> string list \<Rightarrow> string set \<Rightarrow> (string, task_state) dict
   \<Rightarrow> (exn + unit) \<times> (string, task_state) dict" where
  "refresh deps [] queued sts = (Inr (), sts)"
| "refresh deps (t # pending) queued sts =
     (case dict_get sts t of
        None \<Rightarrow> (Inl (KeyError t), sts)
      | Some s \<Rightarrow>
          if ts_status s \<noteq> PENDING then refresh deps pending (queued - {t}) sts
          else (case statuses_of sts (dependencies (spec s)) of
              Inl e \<Rightarrow> (Inl e, sts)
            | Inr ss \<Rightarrow> (case pending_outcome ss s of
                None \<Rightarrow> refresh deps pending (queued - {t}) sts
              | Some s' \<Rightarrow> (case enqueue (list_at deps t) pending (queued - {t}) of
                  (pending', queued') \<Rightarrow> refresh deps pending' queued' (dict_set t s' sts)))))"
  by pat_completeness auto
termination
  by (relation "measures [\<lambda>(deps, pending, queued, sts). pendings sts, \<lambda>(deps, pending, queued, sts). length pending]")
    (auto dest: pending_outcome_status intro: pendings_set)

definition fromkeys :: "string list \<Rightarrow> string list" where
  "fromkeys xs = rev (remdups (rev xs))"

definition refresh_pending :: "string list \<Rightarrow> task_graph \<Rightarrow> (exn + unit) \<times> task_graph" where
  "refresh_pending ids G =
     (case refresh (dependents G) (fromkeys ids) (set ids) (g_states G) of
        (out, sts) \<Rightarrow> (out, G\<lparr>g_states := sts\<rparr>))"

section \<open>The graph\<close>

text \<open>\<open>_validate_restored_dependencies\<close>: the first executable task with an unmet dependency.\<close>

definition executable :: "task_status list" where
  "executable = [READY, WAITING, RUNNING, CHECKING, SUCCEEDED]"

fun restored_violation :: "(string, task_state) dict \<Rightarrow> (string \<times> task_state) list \<Rightarrow> exn option" where
  "restored_violation sts [] = None"
| "restored_violation sts ((k, s) # rest) =
     (if ts_status s \<notin> set executable then restored_violation sts rest
      else let unmet = filter (\<lambda>d. map_option ts_status (dict_get sts d) \<noteq> Some SUCCEEDED) (dependencies (spec s)) in
        if unmet \<noteq> [] then Some (InvalidTaskGraph (''restored task '' @ repr_text k
             @ '' is executable before dependencies: '' @ join '', '' unmet))
        else restored_violation sts rest)"

definition initial_states :: "task_spec list \<Rightarrow> (string, task_state) dict" where
  "initial_states ts = map (\<lambda>t. (task_id t, initial_state t (if dependencies t = [] then READY else PENDING))) ts"

definition index_states :: "task_state list \<Rightarrow> (string, task_state) dict" where
  "index_states sts = fold (\<lambda>s. dict_set (task_id (spec s)) s) sts []"

definition new_TaskGraph :: "task_spec list \<Rightarrow> task_state list option \<Rightarrow> exn + task_graph" where
  "new_TaskGraph ts given =
     (case validate_and_index ts of
        Inl e \<Rightarrow> Inl e
      | Inr deps \<Rightarrow>
          let tasks = map (\<lambda>t. (task_id t, t)) ts in
          (case given of
             None \<Rightarrow> Inr \<lparr>g_tasks = tasks, g_states = initial_states ts, dependents = deps\<rparr>
           | Some ss \<Rightarrow>
               let by_id = index_states ss in
               if set (dict_keys by_id) \<noteq> set (dict_keys tasks)
               then Inl (InvalidTaskGraph ''restored states do not match task identifiers'')
               else if list_ex (\<lambda>(k, s). case dict_get tasks k of None \<Rightarrow> True | Some t \<Rightarrow> \<not> spec_eq (spec s) t) by_id
               then Inl (InvalidTaskGraph ''restored task definitions do not match the graph'')
               else (case restored_violation by_id by_id of
                   Some e \<Rightarrow> Inl e
                 | None \<Rightarrow>
                     (case refresh_pending (dict_keys by_id)
                             \<lparr>g_tasks = tasks, g_states = by_id, dependents = deps\<rparr> of
                        (Inl e, G) \<Rightarrow> Inl e | (Inr _, G) \<Rightarrow> Inr G))))"

definition from_snapshot :: "team_snapshot \<Rightarrow> exn + task_graph" where
  "from_snapshot n = new_TaskGraph (map spec (tn_tasks n)) (Some (tn_tasks n))"

section \<open>Queries\<close>

definition graph_state :: "string \<Rightarrow> task_graph \<Rightarrow> exn + task_state" where
  "graph_state t G = (case dict_get (g_states G) t of
     None \<Rightarrow> Inl (InvalidTaskGraph (''unknown task identifier: '' @ t)) | Some s \<Rightarrow> Inr s)"

definition graph_states :: "task_graph \<Rightarrow> task_state list" where
  "graph_states G = map (\<lambda>k. the (dict_get (g_states G) k)) (sort (dict_keys (g_states G)))"

definition ready_tasks :: "task_graph \<Rightarrow> task_spec list" where
  "ready_tasks G = sort_key (\<lambda>t. (- priority t, task_id t))
     (map spec (filter (\<lambda>s. ts_status s = READY) (dict_values (g_states G))))"

definition all_succeeded :: "task_graph \<Rightarrow> bool" where
  "all_succeeded G \<longleftrightarrow> list_all (\<lambda>s. ts_status s = SUCCEEDED) (dict_values (g_states G))"

definition graph_is_terminal :: "task_graph \<Rightarrow> bool" where
  "graph_is_terminal G \<longleftrightarrow> list_all (\<lambda>s. task_is_terminal (ts_status s)) (dict_values (g_states G))"

definition has_failures :: "task_graph \<Rightarrow> bool" where
  "has_failures G \<longleftrightarrow> list_ex (\<lambda>s. ts_status s \<in> set failed_dependencies) (dict_values (g_states G))"

definition successful_results :: "task_graph \<Rightarrow> task_result list" where
  "successful_results G = concat (map (\<lambda>s. if ts_status s = SUCCEEDED
     then (case ts_result s of None \<Rightarrow> [] | Some r \<Rightarrow> [r]) else []) (graph_states G))"

fun results_of :: "string list \<Rightarrow> task_graph \<Rightarrow> exn + task_result list" where
  "results_of [] G = Inr []"
| "results_of (d # ds) G = (case graph_state d G of
       Inl e \<Rightarrow> Inl e
     | Inr s \<Rightarrow> map_sum id (\<lambda>rs. (case ts_result s of None \<Rightarrow> rs | Some r \<Rightarrow> r # rs)) (results_of ds G))"

definition dependency_results :: "string \<Rightarrow> task_graph \<Rightarrow> exn + task_result list" where
  "dependency_results t G = (case graph_state t G of
     Inl e \<Rightarrow> Inl e | Inr s \<Rightarrow> results_of (dependencies (spec s)) G)"

section \<open>Transitions\<close>

definition require_status :: "string \<Rightarrow> task_status list \<Rightarrow> task_graph \<Rightarrow> exn + task_state" where
  "require_status t allowed_list G = (case graph_state t G of
     Inl e \<Rightarrow> Inl e
   | Inr s \<Rightarrow>
       if ts_status s \<notin> set allowed_list
       then Inl (InvalidTaskTransition (''task '' @ repr_text t @ '' cannot leave ''
              @ task_status_value (ts_status s) @ ''; expected one of ''
              @ join '', '' (sort (map task_status_value allowed_list))))
       else Inr s)"

text \<open>\<open>replace\<close> builds the new state, which may be refused; then it is stored.\<close>

definition store_state :: "string \<Rightarrow> task_state \<Rightarrow> task_graph \<Rightarrow> (exn + task_state) \<times> task_graph" where
  "store_state t s G = (case new_TaskState s of
     Inl e \<Rightarrow> (Inl e, G) | Inr s' \<Rightarrow> (Inr s', G\<lparr>g_states := dict_set t s' (g_states G)\<rparr>))"

definition change_state ::
  "string \<Rightarrow> task_status list \<Rightarrow> (task_state \<Rightarrow> exn + task_state) \<Rightarrow> task_graph
   \<Rightarrow> (exn + task_state) \<times> task_graph" where
  "change_state t allowed_list f G = (case require_status t allowed_list G of
     Inl e \<Rightarrow> (Inl e, G)
   | Inr s \<Rightarrow> (case f s of Inl e \<Rightarrow> (Inl e, G) | Inr s' \<Rightarrow> store_state t s' G))"

definition then_refresh :: "string \<Rightarrow> (exn + task_state) \<times> task_graph \<Rightarrow> (exn + task_state) \<times> task_graph" where
  "then_refresh t = (\<lambda>(out, G). case out of
     Inl e \<Rightarrow> (Inl e, G)
   | Inr s \<Rightarrow> (case refresh_pending (list_at (dependents G) t) G of
        (Inl e, G') \<Rightarrow> (Inl e, G') | (Inr _, G') \<Rightarrow> (Inr s, G')))"

definition mark_waiting_approval :: "string \<Rightarrow> task_graph \<Rightarrow> (exn + task_state) \<times> task_graph" where
  "mark_waiting_approval t = change_state t [READY] (\<lambda>s. Inr (s\<lparr>ts_status := WAITING\<rparr>))"

definition resume_approval :: "string \<Rightarrow> task_graph \<Rightarrow> (exn + task_state) \<times> task_graph" where
  "resume_approval t = change_state t [WAITING]
     (\<lambda>s. Inr (s\<lparr>ts_status := READY, approval_granted := True\<rparr>))"

definition start_task :: "string \<Rightarrow> string \<Rightarrow> task_graph \<Rightarrow> (exn + task_state) \<times> task_graph" where
  "start_task t agent = change_state t [READY]
     (\<lambda>s. Inr (s\<lparr>ts_status := RUNNING, ts_attempt := ts_attempt s + 1, assigned_agent := Some agent,
                 ts_result := None, ts_verification := None, ts_error := []\<rparr>))"

definition matches_assignment :: "task_result \<Rightarrow> task_state \<Rightarrow> bool" where
  "matches_assignment r s \<longleftrightarrow> \<not> (Some (tr_agent r) \<noteq> assigned_agent s \<or> tr_attempt r \<noteq> ts_attempt s)"

definition begin_verification ::
  "string \<Rightarrow> task_result option \<Rightarrow> task_graph \<Rightarrow> (exn + task_state) \<times> task_graph" where
  "begin_verification t result = change_state t [RUNNING] (\<lambda>s. case result of
     None \<Rightarrow> Inl (InvalidTaskTransition ''verification requires an execution result'')
   | Some r \<Rightarrow>
       if tr_task r \<noteq> t \<or> \<not> tr_success r
       then Inl (InvalidTaskTransition (''verification requires the task'' @ [CHR 0x27] @ ''s own successful result''))
       else if \<not> matches_assignment r s
       then Inl (InvalidTaskTransition ''verification result must match the assigned agent and attempt'')
       else Inr (s\<lparr>ts_status := CHECKING, ts_result := Some r, ts_verification := None\<rparr>))"

definition record_verification ::
  "string \<Rightarrow> task_verification \<Rightarrow> task_graph \<Rightarrow> (exn + task_state) \<times> task_graph" where
  "record_verification t v = change_state t [CHECKING] (\<lambda>s.
     if ts_result s = None
     then Inl (InvalidTaskTransition ''verification requires a stored execution result'')
     else Inr (s\<lparr>ts_verification := Some v\<rparr>))"

definition succeed_task :: "string \<Rightarrow> task_result \<Rightarrow> task_graph \<Rightarrow> (exn + task_state) \<times> task_graph" where
  "succeed_task t r G = then_refresh t (change_state t [CHECKING] (\<lambda>s.
     if tr_task r \<noteq> t \<or> \<not> tr_success r
     then Inl (InvalidTaskTransition ''succeeded task requires its own successful result'')
     else if \<not> matches_assignment r s
     then Inl (InvalidTaskTransition ''succeeded result must match the assigned agent and attempt'')
     else if (case ts_verification s of None \<Rightarrow> True | Some v \<Rightarrow> \<not> tv_passed v)
     then Inl (InvalidTaskTransition ''succeeded task requires a passed verification'')
     else Inr (s\<lparr>ts_status := SUCCEEDED, ts_result := Some r, ts_error := []\<rparr>)) G)"

definition retry_task ::
  "string \<Rightarrow> string \<Rightarrow> task_result option \<Rightarrow> task_verification option \<Rightarrow> task_graph
   \<Rightarrow> (exn + task_state) \<times> task_graph" where
  "retry_task t err r v = change_state t (in_progress @ [READY])
     (\<lambda>s. Inr (s\<lparr>ts_status := READY, assigned_agent := None, ts_result := r, ts_verification := v,
                 ts_error := err\<rparr>))"

definition fail_task ::
  "string \<Rightarrow> string \<Rightarrow> task_result option \<Rightarrow> task_verification option \<Rightarrow> task_graph
   \<Rightarrow> (exn + task_state) \<times> task_graph" where
  "fail_task t err r v G = then_refresh t (change_state t (in_progress @ [READY, PENDING])
     (\<lambda>s. Inr (s\<lparr>ts_status := FAILED_TASK, ts_result := r, ts_verification := v, ts_error := err\<rparr>)) G)"

definition cancel_all :: "task_graph \<Rightarrow> task_graph" where
  "cancel_all G = G\<lparr>g_states := map (\<lambda>(k, s).
     (k, if task_is_terminal (ts_status s) then s else s\<lparr>ts_status := CANCELLED_TASK\<rparr>)) (g_states G)\<rparr>"

definition recover_state :: "task_state \<Rightarrow> task_state" where
  "recover_state s =
     (if ts_status s = RUNNING \<and> replay_safe (spec s)
      then s\<lparr>ts_status := READY, assigned_agent := None, ts_result := None, ts_verification := None,
             ts_error := ''recovered from interrupted execution''\<rparr>
      else if ts_status s \<in> {WAITING, RUNNING}
      then s\<lparr>ts_status := BLOCKED_TASK,
             ts_error := ''recovery requires host reconciliation; task was not replayed''\<rparr>
      else s)"

definition recover_inflight :: "task_graph \<Rightarrow> (exn + string list) \<times> task_graph" where
  "recover_inflight G =
     (let blocked = map fst (filter (\<lambda>(k, s). ts_status s = WAITING
            \<or> ts_status s = RUNNING \<and> \<not> replay_safe (spec s)) (g_states G));
          G' = G\<lparr>g_states := map (\<lambda>(k, s). (k, recover_state s)) (g_states G)\<rparr> in
      case refresh_pending (concat (map (list_at (dependents G)) blocked)) G' of
        (Inl e, G'') \<Rightarrow> (Inl e, G'')
      | (Inr _, G'') \<Rightarrow> (Inr (sort blocked), G''))"

end
