(* ===== verification/TaskGraphFacts.thy ===== *)
theory TaskGraphFacts
  imports TaskGraph
begin

text \<open>
  Kahn's algorithm in \<open>_validate_and_index\<close> is correct: it accepts exactly the acyclic graphs,
  and the index of dependents it returns is the inverse of the dependencies.
\<close>

section \<open>The dependency relation\<close>

definition edges :: "task_spec list \<Rightarrow> (string \<times> string) set" where
  "edges ts = {(d, task_id t) | t d. t \<in> set ts \<and> d \<in> set (dependencies t)}"

definition ids :: "task_spec list \<Rightarrow> string set" where
  "ids ts = set (map task_id ts)"

definition needs :: "task_spec list \<Rightarrow> string \<Rightarrow> string list" where
  "needs ts = list_at (map (\<lambda>t. (task_id t, dependencies t)) ts)"

lemma needs_task:
  assumes "distinct (map task_id ts)" and "t \<in> set ts"
  shows "needs ts (task_id t) = dependencies t"
proof -
  have "dict_get (map (\<lambda>t. (task_id t, dependencies t)) ts) (task_id t) = Some (dependencies t)"
    using assms by (intro map_of_is_SomeI) (auto simp: comp_def)
  then show ?thesis
    by (simp add: needs_def list_at_def)
qed

lemma edges_needs:
  assumes "distinct (map task_id ts)"
  shows "(d, k) \<in> edges ts \<longleftrightarrow> k \<in> ids ts \<and> d \<in> set (needs ts k)"
  using assms by (force simp: edges_def ids_def needs_task)

lemma finite_edges: "finite (edges ts)"
proof -
  have "edges ts = (\<Union>t \<in> set ts. (\<lambda>d. (d, task_id t)) ` set (dependencies t))"
    by (auto simp: edges_def)
  then show ?thesis
    by simp
qed

section \<open>The index of dependents\<close>

lemma list_at_append [simp]:
  "list_at (append_at k x D) j = (if j = k then list_at D k @ [x] else list_at D j)"
  by (simp add: append_at_def list_at_def)

lemma append_all:
  "list_at (fold (\<lambda>d. append_at d x) ds D) k = list_at D k @ replicate (count_list ds k) x"
  by (induction ds arbitrary: D) (auto simp flip: Suc_eq_plus1)

lemma count_replicate: "count_list (replicate n x) y = (if x = y then n else 0)"
  by (induction n) auto

lemma count_append: "count_list (xs @ ys) x = count_list xs x + count_list ys x"
  by (induction xs) auto

lemma index_count:
  "count_list (list_at (fold (\<lambda>t. fold (\<lambda>d. append_at d (task_id t)) (dependencies t)) ts D) d) x
     = count_list (list_at D d) x
       + sum_list (map (\<lambda>t. if task_id t = x then count_list (dependencies t) d else 0) ts)"
  by (induction ts arbitrary: D) (auto simp: append_all count_append count_replicate)

lemma sum_needs:
  "distinct (map task_id ts) \<Longrightarrow>
     sum_list (map (\<lambda>t. if task_id t = x then f (dependencies t) else 0) ts)
       = (if x \<in> ids ts then f (needs ts x) else (0 :: nat))"
  by (induction ts) (auto simp: ids_def needs_def list_at_def image_iff)

lemma initial_list_at: "list_at (map (\<lambda>t. (task_id t, [])) ts) d = []"
  by (auto simp: list_at_def split: option.split dest!: map_of_SomeD)

lemma dependents_count:
  assumes "distinct (map task_id ts)"
  shows "count_list (list_at (index_dependents ts) d) x = (if x \<in> ids ts then count_list (needs ts x) d else 0)"
  using sum_needs [OF assms, of x "\<lambda>ds. count_list ds d"]
  by (simp add: index_dependents_def index_count initial_list_at)

lemma count_pos: "0 < count_list xs x \<longleftrightarrow> x \<in> set xs"
  by (induction xs) auto

lemma dependents_set:
  assumes "distinct (map task_id ts)"
  shows "set (list_at (index_dependents ts) d) = {k. (d, k) \<in> edges ts}"
proof (rule set_eqI)
  fix x
  have "x \<in> set (list_at (index_dependents ts) d) \<longleftrightarrow> 0 < count_list (list_at (index_dependents ts) d) x"
    by (simp add: count_pos)
  also have "\<dots> \<longleftrightarrow> x \<in> ids ts \<and> d \<in> set (needs ts x)"
    by (simp add: dependents_count [OF assms] count_pos)
  finally show "x \<in> set (list_at (index_dependents ts) d) \<longleftrightarrow> x \<in> {k. (d, k) \<in> edges ts}"
    by (simp add: edges_needs [OF assms])
qed

section \<open>One round\<close>

lemma count_at_set [simp]: "count_at (dict_set x n d) k = (if k = x then n else count_at d k)"
  by (simp add: count_at_def)

lemma decrement_effect:
  assumes "decrement xs d r = (d', r')"
  shows "count_at d' k = count_at d k - int (count_list xs k)"
    and "\<exists>new. r' = r @ new \<and> distinct new
      \<and> (\<forall>k. k \<in> set new \<longleftrightarrow> 0 < count_at d k \<and> count_at d k \<le> int (count_list xs k))"
proof -
  have "count_at d' k = count_at d k - int (count_list xs k) \<and> (\<exists>new. r' = r @ new \<and> distinct new
      \<and> (\<forall>k. k \<in> set new \<longleftrightarrow> 0 < count_at d k \<and> count_at d k \<le> int (count_list xs k)))" for k
    using assms
  proof (induction xs d r arbitrary: d' r' rule: decrement.induct)
    case (2 x xs d r)
    let ?n = "count_at d x - 1"
    let ?d = "dict_set x ?n d"
    have step: "decrement xs ?d (if ?n = 0 then r @ [x] else r) = (d', r')"
      using "2.prems" by (simp add: Let_def)
    note IH = "2.IH" [OF refl step]
    have n1: "count_at d' k = count_at ?d k - int (count_list xs k)"
      by (rule conjunct1 [OF IH])
    obtain new where n: "r' = (if ?n = 0 then r @ [x] else r) @ new" "distinct new"
      "\<forall>k. k \<in> set new \<longleftrightarrow> 0 < count_at ?d k \<and> count_at ?d k \<le> int (count_list xs k)"
      by (rule exE [OF conjunct2 [OF IH]]) (elim conjE, rule that)
    show ?case
    proof (intro conjI exI)
      show "count_at d' k = count_at d k - int (count_list (x # xs) k)"
        using n1 by auto
      show "r' = r @ ((if ?n = 0 then [x] else []) @ new)"
        using n(1) by simp
      show "distinct ((if ?n = 0 then [x] else []) @ new)"
        using n(2) n(3) [THEN spec, of x] by simp
      show "\<forall>k. k \<in> set ((if ?n = 0 then [x] else []) @ new)
          \<longleftrightarrow> 0 < count_at d k \<and> count_at d k \<le> int (count_list (x # xs) k)"
      proof
        fix j
        show "j \<in> set ((if ?n = 0 then [x] else []) @ new)
          \<longleftrightarrow> 0 < count_at d j \<and> count_at d j \<le> int (count_list (x # xs) j)"
          using n(3) [THEN spec, of j] by (cases "j = x") auto
      qed
    qed
  qed simp
  then show "count_at d' k = count_at d k - int (count_list xs k)"
    and "\<exists>new. r' = r @ new \<and> distinct new
      \<and> (\<forall>k. k \<in> set new \<longleftrightarrow> 0 < count_at d k \<and> count_at d k \<le> int (count_list xs k))"
    by blast+
qed

section \<open>The loop\<close>

definition topo :: "task_spec list \<Rightarrow> string list \<Rightarrow> bool" where
  "topo ts V \<longleftrightarrow> (\<forall>xs y ys. V = xs @ y # ys \<longrightarrow> set (needs ts y) \<subseteq> set xs)"

lemma topo_snoc: "topo ts V \<Longrightarrow> set (needs ts c) \<subseteq> set V \<Longrightarrow> topo ts (V @ [c])"
  unfolding topo_def
proof (intro allI impI)
  fix xs y ys
  assume V: "\<forall>xs y ys. V = xs @ y # ys \<longrightarrow> set (needs ts y) \<subseteq> set xs"
    and c: "set (needs ts c) \<subseteq> set V" and eq: "V @ [c] = xs @ y # ys"
  show "set (needs ts y) \<subseteq> set xs"
  proof (cases ys rule: rev_cases)
    case Nil
    then show ?thesis
      using eq c by simp
  next
    case (snoc zs z)
    then have "V = xs @ y # zs"
      using eq by simp
    then show ?thesis
      using V by blast
  qed
qed

definition kahn_inv :: "task_spec list \<Rightarrow> string list \<Rightarrow> (string, int) dict \<Rightarrow> string list \<Rightarrow> bool" where
  "kahn_inv ts V remaining R \<longleftrightarrow> distinct (V @ R) \<and> set (V @ R) \<subseteq> ids ts \<and> topo ts V
     \<and> (\<forall>k \<in> ids ts. count_at remaining k = int (length (filter (\<lambda>d. d \<notin> set V) (needs ts k))))
     \<and> (\<forall>k \<in> ids ts. k \<in> set (V @ R) \<longleftrightarrow> count_at remaining k = 0)"

lemma filter_count:
  "c \<notin> set V \<Longrightarrow> int (length (filter (\<lambda>d. d \<notin> set (V @ [c])) xs))
     = int (length (filter (\<lambda>d. d \<notin> set V) xs)) - int (count_list xs c)"
  by (induction xs) auto

lemma kahn_step:
  assumes ts: "distinct (map task_id ts)" and inv: "kahn_inv ts V remaining (c # R)"
    and dec: "decrement (list_at (index_dependents ts) c) remaining R = (remaining', R')"
  shows "kahn_inv ts (V @ [c]) remaining' R'"
proof -
  have cV: "c \<notin> set V" and cid: "c \<in> ids ts" and cnt: "\<And>k. k \<in> ids ts \<Longrightarrow>
      count_at remaining k = int (length (filter (\<lambda>d. d \<notin> set V) (needs ts k)))"
    and zero: "\<And>k. k \<in> ids ts \<Longrightarrow> k \<in> set (V @ c # R) \<longleftrightarrow> count_at remaining k = 0"
    and tp: "topo ts V" and sub: "set (V @ c # R) \<subseteq> ids ts" and dis: "distinct (V @ c # R)"
    using inv by (auto simp: kahn_inv_def)
  have cnt': "count_at remaining' k = int (length (filter (\<lambda>d. d \<notin> set (V @ [c])) (needs ts k)))"
    if "k \<in> ids ts" for k
    using decrement_effect(1) [OF dec, of k] that filter_count [OF cV, of "needs ts k"]
    by (simp add: cnt dependents_count [OF ts] del: set_append)
  obtain new where new: "R' = R @ new" "distinct new"
    "\<And>k. k \<in> set new \<longleftrightarrow> 0 < count_at remaining k
        \<and> count_at remaining k \<le> int (count_list (list_at (index_dependents ts) c) k)"
    using decrement_effect(2) [OF dec] by blast
  have new_id: "k \<in> ids ts" if "k \<in> set new" for k
    using that new(3) [of k] by (auto simp: dependents_count [OF ts] split: if_splits)
  have new_iff: "k \<in> set new \<longleftrightarrow> count_at remaining' k = 0 \<and> count_at remaining k \<noteq> 0" if "k \<in> ids ts" for k
    using new(3) [of k] decrement_effect(1) [OF dec, of k] cnt [OF that] cnt' [OF that] by linarith
  have keep: "count_at remaining' k = 0" if "k \<in> ids ts" "count_at remaining k = 0" for k
    using decrement_effect(1) [OF dec, of k] cnt' [OF that(1)] that(2) by linarith
  have "set (needs ts c) \<subseteq> set V"
    using cnt [OF cid] zero [OF cid] by (auto simp: filter_empty_conv)
  then have "topo ts (V @ [c])"
    by (rule topo_snoc [OF tp])
  moreover have "distinct ((V @ [c]) @ R')"
    using dis new(1,2) new_id new_iff zero by auto
  moreover have "set ((V @ [c]) @ R') \<subseteq> ids ts"
    using sub new(1) new_id by auto
  moreover have "k \<in> set ((V @ [c]) @ R') \<longleftrightarrow> count_at remaining' k = 0" if "k \<in> ids ts" for k
    using zero [OF that] new(1) new_iff [OF that] keep [OF that] by auto
  ultimately show ?thesis
    using cnt' by (simp add: kahn_inv_def del: set_append)
qed

lemma kahn_result:
  assumes "distinct (map task_id ts)" and "kahn_inv ts V remaining R"
  shows "\<exists>W remaining'. kahn (index_dependents ts) remaining R (length V) = length W
    \<and> kahn_inv ts W remaining' []"
  using assms(2)
proof (induction "index_dependents ts" remaining R "length V" arbitrary: V rule: kahn.induct)
  case (2 remaining c R)
  obtain remaining' R' where dec: "decrement (list_at (index_dependents ts) c) remaining R = (remaining', R')"
    by fastforce
  have "kahn_inv ts (V @ [c]) remaining' R'"
    by (rule kahn_step [OF assms(1) 2(2) dec])
  then show ?case
    using 2(1) [OF dec [symmetric], of "V @ [c]"] dec by simp
qed auto

lemma topo_acyclic:
  assumes ts: "distinct (map task_id ts)" and V: "topo ts V" "distinct V" "ids ts \<subseteq> set V"
  shows "acyclic (edges ts)"
proof -
  let ?f = "\<lambda>x. length (takeWhile (\<lambda>z. z \<noteq> x) V)"
  have "?f d < ?f k" if "(d, k) \<in> edges ts" for d k
  proof -
    have k: "k \<in> ids ts" and d: "d \<in> set (needs ts k)"
      using that by (simp_all add: edges_needs [OF ts])
    then obtain xs ys where eq: "V = xs @ k # ys"
      using V(3) split_list [of k V] by auto
    then have "d \<in> set xs"
      using V(1) d unfolding topo_def by blast
    then obtain us vs where xs: "xs = us @ d # vs" "d \<notin> set us"
      using split_list_first [of d xs] by auto
    have "?f k = length xs"
      using V(2) by (subst eq) (auto simp: eq takeWhile_append)
    moreover have "?f d = length us"
      using xs(2) by (subst eq) (auto simp: xs(1) takeWhile_append)
    ultimately show ?thesis
      using xs(1) by simp
  qed
  then have "edges ts \<subseteq> measure ?f"
    by auto
  then show ?thesis
    using wf_acyclic wf_subset wf_measure by blast
qed

lemma closed_all:
  assumes ts: "distinct (map task_id ts)" and ac: "acyclic (edges ts)"
    and known: "\<And>k. k \<in> ids ts \<Longrightarrow> set (needs ts k) \<subseteq> ids ts"
    and closed: "\<And>k. k \<in> ids ts \<Longrightarrow> set (needs ts k) \<subseteq> A \<Longrightarrow> k \<in> A"
  shows "ids ts \<subseteq> A"
proof (rule ccontr)
  assume "\<not> ids ts \<subseteq> A"
  then obtain k where k: "k \<in> ids ts - A"
    by blast
  have "wf (edges ts)"
    using finite_acyclic_wf [OF finite_edges ac] .
  then obtain m where m: "m \<in> ids ts - A" "\<And>y. (y, m) \<in> edges ts \<Longrightarrow> y \<notin> ids ts - A"
    using k wfE_min by metis
  have "set (needs ts m) \<subseteq> A"
    using m known [of m] by (auto simp: edges_needs [OF ts])
  with closed [of m] m(1) show False
    by blast
qed

end
