(* ===== verification/TaskGraphInvariant.thy ===== *)
theory TaskGraphInvariant
  imports TaskGraphFacts
begin

text \<open>
  The invariant of the task graph. \<open>shape\<close> is what construction fixes: an acyclic dependency
  relation and its inverse index. \<open>sound\<close> says that a task is executable only behind succeeded
  dependencies, \<open>settled\<close> that no pending task has an outcome that \<open>_refresh_pending\<close> missed.
\<close>

section \<open>Accepted graphs\<close>

definition well_formed :: "task_spec list \<Rightarrow> bool" where
  "well_formed ts \<longleftrightarrow> ts \<noteq> [] \<and> distinct (map task_id ts)
     \<and> (\<forall>t \<in> set ts. set (dependencies t) \<subseteq> ids ts) \<and> acyclic (edges ts)"

lemma missing_Nil: "missing ts t = [] \<longleftrightarrow> set (dependencies t) \<subseteq> ids ts"
proof -
  have "missing ts t = [] \<longleftrightarrow> set (missing ts t) = {}"
    by (metis set_empty)
  also have "\<dots> \<longleftrightarrow> set (dependencies t) \<subseteq> ids ts"
    by (auto simp: missing_def ids_def)
  finally show ?thesis .
qed

lemma needs_known:
  assumes "distinct (map task_id ts)" and "\<forall>t \<in> set ts. set (dependencies t) \<subseteq> ids ts" and "k \<in> ids ts"
  shows "set (needs ts k) \<subseteq> ids ts"
proof -
  obtain t where "t \<in> set ts" and "k = task_id t"
    using assms(3) by (auto simp: ids_def)
  then show ?thesis
    using assms(2) by (simp add: needs_task [OF assms(1)])
qed

lemma kahn_initial:
  assumes "distinct (map task_id ts)"
  shows "kahn_inv ts [] (map (\<lambda>t. (task_id t, int (length (dependencies t)))) ts)
    (map fst (filter (\<lambda>(k, n). n = 0) (map (\<lambda>t. (task_id t, int (length (dependencies t)))) ts)))"
    (is "kahn_inv ts [] ?rem ?R")
proof -
  have cnt: "count_at ?rem (task_id t) = int (length (dependencies t))" if "t \<in> set ts" for t
  proof -
    have "dict_get ?rem (task_id t) = Some (int (length (dependencies t)))"
      using assms that by (intro map_of_is_SomeI) (auto simp: comp_def)
    then show ?thesis
      by (simp add: count_at_def)
  qed
  have R: "?R = map task_id (filter (\<lambda>t. dependencies t = []) ts)"
    by (simp add: filter_map comp_def)
  show ?thesis
    unfolding kahn_inv_def R
    using assms cnt by (auto simp: ids_def topo_def needs_task [OF assms] distinct_map inj_on_def)
qed

lemma kahn_all:
  assumes ts: "distinct (map task_id ts)" and known: "\<forall>t \<in> set ts. set (dependencies t) \<subseteq> ids ts"
  shows "kahn (index_dependents ts) (map (\<lambda>t. (task_id t, int (length (dependencies t)))) ts)
      (map fst (filter (\<lambda>(k, n). n = 0) (map (\<lambda>t. (task_id t, int (length (dependencies t)))) ts))) 0
    = length ts \<longleftrightarrow> acyclic (edges ts)"
    (is "?k = _ \<longleftrightarrow> _")
proof -
  obtain W remaining where k: "?k = length W" and inv: "kahn_inv ts W remaining []"
    using kahn_result [OF ts kahn_initial [OF ts]] by auto
  have W: "distinct W" "set W \<subseteq> ids ts" "topo ts W" and closed: "k \<in> set W" if "k \<in> ids ts"
    "set (needs ts k) \<subseteq> set W" for k
    using inv that by (auto simp: kahn_inv_def filter_empty_conv)
  have card: "card (ids ts) = length ts"
    using ts distinct_card [of "map task_id ts"] by (simp add: ids_def)
  have fin: "finite (ids ts)"
    by (simp add: ids_def)
  show ?thesis
  proof
    assume "?k = length ts"
    then have "card (set W) = card (ids ts)"
      using k card inv distinct_card [of W] by (simp add: kahn_inv_def)
    then have "set W = ids ts"
      using inv fin by (intro card_subset_eq) (auto simp: kahn_inv_def)
    then show "acyclic (edges ts)"
      using inv by (intro topo_acyclic [OF ts, of W]) (auto simp: kahn_inv_def)
  next
    assume ac: "acyclic (edges ts)"
    have "ids ts \<subseteq> set W"
      using needs_known [OF ts known] closed by (intro closed_all [OF ts ac]) auto
    then have "set W = ids ts"
      using inv by (auto simp: kahn_inv_def)
    then show "?k = length ts"
      using k card inv distinct_card [of W] by (simp add: kahn_inv_def)
  qed
qed

lemma validate_Inr:
  "validate_and_index ts = Inr deps \<longleftrightarrow> well_formed ts \<and> deps = index_dependents ts"
proof (cases "ts \<noteq> [] \<and> distinct (map task_id ts)")
  case True
  have "find (\<lambda>t. missing ts t \<noteq> []) ts = None \<longleftrightarrow> (\<forall>t \<in> set ts. set (dependencies t) \<subseteq> ids ts)"
    by (auto simp: find_None_iff missing_Nil)
  then show ?thesis
    using True kahn_all [of ts]
    by (auto simp: validate_and_index_def well_formed_def Let_def split: option.splits)
qed (auto simp: validate_and_index_def well_formed_def)

section \<open>The invariant\<close>

type_synonym task_map = "string \<rightharpoonup> task_state"

definition has_status :: "task_map \<Rightarrow> string \<Rightarrow> task_status set \<Rightarrow> bool" where
  "has_status m k A \<longleftrightarrow> (\<exists>s. m k = Some s \<and> ts_status s \<in> A)"

definition sound :: "task_spec list \<Rightarrow> task_map \<Rightarrow> bool" where
  "sound ts m \<longleftrightarrow> (\<forall>k. has_status m k (set executable) \<longrightarrow> (\<forall>d \<in> set (needs ts k). has_status m d {SUCCEEDED}))"

definition settled_at :: "task_spec list \<Rightarrow> task_map \<Rightarrow> string \<Rightarrow> bool" where
  "settled_at ts m k \<longleftrightarrow> (has_status m k {PENDING} \<longrightarrow>
     (\<forall>d \<in> set (needs ts k). \<not> has_status m d (set failed_dependencies))
     \<and> (\<exists>d \<in> set (needs ts k). \<not> has_status m d {SUCCEEDED}))"

definition evidenced :: "task_state \<Rightarrow> bool" where
  "evidenced s \<longleftrightarrow>
     (ts_status s \<in> {CHECKING, SUCCEEDED} \<longrightarrow> (\<exists>r. ts_result s = Some r \<and> tr_task r = task_id (spec s)
        \<and> tr_success r \<and> assigned_agent s = Some (tr_agent r) \<and> tr_attempt r = ts_attempt s))
     \<and> (ts_status s = SUCCEEDED \<longrightarrow> (\<exists>v. ts_verification s = Some v \<and> tv_passed v))"

definition states_ok :: "task_spec list \<Rightarrow> task_map \<Rightarrow> bool" where
  "states_ok ts m \<longleftrightarrow> dom m = ids ts \<and> (\<forall>k s. m k = Some s \<longrightarrow>
     task_id (spec s) = k \<and> dependencies (spec s) = needs ts k \<and> new_TaskState s = Inr s \<and> evidenced s)"

definition shape :: "task_spec list \<Rightarrow> task_graph \<Rightarrow> bool" where
  "shape ts G \<longleftrightarrow> well_formed ts \<and> dict_ok (g_states G) \<and> states_ok ts (dict_get (g_states G))
     \<and> (\<forall>d. set (list_at (dependents G) d) = {k. (d, k) \<in> edges ts})"

definition graph_ok :: "task_graph \<Rightarrow> bool" where
  "graph_ok G \<longleftrightarrow> (\<exists>ts. shape ts G \<and> sound ts (dict_get (g_states G))
     \<and> (\<forall>k. settled_at ts (dict_get (g_states G)) k))"

lemma executable_set: "set executable = {READY, WAITING, RUNNING, CHECKING, SUCCEEDED}"
  by (auto simp: executable_def)

lemma failed_set: "set failed_dependencies = {FAILED_TASK, BLOCKED_TASK, CANCELLED_TASK}"
  by (auto simp: failed_dependencies_def)

lemma in_progress_set: "set in_progress = {WAITING, RUNNING, CHECKING}"
  by (auto simp: in_progress_def)

lemma has_status_upd [simp]:
  "has_status (m(t \<mapsto> s)) k A \<longleftrightarrow> (if k = t then ts_status s \<in> A else has_status m k A)"
  by (simp add: has_status_def)

text \<open>Changing one task that has not succeeded.\<close>

lemma sound_upd:
  assumes "sound ts m" and "has_status m t (- {SUCCEEDED})"
    and "ts_status s \<in> set executable \<Longrightarrow> (\<forall>d \<in> set (needs ts t). d \<noteq> t \<and> has_status m d {SUCCEEDED})"
  shows "sound ts (m(t \<mapsto> s))"
  unfolding sound_def
proof (intro allI impI ballI)
  fix k d
  assume ex: "has_status (m(t \<mapsto> s)) k (set executable)" and d: "d \<in> set (needs ts k)"
  show "has_status (m(t \<mapsto> s)) d {SUCCEEDED}"
  proof (cases "k = t")
    case True
    then show ?thesis
      using ex d assms(3) by simp
  next
    case False
    then have "has_status m d {SUCCEEDED}"
      using ex d assms(1) by (simp add: sound_def)
    moreover from this have "d \<noteq> t"
      using assms(2) by (auto simp: has_status_def)
    ultimately show ?thesis
      by simp
  qed
qed

lemma settled_upd:
  assumes "settled_at ts m k" and "k \<noteq> t"
    and "t \<in> set (needs ts k) \<Longrightarrow> ts_status s \<notin> insert SUCCEEDED (set failed_dependencies)"
  shows "settled_at ts (m(t \<mapsto> s)) k"
  using assms unfolding settled_at_def by (auto simp: failed_set) (metis insertCI)+

lemma settled_self: "ts_status s \<noteq> PENDING \<Longrightarrow> settled_at ts (m(t \<mapsto> s)) t"
  by (simp add: settled_at_def)

lemma states_ok_upd:
  assumes "states_ok ts m" and "m t = Some s" and "spec s' = spec s" and "new_TaskState s' = Inr s'"
    and "evidenced s'"
  shows "states_ok ts (m(t \<mapsto> s'))"
  using assms by (auto simp: states_ok_def)

lemma new_TaskState_Inr: "new_TaskState s = Inr s' \<Longrightarrow> s' = s"
  by (auto simp: new_TaskState_def)

section \<open>Refreshing keeps the invariant\<close>

lemma statuses_of_Inr:
  "\<forall>d \<in> set ds. dict_get sts d \<noteq> None \<Longrightarrow>
     statuses_of sts ds = Inr (map (\<lambda>d. ts_status (the (dict_get sts d))) ds)"
  by (induction ds) (auto split: option.splits)

lemma enqueue_sets:
  assumes "enqueue xs pending queued = (pending', queued')" and "queued \<subseteq> set pending"
  shows "set pending' = set pending \<union> set xs \<and> queued' \<subseteq> set pending'"
  using assms
proof (induction xs pending queued rule: enqueue.induct)
  case (2 x xs pending queued)
  then show ?case
    by (cases "x \<in> queued") auto
qed auto

text \<open>How a refresh changes a task: not at all, or a pending task gets its outcome.\<close>

definition refreshed :: "task_state \<Rightarrow> task_state \<Rightarrow> bool" where
  "refreshed s s' \<longleftrightarrow> s' = s \<or> (ts_status s = PENDING
     \<and> (s' = s\<lparr>ts_status := READY\<rparr>
        \<or> s' = s\<lparr>ts_status := BLOCKED_TASK, ts_error := ''dependency did not complete successfully''\<rparr>))"

lemma outcome_valid:
  assumes "new_TaskState s = Inr s" and "ts_status s = PENDING" and "pending_outcome ss s = Some s'"
  shows "new_TaskState s' = Inr s' \<and> evidenced s' \<and> spec s' = spec s \<and> refreshed s s'
    \<and> ts_status s' \<in> {READY, BLOCKED_TASK}"
proof -
  consider "s' = s\<lparr>ts_status := READY\<rparr>"
    | "s' = s\<lparr>ts_status := BLOCKED_TASK, ts_error := ''dependency did not complete successfully''\<rparr>"
    using assms(3) by (auto simp: pending_outcome_def split: if_splits)
  then show ?thesis
    using assms(1,2)
    by cases (cases "ts_result s"; cases "assigned_agent s";
      simp add: new_TaskState_def refreshed_def evidenced_def)+
qed

lemma refreshed_trans: "refreshed s t \<Longrightarrow> refreshed t u \<Longrightarrow> refreshed s u"
  by (auto simp: refreshed_def)

lemma outcome_map:
  assumes ts: "well_formed ts" and ok: "states_ok ts m" and snd: "sound ts m"
    and t: "m t = Some s" "ts_status s = PENDING"
    and out: "pending_outcome (map (\<lambda>d. ts_status (the (m d))) (needs ts t)) s = Some s'"
  shows "states_ok ts (m(t \<mapsto> s'))" and "sound ts (m(t \<mapsto> s'))" and "settled_at ts (m(t \<mapsto> s')) t"
    and "refreshed s s'"
    and "\<And>k. settled_at ts m k \<Longrightarrow> t \<notin> set (needs ts k) \<Longrightarrow> settled_at ts (m(t \<mapsto> s')) k"
proof -
  have val: "new_TaskState s = Inr s"
    using ok t(1) by (simp add: states_ok_def)
  note v = outcome_valid [OF val t(2) out]
  have dis: "distinct (map task_id ts)"
    using ts by (simp add: well_formed_def)
  have tid: "t \<in> ids ts"
    using ok t(1) by (auto simp: states_ok_def)
  have known: "d \<in> set (needs ts t) \<Longrightarrow> m d \<noteq> None" for d
    using ts ok needs_known [OF dis _ tid] by (auto simp: well_formed_def states_ok_def)
  have irr: "t \<notin> set (needs ts t)"
    using ts tid edges_needs [OF dis, of t t] by (auto simp: well_formed_def acyclic_def)
  show "states_ok ts (m(t \<mapsto> s'))"
    using v by (intro states_ok_upd [OF ok t(1)]) auto
  show "sound ts (m(t \<mapsto> s'))"
  proof (rule sound_upd [OF snd])
    show "has_status m t (- {SUCCEEDED})"
      using t by (simp add: has_status_def)
    assume "ts_status s' \<in> set executable"
    then have "list_all (\<lambda>x. x = SUCCEEDED) (map (\<lambda>d. ts_status (the (m d))) (needs ts t))"
      using out by (auto simp: pending_outcome_def executable_set split: if_splits)
    then show "\<forall>d \<in> set (needs ts t). d \<noteq> t \<and> has_status m d {SUCCEEDED}"
      using known irr by (force simp: list_all_iff has_status_def)
  qed
  show "settled_at ts (m(t \<mapsto> s')) t"
    using v by (intro settled_self) auto
  show "refreshed s s'"
    using v by blast
  show "settled_at ts (m(t \<mapsto> s')) k" if "settled_at ts m k" "t \<notin> set (needs ts k)" for k
    using that \<open>settled_at ts (m(t \<mapsto> s')) t\<close> by (cases "k = t") (auto intro: settled_upd)
qed

lemma no_outcome_settled:
  assumes "states_ok ts m" and "m t = Some s" and "\<forall>d \<in> set (needs ts t). m d \<noteq> None"
    and "ts_status s = PENDING \<Longrightarrow> pending_outcome (map (\<lambda>d. ts_status (the (m d))) (needs ts t)) s = None"
  shows "settled_at ts m t"
  using assms(2-4)
  by (force simp: settled_at_def has_status_def pending_outcome_def list_ex_iff list_all_iff split: if_splits)

definition refresh_post ::
  "task_spec list \<Rightarrow> (string, task_state) dict \<Rightarrow> (exn + unit) \<times> (string, task_state) dict \<Rightarrow> bool" where
  "refresh_post ts sts r \<longleftrightarrow> fst r = Inr () \<and> dict_ok (snd r) \<and> states_ok ts (dict_get (snd r))
     \<and> sound ts (dict_get (snd r)) \<and> (\<forall>k. settled_at ts (dict_get (snd r)) k)
     \<and> (\<forall>k s. dict_get sts k = Some s \<longrightarrow> (\<exists>s'. dict_get (snd r) k = Some s' \<and> refreshed s s'))"

lemma refresh_ok:
  assumes ts: "well_formed ts" and deps: "\<forall>d. set (list_at deps d) = {k. (d, k) \<in> edges ts}"
    and "dict_ok sts" and "states_ok ts (dict_get sts)" and "sound ts (dict_get sts)"
    and "set pending \<subseteq> ids ts" and "queued \<subseteq> set pending"
    and "\<forall>k. k \<notin> set pending \<longrightarrow> settled_at ts (dict_get sts) k"
  shows "refresh_post ts sts (refresh deps pending queued sts)"
  using deps assms(3-8)
proof (induction deps pending queued sts rule: refresh.induct)
  case (1 deps queued sts)
  then show ?case
    by (auto simp: refreshed_def refresh_post_def)
next
  case (2 deps t pending queued sts)
  have dis: "distinct (map task_id ts)" and deps_known: "\<forall>t \<in> set ts. set (dependencies t) \<subseteq> ids ts"
    using ts by (simp_all add: well_formed_def)
  have tid: "t \<in> ids ts"
    using "2.prems"(5) by simp
  then obtain s where s: "dict_get sts t = Some s"
    using "2.prems"(3) unfolding states_ok_def by blast
  then have dep: "dependencies (spec s) = needs ts t"
    using "2.prems"(3) by (simp add: states_ok_def)
  have known: "\<forall>d \<in> set (needs ts t). dict_get sts d \<noteq> None"
    using needs_known [OF dis deps_known tid] "2.prems"(3) by (auto simp: states_ok_def)
  note stats = statuses_of_Inr [OF known]
  let ?ss = "map (\<lambda>d. ts_status (the (dict_get sts d))) (needs ts t)"
  have queued: "queued - {t} \<subseteq> set pending"
    using "2.prems"(6) by auto
  show ?case
  proof (cases "ts_status s = PENDING \<and> pending_outcome ?ss s \<noteq> None")
    case False
    then have run: "refresh deps (t # pending) queued sts = refresh deps pending (queued - {t}) sts"
      using s stats by (auto simp: dep)
    have "settled_at ts (dict_get sts) t"
      using False by (intro no_outcome_settled [OF "2.prems"(3) s known]) auto
    then have set: "\<forall>k. k \<notin> set pending \<longrightarrow> settled_at ts (dict_get sts) k"
      using "2.prems"(7) by auto
    show ?thesis
      unfolding run
    proof (cases "ts_status s = PENDING")
      case True
      then show "refresh_post ts sts (refresh deps pending (queued - {t}) sts)"
        using "2.IH"(2) [OF s _ stats [folded dep]] False "2.prems"(1-5) queued set by (simp add: dep)
    next
      case False
      then show "refresh_post ts sts (refresh deps pending (queued - {t}) sts)"
        using "2.IH"(1) [OF s] "2.prems"(1-5) queued set by simp
    qed
  next
    case True
    then obtain s' where out: "pending_outcome ?ss s = Some s'" and pend: "ts_status s = PENDING"
      by auto
    obtain pending' queued' where q: "enqueue (list_at deps t) pending (queued - {t}) = (pending', queued')"
      by fastforce
    note sets = enqueue_sets [OF q queued]
    note om = outcome_map [OF ts "2.prems"(3,4) s pend out]
    let ?sts = "dict_set t s' sts"
    have run: "refresh deps (t # pending) queued sts = refresh deps pending' queued' ?sts"
      using s pend out q stats by (simp add: dep)
    have sub: "set pending' \<subseteq> ids ts"
      using sets "2.prems"(1,5) by (auto simp: edges_needs [OF dis])
    have set: "\<forall>k. k \<notin> set pending' \<longrightarrow> settled_at ts (dict_get ?sts) k"
    proof (intro allI impI)
      fix k
      assume k: "k \<notin> set pending'"
      show "settled_at ts (dict_get ?sts) k"
      proof (cases "k = t \<or> k \<notin> ids ts")
        case True
        have "dom ((dict_get sts)(t \<mapsto> s')) = ids ts"
          using om(1) unfolding states_ok_def by (rule conjunct1)
        then have "k \<notin> ids ts \<Longrightarrow> ((dict_get sts)(t \<mapsto> s')) k = None"
          by (metis domIff)
        then show ?thesis
          using True om(3) by (auto simp: settled_at_def has_status_def)
      next
        case False
        then show ?thesis
          using k sets "2.prems"(1,7) om(5) [of k] by (auto simp: edges_needs [OF dis])
      qed
    qed
    have post: "refresh_post ts ?sts (refresh deps pending' queued' ?sts)"
    proof (rule "2.IH"(3) [OF s _ stats [folded dep] out [folded dep] q [symmetric] "2.prems"(1)])
      show "\<not> ts_status s \<noteq> PENDING"
        using pend by simp
      show "dict_ok ?sts"
        by (simp add: "2.prems"(2))
      show "states_ok ts (dict_get ?sts)" "sound ts (dict_get ?sts)"
        using om(1,2) by simp_all
      show "set pending' \<subseteq> ids ts"
        by (rule sub)
      show "queued' \<subseteq> set pending'"
        using sets by (rule conjunct2)
      show "\<forall>k. k \<notin> set pending' \<longrightarrow> settled_at ts (dict_get ?sts) k"
        by (rule set)
    qed
    have "\<exists>y. dict_get (snd (refresh deps pending' queued' ?sts)) k = Some y \<and> refreshed x y"
      if x: "dict_get sts k = Some x" for k x
    proof -
      have "dict_get ?sts k = Some (if k = t then s' else x)"
        using x by simp
      then obtain y where y: "dict_get (snd (refresh deps pending' queued' ?sts)) k = Some y"
        "refreshed (if k = t then s' else x) y"
        using post unfolding refresh_post_def by blast
      have "refreshed x (if k = t then s' else x)"
        using x s om(4) by (auto simp: refreshed_def)
      with y show ?thesis
        using refreshed_trans by blast
    qed
    then show ?thesis
      using post unfolding run refresh_post_def by blast
  qed
qed

section \<open>Storing one state\<close>

definition inv_at :: "task_spec list \<Rightarrow> task_graph \<Rightarrow> string set \<Rightarrow> bool" where
  "inv_at ts G A \<longleftrightarrow> shape ts G \<and> sound ts (dict_get (g_states G))
     \<and> (\<forall>k. k \<notin> A \<longrightarrow> settled_at ts (dict_get (g_states G)) k)"

lemma graph_ok_inv: "graph_ok G \<longleftrightarrow> (\<exists>ts. inv_at ts G {})"
  by (simp add: graph_ok_def inv_at_def)

text \<open>How an operation may change a task.\<close>

definition moved :: "task_state \<Rightarrow> task_state \<Rightarrow> bool" where
  "moved s s' \<longleftrightarrow> spec s' = spec s \<and> (task_is_terminal (ts_status s) \<longrightarrow> s' = s) \<and> ts_attempt s \<le> ts_attempt s'"

definition all_moved :: "task_graph \<Rightarrow> task_graph \<Rightarrow> bool" where
  "all_moved G G' \<longleftrightarrow> dependents G' = dependents G
     \<and> (\<forall>k s. dict_get (g_states G) k = Some s \<longrightarrow> (\<exists>s'. dict_get (g_states G') k = Some s' \<and> moved s s'))"

lemma moved_refl [simp]: "moved s s"
  by (simp add: moved_def)

lemma all_moved_refl [simp]: "all_moved G G"
  by (simp add: all_moved_def)

lemma moved_trans: "moved s t \<Longrightarrow> moved t u \<Longrightarrow> moved s u"
  by (auto simp: moved_def)

lemma all_moved_trans: "all_moved G H \<Longrightarrow> all_moved H K \<Longrightarrow> all_moved G K"
  unfolding all_moved_def by (metis moved_trans)

lemma refreshed_moved: "refreshed s s' \<Longrightarrow> moved s s'"
  by (auto simp: refreshed_def moved_def task_is_terminal_def)

lemma store_inv:
  assumes inv: "inv_at ts G {}" and s: "dict_get (g_states G) t = Some s" "\<not> task_is_terminal (ts_status s)"
    and s': "new_TaskState s' = Inr s'" "spec s' = spec s" "evidenced s'" "ts_attempt s \<le> ts_attempt s'"
      "ts_status s' \<noteq> PENDING" "ts_status s' \<in> set executable \<Longrightarrow> ts_status s \<in> set executable"
    and G': "G' = G\<lparr>g_states := dict_set t s' (g_states G)\<rparr>"
  shows "inv_at ts G' (set (list_at (dependents G) t)) \<and> all_moved G G'"
    and "ts_status s' \<notin> insert SUCCEEDED (set failed_dependencies) \<Longrightarrow> inv_at ts G' {} \<and> all_moved G G'"
proof -
  let ?m = "dict_get (g_states G)"
  have dis: "distinct (map task_id ts)" and ok: "states_ok ts ?m" and snd: "sound ts ?m"
    and set: "\<And>k. settled_at ts ?m k" and deps: "set (list_at (dependents G) t) = {k. (t, k) \<in> edges ts}"
    using inv by (auto simp: inv_at_def shape_def well_formed_def)
  have sound': "sound ts (?m(t \<mapsto> s'))"
  proof (rule sound_upd [OF snd])
    show "has_status ?m t (- {SUCCEEDED})"
      using s by (auto simp: has_status_def task_is_terminal_def)
    assume "ts_status s' \<in> set executable"
    then have "has_status ?m t (set executable)"
      using s(1) s'(6) by (simp add: has_status_def)
    then have "\<forall>d \<in> set (needs ts t). has_status ?m d {SUCCEEDED}"
      using snd unfolding sound_def by blast
    then show "\<forall>d \<in> set (needs ts t). d \<noteq> t \<and> has_status ?m d {SUCCEEDED}"
      using s by (auto simp: has_status_def task_is_terminal_def)
  qed
  have settled': "settled_at ts (?m(t \<mapsto> s')) k"
    if "k \<in> ids ts \<and> t \<in> set (needs ts k) \<Longrightarrow> ts_status s' \<notin> insert SUCCEEDED (set failed_dependencies)" for k
  proof (cases "k = t")
    case True
    then show ?thesis
      using settled_self [OF s'(5)] by simp
  next
    case False
    show ?thesis
    proof (cases "k \<in> ids ts")
      case True
      then show ?thesis
        using that by (intro settled_upd [OF set False]) auto
    next
      case False
      then have "?m k = None"
        using ok by (auto simp: states_ok_def)
      then show ?thesis
        using \<open>k \<noteq> t\<close> by (simp add: settled_at_def has_status_def)
    qed
  qed
  have shape': "shape ts G'"
    using inv states_ok_upd [OF ok s(1) s'(2,1,3)] by (simp add: inv_at_def shape_def G')
  have move: "all_moved G G'"
    using s s' by (auto simp: all_moved_def G' moved_def)
  show "inv_at ts G' (set (list_at (dependents G) t)) \<and> all_moved G G'"
    using shape' sound' settled' move deps by (auto simp: inv_at_def G' edges_needs [OF dis])
  show "ts_status s' \<notin> insert SUCCEEDED (set failed_dependencies) \<Longrightarrow> inv_at ts G' {} \<and> all_moved G G'"
    using shape' sound' settled' move by (simp add: inv_at_def G')
qed

lemma fromkeys_set [simp]: "set (fromkeys xs) = set xs"
  by (simp add: fromkeys_def)

lemma refresh_pending_inv:
  assumes "inv_at ts G A" and "A \<subseteq> set xs" and "set xs \<subseteq> ids ts"
  obtains G' where "refresh_pending xs G = (Inr (), G')" and "inv_at ts G' {}" and "all_moved G G'"
    and "\<forall>k s. dict_get (g_states G) k = Some s \<longrightarrow> (\<exists>s'. dict_get (g_states G') k = Some s' \<and> refreshed s s')"
proof -
  have "refresh_post ts (g_states G) (refresh (dependents G) (fromkeys xs) (set xs) (g_states G))"
    using assms by (intro refresh_ok) (auto simp: inv_at_def shape_def)
  moreover obtain out sts where r: "refresh (dependents G) (fromkeys xs) (set xs) (g_states G) = (out, sts)"
    by fastforce
  ultimately have post: "out = Inr ()" "dict_ok sts" "states_ok ts (dict_get sts)" "sound ts (dict_get sts)"
    "\<forall>k. settled_at ts (dict_get sts) k"
    "\<forall>k s. dict_get (g_states G) k = Some s \<longrightarrow> (\<exists>s'. dict_get sts k = Some s' \<and> refreshed s s')"
    by (simp_all add: refresh_post_def)
  show thesis
  proof (rule that [of "G\<lparr>g_states := sts\<rparr>"])
    show "refresh_pending xs G = (Inr (), G\<lparr>g_states := sts\<rparr>)"
      using post(1) by (simp add: refresh_pending_def r)
    show "inv_at ts (G\<lparr>g_states := sts\<rparr>) {}"
      using assms(1) post by (simp add: inv_at_def shape_def)
    show "all_moved G (G\<lparr>g_states := sts\<rparr>)"
      using post(6) refreshed_moved by (simp add: all_moved_def) blast
    show "\<forall>k s. dict_get (g_states G) k = Some s
        \<longrightarrow> (\<exists>s'. dict_get (g_states (G\<lparr>g_states := sts\<rparr>)) k = Some s' \<and> refreshed s s')"
      using post(6) by simp
  qed
qed

end
