(* ===== verification/TaskGraphOps.thy ===== *)
theory TaskGraphOps
  imports TaskGraphInvariant
begin

text \<open>
  Every operation of the task graph keeps the invariant, leaves finished tasks alone, and changes
  nothing when it raises. A graph restored from a snapshot of its states is the same graph.
\<close>

section \<open>Operations as data\<close>

datatype graph_op =
    MarkWaiting string
  | ResumeApproval string
  | StartTask string string
  | BeginVerification string "task_result option"
  | RecordVerification string task_verification
  | SucceedTask string task_result
  | RetryTask string string "task_result option" "task_verification option"
  | FailTask string string "task_result option" "task_verification option"
  | CancelAll
  | RecoverInflight

definition forget :: "(exn + 'a) \<times> task_graph \<Rightarrow> (exn + unit) \<times> task_graph" where
  "forget r = (map_sum id (\<lambda>_. ()) (fst r), snd r)"

fun apply_graph :: "graph_op \<Rightarrow> task_graph \<Rightarrow> (exn + unit) \<times> task_graph" where
  "apply_graph (MarkWaiting t) G = forget (mark_waiting_approval t G)"
| "apply_graph (ResumeApproval t) G = forget (resume_approval t G)"
| "apply_graph (StartTask t a) G = forget (start_task t a G)"
| "apply_graph (BeginVerification t r) G = forget (begin_verification t r G)"
| "apply_graph (RecordVerification t v) G = forget (record_verification t v G)"
| "apply_graph (SucceedTask t r) G = forget (succeed_task t r G)"
| "apply_graph (RetryTask t e r v) G = forget (retry_task t e r v G)"
| "apply_graph (FailTask t e r v) G = forget (fail_task t e r v G)"
| "apply_graph CancelAll G = (Inr (), cancel_all G)"
| "apply_graph RecoverInflight G = forget (recover_inflight G)"

definition keeps_graph :: "task_spec list \<Rightarrow> task_graph \<Rightarrow> (exn + 'a) \<times> task_graph \<Rightarrow> bool" where
  "keeps_graph ts G r \<longleftrightarrow> inv_at ts (snd r) {} \<and> all_moved G (snd r) \<and> (\<forall>e. fst r = Inl e \<longrightarrow> snd r = G)"

lemma keeps_forget [simp]: "keeps_graph ts G (forget r) \<longleftrightarrow> keeps_graph ts G r"
  by (cases "fst r") (simp_all add: keeps_graph_def forget_def)

section \<open>Operations on one task\<close>

definition changes_ok :: "string \<Rightarrow> task_status list \<Rightarrow> (task_state \<Rightarrow> exn + task_state) \<Rightarrow> bool" where
  "changes_ok t al f \<longleftrightarrow> (\<forall>s s'. task_id (spec s) = t \<longrightarrow> ts_status s \<in> set al \<longrightarrow> evidenced s \<longrightarrow> f s = Inr s'
     \<longrightarrow> \<not> task_is_terminal (ts_status s) \<and> spec s' = spec s \<and> evidenced s' \<and> ts_attempt s \<le> ts_attempt s'
       \<and> ts_status s' \<noteq> PENDING \<and> (ts_status s' \<in> set executable \<longrightarrow> ts_status s \<in> set executable))"

lemma change_cases:
  assumes inv: "inv_at ts G {}" and f: "changes_ok t al f" and r: "change_state t al f G = (out, G')"
  shows "(\<exists>e. out = Inl e \<and> G' = G)
    \<or> (\<exists>s s'. out = Inr s' \<and> dict_get (g_states G) t = Some s \<and> ts_status s \<in> set al \<and> f s = Inr s'
        \<and> G' = G\<lparr>g_states := dict_set t s' (g_states G)\<rparr> \<and> all_moved G G' \<and> t \<in> ids ts
        \<and> inv_at ts G' (set (list_at (dependents G) t))
        \<and> (ts_status s' \<notin> insert SUCCEEDED (set failed_dependencies) \<longrightarrow> inv_at ts G' {}))"
proof (cases out)
  case (Inl e)
  then show ?thesis
    using r by (auto simp: change_state_def store_state_def split: sum.splits)
next
  case (Inr s')
  then obtain s where s: "dict_get (g_states G) t = Some s" "ts_status s \<in> set al" "f s = Inr s'"
    and new: "new_TaskState s' = Inr s'" and G': "G' = G\<lparr>g_states := dict_set t s' (g_states G)\<rparr>"
    using r by (auto simp: change_state_def store_state_def require_status_def graph_state_def
        split: sum.splits option.splits if_splits dest: new_TaskState_Inr)
  have st: "task_id (spec s) = t" "evidenced s" "t \<in> ids ts"
    using inv s(1) by (auto simp: inv_at_def shape_def states_ok_def)
  have ch: "\<not> task_is_terminal (ts_status s)" "spec s' = spec s" "evidenced s'" "ts_attempt s \<le> ts_attempt s'"
    "ts_status s' \<noteq> PENDING" "ts_status s' \<in> set executable \<Longrightarrow> ts_status s \<in> set executable"
    using f [unfolded changes_ok_def, rule_format, OF st(1) s(2) st(2) s(3)] by simp_all
  note inv' = store_inv [OF inv s(1) ch(1) new ch(2-6) G']
  have all: "inv_at ts G' (set (list_at (dependents G) t)) \<and> all_moved G G'"
    by (rule inv'(1))
  have quiet: "ts_status s' \<notin> insert SUCCEEDED (set failed_dependencies) \<longrightarrow> inv_at ts G' {}"
    using inv'(2) by (rule impI [OF conjunct1])
  show ?thesis
    using s Inr G' st(3) all quiet by blast
qed

lemma change_keeps:
  assumes "inv_at ts G {}" and "changes_ok t al f"
    and "\<And>s s'. f s = Inr s' \<Longrightarrow> ts_status s \<in> set al \<Longrightarrow> ts_status s' \<notin> insert SUCCEEDED (set failed_dependencies)"
  shows "keeps_graph ts G (change_state t al f G)"
proof -
  obtain out G' where r: "change_state t al f G = (out, G')"
    by fastforce
  show ?thesis
    using change_cases [OF assms(1,2) r] assms(1,3) by (auto simp: keeps_graph_def r)
qed

lemma change_refresh_keeps:
  assumes inv: "inv_at ts G {}" and f: "changes_ok t al f"
  shows "keeps_graph ts G (then_refresh t (change_state t al f G))"
proof -
  obtain out G' where r: "change_state t al f G = (out, G')"
    by fastforce
  from change_cases [OF inv f r] show ?thesis
  proof (elim disjE exE conjE)
    fix e
    assume "out = Inl e" and "G' = G"
    then show ?thesis
      using inv by (simp add: then_refresh_def r keeps_graph_def)
  next
    fix s'
    assume out: "out = Inr s'" and inv': "inv_at ts G' (set (list_at (dependents G) t))"
      and mv: "all_moved G G'" and t: "t \<in> ids ts"
    have dep: "dependents G' = dependents G"
      using mv by (simp add: all_moved_def)
    have "set (list_at (dependents G) t) \<subseteq> ids ts"
      using inv by (auto simp: inv_at_def shape_def well_formed_def edges_needs)
    then obtain G'' where "refresh_pending (list_at (dependents G) t) G' = (Inr (), G'')"
      "inv_at ts G'' {}" "all_moved G' G''"
      by (rule refresh_pending_inv [OF inv' order_refl])
    then show ?thesis
      using mv all_moved_trans by (auto simp: then_refresh_def r out dep keeps_graph_def)
  qed
qed

lemmas change_defs = changes_ok_def executable_set failed_set in_progress_set task_is_terminal_def evidenced_def

lemma mark_waiting_keeps: "inv_at ts G {} \<Longrightarrow> keeps_graph ts G (mark_waiting_approval t G)"
  unfolding mark_waiting_approval_def by (rule change_keeps) (auto simp: change_defs)

lemma resume_approval_keeps: "inv_at ts G {} \<Longrightarrow> keeps_graph ts G (resume_approval t G)"
  unfolding resume_approval_def by (rule change_keeps) (auto simp: change_defs)

lemma start_keeps: "inv_at ts G {} \<Longrightarrow> keeps_graph ts G (start_task t a G)"
  unfolding start_task_def by (rule change_keeps) (auto simp: change_defs)

lemma begin_verification_keeps: "inv_at ts G {} \<Longrightarrow> keeps_graph ts G (begin_verification t r G)"
  unfolding begin_verification_def
  by (rule change_keeps) (auto simp: change_defs matches_assignment_def split: option.splits if_splits)

lemma record_verification_keeps: "inv_at ts G {} \<Longrightarrow> keeps_graph ts G (record_verification t v G)"
  unfolding record_verification_def by (rule change_keeps) (auto simp: change_defs split: if_splits)

lemma retry_keeps: "inv_at ts G {} \<Longrightarrow> keeps_graph ts G (retry_task t e r v G)"
  unfolding retry_task_def by (rule change_keeps) (auto simp: change_defs)

lemma succeed_keeps: "inv_at ts G {} \<Longrightarrow> keeps_graph ts G (succeed_task t r G)"
  unfolding succeed_task_def
  by (rule change_refresh_keeps) (auto simp: change_defs matches_assignment_def split: option.splits if_splits)

lemma fail_keeps: "inv_at ts G {} \<Longrightarrow> keeps_graph ts G (fail_task t e r v G)"
  unfolding fail_task_def by (rule change_refresh_keeps) (auto simp: change_defs)

section \<open>Operations on all tasks\<close>

lemma dict_get_map: "dict_get (map (\<lambda>(k, s). (k, f s)) d) k = map_option f (dict_get d k)"
  by (induction d) auto

lemma dict_keys_map [simp]: "dict_keys (map (\<lambda>(k, s). (k, f s)) d) = dict_keys d"
  by (auto simp: comp_def split_def)

lemma dict_ok_map [simp]: "dict_ok (map (\<lambda>(k, s). (k, f s)) d) \<longleftrightarrow> dict_ok d"
  by (simp only: dict_ok_def dict_keys_map)

lemma has_status_map:
  "has_status (\<lambda>k. map_option f (m k)) k A \<longleftrightarrow> (\<exists>s. m k = Some s \<and> ts_status (f s) \<in> A)"
  by (auto simp: has_status_def)

definition mapped :: "(task_state \<Rightarrow> task_state) \<Rightarrow> task_graph \<Rightarrow> task_graph" where
  "mapped f G = G\<lparr>g_states := map (\<lambda>(k, s). (k, f s)) (g_states G)\<rparr>"

lemma mapped_inv:
  assumes inv: "inv_at ts G {}"
    and f: "\<And>s. new_TaskState s = Inr s \<Longrightarrow> evidenced s \<Longrightarrow> new_TaskState (f s) = Inr (f s) \<and> evidenced (f s) \<and> moved s (f s)"
    and ex: "\<And>s. ts_status (f s) \<in> set executable \<Longrightarrow> ts_status s \<in> set executable"
    and pend: "\<And>s. ts_status (f s) = PENDING \<Longrightarrow> ts_status s = PENDING"
    and suc: "\<And>s. ts_status (f s) = SUCCEEDED \<longleftrightarrow> ts_status s = SUCCEEDED"
    and A: "\<And>k s d x. \<lbrakk>dict_get (g_states G) k = Some s; ts_status (f s) = PENDING; k \<in> ids ts; d \<in> set (needs ts k);
        dict_get (g_states G) d = Some x; ts_status (f x) \<in> set failed_dependencies;
        ts_status x \<notin> set failed_dependencies\<rbrakk> \<Longrightarrow> k \<in> A"
  shows "inv_at ts (mapped f G) A" and "all_moved G (mapped f G)"
proof -
  let ?m = "dict_get (g_states G)"
  have ok: "states_ok ts ?m" and snd: "sound ts ?m" and set: "\<And>k. settled_at ts ?m k"
    and sh: "shape ts G"
    using inv by (auto simp: inv_at_def shape_def)
  have get: "dict_get (g_states (mapped f G)) = (\<lambda>k. map_option f (?m k))"
    by (rule ext) (simp add: mapped_def dict_get_map)
  have "states_ok ts (\<lambda>k. map_option f (?m k))"
    using ok f by (auto simp: states_ok_def moved_def dom_def)
  then have "shape ts (mapped f G)"
    using sh unfolding shape_def get by (simp add: mapped_def)
  moreover have "sound ts (\<lambda>k. map_option f (?m k))"
    using snd ex suc unfolding sound_def has_status_map by (auto simp: has_status_def)
  moreover have "settled_at ts (\<lambda>k. map_option f (?m k)) k" if "k \<notin> A" for k
    unfolding settled_at_def has_status_map
  proof (intro impI)
    assume "\<exists>s. ?m k = Some s \<and> ts_status (f s) \<in> {PENDING}"
    then obtain s where s: "?m k = Some s" "ts_status (f s) = PENDING"
      by auto
    then have "has_status ?m k {PENDING}"
      using pend by (simp add: has_status_def)
    then have old: "\<forall>d \<in> set (needs ts k). \<not> has_status ?m d (set failed_dependencies)"
      "\<exists>d \<in> set (needs ts k). \<not> has_status ?m d {SUCCEEDED}"
      using set [of k] by (auto simp: settled_at_def)
    have k: "k \<in> ids ts"
      using ok s(1) by (auto simp: states_ok_def)
    show "(\<forall>d \<in> set (needs ts k). \<not> (\<exists>s. ?m d = Some s \<and> ts_status (f s) \<in> set failed_dependencies))
      \<and> (\<exists>d \<in> set (needs ts k). \<not> (\<exists>s. ?m d = Some s \<and> ts_status (f s) \<in> {SUCCEEDED}))"
      using old A [OF s k] that suc by (auto simp: has_status_def)
  qed
  ultimately show "inv_at ts (mapped f G) A"
    by (simp add: inv_at_def get)
  show "all_moved G (mapped f G)"
    using ok f by (auto simp: all_moved_def get states_ok_def) (simp add: mapped_def)
qed

lemma cancel_keeps:
  assumes inv: "inv_at ts G {}"
  shows "keeps_graph ts G (Inr () :: exn + unit, cancel_all G)"
proof -
  let ?f = "\<lambda>s. if task_is_terminal (ts_status s) then s else s\<lparr>ts_status := CANCELLED_TASK\<rparr>"
  have G: "cancel_all G = mapped ?f G"
    by (simp add: cancel_all_def mapped_def)
  have valid: "new_TaskState (?f s) = Inr (?f s) \<and> evidenced (?f s) \<and> moved s (?f s)"
    if "new_TaskState s = Inr s" "evidenced s" for s
    using that by (cases "ts_result s"; cases "assigned_agent s"; simp add: new_TaskState_def evidenced_def moved_def)
  have "inv_at ts (mapped ?f G) {} \<and> all_moved G (mapped ?f G)"
    by (intro conjI mapped_inv [OF inv valid])
      (auto simp: executable_set failed_set task_is_terminal_def split: if_splits)
  then show ?thesis
    by (simp add: keeps_graph_def G)
qed

lemma recover_status:
  "ts_status (recover_state s) =
     (if ts_status s = RUNNING \<and> replay_safe (spec s) then READY
      else if ts_status s = WAITING \<or> ts_status s = RUNNING then BLOCKED_TASK else ts_status s)"
  by (simp add: recover_state_def)

lemma recover_state_valid:
  assumes "new_TaskState s = Inr s" and "evidenced s"
  shows "new_TaskState (recover_state s) = Inr (recover_state s) \<and> evidenced (recover_state s)
    \<and> moved s (recover_state s)"
proof -
  consider "ts_status s = RUNNING" "replay_safe (spec s)"
    | "ts_status s = WAITING \<or> ts_status s = RUNNING \<and> \<not> replay_safe (spec s)"
    | "ts_status s \<notin> {WAITING, RUNNING}"
    by auto
  then show ?thesis
  proof cases
    case 1
    then show ?thesis
      using assms(1) by (simp add: recover_state_def new_TaskState_def evidenced_def moved_def task_is_terminal_def)
  next
    case 2
    then have "recover_state s = s\<lparr>ts_status := BLOCKED_TASK,
        ts_error := ''recovery requires host reconciliation; task was not replayed''\<rparr>"
      by (auto simp: recover_state_def)
    moreover have "\<not> task_is_terminal (ts_status s)"
      using 2 by (auto simp: task_is_terminal_def)
    ultimately show ?thesis
      using assms(1) by (cases "ts_result s"; cases "assigned_agent s";
        simp add: new_TaskState_def evidenced_def moved_def)
  next
    case 3
    then have "recover_state s = s"
      by (simp add: recover_state_def)
    with assms show ?thesis
      by simp
  qed
qed

lemma recover_result:
  assumes inv: "inv_at ts G {}"
  obtains G' where "recover_inflight G = (Inr (sort (map fst (filter (\<lambda>(k, s). ts_status s = WAITING
            \<or> ts_status s = RUNNING \<and> \<not> replay_safe (spec s)) (g_states G)))), G')"
    and "inv_at ts G' {}" and "all_moved G G'"
    and "\<forall>k s. dict_get (g_states G) k = Some s
           \<longrightarrow> (\<exists>s'. dict_get (g_states G') k = Some s' \<and> refreshed (recover_state s) s')"
proof -
  let ?blocked = "map fst (filter (\<lambda>(k, s). ts_status s = WAITING
            \<or> ts_status s = RUNNING \<and> \<not> replay_safe (spec s)) (g_states G))"
  let ?xs = "concat (map (list_at (dependents G)) ?blocked)"
  have sh: "shape ts G" and ok: "dict_ok (g_states G)"
    using inv by (auto simp: inv_at_def shape_def)
  have dis: "distinct (map task_id ts)"
    using sh by (simp add: shape_def well_formed_def)
  have A: "k \<in> set ?xs"
    if "k \<in> ids ts" "d \<in> set (needs ts k)" "dict_get (g_states G) d = Some x"
      "ts_status (recover_state x) \<in> set failed_dependencies" "ts_status x \<notin> set failed_dependencies" for k d x
  proof -
    have "ts_status x = WAITING \<or> ts_status x = RUNNING \<and> \<not> replay_safe (spec x)"
      using that(4,5) by (auto simp: recover_state_def failed_set split: if_splits)
    then have "d \<in> set ?blocked"
      using map_of_SomeD [OF that(3)] by force
    moreover have "k \<in> set (list_at (dependents G) d)"
      using that(1,2) sh by (simp add: shape_def edges_needs [OF dis])
    ultimately show ?thesis
      unfolding set_concat set_map by blast
  qed
  have inv1: "inv_at ts (mapped recover_state G) (set ?xs)"
    by (rule mapped_inv(1) [OF inv recover_state_valid])
      (auto simp only: recover_status executable_set insert_iff split: if_splits intro: A [unfolded recover_status])
  have mv1: "all_moved G (mapped recover_state G)"
    by (rule mapped_inv(2) [OF inv recover_state_valid, where A = UNIV])
      (auto simp: recover_status executable_set split: if_splits)
  have "set ?xs \<subseteq> ids ts"
    using sh by (auto simp: shape_def edges_needs [OF dis])
  then obtain G' where G': "refresh_pending ?xs (mapped recover_state G) = (Inr (), G')" "inv_at ts G' {}"
    "all_moved (mapped recover_state G) G'"
    "\<forall>k s. dict_get (g_states (mapped recover_state G)) k = Some s
       \<longrightarrow> (\<exists>s'. dict_get (g_states G') k = Some s' \<and> refreshed s s')"
    by (rule refresh_pending_inv [OF inv1 order_refl])
  have "\<exists>s'. dict_get (g_states G') k = Some s' \<and> refreshed (recover_state s) s'"
    if "dict_get (g_states G) k = Some s" for k s
    using G'(4) that by (simp add: mapped_def dict_get_map)
  then have changed: "\<forall>k s. dict_get (g_states G) k = Some s
     \<longrightarrow> (\<exists>s'. dict_get (g_states G') k = Some s' \<and> refreshed (recover_state s) s')"
    by blast
  have "recover_inflight G = (Inr (sort ?blocked), G')"
    using G'(1) unfolding recover_inflight_def Let_def mapped_def [symmetric] by simp
  then show thesis
    by (rule that) (rule G'(2), rule all_moved_trans [OF mv1 G'(3)], rule changed)
qed

lemma recover_keeps:
  assumes inv: "inv_at ts G {}"
  shows "keeps_graph ts G (recover_inflight G)"
proof -
  obtain G' ids where "recover_inflight G = (Inr ids, G')" and "inv_at ts G' {}" and "all_moved G G'"
    by (rule recover_result [OF inv])
  then show ?thesis
    by (simp add: keeps_graph_def)
qed

lemma apply_keeps:
  assumes "inv_at ts G {}"
  shows "keeps_graph ts G (apply_graph op G)"
  using assms by (cases op) (simp_all add: mark_waiting_keeps resume_approval_keeps start_keeps
      begin_verification_keeps record_verification_keeps succeed_keeps retry_keeps fail_keeps cancel_keeps recover_keeps)

section \<open>New and restored graphs\<close>

lemma initial_get:
  assumes "distinct (map task_id ts)" and "t \<in> set ts"
  shows "dict_get (initial_states ts) (task_id t)
    = Some (initial_state t (if dependencies t = [] then READY else PENDING))"
  unfolding initial_states_def using assms by (intro map_of_is_SomeI) (auto simp: comp_def)

lemma new_graph_inv:
  assumes "new_TaskGraph ts None = Inr G"
  shows "inv_at ts G {}"
proof -
  have wf: "well_formed ts" and G: "G = \<lparr>g_tasks = map (\<lambda>t. (task_id t, t)) ts,
      g_states = initial_states ts, dependents = index_dependents ts\<rparr>"
    using assms by (auto simp: new_TaskGraph_def validate_Inr Let_def split: sum.splits)
  have dis: "distinct (map task_id ts)"
    using wf by (simp add: well_formed_def)
  let ?m = "dict_get (initial_states ts)"
  have keys: "dict_keys (initial_states ts) = map task_id ts"
    by (simp add: initial_states_def comp_def)
  have dom: "dom ?m = ids ts"
    unfolding dom_map_of_conv_image_fst using arg_cong [OF keys, of set] by (simp add: ids_def)
  have m: "?m k = Some s \<Longrightarrow> \<exists>t \<in> set ts. k = task_id t
      \<and> s = initial_state t (if dependencies t = [] then READY else PENDING)" for k s
    unfolding initial_states_def by (drule map_of_SomeD) force
  have ok: "states_ok ts ?m"
    unfolding states_ok_def
  proof (intro conjI allI impI)
    fix k s
    assume "?m k = Some s"
    then obtain t where t: "t \<in> set ts" "k = task_id t"
      and s: "s = initial_state t (if dependencies t = [] then READY else PENDING)"
      using m by blast
    show "task_id (spec s) = k" "dependencies (spec s) = needs ts k" "new_TaskState s = Inr s" "evidenced s"
      using t by (simp_all add: s initial_state_def needs_task [OF dis] new_TaskState_def evidenced_def)
  qed (rule dom)
  have st: "?m k = Some s \<Longrightarrow> ts_status s = (if needs ts k = [] then READY else PENDING)" for k s
    using m by (force simp: initial_state_def needs_task [OF dis])
  have "sound ts ?m"
    using st by (auto simp: sound_def has_status_def executable_set split: if_splits)
  moreover have "settled_at ts ?m k" for k
    unfolding settled_at_def
  proof
    assume "has_status ?m k {PENDING}"
    then have "needs ts k \<noteq> []"
      using st by (auto simp: has_status_def split: if_splits)
    moreover have "\<not> has_status ?m d (insert SUCCEEDED (set failed_dependencies))" for d
      using st by (auto simp: has_status_def failed_set split: if_splits)
    ultimately show "(\<forall>d \<in> set (needs ts k). \<not> has_status ?m d (set failed_dependencies))
      \<and> (\<exists>d \<in> set (needs ts k). \<not> has_status ?m d {SUCCEEDED})"
      by (cases "needs ts k") (auto simp: has_status_def)
  qed
  moreover have "dict_ok (initial_states ts)"
    by (simp add: dict_ok_def keys dis)
  ultimately show ?thesis
    using wf ok by (simp add: inv_at_def shape_def G dependents_set [OF dis])
qed

lemma update_append: "k \<notin> set (dict_keys d) \<Longrightarrow> dict_set k v d = d @ [(k, v)]"
  by (induction d) auto

lemma index_states_map:
  assumes "distinct (map (task_id \<circ> spec) ss)"
  shows "index_states ss = map (\<lambda>s. (task_id (spec s), s)) ss"
proof -
  have "fold (\<lambda>s. dict_set (task_id (spec s)) s) ss d = d @ map (\<lambda>s. (task_id (spec s), s)) ss"
    if "distinct (dict_keys d @ map (task_id \<circ> spec) ss)" for d
    using that
  proof (induction ss arbitrary: d)
    case (Cons s ss)
    have d: "dict_set (task_id (spec s)) s d = d @ [(task_id (spec s), s)]"
      using Cons.prems by (intro update_append) auto
    show ?case
      using Cons.prems Cons.IH [of "d @ [(task_id (spec s), s)]"] by (simp add: d)
  qed simp
  from this [of "[]"] assms show ?thesis
    by (simp add: index_states_def)
qed

lemma refresh_settled:
  assumes "states_ok ts (dict_get sts)" and "well_formed ts" and "\<forall>k. settled_at ts (dict_get sts) k"
    and "set pending \<subseteq> ids ts"
  shows "refresh deps pending queued sts = (Inr (), sts)"
  using assms(4)
proof (induction pending arbitrary: queued)
  case (Cons t pending)
  have dis: "distinct (map task_id ts)" and dk: "\<forall>t \<in> set ts. set (dependencies t) \<subseteq> ids ts"
    using assms(2) by (simp_all add: well_formed_def)
  obtain s where s: "dict_get sts t = Some s" "dependencies (spec s) = needs ts t"
    using Cons.prems assms(1) unfolding states_ok_def by fastforce
  have known: "\<forall>d \<in> set (needs ts t). dict_get sts d \<noteq> None"
    using needs_known [OF dis dk, of t] Cons.prems assms(1) by (auto simp: states_ok_def)
  have "pending_outcome (map (\<lambda>d. ts_status (the (dict_get sts d))) (needs ts t)) s = None"
    if "ts_status s = PENDING"
  proof -
    have st: "has_status (dict_get sts) t {PENDING}"
      using s(1) that by (simp add: has_status_def)
    have "\<not> has_status (dict_get sts) d (set failed_dependencies)" if "d \<in> set (needs ts t)" for d
      using assms(3) st that by (auto simp: settled_at_def)
    moreover have "\<exists>d \<in> set (needs ts t). \<not> has_status (dict_get sts) d {SUCCEEDED}"
      using assms(3) st by (auto simp: settled_at_def)
    ultimately show ?thesis
      using known by (force simp: pending_outcome_def list_ex_iff list_all_iff has_status_def)
  qed
  then show ?case
    using s statuses_of_Inr [OF known] Cons by simp
qed simp

lemma restored_sound:
  assumes "states_ok ts m" and "sound ts m" and "\<And>k s. (k, s) \<in> set rest \<Longrightarrow> m k = Some s"
    and "m = dict_get sts"
  shows "restored_violation sts rest = None"
  using assms(3)
proof (induction rest)
  case (Cons p rest)
  obtain k s where p: "p = (k, s)"
    by (cases p)
  then have s: "m k = Some s"
    using Cons.prems by simp
  then have "dependencies (spec s) = needs ts k"
    using assms(1) by (simp add: states_ok_def)
  moreover have "has_status m d {SUCCEEDED}" if "ts_status s \<in> set executable" "d \<in> set (needs ts k)" for d
    using assms(2) s that by (auto simp: sound_def has_status_def)
  ultimately show ?case
    using Cons by (auto simp: p Let_def filter_empty_conv has_status_def assms(4))
qed simp

lemma graph_states_map:
  assumes ok: "states_ok ts (dict_get (g_states G))" and d: "dict_ok (g_states G)"
  shows "map (task_id \<circ> spec) (graph_states G) = sort (dict_keys (g_states G))"
    and "s \<in> set (graph_states G) \<longleftrightarrow> dict_get (g_states G) (task_id (spec s)) = Some s"
proof -
  have get: "dict_get (g_states G) k = Some (the (dict_get (g_states G) k))" if "k \<in> set (dict_keys (g_states G))" for k
    using that dict_has_get [of k "g_states G"] by (auto simp: dict_has_def)
  then have id: "task_id (spec (the (dict_get (g_states G) k))) = k" if "k \<in> set (dict_keys (g_states G))" for k
    using that ok by (simp add: states_ok_def)
  then show "map (task_id \<circ> spec) (graph_states G) = sort (dict_keys (g_states G))"
    unfolding graph_states_def map_map by (intro map_idI) (simp del: set_map)
  show "s \<in> set (graph_states G) \<longleftrightarrow> dict_get (g_states G) (task_id (spec s)) = Some s"
  proof
    assume "s \<in> set (graph_states G)"
    then obtain k where "k \<in> set (dict_keys (g_states G))" "s = the (dict_get (g_states G) k)"
      by (auto simp: graph_states_def)
    then show "dict_get (g_states G) (task_id (spec s)) = Some s"
      using get id by metis
  next
    assume s: "dict_get (g_states G) (task_id (spec s)) = Some s"
    then have "task_id (spec s) \<in> set (dict_keys (g_states G))"
      using dict_has_get [of "task_id (spec s)" "g_states G"] by (simp add: dict_has_def)
    then show "s \<in> set (graph_states G)"
      using s unfolding graph_states_def set_map set_sort
      by (intro image_eqI [where x = "task_id (spec s)"]) simp_all
  qed
qed

lemma well_formed_cong:
  assumes wf: "well_formed ts" and dis: "distinct (map task_id us)" and ids: "ids us = ids ts"
    and needs: "\<And>k. k \<in> ids ts \<Longrightarrow> needs us k = needs ts k"
  shows "well_formed us" and "edges us = edges ts"
proof -
  have dts: "distinct (map task_id ts)" and dk: "\<forall>t \<in> set ts. set (dependencies t) \<subseteq> ids ts"
    using wf by (simp_all add: well_formed_def)
  show ed: "edges us = edges ts"
    using ids needs by (auto simp: edges_needs [OF dis] edges_needs [OF dts])
  have "us \<noteq> []"
    using wf ids by (auto simp: well_formed_def ids_def)
  moreover have "set (dependencies u) \<subseteq> ids us" if "u \<in> set us" for u
  proof -
    have "task_id u \<in> ids us"
      using that by (simp add: ids_def)
    then show ?thesis
      using needs_known [OF dts dk, of "task_id u"] needs [of "task_id u"] needs_task [OF dis that] ids by auto
  qed
  ultimately show "well_formed us"
    using wf ed dis by (simp add: well_formed_def)
qed

lemma restore_inv:
  assumes inv: "inv_at ts G {}" and n: "tn_tasks n = graph_states G"
  obtains G' where "from_snapshot n = Inr G'" and "dict_get (g_states G') = dict_get (g_states G)"
    and "inv_at (map spec (graph_states G)) G' {}"
proof -
  let ?m = "dict_get (g_states G)" and ?ss = "graph_states G"
  let ?us = "map spec ?ss"
  have wf: "well_formed ts" and d: "dict_ok (g_states G)" and ok: "states_ok ts ?m" and snd: "sound ts ?m"
    and set: "\<forall>k. settled_at ts ?m k"
    using inv by (auto simp: inv_at_def shape_def)
  note gs = graph_states_map [OF ok d]
  have ids_us: "map task_id ?us = sort (dict_keys (g_states G))"
    using gs(1) by (simp add: comp_def)
  then have dis: "distinct (map task_id ?us)"
    using d by (simp add: dict_ok_def)
  have ids: "ids ?us = ids ts"
    using ok unfolding ids_def ids_us states_ok_def by (simp add: dom_map_of_conv_image_fst ids_def)
  have mem: "?m k = Some s \<Longrightarrow> s \<in> set ?ss \<and> task_id (spec s) = k" for k s
    using ok gs(2) by (auto simp: states_ok_def)
  have needs: "needs ?us k = needs ts k" if "k \<in> ids ts" for k
  proof -
    have "k \<in> dom ?m"
      using that ok [unfolded states_ok_def, THEN conjunct1] by (simp only:)
    then obtain s where s: "?m k = Some s"
      unfolding dom_def by blast
    then have "spec s \<in> set ?us" and "task_id (spec s) = k" and "dependencies (spec s) = needs ts k"
      using mem [OF s] ok [unfolded states_ok_def, THEN conjunct2, rule_format, OF s] by simp_all
    then show ?thesis
      using needs_task [OF dis] by metis
  qed
  have wfu: "well_formed ?us"
    by (rule well_formed_cong(1) [OF wf dis ids]) (rule needs)
  let ?by = "map (\<lambda>s. (task_id (spec s), s)) ?ss"
  have by_id: "index_states ?ss = ?by"
    using dis by (intro index_states_map) (simp add: comp_def)
  have by_ok: "dict_ok ?by"
    using dis by (simp add: dict_ok_def comp_def)
  have by_get: "dict_get ?by = ?m"
  proof
    fix k
    show "dict_get ?by k = ?m k"
    proof (cases "?m k")
      case None
      then have "k \<notin> set (dict_keys ?by)"
        using gs(2) by (auto simp: comp_def)
      then have "dict_get ?by k = None"
        unfolding map_of_eq_None_iff by (simp add: image_image)
      then show ?thesis
        using None by simp
    next
      case (Some s)
      then show ?thesis
        using mem [OF Some] by (simp add: dict_get_iff [OF by_ok]) force
    qed
  qed
  have cong_needs: "has_status ?m k A \<Longrightarrow> needs ?us k = needs ts k" for k A
    using needs ok by (auto simp: has_status_def states_ok_def)
  have ok': "states_ok ?us ?m"
  proof -
    have dom: "dom ?m = ids ts"
      using ok by (simp add: states_ok_def)
    have "needs ?us k = needs ts k" if "?m k = Some s" for k s
    proof -
      have "k \<in> dom ?m"
        by (simp add: domIff that)
      then show ?thesis
        using needs [of k] by (simp only: dom)
    qed
    then show ?thesis
      using ok dom unfolding states_ok_def ids by simp
  qed
  have snd': "sound ?us ?m"
    using snd cong_needs by (fastforce simp: sound_def)
  have set': "\<forall>k. settled_at ?us ?m k"
    using set cong_needs by (fastforce simp: settled_at_def)
  let ?G = "\<lparr>g_tasks = map (\<lambda>t. (task_id t, t)) ?us, g_states = ?by, dependents = index_dependents ?us\<rparr>"
  have tasks: "dict_get (map (\<lambda>t. (task_id t, t)) ?us) (task_id (spec s)) = Some (spec s)" if "s \<in> set ?ss" for s
    using dis that by (intro map_of_is_SomeI) (auto simp: comp_def)
  have keys: "set (dict_keys ?by) = set (dict_keys (map (\<lambda>t. (task_id t, t)) ?us))"
    by (simp add: comp_def image_image)
  have same: "\<not> list_ex (\<lambda>(k, s). case dict_get (map (\<lambda>t. (task_id t, t)) ?us) k of
      None \<Rightarrow> True | Some t \<Rightarrow> \<not> spec_eq (spec s) t) ?by"
    using tasks by (auto simp: list_ex_iff spec_eq_def)
  have viol: "restored_violation ?by ?by = None"
  proof (rule restored_sound [OF ok' snd'])
    show "(k, s) \<in> set ?by \<Longrightarrow> ?m k = Some s" for k s
      using dict_get_iff [OF by_ok, of k s] unfolding by_get by blast
    show "?m = dict_get ?by"
      by (rule by_get [symmetric])
  qed
  have "set (dict_keys ?by) \<subseteq> ids ?us"
    by (auto simp: ids_def)
  then have "refresh (index_dependents ?us) (fromkeys (dict_keys ?by)) (set (dict_keys ?by)) ?by = (Inr (), ?by)"
    using ok' set' by (intro refresh_settled [OF _ wfu]) (simp_all only: by_get fromkeys_set simp_thms)
  then have "refresh_pending (dict_keys ?by) ?G = (Inr (), ?G)"
    by (simp only: refresh_pending_def task_graph.simps prod.case)
  moreover have "validate_and_index ?us = Inr (index_dependents ?us)"
    using wfu by (simp add: validate_Inr)
  ultimately have "new_TaskGraph ?us (Some ?ss) = Inr ?G"
    using keys same viol by (simp only: new_TaskGraph_def Let_def by_id sum.case option.case prod.case if_False
        if_True simp_thms)
  moreover have "inv_at ?us ?G {}"
    using wfu by_ok ok' snd' set' dependents_set [OF dis]
    by (simp only: inv_at_def shape_def task_graph.simps by_get) simp
  ultimately show thesis
    using that [of ?G] by_get by (simp add: from_snapshot_def n)
qed

end
