(* ===== verification/TaskGraphProperties.thy ===== *)
theory TaskGraphProperties
  imports TaskGraphOps
begin

text \<open>
  What the task graph promises, for every graph reached from a new one by any sequence of its
  operations and restarts from its own snapshots.
\<close>

section \<open>Reachable graphs\<close>

inductive graph_run :: "task_graph \<Rightarrow> bool" where
  fresh: "new_TaskGraph ts None = Inr G \<Longrightarrow> graph_run G"
| operation: "graph_run G \<Longrightarrow> apply_graph op G = (out, G') \<Longrightarrow> graph_run G'"
| restart: "graph_run G \<Longrightarrow> tn_tasks n = graph_states G \<Longrightarrow> from_snapshot n = Inr G' \<Longrightarrow> graph_run G'"

lemma graph_run_inv: "graph_run G \<Longrightarrow> \<exists>ts. inv_at ts G {}"
proof (induction rule: graph_run.induct)
  case (fresh ts G)
  then show ?case
    using new_graph_inv by blast
next
  case (operation G op out G')
  then obtain ts where "inv_at ts G {}"
    by blast
  then have "keeps_graph ts G (apply_graph op G)"
    by (rule apply_keeps)
  then show ?case
    using operation by (auto simp: keeps_graph_def)
next
  case (restart G n G')
  then obtain ts where inv: "inv_at ts G {}"
    by blast
  obtain G'' where "from_snapshot n = Inr G''" "inv_at (map spec (graph_states G)) G'' {}"
    by (rule restore_inv [OF inv restart(2)])
  then show ?case
    using restart(3) by auto
qed

lemma run_state:
  assumes "graph_run G" and "dict_get (g_states G) k = Some s"
  obtains ts where "inv_at ts G {}" and "task_id (spec s) = k" and "dependencies (spec s) = needs ts k"
    and "evidenced s" and "new_TaskState s = Inr s"
  using graph_run_inv [OF assms(1)] assms(2) by (auto simp: inv_at_def shape_def states_ok_def)

section \<open>Properties\<close>

text \<open>
  C12. \<open>_validate_and_index\<close> accepts exactly the graphs it should: at least one task, distinct
  identifiers, every dependency known, and no cycle. Kahn's counting loop decides acyclicity, and
  the index it returns lists for every task the tasks that depend on it.
\<close>
theorem validation_decides_acyclicity:
  "validate_and_index ts = Inr deps \<longleftrightarrow> well_formed ts \<and> deps = index_dependents ts"
  by (rule validate_Inr)

text \<open>
  C13. A task is started, approved, verified or finished only behind its dependencies: in every
  reachable graph, whenever a task is ready, waiting for approval, running, being verified or
  succeeded, every task it depends on has succeeded.
\<close>
theorem executable_after_dependencies:
  assumes "graph_run G" and "dict_get (g_states G) k = Some s"
    and "ts_status s \<in> {READY, WAITING, RUNNING, CHECKING, SUCCEEDED}" and "d \<in> set (dependencies (spec s))"
  shows "\<exists>x. dict_get (g_states G) d = Some x \<and> ts_status x = SUCCEEDED"
proof -
  obtain ts where inv: "inv_at ts G {}" and dep: "dependencies (spec s) = needs ts k"
    by (rule run_state [OF assms(1,2)])
  have "has_status (dict_get (g_states G)) k (set executable)"
    using assms(2,3) by (auto simp: has_status_def executable_set)
  then have "has_status (dict_get (g_states G)) d {SUCCEEDED}"
    using inv assms(4) dep by (auto simp: inv_at_def sound_def)
  then show ?thesis
    by (simp add: has_status_def)
qed


text \<open>
  C15. Success rests on evidence: a succeeded task holds a successful result of its own, produced by
  the agent and in the attempt that the graph has recorded for it, and a verification that passed.
\<close>
theorem success_has_evidence:
  assumes "graph_run G" and "dict_get (g_states G) k = Some s" and "ts_status s = SUCCEEDED"
  shows "\<exists>r v. ts_result s = Some r \<and> tr_task r = k \<and> tr_success r \<and> assigned_agent s = Some (tr_agent r)
    \<and> tr_attempt r = ts_attempt s \<and> ts_verification s = Some v \<and> tv_passed v"
proof -
  obtain ts where "task_id (spec s) = k" "evidenced s"
    by (rule run_state [OF assms(1,2)])
  then show ?thesis
    using assms(3) by (auto simp: evidenced_def)
qed

text \<open>
  Finished is finished: no operation changes a task that has succeeded, failed, been blocked or
  been cancelled, no operation lowers the attempt count of a task or changes its definition, and an
  operation that raises changes nothing.
\<close>
theorem finished_tasks_stay:
  assumes "graph_run G" and "apply_graph op G = (out, G')" and "dict_get (g_states G) k = Some s"
  shows "\<exists>s'. dict_get (g_states G') k = Some s' \<and> spec s' = spec s \<and> ts_attempt s \<le> ts_attempt s'
    \<and> (task_is_terminal (ts_status s) \<or> out \<noteq> Inr () \<longrightarrow> s' = s)"
proof -
  obtain ts where "inv_at ts G {}"
    using graph_run_inv [OF assms(1)] by blast
  then have k: "keeps_graph ts G (out, G')"
    using apply_keeps [of ts G op] assms(2) by simp
  then have "all_moved G G'"
    by (simp add: keeps_graph_def)
  then obtain s' where s': "dict_get (g_states G') k = Some s'" "moved s s'"
    using assms(3) unfolding all_moved_def by blast
  have "out \<noteq> Inr () \<Longrightarrow> G' = G"
    using k by (cases out) (auto simp: keeps_graph_def)
  then show ?thesis
    using s' assms(3) by (auto simp: moved_def)
qed

text \<open>
  C16. Restart round trip: a graph built from the states that a graph reports holds the same state
  for every task, and the restoration never fails.
\<close>
theorem snapshot_restores_graph:
  assumes "graph_run G" and "tn_tasks n = graph_states G"
  shows "\<exists>G'. from_snapshot n = Inr G' \<and> dict_get (g_states G') = dict_get (g_states G) \<and> graph_run G'"
proof -
  obtain ts where "inv_at ts G {}"
    using graph_run_inv [OF assms(1)] by blast
  then obtain G' where "from_snapshot n = Inr G'" "dict_get (g_states G') = dict_get (g_states G)"
    by (rule restore_inv [OF _ assms(2)])
  then show ?thesis
    using restart [OF assms] by blast
qed


section \<open>A concrete graph\<close>

definition demo_task :: "string \<Rightarrow> string list \<Rightarrow> task_spec" where
  "demo_task i ds = \<lparr>task_id = i, task_description = ''do'', capability = ''c'', dependencies = ds,
     task_criteria = [], task_approval = False, priority = 0, task_metadata = [], replay_safe = False\<rparr>"

definition demo_base :: task_graph where
  "demo_base = projr (new_TaskGraph [demo_task ''b'' [''a''], demo_task ''a'' []] None)"

definition demo_task_result :: task_result where
  "demo_task_result = \<lparr>tr_task = ''a'', tr_agent = ''g'', tr_success = True, tr_output = ''x'',
     tr_artifacts = [], tr_error = [], tr_attempt = 1, tr_metadata = []\<rparr>"

definition demo_task_verification :: task_verification where
  "demo_task_verification = \<lparr>tv_passed = True, tv_feedback = [], tv_score = None, tv_evidence = [], tv_failed = []\<rparr>"

definition demo_graph :: "graph_op list \<Rightarrow> task_graph" where
  "demo_graph ops = fold (\<lambda>op G. snd (apply_graph op G)) ops demo_base"

definition demo_first :: "graph_op list" where
  "demo_first = [StartTask ''a'' ''g'', BeginVerification ''a'' (Some demo_task_result),
     RecordVerification ''a'' demo_task_verification, SucceedTask ''a'' demo_task_result]"

definition demo_status :: "graph_op list \<Rightarrow> string \<Rightarrow> task_status option" where
  "demo_status ops k = map_option ts_status (dict_get (g_states (demo_graph ops)) k)"

lemma demo_graph_run: "graph_run (demo_graph ops)"
proof -
  have "new_TaskGraph [demo_task ''b'' [''a''], demo_task ''a'' []] None = Inr demo_base"
    by code_simp
  then have "graph_run demo_base"
    by (rule fresh)
  then have "graph_run (fold (\<lambda>op G. snd (apply_graph op G)) ops demo_base)"
  proof (induction ops arbitrary: rule: rev_induct)
    case (snoc op ops)
    then show ?case
      using operation [of _ op] by (simp add: prod_eq_iff)
  qed simp
  then show ?thesis
    by (simp add: demo_graph_def)
qed

lemma demo_statuses:
  "demo_status demo_first ''a'' = Some SUCCEEDED" "demo_status demo_first ''b'' = Some READY"
  "demo_status [StartTask ''a'' ''g''] ''a'' = Some RUNNING"
  by code_simp+

lemma demo_state: "demo_status ops k = Some st \<Longrightarrow> \<exists>s. dict_get (g_states (demo_graph ops)) k = Some s \<and> ts_status s = st"
  by (auto simp: demo_status_def)

theorem executable_after_dependencies_witness:
  "\<exists>s. dict_get (g_states (demo_graph demo_first)) ''b'' = Some s \<and> dependencies (spec s) = [''a'']
    \<and> (\<exists>x. dict_get (g_states (demo_graph demo_first)) ''a'' = Some x \<and> ts_status x = SUCCEEDED)"
proof -
  obtain s where s: "dict_get (g_states (demo_graph demo_first)) ''b'' = Some s" "ts_status s = READY"
    using demo_state [OF demo_statuses(2)] by blast
  have "map_option (dependencies \<circ> spec) (dict_get (g_states (demo_graph demo_first)) ''b'') = Some [''a'']"
    by code_simp
  then have d: "dependencies (spec s) = [''a'']"
    by (simp add: s)
  then show ?thesis
    using executable_after_dependencies [OF demo_graph_run s(1), of "''a''"] s by simp
qed


theorem success_has_evidence_witness:
  "\<exists>s r. dict_get (g_states (demo_graph demo_first)) ''a'' = Some s \<and> ts_result s = Some r \<and> tr_success r"
  using demo_state [OF demo_statuses(1)] success_has_evidence [OF demo_graph_run] by blast

theorem finished_tasks_stay_witness:
  "\<exists>s. dict_get (g_states (demo_graph demo_first)) ''a'' = Some s
    \<and> dict_get (g_states (snd (apply_graph (FailTask ''a'' ''e'' None None) (demo_graph demo_first)))) ''a'' = Some s"
proof -
  obtain s where s: "dict_get (g_states (demo_graph demo_first)) ''a'' = Some s" "ts_status s = SUCCEEDED"
    using demo_state [OF demo_statuses(1)] by blast
  show ?thesis
    using finished_tasks_stay [OF demo_graph_run prod.collapse [symmetric] s(1)] s
    by (auto simp: task_is_terminal_def simp del: apply_graph.simps)
qed

definition demo_snapshot :: "task_state list \<Rightarrow> team_snapshot" where
  "demo_snapshot ss = \<lparr>tn_request = \<lparr>tq_goal = ''g'', tq_criteria = [], tq_limits = \<lparr>max_tasks = 5,
       max_concurrency = 1, max_task_attempts = 1, tl_max_cycles = 1, max_plan_revisions = 0,
       tl_timeout_seconds = None\<rparr>, tq_metadata = []\<rparr>,
     tn_tasks = ss, tn_run_id = ''r'', tn_status = T_RUNNING, tn_version = 1, tn_stop_reason = None,
     tn_output = [], tn_error = [], tn_cycle = 1, tn_plan_revision = 0, tn_history = [],
     tn_interaction = None, tn_review = None, tn_human = [], tn_refs = [], tn_approved_cycle = None,
     tn_elapsed = 0, tn_started = None, tn_propagation = [],
     tn_created = \<lparr>dt_year = 2024, dt_month = 1, dt_day = 1, dt_hour = 0, dt_minute = 0, dt_second = 0,
       dt_microsecond = 0, dt_offset = Some 0\<rparr>,
     tn_updated = \<lparr>dt_year = 2024, dt_month = 1, dt_day = 1, dt_hour = 0, dt_minute = 0, dt_second = 0,
       dt_microsecond = 0, dt_offset = Some 0\<rparr>\<rparr>"

theorem snapshot_restores_graph_witness:
  "\<exists>G'. from_snapshot (demo_snapshot (graph_states (demo_graph demo_first))) = Inr G' \<and> graph_run G'"
  using snapshot_restores_graph [OF demo_graph_run, of "demo_snapshot (graph_states (demo_graph demo_first))" demo_first]
  by (auto simp: demo_snapshot_def)


end
