(* ===== verification/Registry.thy ===== *)
theory Registry
  imports LoopModels
begin

text \<open>
  The component registries of \<open>matterloop_core/registry/components.py\<close>: the catalog of factories,
  the registry of instances, plugins and their discovery. The locks make each method one step. A
  factory is a call that may raise and change the world \<open>'w\<close>; the entry points that
  \<open>importlib.metadata\<close> finds are a parameter.
\<close>

section \<open>Specifications and plugins\<close>

record ('w, 'c) component_spec =
  cs_name :: string
  cs_factory :: "'w \<Rightarrow> (exn + 'c) \<times> 'w"
  cs_version :: string
  cs_capabilities :: "string set"
  cs_description :: string
  cs_metadata :: "(string \<times> string) list"

definition new_ComponentSpec :: "('w, 'c) component_spec \<Rightarrow> exn + ('w, 'c) component_spec" where
  "new_ComponentSpec s =
     require (strip (cs_name s) \<noteq> []) ''component name must not be empty''
    (require (strip (cs_version s) \<noteq> []) ''component version must not be empty''
    (require (\<not> (\<exists>c \<in> cs_capabilities s. blank c)) ''capabilities must not contain empty values''
    (Inr (s\<lparr>cs_name := strip (cs_name s), cs_version := strip (cs_version s),
            cs_capabilities := strip ` cs_capabilities s\<rparr>))))"

record ('w, 'c) plugin_definition =
  pd_name :: string
  pd_version :: string
  pd_components :: "('w, 'c) component_spec list"

definition new_PluginDefinition :: "('w, 'c) plugin_definition \<Rightarrow> exn + ('w, 'c) plugin_definition" where
  "new_PluginDefinition p =
     require (strip (pd_name p) \<noteq> []) ''plugin name must not be empty''
    (require (strip (pd_version p) \<noteq> []) ''plugin version must not be empty''
    (require (pd_components p \<noteq> []) ''plugin must contain at least one component''
    (require (distinct (map cs_name (pd_components p))) ''plugin contains duplicate component names''
    (Inr (p\<lparr>pd_name := strip (pd_name p), pd_version := strip (pd_version p)\<rparr>)))))"

section \<open>The factory catalog\<close>

type_synonym ('w, 'c) catalog = "(string, ('w, 'c) component_spec) dict"

definition catalog_register ::
  "('w, 'c) component_spec \<Rightarrow> bool \<Rightarrow> ('w, 'c) catalog \<Rightarrow> (exn + unit) \<times> ('w, 'c) catalog" where
  "catalog_register s rep d =
     (if dict_has (cs_name s) d \<and> \<not> rep then (Inl (ComponentAlreadyRegistered (cs_name s)), d)
      else (Inr (), dict_set (cs_name s) s d))"

text \<open>The check and update that both \<open>install\<close> methods make under the lock.\<close>

definition merge_names ::
  "(string, 'v) dict \<Rightarrow> bool \<Rightarrow> (string, 'v) dict \<Rightarrow> (exn + unit) \<times> (string, 'v) dict" where
  "merge_names incoming rep d =
     (case (if rep then None else find (\<lambda>n. dict_has n d) (dict_keys incoming)) of
        Some n \<Rightarrow> (Inl (ComponentAlreadyRegistered n), d)
      | None \<Rightarrow> (Inr (), dict_update d incoming))"

definition catalog_install ::
  "('w, 'c) plugin_definition \<Rightarrow> bool \<Rightarrow> ('w, 'c) catalog \<Rightarrow> (exn + string list) \<times> ('w, 'c) catalog" where
  "catalog_install p rep d =
     (let incoming = dict_update [] (map (\<lambda>s. (cs_name s, s)) (pd_components p)) in
      case merge_names incoming rep d of
        (Inl e, d') \<Rightarrow> (Inl e, d') | (Inr _, d') \<Rightarrow> (Inr (dict_keys incoming), d'))"

definition pop_name :: "string \<Rightarrow> (string, 'v) dict \<Rightarrow> (exn + 'v) \<times> (string, 'v) dict" where
  "pop_name n d = (case dict_get d n of
     None \<Rightarrow> (Inl (ComponentNotFound n), d) | Some v \<Rightarrow> (Inr v, dict_del n d))"

definition get_name :: "string \<Rightarrow> (string, 'v) dict \<Rightarrow> exn + 'v" where
  "get_name n d = (case dict_get d n of None \<Rightarrow> Inl (ComponentNotFound n) | Some v \<Rightarrow> Inr v)"

definition sorted_names :: "(string, 'v) dict \<Rightarrow> string list" where
  "sorted_names d = sort (dict_keys d)"

definition catalog_create :: "string \<Rightarrow> ('w, 'c) catalog \<Rightarrow> 'w \<Rightarrow> (exn + 'c) \<times> 'w" where
  "catalog_create n d w = (case get_name n d of Inl e \<Rightarrow> (Inl e, w) | Inr s \<Rightarrow> cs_factory s w)"

text \<open>
  An entry point loads an object, calls it if it is callable, and yields a plugin definition or
  (\<open>None\<close>) something else.
\<close>

type_synonym ('w, 'c) entry = "string \<times> ('w \<Rightarrow> (exn + ('w, 'c) plugin_definition option) \<times> 'w)"

fun install_entries ::
  "('w, 'c) entry list \<Rightarrow> bool \<Rightarrow> ('w, 'c) catalog \<Rightarrow> 'w \<Rightarrow> (exn + string list) \<times> ('w, 'c) catalog \<times> 'w" where
  "install_entries [] rep d w = (Inr [], d, w)"
| "install_entries ((nm, load) # es) rep d w =
     (case load w of
        (Inl e, w1) \<Rightarrow> (Inl e, d, w1)
      | (Inr None, w1) \<Rightarrow>
          (Inl (InvalidPlugin (''entry point '' @ [CHR 0x27] @ nm @ [CHR 0x27] @ '' must return PluginDefinition'')), d, w1)
      | (Inr (Some p), w1) \<Rightarrow> (case catalog_install p rep d of
            (Inl e, d1) \<Rightarrow> (Inl e, d1, w1)
          | (Inr ns, d1) \<Rightarrow> (case install_entries es rep d1 w1 of
                (Inl e, d2, w2) \<Rightarrow> (Inl e, d2, w2) | (Inr ms, d2, w2) \<Rightarrow> (Inr (ns @ ms), d2, w2))))"

definition catalog_discover ::
  "('w, 'c) entry list option \<Rightarrow> bool \<Rightarrow> ('w, 'c) catalog \<Rightarrow> 'w
   \<Rightarrow> (exn + string list) \<times> ('w, 'c) catalog \<times> 'w" where
  "catalog_discover found rep d w =
     (case found of None \<Rightarrow> (Inr [], d, w) | Some es \<Rightarrow> install_entries es rep d w)"

section \<open>The component registry\<close>

type_synonym 'c registry = "(string, 'c) dict"

definition registry_register :: "string \<Rightarrow> 'c \<Rightarrow> bool \<Rightarrow> 'c registry \<Rightarrow> (exn + unit) \<times> 'c registry" where
  "registry_register n c rep d =
     (if strip n = [] then (Inl (ValueError ''component name must not be empty''), d)
      else if dict_has (strip n) d \<and> \<not> rep then (Inl (ComponentAlreadyRegistered (strip n)), d)
      else (Inr (), dict_set (strip n) c d))"

fun create_all ::
  "string list \<Rightarrow> ('w, 'c) catalog \<Rightarrow> 'c registry \<Rightarrow> 'w \<Rightarrow> (exn + 'c registry) \<times> 'w" where
  "create_all [] cat acc w = (Inr acc, w)"
| "create_all (n # ns) cat acc w = (case catalog_create n cat w of
       (Inl e, w1) \<Rightarrow> (Inl e, w1) | (Inr c, w1) \<Rightarrow> create_all ns cat (dict_set n c acc) w1)"

definition registry_install ::
  "('w, 'c) catalog \<Rightarrow> string list option \<Rightarrow> bool \<Rightarrow> 'c registry \<Rightarrow> 'w
   \<Rightarrow> (exn + string list) \<times> 'c registry \<times> 'w" where
  "registry_install cat names rep d w =
     (let selected = (case names of Some ns \<Rightarrow> ns | None \<Rightarrow> sorted_names cat) in
      case create_all selected cat [] w of
        (Inl e, w1) \<Rightarrow> (Inl e, d, w1)
      | (Inr created, w1) \<Rightarrow> (case merge_names created rep d of
            (Inl e, d1) \<Rightarrow> (Inl e, d1, w1) | (Inr _, d1) \<Rightarrow> (Inr selected, d1, w1)))"

definition registry_discover ::
  "('w, 'c) entry list option \<Rightarrow> bool \<Rightarrow> 'c registry \<Rightarrow> 'w \<Rightarrow> (exn + string list) \<times> 'c registry \<times> 'w" where
  "registry_discover found rep d w =
     (case catalog_discover found rep [] w of
        (Inl e, cat, w1) \<Rightarrow> (Inl e, d, w1)
      | (Inr names, cat, w1) \<Rightarrow> registry_install cat (Some names) rep d w1)"

section \<open>The interface both share\<close>

text \<open>
  What a client of a registry of named things relies on: adding makes the thing available under
  its name and touches no other name, a taken name is refused unless replacement is asked for,
  removing hands the thing out and frees the name.
\<close>

locale named_store =
  fixes inv :: "'s \<Rightarrow> bool"
    and add :: "string \<Rightarrow> 'v \<Rightarrow> bool \<Rightarrow> 's \<Rightarrow> (exn + unit) \<times> 's"
    and get :: "string \<Rightarrow> 's \<Rightarrow> exn + 'v"
    and remove :: "string \<Rightarrow> 's \<Rightarrow> (exn + 'v) \<times> 's"
    and listed :: "'s \<Rightarrow> string list"
    and fits :: "string \<Rightarrow> 'v \<Rightarrow> bool"
  assumes add_inv: "inv s \<Longrightarrow> inv (snd (add n v r s))"
    and remove_inv: "inv s \<Longrightarrow> inv (snd (remove n s))"
    and add_stores: "fits n v \<Longrightarrow> add n v r s = (Inr (), s') \<Longrightarrow> get n s' = Inr v"
    and add_frame: "fits n v \<Longrightarrow> m \<noteq> n \<Longrightarrow> get m (snd (add n v r s)) = get m s"
    and add_refuses: "fits n v \<Longrightarrow> get n s = Inr x \<Longrightarrow> add n v False s = (Inl (ComponentAlreadyRegistered n), s)"
    and remove_gets: "remove n s = (Inr v, s') \<Longrightarrow> get n s = Inr v \<and> get n s' = Inl (ComponentNotFound n)"
    and remove_frame: "m \<noteq> n \<Longrightarrow> get m (snd (remove n s)) = get m s"
    and listed_iff: "inv s \<Longrightarrow> n \<in> set (listed s) \<longleftrightarrow> (\<exists>v. get n s = Inr v)"
    and listed_sorted: "inv s \<Longrightarrow> sorted (listed s) \<and> distinct (listed s)"
begin

lemma listed_after_add:
  assumes "inv s" and "fits n v" and "add n v r s = (Inr (), s')"
  shows "set (listed s') = insert n (set (listed s))"
proof -
  have "inv s'"
    using add_inv [OF assms(1), of n v r] assms(3) by simp
  moreover have "get m s' = get m s" if "m \<noteq> n" for m
    using add_frame [OF assms(2) that, of r s] assms(3) by simp
  moreover have "get n s' = Inr v"
    by (rule add_stores [OF assms(2,3)])
  ultimately show ?thesis
    using listed_iff assms(1) by (auto simp: set_eq_iff) (metis sum.inject(2))+
qed

lemma listed_after_remove:
  assumes "inv s" and "remove n s = (Inr v, s')"
  shows "set (listed s') = set (listed s) - {n}"
proof -
  have "inv s'"
    using remove_inv [OF assms(1), of n] assms(2) by simp
  moreover have "get m s' = get m s" if "m \<noteq> n" for m
    using remove_frame [OF that, of s] assms(2) by simp
  moreover have "get n s' = Inl (ComponentNotFound n)"
    using remove_gets [OF assms(2)] by simp
  ultimately show ?thesis
    using listed_iff assms(1) by (auto simp: set_eq_iff) (metis sum.distinct(1))
qed

end

lemma get_name_set [simp]: "get_name m (dict_set n v d) = (if m = n then Inr v else get_name m d)"
  by (simp add: get_name_def)

lemma sorted_names_set: "n \<in> set (sorted_names d) \<longleftrightarrow> (\<exists>v. get_name n d = Inr v)"
  using dict_has_get [of n d] by (auto simp: sorted_names_def get_name_def dict_has_def split: option.splits)

lemma get_name_has: "dict_has n d \<longleftrightarrow> (\<exists>v. get_name n d = Inr v)"
  by (auto simp: dict_has_get get_name_def split: option.splits)

lemma pop_name_cases:
  assumes "pop_name n d = (out, d')"
  obtains "out = Inl (ComponentNotFound n)" "get_name n d = out" "d' = d"
    | v where "out = Inr v" "get_name n d = out" "d' = dict_del n d"
  using assms by (auto simp: pop_name_def get_name_def split: option.splits)

lemma get_name_del [simp]:
  "get_name m (dict_del n d) = (if m = n then Inl (ComponentNotFound n) else get_name m d)"
  by (simp add: get_name_def)

lemma sorted_names_sorted: "dict_ok d \<Longrightarrow> sorted (sorted_names d) \<and> distinct (sorted_names d)"
  by (simp add: sorted_names_def dict_ok_def)

lemma pop_name_ok: "dict_ok d \<Longrightarrow> dict_ok (snd (pop_name n d))"
  by (simp add: pop_name_def split: option.split)

lemma pop_name_gets:
  "pop_name n d = (Inr v, d') \<Longrightarrow> get_name n d = Inr v \<and> get_name n d' = Inl (ComponentNotFound n)"
  by (erule pop_name_cases) simp_all

lemma pop_name_frame: "m \<noteq> n \<Longrightarrow> get_name m (snd (pop_name n d)) = get_name m d"
  by (simp add: pop_name_def split: option.split)

lemmas named_store_facts = sorted_names_set sorted_names_sorted pop_name_ok pop_name_gets pop_name_frame

interpretation components: named_store dict_ok registry_register get_name pop_name sorted_names
    "\<lambda>n v. strip n = n \<and> n \<noteq> []"
proof (unfold_locales, goal_cases)
  case (1 s n v r) then show ?case by (simp add: registry_register_def)
next
  case (3 n v r s s') then show ?case by (auto simp: registry_register_def split: if_splits)
next
  case (4 n v m r s) then show ?case by (simp add: registry_register_def)
next
  case (5 n v s x) then show ?case by (auto simp: registry_register_def get_name_has)
qed (rule named_store_facts; assumption)+

interpretation factories: named_store dict_ok "\<lambda>n s. catalog_register (s\<lparr>cs_name := n\<rparr>)" get_name pop_name
    sorted_names "\<lambda>n s. cs_name s = n"
proof (unfold_locales, goal_cases)
  case (1 s n v r) then show ?case by (simp add: catalog_register_def)
next
  case (3 n v r s s') then show ?case by (auto simp: catalog_register_def split: if_splits)
next
  case (4 n v m r s) then show ?case by (simp add: catalog_register_def)
next
  case (5 n v s x) then show ?case by (auto simp: catalog_register_def get_name_has)
qed (rule named_store_facts; assumption)+

section \<open>Installing\<close>

lemma create_all_created:
  assumes "create_all ns cat acc w = (Inr created, w')" and "dict_ok acc"
  shows "dict_ok created
    \<and> (\<forall>n. n \<in> set ns \<longrightarrow> (\<exists>c u v. catalog_create n cat u = (Inr c, v) \<and> dict_get created n = Some c))
    \<and> (\<forall>n. n \<notin> set ns \<longrightarrow> dict_get created n = dict_get acc n)"
  using assms
proof (induction ns arbitrary: acc w)
  case (Cons n ns)
  then obtain c w1 where c: "catalog_create n cat w = (Inr c, w1)"
    and rest: "create_all ns cat (dict_set n c acc) w1 = (Inr created, w')"
    by (auto split: prod.splits sum.splits)
  note IH = Cons.IH [OF rest dict_ok_set [OF Cons.prems(2)]]
  show ?case
    using IH c by (cases "n \<in> set ns") auto
qed simp

lemma merge_names_Inl: "merge_names e rep d = (Inl x, d') \<Longrightarrow> d' = d"
  by (simp add: merge_names_def split: if_splits option.splits)

lemma merge_names_Inr:
  assumes "merge_names e rep d = (Inr u, d')" and "dict_ok e"
  shows "get_name n d' = (case dict_get e n of None \<Rightarrow> get_name n d | Some v \<Rightarrow> Inr v)
    \<and> (rep \<or> \<not> (dict_has n e \<and> dict_has n d))"
proof -
  have "d' = dict_update d e" and "rep \<or> find (\<lambda>n. dict_has n d) (dict_keys e) = None"
    using assms(1) by (simp_all add: merge_names_def split: if_splits option.splits)
  then show ?thesis
    using dict_get_update [OF assms(2), of d n]
    by (auto simp: get_name_def find_None_iff dict_has_def split: option.split)
qed

definition installed ::
  "('w, 'c) catalog \<Rightarrow> string list \<Rightarrow> bool \<Rightarrow> 'c registry \<Rightarrow> 'c registry \<Rightarrow> string \<Rightarrow> bool" where
  "installed cat ns rep d d' n \<longleftrightarrow>
     (if n \<in> set ns
      then (rep \<or> \<not> dict_has n d) \<and> (\<exists>c u v. catalog_create n cat u = (Inr c, v) \<and> get_name n d' = Inr c)
      else get_name n d' = get_name n d)"

lemma installedI:
  assumes "create_all ns cat [] w = (Inr created, w1)" and "merge_names created rep d = (Inr u, d')"
  shows "installed cat ns rep d d' n"
proof -
  note created = create_all_created [OF assms(1) dict_ok_Nil]
  show ?thesis
    using created merge_names_Inr [OF assms(2), of n]
    by (auto simp: installed_def dict_has_get split: option.splits) (metis option.inject option.distinct(1))+
qed

text \<open>
  Installing a catalog is all or nothing. Whatever a factory does and wherever it fails, a call
  that raises leaves the registry exactly as it was; a call that returns leaves every selected name
  bound to an instance its own factory returned, every other name untouched, and without
  \<open>replace\<close> has overwritten nothing.
\<close>

theorem registry_install_atomic:
  "case registry_install cat names rep d w of
     (Inl e, d', w') \<Rightarrow> d' = d
   | (Inr ns, d', w') \<Rightarrow> ns = (case names of Some sel \<Rightarrow> sel | None \<Rightarrow> sorted_names cat)
       \<and> (\<forall>n. installed cat ns rep d d' n)"
proof -
  obtain sel where sel: "sel = (case names of Some ns \<Rightarrow> ns | None \<Rightarrow> sorted_names cat)" by simp
  show ?thesis
    by (auto simp: registry_install_def Let_def simp flip: sel intro: installedI
        dest: merge_names_Inl split: prod.split sum.split)
qed

lemma installed_names:
  assumes "\<forall>n. installed cat ns rep d d' n"
  shows "set (sorted_names d') = set (sorted_names d) \<union> set ns
    \<and> (rep \<or> set (sorted_names d) \<inter> set ns = {})"
proof -
  have "n \<in> set (sorted_names d') \<longleftrightarrow> n \<in> set (sorted_names d) \<or> n \<in> set ns"
    and "n \<in> set ns \<Longrightarrow> rep \<or> n \<notin> set (sorted_names d)" for n
    using spec [OF assms, of n]
    by (auto simp: installed_def sorted_names_set get_name_has split: if_splits)
  then show ?thesis by auto
qed

lemma install_cases:
  assumes "registry_install cat names rep d w = (out, d', w')"
  shows "case out of Inl e \<Rightarrow> d' = d | Inr ns \<Rightarrow> \<forall>n. installed cat ns rep d d' n"
  using assms
  by (auto simp: registry_install_def Let_def intro: installedI dest: merge_names_Inl
      split: prod.splits sum.splits)

text \<open>
  Discovery adds the discovered names and nothing else: a call that raises, in an entry point, a
  factory or on a name already taken, leaves the registry as it was although plugins found before
  the error were already in the temporary catalog; a call that returns makes exactly the reported
  names available beside the old ones, none of which it replaced unasked.
\<close>

theorem registry_discover_names:
  "case registry_discover found rep d w of
     (Inl e, d', w') \<Rightarrow> d' = d
   | (Inr ns, d', w') \<Rightarrow> set (sorted_names d') = set (sorted_names d) \<union> set ns
       \<and> (rep \<or> set (sorted_names d) \<inter> set ns = {})"
proof (cases "catalog_discover found rep [] w")
  case (fields out cat w1)
  show ?thesis
  proof (cases out)
    case (Inr names)
    obtain res d' w' where run: "registry_install cat (Some names) rep d w1 = (res, d', w')"
      by (cases "registry_install cat (Some names) rep d w1")
    show ?thesis
      using install_cases [OF run] installed_names [of cat _ rep d d']
      by (cases res) (simp_all add: registry_discover_def fields Inr run)
  qed (simp add: registry_discover_def fields)
qed

text \<open>A registered component is listed under its stripped name.\<close>

lemma register_lists:
  assumes "dict_ok d" and "registry_register n c rep d = (Inr (), d')"
  shows "set (sorted_names d') = insert (strip n) (set (sorted_names d))"
proof (rule components.listed_after_add [OF assms(1)])
  show "strip (strip n) = strip n \<and> strip n \<noteq> []" and "registry_register (strip n) c rep d = (Inr (), d')"
    using assms(2) by (simp_all add: registry_register_def strip_strip split: if_splits)
qed

end
