(* ===== verification/Queueing.thy ===== *)
theory Queueing
  imports LoopModels "HOL-Library.Product_Lexorder"
begin

text \<open>
  The queue of \<open>matterloop_runtime/queueing.py\<close>: commands, leases and run records with their
  validation, the in-memory run repository and the in-memory queue with leases. Every method of
  the two stores runs under a lock, so each is one step on the state. A time is the instant of an
  aware \<open>datetime\<close> in microseconds; a method that reads the clock takes the instants it read, one
  that draws a \<open>uuid4\<close> takes the identifier.
\<close>

section \<open>Times\<close>

datatype moment = Aware int | Naive int

text \<open>The microsecond before the year 10000.\<close>

definition max_instant :: int where
  "max_instant = (3652059 * 86400 + 86400) * 1000000 - 1"

definition overflow :: exn where
  "overflow = Other ''OverflowError'' ''date value out of range''"

text \<open>\<open>timedelta\<close> rounds to the nearest microsecond, ties to even.\<close>

definition round_half_even :: "rat \<Rightarrow> int" where
  "round_half_even x = (let f = \<lfloor>x\<rfloor>; d = x - of_int f in
     if d < 1 / 2 \<or> (d = 1 / 2 \<and> even f) then f else f + 1)"

text \<open>\<open>now + timedelta(seconds=x)\<close> for a \<open>now\<close> after the epoch and a finite \<open>x \<ge> 0\<close>.\<close>

definition add_seconds :: "int \<Rightarrow> rat \<Rightarrow> exn + int" where
  "add_seconds now x = (let t = now + round_half_even (x * 1000000) in
     if t \<le> max_instant then Inr t else Inl overflow)"

definition validate_finite_seconds :: "pyfloat \<Rightarrow> string \<Rightarrow> bool \<Rightarrow> exn + rat" where
  "validate_finite_seconds v name positive = (case v of
       Fin x \<Rightarrow>
         if positive \<and> x \<le> 0 then Inl (ValueError (name @ '' must be greater than 0''))
         else if \<not> positive \<and> x < 0 then Inl (ValueError (name @ '' must not be negative''))
         else Inr x
     | _ \<Rightarrow> Inl (ValueError (name @ '' must be finite'')))"

section \<open>Commands, leases and records\<close>

datatype queue_action = QA_START | QA_RESUME

datatype run_status = RS_QUEUED | RS_RUNNING | RS_PAUSED | RS_BLOCKED
  | RS_COMPLETED | RS_FAILED | RS_CANCELLED | RS_TIMED_OUT

fun run_status_value :: "run_status \<Rightarrow> string" where
  "run_status_value RS_QUEUED = ''queued''"
| "run_status_value RS_RUNNING = ''running''"
| "run_status_value RS_PAUSED = ''paused''"
| "run_status_value RS_BLOCKED = ''blocked''"
| "run_status_value RS_COMPLETED = ''completed''"
| "run_status_value RS_FAILED = ''failed''"
| "run_status_value RS_CANCELLED = ''cancelled''"
| "run_status_value RS_TIMED_OUT = ''timed_out''"

definition run_is_settled :: "run_status \<Rightarrow> bool" where
  "run_is_settled s \<longleftrightarrow> s \<notin> {RS_QUEUED, RS_RUNNING}"

definition run_is_terminal :: "run_status \<Rightarrow> bool" where
  "run_is_terminal s \<longleftrightarrow> s \<in> {RS_COMPLETED, RS_FAILED, RS_CANCELLED, RS_TIMED_OUT}"

record queued_run =
  qr_run_id :: string
  qr_action :: queue_action
  qr_request :: "loop_request option"
  qr_mode :: resume_mode
  qr_enqueued_at :: int

definition new_QueuedRun ::
  "string \<Rightarrow> queue_action \<Rightarrow> loop_request option \<Rightarrow> resume_mode \<Rightarrow> moment \<Rightarrow> exn + queued_run" where
  "new_QueuedRun rid act req mode due =
     require (rid \<noteq> []) ''run_id must not be empty''
    (case due of Naive _ \<Rightarrow> Inl (ValueError ''enqueued_at must include a timezone'') | Aware t \<Rightarrow>
     require (act = QA_START \<longrightarrow> req \<noteq> None) ''START command requires a request''
    (require (act = QA_RESUME \<longrightarrow> req = None) ''RESUME command must not contain a request''
    (Inr \<lparr>qr_run_id = rid, qr_action = act, qr_request = req, qr_mode = mode, qr_enqueued_at = t\<rparr>)))"

record queue_lease =
  ql_id :: string
  ql_job :: queued_run
  ql_worker :: string
  ql_expires_at :: int
  ql_attempt :: int

definition new_QueueLease ::
  "string \<Rightarrow> queued_run \<Rightarrow> string \<Rightarrow> moment \<Rightarrow> int \<Rightarrow> exn + queue_lease" where
  "new_QueueLease lid job worker due attempt =
     require (lid \<noteq> [] \<and> worker \<noteq> []) ''lease_id and worker_id must not be empty''
    (case due of Naive _ \<Rightarrow> Inl (ValueError ''expires_at must include a timezone'') | Aware t \<Rightarrow>
     require (1 \<le> attempt) ''attempt must be at least 1''
    (Inr \<lparr>ql_id = lid, ql_job = job, ql_worker = worker, ql_expires_at = t, ql_attempt = attempt\<rparr>))"

record run_record =
  rr_run_id :: string
  rr_request :: loop_request
  rr_status :: run_status
  rr_version :: int
  rr_result :: "loop_result option"
  rr_error :: string
  rr_created_at :: int
  rr_updated_at :: int

definition new_RunRecord ::
  "string \<Rightarrow> loop_request \<Rightarrow> run_status \<Rightarrow> int \<Rightarrow> loop_result option \<Rightarrow> string \<Rightarrow> moment \<Rightarrow> moment
   \<Rightarrow> exn + run_record" where
  "new_RunRecord rid req st v res err created updated =
     require (rid \<noteq> []) ''run_id must not be empty''
    (require (0 \<le> v) ''version must not be negative''
    (require (case res of None \<Rightarrow> True | Some x \<Rightarrow> lr_run_id x = rid) ''result run_id must match record run_id''
    (case (created, updated) of
       (Aware c, Aware u) \<Rightarrow> Inr \<lparr>rr_run_id = rid, rr_request = req, rr_status = st, rr_version = v,
         rr_result = res, rr_error = err, rr_created_at = c, rr_updated_at = u\<rparr>
     | _ \<Rightarrow> Inl (ValueError ''record timestamps must include a timezone''))))"

section \<open>Errors of the runtime\<close>

datatype run_error =
    DuplicateRun string
  | RunRequestConflict string
  | RunUpdateConflict string nat
  | LeaseLost string
  | RunNotFound string
  | RunNotResumable string
  | RunTimeout string
  | RunFault exn

text \<open>\<open>RunRequestConflictError\<close> is a subclass of \<open>DuplicateRunError\<close>.\<close>

fun is_duplicate :: "run_error \<Rightarrow> bool" where
  "is_duplicate (DuplicateRun _) = True"
| "is_duplicate (RunRequestConflict _) = True"
| "is_duplicate _ = False"

fun run_error_is_exception :: "run_error \<Rightarrow> bool" where
  "run_error_is_exception (RunFault e) = is_exception e"
| "run_error_is_exception _ = True"

text \<open>\<open>f"{type(exc).__name__}: {exc}"\<close>; the attempts of an update conflict are printed in decimal.\<close>

fun decimal :: "nat \<Rightarrow> string" where
  "decimal n = (if n < 10 then [char_of (48 + n)] else decimal (n div 10) @ [char_of (48 + n mod 10)])"

fun run_error_text :: "run_error \<Rightarrow> string" where
  "run_error_text (DuplicateRun r) = ''DuplicateRunError: run already exists: '' @ r"
| "run_error_text (RunRequestConflict r) =
     ''RunRequestConflictError: run id is already bound to another request: '' @ r"
| "run_error_text (RunUpdateConflict r n) =
     ''RunUpdateConflictError: run update conflict after '' @ decimal n @ '' attempts: '' @ r"
| "run_error_text (LeaseLost l) = ''QueueLeaseLostError: queue lease is no longer current: '' @ l"
| "run_error_text (RunNotFound r) = ''RunNotFoundError: run not found: '' @ r"
| "run_error_text (RunNotResumable s) = ''RunNotResumableError: run is not resumable: '' @ s"
| "run_error_text (RunTimeout r) = ''TimeoutError: timed out waiting for run: '' @ r"
| "run_error_text (RunFault e) = exn_text e"

section \<open>The in-memory run repository\<close>

type_synonym repository = "(string, run_record) dict"

definition repo_create :: "run_record \<Rightarrow> repository \<Rightarrow> (run_error + unit) \<times> repository" where
  "repo_create r d =
     (if dict_has (rr_run_id r) d then (Inl (DuplicateRun (rr_run_id r)), d)
      else (Inr (), dict_set (rr_run_id r) r d))"

definition repo_get :: "string \<Rightarrow> repository \<Rightarrow> run_record option" where
  "repo_get rid d = dict_get d rid"

text \<open>A stable sort by creation time, newest first.\<close>

definition repo_list :: "int \<Rightarrow> int \<Rightarrow> repository \<Rightarrow> run_error + run_record list" where
  "repo_list count off d =
     (if count < 1 \<or> off < 0
      then Inl (RunFault (ValueError ''limit must be positive and offset must not be negative''))
      else Inr (take (nat count) (drop (nat off) (sort_key (\<lambda>r. - rr_created_at r) (dict_values d)))))"

definition repo_compare_and_set ::
  "string \<Rightarrow> int \<Rightarrow> run_record \<Rightarrow> repository \<Rightarrow> (run_error + bool) \<times> repository" where
  "repo_compare_and_set rid expected new d =
     (if rr_run_id new \<noteq> rid
      then (Inl (RunFault (ValueError ''replacement run_id must match target run_id'')), d)
      else case dict_get d rid of
        None \<Rightarrow> (Inr False, d)
      | Some cur \<Rightarrow>
          if rr_version cur \<noteq> expected then (Inr False, d)
          else if rr_version new \<noteq> expected + 1
          then (Inl (RunFault (ValueError ''replacement version must increment by one'')), d)
          else (Inr True, dict_set rid new d))"

section \<open>The in-memory queue\<close>

text \<open>
  The pending jobs are a heap ordered by availability and sequence number. The sequence numbers
  are distinct, so the order in which \<open>heappop\<close> hands the jobs out is that of the sorted list;
  the layout of the heap's array is not observable.
\<close>

record pending_job =
  pj_available_at :: int
  pj_sequence :: nat
  pj_job :: queued_run
  pj_attempt :: int

abbreviation pj_key :: "pending_job \<Rightarrow> int \<times> nat" where
  "pj_key p \<equiv> (pj_available_at p, pj_sequence p)"

abbreviation pj_run :: "pending_job \<Rightarrow> string" where
  "pj_run p \<equiv> qr_run_id (pj_job p)"

abbreviation ql_run :: "queue_lease \<Rightarrow> string" where
  "ql_run l \<equiv> qr_run_id (ql_job l)"

record queue =
  pending :: "pending_job list"
  pending_sequence :: nat
  leased :: "(string, queue_lease) dict"
  known_runs :: "string set"
  cancelled_runs :: "string set"

definition new_queue :: queue where
  "new_queue = \<lparr>pending = [], pending_sequence = 0, leased = [], known_runs = {}, cancelled_runs = {}\<rparr>"

definition push_pending :: "queued_run \<Rightarrow> int \<Rightarrow> int \<Rightarrow> queue \<Rightarrow> queue" where
  "push_pending job due attempt q =
     q\<lparr>pending := insort_key pj_key
          \<lparr>pj_available_at = due, pj_sequence = pending_sequence q, pj_job = job, pj_attempt = attempt\<rparr>
          (pending q),
       pending_sequence := pending_sequence q + 1\<rparr>"

definition queue_enqueue :: "queued_run \<Rightarrow> int \<Rightarrow> queue \<Rightarrow> (run_error + unit) \<times> queue" where
  "queue_enqueue job now q =
     (if qr_run_id job \<in> known_runs q then (Inl (DuplicateRun (qr_run_id job)), q)
      else (Inr (), push_pending job now 1 (q\<lparr>known_runs := insert (qr_run_id job) (known_runs q)\<rparr>)))"

text \<open>One turn of the loop of \<open>_reclaim_expired\<close>, and the loop.\<close>

definition reclaim_lease :: "int \<Rightarrow> queue_lease \<Rightarrow> queue \<Rightarrow> queue" where
  "reclaim_lease now l q =
     (let q1 = q\<lparr>leased := dict_del (ql_id l) (leased q)\<rparr> in
      if ql_run l \<in> cancelled_runs q1
      then q1\<lparr>known_runs := known_runs q1 - {ql_run l}, cancelled_runs := cancelled_runs q1 - {ql_run l}\<rparr>
      else push_pending (ql_job l) now (ql_attempt l + 1) q1)"

definition reclaim_expired :: "int \<Rightarrow> queue \<Rightarrow> queue" where
  "reclaim_expired now q =
     fold (reclaim_lease now) (filter (\<lambda>l. ql_expires_at l \<le> now) (dict_values (leased q))) q"

text \<open>
  The loop of \<open>lease\<close> over the heap: jobs of cancelled runs are dropped, a first job of the
  future ends it.
\<close>

fun take_ready :: "int \<Rightarrow> pending_job list \<Rightarrow> queue \<Rightarrow> pending_job option \<times> queue" where
  "take_ready now [] q = (None, q)"
| "take_ready now (p # ps) q =
     (if now < pj_available_at p then (None, q)
      else let q1 = q\<lparr>pending := ps\<rparr> in
        if pj_run p \<in> cancelled_runs q1
        then take_ready now ps (q1\<lparr>known_runs := known_runs q1 - {pj_run p}\<rparr>)
        else (Some p, q1))"

definition queue_lease_job ::
  "string \<Rightarrow> pyfloat option \<Rightarrow> int \<Rightarrow> string \<Rightarrow> queue \<Rightarrow> (run_error + queue_lease option) \<times> queue" where
  "queue_lease_job worker secs now uuid q =
     (if worker = [] then (Inl (RunFault (ValueError ''worker_id must not be empty'')), q)
      else case validate_finite_seconds (case secs of None \<Rightarrow> Fin 30 | Some x \<Rightarrow> x) ''lease_seconds'' True of
        Inl e \<Rightarrow> (Inl (RunFault e), q)
      | Inr x \<Rightarrow> (let q1 = reclaim_expired now q in
          case take_ready now (pending q1) q1 of
            (None, q2) \<Rightarrow> (Inr None, q2)
          | (Some p, q2) \<Rightarrow>
              (case add_seconds now x of
                 Inl e \<Rightarrow> (Inl (RunFault e), q2)
               | Inr expires \<Rightarrow>
                   (case new_QueueLease uuid (pj_job p) worker (Aware expires) (pj_attempt p) of
                      Inl e \<Rightarrow> (Inl (RunFault e), q2)
                    | Inr l \<Rightarrow> (Inr (Some l), q2\<lparr>leased := dict_set (ql_id l) l (leased q2)\<rparr>)))))"

text \<open>\<open>current != lease\<close>: a lease counts as held only when the stored snapshot equals it.\<close>

definition holds_lease :: "queue_lease \<Rightarrow> queue \<Rightarrow> bool" where
  "holds_lease l q \<longleftrightarrow> dict_get (leased q) (ql_id l) = Some l"

definition queue_acknowledge :: "queue_lease \<Rightarrow> int \<Rightarrow> queue \<Rightarrow> queue" where
  "queue_acknowledge l now q =
     (let q1 = reclaim_expired now q in
      if \<not> holds_lease l q1 then q1
      else q1\<lparr>leased := dict_del (ql_id l) (leased q1), known_runs := known_runs q1 - {ql_run l},
              cancelled_runs := cancelled_runs q1 - {ql_run l}\<rparr>)"

definition queue_release :: "queue_lease \<Rightarrow> pyfloat \<Rightarrow> int \<Rightarrow> int \<Rightarrow> queue \<Rightarrow> (run_error + unit) \<times> queue" where
  "queue_release l delay now later q =
     (case validate_finite_seconds delay ''delay_seconds'' False of
        Inl e \<Rightarrow> (Inl (RunFault e), q)
      | Inr x \<Rightarrow> (let q1 = reclaim_expired now q in
          if \<not> holds_lease l q1 then (Inr (), q1)
          else let q2 = q1\<lparr>leased := dict_del (ql_id l) (leased q1)\<rparr> in
            if ql_run l \<in> cancelled_runs q2
            then (Inr (), q2\<lparr>known_runs := known_runs q2 - {ql_run l}\<rparr>)
            else case add_seconds later x of
                Inl e \<Rightarrow> (Inl (RunFault e), q2)
              | Inr due \<Rightarrow> (Inr (), push_pending (ql_job l) due (ql_attempt l + 1) q2)))"

definition queue_renew ::
  "queue_lease \<Rightarrow> pyfloat \<Rightarrow> int \<Rightarrow> queue \<Rightarrow> (run_error + queue_lease) \<times> queue" where
  "queue_renew l secs now q =
     (case validate_finite_seconds secs ''lease_seconds'' True of
        Inl e \<Rightarrow> (Inl (RunFault e), q)
      | Inr x \<Rightarrow> (let q1 = reclaim_expired now q in
          case dict_get (leased q1) (ql_id l) of
            None \<Rightarrow> (Inl (LeaseLost (ql_id l)), q1)
          | Some cur \<Rightarrow>
              if cur \<noteq> l then (Inl (LeaseLost (ql_id l)), q1)
              else case add_seconds now x of
                Inl e \<Rightarrow> (Inl (RunFault e), q1)
              | Inr due \<Rightarrow>
                  (case new_QueueLease (ql_id cur) (ql_job cur) (ql_worker cur) (Aware due) (ql_attempt cur) of
                     Inl e \<Rightarrow> (Inl (RunFault e), q1)
                   | Inr renewed \<Rightarrow>
                       (Inr renewed, q1\<lparr>leased := dict_set (ql_id l) renewed (leased q1)\<rparr>))))"

definition queue_cancel :: "string \<Rightarrow> queue \<Rightarrow> bool \<times> queue" where
  "queue_cancel rid q =
     (if rid \<notin> known_runs q then (False, q)
      else let q1 = q\<lparr>cancelled_runs := insert rid (cancelled_runs q)\<rparr>;
               retained = filter (\<lambda>p. pj_run p \<noteq> rid) (pending q1) in
        if length retained \<noteq> length (pending q1)
        then (True, q1\<lparr>pending := retained, known_runs := known_runs q1 - {rid},
                      cancelled_runs := cancelled_runs q1 - {rid}\<rparr>)
        else (True, q1))"

end
