(* ===== verification/QueueInvariant.thy ===== *)
theory QueueInvariant
  imports Queueing "HOL-Library.Multiset"
begin

text \<open>
  The queue seen per run: a run is absent, waiting or held by one lease. The invariant of the
  queue, and what each primitive change of its fields does to the slot of each run.
\<close>

section \<open>The slot of a run\<close>

datatype slot = Waiting int queued_run int | Held queue_lease

definition waiting_slot :: "pending_job \<Rightarrow> slot" where
  "waiting_slot p = Waiting (pj_available_at p) (pj_job p) (pj_attempt p)"

definition entries :: "queue \<Rightarrow> (string \<times> slot) list" where
  "entries q = map (\<lambda>p. (pj_run p, waiting_slot p)) (pending q)
     @ map (\<lambda>l. (ql_run l, Held l)) (dict_values (leased q))"

definition occupants :: "queue \<Rightarrow> string list" where
  "occupants q = map fst (entries q)"

definition slot_of :: "queue \<Rightarrow> string \<Rightarrow> slot option" where
  "slot_of q = map_of (entries q)"

definition lease_valid :: "queue_lease \<Rightarrow> bool" where
  "lease_valid l \<longleftrightarrow> 1 \<le> ql_attempt l \<and> ql_id l \<noteq> [] \<and> ql_worker l \<noteq> []"

definition queue_ok :: "queue \<Rightarrow> bool" where
  "queue_ok q \<longleftrightarrow> distinct (occupants q) \<and> set (occupants q) \<subseteq> known_runs q
     \<and> sorted (map pj_key (pending q)) \<and> (\<forall>p \<in> set (pending q). 1 \<le> pj_attempt p)
     \<and> dict_ok (leased q) \<and> (\<forall>(k, l) \<in> set (leased q). ql_id l = k \<and> lease_valid l)"

lemma occupants_simp: "occupants q = map pj_run (pending q) @ map ql_run (dict_values (leased q))"
  by (simp add: occupants_def entries_def)

lemma slot_of_eqI: "(\<And>r s. slot_of q r = Some s \<longleftrightarrow> f r = Some s) \<Longrightarrow> slot_of q = f"
  by (intro ext option.expand) (metis not_Some_eq option.collapse)+

lemma slot_of_iff: "queue_ok q \<Longrightarrow> slot_of q r = Some s \<longleftrightarrow> (r, s) \<in> set (entries q)"
  unfolding slot_of_def queue_ok_def occupants_def by (simp add: map_of_eq_Some_iff)

lemma in_entries:
  "(r, Held l) \<in> set (entries q) \<longleftrightarrow> l \<in> set (dict_values (leased q)) \<and> ql_run l = r"
  "(r, Waiting t j a) \<in> set (entries q) \<longleftrightarrow>
     (\<exists>p \<in> set (pending q). pj_run p = r \<and> waiting_slot p = Waiting t j a)"
  by (auto simp: entries_def waiting_slot_def)

lemma slot_of_None: "slot_of q r = None \<longleftrightarrow> r \<notin> set (occupants q)"
  by (simp add: slot_of_def occupants_def map_of_eq_None_iff)

lemma new_queue_ok [simp]: "queue_ok new_queue"
  by (simp add: queue_ok_def new_queue_def occupants_simp dict_ok_def)

lemma slot_of_new [simp]: "slot_of new_queue r = None"
  by (simp add: slot_of_None occupants_simp new_queue_def)

lemma holds_lease_iff: "queue_ok q \<Longrightarrow> holds_lease l q \<longleftrightarrow> l \<in> set (dict_values (leased q))"
proof -
  assume "queue_ok q"
  then have "dict_ok (leased q)" and ids: "\<And>k l. (k, l) \<in> set (leased q) \<Longrightarrow> ql_id l = k"
    by (auto simp: queue_ok_def)
  from this(1) have "holds_lease l q \<longleftrightarrow> (ql_id l, l) \<in> set (leased q)"
    by (simp add: holds_lease_def dict_get_iff)
  also have "\<dots> \<longleftrightarrow> l \<in> set (dict_values (leased q))"
  proof
    assume "l \<in> set (dict_values (leased q))"
    then obtain k where "(k, l) \<in> set (leased q)" by auto
    then show "(ql_id l, l) \<in> set (leased q)" by (simp add: ids)
  qed (auto intro: image_eqI [where x = "(ql_id l, l)"])
  finally show ?thesis .
qed

lemma slot_held: "queue_ok q \<Longrightarrow> slot_of q r = Some (Held l) \<longleftrightarrow> holds_lease l q \<and> ql_run l = r"
  by (simp only: slot_of_iff in_entries holds_lease_iff)

lemma slot_waiting:
  "queue_ok q \<Longrightarrow> slot_of q r = Some (Waiting t j a) \<longleftrightarrow>
     (\<exists>p \<in> set (pending q). pj_run p = r \<and> waiting_slot p = Waiting t j a)"
  by (simp only: slot_of_iff in_entries)

fun slot_ok :: "slot \<Rightarrow> bool" where
  "slot_ok (Waiting t j a) = (1 \<le> a)"
| "slot_ok (Held l) = lease_valid l"

lemma occupied: "queue_ok q \<Longrightarrow> slot_of q r = Some s \<Longrightarrow> r \<in> known_runs q \<and> slot_ok s"
proof -
  assume q: "queue_ok q" and s: "slot_of q r = Some s"
  then have mem: "(r, s) \<in> set (entries q)" by (simp add: slot_of_iff)
  then have "r \<in> set (occupants q)" by (force simp: occupants_def)
  then have "r \<in> known_runs q" using q by (auto simp: queue_ok_def)
  moreover have "slot_ok s"
    using mem q by (cases s) (auto simp: in_entries queue_ok_def waiting_slot_def)
  ultimately show ?thesis ..
qed

section \<open>Primitive changes\<close>

text \<open>The run sets are irrelevant for the slots.\<close>

lemma slot_of_runs [simp]:
  "slot_of (q\<lparr>known_runs := k\<rparr>) = slot_of q" "slot_of (q\<lparr>cancelled_runs := c\<rparr>) = slot_of q"
  by (simp_all add: slot_of_def entries_def)

lemma queue_ok_runs:
  "queue_ok (q\<lparr>cancelled_runs := c\<rparr>) \<longleftrightarrow> queue_ok q"
  "queue_ok q \<Longrightarrow> set (occupants q) \<subseteq> k \<Longrightarrow> queue_ok (q\<lparr>known_runs := k\<rparr>)"
  by (auto simp: queue_ok_def occupants_simp)

lemma queue_ok_forget:
  assumes "queue_ok q" and "slot_of q r = None"
  shows "queue_ok (q\<lparr>known_runs := known_runs q - {r}\<rparr>)"
  by (rule queue_ok_runs(2)) (use assms in \<open>auto simp: slot_of_None queue_ok_def\<close>)

lemma push_pending_ok:
  assumes "queue_ok q" and "slot_of q (qr_run_id job) = None"
    and "qr_run_id job \<in> known_runs q" and "1 \<le> attempt"
  shows "queue_ok (push_pending job due attempt q)"
    and "slot_of (push_pending job due attempt q) = (slot_of q)(qr_run_id job \<mapsto> Waiting due job attempt)"
proof -
  let ?p = "\<lparr>pj_available_at = due, pj_sequence = pending_sequence q, pj_job = job, pj_attempt = attempt\<rparr>"
  let ?q = "push_pending job due attempt q"
  have fields: "pending ?q = insort_key pj_key ?p (pending q)" "leased ?q = leased q"
    "known_runs ?q = known_runs q"
    by (simp_all add: push_pending_def)
  have mset: "mset (occupants ?q) = add_mset (qr_run_id job) (mset (occupants q))"
    by (simp add: occupants_simp fields)
  moreover have "distinct (qr_run_id job # occupants q)"
    using assms(1,2) by (simp add: queue_ok_def slot_of_None)
  ultimately have "distinct (occupants ?q)"
    by (metis mset.simps(2) mset_eq_imp_distinct_iff)
  moreover have "set (occupants ?q) \<subseteq> known_runs ?q"
    using arg_cong [OF mset, of set_mset] assms(1,3) by (simp add: fields queue_ok_def)
  moreover have "sorted (map pj_key (pending ?q))"
    using assms(1) by (simp only: fields sorted_insort_key queue_ok_def)
  ultimately show ok: "queue_ok ?q"
    using assms(1,4) by (auto simp: queue_ok_def fields set_insort_key)
  show "slot_of ?q = (slot_of q)(qr_run_id job \<mapsto> Waiting due job attempt)"
    using assms(2)
    by (intro slot_of_eqI)
      (auto simp: slot_of_iff [OF ok] slot_of_iff [OF assms(1)] slot_of_None entries_def occupants_simp fields
        set_insort_key waiting_slot_def)
qed

lemma dict_values_del:
  "dict_ok d \<Longrightarrow> dict_get d k = Some v \<Longrightarrow> distinct (map f (dict_values d)) \<Longrightarrow>
     map f (dict_values (dict_del k d)) = remove1 (f v) (map f (dict_values d))"
proof (induction d)
  case (Cons e d)
  show ?case
  proof (cases "fst e = k")
    case True
    then have "k \<notin> set (dict_keys d)" using Cons.prems(1) by (auto simp: dict_ok_def)
    then have "dict_del k d = d" by (induction d) auto
    then show ?thesis using True Cons.prems by (cases e) simp
  next
    case False
    then have "(k, v) \<in> set d" using Cons.prems(2) by (cases e) (auto dest: map_of_SomeD)
    then have "f (snd e) \<noteq> f v" using Cons.prems(3) by force
    then show ?thesis using False Cons by (cases e) (simp add: dict_ok_def)
  qed
qed simp

lemma drop_lease_ok:
  assumes "queue_ok q" and "holds_lease l q"
  shows "queue_ok (q\<lparr>leased := dict_del (ql_id l) (leased q)\<rparr>)"
    and "slot_of (q\<lparr>leased := dict_del (ql_id l) (leased q)\<rparr>) = (slot_of q)(ql_run l := None)"
proof -
  let ?q = "q\<lparr>leased := dict_del (ql_id l) (leased q)\<rparr>"
  note q = assms(1) [unfolded queue_ok_def]
  have "map ql_run (dict_values (dict_del (ql_id l) (leased q)))
      = remove1 (ql_run l) (map ql_run (dict_values (leased q)))"
    using q assms(2) by (intro dict_values_del) (simp_all add: holds_lease_def occupants_simp)
  moreover have "ql_run l \<in> set (map ql_run (dict_values (leased q)))"
    using assms holds_lease_iff by auto
  ultimately have occ: "occupants ?q = remove1 (ql_run l) (occupants q)"
    using q by (auto simp: occupants_simp remove1_append)
  have "set (dict_del (ql_id l) (leased q)) \<subseteq> set (leased q)"
    by (auto simp: AList.delete_eq)
  then show ok: "queue_ok ?q"
    using q by (auto simp: queue_ok_def occ dest: notin_set_remove1 [rotated])
  have lost: "slot_of ?q (ql_run l) = None"
    using q by (simp add: slot_of_None occ)
  have kept: "m \<in> set (dict_values (leased ?q)) \<longleftrightarrow> m \<in> set (dict_values (leased q))"
    if "ql_run m \<noteq> ql_run l" for m
  proof -
    have "holds_lease m ?q \<longleftrightarrow> holds_lease m q"
      using that assms(2) by (auto simp: holds_lease_def)
    then show ?thesis by (simp only: holds_lease_iff [OF ok] holds_lease_iff [OF assms(1)])
  qed
  have "slot_of ?q r = slot_of q r" if "r \<noteq> ql_run l" for r
  proof -
    have "(r, s) \<in> set (entries ?q) \<longleftrightarrow> (r, s) \<in> set (entries q)" for s
      using kept that by (cases s) (auto simp: in_entries simp del: set_map)
    then show ?thesis
      by (intro option.expand) (metis slot_of_iff [OF ok] slot_of_iff [OF assms(1)] option.exhaust_sel)+
  qed
  with lost show "slot_of ?q = (slot_of q)(ql_run l := None)"
    by auto
qed

lemma slot_of_fun_eqI:
  assumes "queue_ok q" and "queue_ok q'" and "slot_of q' r = s"
    and "\<And>x t. x \<noteq> r \<Longrightarrow> (x, t) \<in> set (entries q') \<longleftrightarrow> (x, t) \<in> set (entries q)"
  shows "slot_of q' = (slot_of q)(r := s)"
proof
  fix x
  show "slot_of q' x = ((slot_of q)(r := s)) x"
  proof (cases "x = r")
    case False
    then have "slot_of q' x = Some t \<longleftrightarrow> slot_of q x = Some t" for t
      using assms(4) by (simp only: slot_of_iff [OF assms(1)] slot_of_iff [OF assms(2)])
    with False show ?thesis by (metis fun_upd_other not_Some_eq)
  qed (simp add: assms(3))
qed

lemma pop_pending_ok:
  assumes "queue_ok q" and "pending q = p # ps"
  shows "queue_ok (q\<lparr>pending := ps\<rparr>)"
    and "slot_of (q\<lparr>pending := ps\<rparr>) = (slot_of q)(pj_run p := None)"
proof -
  show ok: "queue_ok (q\<lparr>pending := ps\<rparr>)"
    using assms by (auto simp: queue_ok_def occupants_simp)
  show "slot_of (q\<lparr>pending := ps\<rparr>) = (slot_of q)(pj_run p := None)"
  proof (rule slot_of_fun_eqI [OF assms(1) ok])
    show "slot_of (q\<lparr>pending := ps\<rparr>) (pj_run p) = None"
      using assms by (simp add: slot_of_None queue_ok_def occupants_simp)
  qed (use assms(2) in \<open>auto simp: entries_def\<close>)
qed

lemma withdraw_ok:
  assumes "queue_ok q" and "slot_of q r = Some (Waiting t j a)"
  shows "queue_ok (q\<lparr>pending := filter (\<lambda>p. pj_run p \<noteq> r) (pending q)\<rparr>)"
    and "slot_of (q\<lparr>pending := filter (\<lambda>p. pj_run p \<noteq> r) (pending q)\<rparr>) = (slot_of q)(r := None)"
proof -
  let ?q = "q\<lparr>pending := filter (\<lambda>p. pj_run p \<noteq> r) (pending q)\<rparr>"
  obtain p where p: "p \<in> set (pending q)" "pj_run p = r"
    using assms by (auto simp: slot_waiting)
  show ok: "queue_ok ?q"
    using assms(1) by (auto simp: queue_ok_def occupants_simp distinct_map_filter sorted_filter)
  show "slot_of ?q = (slot_of q)(r := None)"
  proof (rule slot_of_fun_eqI [OF assms(1) ok])
    show "slot_of ?q r = None"
      using assms(1) p by (auto simp: slot_of_None queue_ok_def occupants_simp)
  qed (auto simp: entries_def)
qed

lemma dict_set_new: "k \<notin> set (dict_keys d) \<Longrightarrow> dict_set k v d = d @ [(k, v)]"
  by (induction d) auto

lemma hold_lease_ok:
  assumes "queue_ok q" and "slot_of q (ql_run l) = None" and "\<And>m. holds_lease m q \<Longrightarrow> ql_id m \<noteq> ql_id l"
    and "ql_run l \<in> known_runs q" and "lease_valid l"
  shows "queue_ok (q\<lparr>leased := dict_set (ql_id l) l (leased q)\<rparr>)"
    and "slot_of (q\<lparr>leased := dict_set (ql_id l) l (leased q)\<rparr>) = (slot_of q)(ql_run l \<mapsto> Held l)"
proof -
  let ?q = "q\<lparr>leased := dict_set (ql_id l) l (leased q)\<rparr>"
  have "ql_id l \<notin> set (dict_keys (leased q))"
    using assms(1,3) by (force simp: queue_ok_def holds_lease_def dict_get_iff)
  then have leased: "dict_set (ql_id l) l (leased q) = leased q @ [(ql_id l, l)]"
    by (rule dict_set_new)
  show ok: "queue_ok ?q"
    using assms(1,2,4,5) \<open>ql_id l \<notin> _\<close> by (auto simp: queue_ok_def occupants_simp leased slot_of_None dict_ok_def)
  show "slot_of ?q = (slot_of q)(ql_run l \<mapsto> Held l)"
  proof (rule slot_of_fun_eqI [OF assms(1) ok])
    show "slot_of ?q (ql_run l) = Some (Held l)"
      by (simp only: slot_of_iff [OF ok] in_entries) (simp add: leased)
  qed (auto simp: entries_def leased)
qed

section \<open>Reclaiming expired leases\<close>

text \<open>
  What the passing of time does to a run: an expired lease puts the run back with one more
  attempt, or drops it when it was cancelled in the meantime.
\<close>

definition after_expiry :: "(queue_lease \<Rightarrow> bool) \<Rightarrow> int \<Rightarrow> bool \<Rightarrow> slot option \<Rightarrow> slot option" where
  "after_expiry expired now c s = (case s of
       Some (Held l) \<Rightarrow>
         if expired l then if c then None else Some (Waiting now (ql_job l) (ql_attempt l + 1)) else s
     | _ \<Rightarrow> s)"

lemma reclaim_lease_ok:
  assumes "queue_ok q" and "holds_lease l q"
  shows "queue_ok (reclaim_lease now l q)"
    and "slot_of (reclaim_lease now l q) = (slot_of q)
      (ql_run l := if ql_run l \<in> cancelled_runs q then None
                   else Some (Waiting now (ql_job l) (ql_attempt l + 1)))"
    and "cancelled_runs (reclaim_lease now l q) = cancelled_runs q - {ql_run l}"
    and "known_runs (reclaim_lease now l q) =
      (if ql_run l \<in> cancelled_runs q then known_runs q - {ql_run l} else known_runs q)"
proof -
  let ?q = "q\<lparr>leased := dict_del (ql_id l) (leased q)\<rparr>"
  note drop = drop_lease_ok [OF assms]
  have gone: "slot_of ?q (ql_run l) = None"
    by (simp add: drop(2))
  have held: "slot_of q (ql_run l) = Some (Held l)"
    using assms by (simp add: slot_held)
  have known: "ql_run l \<in> known_runs ?q" and "1 \<le> ql_attempt l"
    using occupied [OF assms(1) held] assms by (auto simp: lease_valid_def)
  then have push: "queue_ok (push_pending (ql_job l) now (ql_attempt l + 1) ?q)"
    "slot_of (push_pending (ql_job l) now (ql_attempt l + 1) ?q)
      = (slot_of ?q)(ql_run l \<mapsto> Waiting now (ql_job l) (ql_attempt l + 1))"
    using push_pending_ok [OF drop(1) gone known] by simp_all
  have forget: "queue_ok (?q\<lparr>known_runs := known_runs ?q - {ql_run l}, cancelled_runs := c\<rparr>)" for c
    by (simp only: queue_ok_runs(1) queue_ok_forget [OF drop(1) gone])
  show "queue_ok (reclaim_lease now l q)"
    using push(1) forget by (simp add: reclaim_lease_def Let_def)
  show "slot_of (reclaim_lease now l q) = (slot_of q)
      (ql_run l := if ql_run l \<in> cancelled_runs q then None
                   else Some (Waiting now (ql_job l) (ql_attempt l + 1)))"
    using push(2) drop(2) by (simp add: reclaim_lease_def Let_def)
  have "\<not> ql_run l \<in> cancelled_runs q \<Longrightarrow> cancelled_runs q - {ql_run l} = cancelled_runs q"
    by simp
  then show "cancelled_runs (reclaim_lease now l q) = cancelled_runs q - {ql_run l}"
    and "known_runs (reclaim_lease now l q) =
      (if ql_run l \<in> cancelled_runs q then known_runs q - {ql_run l} else known_runs q)"
    by (simp_all add: reclaim_lease_def push_pending_def Let_def)
qed

lemma holds_lease_run_inj:
  "queue_ok q \<Longrightarrow> holds_lease l q \<Longrightarrow> holds_lease m q \<Longrightarrow> ql_run l = ql_run m \<Longrightarrow> l = m"
  using slot_held [of q "ql_run l"] by (metis option.inject slot.inject(2))

lemma reclaim_list:
  assumes "queue_ok q" and "\<And>l. l \<in> set ls \<Longrightarrow> holds_lease l q" and "distinct ls"
  shows "queue_ok (fold (reclaim_lease now) ls q)"
    and "slot_of (fold (reclaim_lease now) ls q) r
      = after_expiry (\<lambda>l. l \<in> set ls) now (r \<in> cancelled_runs q) (slot_of q r)"
    and "cancelled_runs (fold (reclaim_lease now) ls q) = cancelled_runs q - ql_run ` set ls"
    and "known_runs (fold (reclaim_lease now) ls q) = known_runs q - (ql_run ` set ls \<inter> cancelled_runs q)"
proof -
  have "queue_ok (fold (reclaim_lease now) ls q)
    \<and> slot_of (fold (reclaim_lease now) ls q) r
      = after_expiry (\<lambda>l. l \<in> set ls) now (r \<in> cancelled_runs q) (slot_of q r)
    \<and> cancelled_runs (fold (reclaim_lease now) ls q) = cancelled_runs q - ql_run ` set ls
    \<and> known_runs (fold (reclaim_lease now) ls q) = known_runs q - (ql_run ` set ls \<inter> cancelled_runs q)"
    using assms
  proof (induction ls arbitrary: q)
    case Nil
    then show ?case
      by (auto simp: after_expiry_def split: option.split slot.split)
  next
    case (Cons l ls)
    have l: "holds_lease l q" using Cons.prems(2) by simp
    note one = reclaim_lease_ok [OF Cons.prems(1) l, where now = now]
    have other: "ql_run m \<noteq> ql_run l" if "m \<in> set ls" for m
      using holds_lease_run_inj [OF Cons.prems(1) l, of m] Cons.prems(2,3) that by auto
    have "holds_lease m (reclaim_lease now l q)" if "m \<in> set ls" for m
      using that other [OF that] Cons.prems(2) [of m] slot_held [OF Cons.prems(1), of "ql_run m" m]
        slot_held [OF one(1), of "ql_run m" m] by (simp add: one(2))
    note IH = Cons.IH [OF one(1) this]
    have held: "slot_of q (ql_run l) = Some (Held l)"
      using l Cons.prems(1) by (simp add: slot_held)
    have slot: "after_expiry (\<lambda>m. m \<in> set ls) now (r \<in> cancelled_runs q - {ql_run l})
          (slot_of (reclaim_lease now l q) r)
        = after_expiry (\<lambda>m. m \<in> set (l # ls)) now (r \<in> cancelled_runs q) (slot_of q r)"
    proof (cases "r = ql_run l")
      case True
      then show ?thesis by (simp add: one(2) held after_expiry_def)
    next
      case False
      then have "slot_of q r = Some (Held m) \<Longrightarrow> m \<noteq> l" for m
        using Cons.prems(1) by (auto simp: slot_held)
      with False show ?thesis
        by (simp add: one(2) after_expiry_def split: option.split slot.split)
    qed
    have known: "known_runs (reclaim_lease now l q) - (ql_run ` set ls \<inter> (cancelled_runs q - {ql_run l}))
        = known_runs q - (ql_run ` set (l # ls) \<inter> cancelled_runs q)"
      by (auto simp: one(4))
    show ?case
      using IH Cons.prems(3) slot known
      by (simp only: fold_simps o_apply fold.simps one(3) distinct.simps simp_thms) auto
  qed
  then show "queue_ok (fold (reclaim_lease now) ls q)"
    and "slot_of (fold (reclaim_lease now) ls q) r
      = after_expiry (\<lambda>l. l \<in> set ls) now (r \<in> cancelled_runs q) (slot_of q r)"
    and "cancelled_runs (fold (reclaim_lease now) ls q) = cancelled_runs q - ql_run ` set ls"
    and "known_runs (fold (reclaim_lease now) ls q) = known_runs q - (ql_run ` set ls \<inter> cancelled_runs q)"
    by auto
qed

end
