(* ===== verification/QueueLife.thy ===== *)
theory QueueLife
  imports QueueInvariant
begin

text \<open>
  The life of a run in the queue: the operations as data, the state machine each run goes through
  (absent, waiting, held), and the simulation that every operation of the queue moves every run
  by steps of this machine only.
\<close>

section \<open>Reclaiming, for the whole queue\<close>

abbreviation expires_by :: "int \<Rightarrow> queue_lease \<Rightarrow> bool" where
  "expires_by now l \<equiv> ql_expires_at l \<le> now"

lemma reclaim_expired_facts:
  assumes "queue_ok q"
  shows "queue_ok (reclaim_expired now q)"
    and "slot_of (reclaim_expired now q) r
      = after_expiry (expires_by now) now (r \<in> cancelled_runs q) (slot_of q r)"
    and "r \<in> cancelled_runs (reclaim_expired now q) \<longleftrightarrow>
      r \<in> cancelled_runs q \<and> \<not> (\<exists>l. slot_of q r = Some (Held l) \<and> expires_by now l)"
    and "known_runs (reclaim_expired now q) \<subseteq> known_runs q"
proof -
  let ?ls = "filter (expires_by now) (dict_values (leased q))"
  have ls: "holds_lease l q" if "l \<in> set ?ls" for l
    using that holds_lease_iff [OF assms] by auto
  have "distinct (map ql_run (dict_values (leased q)))"
    using assms by (simp add: queue_ok_def occupants_simp)
  then have "distinct (dict_values (leased q))"
    by (rule distinct_map [THEN iffD1, THEN conjunct1])
  then have "distinct ?ls" by (rule distinct_filter)
  note facts = reclaim_list [OF assms ls this, where now = now]
  have gone: "cancelled_runs (reclaim_expired now q) = cancelled_runs q - ql_run ` set ?ls"
    unfolding reclaim_expired_def by (rule facts(3))
  show "queue_ok (reclaim_expired now q)"
    and "known_runs (reclaim_expired now q) \<subseteq> known_runs q"
    using facts(1,4) by (auto simp: reclaim_expired_def)
  show "r \<in> cancelled_runs (reclaim_expired now q) \<longleftrightarrow>
      r \<in> cancelled_runs q \<and> \<not> (\<exists>l. slot_of q r = Some (Held l) \<and> expires_by now l)"
    by (auto simp: gone slot_held [OF assms] holds_lease_iff [OF assms])
  have "l \<in> set ?ls \<longleftrightarrow> expires_by now l" if "slot_of q r = Some (Held l)" for l
    using that holds_lease_iff [OF assms, of l] by (simp add: slot_held [OF assms])
  moreover have "slot_of (reclaim_expired now q) r
      = after_expiry (\<lambda>l. l \<in> set ?ls) now (r \<in> cancelled_runs q) (slot_of q r)"
    unfolding reclaim_expired_def by (rule facts(2))
  ultimately show "slot_of (reclaim_expired now q) r
      = after_expiry (expires_by now) now (r \<in> cancelled_runs q) (slot_of q r)"
    by (simp add: after_expiry_def del: set_filter split: option.split slot.split)
qed

lemma reclaimed_holds:
  "queue_ok q \<Longrightarrow> holds_lease l (reclaim_expired now q) \<longleftrightarrow> holds_lease l q \<and> now < ql_expires_at l"
proof -
  assume q: "queue_ok q"
  have "slot_of (reclaim_expired now q) (ql_run l) = Some (Held l)
      \<longleftrightarrow> slot_of q (ql_run l) = Some (Held l) \<and> now < ql_expires_at l"
    by (auto simp: reclaim_expired_facts(2) [OF q] after_expiry_def split: option.splits slot.splits if_splits)
  then show ?thesis
    by (simp add: slot_held q reclaim_expired_facts(1))
qed

section \<open>The loop over the ready jobs\<close>

definition taken :: "int \<Rightarrow> queue \<Rightarrow> pending_job option \<Rightarrow> queue \<Rightarrow> bool" where
  "taken now q found q' \<longleftrightarrow>
     queue_ok q' \<and> leased q' = leased q \<and> cancelled_runs q' = cancelled_runs q \<and> known_runs q' \<subseteq> known_runs q
     \<and> (\<forall>r. r \<in> cancelled_runs q \<longrightarrow> slot_of q' r \<in> {None, slot_of q r})
     \<and> (case found of
         None \<Rightarrow> (\<forall>r. r \<notin> cancelled_runs q \<longrightarrow> slot_of q' r = slot_of q r)
           \<and> (\<forall>p \<in> set (pending q). pj_run p \<notin> cancelled_runs q \<longrightarrow> now < pj_available_at p)
       | Some p \<Rightarrow> p \<in> set (pending q) \<and> pj_run p \<notin> cancelled_runs q \<and> pj_available_at p \<le> now
           \<and> (\<forall>r. r \<notin> cancelled_runs q \<longrightarrow> slot_of q' r = ((slot_of q)(pj_run p := None)) r)
           \<and> pj_run p \<in> known_runs q'
           \<and> (\<forall>x \<in> set (pending q). pj_run x \<notin> cancelled_runs q \<longrightarrow> pj_key p \<le> pj_key x))"

lemma take_ready_taken:
  "queue_ok q \<Longrightarrow> pending q = ps \<Longrightarrow> take_ready now ps q = (found, q') \<Longrightarrow> taken now q found q'"
proof (induction now ps q rule: take_ready.induct)
  case (1 now q)
  then show ?case by (auto simp: taken_def)
next
  case (2 now p ps q)
  have first: "\<forall>x \<in> set (pending q). pj_key p \<le> pj_key x"
    using 2(2,3) by (auto simp: queue_ok_def)
  note pop = pop_pending_ok [OF 2(2,3)]
  have slot_p: "slot_of q (pj_run p) = Some (waiting_slot p)"
    using 2(2,3) by (auto simp: slot_of_iff entries_def)
  let ?q1 = "q\<lparr>pending := ps\<rparr>"
  have keys: "now < pj_available_at p \<Longrightarrow> x \<in> set (pending q) \<Longrightarrow> now < pj_available_at x" for x
    using bspec [OF first, of x] by (auto simp: less_eq_prod_def)
  consider (future) "now < pj_available_at p"
    | (cancelled) "\<not> now < pj_available_at p" "pj_run p \<in> cancelled_runs q"
    | (ready) "\<not> now < pj_available_at p" "pj_run p \<notin> cancelled_runs q" by blast
  then show ?case
  proof cases
    case future
    with 2(4) have "found = None" and "q' = q" by simp_all
    then show ?thesis using 2(2) keys future by (simp add: taken_def)
  next
    case ready
    with 2(4) have "found = Some p" and "q' = ?q1" by (simp_all add: Let_def)
    then show ?thesis
      using ready pop first 2(3) occupied [OF 2(2) slot_p] by (auto simp: taken_def)
  next
    case cancelled
    let ?q2 = "?q1\<lparr>known_runs := known_runs ?q1 - {pj_run p}\<rparr>"
    have "slot_of ?q1 (pj_run p) = None" by (simp add: pop(2))
    then have "queue_ok ?q2" by (rule queue_ok_forget [OF pop(1)])
    moreover have "take_ready now ps ?q2 = (found, q')"
      using 2(4) cancelled by (simp add: Let_def)
    ultimately have IH: "taken now ?q2 found q'"
      using cancelled by (intro 2(1)) (simp_all add: Let_def)
    have slot: "slot_of ?q2 = (slot_of q)(pj_run p := None)"
      using pop(2) by simp
    have "(\<forall>x \<in> set (pending q). pj_run x \<notin> cancelled_runs q \<longrightarrow> P x)
        \<longleftrightarrow> (\<forall>x \<in> set ps. pj_run x \<notin> cancelled_runs q \<longrightarrow> P x)" for P
      using cancelled 2(3) by simp
    with IH slot cancelled(2) 2(3) show ?thesis
      by (auto simp: taken_def split: option.splits if_splits)
  qed
qed

section \<open>The operations on the slots\<close>

text \<open>\<open>apart A q q'\<close>: outside \<open>A\<close> and the cancelled runs of \<open>q\<close>, no slot differs.\<close>

definition apart :: "string set \<Rightarrow> queue \<Rightarrow> queue \<Rightarrow> bool" where
  "apart A q q' \<longleftrightarrow> (\<forall>r. r \<notin> A \<longrightarrow> r \<notin> cancelled_runs q \<longrightarrow> slot_of q' r = slot_of q r)"

lemma apart_refl [simp]: "apart A q q"
  by (simp add: apart_def)

lemma enqueue_slots:
  assumes "queue_ok q" and "queue_enqueue job now q = (out, q')"
  shows "queue_ok q' \<and> (case out of
      Inl e \<Rightarrow> q' = q \<and> e = DuplicateRun (qr_run_id job) \<and> qr_run_id job \<in> known_runs q
    | Inr _ \<Rightarrow> qr_run_id job \<notin> known_runs q \<and> slot_of q' = (slot_of q)(qr_run_id job \<mapsto> Waiting now job 1))"
proof (cases "qr_run_id job \<in> known_runs q")
  case False
  let ?q = "q\<lparr>known_runs := insert (qr_run_id job) (known_runs q)\<rparr>"
  have "queue_ok ?q"
    by (rule queue_ok_runs(2) [OF assms(1)]) (use assms(1) in \<open>auto simp: queue_ok_def\<close>)
  moreover have "slot_of ?q (qr_run_id job) = None"
    using False assms(1) by (auto simp: slot_of_None queue_ok_def)
  ultimately show ?thesis
    using push_pending_ok [of ?q job 1 now] assms(2) False by (auto simp: queue_enqueue_def)
qed (use assms in \<open>auto simp: queue_enqueue_def\<close>)

lemma acknowledge_slots:
  assumes "queue_ok q"
  shows "queue_ok (queue_acknowledge l now q)"
    and "slot_of (queue_acknowledge l now q) =
      (if holds_lease l q \<and> now < ql_expires_at l
       then (slot_of (reclaim_expired now q))(ql_run l := None) else slot_of (reclaim_expired now q))"
proof -
  let ?q = "reclaim_expired now q"
  note reclaimed = reclaim_expired_facts(1) [OF assms, of now]
  have held: "holds_lease l ?q \<longleftrightarrow> holds_lease l q \<and> now < ql_expires_at l"
    by (rule reclaimed_holds [OF assms])
  have "queue_ok (queue_acknowledge l now q) \<and> slot_of (queue_acknowledge l now q) =
      (if holds_lease l ?q then (slot_of ?q)(ql_run l := None) else slot_of ?q)"
  proof (cases "holds_lease l ?q")
    case True
    note drop = drop_lease_ok [OF reclaimed True]
    have "slot_of (?q\<lparr>leased := dict_del (ql_id l) (leased ?q)\<rparr>) (ql_run l) = None"
      by (simp add: drop(2))
    note forget = queue_ok_forget [OF drop(1) this]
    show ?thesis
      using True forget drop(2) queue_ok_runs(1) by (simp add: queue_acknowledge_def Let_def)
  qed (simp add: queue_acknowledge_def reclaimed Let_def)
  then show "queue_ok (queue_acknowledge l now q)" and "slot_of (queue_acknowledge l now q) =
      (if holds_lease l q \<and> now < ql_expires_at l
       then (slot_of ?q)(ql_run l := None) else slot_of ?q)"
    by (simp_all add: held)
qed

definition released :: "queue_lease \<Rightarrow> int \<Rightarrow> queue \<Rightarrow> run_error + unit \<Rightarrow> queue \<Rightarrow> bool" where
  "released l now q out q' \<longleftrightarrow>
     (if holds_lease l q \<and> now < ql_expires_at l
       then case out of
           Inl e \<Rightarrow> slot_of q' = (slot_of (reclaim_expired now q))(ql_run l := None) \<and> e = RunFault overflow
         | Inr _ \<Rightarrow> \<exists>t. slot_of q' = (slot_of (reclaim_expired now q))
             (ql_run l := if ql_run l \<in> cancelled_runs q then None
                          else Some (Waiting t (ql_job l) (ql_attempt l + 1)))
       else q' = reclaim_expired now q)"

lemma release_slots:
  assumes "queue_ok q" and "queue_release l delay now later q = (out, q')"
  shows "queue_ok q'"
    and "(\<exists>e. out = Inl e \<and> q' = q) \<or> released l now q out q'"
proof -
  let ?q = "reclaim_expired now q"
  note reclaimed = reclaim_expired_facts(1) [OF assms(1), of now]
  have held: "holds_lease l ?q \<longleftrightarrow> holds_lease l q \<and> now < ql_expires_at l"
    by (rule reclaimed_holds [OF assms(1)])
  have "queue_ok q' \<and> ((\<exists>e. out = Inl e \<and> q' = q) \<or> released l now q out q')"
  proof (cases "validate_finite_seconds delay ''delay_seconds'' False")
    case (Inl e)
    then show ?thesis using assms by (auto simp: queue_release_def)
  next
    case (Inr x)
    show ?thesis
    proof (cases "holds_lease l ?q")
      case False
      then show ?thesis
        using assms(2) Inr reclaimed held by (auto simp: queue_release_def released_def Let_def)
    next
      case True
      let ?d = "?q\<lparr>leased := dict_del (ql_id l) (leased ?q)\<rparr>"
      have both: "holds_lease l q" "now < ql_expires_at l" using True held by simp_all
      then have "slot_of q (ql_run l) = Some (Held l)" by (simp add: slot_held assms(1))
      then have can: "ql_run l \<in> cancelled_runs ?q \<longleftrightarrow> ql_run l \<in> cancelled_runs q"
        using both by (simp add: reclaim_expired_facts(3) [OF assms(1)])
      note drop = drop_lease_ok [OF reclaimed True]
      have gone: "slot_of ?d (ql_run l) = None" by (simp add: drop(2))
      have "slot_of ?q (ql_run l) = Some (Held l)" using True by (simp add: slot_held reclaimed)
      from occupied [OF reclaimed this] have known: "ql_run l \<in> known_runs ?d" and a: "1 \<le> ql_attempt l + 1"
        by (simp_all add: lease_valid_def)
      note push = push_pending_ok [OF drop(1) gone known a] and forget = queue_ok_forget [OF drop(1) gone]
      show ?thesis
      proof (cases "ql_run l \<in> cancelled_runs ?q")
        case True
        then show ?thesis
          using assms(2) Inr \<open>holds_lease l ?q\<close> both can forget drop(2)
          by (auto simp: queue_release_def released_def Let_def)
      next
        case False
        then show ?thesis
          using assms(2) Inr \<open>holds_lease l ?q\<close> both can push drop
          by (auto simp: queue_release_def released_def Let_def add_seconds_def split: if_splits)
      qed
    qed
  qed
  then show "queue_ok q'" and "(\<exists>e. out = Inl e \<and> q' = q) \<or> released l now q out q'"
    by blast+
qed

lemma dict_set_same_key:
  "dict_get d k = Some v \<Longrightarrow> f w = f v \<Longrightarrow> map f (dict_values (dict_set k w d)) = map f (dict_values d)"
  by (induction d) (auto split: if_splits)

lemma replace_lease_ok:
  assumes "queue_ok q" and "holds_lease l q" and "ql_id m = ql_id l" and "ql_job m = ql_job l"
    and "lease_valid m"
  shows "queue_ok (q\<lparr>leased := dict_set (ql_id l) m (leased q)\<rparr>)"
    and "slot_of (q\<lparr>leased := dict_set (ql_id l) m (leased q)\<rparr>) = (slot_of q)(ql_run l \<mapsto> Held m)"
proof -
  let ?q = "q\<lparr>leased := dict_set (ql_id l) m (leased q)\<rparr>"
  have ok: "dict_ok (leased q)" and get: "dict_get (leased q) (ql_id l) = Some l"
    using assms(1,2) by (simp_all add: queue_ok_def holds_lease_def)
  have "map ql_run (dict_values (leased ?q)) = map ql_run (dict_values (leased q))"
    using dict_set_same_key [OF get, of ql_run m] assms(4) by simp
  then have occ: "occupants ?q = occupants q"
    by (simp add: occupants_simp)
  have in_leased: "(k, x) \<in> set (dict_set (ql_id l) m (leased q)) \<longleftrightarrow> (if k = ql_id l then x = m else (k, x) \<in> set (leased q))" for k x
    using ok by (auto simp: dict_get_iff [symmetric])
  show new: "queue_ok ?q"
    using assms occ by (auto simp: queue_ok_def in_leased split: if_splits)
  have held: "slot_of q (ql_run l) = Some (Held l)"
    using assms(1,2) by (simp add: slot_held)
  show "slot_of ?q = (slot_of q)(ql_run l \<mapsto> Held m)"
  proof (rule slot_of_fun_eqI [OF assms(1) new])
    have "holds_lease m ?q" by (simp add: holds_lease_def assms(3))
    then show "slot_of ?q (ql_run l) = Some (Held m)"
      by (simp only: slot_held [OF new] assms(4) simp_thms)
    fix x t
    assume x: "x \<noteq> ql_run l"
    have "y \<in> set (dict_values (leased ?q)) \<longleftrightarrow> y \<in> set (dict_values (leased q))" if "ql_run y = x" for y
      using that x assms(2,3,4)
      by (simp only: holds_lease_iff [OF new, symmetric] holds_lease_iff [OF assms(1), symmetric])
        (auto simp: holds_lease_def)
    then show "(x, t) \<in> set (entries ?q) \<longleftrightarrow> (x, t) \<in> set (entries q)"
      by (cases t) (auto simp: in_entries simp del: set_map)
  qed
qed

definition renewed :: "queue_lease \<Rightarrow> int \<Rightarrow> queue \<Rightarrow> run_error + queue_lease \<Rightarrow> queue \<Rightarrow> bool" where
  "renewed l now q out q' \<longleftrightarrow>
     (if holds_lease l q \<and> now < ql_expires_at l
      then case out of
          Inl e \<Rightarrow> q' = reclaim_expired now q \<and> e = RunFault overflow
        | Inr m \<Rightarrow> ql_job m = ql_job l \<and> ql_attempt m = ql_attempt l \<and> now \<le> ql_expires_at m
            \<and> slot_of q' = (slot_of (reclaim_expired now q))(ql_run l \<mapsto> Held m)
      else q' = reclaim_expired now q \<and> out = Inl (LeaseLost (ql_id l)))"

lemma round_half_even_nonneg: "0 \<le> x \<Longrightarrow> 0 \<le> round_half_even x"
  by (simp add: round_half_even_def Let_def)

lemma validate_positive: "validate_finite_seconds v n True = Inr x \<Longrightarrow> 0 < x"
  by (simp add: validate_finite_seconds_def split: pyfloat.splits if_splits)

lemma renew_slots:
  assumes "queue_ok q" and "queue_renew l secs now q = (out, q')"
  shows "queue_ok q'" and "(\<exists>e. out = Inl e \<and> q' = q) \<or> renewed l now q out q'"
proof -
  let ?q = "reclaim_expired now q"
  note reclaimed = reclaim_expired_facts(1) [OF assms(1), of now]
  have held: "holds_lease l ?q \<longleftrightarrow> holds_lease l q \<and> now < ql_expires_at l"
    by (rule reclaimed_holds [OF assms(1)])
  have "queue_ok q' \<and> ((\<exists>e. out = Inl e \<and> q' = q) \<or> renewed l now q out q')"
  proof (cases "validate_finite_seconds secs ''lease_seconds'' True")
    case (Inl e)
    then show ?thesis using assms by (auto simp: queue_renew_def)
  next
    case (Inr x)
    show ?thesis
    proof (cases "holds_lease l ?q")
      case False
      then show ?thesis
        using assms(2) Inr reclaimed held
        by (auto simp: queue_renew_def renewed_def holds_lease_def Let_def split: option.splits if_splits)
    next
      case True
      have later: "add_seconds now x = Inr t \<Longrightarrow> now \<le> t" for t
        using round_half_even_nonneg [of "x * 1000000"] validate_positive [OF Inr]
        by (auto simp: add_seconds_def Let_def split: if_splits)
      have "slot_of ?q (ql_run l) = Some (Held l)" using True by (simp add: slot_held reclaimed)
      from occupied [OF reclaimed this] have valid: "lease_valid l" by simp
      note put = replace_lease_ok [OF reclaimed True]
      show ?thesis
        using assms(2) Inr True held reclaimed later valid
        by (cases "add_seconds now x")
          (auto simp: queue_renew_def renewed_def holds_lease_def new_QueueLease_def require_def
            lease_valid_def add_seconds_def Let_def put split: if_splits)
    qed
  qed
  then show "queue_ok q'" and "(\<exists>e. out = Inl e \<and> q' = q) \<or> renewed l now q out q'"
    by blast+
qed

lemma filter_shorter: "length (filter P xs) \<noteq> length xs \<longleftrightarrow> (\<exists>x \<in> set xs. \<not> P x)"
  by (metis filter_True length_filter_less less_irrefl)

lemma cancel_slots:
  assumes "queue_ok q" and "queue_cancel r q = (b, q')"
  shows "queue_ok q'" and "b \<longleftrightarrow> r \<in> known_runs q"
    and "slot_of q' = (case slot_of q r of Some (Waiting t j a) \<Rightarrow> (slot_of q)(r := None) | _ \<Rightarrow> slot_of q)"
proof -
  let ?c = "q\<lparr>cancelled_runs := insert r (cancelled_runs q)\<rparr>"
  have ok: "queue_ok ?c" using assms(1) by (simp add: queue_ok_runs)
  have waiting: "(\<exists>p \<in> set (pending q). pj_run p = r) \<longleftrightarrow> (\<exists>t j a. slot_of q r = Some (Waiting t j a))"
    using assms(1) by (auto simp: slot_waiting waiting_slot_def)
  have "queue_ok q' \<and> (b \<longleftrightarrow> r \<in> known_runs q) \<and> slot_of q' =
      (case slot_of q r of Some (Waiting t j a) \<Rightarrow> (slot_of q)(r := None) | _ \<Rightarrow> slot_of q)"
  proof (cases "\<exists>p \<in> set (pending q). pj_run p = r")
    case True
    then obtain t j a where slot: "slot_of q r = Some (Waiting t j a)" using waiting by blast
    note w = withdraw_ok [OF assms(1) slot]
    let ?w = "q\<lparr>pending := filter (\<lambda>p. pj_run p \<noteq> r) (pending q)\<rparr>"
    have "slot_of ?w r = None" by (simp add: w(2))
    note forget = queue_ok_forget [OF w(1) this]
    have "length (filter (\<lambda>p. pj_run p \<noteq> r) (pending q)) \<noteq> length (pending q)"
      using True by (simp only: filter_shorter) blast
    then show ?thesis
      using assms(2) occupied [OF assms(1) slot] forget w(2) slot queue_ok_runs(1)
      by (auto simp: queue_cancel_def Let_def)
  next
    case False
    then have "length (filter (\<lambda>p. pj_run p \<noteq> r) (pending q)) = length (pending q)"
      using filter_shorter [of "\<lambda>p. pj_run p \<noteq> r" "pending q"] by blast
    moreover have "slot_of q r \<noteq> Some (Waiting t j a)" for t j a
      using False waiting by blast
    ultimately show ?thesis
      using assms ok by (auto simp: queue_cancel_def Let_def split: option.split slot.split if_splits)
  qed
  then show "queue_ok q'" and "b \<longleftrightarrow> r \<in> known_runs q"
    and "slot_of q' = (case slot_of q r of Some (Waiting t j a) \<Rightarrow> (slot_of q)(r := None) | _ \<Rightarrow> slot_of q)"
    by blast+
qed

definition granted :: "string \<Rightarrow> int \<Rightarrow> string \<Rightarrow> queue \<Rightarrow> run_error + queue_lease option \<Rightarrow> queue \<Rightarrow> bool" where
  "granted worker now uuid q out q' \<longleftrightarrow>
     (case out of
        Inl e \<Rightarrow> e = RunFault overflow
      | Inr None \<Rightarrow> apart {} q q' \<and> (\<forall>p \<in> set (pending q). pj_run p \<notin> cancelled_runs q \<longrightarrow> now < pj_available_at p)
      | Inr (Some l) \<Rightarrow> ql_worker l = worker \<and> ql_id l = uuid \<and> now \<le> ql_expires_at l
          \<and> apart {ql_run l} q q' \<and> slot_of q' (ql_run l) = Some (Held l)
          \<and> (\<exists>p \<in> set (pending q). pj_job p = ql_job l \<and> pj_attempt p = ql_attempt l
               \<and> pj_available_at p \<le> now \<and> ql_run l \<notin> cancelled_runs q
               \<and> (\<forall>x \<in> set (pending q). pj_run x \<notin> cancelled_runs q \<longrightarrow> pj_key p \<le> pj_key x)))"

lemma lease_slots:
  assumes "queue_ok q" and "uuid \<notin> set (dict_keys (leased q))" and "uuid \<noteq> []"
    and "queue_lease_job worker secs now uuid q = (out, q')"
  shows "queue_ok q'" and "(\<exists>e. out = Inl e \<and> q' = q) \<or> granted worker now uuid (reclaim_expired now q) out q'"
proof -
  let ?q = "reclaim_expired now q"
  note reclaimed = reclaim_expired_facts(1) [OF assms(1), of now]
  have "queue_ok q' \<and> ((\<exists>e. out = Inl e \<and> q' = q) \<or> granted worker now uuid ?q out q')"
  proof (cases "worker = [] \<or> (\<exists>e. validate_finite_seconds (case secs of None \<Rightarrow> Fin 30 | Some x \<Rightarrow> x) ''lease_seconds'' True = Inl e)")
    case True
    then show ?thesis using assms(1,4) by (cases "worker = []") (auto simp: queue_lease_job_def)
  next
    case False
    then obtain x where w: "worker \<noteq> []"
      and x: "validate_finite_seconds (case secs of None \<Rightarrow> Fin 30 | Some x \<Rightarrow> x) ''lease_seconds'' True = Inr x"
      by (metis sum.exhaust_sel)
    obtain found q2 where take: "take_ready now (pending ?q) ?q = (found, q2)" by fastforce
    from take_ready_taken [OF reclaimed refl take] have t: "taken now ?q found q2" .
    show ?thesis
    proof (cases found)
      case None
      then show ?thesis
        using assms(4) w x take t
        by (auto simp: queue_lease_job_def Let_def granted_def taken_def apart_def)
    next
      case (Some p)
      show ?thesis
      proof (cases "add_seconds now x")
        case (Inl e)
        then show ?thesis
          using assms(4) w x take t Some
          by (auto simp: queue_lease_job_def granted_def taken_def add_seconds_def Let_def split: if_splits)
      next
        case (Inr due)
        then have "now \<le> due"
          using round_half_even_nonneg [of "x * 1000000"] validate_positive [OF x]
          by (auto simp: add_seconds_def Let_def split: if_splits)
        let ?l = "\<lparr>ql_id = uuid, ql_job = pj_job p, ql_worker = worker, ql_expires_at = due,
          ql_attempt = pj_attempt p\<rparr>"
        have p: "p \<in> set (pending ?q)" and q2: "queue_ok q2"
          and gone: "slot_of q2 (pj_run p) = None" and known: "pj_run p \<in> known_runs q2"
          using t Some by (auto simp: taken_def)
        have "1 \<le> pj_attempt p" using p reclaimed by (auto simp: queue_ok_def)
        have "ql_id m \<noteq> uuid" if "holds_lease m q2" for m
        proof -
          have "holds_lease m ?q" using that t by (simp add: taken_def holds_lease_def)
          then have "holds_lease m q" by (simp add: reclaimed_holds assms(1))
          then show ?thesis using assms(2) by (force simp: holds_lease_def dest: map_of_SomeD)
        qed
        then have put: "queue_ok (q2\<lparr>leased := dict_set uuid ?l (leased q2)\<rparr>)"
            "slot_of (q2\<lparr>leased := dict_set uuid ?l (leased q2)\<rparr>) = (slot_of q2)(pj_run p \<mapsto> Held ?l)"
          using hold_lease_ok [OF q2, of ?l] gone known w assms(3) \<open>1 \<le> pj_attempt p\<close>
          by (simp_all add: lease_valid_def)
        moreover have "out = Inr (Some ?l)" and "q' = q2\<lparr>leased := dict_set uuid ?l (leased q2)\<rparr>"
          using assms(3,4) w x take Some Inr \<open>1 \<le> pj_attempt p\<close>
          by (simp_all add: queue_lease_job_def Let_def new_QueueLease_def require_def)
        ultimately show ?thesis
          using t Some \<open>now \<le> due\<close> by (auto simp: granted_def taken_def apart_def)
      qed
    qed
  qed
  then show "queue_ok q'" and "(\<exists>e. out = Inl e \<and> q' = q) \<or> granted worker now uuid ?q out q'"
    by blast+
qed

end
