(* ===== verification/QueueProperties.thy ===== *)
theory QueueProperties
  imports QueueLife
begin

text \<open>
  What a client of the in-memory queue may rely on: one holder per run, no run lost, leases in
  order, stale leases without effect. Two theorems at the end show where the code breaks the
  second one.
\<close>

section \<open>Runs of the queue\<close>

datatype queue_op =
    OpEnqueue queued_run int
  | OpLease string "pyfloat option" int string
  | OpAcknowledge queue_lease int
  | OpRelease queue_lease pyfloat int int
  | OpRenew queue_lease pyfloat int
  | OpCancel string

fun error_of :: "run_error + 'a \<Rightarrow> run_error option" where
  "error_of (Inl e) = Some e"
| "error_of (Inr _) = None"

fun apply_queue :: "queue_op \<Rightarrow> queue \<Rightarrow> run_error option \<times> queue" where
  "apply_queue (OpEnqueue job now) q = map_prod error_of id (queue_enqueue job now q)"
| "apply_queue (OpLease w secs now uuid) q = map_prod error_of id (queue_lease_job w secs now uuid q)"
| "apply_queue (OpAcknowledge l now) q = (None, queue_acknowledge l now q)"
| "apply_queue (OpRelease l delay now later) q = map_prod error_of id (queue_release l delay now later q)"
| "apply_queue (OpRenew l secs now) q = map_prod error_of id (queue_renew l secs now q)"
| "apply_queue (OpCancel r) q = (None, snd (queue_cancel r q))"

text \<open>A \<open>uuid4\<close> is no identifier of a lease in the store.\<close>

fun admissible :: "queue_op \<Rightarrow> queue \<Rightarrow> bool" where
  "admissible (OpLease _ _ _ uuid) q = (uuid \<noteq> [] \<and> uuid \<notin> set (dict_keys (leased q)))"
| "admissible _ q = True"

inductive queue_run :: "queue \<Rightarrow> bool" where
  start: "queue_run new_queue"
| step: "queue_run q \<Longrightarrow> admissible op q \<Longrightarrow> queue_run (snd (apply_queue op q))"

lemma apply_queue_ok:
  assumes "queue_ok q" and "admissible op q"
  shows "queue_ok (snd (apply_queue op q))"
proof (cases op)
  case (OpEnqueue job now)
  then show ?thesis
    using enqueue_slots [OF assms(1)] by (cases "queue_enqueue job now q") auto
next
  case (OpLease w secs now uuid)
  then show ?thesis
    using lease_slots(1) [OF assms(1)] assms(2) by (cases "queue_lease_job w secs now uuid q") auto
next
  case (OpAcknowledge l now)
  then show ?thesis by (simp add: acknowledge_slots(1) [OF assms(1)])
next
  case (OpRelease l delay now later)
  then show ?thesis
    using release_slots(1) [OF assms(1)] by (cases "queue_release l delay now later q") auto
next
  case (OpRenew l secs now)
  then show ?thesis
    using renew_slots(1) [OF assms(1)] by (cases "queue_renew l secs now q") auto
next
  case (OpCancel r)
  then show ?thesis
    using cancel_slots(1) [OF assms(1)] by (cases "queue_cancel r q") auto
qed

lemma queue_run_ok: "queue_run q \<Longrightarrow> queue_ok q"
  by (induction rule: queue_run.induct) (simp_all add: apply_queue_ok)

section \<open>No run is lost\<close>

fun job_of :: "slot \<Rightarrow> queued_run" where
  "job_of (Waiting t j a) = j"
| "job_of (Held l) = ql_job l"

fun attempt_of :: "slot \<Rightarrow> int" where
  "attempt_of (Waiting t j a) = a"
| "attempt_of (Held l) = ql_attempt l"

definition survives :: "slot \<Rightarrow> slot option \<Rightarrow> bool" where
  "survives s s' \<longleftrightarrow> (\<exists>x. s' = Some x \<and> job_of x = job_of s \<and> attempt_of s \<le> attempt_of x)"

lemma survives_refl [simp]: "survives s (Some s)"
  by (simp add: survives_def)

lemma survives_reclaim:
  assumes "queue_ok q" and "slot_of q r = Some s" and "r \<notin> cancelled_runs q"
  shows "survives s (slot_of (reclaim_expired now q) r)"
  using assms by (cases s) (auto simp: reclaim_expired_facts(2) after_expiry_def survives_def)

lemma survives_lease:
  assumes q: "queue_ok q" "slot_of q r = Some s" "r \<notin> cancelled_runs q"
    and lease: "queue_lease_job w secs now uuid q = (out, q')" "uuid \<noteq> []" "uuid \<notin> set (dict_keys (leased q))"
  shows "survives s (slot_of q' r) \<or> error_of out = Some (RunFault overflow)"
proof -
  let ?q = "reclaim_expired now q"
  have r: "r \<notin> cancelled_runs ?q" using q by (simp add: reclaim_expired_facts(3))
  have s: "survives s (slot_of ?q r)" by (rule survives_reclaim [OF q])
  consider "q' = q" | "granted w now uuid ?q out q'"
    using lease_slots(2) [OF q(1) lease(3,2,1)] by blast
  then show ?thesis
  proof cases
    case 2
    show ?thesis
    proof (cases out)
      case (Inr got)
      show ?thesis
      proof (cases got)
        case None
        then show ?thesis using 2 Inr r s by (simp add: granted_def apart_def)
      next
        case (Some l)
        show ?thesis
        proof (cases "r = ql_run l")
          case True
          obtain p where p: "p \<in> set (pending ?q)" "pj_job p = ql_job l" "pj_attempt p = ql_attempt l"
            using 2 Inr Some by (auto simp: granted_def)
          then have "slot_of ?q r = Some (Waiting (pj_available_at p) (ql_job l) (ql_attempt l))"
            using True q(1) by (auto simp: slot_waiting reclaim_expired_facts(1) waiting_slot_def intro!: bexI [of _ p])
          then show ?thesis
            using 2 Inr Some s True by (simp add: granted_def survives_def)
        next
          case False
          then show ?thesis using 2 Inr Some r s by (simp add: granted_def apart_def)
        qed
      qed
    qed (use 2 in \<open>simp add: granted_def\<close>)
  qed (use q in simp)
qed

lemma survives_trans: "survives s (Some x) \<Longrightarrow> survives x y \<Longrightarrow> survives s y"
  by (auto simp: survives_def)

lemma survives_held:
  assumes "slot_of q r = Some s" and "queue_ok q" and "holds_lease l q" and "r = ql_run l"
  shows "s = Held l"
  using assms slot_held [of q r l] by simp

lemma survives_release:
  assumes q: "queue_ok q" "slot_of q r = Some s" "r \<notin> cancelled_runs q"
    and rel: "queue_release l delay now later q = (out, q')"
  shows "survives s (slot_of q' r) \<or> error_of out = Some (RunFault overflow)"
proof -
  note s = survives_reclaim [OF q, of now]
  consider "q' = q" | "released l now q out q'"
    using release_slots(2) [OF q(1) rel] by blast
  then show ?thesis
  proof cases
    case 2
    then show ?thesis
      using s q(3) survives_held [OF q(2,1), of l]
      by (cases out) (auto simp: released_def survives_def split: if_splits)
  qed (use q in simp)
qed

lemma survives_renew:
  assumes q: "queue_ok q" "slot_of q r = Some s" "r \<notin> cancelled_runs q"
    and ren: "queue_renew l secs now q = (out, q')"
  shows "survives s (slot_of q' r)"
proof -
  note s = survives_reclaim [OF q, of now]
  consider "q' = q" | "renewed l now q out q'"
    using renew_slots(2) [OF q(1) ren] by blast
  then show ?thesis
  proof cases
    case 2
    then show ?thesis
      using s survives_held [OF q(2,1), of l]
      by (cases out) (auto simp: renewed_def survives_def split: if_splits)
  qed (use q in simp)
qed

text \<open>
  C18. No run is lost. Whatever operation runs next, at whatever time, a run in the queue stays in it
  with the same command and at least as many attempts, unless its current holder acknowledges it
  before its lease expires, or it was or is cancelled, or the operation failed because the time it
  had to compute lies behind the year 9999.
\<close>

theorem no_run_lost:
  assumes "queue_run q" and "admissible op q"
    and "slot_of q r = Some s" and "r \<notin> cancelled_runs q"
    and "apply_queue op q = (err, q')"
  shows "survives s (slot_of q' r) \<or> op = OpCancel r \<or> err = Some (RunFault overflow)
    \<or> (\<exists>l now. op = OpAcknowledge l now \<and> s = Held l \<and> now < ql_expires_at l)"
proof -
  note q = queue_run_ok [OF assms(1)] assms(3,4)
  show ?thesis
  proof (cases op)
    case (OpEnqueue job now)
    then show ?thesis
      using assms(5) enqueue_slots [OF q(1), of job now] occupied [OF q(1,2)] q(2)
      by (cases "queue_enqueue job now q") (auto split: sum.splits)
  next
    case (OpLease w secs now uuid)
    then show ?thesis
      using assms(2,5) survives_lease [OF q, of w secs now uuid]
      by (cases "queue_lease_job w secs now uuid q") auto
  next
    case (OpAcknowledge l now)
    then show ?thesis
      using assms(5) survives_reclaim [OF q, of now] survives_held [OF q(2,1), of l]
      by (auto simp: acknowledge_slots(2) [OF q(1)] split: if_splits)
  next
    case (OpRelease l delay now later)
    then show ?thesis
      using assms(5) survives_release [OF q, of l delay now later]
      by (cases "queue_release l delay now later q") auto
  next
    case (OpRenew l secs now)
    then show ?thesis
      using assms(5) survives_renew [OF q, of l secs now] by (cases "queue_renew l secs now q") auto
  next
    case (OpCancel x)
    then show ?thesis
      using assms(5) cancel_slots(3) [OF q(1), of x] q(2)
      by (cases "queue_cancel x q") (auto split: option.splits slot.splits)
  qed
qed

section \<open>One holder\<close>

text \<open>
  C19. In every reachable state a run is at one place only: no two pending jobs, no two leases and no
  job beside a lease belong to the same run, so a command is never given to two workers at a time;
  and every run in the queue is one \<open>enqueue\<close> would refuse as a duplicate.
\<close>

theorem one_holder:
  assumes "queue_run q"
  shows "distinct (map pj_run (pending q) @ map ql_run (dict_values (leased q)))
    \<and> set (map pj_run (pending q) @ map ql_run (dict_values (leased q))) \<subseteq> known_runs q"
  using queue_run_ok [OF assms] by (simp only: queue_ok_def occupants_simp)

section \<open>Leases\<close>

text \<open>When a run can be leased at \<open>now\<close>, and the attempt this will be.\<close>

definition due_at :: "int \<Rightarrow> slot option \<Rightarrow> (int \<times> queued_run \<times> int) option" where
  "due_at now s = (case s of
       None \<Rightarrow> None
     | Some (Waiting t j a) \<Rightarrow> if t \<le> now then Some (t, j, a) else None
     | Some (Held l) \<Rightarrow> if ql_expires_at l \<le> now then Some (now, ql_job l, ql_attempt l + 1) else None)"

lemma due_after_reclaim:
  assumes "queue_ok q" and "r \<notin> cancelled_runs q"
  shows "due_at now (slot_of q r) = Some (t, j, a) \<longleftrightarrow>
    t \<le> now \<and> (\<exists>p \<in> set (pending (reclaim_expired now q)).
      pj_run p = r \<and> waiting_slot p = Waiting t j a)"
  using slot_waiting [OF reclaim_expired_facts(1) [OF assms(1)], of now r t j a] assms(2)
  by (auto simp: reclaim_expired_facts(2) [OF assms(1)] due_at_def after_expiry_def
      split: option.splits slot.splits if_splits)

text \<open>
  A lease goes to the run that has been due longest. When \<open>lease\<close> returns one, its run was due
  and not cancelled, it carries that run's command, the worker and the number of this attempt, and
  no other uncancelled run was due before it; when it returns \<open>None\<close>, no uncancelled run was due:
  an expired lease of a crashed worker is enough for a command to be handed out again.
\<close>

theorem lease_takes_first_due:
  assumes "queue_run q" and "uuid \<noteq> []" and "uuid \<notin> set (dict_keys (leased q))"
    and "queue_lease_job worker secs now uuid q = (Inr got, q')" and "worker \<noteq> []"
  shows "case got of
      None \<Rightarrow> \<forall>r. r \<notin> cancelled_runs q \<longrightarrow> due_at now (slot_of q r) = None
    | Some l \<Rightarrow> \<exists>t. due_at now (slot_of q (ql_run l)) = Some (t, ql_job l, ql_attempt l)
        \<and> ql_run l \<notin> cancelled_runs q \<and> ql_worker l = worker \<and> now \<le> ql_expires_at l
        \<and> slot_of q' (ql_run l) = Some (Held l)
        \<and> (\<forall>r u j a. r \<notin> cancelled_runs q \<longrightarrow> due_at now (slot_of q r) = Some (u, j, a) \<longrightarrow> t \<le> u)"
proof -
  note q = queue_run_ok [OF assms(1)]
  let ?q = "reclaim_expired now q"
  have g: "granted worker now uuid ?q (Inr got) q'"
    using lease_slots(2) [OF q assms(3,2,4)] by blast
  have due: "due_at now (slot_of q r) = Some (t, j, a) \<longleftrightarrow>
      t \<le> now \<and> (\<exists>p \<in> set (pending ?q). pj_run p = r \<and> waiting_slot p = Waiting t j a)"
    and can: "r \<notin> cancelled_runs ?q" if "r \<notin> cancelled_runs q" for r t j a
    using due_after_reclaim [OF q that] that by (simp_all add: reclaim_expired_facts(3) [OF q])
  show ?thesis
  proof (cases got)
    case None
    have "due_at now (slot_of q r) = None" if r: "r \<notin> cancelled_runs q" for r
    proof (rule ccontr)
      assume "due_at now (slot_of q r) \<noteq> None"
      then obtain t j a where "due_at now (slot_of q r) = Some (t, j, a)" by auto
      then obtain p where "t \<le> now" "p \<in> set (pending ?q)" "pj_run p = r" "pj_available_at p = t"
        using due [OF r] by (auto simp: waiting_slot_def)
      then show False using g None can [OF r] by (auto simp: granted_def)
    qed
    then show ?thesis by (simp add: None)
  next
    case (Some l)
    then obtain p where p: "p \<in> set (pending ?q)" "pj_job p = ql_job l" "pj_attempt p = ql_attempt l"
        "pj_available_at p \<le> now" "ql_run l \<notin> cancelled_runs ?q"
      and least: "\<And>x. x \<in> set (pending ?q) \<Longrightarrow> pj_run x \<notin> cancelled_runs ?q \<Longrightarrow> pj_key p \<le> pj_key x"
      using g by (auto simp: granted_def)
    have "slot_of ?q (ql_run l) = Some (Waiting (pj_available_at p) (ql_job l) (ql_attempt l))"
      using p by (simp add: slot_waiting reclaim_expired_facts(1) [OF q] waiting_slot_def) (auto intro: bexI [of _ p])
    then have run: "ql_run l \<notin> cancelled_runs q"
      using p(5) by (auto simp: reclaim_expired_facts(2,3) [OF q] after_expiry_def)
    have "due_at now (slot_of q (ql_run l)) = Some (pj_available_at p, ql_job l, ql_attempt l)"
      unfolding due [OF run] using p by (intro conjI bexI [of _ p]) (simp_all add: waiting_slot_def)
    moreover have "pj_available_at p \<le> u"
      if "r \<notin> cancelled_runs q" "due_at now (slot_of q r) = Some (u, j, a)" for r u j a
      using that(2) least can [OF that(1)] unfolding due [OF that(1)]
      by (fastforce simp: waiting_slot_def less_eq_prod_def)
    ultimately show ?thesis
      using Some g run by (auto simp: granted_def)
  qed
qed

text \<open>
  C20. A lease that is lost has no effect. Once a lease expired, was renewed into another snapshot,
  acknowledged or released, \<open>acknowledge\<close> and \<open>release\<close> with it do nothing but reclaim expired
  leases and \<open>renew\<close> raises \<open>QueueLeaseLostError\<close>: a worker that comes back late cannot remove, requeue
  or keep the command that another worker holds by now.
\<close>

theorem stale_lease_powerless:
  assumes "queue_run q" and "\<not> (holds_lease l q \<and> now < ql_expires_at l)"
    and "0 \<le> delay" and "0 < secs"
  shows "queue_acknowledge l now q = reclaim_expired now q
    \<and> queue_release l (Fin delay) now later q = (Inr (), reclaim_expired now q)
    \<and> queue_renew l (Fin secs) now q = (Inl (LeaseLost (ql_id l)), reclaim_expired now q)"
proof -
  have "\<not> holds_lease l (reclaim_expired now q)"
    using assms(2) reclaimed_holds [OF queue_run_ok [OF assms(1)]] by blast
  then show ?thesis
    using assms(3,4)
    by (auto simp: queue_acknowledge_def queue_release_def queue_renew_def validate_finite_seconds_def
        holds_lease_def Let_def split: option.split)
qed

section \<open>Examples\<close>

fun run_queue :: "queue_op list \<Rightarrow> queue \<Rightarrow> queue" where
  "run_queue [] q = q"
| "run_queue (op # ops) q = run_queue ops (snd (apply_queue op q))"

fun all_admissible :: "queue_op list \<Rightarrow> queue \<Rightarrow> bool" where
  "all_admissible [] q = True"
| "all_admissible (op # ops) q = (admissible op q \<and> all_admissible ops (snd (apply_queue op q)))"

lemma queue_run_list: "queue_run q \<Longrightarrow> all_admissible ops q \<Longrightarrow> queue_run (run_queue ops q)"
  by (induction ops arbitrary: q) (auto intro: queue_run.step)

definition demo_job :: queued_run where
  "demo_job = \<lparr>qr_run_id = ''r'', qr_action = QA_RESUME, qr_request = None, qr_mode = CONTINUE, qr_enqueued_at = 0\<rparr>"

text \<open>One command, leased by the first worker for thirty seconds.\<close>

definition demo_lease :: queue_lease where
  "demo_lease = \<lparr>ql_id = ''l1'', ql_job = demo_job, ql_worker = ''w1'', ql_expires_at = 30000000, ql_attempt = 1\<rparr>"

definition demo_ops :: "queue_op list" where
  "demo_ops = [OpEnqueue demo_job 0, OpLease ''w1'' None 0 ''l1'']"

definition demo_queue :: queue where
  "demo_queue = run_queue demo_ops new_queue"

lemma demo_queue_run: "queue_run demo_queue"
  unfolding demo_queue_def by (rule queue_run_list [OF queue_run.start]) code_simp

lemma demo_queue_slots:
  "slot_of demo_queue ''r'' = Some (Held demo_lease)" "cancelled_runs demo_queue = {}"
  "dict_keys (leased demo_queue) = [''l1'']"
  by code_simp+

theorem no_run_lost_witness:
  "survives (Held demo_lease) (slot_of (snd (apply_queue (OpLease ''w2'' None 30000000 ''l2'') demo_queue)) ''r'')"
proof -
  let ?op = "OpLease ''w2'' None 30000000 ''l2''"
  have "fst (apply_queue ?op demo_queue) = None" by code_simp
  then show ?thesis
    using no_run_lost [OF demo_queue_run, of ?op "''r''" "Held demo_lease"] demo_queue_slots
    by (cases "apply_queue ?op demo_queue") (simp del: apply_queue.simps)
qed

theorem one_holder_witness: "distinct (map pj_run (pending demo_queue) @ map ql_run (dict_values (leased demo_queue)))"
  using one_holder [OF demo_queue_run] by blast

theorem lease_takes_first_due_witness:
  "\<exists>l q' t. queue_lease_job ''w2'' None 30000000 ''l2'' demo_queue = (Inr (Some l), q') \<and> ql_attempt l = 2
     \<and> due_at 30000000 (slot_of demo_queue (ql_run l)) = Some (t, ql_job l, ql_attempt l)"
proof -
  let ?l = "\<lparr>ql_id = ''l2'', ql_job = demo_job, ql_worker = ''w2'', ql_expires_at = 60000000, ql_attempt = 2\<rparr>"
  have "fst (queue_lease_job ''w2'' None 30000000 ''l2'' demo_queue) = Inr (Some ?l)" by code_simp
  then obtain q' where run: "queue_lease_job ''w2'' None 30000000 ''l2'' demo_queue = (Inr (Some ?l), q')"
    by (cases "queue_lease_job ''w2'' None 30000000 ''l2'' demo_queue") auto
  then show ?thesis
    using lease_takes_first_due [OF demo_queue_run _ _ run] demo_queue_slots(3) by auto
qed

theorem stale_lease_powerless_witness:
  "fst (queue_renew demo_lease (Fin 10) 30000000 demo_queue) = Inl (LeaseLost ''l1'')"
  using stale_lease_powerless [OF demo_queue_run, of demo_lease 30000000 0 10 30000000]
  by (simp add: demo_lease_def)

section \<open>Where runs do get lost\<close>

text \<open>
  \<open>release\<close> of a cancelled run forgets the run but not its cancellation mark, unlike the reclaiming of
  an expired lease: the same run, enqueued again, is accepted and then dropped by the next \<open>lease\<close>.
\<close>

theorem cancelled_release_drops_next:
  "let q = run_queue [OpCancel ''r'', OpRelease demo_lease (Fin 0) 1 1] demo_queue;
       q' = run_queue [OpEnqueue demo_job 2] q
   in fst (apply_queue (OpEnqueue demo_job 2) q) = None
      \<and> fst (queue_lease_job ''w2'' None 3 ''l2'' q') = Inr None
      \<and> slot_of (snd (queue_lease_job ''w2'' None 3 ''l2'' q')) ''r'' = None"
  by code_simp

text \<open>
  \<open>lease\<close> removes the job from the heap before it computes the expiry: a finite number of seconds
  that overflows \<open>datetime\<close> passes the validation, raises, and the job is gone while its run is still
  known, so that it can not even be enqueued again.
\<close>

theorem overflowing_lease_loses_run:
  "let q = run_queue [OpEnqueue demo_job 0] new_queue;
       (err, q') = apply_queue (OpLease ''w'' (Some (Fin 1000000000000)) 0 ''l1'') q
   in err = Some (RunFault overflow) \<and> slot_of q' ''r'' = None
      \<and> fst (apply_queue (OpEnqueue demo_job 1) q') = Some (DuplicateRun ''r'')"
  by code_simp

end
