(* ===== verification/QueueRuntime.thy ===== *)
theory QueueRuntime
  imports Queueing
begin

text \<open>
  The queue facade \<open>QueueRuntime\<close> of \<open>matterloop_runtime/queueing.py\<close>, a client of the producer and
  repository protocols. Between any two of its calls other clients may run, so every call takes
  the world and returns the one it left; the locale \<open>run_store\<close> states what the repository
  promises in such a world, and the facade's guarantees are proved from it.
\<close>

section \<open>The facade\<close>

text \<open>The collaborators: \<open>'w\<close> is everything outside, other clients included.\<close>

record 'w services =
  s_create :: "run_record \<Rightarrow> ('w, run_error, unit) prog"
  s_get :: "string \<Rightarrow> ('w, run_error, run_record option) prog"
  s_list :: "int \<Rightarrow> int \<Rightarrow> ('w, run_error, run_record list) prog"
  s_cas :: "string \<Rightarrow> int \<Rightarrow> run_record \<Rightarrow> ('w, run_error, bool) prog"
  s_enqueue :: "queued_run \<Rightarrow> ('w, run_error, unit) prog"
  s_cancel :: "string \<Rightarrow> ('w, run_error, bool) prog"
  s_sleep :: "rat \<Rightarrow> ('w, run_error, unit) prog"
  s_now :: "('w, run_error, int) prog"
  s_time :: "('w, run_error, rat) prog"
  s_uuid :: "('w, run_error, string) prog"

definition faulty :: "exn + 'a \<Rightarrow> ('w, run_error, 'a) prog" where
  "faulty r = liftE (map_sum RunFault id r)"

text \<open>\<open>_update\<close>: read, check, replace, compare and set; sixteen attempts.\<close>

definition replaced :: "run_record \<Rightarrow> run_status \<Rightarrow> loop_result option \<Rightarrow> string \<Rightarrow> int \<Rightarrow> exn + run_record" where
  "replaced c st res err now =
     new_RunRecord (rr_run_id c) (rr_request c) st (rr_version c + 1) res err
       (Aware (rr_created_at c)) (Aware now)"

fun update_attempts ::
  "'w services \<Rightarrow> nat \<Rightarrow> string \<Rightarrow> run_status \<Rightarrow> loop_result option \<Rightarrow> string \<Rightarrow> run_status set option
   \<Rightarrow> ('w, run_error, bool) prog" where
  "update_attempts S 0 rid st res err expected = raiseE (RunUpdateConflict rid 16)"
| "update_attempts S (Suc n) rid st res err expected =
     bindE (s_get S rid) (\<lambda>found. case found of
       None \<Rightarrow> raiseE (RunNotFound rid)
     | Some c \<Rightarrow>
         if run_is_terminal (rr_status c) then returnE False
         else if (case expected of None \<Rightarrow> False | Some ss \<Rightarrow> rr_status c \<notin> ss) then returnE False
         else bindE (s_now S) (\<lambda>now. bindE (faulty (replaced c st res err now)) (\<lambda>new.
           bindE (s_cas S rid (rr_version c) new) (\<lambda>won.
             if won then returnE True
             else thenE (s_sleep S 0) (update_attempts S n rid st res err expected)))))"

definition update_run ::
  "'w services \<Rightarrow> string \<Rightarrow> run_status \<Rightarrow> loop_result option \<Rightarrow> string \<Rightarrow> run_status set option
   \<Rightarrow> ('w, run_error, bool) prog" where
  "update_run S = update_attempts S 16"

definition runtime_submit :: "'w services \<Rightarrow> loop_request \<Rightarrow> string option \<Rightarrow> ('w, run_error, string) prog" where
  "runtime_submit S req rid =
     bindE (case rid of Some (c # cs) \<Rightarrow> returnE (c # cs) | _ \<Rightarrow> s_uuid S) (\<lambda>actual.
     bindE (s_now S) (\<lambda>created. bindE (s_now S) (\<lambda>updated.
     bindE (faulty (new_RunRecord actual req RS_QUEUED 0 None [] (Aware created) (Aware updated))) (\<lambda>new.
     bindE (tryE (thenE (s_create S new) (returnE True))
       (\<lambda>e. if is_duplicate e
         then bindE (s_get S actual) (\<lambda>existing. case existing of
             Some x \<Rightarrow> if rr_request x = req then returnE False else raiseE (RunRequestConflict actual)
           | None \<Rightarrow> raiseE (RunRequestConflict actual))
         else raiseE e)) (\<lambda>fresh.
     if \<not> fresh then returnE actual
     else thenE
       (tryE
         (bindE (s_now S) (\<lambda>t. bindE (faulty (new_QueuedRun actual QA_START (Some req) CONTINUE (Aware t)))
           (s_enqueue S)))
         (\<lambda>e. if run_error_is_exception e
           then thenE (update_run S actual RS_FAILED None (run_error_text e) (Some {RS_QUEUED})) (raiseE e)
           else raiseE e))
       (returnE actual))))))"

definition runtime_result :: "'w services \<Rightarrow> string \<Rightarrow> ('w, run_error, loop_result option) prog" where
  "runtime_result S rid = bindE (s_get S rid) (\<lambda>r. returnE (case r of None \<Rightarrow> None | Some x \<Rightarrow> rr_result x))"

definition runtime_cancel :: "'w services \<Rightarrow> string \<Rightarrow> ('w, run_error, bool) prog" where
  "runtime_cancel S rid =
     bindE (s_get S rid) (\<lambda>found. case found of
       None \<Rightarrow> returnE False
     | Some c \<Rightarrow>
         if run_is_terminal (rr_status c) then returnE False
         else bindE (if rr_status c \<in> {RS_PAUSED, RS_BLOCKED} then returnE True else s_cancel S rid) (\<lambda>accepted.
           if accepted
           then update_run S rid RS_CANCELLED None []
                  (Some {RS_QUEUED, RS_RUNNING, RS_PAUSED, RS_BLOCKED})
           else returnE False))"

definition runtime_resume :: "'w services \<Rightarrow> string \<Rightarrow> resume_mode \<Rightarrow> ('w, run_error, bool) prog" where
  "runtime_resume S rid mode =
     bindE (s_get S rid) (\<lambda>found. case found of
       None \<Rightarrow> raiseE (RunNotFound rid)
     | Some c \<Rightarrow>
         if rr_status c \<notin> {RS_PAUSED, RS_BLOCKED}
         then raiseE (RunNotResumable (run_status_value (rr_status c)))
         else bindE (update_run S rid RS_QUEUED None [] (Some {RS_PAUSED, RS_BLOCKED})) (\<lambda>updated.
           if \<not> updated then returnE False
           else thenE
             (tryE
               (bindE (s_now S) (\<lambda>t. bindE (faulty (new_QueuedRun rid QA_RESUME None mode (Aware t)))
                 (s_enqueue S)))
               (\<lambda>e. if run_error_is_exception e
                 then thenE (update_run S rid (rr_status c) (rr_result c) (rr_error c) (Some {RS_QUEUED}))
                        (raiseE e)
                 else raiseE e))
             (returnE True)))"

text \<open>
  The polling loop of \<open>wait\<close> may run forever: \<open>None\<close> stands for a wait that never returns.
\<close>

partial_function (option) wait_settled ::
  "'w services \<Rightarrow> string \<Rightarrow> rat option \<Rightarrow> rat \<Rightarrow> 'w \<Rightarrow> ((run_error + run_record) \<times> 'w) option" where
  "wait_settled S rid deadline poll w =
     (case s_get S rid w of
        (Inl e, w1) \<Rightarrow> Some (Inl e, w1)
      | (Inr None, w1) \<Rightarrow> Some (Inl (RunNotFound rid), w1)
      | (Inr (Some c), w1) \<Rightarrow>
          if run_is_settled (rr_status c) then Some (Inr c, w1)
          else (case (case deadline of
                        None \<Rightarrow> (Inr False, w1)
                      | Some d \<Rightarrow> map_prod (map_sum id (\<lambda>t. d \<le> t)) id (s_time S w1)) of
                (Inl e, w2) \<Rightarrow> Some (Inl e, w2)
              | (Inr late, w2) \<Rightarrow>
                  if late then Some (Inl (RunTimeout rid), w2)
                  else (case s_sleep S poll w2 of
                        (Inl e, w3) \<Rightarrow> Some (Inl e, w3)
                      | (Inr _, w3) \<Rightarrow> wait_settled S rid deadline poll w3)))"

definition runtime_wait ::
  "'w services \<Rightarrow> string \<Rightarrow> pyfloat option \<Rightarrow> pyfloat \<Rightarrow> 'w \<Rightarrow> ((run_error + run_record) \<times> 'w) option" where
  "runtime_wait S rid timeout poll w =
     (case validate_finite_seconds poll ''poll_interval_seconds'' True of
        Inl e \<Rightarrow> Some (Inl (RunFault e), w)
      | Inr p \<Rightarrow> (case timeout of
          None \<Rightarrow> wait_settled S rid None p w
        | Some t \<Rightarrow> (case validate_finite_seconds t ''timeout_seconds'' False of
            Inl e \<Rightarrow> Some (Inl (RunFault e), w)
          | Inr d \<Rightarrow> (case s_time S w of
              (Inl e, w1) \<Rightarrow> Some (Inl e, w1)
            | (Inr now, w1) \<Rightarrow> wait_settled S rid (Some (now + d)) p w1))))"

end
