(* ===== verification/QueueRuntimeProperties.thy ===== *)
theory QueueRuntimeProperties
  imports QueueRuntime LoopExamples
begin

text \<open>
  What the facade guarantees while other clients work on the same repository: the locale
  \<open>run_store\<close> states the laws of a repository whose calls are atomic and may be preceded by steps of
  others, the facade's operations are proved to be such steps themselves, and the in-memory
  repository with any schedule of rivals is an instance.
\<close>

section \<open>How records may change\<close>

text \<open>
  A record moves forward: its request stays, its version never falls, the same version means the
  same record, and a terminal record stays as it is.
\<close>

definition forward :: "run_record \<Rightarrow> run_record \<Rightarrow> bool" where
  "forward c d \<longleftrightarrow> rr_request d = rr_request c \<and> rr_version c \<le> rr_version d
     \<and> (rr_version d = rr_version c \<longrightarrow> d = c) \<and> (run_is_terminal (rr_status c) \<longrightarrow> d = c)"

definition evolves :: "(string \<Rightarrow> run_record option) \<Rightarrow> (string \<Rightarrow> run_record option) \<Rightarrow> bool" where
  "evolves m m' \<longleftrightarrow> (\<forall>r c. m r = Some c \<longrightarrow> (\<exists>d. m' r = Some d \<and> forward c d))"

lemma forward_refl [simp]: "forward c c"
  by (simp add: forward_def)

lemma forward_trans: "forward a b \<Longrightarrow> forward b c \<Longrightarrow> forward a c"
  unfolding forward_def by (metis order.antisym order.trans)

lemma evolves_refl [simp]: "evolves m m"
  by (auto simp: evolves_def)

lemma evolves_trans: "evolves a b \<Longrightarrow> evolves b c \<Longrightarrow> evolves a c"
  unfolding evolves_def by (metis forward_trans)

lemma evolvesD: "evolves m m' \<Longrightarrow> m r = Some c \<Longrightarrow> \<exists>d. m' r = Some d \<and> forward c d"
  by (simp add: evolves_def)

lemma evolves_new: "m r = None \<Longrightarrow> evolves m (m(r \<mapsto> x))"
  by (auto simp: evolves_def)

lemma evolves_next:
  "m r = Some c \<Longrightarrow> \<not> run_is_terminal (rr_status c) \<Longrightarrow> rr_request x = rr_request c
   \<Longrightarrow> rr_version x = rr_version c + 1 \<Longrightarrow> evolves m (m(r \<mapsto> x))"
  by (auto simp: evolves_def forward_def)

lemma replaced_Inr:
  "replaced c st res err now = Inr x \<Longrightarrow> rr_request x = rr_request c \<and> rr_version x = rr_version c + 1
     \<and> rr_run_id x = rr_run_id c \<and> rr_status x = st \<and> rr_result x = res \<and> rr_error x = err"
  by (auto simp: replaced_def new_RunRecord_def)

section \<open>The repository as others see it\<close>

locale run_store =
  fixes S :: "'w services" and view :: "'w \<Rightarrow> string \<Rightarrow> run_record option"
  assumes get_law: "s_get S r w = (out, w') \<Longrightarrow>
      evolves (view w) (view w') \<and> (case out of Inl e \<Rightarrow> True | Inr x \<Rightarrow> x = view w' r)"
    and create_law: "s_create S new w = (made, w') \<Longrightarrow>
      \<exists>m. evolves (view w) m \<and> (case made of
          Inl e \<Rightarrow> view w' = m
        | Inr _ \<Rightarrow> m (rr_run_id new) = None \<and> view w' = m(rr_run_id new \<mapsto> new))"
    and cas_law: "s_cas S r v new w = (won, w') \<Longrightarrow>
      \<exists>m. evolves (view w) m \<and> (if won = Inr True
        then (\<exists>c. m r = Some c \<and> rr_version c = v \<and> rr_version new = v + 1) \<and> view w' = m(r \<mapsto> new)
        else view w' = m)"
    and enqueue_law: "evolves (view w) (view (snd (s_enqueue S job w)))"
    and cancel_law: "evolves (view w) (view (snd (s_cancel S r w)))"
    and sleep_law: "evolves (view w) (view (snd (s_sleep S t w)))"
    and now_law: "evolves (view w) (view (snd (s_now S w)))"
    and uuid_law: "evolves (view w) (view (snd (s_uuid S w)))"
begin

abbreviation after :: "(string \<Rightarrow> run_record option) \<Rightarrow> 'w \<Rightarrow> bool" where
  "after m w \<equiv> evolves m (view w)"

lemma keeps_evolves: "(\<And>w. evolves (view w) (view (snd (p w)))) \<Longrightarrow> keeps (after m) p"
  unfolding keeps_def by (blast intro: evolves_trans)

lemma keeps_get: "keeps (after m) (s_get S r)"
  by (rule keeps_evolves) (metis get_law prod.collapse)

lemma keeps_create: "keeps (after m) (s_create S new)"
proof (rule keeps_evolves)
  fix w
  obtain out w' where run: "s_create S new w = (out, w')" by fastforce
  show "evolves (view w) (view (snd (s_create S new w)))"
    using create_law [OF run] evolves_new [of _ "rr_run_id new" new] evolves_trans
    by (cases out) (auto simp: run)
qed

lemmas keeps_calls = keeps_get keeps_create
  keeps_evolves [OF enqueue_law] keeps_evolves [OF cancel_law] keeps_evolves [OF sleep_law]
  keeps_evolves [OF now_law] keeps_evolves [OF uuid_law]

text \<open>
  A compare-and-set that wins replaces the very record that was read: the version it compares
  identifies the record, so nobody else's change is lost.
\<close>

lemma cas_replaces_read:
  assumes "view w0 r = Some c" and "evolves (view w0) (view w)"
    and "s_cas S r (rr_version c) new w = (Inr True, w')"
    and "\<not> run_is_terminal (rr_status c)" and "rr_request new = rr_request c"
  shows "evolves (view w) (view w') \<and> view w' r = Some new"
proof -
  obtain m d where m: "evolves (view w) m" and d: "m r = Some d" "rr_version d = rr_version c"
    and new: "rr_version new = rr_version c + 1" "view w' = m(r \<mapsto> new)"
    using cas_law [OF assms(3)] by auto
  have "d = c"
    using evolvesD [OF evolves_trans [OF assms(2) m] assms(1)] d by (auto simp: forward_def)
  then have "evolves m (view w')"
    unfolding new(2) using d new(1) assms(4,5) by (intro evolves_next) simp_all
  then show ?thesis
    using evolves_trans [OF m] new(2) by simp
qed

lemma cas_loses:
  assumes "s_cas S r v new w = (out, w')" and "out \<noteq> Inr True"
  shows "evolves (view w) (view w')"
  using cas_law [OF assms(1)] assms(2) by (auto split: if_splits)

definition updated :: "string \<Rightarrow> run_status \<Rightarrow> loop_result option \<Rightarrow> string \<Rightarrow> run_error + bool \<Rightarrow> 'w \<Rightarrow> bool" where
  "updated rid st res err out w \<longleftrightarrow> (out = Inr True \<longrightarrow>
     (\<exists>d. view w rid = Some d \<and> rr_status d = st \<and> rr_result d = res \<and> rr_error d = err))"

lemma update_attempts:
  "update_attempts S n rid st res err expected w = (out, w')
   \<Longrightarrow> evolves (view w) (view w') \<and> updated rid st res err out w'"
proof (induction n arbitrary: w)
  case 0
  then show ?case by (auto simp: raiseE_def updated_def)
next
  case (Suc n)
  obtain found w1 where get: "s_get S rid w = (found, w1)" by fastforce
  note w1 = get_law [OF get]
  show ?case
  proof (cases "\<exists>c. found = Inr (Some c) \<and> \<not> run_is_terminal (rr_status c)
      \<and> (case expected of None \<Rightarrow> True | Some ss \<Rightarrow> rr_status c \<in> ss)")
    case False
    then have "w' = w1" and "out \<noteq> Inr True"
      using Suc.prems get by (auto simp: bindE_def raiseE_def returnE_def split: sum.splits option.splits if_splits)
    then show ?thesis using w1 by (simp add: updated_def)
  next
    case True
    then obtain c where c: "found = Inr (Some c)" "\<not> run_is_terminal (rr_status c)"
        "(case expected of None \<Rightarrow> True | Some ss \<Rightarrow> rr_status c \<in> ss)" by blast
    then have read: "view w1 rid = Some c" using w1 by simp
    obtain t w2 where now: "s_now S w1 = (t, w2)" by fastforce
    then have w2: "evolves (view w1) (view w2)" using now_law [of w1] by simp
    show ?thesis
    proof (cases t)
      case (Inl e)
      then show ?thesis
        using Suc.prems get now c w1 w2 
        by (auto simp: bindE_def updated_def intro: evolves_trans split: option.splits)
    next
      case (Inr time)
      show ?thesis
      proof (cases "replaced c st res err time")
        case (Inl e)
        then show ?thesis
          using Suc.prems get now c w1 w2 \<open>t = Inr time\<close>
          by (auto simp: bindE_def updated_def faulty_def liftE_def intro: evolves_trans split: option.splits)
      next
        case (Inr new)
        note new = replaced_Inr [OF Inr]
        obtain won w3 where cas: "s_cas S rid (rr_version c) new w2 = (won, w3)" by fastforce
        have rest: "(case won of Inl e \<Rightarrow> (Inl e, w3) | Inr b \<Rightarrow>
            (if b then (Inr True, w3)
             else thenE (s_sleep S 0) (update_attempts S n rid st res err expected) w3)) = (out, w')"
          using Suc.prems get now c Inr \<open>t = Inr time\<close> cas
          by (auto simp: bindE_def faulty_def liftE_def returnE_def split: option.splits sum.splits if_splits)
        show ?thesis
        proof (cases "won = Inr True")
          case True
          then have "evolves (view w2) (view w3) \<and> view w3 rid = Some new"
            using cas_replaces_read [OF read w2] cas c(2) new by simp
          then show ?thesis
            using rest True w1 w2 new by (auto simp: updated_def intro: evolves_trans)
        next
          case False
          note w3 = cas_loses [OF cas False]
          have w03: "evolves (view w) (view w3)"
            using w1 w2 w3 by (blast intro: evolves_trans)
          obtain s w4 where sleep: "s_sleep S 0 w3 = (s, w4)" by fastforce
          then have w4: "evolves (view w3) (view w4)" using sleep_law [of w3 0] by simp
          show ?thesis
            using rest False w03 sleep evolves_trans [OF w03 w4] Suc.IH [of w4]
            by (auto simp: thenE_def bindE_def updated_def split: sum.splits if_splits intro: evolves_trans)
        qed
      qed
    qed
  qed
qed


lemma keeps_update: "keeps (after m) (update_run S rid st res err expected)"
  by (rule keeps_evolves)
    (metis update_run_def update_attempts prod.collapse)

lemmas keeps_facade = keeps_rules keeps_calls keeps_update

lemma keeps_faulty: "keeps (after m) (faulty r)"
  by (simp add: faulty_def keeps_liftE)

lemma keeps_submit: "keeps (after m) (runtime_submit S req rid)"
  unfolding runtime_submit_def
  by (intro keeps_facade keeps_faulty) (auto split: option.split list.split intro!: keeps_facade)

lemma keeps_cancel: "keeps (after m) (runtime_cancel S rid)"
  unfolding runtime_cancel_def by (intro keeps_facade)

lemma keeps_resume: "keeps (after m) (runtime_resume S rid mode)"
  unfolding runtime_resume_def by (intro keeps_facade keeps_faulty)

lemma keeps_result: "keeps (after m) (runtime_result S rid)"
  unfolding runtime_result_def by (intro keeps_facade)

text \<open>A cancellation reported to the caller is in the repository.\<close>

lemma cancelled_is_stored:
  assumes "runtime_cancel S rid w = (Inr True, w')"
  shows "\<exists>d. view w' rid = Some d \<and> rr_status d = RS_CANCELLED"
proof -
  obtain w1 where "update_run S rid RS_CANCELLED None []
      (Some {RS_QUEUED, RS_RUNNING, RS_PAUSED, RS_BLOCKED}) w1 = (Inr True, w')"
    using assms by (auto simp: runtime_cancel_def bindE_def returnE_def split: sum.splits prod.splits option.splits if_splits)
  from update_attempts [OF this [unfolded update_run_def]] show ?thesis
    by (auto simp: updated_def)
qed

end

section \<open>The in-memory repository with rivals\<close>

text \<open>
  Other facades on the same repository: before each call of ours the next batch of their steps
  runs. A rival creates a record, wins the compare-and-set of an \<open>_update\<close> that read the current
  record, or leaves the queue in another state.
\<close>

datatype rival = RivalCreate run_record | RivalUpdate string run_record | RivalQueue queue

record qworld =
  w_repo :: repository
  w_queue :: queue
  w_rivals :: "rival list list"
  w_clock :: "int list"
  w_ids :: "string list"

fun rival_step :: "rival \<Rightarrow> qworld \<Rightarrow> qworld" where
  "rival_step (RivalCreate x) w = w\<lparr>w_repo := snd (repo_create x (w_repo w))\<rparr>"
| "rival_step (RivalUpdate rid x) w = (case dict_get (w_repo w) rid of
       None \<Rightarrow> w
     | Some c \<Rightarrow>
         if run_is_terminal (rr_status c) \<or> rr_request x \<noteq> rr_request c then w
         else w\<lparr>w_repo := snd (repo_compare_and_set rid (rr_version c) x (w_repo w))\<rparr>)"
| "rival_step (RivalQueue q) w = w\<lparr>w_queue := q\<rparr>"

definition rivals_move :: "qworld \<Rightarrow> qworld" where
  "rivals_move w = (case w_rivals w of
     [] \<Rightarrow> w | rs # rest \<Rightarrow> fold rival_step rs (w\<lparr>w_rivals := rest\<rparr>))"

definition read_clock :: "(qworld, run_error, int) prog" where
  "read_clock w = (case w_clock w of [] \<Rightarrow> (Inr 0, w) | t # ts \<Rightarrow> (Inr t, w\<lparr>w_clock := ts\<rparr>))"

definition draw_id :: "(qworld, run_error, string) prog" where
  "draw_id w = (case w_ids w of [] \<Rightarrow> (Inr ''id'', w) | i # is \<Rightarrow> (Inr i, w\<lparr>w_ids := is\<rparr>))"

definition on_repo :: "(repository \<Rightarrow> (run_error + 'a) \<times> repository) \<Rightarrow> (qworld, run_error, 'a) prog" where
  "on_repo f w = (let w1 = rivals_move w in case f (w_repo w1) of (out, d) \<Rightarrow> (out, w1\<lparr>w_repo := d\<rparr>))"

definition on_queue :: "(queue \<Rightarrow> (run_error + 'a) \<times> queue) \<Rightarrow> (qworld, run_error, 'a) prog" where
  "on_queue f w = (let w1 = rivals_move w in case f (w_queue w1) of (out, q) \<Rightarrow> (out, w1\<lparr>w_queue := q\<rparr>))"

definition in_memory :: "qworld services" where
  "in_memory = \<lparr>
     s_create = (\<lambda>new. on_repo (repo_create new)),
     s_get = (\<lambda>r. on_repo (\<lambda>d. (Inr (repo_get r d), d))),
     s_list = (\<lambda>count off. on_repo (\<lambda>d. (repo_list count off d, d))),
     s_cas = (\<lambda>r v new. on_repo (repo_compare_and_set r v new)),
     s_enqueue = (\<lambda>job. bindE read_clock (\<lambda>now. on_queue (queue_enqueue job now))),
     s_cancel = (\<lambda>r. on_queue (\<lambda>q. map_prod Inr id (queue_cancel r q))),
     s_sleep = (\<lambda>t. on_repo (\<lambda>d. (Inr (), d))),
     s_now = read_clock,
     s_time = (\<lambda>w. map_prod (map_sum id of_int) id (read_clock w)),
     s_uuid = draw_id\<rparr>"

definition stored :: "qworld \<Rightarrow> string \<Rightarrow> run_record option" where
  "stored w r = dict_get (w_repo w) r"

lemma cas_cases:
  assumes "repo_compare_and_set r v new d = (out, d')"
  obtains "out \<noteq> Inr True" "d' = d"
    | c where "out = Inr True" "dict_get d r = Some c" "rr_version c = v" "rr_version new = v + 1"
        "d' = dict_set r new d"
  using assms by (auto simp: repo_compare_and_set_def split: option.splits if_splits)

lemma rival_step_evolves: "evolves (stored w) (stored (rival_step x w))"
proof (cases x)
  case (RivalCreate y)
  then show ?thesis
    by (auto simp: repo_create_def stored_def [abs_def] dict_has_get intro!: evolves_new)
next
  case (RivalUpdate rid y)
  show ?thesis
  proof (cases "dict_get (w_repo w) rid")
    case (Some c)
    obtain out d' where run: "repo_compare_and_set rid (rr_version c) y (w_repo w) = (out, d')" by fastforce
    from run show ?thesis
      by (cases rule: cas_cases)
        (auto simp: RivalUpdate Some run stored_def [abs_def] intro!: evolves_next)
  qed (simp add: RivalUpdate)
qed (simp add: stored_def [abs_def])

lemma fold_rivals_evolves: "evolves (stored w) (stored (fold rival_step rs w))"
  by (induction rs arbitrary: w) (auto intro: evolves_trans rival_step_evolves)

lemma rivals_move_evolves: "evolves (stored w) (stored (rivals_move w))"
  using fold_rivals_evolves [of "w\<lparr>w_rivals := tl (w_rivals w)\<rparr>" "hd (w_rivals w)"]
  by (auto simp: rivals_move_def stored_def [abs_def] split: list.split)

lemma read_clock_stored [simp]: "stored (snd (read_clock w)) = stored w"
  by (auto simp: read_clock_def stored_def [abs_def] split: list.split)

lemma draw_id_stored [simp]: "stored (snd (draw_id w)) = stored w"
  by (auto simp: draw_id_def stored_def [abs_def] split: list.split)

lemma on_queue_evolves: "evolves (stored w) (stored (snd (on_queue f w)))"
  using rivals_move_evolves [of w]
  by (auto simp: on_queue_def Let_def stored_def [abs_def] split: prod.split)

lemma on_repo_run:
  "on_repo f w = (out, w') \<Longrightarrow> \<exists>w1. evolves (stored w) (stored w1) \<and> f (w_repo w1) = (out, w_repo w')"
  using rivals_move_evolves [of w] by (auto simp: on_repo_def Let_def split: prod.splits)

interpretation rivals: run_store in_memory stored
proof (unfold_locales, goal_cases)
  case (1 r w out w')
  then show ?case
    by (auto simp: in_memory_def repo_get_def stored_def [abs_def] dest!: on_repo_run)
next
  case (2 new w made w')
  then obtain w1 where "evolves (stored w) (stored w1)" "repo_create new (w_repo w1) = (made, w_repo w')"
    by (auto simp: in_memory_def dest!: on_repo_run)
  then show ?case
    by (intro exI [of _ "stored w1"], cases "dict_has (rr_run_id new) (w_repo w1)")
      (auto simp: repo_create_def stored_def [abs_def] dict_has_get
        simp flip: dict_get_set dest: sym [of "dict_set _ _ _"])
next
  case (3 r v new w won w')
  then obtain w1 where w1: "evolves (stored w) (stored w1)"
    and run: "repo_compare_and_set r v new (w_repo w1) = (won, w_repo w')"
    by (auto simp: in_memory_def dest!: on_repo_run)
  from run show ?case
    by (cases rule: cas_cases)
      (use w1 in \<open>auto intro!: exI [of _ "stored w1"] simp: stored_def [abs_def]\<close>)
next
  case (4 w job)
  obtain t w1 where now: "read_clock w = (t, w1)" by fastforce
  then have "stored w1 = stored w" using read_clock_stored [of w] by simp
  then show ?case
    using on_queue_evolves [of w1] by (cases t) (simp_all add: in_memory_def bindE_def now)
next
  case (6 w t)
  obtain out w1 where run: "on_repo (\<lambda>d. (Inr (), d)) w = (out, w1)" by fastforce
  from on_repo_run [OF run] show ?case
    by (auto simp: in_memory_def run stored_def [abs_def])
qed (simp_all add: in_memory_def on_queue_evolves)

section \<open>What callers of the facade see\<close>

datatype facade_op =
    FSubmit loop_request "string option"
  | FCancel string
  | FResume string resume_mode
  | FResult string

fun apply_facade :: "facade_op \<Rightarrow> qworld \<Rightarrow> qworld" where
  "apply_facade (FSubmit req rid) w = snd (runtime_submit in_memory req rid w)"
| "apply_facade (FCancel rid) w = snd (runtime_cancel in_memory rid w)"
| "apply_facade (FResume rid mode) w = snd (runtime_resume in_memory rid mode w)"
| "apply_facade (FResult rid) w = snd (runtime_result in_memory rid w)"

lemma facade_step: "evolves (stored w) (stored (apply_facade op w))"
proof -
  have "evolves (stored w) (stored w)" by simp
  then show ?thesis
    by (cases op)
      (auto intro: keepsD [OF rivals.keeps_submit] keepsD [OF rivals.keeps_cancel]
        keepsD [OF rivals.keeps_resume] keepsD [OF rivals.keeps_result])
qed

lemma facade_steps: "evolves (stored w) (stored (fold apply_facade ops w))"
  by (induction ops arbitrary: w) (auto intro: evolves_trans facade_step)

text \<open>
  C21. Records only move forward. Whatever sequence of submissions, cancellations and resumptions runs,
  and whatever other facades do between any two calls on the repository, a stored record keeps its
  request, its version never falls, two records with the same version are the same record, and a
  record in a terminal status is never replaced.
\<close>

theorem records_move_forward:
  assumes "stored w r = Some c"
  shows "\<exists>d. stored (fold apply_facade ops w) r = Some d \<and> forward c d"
  by (rule evolvesD [OF facade_steps assms])


section \<open>Examples\<close>

definition demo_record :: "run_status \<Rightarrow> int \<Rightarrow> run_record" where
  "demo_record st v = \<lparr>rr_run_id = ''r'', rr_request = demo_request, rr_status = st, rr_version = v,
     rr_result = None, rr_error = [], rr_created_at = 1, rr_updated_at = 1\<rparr>"

text \<open>
  A paused run, cancelled while a rival resumes it between the first read and the compare-and-set.
\<close>

definition demo_qworld :: qworld where
  "demo_qworld = \<lparr>w_repo = [(''r'', demo_record RS_PAUSED 0)], w_queue = new_queue,
     w_rivals = [[], [], [RivalUpdate ''r'' (demo_record RS_QUEUED 1)]], w_clock = [5, 6], w_ids = []\<rparr>"

theorem records_move_forward_witness:
  "\<exists>d. stored (fold apply_facade [FCancel ''r'', FResume ''r'' CONTINUE] demo_qworld) ''r'' = Some d
     \<and> forward (demo_record RS_PAUSED 0) d"
  by (rule records_move_forward) (simp add: stored_def demo_qworld_def)


end
