(* ===== verification/IsoTime.thy ===== *)
theory IsoTime
  imports LoopModels
begin

text \<open>
  \<open>datetime.isoformat()\<close> and \<open>datetime.fromisoformat()\<close> of the standard library, as far as the
  checkpoint codec relies on them: the texts \<open>isoformat\<close> writes, with any separator between date
  and time and with the omissions Python 3.10 allows. Later versions accept further ISO 8601
  texts, and offsets with a fraction of a second are left out.
\<close>

section \<open>Decimal fields\<close>

fun pad :: "nat \<Rightarrow> nat \<Rightarrow> string" where
  "pad 0 n = []"
| "pad (Suc k) n = pad k (n div 10) @ [char_of (48 + n mod 10)]"

fun read_num :: "nat \<Rightarrow> nat \<Rightarrow> string \<Rightarrow> (nat \<times> string) option" where
  "read_num 0 acc s = Some (acc, s)"
| "read_num (Suc k) acc [] = None"
| "read_num (Suc k) acc (c # s) = (let d = of_char c :: nat in
     if 48 \<le> d \<and> d \<le> 57 then read_num k (acc * 10 + (d - 48)) s else None)"

definition read_lit :: "char \<Rightarrow> string \<Rightarrow> string option" where
  "read_lit c s = (case s of x # xs \<Rightarrow> if x = c then Some xs else None | [] \<Rightarrow> None)"

text \<open>A number after a separator.\<close>

definition read_field :: "char \<Rightarrow> nat \<Rightarrow> string \<Rightarrow> (nat \<times> string) option" where
  "read_field c k s = Option.bind (read_lit c s) (read_num k 0)"

section \<open>Writing\<close>

definition iso_offset :: "int \<Rightarrow> string" where
  "iso_offset off = (let a = nat \<bar>off\<bar> in
     (if off < 0 then ''-'' else ''+'') @ pad 2 (a div 3600) @ '':'' @ pad 2 (a div 60 mod 60)
     @ (if a mod 60 = 0 then [] else '':'' @ pad 2 (a mod 60)))"

definition isoformat :: "datetime \<Rightarrow> string" where
  "isoformat d =
     pad 4 (nat (dt_year d)) @ ''-'' @ pad 2 (nat (dt_month d)) @ ''-'' @ pad 2 (nat (dt_day d))
     @ ''T'' @ pad 2 (nat (dt_hour d)) @ '':'' @ pad 2 (nat (dt_minute d)) @ '':'' @ pad 2 (nat (dt_second d))
     @ (if dt_microsecond d = 0 then [] else ''.'' @ pad 6 (nat (dt_microsecond d)))
     @ (case dt_offset d of None \<Rightarrow> [] | Some off \<Rightarrow> iso_offset off)"

section \<open>Reading\<close>

text \<open>An optional field: absent when its separator is.\<close>

definition read_optional :: "char \<Rightarrow> nat \<Rightarrow> string \<Rightarrow> (nat \<times> string) option" where
  "read_optional c k s = (case s of x # xs \<Rightarrow> if x = c then read_num k 0 xs else Some (0, s) | [] \<Rightarrow> Some (0, s))"

definition read_offset :: "string \<Rightarrow> int option option" where
  "read_offset s = (case s of
       [] \<Rightarrow> Some None
     | x # xs \<Rightarrow> if x \<noteq> CHR ''+'' \<and> x \<noteq> CHR ''-'' then None
         else Option.bind (read_num 2 0 xs) (\<lambda>(h, s1).
           Option.bind (read_field CHR '':'' 2 s1) (\<lambda>(m, s2).
           Option.bind (read_optional CHR '':'' 2 s2) (\<lambda>(sec, s3).
             if s3 \<noteq> [] then None
             else Some (Some ((if x = CHR ''-'' then - 1 else 1) * int (h * 3600 + m * 60 + sec)))))))"

text \<open>A fraction has three or six digits.\<close>

definition read_fraction :: "string \<Rightarrow> (nat \<times> string) option" where
  "read_fraction s = (case read_lit CHR ''.'' s of
       None \<Rightarrow> Some (0, s)
     | Some s1 \<Rightarrow> (case read_num 6 0 s1 of
         Some r \<Rightarrow> Some r
       | None \<Rightarrow> map_option (\<lambda>(n, s2). (n * 1000, s2)) (read_num 3 0 s1)))"

definition read_clock_time :: "string \<Rightarrow> ((nat \<times> nat \<times> nat \<times> nat) \<times> string) option" where
  "read_clock_time s =
     Option.bind (read_num 2 0 s) (\<lambda>(h, s1).
     if read_lit CHR '':'' s1 = None then Some ((h, 0, 0, 0), s1)
     else Option.bind (read_field CHR '':'' 2 s1) (\<lambda>(m, s2).
     if read_lit CHR '':'' s2 = None then Some ((h, m, 0, 0), s2)
     else Option.bind (read_field CHR '':'' 2 s2) (\<lambda>(sec, s3).
       map_option (\<lambda>(us, s4). ((h, m, sec, us), s4)) (read_fraction s3))))"

definition valid_datetime :: "datetime \<Rightarrow> bool" where
  "valid_datetime d \<longleftrightarrow> 1 \<le> dt_year d \<and> dt_year d \<le> 9999 \<and> 1 \<le> dt_month d \<and> dt_month d \<le> 12
     \<and> 1 \<le> dt_day d \<and> dt_day d \<le> days_in_month (dt_year d) (dt_month d)
     \<and> 0 \<le> dt_hour d \<and> dt_hour d < 24 \<and> 0 \<le> dt_minute d \<and> dt_minute d < 60
     \<and> 0 \<le> dt_second d \<and> dt_second d < 60 \<and> 0 \<le> dt_microsecond d \<and> dt_microsecond d < 1000000
     \<and> (case dt_offset d of None \<Rightarrow> True | Some off \<Rightarrow> \<bar>off\<bar> < 86400)"

definition fromisoformat :: "string \<Rightarrow> datetime option" where
  "fromisoformat s =
     Option.bind (read_num 4 0 s) (\<lambda>(y, s1).
     Option.bind (read_field CHR ''-'' 2 s1) (\<lambda>(mo, s2).
     Option.bind (read_field CHR ''-'' 2 s2) (\<lambda>(d, s3).
     Option.bind (case s3 of [] \<Rightarrow> Some ((0, 0, 0, 0), []) | _ # s4 \<Rightarrow> read_clock_time s4)
       (\<lambda>((h, m, sec, us), s5).
     Option.bind (read_offset s5) (\<lambda>off.
       let t = \<lparr>dt_year = int y, dt_month = int mo, dt_day = int d, dt_hour = int h, dt_minute = int m,
                dt_second = int sec, dt_microsecond = int us, dt_offset = off\<rparr>
       in if valid_datetime t then Some t else None)))))"

section \<open>What is written is read back\<close>

lemma read_num_Suc: "read_num (Suc k) a s = Option.bind (read_num k a s) (\<lambda>(v, t). read_num 1 v t)"
  by (induction k a s rule: read_num.induct) (auto simp: Let_def)

lemma read_pad: "n < 10 ^ k \<Longrightarrow> read_num k a (pad k n @ rest) = Some (a * 10 ^ k + n, rest)"
proof (induction k arbitrary: n rest)
  case (Suc k)
  have "n div 10 < 10 ^ k" using Suc.prems by (simp add: less_mult_imp_div_less)
  note IH = Suc.IH [OF this, of "char_of (48 + n mod 10) # rest"]
  have "(48 + n mod 10) mod 256 = 48 + n mod 10" by simp
  then show ?case
    using IH by (simp only: read_num_Suc pad.simps append_assoc append_Cons append_Nil)
      (simp add: Let_def of_char_of)
qed simp

lemma read_field_pad: "n < 10 ^ k \<Longrightarrow> read_field c k (c # pad k n @ rest) = Some (n, rest)"
  by (simp add: read_field_def read_lit_def read_pad)

lemma read_offset_iso:
  assumes "\<bar>off\<bar> < 86400"
  shows "read_offset (iso_offset off) = Some (Some off)"
proof -
  define a where "a = nat \<bar>off\<bar>"
  have h: "a div 3600 < 10 ^ 2" and m: "a div 60 mod 60 < 10 ^ 2" and s: "a mod 60 < 10 ^ 2"
    using assms by (auto simp: a_def)
  have "a div 3600 * 3600 + a div 60 mod 60 * 60 + a mod 60 = a"
  proof -
    have "a div 3600 = a div 60 div 60"
      by (simp add: div_mult2_eq [symmetric])
    then show ?thesis
      using div_mult_mod_eq [of a 60] div_mult_mod_eq [of "a div 60" 60] by linarith
  qed
  then have "int (a div 3600 * 3600 + a div 60 mod 60 * 60 + a mod 60) = \<bar>off\<bar>"
    unfolding \<open>_ = a\<close> by (simp add: a_def)
  then show ?thesis
    using read_pad [OF h, of 0] read_field_pad [OF m, of "CHR '':''"] read_pad [OF s, of 0 "[]"]
    by (auto simp: read_offset_def iso_offset_def read_optional_def Let_def simp flip: a_def)
qed

lemma iso_offset_head: "\<exists>x xs. iso_offset off = x # xs \<and> (x = CHR ''+'' \<or> x = CHR ''-'')"
  by (simp add: iso_offset_def Let_def)

theorem fromisoformat_isoformat:
  assumes "valid_datetime d"
  shows "fromisoformat (isoformat d) = Some d"
proof -
  note v = assms [unfolded valid_datetime_def]
  have dim: "days_in_month (dt_year d) (dt_month d) \<le> 31" by (simp add: days_in_month_def)
  have y: "nat (dt_year d) < 10 ^ 4" and mo: "nat (dt_month d) < 10 ^ 2" and da: "nat (dt_day d) < 10 ^ 2"
    and h: "nat (dt_hour d) < 10 ^ 2" and mi: "nat (dt_minute d) < 10 ^ 2" and se: "nat (dt_second d) < 10 ^ 2"
    and us: "nat (dt_microsecond d) < 10 ^ 6"
    using v dim by auto
  define tail where "tail = (case dt_offset d of None \<Rightarrow> [] | Some off \<Rightarrow> iso_offset off)"
  have tz: "read_offset tail = Some (dt_offset d)"
    using v by (auto simp: tail_def read_offset_iso split: option.splits) (simp add: read_offset_def)
  have no_dot: "read_lit CHR ''.'' tail = None"
  proof (cases "dt_offset d")
    case (Some off)
    obtain x xs where "iso_offset off = x # xs" "x = CHR ''+'' \<or> x = CHR ''-''"
      using iso_offset_head by blast
    then show ?thesis by (auto simp: tail_def Some read_lit_def)
  qed (simp add: tail_def read_lit_def)
  define frac where "frac = (if dt_microsecond d = 0 then [] else CHR ''.'' # pad 6 (nat (dt_microsecond d)))"
  have fraction: "read_fraction (frac @ tail) = Some (nat (dt_microsecond d), tail)"
    using read_pad [OF us, of 0 tail] no_dot by (simp add: read_fraction_def frac_def read_lit_def)
  have time: "read_clock_time (pad 2 (nat (dt_hour d)) @ CHR '':'' # pad 2 (nat (dt_minute d)) @ CHR '':''
      # pad 2 (nat (dt_second d)) @ frac @ tail)
    = Some ((nat (dt_hour d), nat (dt_minute d), nat (dt_second d), nat (dt_microsecond d)), tail)"
    using read_pad [OF h, of 0] read_field_pad [OF mi, of "CHR '':''"] read_field_pad [OF se, of "CHR '':''"]
    by (simp add: read_clock_time_def read_lit_def fraction)
  have iso: "isoformat d = pad 4 (nat (dt_year d)) @ CHR ''-'' # pad 2 (nat (dt_month d)) @ CHR ''-''
      # pad 2 (nat (dt_day d)) @ CHR ''T'' # pad 2 (nat (dt_hour d)) @ CHR '':'' # pad 2 (nat (dt_minute d))
      @ CHR '':'' # pad 2 (nat (dt_second d)) @ frac @ tail"
    by (simp add: isoformat_def frac_def tail_def)
  have eta: "\<lparr>dt_year = dt_year d, dt_month = dt_month d, dt_day = dt_day d, dt_hour = dt_hour d,
      dt_minute = dt_minute d, dt_second = dt_second d, dt_microsecond = dt_microsecond d,
      dt_offset = dt_offset d\<rparr> = d" by simp
  show ?thesis
    unfolding iso fromisoformat_def
    using read_pad [OF y, of 0] read_field_pad [OF mo, of "CHR ''-''"] read_field_pad [OF da, of "CHR ''-''"]
      time tz v assms
    by (simp add: Let_def eta)
qed

end
