(* ===== verification/CheckpointCodec.thy ===== *)
theory CheckpointCodec
  imports IsoTime
begin

text \<open>
  The checkpoint codec of \<open>matterloop_core/context/checkpoint.py\<close>: contexts to JSON-like values and
  back, with the strict validation of every field. The text layer (\<open>json.dumps\<close>, \<open>json.loads\<close>) is a
  parameter. The message of an unknown enum value quotes the value without escapes; numbers are left
  out of messages.
\<close>

section \<open>Results\<close>

definition ebind :: "exn + 'a \<Rightarrow> ('a \<Rightarrow> exn + 'b) \<Rightarrow> exn + 'b" where
  "ebind r f = (case r of Inl e \<Rightarrow> Inl e | Inr x \<Rightarrow> f x)"

lemma ebind_simps [simp]: "ebind (Inr x) f = f x" "ebind (Inl e) f = Inl e"
  by (simp_all add: ebind_def)

lemma ebind_Inr: "ebind r f = Inr y \<longleftrightarrow> (\<exists>x. r = Inr x \<and> f x = Inr y)"
  by (cases r) simp_all

fun each :: "('a \<Rightarrow> exn + 'b) \<Rightarrow> 'a list \<Rightarrow> exn + 'b list" where
  "each f [] = Inr []"
| "each f (x # xs) = ebind (f x) (\<lambda>y. ebind (each f xs) (\<lambda>ys. Inr (y # ys)))"

definition optional :: "('a \<Rightarrow> exn + 'b) \<Rightarrow> 'a option \<Rightarrow> exn + 'b option" where
  "optional f x = (case x of None \<Rightarrow> Inr None | Some y \<Rightarrow> map_sum id Some (f y))"

abbreviation schema_error :: "string \<Rightarrow> exn + 'a" where
  "schema_error m \<equiv> Inl (CheckpointSchema m)"

section \<open>Values and fields\<close>

definition obj :: "(string \<times> pyval) list \<Rightarrow> pyval" where
  "obj fs = PDict (map (\<lambda>(k, v). (PStr k, v)) fs)"

text \<open>\<open>data.get(name)\<close>\<close>

definition field :: "string \<Rightarrow> metadata \<Rightarrow> pyval" where
  "field n d = (case map_of d (PStr n) of None \<Rightarrow> PNone | Some v \<Rightarrow> v)"

fun json_value :: "pyval \<Rightarrow> string \<Rightarrow> exn + pyval"
  and json_list :: "pyval list \<Rightarrow> string \<Rightarrow> exn + pyval list"
  and json_items :: "metadata \<Rightarrow> string \<Rightarrow> exn + metadata" where
  "json_value (PFloat x) p =
     (if isfinite x then Inr (PFloat x) else schema_error (p @ '' contains a non-finite number''))"
| "json_value (PDict ds) p = map_sum id PDict (json_items ds p)"
| "json_value (PList xs) p = map_sum id PList (json_list xs p)"
| "json_value (POther t) p = schema_error (p @ '' contains unsupported type '' @ t)"
| "json_value v p = Inr v"
| "json_list [] p = Inr []"
| "json_list (x # xs) p =
     ebind (json_value x (p @ ''[]'')) (\<lambda>y. ebind (json_list xs p) (\<lambda>ys. Inr (y # ys)))"
| "json_items [] p = Inr []"
| "json_items ((k, v) # ds) p = (case k of
     PStr s \<Rightarrow> ebind (json_value v (p @ ''.'' @ s)) (\<lambda>y. ebind (json_items ds p) (\<lambda>ys. Inr ((k, y) # ys)))
   | _ \<Rightarrow> schema_error (p @ '' contains a non-string key''))"

definition mapping_of :: "pyval \<Rightarrow> string \<Rightarrow> exn + metadata" where
  "mapping_of v n = (case v of
     PDict ds \<Rightarrow> if list_all (\<lambda>(k, _). case k of PStr _ \<Rightarrow> True | _ \<Rightarrow> False) ds then Inr ds
       else schema_error (n @ '' contains a non-string key'')
   | _ \<Rightarrow> schema_error (n @ '' must be an object''))"

definition sequence_of :: "pyval \<Rightarrow> string \<Rightarrow> exn + pyval list" where
  "sequence_of v n = (case v of PList xs \<Rightarrow> Inr xs | _ \<Rightarrow> schema_error (n @ '' must be an array''))"

definition metadata_of :: "pyval \<Rightarrow> string \<Rightarrow> exn + metadata" where
  "metadata_of v n = ebind (json_value v n) (\<lambda>c. mapping_of c n)"

definition text_of :: "bool \<Rightarrow> pyval \<Rightarrow> string \<Rightarrow> exn + string" where
  "text_of allow_empty v n = (case v of
     PStr s \<Rightarrow> if \<not> allow_empty \<and> blank s then schema_error (n @ '' must be a non-empty string'') else Inr s
   | _ \<Rightarrow> schema_error (n @ '' must be '' @ (if allow_empty then ''a string'' else ''a non-empty string'')))"

definition string_tuple :: "pyval \<Rightarrow> string \<Rightarrow> exn + string list" where
  "string_tuple v n = ebind (sequence_of v n) (each (\<lambda>x. text_of False x n))"

definition string_mapping :: "pyval \<Rightarrow> string \<Rightarrow> exn + (string \<times> string) list" where
  "string_mapping v n = ebind (mapping_of v n)
     (each (\<lambda>(k, x). case k of
        PStr s \<Rightarrow> map_sum id (Pair s) (text_of False x (n @ ''.'' @ s))
      | _ \<Rightarrow> schema_error (n @ '' contains a non-string key'')))"

definition integer_of :: "pyval \<Rightarrow> string \<Rightarrow> exn + int" where
  "integer_of v n = (case v of PInt i \<Rightarrow> Inr i | _ \<Rightarrow> schema_error (n @ '' must be an integer''))"

definition boolean_of :: "pyval \<Rightarrow> string \<Rightarrow> exn + bool" where
  "boolean_of v n = (case v of PBool b \<Rightarrow> Inr b | _ \<Rightarrow> schema_error (n @ '' must be a boolean''))"

text \<open>\<open>float(i)\<close> raises \<open>OverflowError\<close> when \<open>i\<close> rounds to \<open>2 ^ 1024\<close> or beyond.\<close>

definition number_of :: "pyval \<Rightarrow> string \<Rightarrow> exn + rat" where
  "number_of v n = (case v of
     PInt i \<Rightarrow> if \<bar>i\<bar> \<ge> 2 ^ 1024 - 2 ^ 970
       then Inl (Other ''OverflowError'' ''int too large to convert to float'') else Inr (of_int i)
   | PFloat (Fin r) \<Rightarrow> Inr r
   | PFloat _ \<Rightarrow> schema_error (n @ '' must be finite'')
   | _ \<Rightarrow> schema_error (n @ '' must be a number''))"

definition datetime_of :: "pyval \<Rightarrow> string \<Rightarrow> exn + datetime" where
  "datetime_of v n = ebind (text_of False v n) (\<lambda>s. case fromisoformat s of
     None \<Rightarrow> Inl (ValueError (''Invalid isoformat string: '' @ s))
   | Some d \<Rightarrow> if dt_offset d = None then schema_error (n @ '' must include a timezone'') else Inr d)"

text \<open>\<open>None if value is None else f(value)\<close>\<close>

definition unless_none :: "(pyval \<Rightarrow> exn + 'a) \<Rightarrow> pyval \<Rightarrow> exn + 'a option" where
  "unless_none f v = (case v of PNone \<Rightarrow> Inr None | _ \<Rightarrow> map_sum id Some (f v))"

definition none_or :: "('a \<Rightarrow> pyval) \<Rightarrow> 'a option \<Rightarrow> pyval" where
  "none_or f x = (case x of None \<Rightarrow> PNone | Some y \<Rightarrow> f y)"

definition enum_of :: "('a \<Rightarrow> string) \<Rightarrow> 'a list \<Rightarrow> string \<Rightarrow> string \<Rightarrow> exn + 'a" where
  "enum_of value members cls s = (case find (\<lambda>m. value m = s) members of
     None \<Rightarrow> Inl (ValueError ([CHR 0x27] @ s @ [CHR 0x27] @ '' is not a valid '' @ cls)) | Some m \<Rightarrow> Inr m)"

definition loop_status_of :: "string \<Rightarrow> exn + loop_status" where
  "loop_status_of = enum_of status_value [CREATED, PLANNING, WAITING_APPROVAL, EXECUTING, VERIFYING, PAUSED,
     COMPLETED, BLOCKED, CANCELLED, TIMED_OUT, FAILED] ''LoopStatus''"

definition stop_reason_of_text :: "string \<Rightarrow> exn + stop_reason" where
  "stop_reason_of_text = enum_of stop_reason_value [SR_COMPLETED, SR_POLICY_REJECTED, SR_APPROVAL_REJECTED,
     SR_APPROVAL_DEFERRED, SR_HUMAN_INPUT_REQUIRED, SR_HUMAN_REJECTED, SR_COMPLETION_REJECTED, SR_CYCLE_LIMIT,
     SR_ATTEMPT_LIMIT, SR_STEP_LIMIT, SR_CANCELLED, SR_TIMED_OUT, SR_COMPONENT_ERROR, SR_BUDGET_EXHAUSTED,
     SR_RECOVERY_REQUIRED] ''StopReason''"

definition human_kind_of :: "string \<Rightarrow> exn + human_kind" where
  "human_kind_of = enum_of human_kind_value [APPROVAL, INPUT, COMPLETION_REVIEW] ''HumanInteractionKind''"

definition human_action_of :: "string \<Rightarrow> exn + human_action" where
  "human_action_of = enum_of human_action_value [APPROVE, REJECT, REVISE, PROVIDE_INPUT] ''HumanAction''"

section \<open>Parts of a context\<close>

abbreviation texts :: "string list \<Rightarrow> pyval" where
  "texts xs \<equiv> PList (map PStr xs)"

definition encode_limits :: "loop_limits \<Rightarrow> pyval" where
  "encode_limits l = obj [(''max_cycles'', PInt (max_cycles l)), (''max_attempts'', PInt (max_attempts l)),
     (''max_steps_per_plan'', PInt (max_steps_per_plan l)), (''timeout_seconds'', none_or PFloat (timeout_seconds l))]"

definition encode_request :: "loop_request \<Rightarrow> exn + pyval" where
  "encode_request r = ebind (json_value (PDict (req_metadata r)) ''request.metadata'') (\<lambda>meta.
     Inr (obj [(''goal'', PStr (goal r)), (''acceptance_criteria'', texts (acceptance_criteria r)),
       (''limits'', encode_limits (limits r)), (''metadata'', meta)]))"

definition decode_limits :: "metadata \<Rightarrow> exn + loop_limits" where
  "decode_limits d =
     ebind (unless_none (\<lambda>v. number_of v ''timeout_seconds'') (field ''timeout_seconds'' d)) (\<lambda>timeout.
     ebind (integer_of (field ''max_cycles'' d) ''max_cycles'') (\<lambda>mc.
     ebind (integer_of (field ''max_attempts'' d) ''max_attempts'') (\<lambda>ma.
     ebind (integer_of (field ''max_steps_per_plan'' d) ''max_steps_per_plan'') (\<lambda>ms.
       new_LoopLimits mc ma ms (map_option Fin timeout)))))"

text \<open>The timeout is read before the goal, the other limits after the criteria.\<close>

definition decode_request :: "metadata \<Rightarrow> exn + loop_request" where
  "decode_request d =
     ebind (mapping_of (field ''limits'' d) ''limits'') (\<lambda>l.
     ebind (unless_none (\<lambda>v. number_of v ''timeout_seconds'') (field ''timeout_seconds'' l)) (\<lambda>_.
     ebind (text_of False (field ''goal'' d) ''goal'') (\<lambda>g.
     ebind (string_tuple (field ''acceptance_criteria'' d) ''acceptance_criteria'') (\<lambda>ac.
     ebind (decode_limits l) (\<lambda>lim.
     ebind (metadata_of (field ''metadata'' d) ''request.metadata'') (\<lambda>meta.
       new_LoopRequest g ac lim meta))))))"

definition encode_ref :: "state_ref \<Rightarrow> pyval" where
  "encode_ref r = obj [(''kind'', PStr (ref_kind r)), (''key'', PStr (ref_key r)),
     (''revision'', PInt (ref_revision r)), (''checksum'', PStr (ref_checksum r)),
     (''schema_version'', PInt (ref_schema_version r))]"

definition decode_ref :: "metadata \<Rightarrow> exn + state_ref" where
  "decode_ref d =
     ebind (text_of False (field ''kind'' d) ''external state kind'') (\<lambda>k.
     ebind (text_of False (field ''key'' d) ''external state key'') (\<lambda>ky.
     ebind (integer_of (field ''revision'' d) ''external state revision'') (\<lambda>rv.
     ebind (text_of False (field ''checksum'' d) ''external state checksum'') (\<lambda>chk.
     ebind (integer_of (field ''schema_version'' d) ''external state schema_version'') (\<lambda>ver.
       new_ExternalStateRef k ky rv chk ver)))))"

definition encode_interaction :: "interaction \<Rightarrow> exn + pyval" where
  "encode_interaction i = ebind (json_value (PDict (hi_metadata i)) ''interaction.metadata'') (\<lambda>meta.
     Inr (obj [(''kind'', PStr (human_kind_value (hi_kind i))), (''prompt'', PStr (hi_prompt i)),
       (''allowed_actions'', texts (map human_action_value (hi_allowed_actions i))),
       (''interaction_id'', PStr (hi_interaction_id i)), (''step_id'', none_or PStr (hi_step_id i)),
       (''metadata'', meta), (''created_at'', PStr (isoformat (hi_created_at i)))]))"

definition decode_interaction :: "metadata \<Rightarrow> exn + interaction" where
  "decode_interaction d =
     ebind (ebind (text_of False (field ''kind'' d) ''interaction.kind'') human_kind_of) (\<lambda>kind.
     ebind (text_of False (field ''prompt'' d) ''interaction.prompt'') (\<lambda>prompt.
     ebind (ebind (sequence_of (field ''allowed_actions'' d) ''interaction.allowed_actions'')
       (each (\<lambda>x. ebind (text_of False x ''interaction.allowed_actions'') human_action_of))) (\<lambda>actions.
     ebind (text_of False (field ''interaction_id'' d) ''interaction.interaction_id'') (\<lambda>iid.
     ebind (unless_none (\<lambda>v. text_of False v ''interaction.step_id'') (field ''step_id'' d)) (\<lambda>sid.
     ebind (metadata_of (field ''metadata'' d) ''interaction.metadata'') (\<lambda>meta.
     ebind (datetime_of (field ''created_at'' d) ''interaction.created_at'') (\<lambda>created.
       new_HumanInteractionRequest kind prompt actions iid sid meta created)))))))"

definition encode_response :: "response \<Rightarrow> exn + pyval" where
  "encode_response r = ebind (json_value (PDict (hr_metadata r)) ''human_response.metadata'') (\<lambda>meta.
     Inr (obj [(''interaction_id'', PStr (hr_interaction_id r)), (''action'', PStr (human_action_value (hr_action r))),
       (''content'', PStr (hr_content r)), (''idempotency_key'', PStr (hr_idempotency_key r)),
       (''metadata'', meta), (''responded_at'', PStr (isoformat (hr_responded_at r)))]))"

definition decode_response :: "metadata \<Rightarrow> exn + response" where
  "decode_response d =
     ebind (text_of False (field ''interaction_id'' d) ''human_response.interaction_id'') (\<lambda>iid.
     ebind (ebind (text_of False (field ''action'' d) ''human_response.action'') human_action_of) (\<lambda>action.
     ebind (text_of True (field ''content'' d) ''human_response.content'') (\<lambda>content.
     ebind (text_of False (field ''idempotency_key'' d) ''human_response.idempotency_key'') (\<lambda>key.
     ebind (metadata_of (field ''metadata'' d) ''human_response.metadata'') (\<lambda>meta.
     ebind (datetime_of (field ''responded_at'' d) ''human_response.responded_at'') (\<lambda>responded.
       new_HumanResponse iid action content key meta responded))))))"

definition encode_human_record :: "human_record \<Rightarrow> exn + pyval" where
  "encode_human_record x = ebind (encode_interaction (hx_request x)) (\<lambda>req.
     ebind (encode_response (hx_response x)) (\<lambda>resp.
     Inr (obj [(''request'', req), (''response'', resp), (''recorded_at'', PStr (isoformat (hx_recorded_at x)))])))"

definition decode_human_record :: "metadata \<Rightarrow> exn + human_record" where
  "decode_human_record d =
     ebind (ebind (mapping_of (field ''request'' d) ''human_record.request'') decode_interaction) (\<lambda>req.
     ebind (ebind (mapping_of (field ''response'' d) ''human_record.response'') decode_response) (\<lambda>resp.
     ebind (datetime_of (field ''recorded_at'' d) ''human_record.recorded_at'') (\<lambda>recorded.
       new_HumanInteractionRecord req resp recorded)))"

definition encode_step :: "plan_step \<Rightarrow> pyval" where
  "encode_step s = obj [(''description'', PStr (description s)), (''executor'', PStr (executor s)),
     (''acceptance_criteria'', texts (step_criteria s)), (''requires_approval'', PBool (requires_approval s)),
     (''step_id'', PStr (step_id s))]"

definition decode_step :: "metadata \<Rightarrow> exn + plan_step" where
  "decode_step d =
     ebind (boolean_of (field ''requires_approval'' d) ''requires_approval'') (\<lambda>appr.
     ebind (text_of False (field ''description'' d) ''description'') (\<lambda>desc.
     ebind (text_of False (field ''executor'' d) ''executor'') (\<lambda>ex.
     ebind (string_tuple (field ''acceptance_criteria'' d) ''acceptance_criteria'') (\<lambda>ac.
     ebind (text_of False (field ''step_id'' d) ''step_id'') (\<lambda>sid.
       new_PlanStep desc ex ac appr sid)))))"

definition encode_plan :: "plan \<Rightarrow> pyval" where
  "encode_plan p = obj [(''steps'', PList (map encode_step (steps p)))]"

definition decode_plan :: "metadata \<Rightarrow> exn + plan" where
  "decode_plan d = ebind (ebind (sequence_of (field ''steps'' d) ''steps'')
     (each (\<lambda>x. ebind (mapping_of x ''plan step'') decode_step))) (\<lambda>ss. Inr \<lparr>steps = ss\<rparr>)"

definition encode_artifact :: "artifact \<Rightarrow> exn + pyval" where
  "encode_artifact a = ebind (json_value (PDict (art_metadata a)) ''artifact.metadata'') (\<lambda>meta.
     Inr (obj [(''name'', PStr (art_name a)), (''uri'', PStr (art_uri a)),
       (''media_type'', none_or PStr (art_media_type a)), (''metadata'', meta)]))"

definition decode_artifact :: "metadata \<Rightarrow> exn + artifact" where
  "decode_artifact d =
     ebind (text_of False (field ''name'' d) ''artifact.name'') (\<lambda>n.
     ebind (text_of False (field ''uri'' d) ''artifact.uri'') (\<lambda>u.
     ebind (unless_none (\<lambda>v. text_of False v ''artifact.media_type'') (field ''media_type'' d)) (\<lambda>mt.
     ebind (metadata_of (field ''metadata'' d) ''artifact.metadata'') (\<lambda>meta.
       new_ArtifactRef n u mt meta))))"

definition encode_execution :: "execution_result \<Rightarrow> exn + pyval" where
  "encode_execution x = ebind (each encode_artifact (ex_artifacts x)) (\<lambda>arts.
     ebind (json_value (PDict (ex_metadata x)) ''execution.metadata'') (\<lambda>meta.
     Inr (obj [(''output'', PStr (ex_output x)), (''artifacts'', PList arts), (''metadata'', meta)])))"

definition decode_execution :: "metadata \<Rightarrow> exn + execution_result" where
  "decode_execution d =
     ebind (text_of True (field ''output'' d) ''execution.output'') (\<lambda>out.
     ebind (ebind (sequence_of (field ''artifacts'' d) ''artifacts'')
       (each (\<lambda>x. ebind (mapping_of x ''artifact'') decode_artifact))) (\<lambda>arts.
     ebind (metadata_of (field ''metadata'' d) ''execution.metadata'') (\<lambda>meta.
       Inr \<lparr>ex_output = out, ex_artifacts = arts, ex_metadata = meta\<rparr>)))"

definition encode_verification :: "verification_result \<Rightarrow> pyval" where
  "encode_verification v = obj [(''passed'', PBool (passed v)), (''feedback'', PStr (v_feedback v)),
     (''score'', none_or PFloat (score v)), (''evidence'', texts (evidence v)),
     (''failed_criteria'', texts (failed_criteria v))]"

definition encode_record :: "iteration_record \<Rightarrow> exn + pyval" where
  "encode_record r = ebind (encode_execution (rec_execution r)) (\<lambda>ex.
     Inr (obj [(''cycle'', PInt (rec_cycle r)), (''step_index'', PInt (rec_step_index r)),
       (''step'', encode_step (rec_step r)), (''execution'', ex),
       (''verification'', encode_verification (rec_verification r)), (''attempt'', PInt (rec_attempt r))]))"

definition decode_verification :: "metadata \<Rightarrow> bool \<Rightarrow> exn + verification_result" where
  "decode_verification v p =
     ebind (text_of True (field ''feedback'' v) ''verification.feedback'') (\<lambda>fb.
     ebind (unless_none (\<lambda>x. number_of x ''verification.score'') (field ''score'' v)) (\<lambda>sc.
     ebind (string_tuple (field ''evidence'' v) ''verification.evidence'') (\<lambda>ev.
     ebind (string_tuple (field ''failed_criteria'' v) ''verification.failed_criteria'') (\<lambda>fc.
       new_VerificationResult p fb (map_option Fin sc) ev fc))))"

definition decode_record :: "metadata \<Rightarrow> exn + iteration_record" where
  "decode_record d =
     ebind (mapping_of (field ''execution'' d) ''execution'') (\<lambda>ed.
     ebind (mapping_of (field ''verification'' d) ''verification'') (\<lambda>vd.
     ebind (boolean_of (field ''passed'' vd) ''verification.passed'') (\<lambda>p.
     ebind (integer_of (field ''cycle'' d) ''cycle'') (\<lambda>cyc.
     ebind (integer_of (field ''step_index'' d) ''step_index'') (\<lambda>idx.
     ebind (ebind (mapping_of (field ''step'' d) ''step'') decode_step) (\<lambda>st.
     ebind (decode_execution ed) (\<lambda>ex.
     ebind (decode_verification vd p) (\<lambda>ver.
     ebind (integer_of (field ''attempt'' d) ''attempt'') (\<lambda>att.
       new_IterationRecord cyc idx st ex ver att)))))))))"

section \<open>The context\<close>

definition encode_strings :: "(string \<times> string) list \<Rightarrow> string \<Rightarrow> exn + pyval" where
  "encode_strings d n = map_sum id (\<lambda>ps. obj (map (\<lambda>(k, v). (k, PStr v)) ps))
     (string_mapping (obj (map (\<lambda>(k, v). (k, PStr v)) d)) n)"

text \<open>The object under \<open>context\<close>, given its translated parts.\<close>

definition context_fields ::
  "loop_context \<Rightarrow> pyval \<Rightarrow> pyval list \<Rightarrow> pyval option \<Rightarrow> pyval list \<Rightarrow> pyval option \<Rightarrow> pyval
   \<Rightarrow> (string \<times> pyval) list" where
  "context_fields c req recs pending humans ex prop =
      [(''request'', req), (''run_id'', PStr (run_id c)), (''status'', PStr (status_value (status c))),
       (''records'', PList recs), (''feedback'', PStr (feedback c)),
       (''current_plan'', none_or encode_plan (current_plan c)),
       (''current_step_index'', PInt (current_step_index c)), (''cycle_count'', PInt (cycle_count c)),
       (''total_attempts'', PInt (total_attempts c)), (''completed_steps'', PInt (completed_steps c)),
       (''stop_reason'', none_or (\<lambda>s. PStr (stop_reason_value s)) (stop_reason_of c)),
       (''error'', PStr (error c)), (''pending_interaction'', none_or id pending),
       (''human_interactions'', PList humans),
       (''approved_step_ids'', texts (sorted_list_of_set (approved_step_ids c))),
       (''replan_required'', PBool (replan_required c)), (''completion_approved'', PBool (completion_approved c)),
       (''active_operation_id'', none_or PStr (active_operation_id c)), (''pending_execution'', none_or id ex),
       (''pending_attempt'', none_or PInt (pending_attempt c)),
       (''last_heartbeat_at'', none_or (\<lambda>t. PStr (isoformat t)) (last_heartbeat_at c)),
       (''event_sequence'', PInt (event_sequence c)), (''revision'', PInt (revision c)),
       (''active_elapsed_seconds'', PFloat (Fin (active_elapsed_seconds c))),
       (''active_started_at'', none_or (\<lambda>t. PStr (isoformat t)) (active_started_at c)),
       (''propagation_context'', prop), (''external_state_refs'', PList (map encode_ref (external_state_refs c))),
       (''started_at'', PStr (isoformat (started_at c))), (''updated_at'', PStr (isoformat (updated_at c)))]"

definition encode :: "loop_context \<Rightarrow> exn + metadata" where
  "encode c =
     ebind (encode_request (request c)) (\<lambda>req.
     ebind (each encode_record (records c)) (\<lambda>recs.
     ebind (optional encode_interaction (pending_interaction c)) (\<lambda>pending.
     ebind (each encode_human_record (human_interactions c)) (\<lambda>humans.
     ebind (optional encode_execution (pending_execution c)) (\<lambda>ex.
     ebind (encode_strings (propagation_context c) ''propagation_context'') (\<lambda>prop.
     Inr [(PStr ''schema_version'', PInt 2), (PStr ''context'', obj (context_fields c req recs pending humans ex prop))]))))))"

definition validate_context :: "loop_context \<Rightarrow> exn + unit" where
  "validate_context c =
     (if \<not> list_all (\<lambda>n. 0 \<le> n) [current_step_index c, cycle_count c, total_attempts c, completed_steps c,
           event_sequence c, revision c]
      then schema_error ''checkpoint counters must not be negative''
      else if active_elapsed_seconds c < 0 then schema_error ''active_elapsed_seconds must not be negative''
      else if (case pending_attempt c of None \<Rightarrow> False | Some a \<Rightarrow> a < 1)
      then schema_error ''pending_attempt must be at least 1''
      else if pending_execution c \<noteq> None \<and> (active_operation_id c = None \<or> pending_attempt c = None)
      then schema_error ''pending execution requires active_operation_id and pending_attempt''
      else if (case current_plan c of None \<Rightarrow> False | Some p \<Rightarrow> current_step_index c > int (length (steps p)))
      then schema_error ''current_step_index is outside current_plan''
      else Inr ())"

text \<open>Version 1 has no \<open>schema_version\<close> and no references to external state.\<close>

definition checkpoint_version :: "metadata \<Rightarrow> exn + int" where
  "checkpoint_version p = (let keys = set (dict_keys p) in
     if keys = {PStr ''context''} then Inr 1
     else if keys = {PStr ''schema_version'', PStr ''context''}
     then ebind (integer_of (field ''schema_version'' p) ''schema_version'') (\<lambda>v.
       if v \<noteq> 2 then schema_error ''unsupported checkpoint schema version'' else Inr v)
     else schema_error ''checkpoint must contain context and an optional supported schema_version'')"

definition decode_context :: "int \<Rightarrow> metadata \<Rightarrow> exn + loop_context" where
  "decode_context version d =
     ebind (ebind (mapping_of (field ''request'' d) ''request'') decode_request) (\<lambda>req.
     ebind (ebind (sequence_of (field ''records'' d) ''records'')
       (each (\<lambda>x. ebind (mapping_of x ''records item'') decode_record))) (\<lambda>recs.
     ebind (text_of False (field ''run_id'' d) ''run_id'') (\<lambda>rid.
     ebind (ebind (text_of False (field ''status'' d) ''status'') loop_status_of) (\<lambda>st.
     ebind (text_of True (field ''feedback'' d) ''feedback'') (\<lambda>fb.
     ebind (unless_none (\<lambda>v. ebind (mapping_of v ''current_plan'') decode_plan) (field ''current_plan'' d)) (\<lambda>pl.
     ebind (integer_of (field ''current_step_index'' d) ''current_step_index'') (\<lambda>idx.
     ebind (integer_of (field ''cycle_count'' d) ''cycle_count'') (\<lambda>cyc.
     ebind (integer_of (field ''total_attempts'' d) ''total_attempts'') (\<lambda>att.
     ebind (integer_of (field ''completed_steps'' d) ''completed_steps'') (\<lambda>don.
     ebind (unless_none (\<lambda>v. ebind (text_of False v ''stop_reason'') stop_reason_of_text)
       (field ''stop_reason'' d)) (\<lambda>sr.
     ebind (text_of True (field ''error'' d) ''error'') (\<lambda>err.
     ebind (unless_none (\<lambda>v. ebind (mapping_of v ''pending_interaction'') decode_interaction)
       (field ''pending_interaction'' d)) (\<lambda>pend.
     ebind (ebind (sequence_of (field ''human_interactions'' d) ''human_interactions'')
       (each (\<lambda>x. ebind (mapping_of x ''human_interactions item'') decode_human_record))) (\<lambda>hum.
     ebind (string_tuple (field ''approved_step_ids'' d) ''approved_step_ids'') (\<lambda>ids.
     ebind (boolean_of (field ''replan_required'' d) ''replan_required'') (\<lambda>rep.
     ebind (boolean_of (field ''completion_approved'' d) ''completion_approved'') (\<lambda>capp.
     ebind (unless_none (\<lambda>v. text_of False v ''active_operation_id'') (field ''active_operation_id'' d)) (\<lambda>opid.
     ebind (unless_none (\<lambda>v. ebind (mapping_of v ''pending_execution'') decode_execution)
       (field ''pending_execution'' d)) (\<lambda>pex.
     ebind (unless_none (\<lambda>v. integer_of v ''pending_attempt'') (field ''pending_attempt'' d)) (\<lambda>patt.
     ebind (unless_none (\<lambda>v. datetime_of v ''last_heartbeat_at'') (field ''last_heartbeat_at'' d)) (\<lambda>hb.
     ebind (integer_of (field ''event_sequence'' d) ''event_sequence'') (\<lambda>evs.
     ebind (integer_of (field ''revision'' d) ''revision'') (\<lambda>rv.
     ebind (number_of (field ''active_elapsed_seconds'' d) ''active_elapsed_seconds'') (\<lambda>el.
     ebind (unless_none (\<lambda>v. datetime_of v ''active_started_at'') (field ''active_started_at'' d)) (\<lambda>act.
     ebind (string_mapping (field ''propagation_context'' d) ''propagation_context'') (\<lambda>prop.
     ebind (if version = 1 then Inr [] else ebind (sequence_of (field ''external_state_refs'' d) ''external_state_refs'')
       (each (\<lambda>x. ebind (mapping_of x ''external_state_refs item'') decode_ref))) (\<lambda>refs.
     ebind (datetime_of (field ''started_at'' d) ''started_at'') (\<lambda>sta.
     ebind (datetime_of (field ''updated_at'' d) ''updated_at'') (\<lambda>upd.
     let c = \<lparr>request = req, run_id = rid, status = st, records = recs, feedback = fb, current_plan = pl,
       current_step_index = idx, cycle_count = cyc, total_attempts = att, completed_steps = don,
       stop_reason_of = sr, error = err, pending_interaction = pend, human_interactions = hum,
       approved_step_ids = set ids, replan_required = rep, completion_approved = capp,
       active_operation_id = opid, pending_execution = pex, pending_attempt = patt, last_heartbeat_at = hb,
       event_sequence = evs, revision = rv, active_elapsed_seconds = el, active_started_at = act,
       propagation_context = prop, external_state_refs = refs, started_at = sta, updated_at = upd\<rparr>
     in ebind (validate_context c) (\<lambda>_. Inr c))))))))))))))))))))))))))))))"

fun as_schema_error :: "exn \<Rightarrow> exn" where
  "as_schema_error (ValueError m) = CheckpointSchema (''invalid checkpoint: '' @ m)"
| "as_schema_error (KeyError m) = CheckpointSchema (''invalid checkpoint: '' @ m)"
| "as_schema_error e = e"

definition decode :: "metadata \<Rightarrow> exn + loop_context" where
  "decode p = map_sum as_schema_error id
     (ebind (checkpoint_version p) (\<lambda>v.
      ebind (mapping_of (field ''context'' p) ''context'') (decode_context v)))"

text \<open>\<open>json.dumps\<close> and \<open>json.loads\<close> as parameters; \<open>None\<close> is a text that is no JSON.\<close>

definition dumps :: "(pyval \<Rightarrow> string) \<Rightarrow> loop_context \<Rightarrow> exn + string" where
  "dumps to_text c = map_sum id (\<lambda>p. to_text (PDict p)) (encode c)"

definition loads :: "(string \<Rightarrow> pyval option) \<Rightarrow> string \<Rightarrow> exn + loop_context" where
  "loads of_text s = (case of_text s of
     None \<Rightarrow> schema_error ''invalid checkpoint JSON'' | Some v \<Rightarrow> ebind (mapping_of v ''root'') decode)"

end
