(* ===== verification/CodecFacts.thy ===== *)
theory CodecFacts
  imports CheckpointCodec
begin

text \<open>
  Well-formed parts of a context, in the terms of their constructors, and the two halves of the
  codec's correctness for each of them: what is encoded is decoded to itself, and what is decoded
  is well-formed.
\<close>

section \<open>Values\<close>

fun plain :: "pyval \<Rightarrow> bool" and plain_list :: "pyval list \<Rightarrow> bool" and plain_items :: "metadata \<Rightarrow> bool" where
  "plain (PFloat x) = isfinite x"
| "plain (PDict ds) = plain_items ds"
| "plain (PList xs) = plain_list xs"
| "plain (POther t) = False"
| "plain v = True"
| "plain_list [] = True"
| "plain_list (x # xs) = (plain x \<and> plain_list xs)"
| "plain_items [] = True"
| "plain_items ((k, v) # ds) = ((case k of PStr _ \<Rightarrow> True | _ \<Rightarrow> False) \<and> plain v \<and> plain_items ds)"

lemma map_sum_Inr: "map_sum id g r = Inr y \<longleftrightarrow> (\<exists>x. r = Inr x \<and> y = g x)"
  by (cases r) auto

lemma json_plain:
  "json_value v p = Inr w \<longleftrightarrow> plain v \<and> w = v"
  "json_list xs p = Inr ys \<longleftrightarrow> plain_list xs \<and> ys = xs"
  "json_items ds p = Inr es \<longleftrightarrow> plain_items ds \<and> es = ds"
  by (induction v p and xs p and ds p arbitrary: w and ys and es
    rule: json_value_json_list_json_items.induct) (auto simp: ebind_Inr map_sum_Inr split: pyval.splits)

lemma json_dict: "json_value (PDict ds) p = Inr w \<longleftrightarrow> plain_items ds \<and> w = PDict ds"
  by (simp only: json_plain plain.simps)

lemma plain_items_keys: "plain_items ds \<Longrightarrow> list_all (\<lambda>(k, _). case k of PStr _ \<Rightarrow> True | _ \<Rightarrow> False) ds"
  by (induction ds) auto

lemma metadata_of_Inr: "metadata_of v n = Inr m \<longleftrightarrow> plain_items m \<and> v = PDict m"
  using plain_items_keys by (auto simp: metadata_of_def ebind_Inr json_plain mapping_of_def split: pyval.splits)

lemma mapping_of_Inr: "mapping_of v n = Inr d \<Longrightarrow> v = PDict d"
  by (simp add: mapping_of_def split: pyval.splits if_splits)

lemma mapping_of_obj [simp]: "mapping_of (obj fs) n = Inr (map (\<lambda>(k, v). (PStr k, v)) fs)"
  by (auto simp: mapping_of_def obj_def list_all_iff)

lemma field_simps [simp]:
  "field n [] = PNone"
  "field n ((PStr k, v) # ds) = (if k = n then v else field n ds)"
  by (simp_all add: field_def)

lemma json_items_plain [simp]: "plain_items ds \<Longrightarrow> json_items ds p = Inr ds"
  by (simp add: json_plain)

lemma text_of_PStr [simp]: "text_of e (PStr s) n = Inr t \<longleftrightarrow> (e \<or> \<not> blank s) \<and> t = s"
  by (auto simp: text_of_def)

lemma text_of_Inr: "text_of e v n = Inr s \<longleftrightarrow> v = PStr s \<and> (e \<or> \<not> blank s)"
  by (auto simp: text_of_def split: pyval.splits)

lemma each_Inr: "each f xs = Inr ys \<longleftrightarrow> list_all2 (\<lambda>x y. f x = Inr y) xs ys"
  by (induction xs arbitrary: ys) (auto simp: ebind_Inr list_all2_Cons1)

lemma each_map: "(\<And>x. x \<in> set xs \<Longrightarrow> f (g x) = Inr x) \<Longrightarrow> each f (map g xs) = Inr xs"
  by (induction xs) auto

lemma each_all: "each f xs = Inr ys \<Longrightarrow> (\<And>x y. f x = Inr y \<Longrightarrow> P y) \<Longrightarrow> list_all P ys"
  by (induction xs arbitrary: ys) (auto simp: ebind_Inr)

lemma sequence_of_Inr: "sequence_of v n = Inr xs \<longleftrightarrow> v = PList xs"
  by (auto simp: sequence_of_def split: pyval.splits)

lemma string_tuple_texts [simp]: "string_tuple (texts xs) n = Inr xs \<longleftrightarrow> \<not> list_ex blank xs"
  by (induction xs) (auto simp: string_tuple_def sequence_of_def ebind_Inr)

lemma string_tuple_Inr: "string_tuple v n = Inr xs \<Longrightarrow> v = texts xs \<and> \<not> list_ex blank xs"
proof -
  assume "string_tuple v n = Inr xs"
  then obtain ys where v: "v = PList ys" and "each (\<lambda>x. text_of False x n) ys = Inr xs"
    by (auto simp: string_tuple_def ebind_Inr sequence_of_Inr)
  from this(2) have "ys = map PStr xs \<and> \<not> list_ex blank xs"
    by (induction ys arbitrary: xs) (auto simp: ebind_Inr text_of_Inr)
  with v show ?thesis by simp
qed

lemma integer_of_Inr [simp]: "integer_of v n = Inr i \<longleftrightarrow> v = PInt i"
  by (auto simp: integer_of_def split: pyval.splits)

lemma boolean_of_Inr [simp]: "boolean_of v n = Inr b \<longleftrightarrow> v = PBool b"
  by (auto simp: boolean_of_def split: pyval.splits)

lemma number_of_float [simp]: "number_of (PFloat (Fin r)) n = Inr r"
  by (simp add: number_of_def)

lemma blank_all: "blank s \<longleftrightarrow> list_all is_space s"
proof -
  have "strip s = [] \<longleftrightarrow> (\<forall>c \<in> set (dropWhile is_space s). is_space c)"
    by (simp add: strip_def dropWhile_eq_Nil_conv)
  also have "\<dots> \<longleftrightarrow> dropWhile is_space s = []"
    by (metis dropWhile_eq_Nil_conv hd_dropWhile hd_in_set empty_iff list.set(1))
  finally show ?thesis
    by (simp add: blank_def dropWhile_eq_Nil_conv list_all_iff)
qed

lemma datetime_of_iso [simp]:
  "valid_datetime d \<Longrightarrow> dt_offset d \<noteq> None \<Longrightarrow> datetime_of (PStr (isoformat d)) n = Inr d"
proof -
  have "CHR ''T'' \<in> set (isoformat d)" and "\<not> is_space CHR ''T''"
    by (simp_all add: isoformat_def is_space_def)
  then have "\<not> blank (isoformat d)"
    by (auto simp: blank_all list_all_iff)
  assume "valid_datetime d" and "dt_offset d \<noteq> None"
  with \<open>\<not> blank _\<close> show ?thesis by (simp add: datetime_of_def text_of_def fromisoformat_isoformat)
qed

lemma datetime_of_Inr: "datetime_of v n = Inr d \<Longrightarrow> valid_datetime d \<and> dt_offset d \<noteq> None"
  by (auto simp: datetime_of_def ebind_Inr fromisoformat_def Let_def bind_eq_Some_conv
      split: option.splits if_splits prod.splits)

lemma unless_none_Inr: "unless_none f v = Inr x \<Longrightarrow> (\<And>y. f v = Inr y \<Longrightarrow> P y) \<Longrightarrow> pred_option P x"
  by (cases v) (auto simp: unless_none_def map_sum_Inr)

lemma unless_none_or:
  "(\<And>y. x = Some y \<Longrightarrow> f (g y) = Inr y \<and> g y \<noteq> PNone) \<Longrightarrow> unless_none f (none_or g x) = Inr x"
  by (cases x) (auto simp: unless_none_def none_or_def split: pyval.split)

lemma status_value_back [simp]: "loop_status_of (status_value s) = Inr s"
  by (cases s) (simp_all add: loop_status_of_def enum_of_def)

lemma status_value_not_blank [simp]: "\<not> blank (status_value s)"
  by (cases s) (simp_all add: blank_all is_space_def)

lemma stop_reason_value_back [simp]: "stop_reason_of_text (stop_reason_value r) = Inr r"
  by (cases r) (simp_all add: stop_reason_of_text_def enum_of_def)

lemma stop_reason_value_not_blank [simp]: "\<not> blank (stop_reason_value r)"
  by (cases r) (simp_all add: blank_all is_space_def)

lemma human_kind_value_back [simp]: "human_kind_of (human_kind_value k) = Inr k"
  by (cases k) (simp_all add: human_kind_of_def enum_of_def)

lemma human_kind_value_not_blank [simp]: "\<not> blank (human_kind_value k)"
  by (cases k) (simp_all add: blank_all is_space_def)

lemma human_action_value_back [simp]: "human_action_of (human_action_value a) = Inr a"
  by (cases a) (simp_all add: human_action_of_def enum_of_def)

lemma human_action_value_not_blank [simp]: "\<not> blank (human_action_value a)"
  by (cases a) (simp_all add: blank_all is_space_def)

section \<open>Parts\<close>

abbreviation members :: "(string \<times> pyval) list \<Rightarrow> metadata" where
  "members fs \<equiv> map (\<lambda>(k, v). (PStr k, v)) fs"

text \<open>
  A part of a context with its two translations: a well-formed one is written as an object from
  which it is read back, and whatever is read is well-formed.
\<close>

locale part_codec =
  fixes enc :: "'a \<Rightarrow> exn + pyval" and dec :: "metadata \<Rightarrow> exn + 'a" and ok :: "'a \<Rightarrow> bool"
  assumes written: "ok x \<Longrightarrow> \<exists>fs. enc x = Inr (obj fs) \<and> dec (members fs) = Inr x"
    and read: "dec d = Inr x \<Longrightarrow> ok x"
begin

lemma written_value: "ok x \<Longrightarrow> \<exists>v. enc x = Inr v \<and> v \<noteq> PNone \<and> (\<forall>n. ebind (mapping_of v n) dec = Inr x)"
  using written [of x] by (auto simp: obj_def [of _] simp del: mapping_of_obj)
    (metis ebind_simps(1) mapping_of_obj obj_def pyval.distinct(11))

lemma written_list:
  "list_all ok xs \<Longrightarrow> \<exists>vs. each enc xs = Inr vs \<and> (\<forall>n. each (\<lambda>v. ebind (mapping_of v n) dec) vs = Inr xs)"
proof (induction xs)
  case (Cons x xs)
  then obtain vs v where "each enc xs = Inr vs" "\<forall>n. each (\<lambda>v. ebind (mapping_of v n) dec) vs = Inr xs"
      "enc x = Inr v" "\<forall>n. ebind (mapping_of v n) dec = Inr x"
    using written_value [of x] by auto
  then show ?case by (intro exI [of _ "v # vs"]) auto
qed simp

lemma written_optional:
  "pred_option ok x \<Longrightarrow> \<exists>v. optional enc x = Inr v
     \<and> (\<forall>n. unless_none (\<lambda>v. ebind (mapping_of v n) dec) (none_or id v) = Inr x)"
proof (cases x)
  case (Some y)
  assume "pred_option ok x"
  with Some obtain v where "enc y = Inr v" "v \<noteq> PNone" "\<forall>n. ebind (mapping_of v n) dec = Inr y"
    using written_value [of y] by auto
  then show ?thesis
    by (intro exI [of _ "Some v"]) (auto simp: optional_def Some unless_none_def none_or_def split: pyval.split)
qed (simp add: optional_def unless_none_def none_or_def)

lemma read_each: "each (\<lambda>v. ebind (mapping_of v n) dec) vs = Inr xs \<Longrightarrow> list_all ok xs"
  by (erule each_all) (auto simp: ebind_Inr intro: read)

lemma read_list: "ebind (sequence_of v m) (each (\<lambda>v. ebind (mapping_of v n) dec)) = Inr xs \<Longrightarrow> list_all ok xs"
  by (auto simp: ebind_Inr dest: read_each)

lemma read_optional: "unless_none (\<lambda>v. ebind (mapping_of v n) dec) v = Inr x \<Longrightarrow> pred_option ok x"
  by (erule unless_none_Inr) (auto simp: ebind_Inr intro: read)

end

end
