(* ===== verification/CodecParts.thy ===== *)
theory CodecParts
  imports CodecFacts
begin

text \<open>
  The parts of a context that are well-formed, by the validation of their own constructors, and
  the codec of each part as an instance of \<open>part_codec\<close>.
\<close>

section \<open>Well-formed parts\<close>

definition time_ok :: "datetime \<Rightarrow> bool" where
  "time_ok d \<longleftrightarrow> valid_datetime d \<and> dt_offset d \<noteq> None"

definition request_ok :: "loop_request \<Rightarrow> bool" where
  "request_ok r \<longleftrightarrow> new_LoopRequest (goal r) (acceptance_criteria r) (limits r) (req_metadata r) = Inr r
     \<and> new_LoopLimits (max_cycles (limits r)) (max_attempts (limits r)) (max_steps_per_plan (limits r))
         (timeout_seconds (limits r)) = Inr (limits r)
     \<and> plain_items (req_metadata r)"

definition ref_ok :: "state_ref \<Rightarrow> bool" where
  "ref_ok r \<longleftrightarrow> new_ExternalStateRef (ref_kind r) (ref_key r) (ref_revision r) (ref_checksum r)
     (ref_schema_version r) = Inr r"

definition interaction_ok :: "interaction \<Rightarrow> bool" where
  "interaction_ok i \<longleftrightarrow> new_HumanInteractionRequest (hi_kind i) (hi_prompt i) (hi_allowed_actions i)
       (hi_interaction_id i) (hi_step_id i) (hi_metadata i) (hi_created_at i) = Inr i
     \<and> plain_items (hi_metadata i) \<and> time_ok (hi_created_at i)"

definition response_ok :: "response \<Rightarrow> bool" where
  "response_ok r \<longleftrightarrow> new_HumanResponse (hr_interaction_id r) (hr_action r) (hr_content r)
       (hr_idempotency_key r) (hr_metadata r) (hr_responded_at r) = Inr r
     \<and> plain_items (hr_metadata r) \<and> time_ok (hr_responded_at r)"

definition human_record_ok :: "human_record \<Rightarrow> bool" where
  "human_record_ok x \<longleftrightarrow> new_HumanInteractionRecord (hx_request x) (hx_response x) (hx_recorded_at x) = Inr x
     \<and> interaction_ok (hx_request x) \<and> response_ok (hx_response x) \<and> time_ok (hx_recorded_at x)"

definition step_ok :: "plan_step \<Rightarrow> bool" where
  "step_ok s \<longleftrightarrow> new_PlanStep (description s) (executor s) (step_criteria s) (requires_approval s) (step_id s) = Inr s"

definition plan_ok :: "plan \<Rightarrow> bool" where
  "plan_ok p \<longleftrightarrow> list_all step_ok (steps p)"

definition artifact_ok :: "artifact \<Rightarrow> bool" where
  "artifact_ok a \<longleftrightarrow> new_ArtifactRef (art_name a) (art_uri a) (art_media_type a) (art_metadata a) = Inr a
     \<and> plain_items (art_metadata a)"

definition execution_ok :: "execution_result \<Rightarrow> bool" where
  "execution_ok x \<longleftrightarrow> list_all artifact_ok (ex_artifacts x) \<and> plain_items (ex_metadata x)"

definition verification_ok :: "verification_result \<Rightarrow> bool" where
  "verification_ok v \<longleftrightarrow> new_VerificationResult (passed v) (v_feedback v) (score v) (evidence v) (failed_criteria v)
     = Inr v"

definition record_ok :: "iteration_record \<Rightarrow> bool" where
  "record_ok r \<longleftrightarrow> new_IterationRecord (rec_cycle r) (rec_step_index r) (rec_step r) (rec_execution r)
       (rec_verification r) (rec_attempt r) = Inr r
     \<and> step_ok (rec_step r) \<and> execution_ok (rec_execution r) \<and> verification_ok (rec_verification r)"

section \<open>Instances\<close>

lemma timeout_back:
  "valid_timeout t \<Longrightarrow> unless_none (\<lambda>v. number_of v n) (none_or PFloat t) = Inr (map_option (\<lambda>x. case x of Fin r \<Rightarrow> r | _ \<Rightarrow> 0) t)
     \<and> map_option Fin (map_option (\<lambda>x. case x of Fin r \<Rightarrow> r | _ \<Rightarrow> 0) t) = t"
  by (auto simp: valid_timeout_def unless_none_def none_or_def elim!: isfiniteE split: option.splits)

lemma score_back:
  assumes "valid_score t"
  obtains s where "unless_none (\<lambda>v. number_of v n) (none_or PFloat t) = Inr s" "map_option Fin s = t"
proof (cases t)
  case (Some x)
  then obtain r where "x = Fin r" using assms by (cases x) (auto simp: valid_score_def)
  then show ?thesis using Some that [of "Some r"] by (simp add: unless_none_def none_or_def)
qed (use that [of None] in \<open>simp add: unless_none_def none_or_def\<close>)

lemma text_option_back:
  "(case x of None \<Rightarrow> True | Some s \<Rightarrow> \<not> blank s) \<Longrightarrow> unless_none (\<lambda>v. text_of False v n) (none_or PStr x) = Inr x"
  by (rule unless_none_or) simp

lemma text_option_read:
  "unless_none (\<lambda>v. text_of False v n) v = Inr x \<Longrightarrow> case x of None \<Rightarrow> True | Some s \<Rightarrow> \<not> blank s"
  by (cases v) (auto simp: unless_none_def map_sum_Inr text_of_Inr)

lemma time_back [simp]: "time_ok d \<Longrightarrow> datetime_of (PStr (isoformat d)) n = Inr d"
  by (simp add: time_ok_def)

lemma time_read: "datetime_of v n = Inr d \<Longrightarrow> time_ok d"
  by (auto simp: time_ok_def dest: datetime_of_Inr)

lemma metadata_back [simp]: "plain_items m \<Longrightarrow> metadata_of (PDict m) n = Inr m"
  by (simp add: metadata_of_Inr)

lemma text_back [simp]: "e \<or> \<not> blank s \<Longrightarrow> text_of e (PStr s) n = Inr s"
  by (auto simp: text_of_def)

lemma texts_back [simp]: "\<not> list_ex blank xs \<Longrightarrow> string_tuple (texts xs) n = Inr xs"
  by simp

lemma scalars_back [simp]: "integer_of (PInt i) n = Inr i" "boolean_of (PBool b) n = Inr b"
  by simp_all

lemma writtenI: "e = Inr (obj fs) \<Longrightarrow> f (members fs) = r \<Longrightarrow> \<exists>fs. e = Inr (obj fs) \<and> f (members fs) = r"
  by blast

lemmas part_oks = request_ok_def ref_ok_def interaction_ok_def response_ok_def human_record_ok_def
  step_ok_def plan_ok_def artifact_ok_def execution_ok_def verification_ok_def record_ok_def

interpretation refs: part_codec "\<lambda>r. Inr (encode_ref r)" decode_ref ref_ok
proof
  fix x :: state_ref
  assume "ref_ok x"
  then show "\<exists>fs. Inr (encode_ref x) = Inr (obj fs) \<and> decode_ref (members fs) = Inr x"
    by (intro writtenI [OF arg_cong [where f = Inr, OF encode_ref_def]])
      (simp add: decode_ref_def ref_ok_def new_ExternalStateRef_def)
next
  fix d x
  assume "decode_ref d = Inr x"
  then show "ref_ok x"
    by (auto simp: decode_ref_def ref_ok_def ebind_Inr new_ExternalStateRef_def)
qed

interpretation requests: part_codec encode_request decode_request request_ok
proof
  fix x :: loop_request
  assume ok: "request_ok x"
  then have t: "valid_timeout (timeout_seconds (limits x))"
    by (simp add: request_ok_def new_LoopLimits_def)
  show "\<exists>fs. encode_request x = Inr (obj fs) \<and> decode_request (members fs) = Inr x"
  proof (intro exI conjI)
    show "encode_request x = Inr (obj [(''goal'', PStr (goal x)), (''acceptance_criteria'', texts (acceptance_criteria x)),
        (''limits'', encode_limits (limits x)), (''metadata'', PDict (req_metadata x))])" (is "_ = Inr (obj ?fs)")
      using ok by (simp add: encode_request_def json_dict request_ok_def)
    show "decode_request (members ?fs) = Inr x"
      using ok timeout_back [OF t]
      by (simp add: decode_request_def decode_limits_def encode_limits_def request_ok_def new_LoopRequest_def)
  qed
next
  fix d x
  assume "decode_request d = Inr x"
  then show "request_ok x"
    by (auto simp: decode_request_def decode_limits_def request_ok_def ebind_Inr new_LoopRequest_def
        new_LoopLimits_def metadata_of_Inr)
qed

lemma actions_back [simp]:
  "each (\<lambda>x. ebind (text_of False x n) human_action_of) (map PStr (map human_action_value as)) = Inr as"
  by (induction as) auto

interpretation interactions: part_codec encode_interaction decode_interaction interaction_ok
proof
  fix x :: interaction
  assume ok: "interaction_ok x"
  show "\<exists>fs. encode_interaction x = Inr (obj fs) \<and> decode_interaction (members fs) = Inr x"
  proof (rule writtenI)
    show "encode_interaction x = Inr (obj
        [(''kind'', PStr (human_kind_value (hi_kind x))), (''prompt'', PStr (hi_prompt x)),
         (''allowed_actions'', texts (map human_action_value (hi_allowed_actions x))),
         (''interaction_id'', PStr (hi_interaction_id x)), (''step_id'', none_or PStr (hi_step_id x)),
         (''metadata'', PDict (hi_metadata x)), (''created_at'', PStr (isoformat (hi_created_at x)))])"
      (is "_ = Inr (obj ?fs)")
      using ok by (simp add: encode_interaction_def interaction_ok_def)
    show "decode_interaction (members ?fs) = Inr x"
      using ok text_option_back [of "hi_step_id x"] actions_back [of _ "hi_allowed_actions x"]
      by (simp add: decode_interaction_def interaction_ok_def new_HumanInteractionRequest_def sequence_of_def
          del: actions_back map_map)
  qed
next
  fix d x
  assume "decode_interaction d = Inr x"
  then show "interaction_ok x"
    by (auto simp: decode_interaction_def interaction_ok_def ebind_Inr new_HumanInteractionRequest_def
        metadata_of_Inr dest: time_read)
qed

interpretation responses: part_codec encode_response decode_response response_ok
proof
  fix x :: response
  assume ok: "response_ok x"
  show "\<exists>fs. encode_response x = Inr (obj fs) \<and> decode_response (members fs) = Inr x"
  proof (rule writtenI)
    show "encode_response x = Inr (obj
        [(''interaction_id'', PStr (hr_interaction_id x)), (''action'', PStr (human_action_value (hr_action x))),
         (''content'', PStr (hr_content x)), (''idempotency_key'', PStr (hr_idempotency_key x)),
         (''metadata'', PDict (hr_metadata x)), (''responded_at'', PStr (isoformat (hr_responded_at x)))])"
      (is "_ = Inr (obj ?fs)")
      using ok by (simp add: encode_response_def response_ok_def)
    show "decode_response (members ?fs) = Inr x"
      using ok by (simp add: decode_response_def response_ok_def new_HumanResponse_def)
  qed
next
  fix d x
  assume "decode_response d = Inr x"
  then show "response_ok x"
    by (auto simp: decode_response_def response_ok_def ebind_Inr new_HumanResponse_def metadata_of_Inr dest: time_read)
qed

interpretation human_records: part_codec encode_human_record decode_human_record human_record_ok
proof
  fix x :: human_record
  assume ok: "human_record_ok x"
  obtain req where req: "encode_interaction (hx_request x) = Inr req"
      "\<And>n. ebind (mapping_of req n) decode_interaction = Inr (hx_request x)"
    using interactions.written_value [of "hx_request x"] ok by (auto simp: human_record_ok_def)
  obtain resp where resp: "encode_response (hx_response x) = Inr resp"
      "\<And>n. ebind (mapping_of resp n) decode_response = Inr (hx_response x)"
    using responses.written_value [of "hx_response x"] ok by (auto simp: human_record_ok_def)
  show "\<exists>fs. encode_human_record x = Inr (obj fs) \<and> decode_human_record (members fs) = Inr x"
  proof (rule writtenI)
    show "encode_human_record x = Inr (obj [(''request'', req), (''response'', resp),
        (''recorded_at'', PStr (isoformat (hx_recorded_at x)))])" (is "_ = Inr (obj ?fs)")
      by (simp add: encode_human_record_def req resp)
    show "decode_human_record (members ?fs) = Inr x"
      using ok by (simp add: decode_human_record_def human_record_ok_def new_HumanInteractionRecord_def req resp)
  qed
next
  fix d x
  assume "decode_human_record d = Inr x"
  then show "human_record_ok x"
    by (auto simp: decode_human_record_def human_record_ok_def ebind_Inr new_HumanInteractionRecord_def
        dest: time_read intro: interactions.read responses.read)
qed

interpretation steps: part_codec "\<lambda>s. Inr (encode_step s)" decode_step step_ok
proof
  fix x :: plan_step
  assume "step_ok x"
  then show "\<exists>fs. Inr (encode_step x) = Inr (obj fs) \<and> decode_step (members fs) = Inr x"
    by (intro writtenI [OF arg_cong [where f = Inr, OF encode_step_def]])
      (simp add: decode_step_def step_ok_def new_PlanStep_def)
next
  fix d x
  assume "decode_step d = Inr x"
  then show "step_ok x"
    by (auto simp: decode_step_def step_ok_def ebind_Inr new_PlanStep_def dest: string_tuple_Inr)
qed

lemma each_pure: "each (\<lambda>x. Inr (f x)) xs = Inr (map f xs)"
  by (induction xs) auto

interpretation plans: part_codec "\<lambda>p. Inr (encode_plan p)" decode_plan plan_ok
proof
  fix x :: plan
  assume "plan_ok x"
  then have "each (\<lambda>v. ebind (mapping_of v n) decode_step) (map encode_step (steps x)) = Inr (steps x)" for n
    using steps.written_list [of "steps x"] by (auto simp: plan_ok_def each_pure)
  then show "\<exists>fs. Inr (encode_plan x) = Inr (obj fs) \<and> decode_plan (members fs) = Inr x"
    by (intro writtenI [OF arg_cong [where f = Inr, OF encode_plan_def]])
      (simp add: decode_plan_def sequence_of_def)
next
  fix d x
  assume "decode_plan d = Inr x"
  then show "plan_ok x"
    by (auto simp: decode_plan_def plan_ok_def ebind_Inr [of _ "\<lambda>ss. Inr \<lparr>steps = ss\<rparr>"] intro: steps.read_list)
qed

interpretation artifacts: part_codec encode_artifact decode_artifact artifact_ok
proof
  fix x :: artifact
  assume ok: "artifact_ok x"
  show "\<exists>fs. encode_artifact x = Inr (obj fs) \<and> decode_artifact (members fs) = Inr x"
  proof (rule writtenI)
    show "encode_artifact x = Inr (obj [(''name'', PStr (art_name x)), (''uri'', PStr (art_uri x)),
        (''media_type'', none_or PStr (art_media_type x)), (''metadata'', PDict (art_metadata x))])"
      (is "_ = Inr (obj ?fs)")
      using ok by (simp add: encode_artifact_def artifact_ok_def)
    show "decode_artifact (members ?fs) = Inr x"
      using ok text_option_back [of "art_media_type x"]
      by (simp add: decode_artifact_def artifact_ok_def new_ArtifactRef_def)
  qed
next
  fix d x
  assume "decode_artifact d = Inr x"
  then show "artifact_ok x"
    by (auto simp: decode_artifact_def artifact_ok_def ebind_Inr new_ArtifactRef_def metadata_of_Inr)
qed

interpretation executions: part_codec encode_execution decode_execution execution_ok
proof
  fix x :: execution_result
  assume ok: "execution_ok x"
  then obtain arts where arts: "each encode_artifact (ex_artifacts x) = Inr arts"
      "\<And>n. each (\<lambda>v. ebind (mapping_of v n) decode_artifact) arts = Inr (ex_artifacts x)"
    using artifacts.written_list [of "ex_artifacts x"] by (auto simp: execution_ok_def)
  show "\<exists>fs. encode_execution x = Inr (obj fs) \<and> decode_execution (members fs) = Inr x"
  proof (rule writtenI)
    show "encode_execution x = Inr (obj [(''output'', PStr (ex_output x)), (''artifacts'', PList arts),
        (''metadata'', PDict (ex_metadata x))])" (is "_ = Inr (obj ?fs)")
      using ok by (simp add: encode_execution_def execution_ok_def arts)
    show "decode_execution (members ?fs) = Inr x"
      using ok by (simp add: decode_execution_def execution_ok_def sequence_of_def arts)
  qed
next
  fix d x
  assume "decode_execution d = Inr x"
  then show "execution_ok x"
    by (auto simp: decode_execution_def execution_ok_def ebind_Inr metadata_of_Inr dest: artifacts.read_each)
qed

lemma verification_back:
  assumes "verification_ok v"
  shows "\<exists>fs. encode_verification v = obj fs \<and> field ''passed'' (members fs) = PBool (passed v)
    \<and> decode_verification (members fs) (passed v) = Inr v"
proof -
  have "valid_score (score v)" using assms by (simp add: verification_ok_def new_VerificationResult_def)
  from score_back [OF this] obtain s where
    "unless_none (\<lambda>x. number_of x ''verification.score'') (none_or PFloat (score v)) = Inr s" "map_option Fin s = score v" .
  then show ?thesis
    using assms
    by (intro exI [of _ "[(''passed'', PBool (passed v)), (''feedback'', PStr (v_feedback v)),
        (''score'', none_or PFloat (score v)), (''evidence'', texts (evidence v)),
        (''failed_criteria'', texts (failed_criteria v))]"])
      (simp add: encode_verification_def decode_verification_def verification_ok_def new_VerificationResult_def)
qed

lemma verification_read: "decode_verification d p = Inr v \<Longrightarrow> verification_ok v"
  by (auto simp: decode_verification_def verification_ok_def ebind_Inr new_VerificationResult_def)

interpretation iterations: part_codec encode_record decode_record record_ok
proof
  fix x :: iteration_record
  assume ok: "record_ok x"
  then obtain ex where ex: "encode_execution (rec_execution x) = Inr (obj ex)"
      "decode_execution (members ex) = Inr (rec_execution x)"
    using executions.written [of "rec_execution x"] by (auto simp: record_ok_def)
  obtain ver where ver: "encode_verification (rec_verification x) = obj ver"
      "field ''passed'' (members ver) = PBool (passed (rec_verification x))"
      "decode_verification (members ver) (passed (rec_verification x)) = Inr (rec_verification x)"
    using verification_back [of "rec_verification x"] ok by (auto simp: record_ok_def)
  obtain st where st: "encode_step (rec_step x) = obj st" "decode_step (members st) = Inr (rec_step x)"
    using steps.written [of "rec_step x"] ok by (auto simp: record_ok_def)
  show "\<exists>fs. encode_record x = Inr (obj fs) \<and> decode_record (members fs) = Inr x"
  proof (rule writtenI)
    show "encode_record x = Inr (obj [(''cycle'', PInt (rec_cycle x)), (''step_index'', PInt (rec_step_index x)),
        (''step'', obj st), (''execution'', obj ex), (''verification'', obj ver), (''attempt'', PInt (rec_attempt x))])"
      (is "_ = Inr (obj ?fs)")
      by (simp add: encode_record_def ex ver st)
    show "decode_record (members ?fs) = Inr x"
      using ok by (simp add: decode_record_def record_ok_def new_IterationRecord_def ex ver st)
  qed
next
  fix d x
  assume "decode_record d = Inr x"
  then show "record_ok x"
    by (auto simp: decode_record_def record_ok_def ebind_Inr new_IterationRecord_def
        intro: steps.read executions.read verification_read)
qed

section \<open>Well-formed contexts\<close>

definition context_ok :: "loop_context \<Rightarrow> bool" where
  "context_ok c \<longleftrightarrow> request_ok (request c) \<and> \<not> blank (run_id c) \<and> list_all record_ok (records c)
     \<and> pred_option plan_ok (current_plan c) \<and> pred_option interaction_ok (pending_interaction c)
     \<and> list_all human_record_ok (human_interactions c)
     \<and> finite (approved_step_ids c) \<and> (\<forall>i \<in> approved_step_ids c. \<not> blank i)
     \<and> pred_option (\<lambda>s. \<not> blank s) (active_operation_id c) \<and> pred_option execution_ok (pending_execution c)
     \<and> pred_option time_ok (last_heartbeat_at c) \<and> pred_option time_ok (active_started_at c)
     \<and> (\<forall>(k, v) \<in> set (propagation_context c). \<not> blank v)
     \<and> list_all ref_ok (external_state_refs c) \<and> time_ok (started_at c) \<and> time_ok (updated_at c)
     \<and> validate_context c = Inr ()"

lemma strings_back:
  assumes "\<forall>(k, v) \<in> set d. \<not> blank v"
  shows "encode_strings d n = Inr (obj (map (\<lambda>(k, v). (k, PStr v)) d))"
    and "string_mapping (obj (map (\<lambda>(k, v). (k, PStr v)) d)) n = Inr d"
proof -
  have "each (\<lambda>(k, x). case k of PStr s \<Rightarrow> map_sum id (Pair s) (text_of False x (n @ ''.'' @ s))
        | _ \<Rightarrow> schema_error (n @ '' contains a non-string key'')) (members (map (\<lambda>(k, v). (k, PStr v)) d)) = Inr d"
    using assms by (induction d) auto
  then show "string_mapping (obj (map (\<lambda>(k, v). (k, PStr v)) d)) n = Inr d"
    by (simp only: string_mapping_def mapping_of_obj ebind_simps)
  then show "encode_strings d n = Inr (obj (map (\<lambda>(k, v). (k, PStr v)) d))"
    by (simp add: encode_strings_def)
qed

lemma strings_read: "string_mapping v n = Inr d \<Longrightarrow> \<forall>(k, x) \<in> set d. \<not> blank x"
proof -
  assume "string_mapping v n = Inr d"
  then obtain ds where "each (\<lambda>(k, x). case k of PStr s \<Rightarrow> map_sum id (Pair s) (text_of False x (n @ ''.'' @ s))
      | _ \<Rightarrow> schema_error (n @ '' contains a non-string key'')) ds = Inr d"
    by (auto simp: string_mapping_def ebind_Inr)
  then have "list_all (\<lambda>(k, x). \<not> blank x) d"
    by (rule each_all) (auto simp: map_sum_Inr text_of_Inr split: pyval.splits prod.splits)
  then show ?thesis by (simp add: list_all_iff)
qed

end
