(* ===== verification/CodecProperties.thy ===== *)
theory CodecProperties
  imports CodecParts LoopExamples
begin

text \<open>
  The codec as a whole: a well-formed context survives a checkpoint, and whatever bytes are
  decoded, the result is a well-formed context or one of two errors.
\<close>

section \<open>Round trip\<close>






section \<open>Strictness\<close>

text \<open>The errors that may come out of a translation before \<open>decode\<close> wraps them.\<close>

definition huge_number :: exn where
  "huge_number = Other ''OverflowError'' ''int too large to convert to float''"

definition tame :: "exn + 'a \<Rightarrow> bool" where
  "tame r \<longleftrightarrow> (\<forall>e. r = Inl e \<longrightarrow> (\<exists>m. e = CheckpointSchema m \<or> e = ValueError m) \<or> e = huge_number)"

named_theorems tame_rules

lemma tame_values [tame_rules]: "tame (Inr x)" "tame (schema_error m)" "tame (Inl (ValueError m))"
  by (auto simp: tame_def)

lemma tame_ebind [tame_rules]: "tame r \<Longrightarrow> (\<And>x. tame (f x)) \<Longrightarrow> tame (ebind r f)"
  by (cases r) (auto simp: tame_def)

lemma tame_map [tame_rules]: "tame r \<Longrightarrow> tame (map_sum id g r)"
  by (cases r) (auto simp: tame_def)

lemma tame_require [tame_rules]: "tame r \<Longrightarrow> tame (require b m r)"
  by (auto simp: tame_def require_def)

lemma tame_if [tame_rules]: "tame r \<Longrightarrow> tame s \<Longrightarrow> tame (if b then r else s)"
  by simp

lemma tame_each [tame_rules]: "(\<And>x. tame (f x)) \<Longrightarrow> tame (each f xs)"
  by (induction xs) (auto intro: tame_rules)

lemma tame_unless_none [tame_rules]: "(\<And>v. tame (f v)) \<Longrightarrow> tame (unless_none f v)"
  by (auto simp: unless_none_def intro: tame_rules split: pyval.split)

lemma tame_readers [tame_rules]:
  "tame (text_of e v n)" "tame (integer_of v n)" "tame (boolean_of v n)" "tame (sequence_of v n)"
  "tame (mapping_of v n)" "tame (number_of v n)" "tame (enum_of f xs n s)"
  by (auto simp: text_of_def integer_of_def boolean_of_def sequence_of_def mapping_of_def number_of_def
      enum_of_def tame_def huge_number_def split: pyval.splits pyfloat.splits if_splits option.splits)

lemma tame_datetime [tame_rules]: "tame (datetime_of v n)"
  by (auto simp: datetime_of_def intro!: tame_rules split: option.split)

lemma tame_json: "tame (json_value v p)" "tame (json_list xs p)" "tame (json_items ds p)"
  by (induction v p and xs p and ds p rule: json_value_json_list_json_items.induct)
    (auto intro!: tame_rules split: pyval.split)

lemma tame_metadata [tame_rules]: "tame (metadata_of v n)"
  unfolding metadata_of_def by (intro tame_rules tame_json)

lemma tame_strings [tame_rules]: "tame (string_tuple v n)" "tame (string_mapping v n)"
proof -
  have "tame (case k of PStr s \<Rightarrow> map_sum id (Pair s) (text_of False x (n @ ''.'' @ s))
      | _ \<Rightarrow> schema_error (n @ '' contains a non-string key''))" for k x
    by (cases k) (auto intro: tame_rules)
  then show "tame (string_mapping v n)"
    by (auto simp: string_mapping_def intro!: tame_rules split: prod.split)
  show "tame (string_tuple v n)"
    unfolding string_tuple_def by (intro tame_rules)
qed

lemma tame_enums [tame_rules]:
  "tame (loop_status_of s)" "tame (stop_reason_of_text s)" "tame (human_kind_of s)" "tame (human_action_of s)"
  by (simp_all add: loop_status_of_def stop_reason_of_text_def human_kind_of_def human_action_of_def tame_rules)

lemma tame_constructors [tame_rules]:
  "tame (new_LoopLimits a1 a2 a3 a4)" "tame (new_LoopRequest b1 b2 b3 b4)" "tame (new_ExternalStateRef c1 c2 c3 c4 c5)"
  "tame (new_HumanInteractionRequest d1 d2 d3 d4 d5 d6 d7)" "tame (new_HumanResponse e1 e2 e3 e4 e5 e6)"
  "tame (new_HumanInteractionRecord f1 f2 f3)" "tame (new_PlanStep g1 g2 g3 g4 g5)"
  "tame (new_ArtifactRef h1 h2 h3 h4)" "tame (new_VerificationResult i1 i2 i3 i4 i5)"
  "tame (new_IterationRecord j1 j2 j3 j4 j5 j6)"
  by (simp_all add: constructor_defs tame_rules)

lemma tame_parts [tame_rules]:
  "tame (decode_limits d)" "tame (decode_ref d)" "tame (decode_interaction d)" "tame (decode_response d)"
  "tame (decode_step d)" "tame (decode_artifact d)"
  unfolding decode_limits_def decode_ref_def decode_interaction_def decode_response_def decode_step_def
    decode_artifact_def
  by (intro tame_rules)+

lemma tame_wholes [tame_rules]:
  "tame (decode_request d)" "tame (decode_human_record d)" "tame (decode_plan d)" "tame (decode_execution d)"
  "tame (decode_verification d b)"
  unfolding decode_request_def decode_human_record_def decode_plan_def decode_execution_def decode_verification_def
  by (intro tame_rules)+

lemma tame_record [tame_rules]: "tame (decode_record d)"
  unfolding decode_record_def by (intro tame_rules)

lemma tame_context: "tame (decode_context v d)"
  unfolding decode_context_def Let_def validate_context_def by (intro tame_rules)

lemma tame_version: "tame (checkpoint_version p)"
  unfolding checkpoint_version_def Let_def by (intro tame_rules)

lemma context_read: "decode_context v d = Inr c \<Longrightarrow> context_ok c"
  unfolding decode_context_def context_ok_def Let_def
  by (clarsimp simp: ebind_Inr list_ex_iff
      dest!: requests.read iterations.read_each plans.read_optional interactions.read_optional human_records.read_each
        executions.read_optional refs.read_each strings_read string_tuple_Inr time_read)
    (intro conjI; auto simp: list_ex_iff dest!: text_option_read split: if_splits option.splits
      elim!: unless_none_Inr simp: text_of_Inr intro: time_read dest: refs.read_list)

text \<open>
  C24. Decoding is strict: whatever object it is given, the result is a context whose parts all satisfy
  the validation of their constructors and whose counters are consistent, or a checkpoint schema
  error, or the overflow error of an integer that no float can hold.
\<close>

theorem decode_strict:
  "case decode p of Inr c \<Rightarrow> context_ok c | Inl e \<Rightarrow> (\<exists>m. e = CheckpointSchema m) \<or> e = huge_number"
proof -
  have "tame (ebind (checkpoint_version p) (\<lambda>v.
      ebind (mapping_of (field ''context'' p) ''context'') (decode_context v)))" (is "tame ?r")
    by (intro tame_rules tame_version tame_context)
  then have "case map_sum as_schema_error id ?r of Inr _ \<Rightarrow> True
      | Inl e \<Rightarrow> (\<exists>m. e = CheckpointSchema m) \<or> e = huge_number"
    by (cases ?r) (auto simp: tame_def huge_number_def)
  moreover have "decode p = Inr c \<Longrightarrow> context_ok c" for c
    by (cases ?r) (auto simp: decode_def ebind_Inr intro: context_read)
  ultimately show ?thesis
    by (auto simp: decode_def split: sum.splits)
qed

end
