(* ===== verification/ModelTypes.thy ===== *)
theory ModelTypes
  imports LoopModels
begin

text \<open>
  The provider-independent values of \<open>matterloop_models/base.py\<close>: messages, tools, token usage,
  requests and responses, with the checks of their constructors. The argument of \<open>new_<Class>\<close> is
  the record of the constructor's arguments; fresh item identifiers are among them. The type tests
  (\<open>isinstance\<close>) hold by typing.
\<close>

section \<open>Messages and input items\<close>

datatype message_role = DEVELOPER | SYSTEM | USER | ASSISTANT

fun role_value :: "message_role \<Rightarrow> string" where
  "role_value DEVELOPER = ''developer''"
| "role_value SYSTEM = ''system''"
| "role_value USER = ''user''"
| "role_value ASSISTANT = ''assistant''"

datatype tool_choice = TC_AUTO | TC_NONE | TC_REQUIRED

datatype context_mode = CM_REPLACE | CM_APPEND

datatype item_category = IC_SYSTEM | IC_GOAL | IC_WORKING_MEMORY | IC_HISTORY | IC_TOOL_RESULT | IC_AGENT_STATE

datatype item_retention = IR_PINNED | IR_RECENT | IR_SUMMARIZABLE | IR_EXTERNALIZED

record context_scope =
  cs_run_id :: string
  cs_participant :: string
  cs_tenant_id :: string
  cs_task_id :: "string option"
  cs_invocation_id :: "string option"

definition new_ModelContextScope :: "context_scope \<Rightarrow> exn + context_scope" where
  "new_ModelContextScope s =
     require (\<not> blank (cs_run_id s)) ''context scope run_id must not be empty'' (
     require (\<not> blank (cs_participant s)) ''context scope participant must not be empty'' (
     require (\<not> blank (cs_tenant_id s)) ''context scope tenant_id must not be empty'' (
     require (case cs_task_id s of None \<Rightarrow> True | Some t \<Rightarrow> \<not> blank t) ''context scope task_id must not be empty'' (
     require (case cs_invocation_id s of None \<Rightarrow> True | Some t \<Rightarrow> \<not> blank t)
       ''context scope invocation_id must not be empty'' (
     Inr \<lparr>cs_run_id = strip (cs_run_id s), cs_participant = strip (cs_participant s),
       cs_tenant_id = strip (cs_tenant_id s), cs_task_id = map_option strip (cs_task_id s),
       cs_invocation_id = map_option strip (cs_invocation_id s)\<rparr>)))))"

record model_message =
  mm_role :: message_role
  mm_content :: string
  mm_name :: "string option"

definition new_ModelMessage :: "model_message \<Rightarrow> exn + model_message" where
  "new_ModelMessage m =
     require (\<not> blank (mm_content m)) ''message content must not be empty'' (
     require (case mm_name m of None \<Rightarrow> True | Some n \<Rightarrow> \<not> blank n) ''message name must not be empty'' (Inr m))"

record message_item =
  mi_role :: message_role
  mi_content :: string
  mi_name :: "string option"
  mi_category :: "item_category option"
  mi_retention :: "item_retention option"
  mi_item_id :: string
  mi_metadata :: metadata

text \<open>System and developer messages are pinned unless the caller says otherwise.\<close>

definition new_ModelMessageItem :: "message_item \<Rightarrow> exn + message_item" where
  "new_ModelMessageItem m =
     require (\<not> blank (mi_content m)) ''message item content must not be empty'' (
     require (case mi_name m of None \<Rightarrow> True | Some n \<Rightarrow> \<not> blank n) ''message item name must not be empty'' (
     require (\<not> blank (mi_item_id m)) ''message item id must not be empty'' (
     let protected = mi_role m \<in> {SYSTEM, DEVELOPER} in
     Inr (m\<lparr>mi_category := Some (case mi_category m of Some c \<Rightarrow> c
              | None \<Rightarrow> if protected then IC_SYSTEM else IC_HISTORY),
            mi_retention := Some (case mi_retention m of Some r \<Rightarrow> r
              | None \<Rightarrow> if protected then IR_PINNED else IR_SUMMARIZABLE)\<rparr>))))"

record tool_call_item =
  ci_call_id :: string
  ci_name :: string
  ci_arguments :: metadata
  ci_category :: item_category
  ci_retention :: item_retention
  ci_item_id :: string
  ci_metadata :: metadata

definition new_ModelToolCallItem :: "tool_call_item \<Rightarrow> exn + tool_call_item" where
  "new_ModelToolCallItem c =
     require (\<not> (blank (ci_call_id c) \<or> blank (ci_name c) \<or> blank (ci_item_id c)))
       ''tool call item identifiers must not be empty'' (Inr c)"

record tool_output_item =
  oi_call_id :: string
  oi_output :: string
  oi_is_error :: bool
  oi_artifact_uri :: "string option"
  oi_category :: item_category
  oi_retention :: item_retention
  oi_item_id :: string
  oi_metadata :: metadata

definition new_ModelToolOutputItem :: "tool_output_item \<Rightarrow> exn + tool_output_item" where
  "new_ModelToolOutputItem x =
     require (\<not> (blank (oi_call_id x) \<or> blank (oi_item_id x))) ''tool output item identifiers must not be empty'' (
     require (case oi_artifact_uri x of None \<Rightarrow> True | Some u \<Rightarrow> \<not> blank u)
       ''tool output artifact URI must not be empty'' (Inr x))"

record compaction_item =
  pi_payload :: string
  pi_provider :: string
  pi_model :: string
  pi_native :: bool
  pi_category :: item_category
  pi_retention :: item_retention
  pi_item_id :: string
  pi_metadata :: metadata

definition new_ModelCompactionItem :: "compaction_item \<Rightarrow> exn + compaction_item" where
  "new_ModelCompactionItem x =
     require (\<not> (pi_payload x = [] \<or> blank (pi_provider x) \<or> blank (pi_model x)))
       ''compaction payload, provider, and model must not be empty'' (
     require (\<not> blank (pi_item_id x)) ''compaction item id must not be empty'' (Inr x))"

datatype input_item =
    MessageItem message_item
  | ToolCallItem tool_call_item
  | ToolOutputItem tool_output_item
  | CompactionItem compaction_item

section \<open>Tools and usage\<close>

record tool_definition =
  td_name :: string
  td_description :: string
  td_parameters :: metadata
  td_strict :: bool

definition new_ToolDefinition :: "tool_definition \<Rightarrow> exn + tool_definition" where
  "new_ToolDefinition d =
     require (\<not> blank (td_name d)) ''tool name must not be empty'' (
     require (\<not> blank (td_description d)) ''tool description must not be empty'' (Inr d))"

record tool_call =
  tc_call_id :: string
  tc_name :: string
  tc_arguments :: metadata

definition new_ToolCall :: "tool_call \<Rightarrow> exn + tool_call" where
  "new_ToolCall c =
     require (\<not> blank (tc_call_id c)) ''tool call id must not be empty'' (
     require (\<not> blank (tc_name c)) ''tool call name must not be empty'' (Inr c))"

record tool_output =
  to_call_id :: string
  to_output :: string
  to_is_error :: bool

definition new_ToolOutput :: "tool_output \<Rightarrow> exn + tool_output" where
  "new_ToolOutput x = require (\<not> blank (to_call_id x)) ''tool output call id must not be empty'' (Inr x)"

record token_usage =
  tu_input :: int
  tu_output :: int
  tu_total :: int
  tu_cache_hit :: int
  tu_cache_miss :: int
  tu_reasoning :: int

definition usage_values :: "token_usage \<Rightarrow> int list" where
  "usage_values u = [tu_input u, tu_output u, tu_total u, tu_cache_hit u, tu_cache_miss u, tu_reasoning u]"

definition new_TokenUsage :: "token_usage \<Rightarrow> exn + token_usage" where
  "new_TokenUsage u =
     require (\<not> list_ex (\<lambda>v. v < 0) (usage_values u)) ''token usage must not be negative'' (Inr u)"

section \<open>Requests and responses\<close>

text \<open>An opaque continuation: the identity of the object (\<open>id\<close>) and its provider.\<close>

record continuation =
  cont_id :: nat
  cont_provider :: string

record model_request =
  rq_messages :: "model_message list"
  rq_input_items :: "input_item list"
  rq_tools :: "tool_definition list"
  rq_tool_outputs :: "tool_output list"
  rq_previous_response_id :: "string option"
  rq_response_schema :: "metadata option"
  rq_response_schema_name :: string
  rq_max_output_tokens :: "int option"
  rq_temperature :: "pyfloat option"
  rq_tool_choice :: "tool_choice option"
  rq_continuation :: "continuation option"
  rq_usage_scopes :: "string list"
  rq_context_scope :: "context_scope option"
  rq_context_mode :: context_mode
  rq_metadata :: metadata

definition new_ModelRequest :: "model_request \<Rightarrow> exn + model_request" where
  "new_ModelRequest r =
     require (\<not> (rq_messages r = [] \<and> rq_input_items r = [] \<and> rq_tool_outputs r = [] \<and> rq_continuation r = None))
       ''model request requires messages, input items, tool outputs, or continuation'' (
     require (\<not> (rq_input_items r \<noteq> [] \<and> (rq_messages r \<noteq> [] \<or> rq_tool_outputs r \<noteq> []
         \<or> rq_previous_response_id r \<noteq> None \<or> rq_continuation r \<noteq> None)))
       ''canonical input items must not be mixed with legacy conversation state'' (
     require (case rq_previous_response_id r of None \<Rightarrow> True | Some i \<Rightarrow> \<not> blank i)
       ''previous response id must not be empty'' (
     require (\<not> blank (rq_response_schema_name r)) ''response schema name must not be empty'' (
     require (case rq_max_output_tokens r of None \<Rightarrow> True | Some n \<Rightarrow> \<not> n < 1)
       ''max output tokens must be at least 1'' (
     require (case rq_temperature r of None \<Rightarrow> True | Some t \<Rightarrow> \<not> float_less t (Fin 0))
       ''temperature must not be negative'' (
     require (\<not> (rq_context_mode r = CM_APPEND \<and> rq_context_scope r = None))
       ''append context mode requires a context scope'' (
     require (\<not> list_ex blank (rq_usage_scopes r)) ''usage scope must not be empty'' (
     require (distinct (map strip (rq_usage_scopes r))) ''usage scopes must not contain duplicates'' (
     Inr (r\<lparr>rq_usage_scopes := map strip (rq_usage_scopes r)\<rparr>))))))))))"

record model_response =
  rs_output_text :: string
  rs_tool_calls :: "tool_call list"
  rs_output_items :: "input_item list"
  rs_usage :: token_usage
  rs_response_id :: "string option"
  rs_continuation :: "continuation option"
  rs_metadata :: metadata

definition new_ModelResponse :: "model_response \<Rightarrow> exn + model_response" where
  "new_ModelResponse r =
     require (case rs_response_id r of None \<Rightarrow> True | Some i \<Rightarrow> \<not> blank i) ''response id must not be empty'' (Inr r)"

section \<open>Sizes\<close>

text \<open>The length of the UTF-8 encoding.\<close>

definition utf8_length :: "string \<Rightarrow> int" where
  "utf8_length s = int (sum_list (map (\<lambda>c. if of_char c < (128 :: nat) then 1 else 2) s))"

end
