(* ===== verification/Metering.thy ===== *)
theory Metering
  imports ModelTypes Usage
begin

text \<open>
  The metering proxies of \<open>matterloop_policies/metering.py\<close> and \<open>wrappers.py\<close>: price tables, the
  estimate of a request's input, the budgeted model client, and the budgeted tool, executor and
  agent endpoint. A proxied call is a parameter that takes and returns the whole state, so that
  other tasks may use the ledger and the client while it is awaited.
\<close>

section \<open>Prices\<close>

record rate_card =
  rc_currency :: string
  rc_effective_from :: "int \<times> int \<times> int"
  rc_input :: int
  rc_output :: int
  rc_cache_hit :: "int option"
  rc_cache_miss :: "int option"
  rc_reasoning :: "int option"

definition new_TokenRateCard :: "rate_card \<Rightarrow> exn + rate_card" where
  "new_TokenRateCard c =
     require (currency_of (rc_currency c) \<noteq> []) ''rate card currency must not be empty'' (
     require (\<not> list_ex (\<lambda>r. case r of None \<Rightarrow> False | Some x \<Rightarrow> x < 0)
         [Some (rc_input c), Some (rc_output c), rc_cache_hit c, rc_cache_miss c, rc_reasoning c])
       ''token rates must not be negative'' (
     Inr (c\<lparr>rc_currency := currency_of (rc_currency c)\<rparr>)))"

definition cache_hit_rate :: "rate_card \<Rightarrow> int" where
  "cache_hit_rate c = (case rc_cache_hit c of None \<Rightarrow> rc_input c | Some r \<Rightarrow> r)"

definition cache_miss_rate :: "rate_card \<Rightarrow> int" where
  "cache_miss_rate c = (case rc_cache_miss c of None \<Rightarrow> rc_input c | Some r \<Rightarrow> r)"

definition reasoning_rate :: "rate_card \<Rightarrow> int" where
  "reasoning_rate c = (case rc_reasoning c of None \<Rightarrow> rc_output c | Some r \<Rightarrow> r)"

definition ceil_div :: "int \<Rightarrow> int \<Rightarrow> int" where
  "ceil_div n d = (if n = 0 then 0 else (n + d - 1) div d)"

definition calculate_cost :: "rate_card \<Rightarrow> token_usage \<Rightarrow> int" where
  "calculate_cost c u =
     (let hit = tu_cache_hit u; miss = tu_cache_miss u;
          ordinary_input = max 0 (tu_input u - (hit + miss));
          reasoning = min (tu_reasoning u) (tu_output u);
          ordinary_output = max 0 (tu_output u - reasoning)
      in ceil_div (ordinary_input * rc_input c + hit * cache_hit_rate c + miss * cache_miss_rate c
           + ordinary_output * rc_output c + reasoning * reasoning_rate c) 1000000)"

definition estimate_max_cost :: "rate_card \<Rightarrow> int \<Rightarrow> int \<Rightarrow> exn + int" where
  "estimate_max_cost c i out =
     require (\<not> min i out < 0) ''estimated token counts must not be negative'' (
     let input_rate = max (rc_input c) (max (cache_hit_rate c) (cache_miss_rate c));
         output_rate = max (rc_output c) (reasoning_rate c)
     in Inr (ceil_div (i * input_rate + out * output_rate) 1000000))"

section \<open>The size of a request\<close>

text \<open>\<open>to_json\<close> is \<open>json.dumps\<close> with sorted keys and no spaces; it may raise.\<close>

fun tools_size :: "(metadata \<Rightarrow> exn + string) \<Rightarrow> tool_definition list \<Rightarrow> exn + int" where
  "tools_size to_json [] = Inr 0"
| "tools_size to_json (d # ds) = (case to_json (td_parameters d) of
       Inl e \<Rightarrow> Inl e
     | Inr t \<Rightarrow> map_sum id (\<lambda>n. utf8_length (td_name d) + utf8_length (td_description d) + utf8_length t + n)
         (tools_size to_json ds))"

definition message_size :: "model_message \<Rightarrow> int" where
  "message_size m = utf8_length (role_value (mm_role m)) + utf8_length (mm_content m)
     + (case mm_name m of None \<Rightarrow> 0 | Some n \<Rightarrow> utf8_length n) + 8"

definition estimate_utf8_input_tokens :: "(metadata \<Rightarrow> exn + string) \<Rightarrow> model_request \<Rightarrow> exn + int" where
  "estimate_utf8_input_tokens to_json r =
     (case tools_size to_json (rq_tools r) of
        Inl e \<Rightarrow> Inl e
      | Inr tools \<Rightarrow>
          let size = sum_list (map message_size (rq_messages r)) + tools
            + sum_list (map (\<lambda>x. utf8_length (to_call_id x) + utf8_length (to_output x) + 8) (rq_tool_outputs r))
          in (case rq_response_schema r of
               None \<Rightarrow> Inr (max 1 size)
             | Some sch \<Rightarrow> map_sum id (\<lambda>t. max 1 (size + utf8_length t)) (to_json sch)))"

section \<open>Calls under a reservation\<close>

datatype 'e proxy_error =
    Accounting usage_error
  | Misconfigured string
  | Raised 'e

text \<open>
  The state the proxies of one process share: the ledger, the continuation estimates of the model
  client in insertion order, the world.
\<close>

record 'w meter =
  m_ledger :: ledger
  m_estimates :: "(nat, continuation \<times> int) dict"
  m_world :: 'w

text \<open>
  Reserve, call, settle. \<open>charge\<close> decides on the reply: \<open>None\<close> rolls the reservation back,
  \<open>Some\<close> commits the given amount (\<open>None\<close>: the reserved one) after its construction.
\<close>

definition reserved_call ::
  "string list \<Rightarrow> usage_amount \<Rightarrow> string \<Rightarrow> ('e + 'a \<Rightarrow> (usage_error + usage_amount option) option)
   \<Rightarrow> ('w meter \<Rightarrow> ('e + 'a) \<times> 'w meter) \<Rightarrow> 'w meter \<Rightarrow> ('e proxy_error + 'a) \<times> 'w meter" where
  "reserved_call ss a rid charge call s =
     (case ledger_reserve ss a rid (m_ledger s) of
        (Inl e, L) \<Rightarrow> (Inl (Accounting e), s\<lparr>m_ledger := L\<rparr>)
      | (Inr r, L) \<Rightarrow> (case call (s\<lparr>m_ledger := L\<rparr>) of (reply, t) \<Rightarrow>
          (case (case charge reply of
                   None \<Rightarrow> ledger_rollback r (m_ledger t)
                 | Some (Inl e) \<Rightarrow> (Inl e, m_ledger t)
                 | Some (Inr actual) \<Rightarrow> ledger_commit r actual (m_ledger t)) of
             (Inl e, L') \<Rightarrow> (Inl (Accounting e), t\<lparr>m_ledger := L'\<rparr>)
           | (Inr _, L') \<Rightarrow> (map_sum Raised id reply, t\<lparr>m_ledger := L'\<rparr>))))"

text \<open>A unit is charged when the call succeeds.\<close>

definition charge_success :: "'e + 'a \<Rightarrow> (usage_error + usage_amount option) option" where
  "charge_success reply = (case reply of Inl _ \<Rightarrow> None | Inr _ \<Rightarrow> Some (Inr None))"

definition budgeted_tool ::
  "('c \<Rightarrow> string list) \<Rightarrow> string \<Rightarrow> ('arg \<Rightarrow> 'c \<Rightarrow> 'w meter \<Rightarrow> (exn + 'a) \<times> 'w meter)
   \<Rightarrow> 'arg \<Rightarrow> 'c \<Rightarrow> 'w meter \<Rightarrow> (exn proxy_error + 'a) \<times> 'w meter" where
  "budgeted_tool resolve rid tool arguments c =
     reserved_call (resolve c) (zero_amount\<lparr>tool_calls := 1\<rparr>) rid charge_success (tool arguments c)"

definition budgeted_executor ::
  "(loop_context \<Rightarrow> string list) \<Rightarrow> string
   \<Rightarrow> (plan_step \<Rightarrow> loop_context \<Rightarrow> 'w meter \<Rightarrow> (exn + execution_result) \<times> 'w meter)
   \<Rightarrow> plan_step \<Rightarrow> loop_context \<Rightarrow> 'w meter \<Rightarrow> (exn proxy_error + execution_result) \<times> 'w meter" where
  "budgeted_executor resolve rid run_step st c =
     reserved_call (resolve c) (zero_amount\<lparr>attempts := 1\<rparr>) rid charge_success (run_step st c)"

definition budgeted_agent ::
  "('c \<Rightarrow> exn + string list) \<Rightarrow> string \<Rightarrow> ('c \<Rightarrow> 'w meter \<Rightarrow> (exn + 'a) \<times> 'w meter)
   \<Rightarrow> 'c \<Rightarrow> 'w meter \<Rightarrow> (exn proxy_error + 'a) \<times> 'w meter" where
  "budgeted_agent resolve rid endpoint c s =
     (case resolve c of
        Inl e \<Rightarrow> (Inl (Raised e), s)
      | Inr ss \<Rightarrow> reserved_call ss (zero_amount\<lparr>agent_tasks := 1\<rparr>) rid charge_success (endpoint c) s)"

definition loop_scopes :: "loop_context \<Rightarrow> string list" where
  "loop_scopes c = [run_id c]"

text \<open>\<open>team_run_id\<close> is the attribute of that name, if the context has it and it is a text.\<close>

definition default_agent_scopes :: "('c \<Rightarrow> string option) \<Rightarrow> 'c \<Rightarrow> exn + string list" where
  "default_agent_scopes team_run_id c = (case team_run_id c of
       Some i \<Rightarrow> require (\<not> blank i) ''agent context requires team_run_id or an explicit scope resolver'' (Inr [i])
     | None \<Rightarrow> Inl (ValueError ''agent context requires team_run_id or an explicit scope resolver''))"

section \<open>The budgeted model client\<close>

text \<open>What a model client raises: a reply that could not be parsed, or any other exception.\<close>

datatype call_error =
    ParseError string "token_usage option"
  | Failed exn

record model_proxy =
  bc_rate_card :: "rate_card option"
  bc_default_scopes :: "string list"
  bc_default_max_output_tokens :: int
  bc_estimator :: "(model_request \<Rightarrow> exn + int) option"

definition new_BudgetedModelClient :: "model_proxy \<Rightarrow> exn + model_proxy" where
  "new_BudgetedModelClient p =
     require (\<not> bc_default_max_output_tokens p < 1) ''default max output tokens must be at least 1'' (
     require (\<not> (bc_default_scopes p = [] \<or> list_ex blank (bc_default_scopes p)))
       ''default usage scopes must not be empty'' (
     require (distinct (map strip (bc_default_scopes p))) ''default usage scopes must not contain duplicates'' (
     Inr (p\<lparr>bc_default_scopes := map strip (bc_default_scopes p)\<rparr>))))"

definition check_currencies :: "model_proxy \<Rightarrow> string set \<Rightarrow> call_error proxy_error + unit" where
  "check_currencies p currencies = (case bc_rate_card p of
       None \<Rightarrow> if currencies \<noteq> {}
         then Inl (Misconfigured ''a TokenRateCard is required when a cost limit is configured'') else Inr ()
     | Some c \<Rightarrow> if \<not> currencies \<subseteq> {rc_currency c}
         then Inl (Misconfigured ''rate card currency must match every configured cost limit'') else Inr ())"

definition estimate_input ::
  "(metadata \<Rightarrow> exn + string) \<Rightarrow> model_proxy \<Rightarrow> (nat, continuation \<times> int) dict \<Rightarrow> model_request
   \<Rightarrow> call_error proxy_error + int" where
  "estimate_input to_json p estimates r =
     (case (case bc_estimator p of None \<Rightarrow> estimate_utf8_input_tokens to_json r | Some f \<Rightarrow> f r) of
        Inl e \<Rightarrow> Inl (Raised (Failed e))
      | Inr n \<Rightarrow>
          if n < 1 then Inl (Misconfigured ''input token estimator must return at least 1'')
          else (case (bc_estimator p, rq_continuation r) of
             (None, Some c) \<Rightarrow> (case dict_get estimates (cont_id c) of
                 Some (tracked, m) \<Rightarrow> if cont_id tracked = cont_id c then Inr (n + m)
                   else Inl (Misconfigured ''opaque continuation must originate from this budgeted client or use a custom token estimator'')
               | None \<Rightarrow> Inl (Misconfigured ''opaque continuation must originate from this budgeted client or use a custom token estimator''))
           | _ \<Rightarrow> Inr n))"

definition output_bound :: "model_proxy \<Rightarrow> model_request \<Rightarrow> int" where
  "output_bound p r = (case rq_max_output_tokens r of
       Some n \<Rightarrow> if n \<noteq> 0 then n else bc_default_max_output_tokens p
     | None \<Rightarrow> bc_default_max_output_tokens p)"

definition costs_of :: "model_proxy \<Rightarrow> int \<Rightarrow> (string \<times> int) list" where
  "costs_of p cost = (case bc_rate_card p of None \<Rightarrow> [] | Some c \<Rightarrow> [(rc_currency c, cost)])"

text \<open>How the tokens are distributed is unknown before the call: each kind is reserved at its worst.\<close>

definition worst_case :: "model_proxy \<Rightarrow> int \<Rightarrow> int \<Rightarrow> call_error proxy_error + usage_amount" where
  "worst_case p i out =
     (case (case bc_rate_card p of None \<Rightarrow> Inr 0 | Some c \<Rightarrow> estimate_max_cost c i out) of
        Inl e \<Rightarrow> Inl (Raised (Failed e))
      | Inr cost \<Rightarrow> map_sum Accounting id (new_UsageAmount (zero_amount\<lparr>model_calls := 1, input_tokens := i,
          output_tokens := out, total_tokens := i + out, cache_hit_tokens := i, cache_miss_tokens := i,
          reasoning_tokens := out, costs_micros := costs_of p cost\<rparr>)))"

definition total_of :: "token_usage \<Rightarrow> int" where
  "total_of u = (if tu_total u \<noteq> 0 then tu_total u else tu_input u + tu_output u)"

definition actual_amount :: "model_proxy \<Rightarrow> token_usage \<Rightarrow> usage_error + usage_amount" where
  "actual_amount p u =
     (let cost = (case bc_rate_card p of None \<Rightarrow> 0 | Some c \<Rightarrow> calculate_cost c u)
      in new_UsageAmount (zero_amount\<lparr>model_calls := 1, input_tokens := tu_input u, output_tokens := tu_output u,
        total_tokens := total_of u, cache_hit_tokens := tu_cache_hit u, cache_miss_tokens := tu_cache_miss u,
        reasoning_tokens := tu_reasoning u, costs_micros := costs_of p cost\<rparr>))"

text \<open>A reply that reports its usage has been billed, also when it could not be parsed.\<close>

fun reported_usage :: "call_error + model_response \<Rightarrow> token_usage option" where
  "reported_usage (Inr resp) = Some (rs_usage resp)"
| "reported_usage (Inl (ParseError _ u)) = u"
| "reported_usage (Inl (Failed _)) = None"

definition charge_usage ::
  "model_proxy \<Rightarrow> call_error + model_response \<Rightarrow> (usage_error + usage_amount option) option" where
  "charge_usage p reply = map_option (\<lambda>u. map_sum id Some (actual_amount p u)) (reported_usage reply)"

definition max_tracked :: nat where
  "max_tracked = 1024"

definition track_continuation ::
  "continuation option \<Rightarrow> model_response \<Rightarrow> (nat, continuation \<times> int) dict \<Rightarrow> (nat, continuation \<times> int) dict" where
  "track_continuation before resp estimates =
     (let es1 = (case before of None \<Rightarrow> estimates | Some c \<Rightarrow> dict_del (cont_id c) estimates);
          es2 = (case rs_continuation resp of None \<Rightarrow> es1
            | Some c \<Rightarrow> dict_del (cont_id c) es1 @ [(cont_id c, (c, total_of (rs_usage resp)))])
      in drop (length es2 - max_tracked) es2)"

definition generate ::
  "(metadata \<Rightarrow> exn + string) \<Rightarrow> model_proxy \<Rightarrow> string
   \<Rightarrow> (model_request \<Rightarrow> 'w meter \<Rightarrow> (call_error + model_response) \<times> 'w meter)
   \<Rightarrow> model_request \<Rightarrow> 'w meter \<Rightarrow> (call_error proxy_error + model_response) \<times> 'w meter" where
  "generate to_json p rid call r s =
     (let ss = (if rq_usage_scopes r \<noteq> [] then rq_usage_scopes r else bc_default_scopes p) in
      case cost_limit_currencies ss (m_ledger s) of Inl e \<Rightarrow> (Inl (Accounting e), s)
      | Inr currencies \<Rightarrow> (case check_currencies p currencies of Inl e \<Rightarrow> (Inl e, s)
      | Inr _ \<Rightarrow> (case estimate_input to_json p (m_estimates s) r of Inl e \<Rightarrow> (Inl e, s)
      | Inr i \<Rightarrow>
          (case worst_case p i (output_bound p r) of Inl e \<Rightarrow> (Inl e, s)
           | Inr a \<Rightarrow> (case reserved_call ss a rid (charge_usage p) (call r) s of
               (Inl e, t) \<Rightarrow> (Inl e, t)
             | (Inr resp, t) \<Rightarrow> (Inr resp, if bc_estimator p \<noteq> None then t
                 else t\<lparr>m_estimates := track_continuation (rq_continuation r) resp (m_estimates t)\<rparr>))))))"

end
