(* ===== verification/MeteringFacts.thy ===== *)
theory MeteringFacts
  imports Metering UsageProperties
begin

text \<open>
  What a metering proxy relies on: the contract of the ledger for one reservation, as the locale
  \<open>accounts\<close>, its instance, and the effect of a reserved call on the ledger as a sequence of
  operations. Other tasks use the ledger during the call and leave the caller's reservation alone.
\<close>

section \<open>One reservation\<close>

text \<open>
  \<open>held\<close> are the open reservations, \<open>paid\<close> what a scope has spent. A reservation is open until it
  is settled, and a settlement concerns no other one.
\<close>

locale accounts =
  fixes ok :: "'l \<Rightarrow> bool" and held :: "'l \<Rightarrow> string \<Rightarrow> reservation option"
    and paid :: "'l \<Rightarrow> string \<Rightarrow> resource \<Rightarrow> int"
    and reserve :: "string list \<Rightarrow> usage_amount \<Rightarrow> string \<Rightarrow> 'l \<Rightarrow> (usage_error + reservation) \<times> 'l"
    and commit :: "reservation \<Rightarrow> usage_amount option \<Rightarrow> 'l \<Rightarrow> (usage_error + unit) \<times> 'l"
    and rollback :: "reservation \<Rightarrow> 'l \<Rightarrow> (usage_error + unit) \<times> 'l"
  assumes refused: "ok l \<Longrightarrow> amount_ok a \<Longrightarrow> reserve ss a i l = (Inl e, l') \<Longrightarrow> l' = l"
    and opened: "ok l \<Longrightarrow> amount_ok a \<Longrightarrow> reserve ss a i l = (Inr r, l') \<Longrightarrow>
      ok l' \<and> held l i = None \<and> held l' = (held l)(i \<mapsto> r) \<and> paid l' = paid l \<and> reservation_id r = i \<and> amount r = a"
    and committed: "ok l \<Longrightarrow> held l (reservation_id r) = Some r \<Longrightarrow> pred_option amount_ok x \<Longrightarrow>
      case commit r x l of (out, l') \<Rightarrow> ok l' \<and> held l' = (held l)(reservation_id r := None)
        \<and> (\<forall>n k. paid l' n k = paid l n k
              + (if n \<in> set (scopes r) then res k (case x of None \<Rightarrow> amount r | Some a \<Rightarrow> a) else 0))"
    and released: "ok l \<Longrightarrow> held l (reservation_id r) = Some r \<Longrightarrow>
      case rollback r l of (out, l') \<Rightarrow> out = Inr () \<and> ok l' \<and> held l' = (held l)(reservation_id r := None)
        \<and> paid l' = paid l"
begin

text \<open>
  A session: between reserving and settling others may do anything that leaves the reservation
  open. Afterwards it is closed, nobody else's is, and exactly the settled amount has been paid.
\<close>

lemma session:
  assumes "ok l" and "amount_ok a" and "reserve ss a i l = (Inr r, m)"
    and "ok m'" and "held m' i = held m i"
    and "case settlement of None \<Rightarrow> True | Some x \<Rightarrow> pred_option amount_ok x"
    and "(case settlement of None \<Rightarrow> rollback r m' | Some x \<Rightarrow> commit r x m') = (out, l')"
  shows "ok l' \<and> held l' = (held m')(i := None)
    \<and> (\<forall>n k. paid l' n k = paid m' n k
        + (case settlement of None \<Rightarrow> 0
           | Some x \<Rightarrow> if n \<in> set (scopes r) then res k (case x of None \<Rightarrow> a | Some b \<Rightarrow> b) else 0))"
proof -
  note r = opened [OF assms(1-3)]
  then have open_r: "held m' (reservation_id r) = Some r" using assms(5) by simp
  show ?thesis
  proof (cases settlement)
    case None
    then show ?thesis using released [OF assms(4) open_r] assms(7) r by simp
  next
    case (Some x)
    then have "pred_option amount_ok x" using assms(6) by simp
    from committed [OF assms(4) open_r this] show ?thesis using assms(7) r Some by (cases x) simp_all
  qed
qed

end

lemma ledger_opened:
  assumes "ledger_ok L" and "amount_ok a" and "ledger_reserve ss a i L = (Inr r, M)"
  shows "ledger_ok M \<and> dict_get (reservations L) i = None
    \<and> dict_get (reservations M) = (dict_get (reservations L))(i \<mapsto> r)
    \<and> (\<lambda>n k. res k (committed (state_of M n))) = (\<lambda>n k. res k (committed (state_of L n)))
    \<and> reservation_id r = i \<and> amount r = a"
proof -
  have "simulates (Reserve ss a i) L" by (rule op_simulates) (use assms in simp_all)
  from simulatesD [OF this] have ok: "ledger_ok M"
    and books: "book_op (Reserve ss a i) (books_of L) = (True, books_of M)"
    using assms(3) by simp_all
  obtain ns where ns: "normalize_scopes ss = Inr ns" and fresh: "dict_get (reservations L) i = None"
    and M: "books_of M = (books_of L)\<lparr>outstanding := (dict_get (reservations L))(i \<mapsto> \<lparr>reservation_id = i, scopes = ns, amount = a\<rparr>)\<rparr>"
    using books by (auto split: sum.splits if_splits)
  have "r = \<lparr>reservation_id = i, scopes = ns, amount = a\<rparr>"
    using assms(3) ns by (auto simp: ledger_reserve_def Let_def split: sum.splits if_splits prod.splits)
  then show ?thesis
    using ok fresh arg_cong [OF M, of outstanding] arg_cong [OF M, of spent] by (auto simp: fun_eq_iff books_of_def)
qed

interpretation usage: accounts ledger_ok "\<lambda>L. dict_get (reservations L)" "\<lambda>L n k. res k (committed (state_of L n))"
  ledger_reserve ledger_commit ledger_rollback
proof
  fix l l' ss a i e
  assume "ledger_ok l" "amount_ok a" "ledger_reserve ss a i l = (Inl e, l')"
  then show "l' = l"
    using op_refused [of l "Reserve ss a i" e l'] by simp
next
  fix l l' ss a i r
  assume "ledger_ok l" "amount_ok a" "ledger_reserve ss a i l = (Inr r, l')"
  then show "ledger_ok l' \<and> dict_get (reservations l) i = None
    \<and> dict_get (reservations l') = (dict_get (reservations l))(i \<mapsto> r)
    \<and> (\<lambda>n k. res k (committed (state_of l' n))) = (\<lambda>n k. res k (committed (state_of l n)))
    \<and> reservation_id r = i \<and> amount r = a"
    by (rule ledger_opened)
next
  fix l r x
  assume ok: "ledger_ok l" and r: "dict_get (reservations l) (reservation_id r) = Some r" and x: "pred_option amount_ok x"
  obtain out l' where c: "ledger_commit r x l = (out, l')" by fastforce
  have "simulates (Commit r x) l" using x by (intro op_simulates [OF ok]) (cases x; simp)
  from simulatesD [OF this] have "ledger_ok l'"
    and books: "books_of l' = post (scopes r) (case x of None \<Rightarrow> amount r | Some a \<Rightarrow> a) (drop r (books_of l))"
    using r by (simp_all add: c Let_def)
  then show "case ledger_commit r x l of (out, l') \<Rightarrow> ledger_ok l'
      \<and> dict_get (reservations l') = (dict_get (reservations l))(reservation_id r := None)
      \<and> (\<forall>n k. res k (committed (state_of l' n)) = res k (committed (state_of l n))
              + (if n \<in> set (scopes r) then res k (case x of None \<Rightarrow> amount r | Some a \<Rightarrow> a) else 0))"
    using arg_cong [OF books, of outstanding] arg_cong [OF books, of spent]
    by (auto simp: c post_def drop_def books_of_def fun_eq_iff)
next
  fix l r
  assume ok: "ledger_ok l" and r: "dict_get (reservations l) (reservation_id r) = Some r"
  obtain out l' where c: "ledger_rollback r l = (out, l')" by fastforce
  from simulatesD [OF op_simulates [OF ok, of "Rollback r"]]
  have "ledger_ok l'" "out = Inr ()" and books: "books_of l' = drop r (books_of l)"
    using r by (simp_all add: c)
  then show "case ledger_rollback r l of (out, l') \<Rightarrow> out = Inr () \<and> ledger_ok l'
      \<and> dict_get (reservations l') = (dict_get (reservations l))(reservation_id r := None)
      \<and> (\<lambda>n k. res k (committed (state_of l' n))) = (\<lambda>n k. res k (committed (state_of l n)))"
    using arg_cong [OF books, of outstanding] arg_cong [OF books, of spent]
    by (auto simp: c drop_def books_of_def fun_eq_iff)
qed

section \<open>The other tasks\<close>

fun spares :: "string \<Rightarrow> ledger_op \<Rightarrow> bool" where
  "spares i (Commit r _) \<longleftrightarrow> reservation_id r \<noteq> i"
| "spares i (Rollback r) \<longleftrightarrow> reservation_id r \<noteq> i"
| "spares i _ \<longleftrightarrow> True"

lemma spared_op:
  assumes "ledger_ok L" and "op_ok op" and "spares i op" and "dict_get (reservations L) i = Some r"
  shows "dict_get (reservations (snd (apply_op op L))) i = Some r"
proof -
  have "outstanding (snd (book_op op (books_of L))) i = Some r"
    using assms(3,4) by (cases op) (auto simp: Let_def post_def drop_def split: sum.splits)
  then show ?thesis
    using simulatesD(1) [OF op_simulates [OF assms(1,2)]] by simp
qed

lemma spared:
  assumes "ledger_ok L" and "list_all op_ok ops" and "list_all (spares i) ops"
    and "dict_get (reservations L) i = Some r"
  shows "dict_get (reservations (run_ops ops L)) i = Some r"
  using assms
proof (induction ops arbitrary: L)
  case (Cons op ops)
  then have "ledger_ok (snd (apply_op op L))"
    by (intro simulatesD(2) op_simulates) simp_all
  with Cons show ?case by (simp add: spared_op)
qed simp

end
