(* ===== verification/MeteringProperties.thy ===== *)
theory MeteringProperties
  imports MeteringFacts
begin

text \<open>
  The metering proxies never lose or duplicate a charge, and a model client whose replies stay
  within its estimate never overdraws the ledger.
\<close>

section \<open>Reserved calls\<close>

text \<open>
  What the other tasks may do while a call is awaited: any operations on the ledger but settling
  reservation \<open>i\<close>.
\<close>

definition leaves_alone :: "string \<Rightarrow> ('w meter \<Rightarrow> 'x \<times> 'w meter) \<Rightarrow> bool" where
  "leaves_alone i call \<longleftrightarrow> (\<forall>t. \<exists>ops. list_all op_ok ops \<and> list_all (spares i) ops
     \<and> m_ledger (snd (call t)) = run_ops ops (m_ledger t))"

text \<open>Reservation \<open>r\<close> is closed, nothing else is, and \<open>x\<close> has been paid for it.\<close>

definition settled_for :: "reservation \<Rightarrow> usage_amount option \<Rightarrow> ledger \<Rightarrow> ledger \<Rightarrow> bool" where
  "settled_for r x L L' \<longleftrightarrow> ledger_ok L'
     \<and> dict_get (reservations L') = (dict_get (reservations L))(reservation_id r := None)
     \<and> (\<forall>n k. res k (committed (state_of L' n)) = res k (committed (state_of L n))
          + (case x of None \<Rightarrow> 0 | Some a \<Rightarrow> if n \<in> set (scopes r) then res k a else 0))"

definition charged :: "usage_amount \<Rightarrow> (usage_error + usage_amount option) option \<Rightarrow> usage_amount option" where
  "charged a c = (case c of Some (Inr None) \<Rightarrow> Some a | Some (Inr (Some b)) \<Rightarrow> Some b | _ \<Rightarrow> None)"

lemma reserved_call_settles:
  assumes ok: "ledger_ok (m_ledger s)" "amount_ok a" and call: "leaves_alone i call"
    and charge: "\<And>t y. charge (fst (call t)) = Some y \<Longrightarrow> \<exists>x. y = Inr x \<and> pred_option amount_ok x"
    and run: "reserved_call ss a i charge call s = (out, s')"
  obtains (refused) e where "out = Inl (Accounting e)" "s' = s"
  | (called) r t reply u where "call t = (reply, u)" "ledger_reserve ss a i (m_ledger s) = (Inr r, m_ledger t)"
      "t = s\<lparr>m_ledger := m_ledger t\<rparr>" "s' = u\<lparr>m_ledger := m_ledger s'\<rparr>" "ledger_ok (m_ledger u)"
      "dict_get (reservations (m_ledger u)) i = Some r"
      "settled_for r (charged a (charge reply)) (m_ledger u) (m_ledger s')"
      "out = map_sum Raised id reply \<or> (\<exists>e. out = Inl (Accounting e) \<and> charge reply \<noteq> None)"
      "\<exists>x. charge reply = Some (Inr x) \<and> ledger_commit r x (m_ledger u)
          = (case out of Inl (Accounting e) \<Rightarrow> Inl e | _ \<Rightarrow> Inr (), m_ledger s')
        \<or> charge reply = None \<and> ledger_rollback r (m_ledger u) = (Inr (), m_ledger s')"
proof (cases "ledger_reserve ss a i (m_ledger s)")
  case (Pair result L)
  show thesis
  proof (cases result)
    case (Inl e)
    with Pair usage.refused [OF ok] have "L = m_ledger s" by blast
    with Inl Pair run show thesis by (intro refused [of e]) (simp_all add: reserved_call_def)
  next
    case (Inr r)
    note res = Pair [unfolded Inr]
    define t where "t = s\<lparr>m_ledger := L\<rparr>"
    obtain reply u where reply: "call t = (reply, u)" by fastforce
    note opened = usage.opened [OF ok res]
    obtain ops where ops: "list_all op_ok ops" "list_all (spares i) ops" "m_ledger u = run_ops ops L"
      using call [unfolded leaves_alone_def, rule_format, of t] reply by (auto simp: t_def)
    have u: "ledger_ok (m_ledger u)" "dict_get (reservations (m_ledger u)) i = Some r"
      using spared [of L ops i r] run_ops_ok ops opened by auto
    let ?set = "case charge reply of None \<Rightarrow> ledger_rollback r (m_ledger u)
        | Some (Inl e) \<Rightarrow> (Inl e, m_ledger u) | Some (Inr actual) \<Rightarrow> ledger_commit r actual (m_ledger u)"
    obtain result' L' where fin: "?set = (result', L')" by fastforce
    have s': "s' = u\<lparr>m_ledger := L'\<rparr>"
      and out: "out = (case result' of Inl e \<Rightarrow> Inl (Accounting e) | Inr _ \<Rightarrow> map_sum Raised id reply)"
      using run fin by (auto simp: reserved_call_def res t_def [symmetric] reply split: sum.splits)
    have rid: "reservation_id r = i" "amount r = a" using opened by simp_all
    have raised: "map_sum Raised id reply = Inl z \<longleftrightarrow> (\<exists>w. z = Raised w \<and> reply = Inl w)" for z
      by (cases reply) auto
    show thesis
    proof (cases "charge reply")
      case None
      with usage.released [OF u(1), of r] fin u(2) rid have "result' = Inr ()"
        "settled_for r None (m_ledger u) L'" by (auto simp: settled_for_def fun_eq_iff)
      with None show thesis
        by (intro called [of t reply u r]) (use reply res s' out u fin in \<open>auto simp: t_def charged_def raised split: sum.splits\<close>)
    next
      case (Some y)
      then obtain x where y: "y = Inr x" "pred_option amount_ok x" using charge [of t y] reply by auto
      from usage.committed [OF u(1) _ y(2), of r] fin u(2) rid Some y(1)
      have "settled_for r (charged a (Some (Inr x))) (m_ledger u) L'"
        by (cases x) (auto simp: settled_for_def charged_def)
      then show thesis
        by (intro called [of t reply u r])
          (use reply res s' out u fin Some y in \<open>auto simp: t_def raised split: sum.splits\<close>)
    qed
  qed
qed

lemma unit_charge:
  "charge_success reply = Some y \<Longrightarrow> \<exists>x. y = Inr x \<and> pred_option amount_ok x"
  "charged a (charge_success reply) = (case reply of Inl _ \<Rightarrow> None | Inr _ \<Rightarrow> Some a)"
  by (auto simp: charge_success_def charged_def split: sum.splits)

lemma unit_ok:
  "amount_ok (zero_amount\<lparr>tool_calls := 1\<rparr>)" "amount_ok (zero_amount\<lparr>attempts := 1\<rparr>)"
  "amount_ok (zero_amount\<lparr>agent_tasks := 1\<rparr>)"
  by (simp_all add: amount_ok_def zero_amount_def counters_def costs_ok_def)

definition unit_charged ::
  "string \<Rightarrow> usage_amount \<Rightarrow> ('w meter \<Rightarrow> (exn + 'a) \<times> 'w meter) \<Rightarrow> 'w meter \<Rightarrow> exn proxy_error + 'a \<Rightarrow> 'w meter \<Rightarrow> bool" where
  "unit_charged i a call s out s' \<longleftrightarrow>
     (\<exists>r t reply u. call t = (reply, u) \<and> m_world t = m_world s
        \<and> dict_get (reservations (m_ledger t)) i = Some r \<and> dict_get (reservations (m_ledger u)) i = Some r
        \<and> settled_for r (case reply of Inl _ \<Rightarrow> None | Inr _ \<Rightarrow> Some a) (m_ledger u) (m_ledger s')
        \<and> (case reply of Inl e \<Rightarrow> out = Inl (Raised e) | Inr x \<Rightarrow> out = Inr x \<or> (\<exists>e. out = Inl (Accounting e))))"

lemma unit_call_settles:
  assumes "ledger_ok (m_ledger s)" and a: "amount_ok a" and "leaves_alone i call"
    and "reserved_call ss a i charge_success call s = (out, s')"
  shows "(\<exists>e. out = Inl (Accounting e) \<and> s' = s) \<or> unit_charged i a call s out s'"
proof (rule reserved_call_settles [OF assms(1,2,3) unit_charge(1) assms(4)], assumption)
  fix r t reply u
  assume "call t = (reply, u)" "ledger_reserve ss a i (m_ledger s) = (Inr r, m_ledger t)"
    "t = s\<lparr>m_ledger := m_ledger t\<rparr>" "dict_get (reservations (m_ledger u)) i = Some r"
    "settled_for r (charged a (charge_success reply)) (m_ledger u) (m_ledger s')"
    "out = map_sum Raised id reply \<or> (\<exists>e. out = Inl (Accounting e) \<and> charge_success reply \<noteq> None)"
  moreover from this(2) have "dict_get (reservations (m_ledger t)) i = Some r"
    using usage.opened [OF assms(1) a] by simp
  moreover from calculation(3) have "m_world t = m_world s"
    by (metis meter.select_convs(3) meter.surjective meter.update_convs(1))
  ultimately show ?thesis
    unfolding unit_charged_def
    by - (rule disjI2, rule exI [of _ r], rule exI [of _ t], rule exI [of _ reply], rule exI [of _ u],
        auto simp: unit_charge(2) [symmetric] charge_success_def split: sum.splits)
qed auto

lemma executor_charged_on_success:
  assumes "ledger_ok (m_ledger s)" and "leaves_alone i (run_step st c)"
    and "budgeted_executor resolver i run_step st c s = (out, s')"
  shows "(\<exists>e. out = Inl (Accounting e) \<and> s' = s) \<or> unit_charged i (zero_amount\<lparr>attempts := 1\<rparr>) (run_step st c) s out s'"
  by (rule unit_call_settles [OF assms(1) unit_ok(2) assms(2) assms(3) [unfolded budgeted_executor_def]])

lemma agent_charged_on_success:
  assumes "ledger_ok (m_ledger s)" and "leaves_alone i (endpoint c)"
    and "budgeted_agent resolver i endpoint c s = (out, s')"
  shows "(\<exists>e. out = Inl e \<and> s' = s) \<or> unit_charged i (zero_amount\<lparr>agent_tasks := 1\<rparr>) (endpoint c) s out s'"
proof (cases "resolver c")
  case (Inr ss)
  then show ?thesis
    using unit_call_settles [OF assms(1) unit_ok(3) assms(2), of ss out s'] assms(3) by (auto simp: budgeted_agent_def)
qed (use assms(3) in \<open>auto simp: budgeted_agent_def\<close>)

text \<open>
  A budgeted tool charges exactly the calls that succeed. If the ledger refuses the reservation,
  nothing changes and the tool is not called. Otherwise the reservation is open for the whole call and
  closed after it, in every ending: one tool call is paid in every scope when the tool returned,
  nothing when it raised or was cancelled, and no reservation of another task is touched. The
  tool's own exception is passed on. (The lemmas \<open>executor_charged_on_success\<close> and
  \<open>agent_charged_on_success\<close> state the same of the other two proxies.)
\<close>

theorem tool_charged_on_success:
  assumes "ledger_ok (m_ledger s)" and "leaves_alone i (tool arguments c)"
    and "budgeted_tool resolver i tool arguments c s = (out, s')"
  shows "(\<exists>e. out = Inl (Accounting e) \<and> s' = s)
    \<or> unit_charged i (zero_amount\<lparr>tool_calls := 1\<rparr>) (tool arguments c) s out s'"
  by (rule unit_call_settles [OF assms(1) unit_ok(1) assms(2) assms(3) [unfolded budgeted_tool_def]])

section \<open>Costs\<close>

lemma ceil_div_mono: "0 \<le> n \<Longrightarrow> n \<le> m \<Longrightarrow> 0 < d \<Longrightarrow> 0 \<le> ceil_div n d \<and> ceil_div n d \<le> ceil_div m d"
  by (auto simp: ceil_div_def pos_imp_zdiv_nonneg_iff intro: zdiv_mono1)

lemma rates_nonneg:
  assumes "new_TokenRateCard c = Inr c"
  shows "0 \<le> rc_input c" "0 \<le> rc_output c" "0 \<le> cache_hit_rate c" "0 \<le> cache_miss_rate c" "0 \<le> reasoning_rate c"
    and "currency_of (rc_currency c) = rc_currency c" "rc_currency c \<noteq> []"
proof -
  note c = assms [unfolded new_TokenRateCard_def require_Inr]
  show "0 \<le> rc_input c" "0 \<le> rc_output c" "0 \<le> cache_hit_rate c" "0 \<le> cache_miss_rate c" "0 \<le> reasoning_rate c"
    using c by (auto simp: cache_hit_rate_def cache_miss_rate_def reasoning_rate_def split: option.splits)
  from c have "c\<lparr>rc_currency := currency_of (rc_currency c)\<rparr> = c" "currency_of (rc_currency c) \<noteq> []" by auto
  then show "currency_of (rc_currency c) = rc_currency c" "rc_currency c \<noteq> []"
    by (metis rate_card.select_convs(1) rate_card.surjective rate_card.update_convs(1))+
qed

definition usage_within :: "token_usage \<Rightarrow> int \<Rightarrow> int \<Rightarrow> bool" where
  "usage_within u i out \<longleftrightarrow> tu_input u \<le> i \<and> tu_output u \<le> out \<and> tu_cache_hit u + tu_cache_miss u \<le> tu_input u
     \<and> tu_reasoning u \<le> tu_output u \<and> total_of u \<le> i + out"

lemma usage_nonneg:
  "new_TokenUsage u = Inr u \<Longrightarrow> 0 \<le> tu_input u \<and> 0 \<le> tu_output u \<and> 0 \<le> tu_total u \<and> 0 \<le> tu_cache_hit u
     \<and> 0 \<le> tu_cache_miss u \<and> 0 \<le> tu_reasoning u"
  by (auto simp: new_TokenUsage_def usage_values_def)

lemma calculate_cost_nonneg:
  assumes "new_TokenRateCard c = Inr c" and "new_TokenUsage u = Inr u"
  shows "0 \<le> calculate_cost c u"
  using rates_nonneg [OF assms(1)] usage_nonneg [OF assms(2)]
  unfolding calculate_cost_def Let_def
  by (intro conjunct1 [OF ceil_div_mono [OF _ order_refl]] add_nonneg_nonneg mult_nonneg_nonneg) auto

lemma cost_within_estimate:
  assumes c: "new_TokenRateCard c = Inr c" and u: "new_TokenUsage u = Inr u" and w: "usage_within u i out"
  obtains e where "estimate_max_cost c i out = Inr e" and "calculate_cost c u \<le> e"
proof -
  note nn = rates_nonneg [OF c] usage_nonneg [OF u]
  define R where "R = max (rc_input c) (max (cache_hit_rate c) (cache_miss_rate c))"
  define S where "S = max (rc_output c) (reasoning_rate c)"
  define ord where "ord = tu_input u - (tu_cache_hit u + tu_cache_miss u)"
  define plain_out where "plain_out = tu_output u - tu_reasoning u"
  have pos: "0 \<le> ord" "0 \<le> plain_out" "0 \<le> R" "0 \<le> S"
    using w nn by (auto simp: ord_def plain_out_def usage_within_def R_def S_def)
  have "ord * rc_input c + tu_cache_hit u * cache_hit_rate c + tu_cache_miss u * cache_miss_rate c
      \<le> ord * R + tu_cache_hit u * R + tu_cache_miss u * R"
    using pos nn by (intro add_mono mult_left_mono) (auto simp: R_def)
  also have "\<dots> = tu_input u * R" by (simp add: ord_def algebra_simps)
  also have "\<dots> \<le> i * R" using w pos by (intro mult_right_mono) (auto simp: usage_within_def)
  finally have inp: "ord * rc_input c + tu_cache_hit u * cache_hit_rate c + tu_cache_miss u * cache_miss_rate c \<le> i * R" .
  have "plain_out * rc_output c + tu_reasoning u * reasoning_rate c \<le> plain_out * S + tu_reasoning u * S"
    using pos nn by (intro add_mono mult_left_mono) (auto simp: S_def)
  also have "\<dots> = tu_output u * S" by (simp add: plain_out_def algebra_simps)
  also have "\<dots> \<le> out * S" using w pos by (intro mult_right_mono) (auto simp: usage_within_def)
  finally have outp: "plain_out * rc_output c + tu_reasoning u * reasoning_rate c \<le> out * S" .
  let ?n = "ord * rc_input c + tu_cache_hit u * cache_hit_rate c + tu_cache_miss u * cache_miss_rate c
      + plain_out * rc_output c + tu_reasoning u * reasoning_rate c"
  have "calculate_cost c u = ceil_div ?n 1000000"
    using pos w by (simp add: calculate_cost_def Let_def ord_def plain_out_def usage_within_def)
  moreover have "0 \<le> ?n" using pos nn by (intro add_nonneg_nonneg mult_nonneg_nonneg) auto
  moreover have "?n \<le> i * R + out * S" using inp outp by linarith
  ultimately have "calculate_cost c u \<le> ceil_div (i * R + out * S) 1000000"
    using ceil_div_mono by simp
  moreover have "estimate_max_cost c i out = Inr (ceil_div (i * R + out * S) 1000000)"
    using w nn by (auto simp: estimate_max_cost_def require_def R_def S_def usage_within_def)
  ultimately show thesis by (intro that)
qed

section \<open>Model calls\<close>

definition card_ok :: "model_proxy \<Rightarrow> bool" where
  "card_ok p \<longleftrightarrow> (case bc_rate_card p of None \<Rightarrow> True | Some c \<Rightarrow> new_TokenRateCard c = Inr c)"

lemma map_sum_id_Inr: "map_sum f id r = Inr y \<longleftrightarrow> r = Inr y"
  by (cases r) auto

lemma items_at_costs_of:
  "card_ok p \<Longrightarrow> items_at (costs_of p v) (currency_of c)
     = (case bc_rate_card p of None \<Rightarrow> 0 | Some d \<Rightarrow> if rc_currency d = currency_of c then v else 0)"
  by (auto simp: costs_of_def card_ok_def rates_nonneg split: option.split)

lemma actual_amount_ok:
  assumes "card_ok p" and "new_TokenUsage u = Inr u"
  obtains b where "actual_amount p u = Inr b" and "amount_ok b"
proof -
  let ?cost = "case bc_rate_card p of None \<Rightarrow> 0 | Some c \<Rightarrow> calculate_cost c u"
  have "\<exists>b. actual_amount p u = Inr b"
    unfolding actual_amount_def Let_def
    using usage_nonneg [OF assms(2)] assms(1) calculate_cost_nonneg [OF _ assms(2)]
    by (intro new_amount_ex)
      (auto simp: counters_def zero_amount_def costs_of_def card_ok_def rates_nonneg total_of_def split: option.splits)
  then show thesis using that new_amount_Inr(1) by (auto simp: actual_amount_def Let_def)
qed

lemma worst_case_covers:
  assumes "card_ok p" and "new_TokenUsage u = Inr u" and w: "usage_within u i out"
    and a: "worst_case p i out = Inr a" and b: "actual_amount p u = Inr b"
  shows "res k b \<le> res k a"
proof -
  obtain est where est: "(case bc_rate_card p of None \<Rightarrow> Inr 0 | Some c \<Rightarrow> estimate_max_cost c i out) = Inr est"
    using a by (auto simp: worst_case_def split: sum.splits)
  let ?cost = "case bc_rate_card p of None \<Rightarrow> 0 | Some c \<Rightarrow> calculate_cost c u"
  have le: "?cost \<le> est"
    using est cost_within_estimate [OF _ assms(2) w] assms(1) by (fastforce simp: card_ok_def split: option.splits)
  have a': "new_UsageAmount (zero_amount\<lparr>model_calls := 1, input_tokens := i, output_tokens := out,
      total_tokens := i + out, cache_hit_tokens := i, cache_miss_tokens := i, reasoning_tokens := out,
      costs_micros := costs_of p est\<rparr>) = Inr a"
    using a est by (auto simp: worst_case_def map_sum_id_Inr split: sum.splits)
  note A = new_amount_Inr [OF a'] and B = new_amount_Inr [OF b [unfolded actual_amount_def Let_def]]
  show ?thesis
  proof (cases k)
    case (Cost c)
    then show ?thesis
      using A(3) [of c] B(3) [of c] le by (simp add: items_at_costs_of [OF assms(1)] split: option.splits)
  qed (use A(2) B(2) w usage_nonneg [OF assms(2)] in \<open>auto simp: counters_def zero_amount_def usage_within_def\<close>)
qed

lemma worst_case_ok: "worst_case p i out = Inr a \<Longrightarrow> amount_ok a"
  using new_amount_Inr(1) by (auto simp: worst_case_def map_sum_id_Inr split: sum.splits)

lemma usage_charge:
  assumes "card_ok p" and "\<And>u. reported_usage reply = Some u \<Longrightarrow> new_TokenUsage u = Inr u"
  shows "charge_usage p reply = Some y \<Longrightarrow> \<exists>x. y = Inr x \<and> pred_option amount_ok x"
    and "charged a (charge_usage p reply)
      = (case reported_usage reply of None \<Rightarrow> None | Some u \<Rightarrow> (case actual_amount p u of Inr b \<Rightarrow> Some b | Inl _ \<Rightarrow> None))"
proof -
  have paid: "\<exists>b. actual_amount p u = Inr b \<and> amount_ok b" if "reported_usage reply = Some u" for u
    using actual_amount_ok [OF assms(1) assms(2) [OF that]] by metis
  show "charge_usage p reply = Some y \<Longrightarrow> \<exists>x. y = Inr x \<and> pred_option amount_ok x"
    using paid by (cases "reported_usage reply") (auto simp: charge_usage_def)
  show "charged a (charge_usage p reply)
      = (case reported_usage reply of None \<Rightarrow> None | Some u \<Rightarrow> (case actual_amount p u of Inr b \<Rightarrow> Some b | Inl _ \<Rightarrow> None))"
    using paid by (cases "reported_usage reply") (auto simp: charge_usage_def charged_def)
qed

text \<open>A call of the client that got as far as its reservation is a reserved call.\<close>

lemma generate_cases:
  assumes "generate to_json p i call r s = (out, s')"
  obtains (early) e where "out = Inl e" "s' = s"
  | (reserved) n a t where "estimate_input to_json p (m_estimates s) r = Inr n" "worst_case p n (output_bound p r) = Inr a"
      "reserved_call (if rq_usage_scopes r \<noteq> [] then rq_usage_scopes r else bc_default_scopes p) a i (charge_usage p)
        (call r) s = (out, t)" "m_ledger s' = m_ledger t" "m_world s' = m_world t" "\<And>e. out = Inl e \<Longrightarrow> s' = t"
  using assms by (auto simp: generate_def Let_def split: sum.splits prod.splits if_splits)


text \<open>Other tasks that, besides, settle at most what they reserved.\<close>

definition leaves_solvent :: "string \<Rightarrow> ('w meter \<Rightarrow> 'x \<times> 'w meter) \<Rightarrow> bool" where
  "leaves_solvent i call \<longleftrightarrow> (\<forall>t. \<exists>ops. list_all op_ok ops \<and> list_all (spares i) ops \<and> list_all frugal ops
     \<and> m_ledger (snd (call t)) = run_ops ops (m_ledger t))"

lemma leaves_solvent_alone: "leaves_solvent i call \<Longrightarrow> leaves_alone i call"
  by (auto simp: leaves_solvent_def leaves_alone_def)

lemma solvent_commit:
  assumes ok: "ledger_ok L" "solvent (books_of L)" and r: "dict_get (reservations L) (reservation_id r) = Some r"
    and x: "pred_option amount_ok x" "\<And>k a. x = Some a \<Longrightarrow> res k a \<le> res k (amount r)"
  obtains L' where "ledger_commit r x L = (Inr (), L')" "solvent (books_of L')"
proof -
  obtain out L' where c: "ledger_commit r x L = (out, L')" by fastforce
  have op: "op_ok (Commit r x)" "frugal (Commit r x)" using x by (cases x; auto)+
  have "solvent (snd (book_op (Commit r x) (books_of L)))"
    by (rule solvent_op [OF op books_of_ok [OF ok(1)] ok(2)])
  with simulatesD(1) [OF op_simulates [OF ok(1) op(1)]] r c
  have "solvent (books_of L')" and "out = Inr ()"
    by (auto simp: Let_def solvent_def)
  with c show thesis by (intro that) simp_all
qed

lemma solvent_rollback:
  assumes ok: "ledger_ok L" "solvent (books_of L)" and "ledger_rollback r L = (out, L')"
  shows "solvent (books_of L')"
  using run_ops_solvent [of L "[Rollback r]"] assms by simp

text \<open>
  C25. Limits hold for model calls. As long as no scope is overdrawn before the call, the other tasks
  settle at most what they reserve, and the provider reports at most the estimated tokens (with the
  cache detail within the input and the reasoning within the output), no scope is overdrawn after it,
  in tokens, calls, concurrency and money; and the caller gets the provider's own answer, never a
  limit error after the call has been paid for.
\<close>

theorem model_call_within_limits:
  assumes ok: "ledger_ok (m_ledger s)" "solvent (books_of (m_ledger s))" and card: "card_ok p"
    and others: "leaves_solvent i (call r)"
    and est: "estimate_input to_json p (m_estimates s) r = Inr n"
    and usage: "\<And>t u. reported_usage (fst (call r t)) = Some u \<Longrightarrow>
      new_TokenUsage u = Inr u \<and> usage_within u n (output_bound p r)"
    and run: "generate to_json p i call r s = (out, s')"
  shows "solvent (books_of (m_ledger s')) \<and> ((\<exists>e. out = Inl e \<and> s' = s) \<or> (\<exists>t. out = map_sum Raised id (fst (call r t))))"
proof (rule generate_cases [OF run])
  fix n' a t
  assume "estimate_input to_json p (m_estimates s) r = Inr n'" and same: "m_ledger s' = m_ledger t" "\<And>e. out = Inl e \<Longrightarrow> s' = t"
    and worst: "worst_case p n' (output_bound p r) = Inr a"
    and call: "reserved_call (if rq_usage_scopes r \<noteq> [] then rq_usage_scopes r else bc_default_scopes p) a i
      (charge_usage p) (call r) s = (out, t)" (is "reserved_call ?ss _ _ _ _ _ = _")
  then have a: "worst_case p n (output_bound p r) = Inr a" "amount_ok a" using est worst_case_ok by auto
  have charge: "\<exists>x. y = Inr x \<and> pred_option amount_ok x" if "charge_usage p (fst (call r x)) = Some y" for x y
    using usage_charge(1) [OF card _ that] usage by blast
  show ?thesis
  proof (rule reserved_call_settles [OF ok(1) a(2) leaves_solvent_alone [OF others] charge call], assumption)
    fix v x reply u
    assume reply: "call r x = (reply, u)" and v: "ledger_reserve ?ss a i (m_ledger s) = (Inr v, m_ledger x)"
      and u: "ledger_ok (m_ledger u)" "dict_get (reservations (m_ledger u)) i = Some v"
      and out: "out = map_sum Raised id reply \<or> (\<exists>e. out = Inl (Accounting e) \<and> charge_usage p reply \<noteq> None)"
      and settled: "\<exists>y. charge_usage p reply = Some (Inr y) \<and> ledger_commit v y (m_ledger u)
          = (case out of Inl (Accounting e) \<Rightarrow> Inl e | _ \<Rightarrow> Inr (), m_ledger t)
        \<or> charge_usage p reply = None \<and> ledger_rollback v (m_ledger u) = (Inr (), m_ledger t)"
    note opened = usage.opened [OF ok(1) a(2) v]
    then have id: "reservation_id v = i" "amount v = a" by simp_all
    have "solvent (books_of (m_ledger x))"
      using run_ops_solvent [of "m_ledger s" "[Reserve ?ss a i]"] ok a(2) v by simp
    moreover obtain ops where "list_all op_ok ops" "list_all frugal ops" "m_ledger u = run_ops ops (m_ledger x)"
      using others [unfolded leaves_solvent_def, rule_format, of x] reply by auto
    ultimately have su: "solvent (books_of (m_ledger u))" using run_ops_solvent opened by simp
    show ?thesis
    proof (cases "charge_usage p reply")
      case None
      with settled solvent_rollback [OF u(1) su] have "solvent (books_of (m_ledger t))" by auto
      with None out reply same(1) show ?thesis by (metis fst_conv)
    next
      case (Some c)
      then obtain tu y where tu: "reported_usage reply = Some tu" and y: "actual_amount p tu = Inr y" "c = Inr (Some y)"
        using charge [of x c] reply by (auto simp: charge_usage_def map_sum_id_Inr split: sum.splits)
          (metis map_sum.simps isl_map_sum sum.collapse(1,2) sum.disc(1,2))
      note tu_ok = usage [of x tu]
      have le: "res k y \<le> res k (amount v)" for k
        using worst_case_covers [OF card _ _ a(1) y(1)] tu_ok reply tu id by simp
      have "pred_option amount_ok (Some y)" using charge [of x c] reply Some y(2) by simp
      from solvent_commit [OF u(1) su _ this, of v] le u(2) id obtain L'
        where "ledger_commit v (Some y) (m_ledger u) = (Inr (), L')" "solvent (books_of L')" by auto
      with settled Some y(2) have "solvent (books_of (m_ledger t))" "\<nexists>e. out = Inl (Accounting e)" by auto
      with out reply same(1) show ?thesis by (metis fst_conv)
    qed
  qed (use ok(2) same in auto)
qed (use ok(2) in auto)

text \<open>
  The default estimator counts messages, tools, tool outputs and the schema, but no input items: a
  request in the canonical form is estimated as one token, whatever its items hold.
\<close>

definition items_request :: "input_item list \<Rightarrow> model_request" where
  "items_request items = \<lparr>rq_messages = [], rq_input_items = items, rq_tools = [], rq_tool_outputs = [],
     rq_previous_response_id = None, rq_response_schema = None, rq_response_schema_name = ''matterloop_response'',
     rq_max_output_tokens = None, rq_temperature = None, rq_tool_choice = None, rq_continuation = None,
     rq_usage_scopes = [], rq_context_scope = None, rq_context_mode = CM_REPLACE, rq_metadata = []\<rparr>"

lemma input_items_not_estimated:
  assumes "items \<noteq> []"
  shows "new_ModelRequest (items_request items) = Inr (items_request items)"
    and "estimate_utf8_input_tokens to_json (items_request items) = Inr 1"
  using assms by (simp_all add: items_request_def new_ModelRequest_def require_def estimate_utf8_input_tokens_def
      blank_def strip_def is_space_def)

section \<open>Instances\<close>

definition demo_meter :: "unit meter" where
  "demo_meter = \<lparr>m_ledger = new_ledger (Some demo_limits), m_estimates = [], m_world = ()\<rparr>"

definition demo_tool :: "unit meter \<Rightarrow> (exn + unit) \<times> unit meter" where
  "demo_tool t = (Inl Cancelled, t)"

definition demo_proxy :: model_proxy where
  "demo_proxy = \<lparr>bc_rate_card = Some \<lparr>rc_currency = ''USD'', rc_effective_from = (2026, 1, 1), rc_input = 1000000,
     rc_output = 2000000, rc_cache_hit = None, rc_cache_miss = None, rc_reasoning = None\<rparr>,
     bc_default_scopes = [''run''], bc_default_max_output_tokens = 10, bc_estimator = None\<rparr>"

definition demo_model_request :: model_request where
  "demo_model_request = (items_request [])\<lparr>rq_messages := [\<lparr>mm_role = USER, mm_content = ''hello'', mm_name = None\<rparr>]\<rparr>"

definition demo_usage :: token_usage where
  "demo_usage = \<lparr>tu_input = 3, tu_output = 2, tu_total = 5, tu_cache_hit = 0, tu_cache_miss = 3, tu_reasoning = 1\<rparr>"

definition demo_client :: "model_request \<Rightarrow> unit meter \<Rightarrow> (call_error + model_response) \<times> unit meter" where
  "demo_client r t = (Inl (ParseError ''no JSON'' (Some demo_usage)), t)"

lemma demo_leaves: "leaves_alone i demo_tool" "leaves_alone i (demo_client r)" "leaves_solvent i (demo_client r)"
  by (auto simp: leaves_alone_def leaves_solvent_def demo_tool_def demo_client_def intro!: exI [of _ "[]"])

lemma demo_meter_ok: "ledger_ok (m_ledger demo_meter)" "solvent (books_of (m_ledger demo_meter))"
proof -
  have "limits_ok demo_limits" by code_simp
  then show "solvent (books_of (m_ledger demo_meter))"
    using new_ledger_solvent [of "Some demo_limits"] by (simp add: demo_meter_def)
qed (simp add: demo_meter_def new_ledger_ok)

lemma demo_usage_ok: "reported_usage (fst (demo_client r t)) = Some u \<Longrightarrow> new_TokenUsage u = Inr u \<and> usage_within u 17 10"
  by (auto simp: demo_client_def demo_usage_def new_TokenUsage_def require_def usage_values_def usage_within_def total_of_def)

lemma demo_card_ok: "card_ok demo_proxy"
  by code_simp

abbreviation demo_call :: "(call_error proxy_error + model_response) \<times> unit meter" where
  "demo_call \<equiv> generate (\<lambda>_. Inr []) demo_proxy ''r'' demo_client demo_model_request demo_meter"

theorem tool_charged_on_success_witness:
  "\<exists>r L s'. budgeted_tool (\<lambda>_. [''run'']) ''r'' (\<lambda>_ _. demo_tool) () () demo_meter = (Inl (Raised Cancelled), s')
     \<and> settled_for r None L (m_ledger s')"
proof -
  obtain s' where run: "budgeted_tool (\<lambda>_. [''run'']) ''r'' (\<lambda>_ _. demo_tool) () () demo_meter = (Inl (Raised Cancelled), s')"
  proof -
    have "fst (budgeted_tool (\<lambda>_. [''run'']) ''r'' (\<lambda>_ _. demo_tool) () () demo_meter) = Inl (Raised Cancelled)"
      by code_simp
    then show thesis using that by (metis prod.collapse)
  qed
  from tool_charged_on_success [OF demo_meter_ok(1) _ this] demo_leaves(1) show ?thesis
    by (auto simp: run demo_tool_def unit_charged_def)
qed



theorem model_call_within_limits_witness: "solvent (books_of (m_ledger (snd demo_call)))"
proof -
  have est: "estimate_input (\<lambda>_. Inr []) demo_proxy (m_estimates demo_meter) demo_model_request = Inr 17"
    and out: "output_bound demo_proxy demo_model_request = 10"
    by code_simp+
  obtain result s' where run: "demo_call = (result, s')" by fastforce
  have "solvent (books_of (m_ledger s'))"
    by (rule conjunct1 [OF model_call_within_limits [where call = demo_client and r = demo_model_request
          and s = demo_meter, OF demo_meter_ok demo_card_ok demo_leaves(3) est _ run]])
      (simp add: out demo_usage_ok)
  then show ?thesis by (simp add: run)
qed

end
