(* ===== verification/TeamTypes.thy ===== *)
theory TeamTypes
  imports TaskGraph
begin

text \<open>
  What the team controller of \<open>matterloop_agents/collaboration/orchestrator.py\<close> exchanges with its
  components: the contexts and results of \<open>models.py\<close>, the events of \<open>events.py\<close>, the components as an
  environment of calls, and the state of the controller.
\<close>

section \<open>Exceptions\<close>

abbreviation TeamRunNotFound :: "string \<Rightarrow> exn" where
  "TeamRunNotFound \<equiv> Other ''TeamRunNotFoundError''"

abbreviation TeamRunActive :: "string \<Rightarrow> exn" where
  "TeamRunActive \<equiv> Other ''TeamRunActiveError''"

abbreviation TeamExecution :: "string \<Rightarrow> exn" where
  "TeamExecution \<equiv> Other ''TeamExecutionError''"

abbreviation TeamStateConflict :: "string \<Rightarrow> exn" where
  "TeamStateConflict \<equiv> Other ''TeamStateConflictError''"

definition deadline_exceeded :: exn where
  "deadline_exceeded = Other ''_TeamDeadlineExceeded'' []"

fun is_conflict :: "exn \<Rightarrow> bool" where
  "is_conflict (Other t m) \<longleftrightarrow> t = ''TeamStateConflictError''"
| "is_conflict _ \<longleftrightarrow> False"

fun is_resource_limit :: "exn \<Rightarrow> bool" where
  "is_resource_limit (ResourceLimit t m) \<longleftrightarrow> True"
| "is_resource_limit _ \<longleftrightarrow> False"

fun is_capacity :: "exn \<Rightarrow> bool" where
  "is_capacity (Other t m) \<longleftrightarrow> t = ''AgentCapacityError''"
| "is_capacity _ \<longleftrightarrow> False"

fun is_incapable :: "exn \<Rightarrow> bool" where
  "is_incapable (Other t m) \<longleftrightarrow> t = ''NoCapableAgentError''"
| "is_incapable _ \<longleftrightarrow> False"

section \<open>Contexts and results\<close>

record planning_context =
  pc_run_id :: string
  pc_request :: team_request
  pc_cycle :: int
  pc_plan_revision :: int
  pc_agents :: "agent_spec list"
  pc_reviews :: "team_review list"
  pc_human :: "human_record list"

definition new_TeamPlanningContext :: "planning_context \<Rightarrow> exn + planning_context" where
  "new_TeamPlanningContext c =
     require (\<not> blank (pc_run_id c)) ''run_id must not be empty''
    (require (\<not> pc_cycle c < 1) ''cycle must be at least 1''
    (require (\<not> pc_plan_revision c < 0) ''plan_revision must not be negative''
    (Inr c)))"

definition available_capabilities :: "planning_context \<Rightarrow> string set" where
  "available_capabilities c = \<Union> (capabilities ` set (pc_agents c))"

record review_context =
  vc_run_id :: string
  vc_request :: team_request
  vc_cycle :: int
  vc_plan_revision :: int
  vc_results :: "task_result list"
  vc_output :: string
  vc_reviews :: "team_review list"
  vc_human :: "human_record list"

definition new_TeamReviewContext :: "review_context \<Rightarrow> exn + review_context" where
  "new_TeamReviewContext c =
     require (\<not> blank (vc_run_id c)) ''run_id must not be empty''
    (require (\<not> vc_cycle c < 1) ''cycle must be at least 1''
    (require (\<not> vc_plan_revision c < 0) ''plan_revision must not be negative''
    (Inr c)))"

record agent_context =
  ac_run_id :: string
  ac_request :: team_request
  ac_task :: task_spec
  ac_agent :: string
  ac_attempt :: int
  ac_results :: "task_result list"
  ac_previous_error :: string
  ac_human :: "human_record list"
  ac_propagation :: "(string \<times> string) list"

definition new_AgentTaskContext :: "agent_context \<Rightarrow> exn + agent_context" where
  "new_AgentTaskContext c =
     require (\<not> blank (ac_run_id c)) ''team_run_id must not be empty''
    (require (\<not> blank (ac_agent c)) ''agent_id must not be empty''
    (require (\<not> ac_attempt c < 1) ''attempt must be at least 1''
    (require (propagation_ok (ac_propagation c))
       ''propagation_context must contain only traceparent/tracestate string values''
    (Inr c))))"

record team_result =
  tx_run_id :: string
  tx_status :: team_status
  tx_results :: "task_result list"
  tx_output :: string
  tx_stop_reason :: "team_stop_reason option"
  tx_error :: string
  tx_cycle :: int
  tx_history :: "cycle_record list"
  tx_interaction :: "interaction option"
  tx_human :: "human_record list"
  tx_started :: "datetime option"
  tx_finished :: "datetime option"

definition team_result_of :: "team_snapshot \<Rightarrow> team_result" where
  "team_result_of s =
     \<lparr>tx_run_id = tn_run_id s, tx_status = tn_status s,
      tx_results = concat (map (\<lambda>t. case ts_result t of
          Some r \<Rightarrow> if ts_status t = SUCCEEDED \<and> tr_success r then [r] else [] | None \<Rightarrow> []) (tn_tasks s)),
      tx_output = tn_output s, tx_stop_reason = tn_stop_reason s, tx_error = tn_error s,
      tx_cycle = tn_cycle s, tx_history = tn_history s, tx_interaction = tn_interaction s,
      tx_human = tn_human s, tx_started = Some (tn_created s),
      tx_finished = (if team_is_terminal (tn_status s) then Some (tn_updated s) else None)\<rparr>"

section \<open>Events\<close>

datatype team_event_type =
    TE_STARTED | TE_PLANNING_STARTED | TE_PLAN_CREATED | TE_REPLAN_REQUESTED | TE_TASK_READY
  | TE_TASK_ASSIGNED | TE_TASK_STARTED | TE_TASK_VERIFYING | TE_TASK_VERIFIED | TE_TASK_RETRYING
  | TE_TASK_COMPLETED | TE_TASK_FAILED | TE_APPROVAL_REQUESTED | TE_APPROVAL_GRANTED | TE_APPROVAL_REJECTED
  | TE_REVIEW_STARTED | TE_REVIEW_COMPLETED | TE_HUMAN_INTERACTION_REQUESTED | TE_HUMAN_RESPONSE_SUBMITTED
  | TE_HUMAN_APPROVED | TE_HUMAN_REJECTED | TE_HUMAN_REVISED | TE_HUMAN_INPUT_PROVIDED | TE_PAUSED
  | TE_RESUMED | TE_COMPLETED | TE_BLOCKED | TE_CANCELLED | TE_TIMED_OUT | TE_FAILED

record team_event =
  te_type :: team_event_type
  te_snapshot :: team_snapshot
  te_detail :: string
  te_metadata :: metadata
  te_occurred_at :: datetime

definition new_TeamEvent :: "team_event \<Rightarrow> exn + team_event" where
  "new_TeamEvent e = require (dt_offset (te_occurred_at e) \<noteq> None) ''occurred_at must include a timezone'' (Inr e)"

section \<open>Components and state\<close>

text \<open>
  A lease of the agent directory: the agent's specification, a number for the endpoint, and one for
  the slot of the directory that the lease was taken from. An
  awaited call is a function of the world \<open>'w\<close> and may raise: \<open>Cancelled\<close> when the awaiting task is
  cancelled. \<open>c_invoke\<close> is \<open>middleware.invoke\<close> around the endpoint of a lease. \<open>c_cancels\<close> are the
  runs that the \<open>cancel\<close> calls of other tasks have marked since the flags were last read.
  \<open>c_overdue\<close> tells whether the time limit passed while the awaited operation ran; \<open>c_observe\<close>
  and \<open>c_prepare\<close> are present with an instrumentation publisher and a snapshot preparer.
\<close>

record agent_lease =
  al_agent :: agent_spec
  al_endpoint :: nat
  al_slot :: nat

record 'w team_env =
  owner_id :: string
  c_now :: "'w \<Rightarrow> datetime \<times> 'w"
  c_mono :: "'w \<Rightarrow> rat \<times> 'w"
  c_uuid :: "'w \<Rightarrow> string \<times> 'w"
  c_cancels :: "'w \<Rightarrow> string list \<times> 'w"
  c_overdue :: "rat \<Rightarrow> 'w \<Rightarrow> bool \<times> 'w"
  c_create :: "team_snapshot \<Rightarrow> 'w \<Rightarrow> (exn + unit) \<times> 'w"
  c_load :: "string \<Rightarrow> 'w \<Rightarrow> (exn + team_snapshot option) \<times> 'w"
  c_save :: "team_snapshot \<Rightarrow> int \<Rightarrow> 'w \<Rightarrow> (exn + team_snapshot) \<times> 'w"
  c_claim :: "string \<Rightarrow> string \<Rightarrow> 'w \<Rightarrow> (exn + bool) \<times> 'w"
  c_unclaim :: "string \<Rightarrow> string \<Rightarrow> 'w \<Rightarrow> (exn + unit) \<times> 'w"
  c_publish :: "team_event \<Rightarrow> 'w \<Rightarrow> (exn + unit) \<times> 'w"
  c_observe :: "(team_event \<Rightarrow> 'w \<Rightarrow> (exn + unit) \<times> 'w) option"
  c_prepare :: "(team_snapshot \<Rightarrow> 'w \<Rightarrow> (exn + team_snapshot) \<times> 'w) option"
  c_candidates :: "'w \<Rightarrow> agent_spec list \<times> 'w"
  c_plan :: "planning_context \<Rightarrow> 'w \<Rightarrow> (exn + task_spec list) \<times> 'w"
  c_acquire :: "task_spec \<Rightarrow> 'w \<Rightarrow> (exn + agent_lease) \<times> 'w"
  c_release :: "agent_lease \<Rightarrow> 'w \<Rightarrow> (exn + unit) \<times> 'w"
  c_invoke :: "agent_lease \<Rightarrow> agent_context \<Rightarrow> 'w \<Rightarrow> (exn + task_result) \<times> 'w"
  c_verify :: "agent_context \<Rightarrow> task_result \<Rightarrow> 'w \<Rightarrow> (exn + task_verification) \<times> 'w"
  c_gate :: "agent_context \<Rightarrow> 'w \<Rightarrow> (exn + approval_decision) \<times> 'w"
  c_aggregate :: "team_request \<Rightarrow> task_result list \<Rightarrow> 'w \<Rightarrow> (exn + string) \<times> 'w"
  c_review :: "(review_context \<Rightarrow> 'w \<Rightarrow> (exn + team_review) \<times> 'w) option"

text \<open>
  The trace records the observable actions in order; the code keeps no such list. \<open>leases\<close> is the
  exit stack of a batch.
\<close>

datatype team_action =
    Created team_snapshot
  | Stored team_snapshot
  | Announced team_event
  | Planned planning_context
  | Gated agent_context
  | Leased agent_lease
  | Released agent_lease
  | Invoked agent_context
  | Checked agent_context task_result
  | Aggregated
  | Reviewed review_context

record 'w team_state =
  team_world :: 'w
  active_runs :: "string set"
  cancel_requested :: "string set"
  leases :: "agent_lease list"
  team_trace :: "team_action list"

type_synonym ('w, 'a) team = "('w team_state, exn, 'a) prog"

definition doE :: "('w \<Rightarrow> (exn + 'a) \<times> 'w) \<Rightarrow> ('w, 'a) team" where
  "doE f = (\<lambda>s. case f (team_world s) of (r, w) \<Rightarrow> (r, s\<lparr>team_world := w\<rparr>))"

definition readE :: "('w \<Rightarrow> 'a \<times> 'w) \<Rightarrow> ('w, 'a) team" where
  "readE f = (\<lambda>s. case f (team_world s) of (x, w) \<Rightarrow> (Inr x, s\<lparr>team_world := w\<rparr>))"

definition noteE :: "team_action \<Rightarrow> ('w, unit) team" where
  "noteE a = modifyE (\<lambda>s. s\<lparr>team_trace := team_trace s @ [a]\<rparr>)"

text \<open>\<open>try: m finally: f\<close>: an exception of \<open>f\<close> replaces the outcome of \<open>m\<close>.\<close>

definition finallyE :: "('s, 'e, 'a) prog \<Rightarrow> ('s, 'e, unit) prog \<Rightarrow> ('s, 'e, 'a) prog" where
  "finallyE m f = (\<lambda>s. case m s of (r, s1) \<Rightarrow> (case f s1 of (Inl e, s2) \<Rightarrow> (Inl e, s2) | (Inr _, s2) \<Rightarrow> (r, s2)))"

text \<open>\<open>with suppress(Exception): m\<close>\<close>

definition suppressE :: "('s, exn, unit) prog \<Rightarrow> ('s, exn, unit) prog" where
  "suppressE m = tryE m (\<lambda>e. if is_exception e then returnE () else raiseE e)"

fun eachE :: "('x \<Rightarrow> ('s, 'e, unit) prog) \<Rightarrow> 'x list \<Rightarrow> ('s, 'e, unit) prog" where
  "eachE f [] = returnE ()"
| "eachE f (x # xs) = thenE (f x) (eachE f xs)"

fun foldE :: "('x \<Rightarrow> 'a \<Rightarrow> ('s, 'e, 'a) prog) \<Rightarrow> 'x list \<Rightarrow> 'a \<Rightarrow> ('s, 'e, 'a) prog" where
  "foldE f [] a = returnE a"
| "foldE f (x # xs) a = bindE (f x a) (foldE f xs)"

text \<open>
  \<open>asyncio.gather\<close>: every awaitable runs, here in list order, also after one of them has raised; the
  first exception is passed on.
\<close>

fun outcomes_of :: "('x \<Rightarrow> ('s, 'e, 'a) prog) \<Rightarrow> 'x list \<Rightarrow> 's \<Rightarrow> ('e + 'a) list \<times> 's" where
  "outcomes_of f [] s = ([], s)"
| "outcomes_of f (x # xs) s = (case f x s of (r, s1) \<Rightarrow> (case outcomes_of f xs s1 of (rs, s2) \<Rightarrow> (r # rs, s2)))"

fun first_error :: "('e + 'a) list \<Rightarrow> 'e + 'a list" where
  "first_error [] = Inr []"
| "first_error (Inl e # rs) = Inl e"
| "first_error (Inr x # rs) = map_sum id (Cons x) (first_error rs)"

definition gatherE :: "('x \<Rightarrow> ('s, 'e, 'a) prog) \<Rightarrow> 'x list \<Rightarrow> ('s, 'e, 'a list) prog" where
  "gatherE f xs = (\<lambda>s. case outcomes_of f xs s of (rs, s') \<Rightarrow> (first_error rs, s'))"

text \<open>An operation on the graph; after an exception the graph is dropped with its frame.\<close>

definition graphE :: "(exn + 'a) \<times> task_graph \<Rightarrow> ('s, exn, 'a \<times> task_graph) prog" where
  "graphE r = liftE (case r of (Inl e, _) \<Rightarrow> Inl e | (Inr x, G) \<Rightarrow> Inr (x, G))"

end
