(* ===== verification/TeamOrchestrator.thy ===== *)
theory TeamOrchestrator
  imports TeamTypes
begin

text \<open>
  \<open>TeamOrchestrator\<close> of \<open>matterloop_agents/collaboration/orchestrator.py\<close>, method by method. The local
  variables \<open>snapshot\<close> and \<open>graph\<close> are passed explicitly; the graph is a mutable object of one frame,
  so every operation returns it. Texts outside the range of \<open>char\<close> are transliterated; numbers
  are left out of error messages. The loops have a bound computed from the state; \<open>FuelOut\<close> would
  mark its exhaustion.
\<close>

section \<open>Saving and publishing\<close>

text \<open>
  The keyword arguments of \<open>_save\<close>. Status, stop reason, output and error are always set (to their
  defaults when not given); \<open>None\<close> in the others is \<open>_UNSET\<close>.
\<close>

record save_args =
  sv_status :: team_status
  sv_reason :: "team_stop_reason option"
  sv_output :: string
  sv_error :: string
  sv_tasks :: "task_state list option"
  sv_cycle :: "int option"
  sv_revision :: "int option"
  sv_history :: "cycle_record list option"
  sv_interaction :: "interaction option option"
  sv_review :: "team_review option option"
  sv_human :: "human_record list option"
  sv_approved :: "int option option"

definition saving :: "team_status \<Rightarrow> save_args" where
  "saving st = \<lparr>sv_status = st, sv_reason = None, sv_output = [], sv_error = [], sv_tasks = None, sv_cycle = None,
     sv_revision = None, sv_history = None, sv_interaction = None, sv_review = None, sv_human = None,
     sv_approved = None\<rparr>"

definition given :: "'a option \<Rightarrow> 'a \<Rightarrow> 'a" where
  "given x old = (case x of None \<Rightarrow> old | Some new \<Rightarrow> new)"

definition is_inactive :: "team_status \<Rightarrow> bool" where
  "is_inactive st \<longleftrightarrow> st \<in> {T_PAUSED, T_BLOCKED, T_WAITING_APPROVAL} \<or> team_is_terminal st"

definition candidate_of :: "team_snapshot \<Rightarrow> task_graph option \<Rightarrow> save_args \<Rightarrow> datetime \<Rightarrow> team_snapshot" where
  "candidate_of s G a now =
     (let inactive = is_inactive (sv_status a) in
      s\<lparr>tn_tasks := given (sv_tasks a) (case G of None \<Rightarrow> tn_tasks s | Some g \<Rightarrow> graph_states g),
        tn_status := sv_status a, tn_stop_reason := sv_reason a, tn_output := sv_output a, tn_error := sv_error a,
        tn_cycle := given (sv_cycle a) (tn_cycle s), tn_plan_revision := given (sv_revision a) (tn_plan_revision s),
        tn_history := given (sv_history a) (tn_history s),
        tn_interaction := given (sv_interaction a) (tn_interaction s),
        tn_review := given (sv_review a) (tn_review s), tn_human := given (sv_human a) (tn_human s),
        tn_approved_cycle := given (sv_approved a) (tn_approved_cycle s),
        tn_elapsed := (case tn_started s of
            Some t0 \<Rightarrow> if inactive then tn_elapsed s + max 0 (total_seconds now t0) else tn_elapsed s
          | None \<Rightarrow> tn_elapsed s),
        tn_started := (case tn_started s of
            Some t0 \<Rightarrow> if inactive then None else Some t0
          | None \<Rightarrow> if inactive then None else Some now),
        tn_updated := now\<rparr>)"

text \<open>
  \<open>_prepare_snapshot\<close>: a preparer that fails or changes more than the propagation context is ignored.
  The snapshots are compared as values of the model.
\<close>

definition prepare_snapshot :: "'w team_env \<Rightarrow> team_snapshot \<Rightarrow> ('w, team_snapshot) team" where
  "prepare_snapshot env s = (case c_prepare env of
       None \<Rightarrow> returnE s
     | Some f \<Rightarrow> tryE
         (bindE (doE (f s)) (\<lambda>p.
            if p\<lparr>tn_propagation := tn_propagation s\<rparr> \<noteq> s
            then raiseE (ValueError ''team snapshot preparer changed business state'') else returnE p))
         (\<lambda>e. if is_exception e then returnE s else raiseE e))"

definition store_snapshot :: "'w team_env \<Rightarrow> team_snapshot \<Rightarrow> int \<Rightarrow> ('w, team_snapshot) team" where
  "store_snapshot env s version =
     bindE (doE (c_save env s version)) (\<lambda>stored. thenE (noteE (Stored stored)) (returnE stored))"

definition save_team ::
  "'w team_env \<Rightarrow> team_snapshot \<Rightarrow> task_graph option \<Rightarrow> save_args \<Rightarrow> ('w, team_snapshot) team" where
  "save_team env s G a =
     bindE (readE (c_now env)) (\<lambda>now.
     bindE (liftE (new_TeamSnapshot (candidate_of s G a now))) (\<lambda>c.
     bindE (prepare_snapshot env c) (\<lambda>p. store_snapshot env p (tn_version s))))"

definition persist_prepared :: "'w team_env \<Rightarrow> team_snapshot \<Rightarrow> ('w, team_snapshot) team" where
  "persist_prepared env s = bindE (prepare_snapshot env s) (\<lambda>p.
     if p = s then returnE s else store_snapshot env p (tn_version s))"

definition publish_team ::
  "'w team_env \<Rightarrow> team_event_type \<Rightarrow> team_snapshot \<Rightarrow> string \<Rightarrow> metadata \<Rightarrow> ('w, unit) team" where
  "publish_team env et s detail meta =
     bindE (readE (c_now env)) (\<lambda>now.
     bindE (liftE (new_TeamEvent \<lparr>te_type = et, te_snapshot = s, te_detail = detail, te_metadata = meta,
       te_occurred_at = now\<rparr>)) (\<lambda>ev.
     finallyE (thenE (doE (c_publish env ev)) (noteE (Announced ev)))
       (case c_observe env of None \<Rightarrow> returnE () | Some f \<Rightarrow> suppressE (doE (f ev)))))"

abbreviation text_entry :: "string \<Rightarrow> string \<Rightarrow> pyval \<times> pyval" where
  "text_entry k v \<equiv> (PStr k, PStr v)"

definition publish_ready :: "'w team_env \<Rightarrow> team_snapshot \<Rightarrow> task_spec list \<Rightarrow> ('w, unit) team" where
  "publish_ready env s = eachE (\<lambda>t. publish_team env TE_TASK_READY s []
     [text_entry ''task_id'' (task_id t), text_entry ''capability'' (capability t)])"

definition require_run :: "'w team_env \<Rightarrow> string \<Rightarrow> ('w, team_snapshot) team" where
  "require_run env rid = bindE (doE (c_load env rid)) (\<lambda>x. case x of
     None \<Rightarrow> raiseE (TeamRunNotFound (''team run not found: '' @ rid)) | Some s \<Rightarrow> returnE s)"

text \<open>\<open>TaskGraph.from_snapshot(snapshot) if snapshot.tasks else None\<close>\<close>

definition graph_of :: "team_snapshot \<Rightarrow> exn + task_graph option" where
  "graph_of s = (if tn_tasks s = [] then Inr None else map_sum id Some (from_snapshot s))"

section \<open>Cancellation and final states\<close>

definition is_cancelled_run :: "'w team_env \<Rightarrow> string \<Rightarrow> ('w, bool) team" where
  "is_cancelled_run env rid =
     bindE (readE (c_cancels env)) (\<lambda>ids.
     thenE (modifyE (\<lambda>s. s\<lparr>cancel_requested := cancel_requested s \<union> set ids\<rparr>))
           (\<lambda>s. (Inr (rid \<in> cancel_requested s), s)))"

definition block_team ::
  "'w team_env \<Rightarrow> team_snapshot \<Rightarrow> task_graph \<Rightarrow> team_stop_reason \<Rightarrow> string \<Rightarrow> ('w, team_snapshot) team" where
  "block_team env s G reason err =
     bindE (save_team env s (Some G) ((saving T_BLOCKED)\<lparr>sv_reason := Some reason, sv_error := err\<rparr>)) (\<lambda>s'.
     thenE (publish_team env TE_BLOCKED s' err []) (returnE s'))"

definition cancel_snapshot :: "'w team_env \<Rightarrow> team_snapshot \<Rightarrow> task_graph \<Rightarrow> ('w, team_result) team" where
  "cancel_snapshot env s G =
     bindE (save_team env s (Some (cancel_all G))
       ((saving T_CANCELLED)\<lparr>sv_reason := Some TS_CANCELLED, sv_error := ''team run was cancelled''\<rparr>)) (\<lambda>s'.
     thenE (publish_team env TE_CANCELLED s' [] []) (returnE (team_result_of s')))"

text \<open>
  The common shape of \<open>_mark_timed_out\<close>, \<open>_mark_budget_exhausted\<close>, \<open>_mark_cancelled\<close> and
  \<open>_mark_component_failed\<close>: reload, leave a terminal run alone, store the final state, announce it
  if that works.
\<close>

definition mark_run ::
  "'w team_env \<Rightarrow> string \<Rightarrow> (task_graph \<Rightarrow> task_graph) \<Rightarrow> save_args \<Rightarrow> team_event_type
   \<Rightarrow> (team_snapshot \<Rightarrow> string) \<Rightarrow> ('w, team_result) team" where
  "mark_run env rid f a et detail =
     bindE (require_run env rid) (\<lambda>s.
     if team_is_terminal (tn_status s) then returnE (team_result_of s)
     else bindE (liftE (graph_of s)) (\<lambda>G.
       bindE (save_team env s (map_option f G) a) (\<lambda>s'.
       thenE (suppressE (publish_team env et s' (detail s') [])) (returnE (team_result_of s')))))"

definition mark_timed_out :: "'w team_env \<Rightarrow> string \<Rightarrow> ('w, team_result) team" where
  "mark_timed_out env rid = mark_run env rid cancel_all ((saving T_TIMED_OUT)\<lparr>sv_reason := Some TS_TIMED_OUT,
     sv_error := ''team run exceeded its timeout''\<rparr>) TE_TIMED_OUT (\<lambda>_. [])"

definition mark_budget_exhausted :: "'w team_env \<Rightarrow> string \<Rightarrow> ('w, team_result) team" where
  "mark_budget_exhausted env rid = mark_run env rid id ((saving T_BLOCKED)\<lparr>sv_reason := Some TS_BUDGET_EXHAUSTED,
     sv_error := ''team resource budget was exhausted''\<rparr>) TE_BLOCKED tn_error"

definition mark_cancelled :: "'w team_env \<Rightarrow> string \<Rightarrow> ('w, team_result) team" where
  "mark_cancelled env rid = mark_run env rid cancel_all ((saving T_CANCELLED)\<lparr>sv_reason := Some TS_CANCELLED,
     sv_error := ''team run coroutine was cancelled''\<rparr>) TE_CANCELLED (\<lambda>_. [])"

definition mark_component_failed :: "'w team_env \<Rightarrow> string \<Rightarrow> exn \<Rightarrow> ('w, team_result) team" where
  "mark_component_failed env rid e = mark_run env rid cancel_all ((saving T_FAILED)\<lparr>sv_reason := Some TS_COMPONENT_ERROR,
     sv_error := exn_text e\<rparr>) TE_FAILED (\<lambda>_. exn_text e)"

definition resolve_conflict :: "'w team_env \<Rightarrow> string \<Rightarrow> exn \<Rightarrow> ('w, team_result) team" where
  "resolve_conflict env rid e = bindE (doE (c_load env rid)) (\<lambda>x. case x of
     Some s \<Rightarrow> if team_is_terminal (tn_status s) then returnE (team_result_of s) else raiseE e
   | None \<Rightarrow> raiseE e)"

section \<open>Verification and outcomes\<close>

record task_outcome =
  oc_task :: task_spec
  oc_context :: agent_context
  oc_result :: "task_result option"
  oc_verification :: "task_verification option"
  oc_error :: string

text \<open>Cancellation and exhausted budgets leave a task's own error handling.\<close>

definition escapes :: "exn \<Rightarrow> bool" where
  "escapes e \<longleftrightarrow> \<not> is_exception e \<or> is_resource_limit e"

definition verify_outcome :: "'w team_env \<Rightarrow> task_outcome \<Rightarrow> ('w, task_outcome) team" where
  "verify_outcome env oc = (case oc_result oc of
       None \<Rightarrow> returnE oc
     | Some r \<Rightarrow>
         if \<not> tr_success r then returnE oc
         else tryE
           (thenE (noteE (Checked (oc_context oc) r))
             (bindE (doE (c_verify env (oc_context oc) r)) (\<lambda>v.
              returnE (oc\<lparr>oc_verification := Some v,
                oc_error := (if tv_passed v then [] else if tv_feedback v \<noteq> [] then tv_feedback v
                             else ''verification failed'')\<rparr>))))
           (\<lambda>e. if escapes e then raiseE e
                else returnE (oc\<lparr>oc_verification := None, oc_error := exn_text e\<rparr>)))"

abbreviation task_entries :: "agent_context \<Rightarrow> metadata" where
  "task_entries c \<equiv> [text_entry ''task_id'' (task_id (ac_task c)), text_entry ''agent_id'' (ac_agent c),
     (PStr ''attempt'', PInt (ac_attempt c))]"

definition record_outcome ::
  "'w team_env \<Rightarrow> team_snapshot \<Rightarrow> task_graph \<Rightarrow> task_outcome \<Rightarrow> ('w, team_snapshot \<times> task_graph) team" where
  "record_outcome env s G oc = (case oc_verification oc of
       None \<Rightarrow> returnE (s, G)
     | Some v \<Rightarrow>
         bindE (graphE (record_verification (task_id (oc_task oc)) v G)) (\<lambda>(_, G').
         bindE (save_team env s (Some G') (saving T_RUNNING)) (\<lambda>s'.
         thenE (publish_team env TE_TASK_VERIFIED s' []
           [text_entry ''task_id'' (task_id (oc_task oc)), (PStr ''passed'', PBool (tv_passed v)),
            (PStr ''score'', case tv_score v of None \<Rightarrow> PNone | Some x \<Rightarrow> PFloat x),
            (PStr ''evidence'', PList (map PStr (tv_evidence v))),
            (PStr ''failed_criteria'', PList (map PStr (tv_failed v)))])
         (returnE (s', G')))))"

definition outcome_passed :: "task_outcome \<Rightarrow> task_result option" where
  "outcome_passed oc = (case oc_verification oc of
     Some v \<Rightarrow> if tv_passed v then oc_result oc else None | None \<Rightarrow> None)"

definition complete_task ::
  "'w team_env \<Rightarrow> team_snapshot \<Rightarrow> task_graph \<Rightarrow> task_outcome \<Rightarrow> task_result
   \<Rightarrow> ('w, team_snapshot \<times> task_graph) team" where
  "complete_task env s G oc r =
     (let ready_then = set (map task_id (ready_tasks G)) in
      bindE (graphE (succeed_task (task_id (oc_task oc)) r G)) (\<lambda>(_, G').
      bindE (save_team env s (Some G') (saving T_RUNNING)) (\<lambda>s'.
      thenE (publish_team env TE_TASK_COMPLETED s' []
        [text_entry ''task_id'' (task_id (oc_task oc)), text_entry ''agent_id'' (ac_agent (oc_context oc)),
         (PStr ''attempt'', PInt (ac_attempt (oc_context oc)))])
     (thenE (publish_ready env s' (filter (\<lambda>t. task_id t \<notin> ready_then) (ready_tasks G')))
      (returnE (s', G'))))))"

definition retry_or_fail ::
  "'w team_env \<Rightarrow> team_snapshot \<Rightarrow> task_graph \<Rightarrow> task_outcome \<Rightarrow> ('w, team_snapshot \<times> task_graph) team" where
  "retry_or_fail env s G oc =
     (let t = task_id (oc_task oc);
          err = (if oc_error oc \<noteq> [] then oc_error oc else ''task did not pass verification'') in
      bindE (liftE (graph_state t G)) (\<lambda>st.
        let meta = [text_entry ''task_id'' t, (PStr ''attempt'', PInt (ts_attempt st))] in
        if ts_attempt st < max_task_attempts (tq_limits (tn_request s))
        then bindE (graphE (retry_task t err (oc_result oc) (oc_verification oc) G)) (\<lambda>(_, G').
             bindE (save_team env s (Some G') (saving T_RUNNING)) (\<lambda>s'.
             thenE (publish_team env TE_TASK_RETRYING s' err meta)
            (thenE (publish_ready env s' [oc_task oc]) (returnE (s', G')))))
        else bindE (graphE (fail_task t err (oc_result oc) (oc_verification oc) G)) (\<lambda>(_, G').
             bindE (save_team env s (Some G') ((saving T_RUNNING)\<lparr>sv_error := err\<rparr>)) (\<lambda>s'.
             thenE (publish_team env TE_TASK_FAILED s' err meta) (returnE (s', G'))))))"

definition apply_outcome ::
  "'w team_env \<Rightarrow> task_outcome \<Rightarrow> team_snapshot \<times> task_graph \<Rightarrow> ('w, team_snapshot \<times> task_graph) team" where
  "apply_outcome env oc = (\<lambda>(s, G).
     bindE (record_outcome env s G oc) (\<lambda>(s', G').
     case outcome_passed oc of
       Some r \<Rightarrow> complete_task env s' G' oc r
     | None \<Rightarrow> retry_or_fail env s' G' oc))"

definition task_context ::
  "team_snapshot \<Rightarrow> task_graph \<Rightarrow> task_spec \<Rightarrow> string \<Rightarrow> int \<Rightarrow> string \<Rightarrow> ('w, agent_context) team" where
  "task_context s G t agent attempt prev =
     bindE (liftE (dependency_results (task_id t) G)) (\<lambda>rs.
     liftE (new_AgentTaskContext \<lparr>ac_run_id = tn_run_id s, ac_request = tn_request s, ac_task = t, ac_agent = agent,
       ac_attempt = attempt, ac_results = rs, ac_previous_error = prev, ac_human = tn_human s,
       ac_propagation = tn_propagation s\<rparr>))"

definition resume_task ::
  "'w team_env \<Rightarrow> task_state \<Rightarrow> team_snapshot \<times> task_graph \<Rightarrow> ('w, team_snapshot \<times> task_graph) team" where
  "resume_task env st = (\<lambda>(s, G).
     if ts_status st \<noteq> CHECKING then returnE (s, G)
     else (case (ts_result st, assigned_agent st) of
         (Some r, Some agent) \<Rightarrow>
           bindE (task_context s G (spec st) agent (ts_attempt st) (ts_error st)) (\<lambda>c.
           let oc = \<lparr>oc_task = spec st, oc_context = c, oc_result = Some r, oc_verification = ts_verification st,
                     oc_error = []\<rparr> in
           bindE (if oc_verification oc = None then verify_outcome env oc else returnE oc) (\<lambda>oc'.
           apply_outcome env oc' (s, G)))
       | _ \<Rightarrow>
           bindE (graphE (retry_task (task_id (spec st)) ''verifying task lost its execution result'' None None G))
             (\<lambda>(_, G'). bindE (save_team env s (Some G') (saving T_RUNNING)) (\<lambda>s'. returnE (s', G')))))"

definition resume_verifying ::
  "'w team_env \<Rightarrow> team_snapshot \<Rightarrow> task_graph \<Rightarrow> ('w, team_snapshot \<times> task_graph) team" where
  "resume_verifying env s G = foldE (resume_task env) (graph_states G) (s, G)"

section \<open>Approval\<close>

definition team_approval_prompt :: "task_spec \<Rightarrow> string" where
  "team_approval_prompt t = ''approve team task: '' @ task_description t"

definition gate_decision ::
  "'w team_env \<Rightarrow> team_snapshot \<Rightarrow> task_graph \<Rightarrow> task_spec \<Rightarrow> task_state \<Rightarrow> ('w, approval_decision) team" where
  "gate_decision env s G t st =
     bindE (task_context s G t ''unassigned'' (ts_attempt st + 1) (ts_error st)) (\<lambda>c.
     thenE (noteE (Gated c)) (doE (c_gate env c)))"

definition defer_task ::
  "'w team_env \<Rightarrow> team_snapshot \<Rightarrow> task_graph \<Rightarrow> task_spec \<Rightarrow> ('w, team_snapshot) team" where
  "defer_task env s G t =
     bindE (readE (c_uuid env)) (\<lambda>iid.
     bindE (readE (c_now env)) (\<lambda>now.
     bindE (liftE (new_HumanInteractionRequest APPROVAL (team_approval_prompt t) [APPROVE, REJECT, REVISE, PROVIDE_INPUT]
       iid (Some (task_id t)) [text_entry ''team_run_id'' (tn_run_id s), text_entry ''task_id'' (task_id t),
         text_entry ''source'' ''team_approval_gate''] now)) (\<lambda>i.
     bindE (save_team env s (Some G) ((saving T_PAUSED)\<lparr>sv_reason := Some TS_APPROVAL_DEFERRED,
       sv_error := ''task approval was deferred'', sv_interaction := Some (Some i)\<rparr>)) (\<lambda>s'.
     thenE (publish_team env TE_HUMAN_INTERACTION_REQUESTED s' []
       [text_entry ''interaction_id'' (hi_interaction_id i), text_entry ''task_id'' (task_id t)])
    (thenE (publish_team env TE_PAUSED s' [] [text_entry ''task_id'' (task_id t)])
     (returnE s'))))))"

definition reject_task ::
  "'w team_env \<Rightarrow> team_snapshot \<Rightarrow> task_graph \<Rightarrow> task_spec \<Rightarrow> ('w, team_snapshot \<times> task_graph) team" where
  "reject_task env s G t =
     bindE (graphE (fail_task (task_id t) ''task approval was rejected'' None None G)) (\<lambda>(_, G').
     let G'' = cancel_all G' in
     bindE (save_team env s (Some G'') ((saving T_FAILED)\<lparr>sv_reason := Some TS_APPROVAL_REJECTED,
       sv_error := ''task approval was rejected''\<rparr>)) (\<lambda>s'.
     thenE (publish_team env TE_APPROVAL_REJECTED s' [] [text_entry ''task_id'' (task_id t)])
    (thenE (publish_team env TE_FAILED s' [] [text_entry ''task_id'' (task_id t)])
     (returnE (s', G'')))))"

text \<open>The result tells whether the run goes on.\<close>

fun approve_ready ::
  "'w team_env \<Rightarrow> task_spec list \<Rightarrow> team_snapshot \<Rightarrow> task_graph \<Rightarrow> ('w, team_snapshot \<times> task_graph \<times> bool) team" where
  "approve_ready env [] s G = returnE (s, G, True)"
| "approve_ready env (t # ts) s G =
     bindE (liftE (graph_state (task_id t) G)) (\<lambda>st.
     if \<not> task_approval t \<or> approval_granted st then approve_ready env ts s G
     else
       bindE (graphE (mark_waiting_approval (task_id t) G)) (\<lambda>(_, G1).
       bindE (save_team env s (Some G1) (saving T_WAITING_APPROVAL)) (\<lambda>s1.
       thenE (publish_team env TE_APPROVAL_REQUESTED s1 [] [text_entry ''task_id'' (task_id t)])
      (bindE (gate_decision env s1 G1 t st) (\<lambda>d. case d of
         APPROVED \<Rightarrow>
           bindE (graphE (resume_approval (task_id t) G1)) (\<lambda>(_, G2).
           bindE (save_team env s1 (Some G2) (saving T_RUNNING)) (\<lambda>s2.
           thenE (publish_team env TE_APPROVAL_GRANTED s2 [] [text_entry ''task_id'' (task_id t)])
          (thenE (publish_ready env s2 [t])
                 (approve_ready env ts s2 G2))))
       | DEFERRED \<Rightarrow> bindE (defer_task env s1 G1 t) (\<lambda>s2. returnE (s2, G1, False))
       | REJECTED \<Rightarrow> bindE (reject_task env s1 G1 t) (\<lambda>(s2, G2). returnE (s2, G2, False)))))))"

section \<open>Batches\<close>

record scheduled_task =
  sc_task :: task_spec
  sc_lease :: agent_lease
  sc_context :: agent_context

text \<open>Entering a lease puts it on the exit stack; a full or missing agent is a value.\<close>

definition acquire_agent :: "'w team_env \<Rightarrow> task_spec \<Rightarrow> ('w, exn + agent_lease) team" where
  "acquire_agent env t = tryE
     (bindE (doE (c_acquire env t)) (\<lambda>l.
      thenE (modifyE (\<lambda>s. s\<lparr>leases := l # leases s\<rparr>))
     (thenE (noteE (Leased l)) (returnE (Inr l)))))
     (\<lambda>e. if is_capacity e \<or> is_incapable e then returnE (Inl e) else raiseE e)"

record schedule =
  sd_tasks :: "scheduled_task list"
  sd_graph :: task_graph
  sd_capacity :: "exn option"
  sd_capability :: "exn option"

fun schedule_tasks ::
  "'w team_env \<Rightarrow> team_snapshot \<Rightarrow> task_spec list \<Rightarrow> schedule \<Rightarrow> ('w, schedule) team" where
  "schedule_tasks env s [] sd = returnE sd"
| "schedule_tasks env s (t # ts) sd =
     (if int (length (sd_tasks sd)) \<ge> max_concurrency (tq_limits (tn_request s)) then returnE sd
      else
        bindE (liftE (graph_state (task_id t) (sd_graph sd))) (\<lambda>st.
        bindE (acquire_agent env t) (\<lambda>r. case r of
          Inl e \<Rightarrow> schedule_tasks env s ts
            (if is_capacity e then sd\<lparr>sd_capacity := Some e\<rparr> else sd\<lparr>sd_capability := Some e\<rparr>)
        | Inr l \<Rightarrow>
            bindE (graphE (start_task (task_id t) (agent_id (al_agent l)) (sd_graph sd))) (\<lambda>(started, G).
            bindE (task_context s G t (agent_id (al_agent l)) (ts_attempt started) (ts_error st)) (\<lambda>c.
            schedule_tasks env s ts (sd\<lparr>sd_graph := G,
              sd_tasks := sd_tasks sd @ [\<lparr>sc_task = t, sc_lease = l, sc_context = c\<rparr>]\<rparr>))))))"

definition result_error :: "scheduled_task \<Rightarrow> task_result \<Rightarrow> exn option" where
  "result_error sc r =
     (if tr_task r \<noteq> task_id (ac_task (sc_context sc))
      then Some (TeamExecution ''agent returned a result for another task'')
      else if tr_agent r \<noteq> ac_agent (sc_context sc)
      then Some (TeamExecution ''agent returned a result with another agent identifier'')
      else if tr_attempt r \<noteq> ac_attempt (sc_context sc)
      then Some (TeamExecution ''agent returned a result with another attempt number'')
      else None)"

definition invoke_task :: "'w team_env \<Rightarrow> scheduled_task \<Rightarrow> ('w, task_outcome) team" where
  "invoke_task env sc =
     (let oc = \<lparr>oc_task = sc_task sc, oc_context = sc_context sc, oc_result = None, oc_verification = None, oc_error = []\<rparr> in
      tryE
        (thenE (noteE (Invoked (sc_context sc)))
        (bindE (doE (c_invoke env (sc_lease sc) (sc_context sc))) (\<lambda>r.
         case result_error sc r of
           Some e \<Rightarrow> raiseE e
         | None \<Rightarrow> returnE (if \<not> tr_success r
             then oc\<lparr>oc_result := Some r, oc_error := (if tr_error r \<noteq> [] then tr_error r
                    else ''agent reported an unsuccessful task result'')\<rparr>
             else oc\<lparr>oc_result := Some r\<rparr>))))
        (\<lambda>e. if escapes e then raiseE e else returnE (oc\<lparr>oc_error := exn_text e\<rparr>)))"

fun release_all :: "'w team_env \<Rightarrow> agent_lease list \<Rightarrow> ('w, unit) team" where
  "release_all env [] = returnE ()"
| "release_all env (l # ls) = finallyE (thenE (noteE (Released l)) (doE (c_release env l))) (release_all env ls)"

definition close_leases :: "'w team_env \<Rightarrow> ('w, unit) team" where
  "close_leases env = (\<lambda>s. release_all env (leases s) (s\<lparr>leases := []\<rparr>))"

text \<open>
  The body of the \<open>async with\<close>: an early result, or the snapshot, the graph and the outcomes of the
  invoked tasks.
\<close>

definition run_scheduled ::
  "'w team_env \<Rightarrow> team_snapshot \<Rightarrow> schedule \<Rightarrow> ('w, team_snapshot + (team_snapshot \<times> task_graph \<times> task_outcome list)) team" where
  "run_scheduled env s sd =
     (if sd_tasks sd = [] then
        (case sd_capability sd of
           Some e \<Rightarrow> bindE (block_team env s (sd_graph sd) TS_NO_CAPABLE_AGENT (exn_message e)) (\<lambda>s'. returnE (Inl s'))
         | None \<Rightarrow> (case sd_capacity sd of
             Some e \<Rightarrow> bindE (block_team env s (sd_graph sd) TS_AGENT_CAPACITY (exn_message e)) (\<lambda>s'. returnE (Inl s'))
           | None \<Rightarrow> raiseE (TeamExecution ''scheduler did not assign any ready task'')))
      else
        bindE (save_team env s (Some (sd_graph sd)) (saving T_RUNNING)) (\<lambda>s'.
        thenE (eachE (\<lambda>sc.
            thenE (publish_team env TE_TASK_ASSIGNED s' [] (task_entries (sc_context sc)))
                  (publish_team env TE_TASK_STARTED s' [] (task_entries (sc_context sc)))) (sd_tasks sd))
       (bindE (gatherE (invoke_task env) (sd_tasks sd)) (\<lambda>ocs.
        returnE (Inr (s', sd_graph sd, ocs))))))"

fun begin_all :: "task_outcome list \<Rightarrow> task_graph \<Rightarrow> ('w, task_graph) team" where
  "begin_all [] G = returnE G"
| "begin_all (oc # ocs) G =
     bindE (graphE (begin_verification (task_id (oc_task oc)) (oc_result oc) G)) (\<lambda>(_, G'). begin_all ocs G')"

definition begin_verifying ::
  "'w team_env \<Rightarrow> team_snapshot \<Rightarrow> task_graph \<Rightarrow> task_outcome list \<Rightarrow> ('w, team_snapshot \<times> task_graph) team" where
  "begin_verifying env s G ocs =
     (let verifying = filter (\<lambda>oc. case oc_result oc of None \<Rightarrow> False | Some r \<Rightarrow> tr_success r) ocs in
      if verifying = [] then returnE (s, G)
      else
        bindE (begin_all verifying G) (\<lambda>G'.
        bindE (save_team env s (Some G') (saving T_RUNNING)) (\<lambda>s'.
        thenE (eachE (\<lambda>oc. publish_team env TE_TASK_VERIFYING s' [] (task_entries (oc_context oc))) verifying)
              (returnE (s', G')))))"

definition execute_batch ::
  "'w team_env \<Rightarrow> team_snapshot \<Rightarrow> task_graph \<Rightarrow> task_spec list \<Rightarrow> ('w, team_snapshot \<times> task_graph) team" where
  "execute_batch env s G ready =
     bindE (finallyE
        (bindE (schedule_tasks env s ready \<lparr>sd_tasks = [], sd_graph = G, sd_capacity = None, sd_capability = None\<rparr>)
          (run_scheduled env s))
        (close_leases env)) (\<lambda>r. case r of
       Inl s' \<Rightarrow> returnE (s', G)
     | Inr (s1, G1, ocs) \<Rightarrow>
         bindE (begin_verifying env s1 G1 ocs) (\<lambda>(s2, G2).
         bindE (gatherE (verify_outcome env) ocs) (\<lambda>ocs'.
         foldE (apply_outcome env) ocs' (s2, G2))))"

section \<open>Completion and replanning\<close>

definition prior_reviews :: "team_snapshot \<Rightarrow> team_review list" where
  "prior_reviews s = concat (map (\<lambda>r. case cr_review r of None \<Rightarrow> [] | Some v \<Rightarrow> [v]) (tn_history s))"

definition archive ::
  "team_snapshot \<Rightarrow> task_graph \<Rightarrow> string \<Rightarrow> team_review option \<Rightarrow> string \<Rightarrow> ('w, cycle_record list) team" where
  "archive s G out review err =
     bindE (liftE (new_TeamCycleRecord \<lparr>cr_cycle = tn_cycle s, cr_revision = tn_plan_revision s,
       cr_tasks = graph_states G, cr_output = out, cr_review = review, cr_error = err\<rparr>))
       (\<lambda>r. returnE (tn_history s @ [r]))"

definition fail_team ::
  "'w team_env \<Rightarrow> team_snapshot \<Rightarrow> task_graph option \<Rightarrow> save_args \<Rightarrow> (team_snapshot \<Rightarrow> string) \<Rightarrow> ('w, team_result) team" where
  "fail_team env s G a detail =
     bindE (save_team env s G a) (\<lambda>s'.
     thenE (publish_team env TE_FAILED s' (detail s') []) (returnE (team_result_of s')))"

text \<open>\<open>_replan\<close>, with \<open>_plan_and_execute\<close> as the argument \<open>again\<close>.\<close>

definition replan ::
  "'w team_env \<Rightarrow> (team_snapshot \<Rightarrow> ('w, team_result) team) \<Rightarrow> team_snapshot \<Rightarrow> task_graph \<Rightarrow> string
   \<Rightarrow> team_review option \<Rightarrow> string \<Rightarrow> ('w, team_result) team" where
  "replan env again s G out review err =
     bindE (archive s G out review err) (\<lambda>history.
     if tn_cycle s \<ge> tl_max_cycles (tq_limits (tn_request s))
     then fail_team env s (Some G) ((saving T_FAILED)\<lparr>sv_reason := Some TS_CYCLE_LIMIT, sv_output := out,
       sv_error := err, sv_history := Some history\<rparr>) (\<lambda>_. err)
     else if tn_plan_revision s \<ge> max_plan_revisions (tq_limits (tn_request s))
     then fail_team env s (Some G) ((saving T_FAILED)\<lparr>sv_reason := Some TS_PLAN_REVISION_LIMIT, sv_output := out,
       sv_error := err, sv_history := Some history\<rparr>) (\<lambda>_. err)
     else
       bindE (save_team env s (Some G) ((saving T_PLANNING)\<lparr>sv_tasks := Some [], sv_history := Some history,
         sv_revision := Some (tn_plan_revision s + 1), sv_approved := Some None\<rparr>)) (\<lambda>s'.
       thenE (publish_team env TE_REPLAN_REQUESTED s' err [(PStr ''next_cycle'', PInt (tn_cycle s' + 1))])
      (thenE (publish_team env TE_PLANNING_STARTED s' [] [])
             (again s'))))"

definition fail_tasks ::
  "'w team_env \<Rightarrow> (team_snapshot \<Rightarrow> ('w, team_result) team) \<Rightarrow> team_snapshot \<Rightarrow> task_graph \<Rightarrow> ('w, team_result) team" where
  "fail_tasks env again s G =
     (let err = join ''; '' (filter (\<lambda>e. e \<noteq> []) (map ts_error (graph_states G))) in
      replan env again s G [] None (if err \<noteq> [] then err else ''one or more tasks did not complete successfully''))"

definition review_team ::
  "'w team_env \<Rightarrow> team_snapshot \<Rightarrow> task_graph \<Rightarrow> string \<Rightarrow> bool \<Rightarrow> ('w, team_review) team" where
  "review_team env s G out human_approved =
     bindE (liftE (new_TeamReviewContext \<lparr>vc_run_id = tn_run_id s, vc_request = tn_request s, vc_cycle = tn_cycle s,
       vc_plan_revision = tn_plan_revision s, vc_results = successful_results G, vc_output = out,
       vc_reviews = prior_reviews s, vc_human = tn_human s\<rparr>)) (\<lambda>c.
     thenE (publish_team env TE_REVIEW_STARTED s [] [])
    (bindE (case c_review env of
        Some f \<Rightarrow> if human_approved then liftE (new_TeamReview \<lparr>rv_action = RV_ACCEPT,
              rv_feedback = ''human approved the team draft'', rv_score = Some (Fin 100), rv_evidence = [],
              rv_failed = [], rv_interaction = None\<rparr>)
          else thenE (noteE (Reviewed c)) (doE (f c))
      | None \<Rightarrow> liftE (new_TeamReview \<lparr>rv_action = RV_ACCEPT,
              rv_feedback = (if human_approved then ''human approved the team draft'' else []),
              rv_score = Some (Fin 100), rv_evidence = [], rv_failed = [], rv_interaction = None\<rparr>)) (\<lambda>v.
     thenE (publish_team env TE_REVIEW_COMPLETED s []
       [text_entry ''action'' (case rv_action v of RV_ACCEPT \<Rightarrow> ''accept'' | RV_REPLAN \<Rightarrow> ''replan''
          | RV_REQUEST_HUMAN \<Rightarrow> ''request_human'' | RV_STOP \<Rightarrow> ''stop''),
        (PStr ''score'', case rv_score v of None \<Rightarrow> PNone | Some x \<Rightarrow> PFloat x),
        (PStr ''failed_criteria'', PList (map PStr (rv_failed v)))])
     (returnE v))))"

definition finish_review ::
  "'w team_env \<Rightarrow> (team_snapshot \<Rightarrow> ('w, team_result) team) \<Rightarrow> team_snapshot \<Rightarrow> task_graph \<Rightarrow> string \<Rightarrow> team_review
   \<Rightarrow> ('w, team_result) team" where
  "finish_review env again s G out v = (case rv_action v of
       RV_REPLAN \<Rightarrow> replan env again s G out (Some v)
         (if rv_feedback v \<noteq> [] then rv_feedback v else ''team review requested replanning'')
     | RV_REQUEST_HUMAN \<Rightarrow> (case rv_interaction v of
         None \<Rightarrow> raiseE (TeamExecution ''team reviewer omitted the human interaction'')
       | Some i \<Rightarrow>
           bindE (save_team env s (Some G) ((saving T_PAUSED)\<lparr>sv_reason := Some TS_APPROVAL_DEFERRED, sv_output := out,
             sv_error := rv_feedback v, sv_interaction := Some (Some i), sv_review := Some (Some v)\<rparr>)) (\<lambda>s'.
           thenE (publish_team env TE_HUMAN_INTERACTION_REQUESTED s' []
             [text_entry ''interaction_id'' (hi_interaction_id i)])
          (thenE (publish_team env TE_PAUSED s' [] []) (returnE (team_result_of s')))))
     | RV_STOP \<Rightarrow>
         bindE (archive s G out (Some v) (rv_feedback v)) (\<lambda>history.
         fail_team env s (Some G) ((saving T_FAILED)\<lparr>sv_reason := Some TS_REVIEW_STOPPED, sv_output := out,
           sv_error := (if rv_feedback v \<noteq> [] then rv_feedback v else ''team reviewer stopped the run''),
           sv_history := Some history\<rparr>) tn_error)
     | RV_ACCEPT \<Rightarrow>
         bindE (archive s G out (Some v) []) (\<lambda>history.
         bindE (save_team env s (Some G) ((saving T_COMPLETED)\<lparr>sv_reason := Some TS_COMPLETED, sv_output := out,
           sv_history := Some history, sv_interaction := Some None, sv_review := Some None\<rparr>)) (\<lambda>s'.
         thenE (publish_team env TE_COMPLETED s' [] []) (returnE (team_result_of s')))))"

definition complete_team ::
  "'w team_env \<Rightarrow> (team_snapshot \<Rightarrow> ('w, team_result) team) \<Rightarrow> team_snapshot \<Rightarrow> task_graph \<Rightarrow> ('w, team_result) team" where
  "complete_team env again s G =
     bindE (is_cancelled_run env (tn_run_id s)) (\<lambda>stop_now.
     if stop_now then cancel_snapshot env s G
     else
       let human_approved = (tn_approved_cycle s = Some (tn_cycle s)) in
       bindE (if human_approved \<and> tn_output s \<noteq> [] then returnE (tn_output s)
              else thenE (noteE Aggregated) (doE (c_aggregate env (tn_request s) (successful_results G)))) (\<lambda>out.
       bindE (is_cancelled_run env (tn_run_id s)) (\<lambda>stop_then.
       if stop_then then cancel_snapshot env s G
       else bindE (review_team env s G out human_approved) (finish_review env again s G out))))"

section \<open>The loops\<close>

text \<open>
  What is left to do for a task within its attempts: every turn of \<open>_execute\<close> uses some of it up, so
  \<open>rounds_left\<close> turns are enough.
\<close>

definition task_budget :: "int \<Rightarrow> task_state \<Rightarrow> nat" where
  "task_budget limit st =
     (if task_is_terminal (ts_status st) then 0
      else (if ts_status st = CHECKING then 2 else 1) + nat (limit - ts_attempt st))"

definition rounds_left :: "int \<Rightarrow> task_graph \<Rightarrow> nat" where
  "rounds_left limit G = sum_list (map (task_budget limit) (dict_values (g_states G)))"

fun execute_rounds ::
  "'w team_env \<Rightarrow> (team_snapshot \<Rightarrow> ('w, team_result) team) \<Rightarrow> nat \<Rightarrow> team_snapshot \<Rightarrow> task_graph
   \<Rightarrow> ('w, team_result) team" where
  "execute_rounds env again 0 s G = raiseE FuelOut"
| "execute_rounds env again (Suc n) s G =
     bindE (is_cancelled_run env (tn_run_id s)) (\<lambda>stop_now.
     if stop_now then cancel_snapshot env s G
     else if list_ex (\<lambda>st. ts_status st = CHECKING) (graph_states G)
     then bindE (resume_verifying env s G) (\<lambda>(s', G'). execute_rounds env again n s' G')
     else if all_succeeded G then complete_team env again s G
     else if graph_is_terminal G then fail_tasks env again s G
     else
       bindE (approve_ready env (ready_tasks G) s G) (\<lambda>(s1, G1, go).
       if \<not> go then returnE (team_result_of s1)
       else if ready_tasks G1 = []
       then bindE (block_team env s1 G1 TS_DEADLOCK ''task graph has no ready task and is not terminal'')
         (\<lambda>s'. returnE (team_result_of s'))
       else
         bindE (execute_batch env s1 G1 (ready_tasks G1)) (\<lambda>(s2, G2).
         if tn_status s2 \<in> {T_BLOCKED, T_FAILED} then returnE (team_result_of s2)
         else execute_rounds env again n s2 G2)))"

definition execute_team ::
  "'w team_env \<Rightarrow> (team_snapshot \<Rightarrow> ('w, team_result) team) \<Rightarrow> team_snapshot \<Rightarrow> task_graph \<Rightarrow> ('w, team_result) team" where
  "execute_team env again s G =
     execute_rounds env again (Suc (rounds_left (max_task_attempts (tq_limits (tn_request s))) G)) s G"

definition unknown_capabilities :: "planning_context \<Rightarrow> task_spec list \<Rightarrow> string list" where
  "unknown_capabilities c ts =
     sort (remdups (map capability (filter (\<lambda>t. capability t \<notin> available_capabilities c) ts)))"

definition plan_tasks :: "'w team_env \<Rightarrow> team_snapshot \<Rightarrow> ('w, planning_context \<times> task_spec list) team" where
  "plan_tasks env s =
     bindE (readE (c_candidates env)) (\<lambda>agents.
     bindE (liftE (new_TeamPlanningContext \<lparr>pc_run_id = tn_run_id s, pc_request = tn_request s,
       pc_cycle = tn_cycle s + 1, pc_plan_revision = tn_plan_revision s, pc_agents = agents,
       pc_reviews = prior_reviews s, pc_human = tn_human s\<rparr>)) (\<lambda>c.
     thenE (noteE (Planned c))
    (bindE (doE (c_plan env c)) (\<lambda>ts.
     if int (length ts) > max_tasks (tq_limits (tn_request s))
     then raiseE (TeamExecution ''planner returned more tasks than the limit'') else returnE (c, ts)))))"

text \<open>\<open>_plan_and_execute\<close>; the first argument bounds the cycles that are still to come.\<close>

fun plan_and_execute :: "'w team_env \<Rightarrow> nat \<Rightarrow> team_snapshot \<Rightarrow> ('w, team_result) team" where
  "plan_and_execute env 0 s = raiseE FuelOut"
| "plan_and_execute env (Suc k) s =
     (if tn_cycle s + 1 > tl_max_cycles (tq_limits (tn_request s))
      then fail_team env s None ((saving T_FAILED)\<lparr>sv_reason := Some TS_CYCLE_LIMIT,
        sv_error := ''team cycle limit was exhausted''\<rparr>) tn_error
      else
        bindE (plan_tasks env s) (\<lambda>(c, ts).
        bindE (liftE (new_TaskGraph ts None)) (\<lambda>G.
        bindE (save_team env s (Some G) ((saving T_RUNNING)\<lparr>sv_cycle := Some (tn_cycle s + 1), sv_approved := Some None\<rparr>))
          (\<lambda>s'.
        thenE (publish_team env TE_PLAN_CREATED s' [] [(PStr ''task_count'', PInt (int (length ts)))])
       (if unknown_capabilities c ts \<noteq> []
        then bindE (block_team env s' G TS_NO_CAPABLE_AGENT
               (''plan references unregistered capabilities: '' @ join '', '' (unknown_capabilities c ts)))
               (\<lambda>s''. returnE (team_result_of s''))
        else thenE (publish_ready env s' (ready_tasks G)) (execute_team env (plan_and_execute env k) s' G))))))"

definition cycles_left :: "team_snapshot \<Rightarrow> nat" where
  "cycles_left s = Suc (nat (tl_max_cycles (tq_limits (tn_request s)) - tn_cycle s))"

section \<open>Runs\<close>

definition begin_active :: "string \<Rightarrow> ('w, unit) team" where
  "begin_active rid = (\<lambda>s. if rid \<in> active_runs s
     then (Inl (TeamExecution (''team run is already active: '' @ rid)), s)
     else (Inr (), s\<lparr>active_runs := insert rid (active_runs s)\<rparr>))"

definition finish_active :: "string \<Rightarrow> ('w, unit) team" where
  "finish_active rid = modifyE (\<lambda>s. s\<lparr>active_runs := active_runs s - {rid}, cancel_requested := cancel_requested s - {rid}\<rparr>)"

definition claim_run :: "'w team_env \<Rightarrow> string \<Rightarrow> ('w, unit) team" where
  "claim_run env rid =
     thenE (begin_active rid)
    (bindE (tryE (doE (c_claim env rid (owner_id env))) (\<lambda>e. thenE (finish_active rid) (raiseE e))) (\<lambda>acquired.
     if acquired then returnE ()
     else thenE (finish_active rid) (raiseE (TeamRunActive (''team run is active: '' @ rid)))))"

text \<open>
  \<open>_await_with_timeout\<close>: when the limit passes while the operation runs, the operation is cancelled
  at one of its awaits, and whatever it still answers is replaced by the deadline.
\<close>

definition await_with_timeout :: "'w team_env \<Rightarrow> ('w, 'a) team \<Rightarrow> rat option \<Rightarrow> ('w, 'a) team" where
  "await_with_timeout env m remaining = (case remaining of
       None \<Rightarrow> m
     | Some t \<Rightarrow> (\<lambda>s. case m s of (r, s1) \<Rightarrow> (case c_overdue env t (team_world s1) of (late, w) \<Rightarrow>
         ((if late then Inl deadline_exceeded else r), s1\<lparr>team_world := w\<rparr>))))"

text \<open>The handlers and the \<open>finally\<close> shared by \<open>run\<close> and \<open>resume\<close>.\<close>

definition run_handler :: "'w team_env \<Rightarrow> string \<Rightarrow> exn \<Rightarrow> ('w, team_result) team" where
  "run_handler env rid e =
     (if e = deadline_exceeded then mark_timed_out env rid
      else if e = Cancelled
      then thenE (suppressE (bindE (mark_cancelled env rid) (\<lambda>_. returnE ()))) (raiseE e)
      else if is_resource_limit e then mark_budget_exhausted env rid
      else if is_conflict e then resolve_conflict env rid e
      else if is_exception e then mark_component_failed env rid e
      else raiseE e)"

definition guarded_run :: "'w team_env \<Rightarrow> string \<Rightarrow> ('w, team_result) team \<Rightarrow> ('w, team_result) team" where
  "guarded_run env rid m = finallyE (tryE m (run_handler env rid))
     (thenE (finish_active rid) (doE (c_unclaim env rid (owner_id env))))"

definition initial_snapshot :: "team_request \<Rightarrow> string \<Rightarrow> datetime \<Rightarrow> team_snapshot" where
  "initial_snapshot r rid now =
     \<lparr>tn_request = r\<lparr>tq_metadata := dict_set (PStr ''_matterloop_team_run_id'') (PStr rid) (tq_metadata r)\<rparr>,
      tn_tasks = [], tn_run_id = rid, tn_status = T_PLANNING, tn_version = 0, tn_stop_reason = None, tn_output = [],
      tn_error = [], tn_cycle = 0, tn_plan_revision = 0, tn_history = [], tn_interaction = None, tn_review = None,
      tn_human = [], tn_refs = [], tn_approved_cycle = None, tn_elapsed = 0, tn_started = Some now,
      tn_propagation = [], tn_created = now, tn_updated = now\<rparr>"

definition finite_limit :: "team_request \<Rightarrow> rat option" where
  "finite_limit r = (case tl_timeout_seconds (tq_limits r) of Some (Fin t) \<Rightarrow> Some t | _ \<Rightarrow> None)"

definition first_run :: "'w team_env \<Rightarrow> team_snapshot \<Rightarrow> rat option \<Rightarrow> ('w, team_result) team" where
  "first_run env s deadline =
     thenE (publish_team env TE_STARTED s [] [])
    (bindE (persist_prepared env s) (\<lambda>s'.
     thenE (publish_team env TE_PLANNING_STARTED s' [] [])
    (bindE (case deadline of None \<Rightarrow> returnE None
        | Some d \<Rightarrow> bindE (readE (c_mono env)) (\<lambda>t. returnE (Some (d - t)))) (\<lambda>remaining.
     if (case remaining of None \<Rightarrow> False | Some x \<Rightarrow> x \<le> 0) then mark_timed_out env (tn_run_id s)
     else await_with_timeout env (plan_and_execute env (cycles_left s') s') remaining))))"

definition run_team :: "'w team_env \<Rightarrow> team_request \<Rightarrow> string option \<Rightarrow> ('w, team_result) team" where
  "run_team env r rid =
     bindE (case rid of
        Some i \<Rightarrow> if i \<noteq> [] then returnE i else readE (c_uuid env)
      | None \<Rightarrow> readE (c_uuid env)) (\<lambda>i.
     if blank i then raiseE (ValueError ''run_id must not be empty'')
     else
       bindE (case finite_limit r of None \<Rightarrow> returnE None
          | Some t \<Rightarrow> bindE (readE (c_mono env)) (\<lambda>m. returnE (Some (m + t)))) (\<lambda>deadline.
       bindE (readE (c_now env)) (\<lambda>now.
       bindE (liftE (new_TeamSnapshot (initial_snapshot r i now))) (\<lambda>s.
       thenE (doE (c_create env s))
      (thenE (noteE (Created s))
      (thenE (claim_run env i)
             (guarded_run env i (first_run env s deadline))))))))"

definition remaining_team_timeout :: "'w team_env \<Rightarrow> team_snapshot \<Rightarrow> ('w, rat option) team" where
  "remaining_team_timeout env s = (case finite_limit (tn_request s) of
       None \<Rightarrow> returnE None
     | Some t \<Rightarrow> (case tn_started s of
         None \<Rightarrow> returnE (Some (t - tn_elapsed s))
       | Some t0 \<Rightarrow> bindE (readE (c_now env)) (\<lambda>now.
           returnE (Some (t - (tn_elapsed s + max 0 (total_seconds now t0)))))))"

definition resumable_statuses :: "team_status list" where
  "resumable_statuses = [T_CREATED, T_PLANNING, T_RUNNING, T_PAUSED, T_BLOCKED, T_WAITING_APPROVAL]"

text \<open>\<open>Inl\<close>: the result of a blocked recovery; \<open>Inr\<close>: the snapshot and the operation to await.\<close>

definition prepare_resume ::
  "'w team_env \<Rightarrow> team_snapshot \<Rightarrow> ('w, team_result + (team_snapshot \<times> task_graph option)) team" where
  "prepare_resume env s =
     (if tn_tasks s = [] then
        bindE (save_team env s None (saving T_PLANNING)) (\<lambda>s'. returnE (Inr (s', None)))
      else
        bindE (liftE (from_snapshot s)) (\<lambda>G.
        bindE (graphE (recover_inflight G)) (\<lambda>(stuck, G').
        bindE (save_team env s (Some G') ((saving T_RUNNING)\<lparr>sv_cycle := Some (max (tn_cycle s) 1)\<rparr>)) (\<lambda>s'.
        if stuck \<noteq> [] then
          thenE (publish_team env TE_RESUMED s' [] [])
         (bindE (block_team env s' G' TS_RECOVERY_REQUIRED
            (''interrupted tasks require host reconciliation: '' @ join '', '' stuck)) (\<lambda>s''.
          returnE (Inl (team_result_of s''))))
        else returnE (Inr (s', Some G'))))))"

definition resumed_run :: "'w team_env \<Rightarrow> string \<Rightarrow> team_snapshot \<Rightarrow> ('w, team_result) team" where
  "resumed_run env rid s =
     bindE (prepare_resume env s) (\<lambda>x. case x of
       Inl r \<Rightarrow> returnE r
     | Inr (s', G) \<Rightarrow>
         thenE (publish_team env TE_RESUMED s' [] [])
        (bindE (remaining_team_timeout env s') (\<lambda>remaining.
         if (case remaining of None \<Rightarrow> False | Some x \<Rightarrow> x \<le> 0) then mark_timed_out env rid
         else await_with_timeout env
           (case G of None \<Rightarrow> plan_and_execute env (cycles_left s') s'
            | Some g \<Rightarrow> execute_team env (plan_and_execute env (cycles_left s')) s' g) remaining)))"

definition resume_team :: "'w team_env \<Rightarrow> string \<Rightarrow> ('w, team_result) team" where
  "resume_team env rid =
     bindE (require_run env rid) (\<lambda>s.
     if team_is_terminal (tn_status s) then returnE (team_result_of s)
     else if tn_status s = T_BLOCKED \<and> tn_stop_reason s = Some TS_HUMAN_REJECTED then returnE (team_result_of s)
     else if tn_interaction s \<noteq> None then returnE (team_result_of s)
     else if tn_status s \<notin> set resumable_statuses
     then raiseE (TeamExecution ''team run cannot resume from this status'')
     else thenE (claim_run env rid) (guarded_run env rid (resumed_run env rid s)))"

section \<open>Other calls\<close>

definition get_team :: "'w team_env \<Rightarrow> string \<Rightarrow> ('w, team_result) team" where
  "get_team env rid = bindE (require_run env rid) (\<lambda>s. returnE (team_result_of s))"

definition cancel_team :: "'w team_env \<Rightarrow> string \<Rightarrow> ('w, bool) team" where
  "cancel_team env rid = bindE (doE (c_load env rid)) (\<lambda>x. case x of
     None \<Rightarrow> returnE False
   | Some s \<Rightarrow>
       if team_is_terminal (tn_status s) then returnE False
       else bindE getE (\<lambda>st.
         if rid \<in> active_runs st
         then if rid \<in> cancel_requested st then returnE False
              else thenE (modifyE (\<lambda>st. st\<lparr>cancel_requested := insert rid (cancel_requested st)\<rparr>)) (returnE True)
         else
           bindE (liftE (graph_of s)) (\<lambda>G.
           bindE (save_team env s (map_option cancel_all G) ((saving T_CANCELLED)\<lparr>sv_reason := Some TS_CANCELLED,
             sv_error := ''team run was cancelled''\<rparr>)) (\<lambda>s'.
           thenE (publish_team env TE_CANCELLED s' [] []) (returnE True)))))"

text \<open>Human responses: an equal repetition is answered from the records, a different one is a conflict.\<close>

definition same_team_response :: "response \<Rightarrow> response \<Rightarrow> bool" where
  "same_team_response l r \<longleftrightarrow> hr_interaction_id l = hr_interaction_id r \<and> hr_action l = hr_action r
     \<and> hr_content l = hr_content r \<and> metadata_eq (hr_metadata l) (hr_metadata r)"

abbreviation response_conflict :: exn where
  "response_conflict \<equiv> HumanConflict ''human response idempotency key contains conflicting content''"

definition recorded_response :: "team_snapshot \<Rightarrow> response \<Rightarrow> response option" where
  "recorded_response s r = map_option hx_response
     (find (\<lambda>x. hr_idempotency_key (hx_response x) = hr_idempotency_key r) (tn_human s))"

definition pending_task :: "interaction \<Rightarrow> string option" where
  "pending_task i = (case map_of (hi_metadata i) (PStr ''task_id'') of Some (PStr t) \<Rightarrow> Some t | _ \<Rightarrow> None)"

definition respond_reject ::
  "'w team_env \<Rightarrow> team_snapshot \<Rightarrow> task_graph option \<Rightarrow> string option \<Rightarrow> response \<Rightarrow> human_record list
   \<Rightarrow> ('w, team_result) team" where
  "respond_reject env s G task r humans =
     bindE (case G of
        None \<Rightarrow> returnE None
      | Some g \<Rightarrow>
          bindE (case task of
             None \<Rightarrow> returnE g
           | Some t \<Rightarrow> bindE (liftE (graph_state t g)) (\<lambda>st.
               if ts_status st = WAITING
               then bindE (graphE (fail_task t ''human rejected the task'' None None g)) (\<lambda>(_, g'). returnE g')
               else returnE g)) (\<lambda>g'. returnE (Some (cancel_all g')))) (\<lambda>G'.
     bindE (save_team env s G' ((saving T_BLOCKED)\<lparr>sv_reason := Some TS_HUMAN_REJECTED,
       sv_error := (if hr_content r \<noteq> [] then hr_content r else ''human rejected the team run''),
       sv_interaction := Some None, sv_review := Some None, sv_human := Some humans\<rparr>)) (\<lambda>s'.
     thenE (publish_team env TE_HUMAN_RESPONSE_SUBMITTED s' [] [])
    (thenE (publish_team env TE_HUMAN_REJECTED s' [] [])
    (thenE (publish_team env TE_BLOCKED s' (tn_error s') [])
     (returnE (team_result_of s'))))))"

definition respond_approve ::
  "'w team_env \<Rightarrow> team_snapshot \<Rightarrow> task_graph option \<Rightarrow> string option \<Rightarrow> human_record list
   \<Rightarrow> ('w, team_result) team" where
  "respond_approve env s G task humans =
     bindE (case (G, task) of
        (Some g, Some t) \<Rightarrow>
          bindE (liftE (graph_state t g)) (\<lambda>st.
          if ts_status st \<noteq> WAITING
          then raiseE (HumanNotPending ''pending approval task is no longer waiting'')
          else bindE (graphE (resume_approval t g)) (\<lambda>(_, g'). returnE (Some g', tn_approved_cycle s)))
      | _ \<Rightarrow> returnE (G, Some (tn_cycle s))) (\<lambda>(G', approved).
     bindE (save_team env s G' ((saving T_PAUSED)\<lparr>sv_interaction := Some None, sv_human := Some humans,
       sv_approved := Some approved\<rparr>)) (\<lambda>s'.
     thenE (publish_team env TE_HUMAN_RESPONSE_SUBMITTED s' [] [])
    (thenE (publish_team env TE_HUMAN_APPROVED s' [] [])
     (returnE (team_result_of s')))))"

definition respond_revise ::
  "'w team_env \<Rightarrow> team_snapshot \<Rightarrow> task_graph option \<Rightarrow> response \<Rightarrow> human_record list \<Rightarrow> ('w, team_result) team" where
  "respond_revise env s G r humans =
     (if hr_action r = REVISE \<and> blank (hr_content r)
      then raiseE (HumanConflict ''REVISE human response requires non-empty content'')
      else
        bindE (case G of
           None \<Rightarrow> returnE (tn_history s)
         | Some g \<Rightarrow> bindE (liftE (new_TeamCycleRecord \<lparr>cr_cycle = max (tn_cycle s) 1, cr_revision = tn_plan_revision s,
             cr_tasks = graph_states g, cr_output = tn_output s, cr_review = tn_review s, cr_error = hr_content r\<rparr>))
             (\<lambda>c. returnE (tn_history s @ [c]))) (\<lambda>history.
        if tn_plan_revision s \<ge> max_plan_revisions (tq_limits (tn_request s)) then
          bindE (save_team env s G ((saving T_FAILED)\<lparr>sv_reason := Some TS_PLAN_REVISION_LIMIT,
            sv_error := ''team plan revision limit was exhausted'', sv_interaction := Some None,
            sv_review := Some None, sv_human := Some humans, sv_history := Some history\<rparr>)) (\<lambda>s'.
          thenE (publish_team env TE_HUMAN_RESPONSE_SUBMITTED s' [] [])
         (thenE (publish_team env TE_FAILED s' (tn_error s') [])
          (returnE (team_result_of s'))))
        else
          bindE (save_team env s G ((saving T_PAUSED)\<lparr>sv_tasks := Some [], sv_interaction := Some None,
            sv_review := Some None, sv_human := Some humans, sv_history := Some history,
            sv_revision := Some (tn_plan_revision s + 1), sv_approved := Some None\<rparr>)) (\<lambda>s'.
          thenE (publish_team env TE_HUMAN_RESPONSE_SUBMITTED s' [] [])
         (thenE (publish_team env (if hr_action r = REVISE then TE_HUMAN_REVISED else TE_HUMAN_INPUT_PROVIDED) s' [] [])
          (returnE (team_result_of s'))))))"

definition submit_team_once :: "'w team_env \<Rightarrow> string \<Rightarrow> response \<Rightarrow> ('w, team_result) team" where
  "submit_team_once env rid r =
     bindE (require_run env rid) (\<lambda>s. case recorded_response s r of
       Some x \<Rightarrow> if same_team_response x r then returnE (team_result_of s) else raiseE response_conflict
     | None \<Rightarrow> (case tn_interaction s of
         None \<Rightarrow> raiseE (HumanNotPending ''human response does not match the pending team interaction'')
       | Some i \<Rightarrow>
           if hi_interaction_id i \<noteq> hr_interaction_id r
           then raiseE (HumanNotPending ''human response does not match the pending team interaction'')
           else
             bindE (readE (c_now env)) (\<lambda>now.
             bindE (liftE (new_HumanInteractionRecord i r now)) (\<lambda>x.
             let humans = tn_human s @ [x] in
             bindE (liftE (graph_of s)) (\<lambda>G. case hr_action r of
               REJECT \<Rightarrow> respond_reject env s G (pending_task i) r humans
             | APPROVE \<Rightarrow> respond_approve env s G (pending_task i) humans
             | _ \<Rightarrow> respond_revise env s G r humans)))))"

text \<open>After a lost race on the stored version, an equal response of a concurrent submission is accepted.\<close>

definition submit_team_response :: "'w team_env \<Rightarrow> string \<Rightarrow> response \<Rightarrow> ('w, team_result) team" where
  "submit_team_response env rid r = tryE (submit_team_once env rid r) (\<lambda>e.
     if \<not> is_conflict e then raiseE e
     else bindE (require_run env rid) (\<lambda>s. case recorded_response s r of
       Some x \<Rightarrow> if same_team_response x r then returnE (team_result_of s) else raiseE response_conflict
     | None \<Rightarrow> raiseE e))"

end
