(* ===== verification/TeamRules.thy ===== *)
theory TeamRules
  imports TaskGraphOps TeamOrchestrator
begin

text \<open>
  Hoare rules and preservation rules for the combinators of the team controller, and how one
  operation of the task graph changes the states of the tasks.
\<close>

section \<open>Rules of the combinators\<close>

lemma hoare_liftE:
  assumes "\<And>x s. r = Inr x \<Longrightarrow> P s \<Longrightarrow> Q x s" and "\<And>e s. r = Inl e \<Longrightarrow> P s \<Longrightarrow> E e s"
  shows "hoare P (liftE r) Q E"
  using assms by (cases r) (auto simp: hoare_def liftE_def)

lemma hoare_graphE:
  assumes "\<And>x G s. r = (Inr x, G) \<Longrightarrow> P s \<Longrightarrow> Q (x, G) s" and "\<And>e G s. r = (Inl e, G) \<Longrightarrow> P s \<Longrightarrow> E e s"
  shows "hoare P (graphE r) Q E"
  unfolding graphE_def by (rule hoare_liftE) (auto split: prod.splits sum.splits intro: assms)

lemma hoare_return:
  assumes "\<And>s. P s \<Longrightarrow> Q x s"
  shows "hoare P (returnE x) Q E"
  using assms by (auto simp: hoare_def returnE_def)

lemma hoare_raise:
  assumes "\<And>s. P s \<Longrightarrow> E e s"
  shows "hoare P (raiseE e) Q E"
  using assms by (auto simp: hoare_def raiseE_def)

lemma hoare_doE:
  assumes "\<And>s x w. P s \<Longrightarrow> f (team_world s) = (Inr x, w) \<Longrightarrow> Q x (s\<lparr>team_world := w\<rparr>)"
    and "\<And>s e w. P s \<Longrightarrow> f (team_world s) = (Inl e, w) \<Longrightarrow> E e (s\<lparr>team_world := w\<rparr>)"
  shows "hoare P (doE f) Q E"
  using assms by (auto simp: hoare_def doE_def split: prod.splits sum.splits)

lemma hoare_readE:
  assumes "\<And>s x w. P s \<Longrightarrow> f (team_world s) = (x, w) \<Longrightarrow> Q x (s\<lparr>team_world := w\<rparr>)"
  shows "hoare P (readE f) Q E"
  using assms by (auto simp: hoare_def readE_def split: prod.splits)

lemma hoare_modify:
  assumes "\<And>s. P s \<Longrightarrow> Q () (f s)"
  shows "hoare P (modifyE f) Q E"
  using assms by (auto simp: hoare_def modifyE_def)

lemma hoare_noteE:
  assumes "\<And>s. P s \<Longrightarrow> Q () (s\<lparr>team_trace := team_trace s @ [a]\<rparr>)"
  shows "hoare P (noteE a) Q E"
  unfolding noteE_def using assms by (rule hoare_modify)

lemma hoare_bind:
  assumes "hoare P m R E" and "\<And>x. hoare (R x) (f x) Q E"
  shows "hoare P (bindE m f) Q E"
  using assms by (rule hoare_bindE)

text \<open>What does not depend on the state leaves a postcondition for the context.\<close>

lemma hoare_bind_pure:
  assumes "hoare P m (\<lambda>x s. A x \<and> R x s) E" and "\<And>x. A x \<Longrightarrow> hoare (R x) (f x) Q E"
  shows "hoare P (bindE m f) Q E"
  using assms unfolding hoare_def bindE_def by (fastforce split: prod.splits sum.splits)

lemma hoare_then:
  assumes "hoare P m (\<lambda>_. R) E" and "hoare R k Q E"
  shows "hoare P (thenE m k) Q E"
  using assms by (rule hoare_thenE)

lemma hoare_finallyE:
  assumes "hoare P m R F" and "\<And>x. hoare (R x) f (\<lambda>_. Q x) E" and "\<And>e. hoare (F e) f (\<lambda>_. E e) E"
  shows "hoare P (finallyE m f) Q E"
  unfolding hoare_def
proof (intro allI impI)
  fix s
  assume P: "P s"
  obtain r s1 where m: "m s = (r, s1)"
    by fastforce
  obtain q s2 where f: "f s1 = (q, s2)"
    by fastforce
  show "case finallyE m f s of (Inl e, s') \<Rightarrow> E e s' | (Inr x, s') \<Rightarrow> Q x s'"
  proof (cases r)
    case (Inl e)
    then have "F e s1"
      using hoareD_err [OF assms(1) P] m by simp
    then show ?thesis
      using assms(3) [of e] f by (auto simp: finallyE_def m Inl hoare_def split: sum.splits)
  next
    case (Inr x)
    then have "R x s1"
      using hoareD_ok [OF assms(1) P] m by simp
    then show ?thesis
      using assms(2) [of x] f by (auto simp: finallyE_def m Inr hoare_def split: sum.splits)
  qed
qed

lemma hoare_try:
  assumes "hoare P m Q F" and "\<And>e. hoare (F e) (h e) Q E"
  shows "hoare P (tryE m h) Q E"
  using assms by (rule hoare_tryE)

lemma hoare_suppressE:
  assumes "hoare P m (\<lambda>_. Q) F" and "\<And>e s. F e s \<Longrightarrow> is_exception e \<Longrightarrow> Q s"
    and "\<And>e s. F e s \<Longrightarrow> \<not> is_exception e \<Longrightarrow> E e s"
  shows "hoare P (suppressE m) (\<lambda>_. Q) E"
  unfolding suppressE_def by (rule hoare_try [OF assms(1)]) (auto intro!: hoare_if hoare_return hoare_raise assms(2,3))

lemma hoare_eachE:
  assumes "\<And>x. x \<in> set xs \<Longrightarrow> hoare P (f x) (\<lambda>_. P) E"
  shows "hoare P (eachE f xs) (\<lambda>_. P) E"
  using assms by (induction xs) (auto intro!: hoare_return hoare_then)

text \<open>\<open>I\<close> relates the rest of the list to the value.\<close>

lemma hoare_foldE:
  assumes "\<And>x xs a. hoare (I (x # xs) a) (f x a) (I xs) E"
  shows "hoare (I xs a) (foldE f xs a) (I []) E"
proof (induction xs arbitrary: a)
  case (Cons x xs)
  have "hoare (I (x # xs) a) (bindE (f x a) (foldE f xs)) (I []) E"
    by (rule hoare_bind [OF assms Cons.IH])
  then show ?case
    by simp
qed (auto intro: hoare_return)

lemma first_error_cases:
  "(\<exists>e. Inl e \<in> set rs \<and> first_error rs = Inl e) \<or> (\<exists>ys. rs = map Inr ys \<and> first_error rs = Inr ys)"
  by (induction rs rule: first_error.induct) auto

lemma outcomes_hoare:
  assumes "\<And>x. x \<in> set xs \<Longrightarrow> hoare P (f x) (\<lambda>y s. P s \<and> A x y) (\<lambda>e s. P s \<and> B e)" and "P s"
    and "outcomes_of f xs s = (rs, s')"
  shows "P s' \<and> list_all2 (\<lambda>x r. case r of Inl e \<Rightarrow> B e | Inr y \<Rightarrow> A x y) xs rs"
  using assms
proof (induction xs arbitrary: s rs)
  case (Cons x xs)
  obtain r s1 where x: "f x s = (r, s1)"
    by fastforce
  obtain q where q: "outcomes_of f xs s1 = (q, s')" and rs: "rs = r # q"
    using Cons.prems(3) by (auto simp: x split: prod.splits)
  have "P s1 \<and> (case r of Inl e \<Rightarrow> B e | Inr y \<Rightarrow> A x y)"
    using Cons.prems(1) [of x] Cons.prems(2) x unfolding hoare_def by (auto split: sum.splits)
  then show ?case
    using Cons.IH [OF _ _ q] Cons.prems(1) rs by simp
qed simp

lemma hoare_gatherE:
  assumes "\<And>x. x \<in> set xs \<Longrightarrow> hoare P (f x) (\<lambda>y s. P s \<and> A x y) (\<lambda>e s. P s \<and> B e)"
  shows "hoare P (gatherE f xs) (\<lambda>ys s. P s \<and> list_all2 A xs ys) (\<lambda>e s. P s \<and> B e)"
  unfolding hoare_def
proof (intro allI impI)
  fix s
  assume P: "P s"
  obtain rs s' where o: "outcomes_of f xs s = (rs, s')"
    by fastforce
  have *: "P s'" "list_all2 (\<lambda>x r. case r of Inl e \<Rightarrow> B e | Inr y \<Rightarrow> A x y) xs rs"
    using outcomes_hoare [OF assms P o] by auto
  from first_error_cases [of rs] show "case gatherE f xs s of (Inl e, s') \<Rightarrow> P s' \<and> B e
      | (Inr ys, s') \<Rightarrow> P s' \<and> list_all2 A xs ys"
  proof (elim disjE exE conjE)
    fix e
    assume "Inl e \<in> set rs" and "first_error rs = Inl e"
    then show ?thesis
      using * by (auto simp: gatherE_def o list_all2_conv_all_nth in_set_conv_nth)
  next
    fix ys
    assume "rs = map Inr ys" and "first_error rs = Inr ys"
    then show ?thesis
      using * by (simp add: gatherE_def o list_all2_map2)
  qed
qed

lemma keeps_finallyE [keeps_rules]: "keeps I m \<Longrightarrow> keeps I f \<Longrightarrow> keeps I (finallyE m f)"
  unfolding keeps_def finallyE_def by (fastforce split: prod.splits sum.splits)

lemma keeps_suppressE [keeps_rules]: "keeps I m \<Longrightarrow> keeps I (suppressE m)"
  unfolding suppressE_def by (intro keeps_rules)

lemma keeps_eachE [keeps_rules]: "(\<And>x. keeps I (f x)) \<Longrightarrow> keeps I (eachE f xs)"
  by (induction xs) (simp_all add: keeps_returnE keeps_thenE)

lemma keeps_foldE [keeps_rules]: "(\<And>x a. keeps I (f x a)) \<Longrightarrow> keeps I (foldE f xs a)"
  by (induction xs arbitrary: a) (simp_all add: keeps_returnE keeps_bindE)

lemma keeps_gatherE [keeps_rules]:
  assumes "\<And>x. keeps I (f x)"
  shows "keeps I (gatherE f xs)"
proof -
  have "I s \<Longrightarrow> I (snd (outcomes_of f xs s))" for s
  proof (induction xs arbitrary: s)
    case (Cons x xs)
    then have "I (snd (f x s))"
      by (intro keepsD [OF assms])
    then show ?case
      using Cons.IH [of "snd (f x s)"] by (simp add: split_def)
  qed simp
  then show ?thesis
    unfolding keeps_def gatherE_def split_def by simp
qed

lemma keeps_graphE [keeps_rules]: "keeps I (graphE r)"
  unfolding graphE_def by (rule keeps_liftE)

end
