(* ===== verification/TeamBudget.thy ===== *)
theory TeamBudget
  imports TeamRules
begin

text \<open>
  How one operation of the task graph changes the states of the tasks, and what this does to the
  attempts that are left.
\<close>

section \<open>Changes of one task\<close>

abbreviation task_at :: "task_graph \<Rightarrow> string \<Rightarrow> task_state option" where
  "task_at G \<equiv> dict_get (g_states G)"

definition changed :: "string \<Rightarrow> (task_state \<Rightarrow> task_state \<Rightarrow> bool) \<Rightarrow> task_graph \<Rightarrow> task_graph \<Rightarrow> bool" where
  "changed t P G G' \<longleftrightarrow> dom (task_at G') = dom (task_at G)
     \<and> (\<exists>s s'. task_at G t = Some s \<and> task_at G' t = Some s' \<and> P s s')
     \<and> (\<forall>k s. k \<noteq> t \<longrightarrow> task_at G k = Some s \<longrightarrow> (\<exists>s'. task_at G' k = Some s' \<and> refreshed s s'))"

definition effect ::
  "task_spec list \<Rightarrow> string \<Rightarrow> (task_state \<Rightarrow> task_state \<Rightarrow> bool) \<Rightarrow> task_graph
   \<Rightarrow> (exn + task_state) \<times> task_graph \<Rightarrow> bool" where
  "effect ts t P G r \<longleftrightarrow> (\<forall>x G'. r = (Inr x, G') \<longrightarrow> inv_at ts G' {} \<and> changed t P G G' \<and> task_at G' t = Some x)
     \<and> (\<forall>e G'. r = (Inl e, G') \<longrightarrow> e \<noteq> FuelOut)"

lemma effectD:
  assumes "effect ts t P G r"
  shows "r = (Inr x, G') \<Longrightarrow> inv_at ts G' {} \<and> changed t P G G' \<and> task_at G' t = Some x"
    and "r = (Inl e, G') \<Longrightarrow> e \<noteq> FuelOut"
  using assms by (simp_all add: effect_def)

lemma effect_mono: "effect ts t P G r \<Longrightarrow> (\<And>s s'. P s s' \<Longrightarrow> Q s s') \<Longrightarrow> effect ts t Q G r"
  unfolding effect_def changed_def by blast

lemma changed_all:
  assumes "changed t P G G'" and "\<And>k s. task_at G k = Some s \<Longrightarrow> A k s"
    and "\<And>s s'. P s s' \<Longrightarrow> A t s \<Longrightarrow> A t s'" and "\<And>k s s'. refreshed s s' \<Longrightarrow> k \<noteq> t \<Longrightarrow> A k s \<Longrightarrow> A k s'"
    and "task_at G' k = Some s'"
  shows "A k s'"
proof (cases "k = t")
  case True
  then show ?thesis
    using assms(1,2,3,5) unfolding changed_def by fastforce
next
  case False
  have "k \<in> dom (task_at G)"
    using assms(1,5) by (auto simp: changed_def)
  then obtain s where s: "task_at G k = Some s"
    by auto
  then have "refreshed s s'"
    using assms(1,5) False by (auto simp: changed_def)
  then show ?thesis
    using assms(2,4) s False by blast
qed

lemma changed_at:
  assumes "changed t P G G'" and "task_at G k = Some s"
  obtains s' where "task_at G' k = Some s'" and "k = t \<Longrightarrow> P s s'" and "k \<noteq> t \<Longrightarrow> refreshed s s'"
proof (cases "k = t")
  case True
  then show ?thesis
    using assms that unfolding changed_def by auto
next
  case False
  then obtain s' where "task_at G' k = Some s'" "refreshed s s'"
    using assms unfolding changed_def by blast
  with False that show ?thesis
    by blast
qed

lemma new_TaskState_err: "new_TaskState s = Inl e \<Longrightarrow> e \<noteq> FuelOut"
  by (auto simp: new_TaskState_def require_def split: if_splits)

lemma change_err:
  assumes "\<And>s e. f s = Inl e \<Longrightarrow> e \<noteq> FuelOut" and "change_state t al f G = (Inl e, G')"
  shows "e \<noteq> FuelOut"
  using assms new_TaskState_err
  by (auto simp: change_state_def require_status_def graph_state_def store_state_def
      split: sum.splits option.splits if_splits)

lemma changed_one:
  assumes "G' = G\<lparr>g_states := dict_set t s' (g_states G)\<rparr>" and "task_at G t = Some s" and "P s s'"
  shows "changed t P G G'"
  using assms by (auto simp: changed_def refreshed_def)

lemma change_effect:
  assumes inv: "inv_at ts G {}" and f: "changes_ok t al f"
    and quiet: "\<And>s s'. f s = Inr s' \<Longrightarrow> ts_status s \<in> set al \<Longrightarrow> ts_status s' \<notin> insert SUCCEEDED (set failed_dependencies)"
    and err: "\<And>s e. f s = Inl e \<Longrightarrow> e \<noteq> FuelOut"
  shows "effect ts t (\<lambda>s s'. ts_status s \<in> set al \<and> f s = Inr s') G (change_state t al f G)"
  unfolding effect_def
proof (intro conjI allI impI)
  fix x G'
  assume r: "change_state t al f G = (Inr x, G')"
  show "inv_at ts G' {}"
    "changed t (\<lambda>s s'. ts_status s \<in> set al \<and> f s = Inr s') G G'" "task_at G' t = Some x"
    using change_cases [OF inv f r] quiet by (auto intro: changed_one)
qed (rule change_err [OF err])

lemma change_refresh_effect:
  assumes inv: "inv_at ts G {}" and f: "changes_ok t al f"
    and final: "\<And>s s'. f s = Inr s' \<Longrightarrow> ts_status s \<in> set al \<Longrightarrow> ts_status s' \<noteq> PENDING"
    and err: "\<And>s e. f s = Inl e \<Longrightarrow> e \<noteq> FuelOut"
  shows "effect ts t (\<lambda>s s'. ts_status s \<in> set al \<and> f s = Inr s') G (then_refresh t (change_state t al f G))"
proof -
  obtain out G1 where r: "change_state t al f G = (out, G1)"
    by fastforce
  show ?thesis
  proof (cases out)
    case (Inl e)
    then show ?thesis
      using change_err [OF err] r by (auto simp: effect_def then_refresh_def)
  next
    case (Inr x)
    have one: "task_at G1 t = Some x" "changed t (\<lambda>s s'. ts_status s \<in> set al \<and> f s = Inr s') G G1"
      "ts_status x \<noteq> PENDING" "inv_at ts G1 (set (list_at (dependents G) t))" "dependents G1 = dependents G"
      using change_cases [OF inv f r] Inr final by (auto intro: changed_one)
    have "set (list_at (dependents G) t) \<subseteq> ids ts"
      using inv by (auto simp: inv_at_def shape_def well_formed_def edges_needs)
    then obtain G2 where G2: "refresh_pending (list_at (dependents G) t) G1 = (Inr (), G2)" "inv_at ts G2 {}"
      "\<forall>k s. task_at G1 k = Some s \<longrightarrow> (\<exists>s'. task_at G2 k = Some s' \<and> refreshed s s')"
      by (rule refresh_pending_inv [OF one(4) order_refl])
    have x: "task_at G2 t = Some x"
      using G2(3) one(1,3) by (auto simp: refreshed_def)
    have dom: "dom (task_at G2) = dom (task_at G)"
      using G2(2) inv by (simp add: inv_at_def shape_def states_ok_def)
    have "\<exists>s'. task_at G2 k = Some s' \<and> refreshed s s'" if k: "k \<noteq> t" "task_at G k = Some s" for k s
    proof -
      obtain s1 where "task_at G1 k = Some s1" "refreshed s s1"
        using one(2) k by (rule_tac changed_at) auto
      then show ?thesis
        using G2(3) refreshed_trans by blast
    qed
    then have "changed t (\<lambda>s s'. ts_status s \<in> set al \<and> f s = Inr s') G G2"
      using one(1,2) x dom by (auto simp: changed_def)
    then show ?thesis
      using G2(1,2) x by (simp add: effect_def then_refresh_def r Inr one(5))
  qed
qed

section \<open>The operations\<close>

lemma mark_waiting_effect:
  "inv_at ts G {} \<Longrightarrow> effect ts t (\<lambda>s s'. ts_status s = READY \<and> s' = s\<lparr>ts_status := WAITING\<rparr>) G
     (mark_waiting_approval t G)"
  unfolding mark_waiting_approval_def
  by (rule effect_mono, rule change_effect) (auto simp: change_defs)

lemma resume_approval_effect:
  "inv_at ts G {} \<Longrightarrow> effect ts t (\<lambda>s s'. ts_status s = WAITING
     \<and> s' = s\<lparr>ts_status := READY, approval_granted := True\<rparr>) G (resume_approval t G)"
  unfolding resume_approval_def
  by (rule effect_mono, rule change_effect) (auto simp: change_defs)

lemma start_effect:
  "inv_at ts G {} \<Longrightarrow> effect ts t (\<lambda>s s'. ts_status s = READY \<and> s' = s\<lparr>ts_status := RUNNING,
     ts_attempt := ts_attempt s + 1, assigned_agent := Some a, ts_result := None, ts_verification := None,
     ts_error := []\<rparr>) G (start_task t a G)"
  unfolding start_task_def
  by (rule effect_mono, rule change_effect) (auto simp: change_defs)

lemma begin_verification_effect:
  "inv_at ts G {} \<Longrightarrow> effect ts t (\<lambda>s s'. ts_status s = RUNNING
     \<and> s' = s\<lparr>ts_status := CHECKING, ts_result := r, ts_verification := None\<rparr>) G (begin_verification t r G)"
  unfolding begin_verification_def
  by (rule effect_mono, rule change_effect)
    (auto simp: change_defs matches_assignment_def split: option.splits if_splits)

lemma record_verification_effect:
  "inv_at ts G {} \<Longrightarrow> effect ts t (\<lambda>s s'. ts_status s = CHECKING \<and> s' = s\<lparr>ts_verification := Some v\<rparr>) G
     (record_verification t v G)"
  unfolding record_verification_def
  by (rule effect_mono, rule change_effect) (auto simp: change_defs split: if_splits)

lemma retry_effect:
  "inv_at ts G {} \<Longrightarrow> effect ts t (\<lambda>s s'. ts_status s \<in> {WAITING, RUNNING, CHECKING, READY}
     \<and> s' = s\<lparr>ts_status := READY, assigned_agent := None, ts_result := r, ts_verification := v, ts_error := e\<rparr>) G
     (retry_task t e r v G)"
  unfolding retry_task_def
  by (rule effect_mono, rule change_effect) (auto simp: change_defs)

lemma succeed_effect:
  "inv_at ts G {} \<Longrightarrow> effect ts t (\<lambda>s s'. ts_status s = CHECKING
     \<and> s' = s\<lparr>ts_status := SUCCEEDED, ts_result := Some r, ts_error := []\<rparr>) G (succeed_task t r G)"
  unfolding succeed_task_def
  by (rule effect_mono, rule change_refresh_effect)
    (auto simp: change_defs matches_assignment_def split: option.splits if_splits)

lemma fail_effect:
  "inv_at ts G {} \<Longrightarrow> effect ts t (\<lambda>s s'. ts_status s \<in> {WAITING, RUNNING, CHECKING, READY, PENDING}
     \<and> s' = s\<lparr>ts_status := FAILED_TASK, ts_result := r, ts_verification := v, ts_error := e\<rparr>) G
     (fail_task t e r v G)"
  unfolding fail_task_def
  by (rule effect_mono, rule change_refresh_effect) (auto simp: change_defs)

section \<open>The attempts that are left\<close>

definition weight :: "(string \<Rightarrow> task_state \<Rightarrow> nat) \<Rightarrow> task_graph \<Rightarrow> nat" where
  "weight w G = (\<Sum>k \<in> dom (task_at G). w k (the (task_at G k)))"

lemma rounds_weight:
  assumes "dict_ok (g_states G)"
  shows "rounds_left m G = weight (\<lambda>_. task_budget m) G"
proof -
  have dis: "distinct (dict_keys (g_states G))"
    using assms by (simp add: dict_ok_def)
  have "map (task_budget m) (dict_values (g_states G))
      = map (\<lambda>k. task_budget m (the (task_at G k))) (dict_keys (g_states G))"
    using dis by (auto simp: map_of_eq_Some_iff)
  then have "rounds_left m G = (\<Sum>k \<leftarrow> dict_keys (g_states G). task_budget m (the (task_at G k)))"
    by (simp only: rounds_left_def)
  also have "\<dots> = (\<Sum>k \<in> set (dict_keys (g_states G)). task_budget m (the (task_at G k)))"
    by (rule sum_list_distinct_conv_sum_set [OF dis])
  finally show ?thesis
    by (simp add: weight_def dom_map_of_conv_image_fst)
qed

lemma weight_changed:
  assumes ch: "changed t P G G'" and t: "\<And>s s'. P s s' \<Longrightarrow> v t s' + d \<le> w t s"
    and rest: "\<And>k s s'. k \<noteq> t \<Longrightarrow> refreshed s s' \<Longrightarrow> v k s' \<le> w k s"
  shows "weight v G' + d \<le> weight w G"
proof -
  let ?D = "dom (task_at G)"
  have fin: "finite ?D"
    by (rule finite_dom_map_of)
  have dom: "dom (task_at G') = ?D" and tD: "t \<in> ?D"
    using ch by (auto simp: changed_def)
  have "v t (the (task_at G' t)) + d \<le> w t (the (task_at G t))"
    using ch t by (auto simp: changed_def)
  moreover have "(\<Sum>k \<in> ?D - {t}. v k (the (task_at G' k))) \<le> (\<Sum>k \<in> ?D - {t}. w k (the (task_at G k)))"
  proof (rule sum_mono)
    fix k
    assume "k \<in> ?D - {t}"
    then obtain s where s: "task_at G k = Some s" "k \<noteq> t"
      by auto
    show "v k (the (task_at G' k)) \<le> w k (the (task_at G k))"
      using changed_at [OF ch s(1)] s rest by (metis option.sel)
  qed
  ultimately show ?thesis
    unfolding weight_def dom
    using sum.remove [OF fin tD, of "\<lambda>k. v k (the (task_at G' k))"] sum.remove [OF fin tD, of "\<lambda>k. w k (the (task_at G k))"]
    by linarith
qed

text \<open>
  The tasks \<open>T\<close> of a batch count with what is left once their outcome is known.
\<close>

definition pot :: "int \<Rightarrow> string set \<Rightarrow> string \<Rightarrow> task_state \<Rightarrow> nat" where
  "pot m T k s = (if k \<in> T \<and> ts_status s \<in> {RUNNING, CHECKING}
     then (if ts_attempt s < m then 1 + nat (m - ts_attempt s) else 0) else task_budget m s)"

lemma pot_refreshed: "refreshed s s' \<Longrightarrow> pot m T k s' \<le> pot m T k s"
  by (auto simp: refreshed_def pot_def task_budget_def task_is_terminal_def)

lemma pot_other: "k \<noteq> t \<Longrightarrow> pot m (insert t T) k = pot m T k" "k \<noteq> t \<Longrightarrow> pot m (T - {t}) k = pot m T k"
  by (auto simp: pot_def fun_eq_iff)

lemma pot_empty: "pot m {} k = task_budget m"
  by (auto simp: pot_def)

lemma pot_le_budget: "pot m T k s \<le> task_budget m s"
  by (auto simp: pot_def task_budget_def task_is_terminal_def)

lemma weight_mono:
  assumes "\<And>k s. task_at G k = Some s \<Longrightarrow> v k s \<le> w k s"
  shows "weight v G \<le> weight w G"
  unfolding weight_def using assms by (intro sum_mono) auto

lemma weight_start:
  assumes "changed t (\<lambda>s s'. ts_status s = READY \<and> s' = s\<lparr>ts_status := RUNNING, ts_attempt := ts_attempt s + 1,
     assigned_agent := a, ts_result := None, ts_verification := None, ts_error := []\<rparr>) G G'"
  shows "weight (pot m (insert t T)) G' + 1 \<le> weight (pot m T) G"
  by (rule weight_changed [OF assms])
    (auto simp: pot_other pot_refreshed, auto simp: pot_def task_budget_def task_is_terminal_def)

lemma weight_same:
  assumes "changed t P G G'" and "\<And>s s'. P s s' \<Longrightarrow> pot m T t s' \<le> pot m T t s"
  shows "weight (pot m T) G' \<le> weight (pot m T) G"
  using weight_changed [OF assms(1), where v = "pot m T" and w = "pot m T" and d = 0] assms(2) pot_refreshed
  by (metis add.right_neutral)

lemma weight_done:
  assumes "changed t P G G'" and "\<And>s s'. P s s' \<Longrightarrow> pot m (T - {t}) t s' + d \<le> pot m T t s"
  shows "weight (pot m (T - {t})) G' + d \<le> weight (pot m T) G"
  by (rule weight_changed [where t = t and P = P]) (simp_all add: assms pot_other pot_refreshed)

section \<open>Attempts\<close>

text \<open>
  \<open>l\<close> bounds the attempts: a task that may still be started has had fewer. For a new graph \<open>l\<close> is
  the limit of the request; for a restored one it may be larger.
\<close>

definition attempt_ok :: "int \<Rightarrow> task_state \<Rightarrow> bool" where
  "attempt_ok l s \<longleftrightarrow> ts_attempt s \<le> l \<and> (ts_status s \<in> {PENDING, READY, WAITING} \<longrightarrow> ts_attempt s < l)"

definition attempts_within :: "int \<Rightarrow> task_graph \<Rightarrow> bool" where
  "attempts_within l G \<longleftrightarrow> (\<forall>k s. task_at G k = Some s \<longrightarrow> attempt_ok l s)"

lemma attempt_refreshed: "refreshed s s' \<Longrightarrow> attempt_ok l s \<Longrightarrow> attempt_ok l s'"
  by (auto simp: refreshed_def attempt_ok_def)

lemma attempts_changed:
  assumes "changed t P G G'" and "attempts_within l G" and "\<And>s s'. P s s' \<Longrightarrow> attempt_ok l s \<Longrightarrow> attempt_ok l s'"
  shows "attempts_within l G'"
  using changed_all [OF assms(1), where A = "\<lambda>_. attempt_ok l"] assms(2,3) attempt_refreshed
  by (auto simp: attempts_within_def)

section \<open>Reading the graph\<close>

lemma in_graph_states: "s \<in> set (graph_states G) \<longleftrightarrow> (\<exists>k. task_at G k = Some s)"
proof -
  have "set (graph_states G) = (\<lambda>k. the (task_at G k)) ` dom (task_at G)"
    by (simp add: graph_states_def dom_map_of_conv_image_fst)
  then show ?thesis
    by (force simp: image_iff dom_def)
qed

lemma in_ready_tasks:
  assumes "dict_ok (g_states G)"
  shows "t \<in> set (ready_tasks G) \<longleftrightarrow> (\<exists>k s. task_at G k = Some s \<and> ts_status s = READY \<and> spec s = t)"
proof -
  have "t \<in> set (ready_tasks G) \<longleftrightarrow> (\<exists>s \<in> set (dict_values (g_states G)). ts_status s = READY \<and> spec s = t)"
    by (auto simp: ready_tasks_def)
  then show ?thesis
    using dict_values_get [OF assms] by blast
qed

lemma all_succeeded_iff:
  assumes "dict_ok (g_states G)"
  shows "all_succeeded G \<longleftrightarrow> (\<forall>k s. task_at G k = Some s \<longrightarrow> ts_status s = SUCCEEDED)"
  using assms by (auto simp: all_succeeded_def list_all_iff dict_values_get simp del: set_map)

lemma inv_dict: "inv_at ts G A \<Longrightarrow> dict_ok (g_states G)"
  by (simp add: inv_at_def shape_def)

lemma inv_task:
  "inv_at ts G A \<Longrightarrow> task_at G k = Some s \<Longrightarrow> task_id (spec s) = k \<and> evidenced s \<and> new_TaskState s = Inr s"
  by (auto simp: inv_at_def shape_def states_ok_def)

lemma inv_nonempty:
  assumes "inv_at ts G A"
  shows "graph_states G \<noteq> []"
proof -
  have "ts \<noteq> []" and "dom (task_at G) = ids ts"
    using assms by (auto simp: inv_at_def shape_def states_ok_def well_formed_def)
  then have "dom (task_at G) \<noteq> {}"
    by (simp add: ids_def)
  then obtain k s where "task_at G k = Some s"
    by (auto simp: dom_def)
  then show ?thesis
    using in_graph_states [of s G] by force
qed

end
