(* ===== verification/TeamTrace.thy ===== *)
theory TeamTrace
  imports TeamBudget
begin

text \<open>
  The contract between the team controller and its components, the conditions on the trace of a
  call, and the rules for saving, publishing and cancelling.
\<close>

section \<open>Traces\<close>

text \<open>
  The snapshot that is stored at some point of a trace, and what every action needs of it: \<open>l\<close>
  bounds the attempts of a task and \<open>c\<close> the cycles of the run.
\<close>

fun after :: "team_snapshot option \<Rightarrow> team_action \<Rightarrow> team_snapshot option" where
  "after cur (Created s) = Some s"
| "after cur (Stored s) = Some s"
| "after cur _ = cur"

definition holds_task :: "team_snapshot option \<Rightarrow> (task_state \<Rightarrow> bool) \<Rightarrow> bool" where
  "holds_task cur P \<longleftrightarrow> (case cur of None \<Rightarrow> False | Some s \<Rightarrow> list_ex P (tn_tasks s))"

definition all_tasks :: "team_snapshot option \<Rightarrow> (task_state \<Rightarrow> bool) \<Rightarrow> bool" where
  "all_tasks cur P \<longleftrightarrow> (case cur of None \<Rightarrow> False | Some s \<Rightarrow> tn_tasks s \<noteq> [] \<and> list_all P (tn_tasks s))"

definition succeeded :: "task_state \<Rightarrow> bool" where
  "succeeded t \<longleftrightarrow> ts_status t = SUCCEEDED \<and>
     (case (ts_result t, ts_verification t) of
        (Some r, Some v) \<Rightarrow> tr_task r = task_id (spec t) \<and> tr_success r \<and> tr_attempt r = ts_attempt t
          \<and> assigned_agent t = Some (tr_agent r) \<and> tv_passed v
      | _ \<Rightarrow> False)"

definition completed_ok :: "team_snapshot \<Rightarrow> bool" where
  "completed_ok s \<longleftrightarrow> (tn_status s = T_COMPLETED \<longrightarrow> all_tasks (Some s) succeeded \<and> tn_history s \<noteq> []
     \<and> (let h = last (tn_history s) in cr_tasks h = tn_tasks s \<and> cr_output h = tn_output s
        \<and> (case cr_review h of None \<Rightarrow> False | Some v \<Rightarrow> rv_action v = RV_ACCEPT)))"

definition dispatched :: "team_snapshot option \<Rightarrow> agent_context \<Rightarrow> bool" where
  "dispatched cur c \<longleftrightarrow> holds_task cur (\<lambda>t. spec t = ac_task c \<and> ts_status t = RUNNING \<and> ts_attempt t = ac_attempt c
       \<and> assigned_agent t = Some (ac_agent c) \<and> (task_approval (spec t) \<longrightarrow> approval_granted t))
     \<and> list_all (\<lambda>d. holds_task cur (\<lambda>t. task_id (spec t) = d \<and> ts_status t = SUCCEEDED)) (dependencies (ac_task c))"

fun action_ok :: "int \<Rightarrow> int \<Rightarrow> team_snapshot option \<Rightarrow> team_action \<Rightarrow> bool" where
  "action_ok l c cur (Created s) \<longleftrightarrow> tn_status s = T_PLANNING \<and> tn_tasks s = []"
| "action_ok l c cur (Stored s) \<longleftrightarrow> completed_ok s"
| "action_ok l c cur (Announced e) \<longleftrightarrow> cur = Some (te_snapshot e)"
| "action_ok l c cur (Planned p) \<longleftrightarrow> pc_cycle p \<le> c \<and> map_option tn_cycle cur = Some (pc_cycle p - 1)"
| "action_ok l c cur (Gated a) \<longleftrightarrow> holds_task cur (\<lambda>t. spec t = ac_task a \<and> ts_status t = WAITING \<and> \<not> approval_granted t)"
| "action_ok l c cur (Invoked a) \<longleftrightarrow> ac_attempt a \<le> l \<and> dispatched cur a"
| "action_ok l c cur (Checked a r) \<longleftrightarrow> holds_task cur (\<lambda>t. spec t = ac_task a \<and> ts_status t = CHECKING \<and> ts_result t = Some r)"
| "action_ok l c cur Aggregated \<longleftrightarrow> all_tasks cur succeeded"
| "action_ok l c cur (Reviewed v) \<longleftrightarrow> all_tasks cur succeeded"
| "action_ok l c cur (Leased _) \<longleftrightarrow> True"
| "action_ok l c cur (Released _) \<longleftrightarrow> True"

fun trace_ok :: "int \<Rightarrow> int \<Rightarrow> team_snapshot option \<Rightarrow> team_action list \<Rightarrow> bool" where
  "trace_ok l c cur [] \<longleftrightarrow> True"
| "trace_ok l c cur (a # as) \<longleftrightarrow> action_ok l c cur a \<and> trace_ok l c (after cur a) as"

lemma trace_ok_append:
  "trace_ok l c cur (as @ bs) \<longleftrightarrow> trace_ok l c cur as \<and> trace_ok l c (foldl after cur as) bs"
  by (induction as arbitrary: cur) auto

section \<open>The components\<close>

text \<open>
  A save returns the snapshot it was given, up to the version and the times that the repository
  sets. \<open>FuelOut\<close> is no exception of Python: no component raises it.
\<close>

definition never :: "('w \<Rightarrow> (exn + 'a) \<times> 'w) \<Rightarrow> bool" where
  "never f \<longleftrightarrow> (\<forall>w. fst (f w) \<noteq> Inl FuelOut)"

locale team_components =
  fixes env :: "'w team_env"
  assumes save_content: "c_save env s v w = (Inr s', w') \<Longrightarrow>
      s'\<lparr>tn_version := tn_version s, tn_created := tn_created s, tn_updated := tn_updated s\<rparr> = s"
    and never_create: "never (c_create env s)"
    and never_load: "never (c_load env rid)"
    and never_save: "never (c_save env s v)"
    and never_claim: "never (c_claim env rid owner)"
    and never_unclaim: "never (c_unclaim env rid owner)"
    and never_publish: "never (c_publish env ev)"
    and never_observe: "c_observe env = Some observe \<Longrightarrow> never (observe ev)"
    and never_prepare: "c_prepare env = Some prepare \<Longrightarrow> never (prepare s)"
    and never_plan: "never (c_plan env p)"
    and never_acquire: "never (c_acquire env t)"
    and never_release: "never (c_release env a)"
    and never_invoke: "never (c_invoke env a x)"
    and never_verify: "never (c_verify env x r)"
    and never_gate: "never (c_gate env x)"
    and never_aggregate: "never (c_aggregate env q rs)"
    and never_review: "c_review env = Some review \<Longrightarrow> never (review y)"

section \<open>What holds during a call\<close>

text \<open>
  The trace of the state before the call, the two bounds and the request of the run do not change
  during a call. \<open>traced\<close>: the call has appended a good trace; \<open>stands\<close>: moreover \<open>s\<close> is the snapshot
  that it stored last; \<open>fails\<close>: what holds when an exception is passed on.
\<close>

record ghost =
  gh_trace :: "team_action list"
  gh_attempts :: int
  gh_cycles :: int
  gh_request :: team_request

definition traced :: "ghost \<Rightarrow> 'w team_state \<Rightarrow> bool" where
  "traced g st \<longleftrightarrow> (\<exists>new. team_trace st = gh_trace g @ new \<and> trace_ok (gh_attempts g) (gh_cycles g) None new)"

definition stands :: "ghost \<Rightarrow> team_snapshot \<Rightarrow> 'w team_state \<Rightarrow> bool" where
  "stands g s st \<longleftrightarrow> (\<exists>new. team_trace st = gh_trace g @ new \<and> trace_ok (gh_attempts g) (gh_cycles g) None new
     \<and> foldl after None new = Some s)"

definition fails :: "ghost \<Rightarrow> exn \<Rightarrow> 'w team_state \<Rightarrow> bool" where
  "fails g e st \<longleftrightarrow> traced g st \<and> e \<noteq> FuelOut"

lemma stands_traced: "stands g s st \<Longrightarrow> traced g st"
  by (auto simp: stands_def traced_def)

lemma traced_world [simp]: "traced g (st\<lparr>team_world := w\<rparr>) = traced g st"
  by (simp add: traced_def)

lemma stands_world [simp]: "stands g s (st\<lparr>team_world := w\<rparr>) = stands g s st"
  by (simp add: stands_def)

lemma traced_other [simp]:
  "traced g (st\<lparr>cancel_requested := X\<rparr>) = traced g st" "traced g (st\<lparr>active_runs := X\<rparr>) = traced g st"
  "traced g (st\<lparr>leases := L\<rparr>) = traced g st"
  by (simp_all add: traced_def)

lemma stands_other [simp]:
  "stands g s (st\<lparr>cancel_requested := X\<rparr>) = stands g s st" "stands g s (st\<lparr>active_runs := X\<rparr>) = stands g s st"
  "stands g s (st\<lparr>leases := L\<rparr>) = stands g s st"
  by (simp_all add: stands_def)

lemma stands_note:
  "stands g s st \<Longrightarrow> action_ok (gh_attempts g) (gh_cycles g) (Some s) a \<Longrightarrow> after (Some s) a = Some s'
     \<Longrightarrow> stands g s' (st\<lparr>team_trace := team_trace st @ [a]\<rparr>)"
  by (auto simp: stands_def trace_ok_append)

lemma traced_note:
  "traced g st \<Longrightarrow> (\<And>cur. action_ok (gh_attempts g) (gh_cycles g) cur a) \<Longrightarrow> (\<And>cur. after cur a = Some s')
     \<Longrightarrow> stands g s' (st\<lparr>team_trace := team_trace st @ [a]\<rparr>)"
  by (auto simp: traced_def stands_def trace_ok_append)

lemma fails_if: "traced g st \<Longrightarrow> e \<noteq> FuelOut \<Longrightarrow> fails g e st"
  by (simp add: fails_def)

text \<open>Any predicate that the world does not matter for is kept by a call of a component.\<close>

lemma call_rule:
  assumes "never f" and "\<And>st w. I st \<Longrightarrow> I (st\<lparr>team_world := w\<rparr>)" and "\<And>st. I st \<Longrightarrow> traced g st"
  shows "hoare I (doE f) (\<lambda>_. I) (fails g)"
proof (rule hoare_doE)
  fix s e w
  assume "I s" and "f (team_world s) = (Inl e, w)"
  then show "fails g e (s\<lparr>team_world := w\<rparr>)"
    using assms by (metis fails_if fst_conv never_def)
qed (rule assms)

lemma read_rule:
  assumes "\<And>st w. I st \<Longrightarrow> I (st\<lparr>team_world := w\<rparr>)"
  shows "hoare I (readE f) (\<lambda>_. I) E"
  by (rule hoare_readE) (rule assms)

lemma note_rule:
  assumes "action_ok (gh_attempts g) (gh_cycles g) (Some s) a" and "after (Some s) a = Some s"
  shows "hoare (stands g s) (noteE a) (\<lambda>_. stands g s) E"
  by (rule hoare_noteE) (rule stands_note [OF _ assms])

lemma lift_rule:
  assumes "\<And>x. r = Inr x \<Longrightarrow> A x" and "\<And>e. r = Inl e \<Longrightarrow> e \<noteq> FuelOut" and "\<And>st. I st \<Longrightarrow> traced g st"
  shows "hoare I (liftE r) (\<lambda>x st. A x \<and> I st) (fails g)"
  by (rule hoare_liftE) (auto simp: assms fails_def)

end
