(* ===== verification/TeamSaving.thy ===== *)
theory TeamSaving
  imports TeamTrace
begin

text \<open>
  Saving, publishing and the final states of the team controller: each keeps the conditions on the
  trace, and the snapshot that it returns is the one stored last.
\<close>

definition saved :: "team_snapshot \<Rightarrow> task_graph option \<Rightarrow> save_args \<Rightarrow> team_snapshot \<Rightarrow> bool" where
  "saved s G a s' \<longleftrightarrow> tn_request s' = tn_request s \<and> tn_run_id s' = tn_run_id s
     \<and> tn_tasks s' = given (sv_tasks a) (case G of None \<Rightarrow> tn_tasks s | Some g \<Rightarrow> graph_states g)
     \<and> tn_status s' = sv_status a \<and> tn_stop_reason s' = sv_reason a \<and> tn_output s' = sv_output a
     \<and> tn_error s' = sv_error a \<and> tn_cycle s' = given (sv_cycle a) (tn_cycle s)
     \<and> tn_plan_revision s' = given (sv_revision a) (tn_plan_revision s)
     \<and> tn_history s' = given (sv_history a) (tn_history s)
     \<and> tn_interaction s' = given (sv_interaction a) (tn_interaction s)
     \<and> tn_human s' = given (sv_human a) (tn_human s)"

lemma saving_simps [simp]:
  "sv_status (saving x) = x" "sv_reason (saving x) = None" "sv_output (saving x) = []" "sv_error (saving x) = []"
  "sv_tasks (saving x) = None" "sv_cycle (saving x) = None" "sv_revision (saving x) = None"
  "sv_history (saving x) = None" "sv_interaction (saving x) = None" "sv_review (saving x) = None"
  "sv_human (saving x) = None" "sv_approved (saving x) = None"
  by (simp_all add: saving_def)

lemma given_simps [simp]: "given None x = x" "given (Some y) x = y"
  by (simp_all add: given_def)

lemma require_err: "require b msg r = Inl e \<Longrightarrow> (\<And>e. r = Inl e \<Longrightarrow> e \<noteq> FuelOut) \<Longrightarrow> e \<noteq> FuelOut"
  by (auto simp: require_def split: if_splits)

lemma new_TeamSnapshot_Inr: "new_TeamSnapshot s = Inr s' \<Longrightarrow> s' = s"
  by (auto simp: new_TeamSnapshot_def)

lemma new_TeamSnapshot_err: "new_TeamSnapshot s = Inl e \<Longrightarrow> e \<noteq> FuelOut"
  unfolding new_TeamSnapshot_def by (elim require_err) simp_all

lemma new_TeamEvent_Inr: "new_TeamEvent s = Inr s' \<Longrightarrow> s' = s"
  by (auto simp: new_TeamEvent_def)

lemma new_TeamEvent_err: "new_TeamEvent s = Inl e \<Longrightarrow> e \<noteq> FuelOut"
  unfolding new_TeamEvent_def by (elim require_err) simp_all

lemma not_completed: "tn_status s \<noteq> T_COMPLETED \<Longrightarrow> completed_ok s"
  by (simp add: completed_ok_def)

context team_components begin

lemma prepare_rule:
  assumes "\<And>st w. I st \<Longrightarrow> I (st\<lparr>team_world := w\<rparr>)" and "\<And>st. I st \<Longrightarrow> traced g st"
  shows "hoare I (prepare_snapshot env s) (\<lambda>p st. p\<lparr>tn_propagation := tn_propagation s\<rparr> = s \<and> I st) (fails g)"
proof (cases "c_prepare env")
  case None
  then show ?thesis
    by (auto simp: prepare_snapshot_def intro: hoare_return)
next
  case (Some f)
  have call: "hoare I (doE (f s)) (\<lambda>_. I) (\<lambda>e st. I st \<and> e \<noteq> FuelOut)"
  proof (rule hoare_doE)
    fix st e w
    assume "I st" and "f s (team_world st) = (Inl e, w)"
    then show "I (st\<lparr>team_world := w\<rparr>) \<and> e \<noteq> FuelOut"
      using never_prepare [OF Some, of s] assms(1) by (metis fst_conv never_def)
  qed (rule assms(1))
  have "hoare I (bindE (doE (f s)) (\<lambda>p. if p\<lparr>tn_propagation := tn_propagation s\<rparr> \<noteq> s
       then raiseE (ValueError ''team snapshot preparer changed business state'') else returnE p))
     (\<lambda>p st. p\<lparr>tn_propagation := tn_propagation s\<rparr> = s \<and> I st) (\<lambda>e st. I st \<and> e \<noteq> FuelOut)"
    by (rule hoare_bind [OF call], rule hoare_if) (auto intro: hoare_raise hoare_return)
  then show ?thesis
    unfolding prepare_snapshot_def Some option.case
    by (rule hoare_try) (auto intro!: hoare_if hoare_return hoare_raise fails_if assms(2))
qed

lemma store_rule:
  assumes "\<And>s'. s'\<lparr>tn_version := tn_version s, tn_created := tn_created s, tn_updated := tn_updated s\<rparr> = s
      \<Longrightarrow> completed_ok s'"
  shows "hoare (traced g) (store_snapshot env s v)
    (\<lambda>s' st. s'\<lparr>tn_version := tn_version s, tn_created := tn_created s, tn_updated := tn_updated s\<rparr> = s
       \<and> stands g s' st) (fails g)"
  unfolding store_snapshot_def
proof (rule hoare_bind_pure)
  show "hoare (traced g) (doE (c_save env s v)) (\<lambda>s' st.
     s'\<lparr>tn_version := tn_version s, tn_created := tn_created s, tn_updated := tn_updated s\<rparr> = s \<and> traced g st) (fails g)"
  proof (rule hoare_doE)
    fix st e w
    assume "traced g st" and "c_save env s v (team_world st) = (Inl e, w)"
    then show "fails g e (st\<lparr>team_world := w\<rparr>)"
      using never_save by (metis fails_if fst_conv never_def traced_world)
  qed (auto dest: save_content)
  fix s'
  assume s': "s'\<lparr>tn_version := tn_version s, tn_created := tn_created s, tn_updated := tn_updated s\<rparr> = s"
  have "hoare (traced g) (noteE (Stored s')) (\<lambda>_. stands g s') (fails g)"
    by (rule hoare_noteE) (rule traced_note, simp_all add: assms [OF s'])
  then show "hoare (traced g) (thenE (noteE (Stored s')) (returnE s'))
     (\<lambda>s' st. s'\<lparr>tn_version := tn_version s, tn_created := tn_created s, tn_updated := tn_updated s\<rparr> = s \<and> stands g s' st)
     (fails g)"
    by (rule hoare_then) (auto intro: hoare_return s')
qed

lemma saved_candidate:
  assumes "p\<lparr>tn_propagation := tn_propagation (candidate_of s G a now)\<rparr> = candidate_of s G a now"
    and "s'\<lparr>tn_version := tn_version p, tn_created := tn_created p, tn_updated := tn_updated p\<rparr> = p"
  shows "saved s G a s'"
proof -
  have "s'\<lparr>tn_version := v, tn_created := d, tn_updated := u, tn_propagation := q\<rparr>
      = (candidate_of s G a now)\<lparr>tn_version := v, tn_created := d, tn_updated := u, tn_propagation := q\<rparr>" for v d u q
    using arg_cong [OF assms(1), of "\<lambda>x. x\<lparr>tn_version := v, tn_created := d, tn_updated := u, tn_propagation := q\<rparr>"]
      arg_cong [OF assms(2), of "\<lambda>x. x\<lparr>tn_version := v, tn_created := d, tn_updated := u, tn_propagation := q\<rparr>"]
    by simp
  then have same: "f s' = f (candidate_of s G a now)"
    if "\<And>x v d u q. f (x\<lparr>tn_version := v, tn_created := d, tn_updated := u, tn_propagation := q\<rparr>) = f x"
    for f :: "team_snapshot \<Rightarrow> 'x"
    using that by metis
  show ?thesis
    unfolding saved_def
    by (subst same [of tn_request], simp, subst same [of tn_run_id], simp, subst same [of tn_tasks], simp,
        subst same [of tn_status], simp, subst same [of tn_stop_reason], simp, subst same [of tn_output], simp,
        subst same [of tn_error], simp, subst same [of tn_cycle], simp, subst same [of tn_plan_revision], simp,
        subst same [of tn_history], simp, subst same [of tn_interaction], simp, subst same [of tn_human], simp)
      (simp add: candidate_of_def Let_def)
qed

lemma save_traced:
  assumes "\<And>s'. saved s G a s' \<Longrightarrow> completed_ok s'"
  shows "hoare (traced g) (save_team env s G a) (\<lambda>s' st. saved s G a s' \<and> stands g s' st) (fails g)"
  unfolding save_team_def
proof (rule hoare_bind [OF read_rule])
  fix now
  let ?c = "candidate_of s G a now"
  show "hoare (traced g) (bindE (liftE (new_TeamSnapshot ?c)) (\<lambda>c.
     bindE (prepare_snapshot env c) (\<lambda>p. store_snapshot env p (tn_version s)))) (\<lambda>s' st. saved s G a s' \<and> stands g s' st) (fails g)"
  proof (rule hoare_bind_pure [OF lift_rule [where A = "\<lambda>c. c = ?c"]])
    fix c
    assume c: "c = ?c"
    show "hoare (traced g) (bindE (prepare_snapshot env c) (\<lambda>p. store_snapshot env p (tn_version s)))
      (\<lambda>s' st. saved s G a s' \<and> stands g s' st) (fails g)"
    proof (rule hoare_bind_pure [OF prepare_rule])
      fix p
      assume p: "p\<lparr>tn_propagation := tn_propagation c\<rparr> = c"
      note content = saved_candidate [OF p [unfolded c]]
      show "hoare (traced g) (store_snapshot env p (tn_version s)) (\<lambda>s' st. saved s G a s' \<and> stands g s' st) (fails g)"
        by (rule hoare_post [OF store_rule]) (auto intro: assms content)
    qed simp_all
  qed (auto dest: new_TeamSnapshot_Inr new_TeamSnapshot_err)
qed simp_all

lemma save_rule:
  assumes "\<And>s'. saved s G a s' \<Longrightarrow> completed_ok s'"
  shows "hoare (stands g x) (save_team env s G a) (\<lambda>s' st. saved s G a s' \<and> stands g s' st) (fails g)"
  by (rule hoare_pre [OF save_traced]) (auto intro: assms dest: stands_traced)

lemma save_running:
  "sv_status a \<noteq> T_COMPLETED \<Longrightarrow>
     hoare (stands g x) (save_team env s G a) (\<lambda>s' st. saved s G a s' \<and> stands g s' st) (fails g)"
  by (rule save_rule) (auto simp: saved_def intro: not_completed)

lemma publish_rule: "hoare (stands g s) (publish_team env et s d m) (\<lambda>_. stands g s) (fails g)"
  unfolding publish_team_def
proof (rule hoare_bind [OF read_rule], simp, rule hoare_bind_pure [OF lift_rule])
  fix now and ev :: team_event
  assume ev: "te_snapshot ev = s"
  have "hoare (stands g s) (thenE (doE (c_publish env ev)) (noteE (Announced ev))) (\<lambda>_. stands g s) (fails g)"
    by (rule hoare_then [OF call_rule [OF never_publish] note_rule]) (auto simp: ev dest: stands_traced)
  moreover have "hoare (stands g s) (case c_observe env of None \<Rightarrow> returnE () | Some f \<Rightarrow> suppressE (doE (f ev)))
      (\<lambda>_. stands g s) (fails g)"
  proof (cases "c_observe env")
    case (Some f)
    have "hoare (stands g s) (doE (f ev)) (\<lambda>_. stands g s) (\<lambda>e st. stands g s st \<and> e \<noteq> FuelOut)"
      using never_observe [OF Some, of ev] by (intro hoare_doE) (auto simp: never_def, metis fst_conv)
    then have "hoare (stands g s) (suppressE (doE (f ev))) (\<lambda>_. stands g s) (fails g)"
      by (rule hoare_suppressE) (auto intro: fails_if dest: stands_traced)
    then show ?thesis
      by (simp add: Some)
  qed (auto intro: hoare_return)
  moreover have "hoare (fails g e) (case c_observe env of None \<Rightarrow> returnE () | Some f \<Rightarrow> suppressE (doE (f ev)))
      (\<lambda>_. fails g e) (fails g)" for e
  proof (cases "c_observe env")
    case (Some f)
    have "hoare (fails g e) (doE (f ev)) (\<lambda>_. fails g e) (\<lambda>x st. fails g e st \<and> x \<noteq> FuelOut)"
      using never_observe [OF Some, of ev] by (intro hoare_doE) (auto simp: never_def fails_def, metis fst_conv)
    then have "hoare (fails g e) (suppressE (doE (f ev))) (\<lambda>_. fails g e) (fails g)"
      by (rule hoare_suppressE) (auto simp: fails_def)
    then show ?thesis
      by (simp add: Some)
  qed (auto intro: hoare_return)
  ultimately show "hoare (stands g s) (finallyE (thenE (doE (c_publish env ev)) (noteE (Announced ev)))
       (case c_observe env of None \<Rightarrow> returnE () | Some f \<Rightarrow> suppressE (doE (f ev)))) (\<lambda>_. stands g s) (fails g)"
    by (rule hoare_finallyE)
qed (auto dest: new_TeamEvent_Inr new_TeamEvent_err stands_traced)

lemma publish_then:
  "hoare (stands g s) k Q (fails g) \<Longrightarrow> hoare (stands g s) (thenE (publish_team env et s d m) k) Q (fails g)"
  by (rule hoare_then [OF publish_rule])

lemma publish_ready_rule: "hoare (stands g s) (publish_ready env s ts) (\<lambda>_. stands g s) (fails g)"
  unfolding publish_ready_def by (rule hoare_eachE) (rule publish_rule)

lemma publish_ready_then:
  "hoare (stands g s) k Q (fails g) \<Longrightarrow> hoare (stands g s) (thenE (publish_ready env s ts) k) Q (fails g)"
  by (rule hoare_then [OF publish_ready_rule])

end

end
