(* ===== verification/TeamOutcomes.thy ===== *)
theory TeamOutcomes
  imports TeamSaving
begin

text \<open>
  The outcome of a task: verification, completion, retry and failure keep the conditions on the
  trace and use up what is left of the task.
\<close>

definition fit :: "ghost \<Rightarrow> int \<Rightarrow> team_snapshot \<Rightarrow> task_graph \<Rightarrow> bool" where
  "fit g n s G \<longleftrightarrow> tn_request s = gh_request g \<and> tn_cycle s = n \<and> tn_tasks s = graph_states G
     \<and> (\<exists>ts. inv_at ts G {}) \<and> attempts_within (gh_attempts g) G"

abbreviation limit :: "ghost \<Rightarrow> int" where
  "limit g \<equiv> max_task_attempts (tq_limits (gh_request g))"

definition ended :: "team_result \<Rightarrow> bool" where
  "ended r \<longleftrightarrow> tx_status r \<in> {T_COMPLETED, T_FAILED, T_CANCELLED, T_TIMED_OUT, T_BLOCKED, T_PAUSED}"

definition under_check :: "task_graph \<Rightarrow> string \<Rightarrow> bool" where
  "under_check G t \<longleftrightarrow> map_option ts_status (task_at G t) = Some CHECKING"

definition lost :: "string set \<Rightarrow> task_graph \<Rightarrow> string \<Rightarrow> nat" where
  "lost T G t = (if t \<notin> T \<and> under_check G t then 1 else 0)"

text \<open>What is left decreases by \<open>d\<close>, and the other tasks that are under way stay as they are.\<close>

definition progress :: "int \<Rightarrow> string set \<Rightarrow> string set \<Rightarrow> nat \<Rightarrow> string \<Rightarrow> task_graph \<Rightarrow> task_graph \<Rightarrow> bool" where
  "progress m T T' d t G G' \<longleftrightarrow> weight (pot m T') G' + d \<le> weight (pot m T) G
     \<and> (\<forall>k x. k \<noteq> t \<longrightarrow> task_at G k = Some x \<longrightarrow> ts_status x \<noteq> PENDING \<longrightarrow> task_at G' k = Some x)"

lemma changed_others: "changed t P G G' \<Longrightarrow> k \<noteq> t \<Longrightarrow> task_at G k = Some x \<Longrightarrow> ts_status x \<noteq> PENDING
     \<Longrightarrow> task_at G' k = Some x"
  by (erule changed_at) (auto simp: refreshed_def)

lemma progress_same:
  "changed t P G G' \<Longrightarrow> (\<And>s s'. P s s' \<Longrightarrow> pot m T t s' \<le> pot m T t s) \<Longrightarrow> progress m T T 0 t G G'"
  using weight_same changed_others unfolding progress_def by (metis add.right_neutral)

lemma progress_done:
  assumes "changed t P G G'"
    and "\<And>s s'. P s s' \<Longrightarrow> task_at G t = Some s \<Longrightarrow> pot m (T - {t}) t s' + d \<le> pot m T t s"
  shows "progress m T (T - {t}) d t G G'"
proof -
  have ch: "changed t (\<lambda>s s'. P s s' \<and> task_at G t = Some s) G G'"
    using assms(1) by (auto simp: changed_def)
  have "weight (pot m (T - {t})) G' + d \<le> weight (pot m T) G"
    by (rule weight_done [OF ch]) (auto intro: assms(2))
  then show ?thesis
    using changed_others [OF assms(1)] by (simp add: progress_def)
qed

lemma progress_trans:
  assumes "progress m T T1 d t G G1" and "progress m T1 T2 e t G1 G2"
  shows "progress m T T2 (d + e) t G G2"
  using assms unfolding progress_def by auto

lemma fit_changed:
  assumes "fit g n s G" and "saved s (Some G') a s'" and "sv_tasks a = None" and "sv_cycle a = None"
    and "inv_at ts G' {}" and "changed t P G G'"
    and "\<And>x y. P x y \<Longrightarrow> attempt_ok (gh_attempts g) x \<Longrightarrow> attempt_ok (gh_attempts g) y"
  shows "fit g n s' G'"
  using assms(1-5) attempts_changed [OF assms(6) _ assms(7)] by (auto simp: fit_def saved_def)

definition same_outcome :: "task_outcome \<Rightarrow> task_outcome \<Rightarrow> bool" where
  "same_outcome oc oc' \<longleftrightarrow> oc_task oc' = oc_task oc \<and> oc_context oc' = oc_context oc \<and> oc_result oc' = oc_result oc"

definition done_with :: "ghost \<Rightarrow> int \<Rightarrow> string set \<Rightarrow> string \<Rightarrow> task_graph \<Rightarrow> team_snapshot \<times> task_graph \<Rightarrow> bool" where
  "done_with g n T t G x \<longleftrightarrow> fit g n (fst x) (snd x) \<and> progress (limit g) T (T - {t}) (lost T G t) t G (snd x)"

context team_components begin

lemma op_bind:
  assumes "effect ts t P G r"
    and "\<And>x G'. r = (Inr x, G') \<Longrightarrow> inv_at ts G' {} \<Longrightarrow> changed t P G G' \<Longrightarrow> task_at G' t = Some x
       \<Longrightarrow> hoare (stands g s) (f (x, G')) Q (fails g)"
  shows "hoare (stands g s) (bindE (graphE r) f) Q (fails g)"
proof (rule hoare_bind_pure)
  show "hoare (stands g s) (graphE r) (\<lambda>y st. r = (Inr (fst y), snd y) \<and> stands g s st) (fails g)"
    by (rule hoare_graphE) (use effectD(2) [OF assms(1)] in \<open>auto intro: fails_if dest: stands_traced\<close>)
qed (use assms effectD(1) [OF assms(1)] in auto)

lemma save_bind:
  assumes "sv_status a \<noteq> T_COMPLETED"
    and "\<And>s'. saved s G a s' \<Longrightarrow> hoare (stands g s') (f s') Q (fails g)"
  shows "hoare (stands g x) (bindE (save_team env s G a) f) Q (fails g)"
  by (rule hoare_bind_pure [OF save_running [OF assms(1)] assms(2)])

lemma lift_bind:
  assumes "\<And>x. r = Inr x \<Longrightarrow> hoare (stands g s) (f x) Q (fails g)" and "\<And>e. r = Inl e \<Longrightarrow> e \<noteq> FuelOut"
  shows "hoare (stands g s) (bindE (liftE r) f) Q (fails g)"
  by (rule hoare_bind_pure [OF lift_rule [where A = "\<lambda>x. r = Inr x"]]) (auto intro: assms(1) dest: assms(2) stands_traced)

lemma graph_state_err: "graph_state t G = Inl e \<Longrightarrow> e \<noteq> FuelOut"
  by (auto simp: graph_state_def split: option.splits)

lemma graph_state_Inr: "graph_state t G = Inr x \<longleftrightarrow> task_at G t = Some x"
  by (auto simp: graph_state_def split: option.splits)

section \<open>Outcomes\<close>

lemma verify_rule:
  assumes "\<And>r. oc_result oc = Some r \<Longrightarrow> tr_success r
      \<Longrightarrow> action_ok (gh_attempts g) (gh_cycles g) (Some s) (Checked (oc_context oc) r)"
  shows "hoare (stands g s) (verify_outcome env oc) (\<lambda>oc' st. stands g s st \<and> same_outcome oc oc')
    (\<lambda>e st. stands g s st \<and> e \<noteq> FuelOut)"
proof -
  let ?E = "\<lambda>e st. stands g s st \<and> e \<noteq> FuelOut"
  have call: "hoare (stands g s) (doE (c_verify env x r)) (\<lambda>_. stands g s) ?E" for x r
  proof (rule hoare_doE)
    fix st e w
    assume "stands g s st" and "c_verify env x r (team_world st) = (Inl e, w)"
    then show "stands g s (st\<lparr>team_world := w\<rparr>) \<and> e \<noteq> FuelOut"
      using never_verify [of x r] by (metis fst_conv never_def stands_world)
  qed simp
  show ?thesis
  proof (cases "oc_result oc")
    case (Some r)
    show ?thesis
    proof (cases "tr_success r")
      case True
      have "hoare (stands g s) (tryE (thenE (noteE (Checked (oc_context oc) r))
             (bindE (doE (c_verify env (oc_context oc) r)) (\<lambda>v. returnE (oc\<lparr>oc_verification := Some v,
                oc_error := (if tv_passed v then [] else if tv_feedback v \<noteq> [] then tv_feedback v
                             else ''verification failed'')\<rparr>))))
           (\<lambda>e. if escapes e then raiseE e else returnE (oc\<lparr>oc_verification := None, oc_error := exn_text e\<rparr>)))
         (\<lambda>oc' st. stands g s st \<and> same_outcome oc oc') ?E"
      proof (rule hoare_try [OF hoare_then [OF note_rule hoare_bind [OF call]]])
        show "action_ok (gh_attempts g) (gh_cycles g) (Some s) (Checked (oc_context oc) r)"
          by (rule assms [OF Some True])
      qed (auto intro!: hoare_return hoare_if hoare_raise simp: same_outcome_def)
      then show ?thesis
        by (simp add: verify_outcome_def Some True)
    qed (auto simp: verify_outcome_def Some same_outcome_def intro: hoare_return)
  qed (auto simp: verify_outcome_def same_outcome_def intro: hoare_return)
qed

lemma record_rule:
  assumes "fit g n s G"
  shows "hoare (stands g s) (record_outcome env s G oc)
    (\<lambda>x st. (fit g n (fst x) (snd x) \<and> progress m T T 0 (task_id (oc_task oc)) G (snd x)
       \<and> under_check (snd x) (task_id (oc_task oc)) = under_check G (task_id (oc_task oc))) \<and> stands g (fst x) st) (fails g)"
proof (cases "oc_verification oc")
  case None
  then show ?thesis
    using assms by (auto simp: record_outcome_def progress_def intro!: hoare_return)
next
  case (Some v)
  obtain ts where inv: "inv_at ts G {}"
    using assms by (auto simp: fit_def)
  show ?thesis
    unfolding record_outcome_def Some option.case
  proof (rule op_bind [OF record_verification_effect [OF inv]], unfold prod.case, rule save_bind, simp,
      rule publish_then, rule hoare_return)
    fix x G' s' st
    assume inv': "inv_at ts G' {}" and st: "stands g s' st" and sv: "saved s (Some G') (saving T_RUNNING) s'"
      and ch: "changed (task_id (oc_task oc)) (\<lambda>s s'. ts_status s = CHECKING \<and> s' = s\<lparr>ts_verification := Some v\<rparr>) G G'"
    have "fit g n s' G'"
      by (rule fit_changed [OF assms sv _ _ inv' ch]) (auto simp: attempt_ok_def)
    moreover have "progress m T T 0 (task_id (oc_task oc)) G G'"
      by (rule progress_same [OF ch]) (auto simp: pot_def task_budget_def task_is_terminal_def)
    moreover have "under_check G' (task_id (oc_task oc)) = under_check G (task_id (oc_task oc))"
      using ch by (auto simp: under_check_def changed_def)
    ultimately show "(fit g n (fst (s', G')) (snd (s', G'))
       \<and> progress m T T 0 (task_id (oc_task oc)) G (snd (s', G'))
       \<and> under_check (snd (s', G')) (task_id (oc_task oc)) = under_check G (task_id (oc_task oc))) \<and> stands g (fst (s', G')) st"
      using st by simp
  qed
qed

lemma complete_rule:
  assumes "fit g n s G" and "t = task_id (oc_task oc)"
  shows "hoare (stands g s) (complete_task env s G oc r)
    (\<lambda>x st. done_with g n T t G x \<and> stands g (fst x) st) (fails g)"
proof -
  obtain ts where inv: "inv_at ts G {}"
    using assms by (auto simp: fit_def)
  show ?thesis
    unfolding complete_task_def Let_def
  proof (rule op_bind [OF succeed_effect [OF inv]], unfold prod.case, rule save_bind, simp,
      rule publish_then, rule publish_ready_then, rule hoare_return)
    fix x G' s' st
    assume inv': "inv_at ts G' {}" and st: "stands g s' st" and sv: "saved s (Some G') (saving T_RUNNING) s'"
      and ch: "changed (task_id (oc_task oc)) (\<lambda>s s'. ts_status s = CHECKING
         \<and> s' = s\<lparr>ts_status := SUCCEEDED, ts_result := Some r, ts_error := []\<rparr>) G G'"
    have "fit g n s' G'"
      by (rule fit_changed [OF assms(1) sv _ _ inv' ch]) (auto simp: attempt_ok_def)
    moreover have "progress (limit g) T (T - {t}) (lost T G t) t G G'"
      unfolding assms(2) by (rule progress_done [OF ch]) (auto simp: pot_def task_budget_def task_is_terminal_def lost_def)
    ultimately show "done_with g n T t G (s', G') \<and> stands g (fst (s', G')) st"
      using st by (simp add: done_with_def)
  qed
qed

lemma retry_rule:
  assumes fit: "fit g n s G" and t: "t = task_id (oc_task oc)" and l: "limit g \<le> gh_attempts g"
  shows "hoare (stands g s) (retry_or_fail env s G oc)
    (\<lambda>x st. done_with g n T t G x \<and> stands g (fst x) st) (fails g)"
proof -
  obtain ts where inv: "inv_at ts G {}" and lim: "max_task_attempts (tq_limits (tn_request s)) = limit g"
    using fit by (auto simp: fit_def)
  show ?thesis
    unfolding retry_or_fail_def Let_def lim
  proof (rule lift_bind, rule hoare_if)
    fix y
    assume y: "graph_state (task_id (oc_task oc)) G = Inr y" and less: "ts_attempt y < limit g"
    let ?e = "if oc_error oc \<noteq> [] then oc_error oc else ''task did not pass verification''"
    show "hoare (stands g s) (bindE (graphE (retry_task (task_id (oc_task oc)) ?e (oc_result oc) (oc_verification oc) G))
        (\<lambda>(_, G'). bindE (save_team env s (Some G') (saving T_RUNNING)) (\<lambda>s'.
           thenE (publish_team env TE_TASK_RETRYING s' ?e
             [text_entry ''task_id'' (task_id (oc_task oc)), (PStr ''attempt'', PInt (ts_attempt y))])
            (thenE (publish_ready env s' [oc_task oc]) (returnE (s', G'))))))
      (\<lambda>x st. done_with g n T t G x \<and> stands g (fst x) st) (fails g)"
    proof (rule op_bind [OF retry_effect [OF inv]], unfold prod.case, rule save_bind, simp,
        rule publish_then, rule publish_ready_then, rule hoare_return)
      fix x G' s' st
      assume inv': "inv_at ts G' {}" and st: "stands g s' st" and sv: "saved s (Some G') (saving T_RUNNING) s'"
        and ch: "changed (task_id (oc_task oc)) (\<lambda>s s'. ts_status s \<in> {WAITING, RUNNING, CHECKING, READY}
           \<and> s' = s\<lparr>ts_status := READY, assigned_agent := None, ts_result := oc_result oc,
               ts_verification := oc_verification oc, ts_error := ?e\<rparr>) G G'"
      then have ch': "changed (task_id (oc_task oc)) (\<lambda>s s'. ts_attempt s < limit g \<and>
           ts_status s \<in> {WAITING, RUNNING, CHECKING, READY} \<and> s' = s\<lparr>ts_status := READY, assigned_agent := None,
               ts_result := oc_result oc, ts_verification := oc_verification oc, ts_error := ?e\<rparr>) G G'"
        using y less by (auto simp: changed_def graph_state_Inr)
      have "fit g n s' G'"
        using l by (intro fit_changed [OF fit sv _ _ inv' ch']) (auto simp: attempt_ok_def)
      moreover have "progress (limit g) T (T - {t}) (lost T G t) t G G'"
        unfolding t
        by (rule progress_done [OF ch']) (auto simp: pot_def task_budget_def task_is_terminal_def lost_def under_check_def)
      ultimately show "done_with g n T t G (s', G') \<and> stands g (fst (s', G')) st"
        using st by (simp add: done_with_def)
    qed
  next
    fix y
    let ?e = "if oc_error oc \<noteq> [] then oc_error oc else ''task did not pass verification''"
    show "hoare (stands g s) (bindE (graphE (fail_task (task_id (oc_task oc)) ?e (oc_result oc) (oc_verification oc) G))
        (\<lambda>(_, G'). bindE (save_team env s (Some G') ((saving T_RUNNING)\<lparr>sv_error := ?e\<rparr>)) (\<lambda>s'.
           thenE (publish_team env TE_TASK_FAILED s' ?e
             [text_entry ''task_id'' (task_id (oc_task oc)), (PStr ''attempt'', PInt (ts_attempt y))])
            (returnE (s', G')))))
      (\<lambda>x st. done_with g n T t G x \<and> stands g (fst x) st) (fails g)"
    proof (rule op_bind [OF fail_effect [OF inv]], unfold prod.case, rule save_bind, simp,
        rule publish_then, rule hoare_return)
      fix x G' s' st
      assume inv': "inv_at ts G' {}" and st: "stands g s' st"
        and sv: "saved s (Some G') ((saving T_RUNNING)\<lparr>sv_error := ?e\<rparr>) s'"
        and ch: "changed (task_id (oc_task oc)) (\<lambda>s s'. ts_status s \<in> {WAITING, RUNNING, CHECKING, READY, PENDING}
           \<and> s' = s\<lparr>ts_status := FAILED_TASK, ts_result := oc_result oc, ts_verification := oc_verification oc,
               ts_error := ?e\<rparr>) G G'"
      have "fit g n s' G'"
        by (rule fit_changed [OF fit sv _ _ inv' ch]) (auto simp: attempt_ok_def)
      moreover have "progress (limit g) T (T - {t}) (lost T G t) t G G'"
        unfolding t
        by (rule progress_done [OF ch]) (auto simp: pot_def task_budget_def task_is_terminal_def lost_def under_check_def)
      ultimately show "done_with g n T t G (s', G') \<and> stands g (fst (s', G')) st"
        using st by (simp add: done_with_def)
    qed
  qed (rule graph_state_err)
qed

lemma apply_rule:
  assumes fit: "fit g n s G" and t: "t = task_id (oc_task oc)" and l: "limit g \<le> gh_attempts g"
  shows "hoare (stands g s) (apply_outcome env oc (s, G))
    (\<lambda>x st. done_with g n T t G x \<and> stands g (fst x) st) (fails g)"
  unfolding apply_outcome_def prod.case
proof (rule hoare_bind_pure [OF record_rule [OF fit, of oc "limit g" T]])
  fix x
  assume x: "fit g n (fst x) (snd x) \<and> progress (limit g) T T 0 (task_id (oc_task oc)) G (snd x)
     \<and> under_check (snd x) (task_id (oc_task oc)) = under_check G (task_id (oc_task oc))"
  have weaken: "done_with g n T t G y" if "done_with g n T t (snd x) y" for y
    using that x progress_trans [of "limit g" T T 0 t G "snd x" "T - {t}" "lost T (snd x) t" "snd y"]
    by (simp add: done_with_def lost_def t)
  obtain s1 G1 where x1: "x = (s1, G1)"
    by fastforce
  have "hoare (stands g s1) (case outcome_passed oc of Some r \<Rightarrow> complete_task env s1 G1 oc r
      | None \<Rightarrow> retry_or_fail env s1 G1 oc) (\<lambda>y st. done_with g n T t G1 y \<and> stands g (fst y) st) (fails g)"
    using x complete_rule [of g n s1 G1 t oc _ T] retry_rule [of g n s1 G1 t oc T] t l
    by (cases "outcome_passed oc") (auto simp: x1)
  then show "hoare (stands g (fst x)) (case x of (s', G') \<Rightarrow> (case outcome_passed oc of
       Some r \<Rightarrow> complete_task env s' G' oc r | None \<Rightarrow> retry_or_fail env s' G' oc))
     (\<lambda>x st. done_with g n T t G x \<and> stands g (fst x) st) (fails g)"
    by (auto simp: x1 intro: hoare_post weaken [unfolded x1 snd_conv])
qed

end

end
