(* ===== verification/TeamApproval.thy ===== *)
theory TeamApproval
  imports TeamOutcomes
begin

text \<open>
  Verification that is taken up again, and the approval of ready tasks.
\<close>

lemma pot_anti: "T \<subseteq> T' \<Longrightarrow> pot m T' k s \<le> pot m T k s"
  by (auto simp: pot_def task_budget_def task_is_terminal_def)

lemma weight_anti: "T \<subseteq> T' \<Longrightarrow> weight (pot m T') G \<le> weight (pot m T) G"
  by (intro weight_mono pot_anti)

lemma change_same: "change_state t al f G = (Inr x, G') \<Longrightarrow> k \<noteq> t \<Longrightarrow> task_at G' k = task_at G k"
  by (auto simp: change_state_def store_state_def split: sum.splits)

lemma mark_waiting_same: "mark_waiting_approval t G = (Inr x, G') \<Longrightarrow> k \<noteq> t \<Longrightarrow> task_at G' k = task_at G k"
  unfolding mark_waiting_approval_def by (rule change_same)

lemma resume_approval_same: "resume_approval t G = (Inr x, G') \<Longrightarrow> k \<noteq> t \<Longrightarrow> task_at G' k = task_at G k"
  unfolding resume_approval_def by (rule change_same)

lemma start_same: "start_task t a G = (Inr x, G') \<Longrightarrow> k \<noteq> t \<Longrightarrow> task_at G' k = task_at G k"
  unfolding start_task_def by (rule change_same)

text \<open>\<open>names G ts\<close>: the definitions \<open>ts\<close> are those of tasks of the graph.\<close>

definition names :: "task_graph \<Rightarrow> task_spec list \<Rightarrow> bool" where
  "names G ts \<longleftrightarrow> (\<forall>t \<in> set ts. \<exists>y. task_at G (task_id t) = Some y \<and> spec y = t)"

lemma refreshed_spec: "refreshed s s' \<Longrightarrow> spec s' = spec s"
  by (auto simp: refreshed_def)

lemma names_changed:
  assumes "changed t P G G'" and "names G ts" and "\<And>s s'. P s s' \<Longrightarrow> spec s' = spec s"
  shows "names G' ts"
  unfolding names_def
proof
  fix u
  assume "u \<in> set ts"
  then obtain y where y: "task_at G (task_id u) = Some y" "spec y = u"
    using assms(2) by (auto simp: names_def)
  show "\<exists>y. task_at G' (task_id u) = Some y \<and> spec y = u"
    by (rule changed_at [OF assms(1) y(1)]) (use y(2) assms(3) refreshed_spec in metis)
qed

definition approved :: "task_state \<Rightarrow> bool" where
  "approved y \<longleftrightarrow> (task_approval (spec y) \<longrightarrow> approval_granted y)"

definition ready_approved :: "string set \<Rightarrow> task_graph \<Rightarrow> bool" where
  "ready_approved K G \<longleftrightarrow> (\<forall>k y. task_at G k = Some y \<longrightarrow> ts_status y = READY \<longrightarrow> k \<in> K \<or> approved y)"

lemma fit_holds_task: "fit g n s G \<Longrightarrow> task_at G k = Some y \<Longrightarrow> P y \<Longrightarrow> holds_task (Some s) P"
  using in_graph_states [of y G] by (auto simp: holds_task_def fit_def list_ex_iff)

definition approval_post :: "ghost \<Rightarrow> int \<Rightarrow> nat \<Rightarrow> team_snapshot \<times> task_graph \<times> bool \<Rightarrow> bool" where
  "approval_post g n w x \<longleftrightarrow> (case x of (s, G, go) \<Rightarrow>
     if go then fit g n s G \<and> weight (pot (limit g) {}) G \<le> w \<and> ready_approved {} G else ended (team_result_of s))"

context team_components begin

lemma results_of_err: "results_of ds G = Inl e \<Longrightarrow> e \<noteq> FuelOut"
proof (induction ds)
  case (Cons d ds)
  then show ?case
    by (cases "graph_state d G"; cases "results_of ds G") (auto dest: graph_state_err)
qed simp

lemma dependency_results_err: "dependency_results t G = Inl e \<Longrightarrow> e \<noteq> FuelOut"
  by (auto simp: dependency_results_def dest: graph_state_err results_of_err split: sum.splits)

lemma new_AgentTaskContext_err: "new_AgentTaskContext c = Inl e \<Longrightarrow> e \<noteq> FuelOut"
  unfolding new_AgentTaskContext_def by (elim require_err) simp_all

lemma context_bind:
  assumes "\<And>c. ac_task c = t \<Longrightarrow> ac_agent c = agent \<Longrightarrow> ac_attempt c = i \<Longrightarrow> hoare (stands g s) (f c) Q (fails g)"
  shows "hoare (stands g s) (bindE (task_context s' G t agent i err) f) Q (fails g)"
  unfolding task_context_def bindE_assoc
proof (rule lift_bind, rule lift_bind)
  fix rs c
  assume "new_AgentTaskContext \<lparr>ac_run_id = tn_run_id s', ac_request = tn_request s', ac_task = t, ac_agent = agent,
       ac_attempt = i, ac_results = rs, ac_previous_error = err, ac_human = tn_human s',
       ac_propagation = tn_propagation s'\<rparr> = Inr c"
  then show "hoare (stands g s) (f c) Q (fails g)"
    by (intro assms) (auto simp: new_AgentTaskContext_def)
qed (auto dest: dependency_results_err new_AgentTaskContext_err)

section \<open>Verification that is taken up again\<close>

lemma resume_task_rule:
  assumes fit: "fit g n s G" and y: "task_at G (task_id (spec y)) = Some y" "ts_status y = CHECKING"
    and l: "limit g \<le> gh_attempts g"
  shows "hoare (stands g s) (resume_task env y (s, G))
    (\<lambda>x st. done_with g n {} (task_id (spec y)) G x \<and> stands g (fst x) st) (fails g)"
proof -
  obtain ts where inv: "inv_at ts G {}"
    using fit by (auto simp: fit_def)
  then have "evidenced y"
    using y(1) inv_task by blast
  then obtain r where r: "ts_result y = Some r" "assigned_agent y = Some (tr_agent r)"
    using y(2) by (auto simp: evidenced_def)
  let ?Q = "\<lambda>x st. done_with g n {} (task_id (spec y)) G x \<and> stands g (fst x) st"
  have "hoare (stands g s) (bindE (task_context s G (spec y) (tr_agent r) (ts_attempt y) (ts_error y)) (\<lambda>c.
       let oc = \<lparr>oc_task = spec y, oc_context = c, oc_result = Some r, oc_verification = ts_verification y, oc_error = []\<rparr> in
       bindE (if oc_verification oc = None then verify_outcome env oc else returnE oc) (\<lambda>oc'. apply_outcome env oc' (s, G))))
     ?Q (fails g)"
  proof (rule context_bind, unfold Let_def)
    fix c :: agent_context
    assume c: "ac_task c = spec y"
    let ?oc = "\<lparr>oc_task = spec y, oc_context = c, oc_result = Some r, oc_verification = ts_verification y, oc_error = []\<rparr>"
    have "action_ok (gh_attempts g) (gh_cycles g) (Some s) (Checked c r)"
      using fit_holds_task [OF fit y(1)] y(2) r(1) c by simp
    then have "hoare (stands g s) (verify_outcome env ?oc) (\<lambda>oc' st. same_outcome ?oc oc' \<and> stands g s st) (fails g)"
      by (intro hoare_post [OF verify_rule]) (auto intro: fails_if dest: stands_traced)
    then have "hoare (stands g s) (if oc_verification ?oc = None then verify_outcome env ?oc else returnE ?oc)
       (\<lambda>oc' st. same_outcome ?oc oc' \<and> stands g s st) (fails g)"
      by (intro hoare_if hoare_return) (simp_all add: same_outcome_def)
    then show "hoare (stands g s) (bindE (if oc_verification ?oc = None then verify_outcome env ?oc else returnE ?oc)
       (\<lambda>oc'. apply_outcome env oc' (s, G))) ?Q (fails g)"
      by (rule hoare_bind_pure) (rule apply_rule [OF fit _ l], simp add: same_outcome_def)
  qed
  then show ?thesis
    by (simp add: resume_task_def y(2) r)
qed

lemma states_distinct:
  assumes "inv_at ts G {}"
  shows "distinct (map (\<lambda>y. task_id (spec y)) (graph_states G))"
    and "y \<in> set (graph_states G) \<Longrightarrow> task_at G (task_id (spec y)) = Some y"
proof -
  have "map (\<lambda>y. task_id (spec y)) (graph_states G) = sort (dict_keys (g_states G))"
    unfolding graph_states_def map_map comp_def
    by (rule map_idI) (use inv_task [OF assms] in \<open>force simp: dom_map_of_conv_image_fst [symmetric] dom_def\<close>)
  then show "distinct (map (\<lambda>y. task_id (spec y)) (graph_states G))"
    using inv_dict [OF assms] by (simp add: dict_ok_def)
  show "y \<in> set (graph_states G) \<Longrightarrow> task_at G (task_id (spec y)) = Some y"
    using inv_task [OF assms] by (auto simp: in_graph_states)
qed

lemma resume_verifying_rule:
  assumes fit: "fit g n s G" and ex: "list_ex (\<lambda>y. ts_status y = CHECKING) (graph_states G)"
    and l: "limit g \<le> gh_attempts g"
  shows "hoare (stands g s) (resume_verifying env s G)
    (\<lambda>x st. (fit g n (fst x) (snd x) \<and> weight (pot (limit g) {}) (snd x) + 1 \<le> weight (pot (limit g) {}) G)
       \<and> stands g (fst x) st) (fails g)"
proof -
  obtain ts where inv: "inv_at ts G {}"
    using fit by (auto simp: fit_def)
  let ?w = "weight (pot (limit g) {})"
  define I :: "task_state list \<Rightarrow> team_snapshot \<times> task_graph \<Rightarrow> 'w team_state \<Rightarrow> bool" where
    "I = (\<lambda>rest x st. (fit g n (fst x) (snd x) \<and> distinct (map (\<lambda>y. task_id (spec y)) rest)
       \<and> (\<forall>y \<in> set rest. ts_status y = CHECKING \<longrightarrow> task_at (snd x) (task_id (spec y)) = Some y)
       \<and> ?w (snd x) + (if list_ex (\<lambda>y. ts_status y = CHECKING) rest then 0 else 1) \<le> ?w G) \<and> stands g (fst x) st)"
  have step: "hoare (I (y # rest) x) (resume_task env y x) (I rest) (fails g)" for y rest x
  proof -
    obtain s1 G1 where x: "x = (s1, G1)"
      by fastforce
    show ?thesis
    proof (cases "ts_status y = CHECKING")
      case False
      then show ?thesis
        by (auto simp: resume_task_def x I_def intro!: hoare_return)
    next
      case True
      let ?A = "fit g n s1 G1 \<and> distinct (map (\<lambda>y. task_id (spec y)) (y # rest))
       \<and> (\<forall>y \<in> set (y # rest). ts_status y = CHECKING \<longrightarrow> task_at G1 (task_id (spec y)) = Some y) \<and> ?w G1 \<le> ?w G"
      show ?thesis
      proof (cases ?A)
        case False
        then show ?thesis
          using True by (auto simp: hoare_def I_def x)
      next
        case A: True
        have "lost {} G1 (task_id (spec y)) = 1"
          using A True by (simp add: lost_def under_check_def)
        have "I rest z st" if z: "done_with g n {} (task_id (spec y)) G1 z \<and> stands g (fst z) st" for z st
        proof -
          have keep: "task_at (snd z) k = Some x" if "k \<noteq> task_id (spec y)" "task_at G1 k = Some x" "ts_status x \<noteq> PENDING" for k x
            using z that unfolding done_with_def progress_def by blast
          have "task_at (snd z) (task_id (spec u)) = Some u" if u: "u \<in> set rest" "ts_status u = CHECKING" for u
          proof -
            have "task_id (spec y) \<notin> (\<lambda>y. task_id (spec y)) ` set rest"
              and others: "\<forall>u \<in> set rest. ts_status u = CHECKING \<longrightarrow> task_at G1 (task_id (spec u)) = Some u"
              using A by simp_all
            then have "task_id (spec u) \<noteq> task_id (spec y)"
              using u(1) by (metis image_eqI)
            moreover have "task_at G1 (task_id (spec u)) = Some u"
              using others u by blast
            ultimately show ?thesis
              by (rule keep) (simp add: u(2))
          qed
          moreover have "?w (snd z) + 1 \<le> ?w G"
            using z A \<open>lost {} G1 (task_id (spec y)) = 1\<close> by (simp add: done_with_def progress_def)
          ultimately show ?thesis
            using z A by (simp add: I_def done_with_def)
        qed
        moreover have "hoare (stands g s1) (resume_task env y (s1, G1))
            (\<lambda>x st. done_with g n {} (task_id (spec y)) G1 x \<and> stands g (fst x) st) (fails g)"
          using A True l by (intro resume_task_rule) auto
        ultimately show ?thesis
          by (auto simp: x I_def intro: hoare_conseq)
      qed
    qed
  qed
  have "hoare (I (graph_states G) (s, G)) (resume_verifying env s G) (I []) (fails g)"
    unfolding resume_verifying_def by (rule hoare_foldE) (rule step)
  then show ?thesis
    by (rule hoare_conseq) (use fit states_distinct [OF inv] ex in \<open>auto simp: I_def\<close>)
qed

section \<open>Approval\<close>

lemma new_HumanInteractionRequest_err: "new_HumanInteractionRequest k p as i t m c = Inl e \<Longrightarrow> e \<noteq> FuelOut"
  unfolding new_HumanInteractionRequest_def by (elim require_err) simp_all

lemma read_bind:
  "(\<And>x. hoare (stands g s) (f x) Q (fails g)) \<Longrightarrow> hoare (stands g s) (bindE (readE h) f) Q (fails g)"
  by (rule hoare_bind [OF read_rule]) simp_all

lemma defer_rule:
  "hoare (stands g s) (defer_task env s G t) (\<lambda>s' st. tn_status s' = T_PAUSED \<and> stands g s' st) (fails g)"
  unfolding defer_task_def
  by (rule read_bind, rule read_bind, rule lift_bind, rule save_bind, simp, rule publish_then, rule publish_then,
      rule hoare_return, simp add: saved_def, rule new_HumanInteractionRequest_err)

lemma reject_rule:
  assumes "inv_at ts G {}"
  shows "hoare (stands g s) (reject_task env s G t) (\<lambda>x st. tn_status (fst x) = T_FAILED \<and> stands g (fst x) st) (fails g)"
  unfolding reject_task_def Let_def
  by (rule op_bind [OF fail_effect [OF assms]], unfold prod.case, rule save_bind, simp, rule publish_then,
      rule publish_then, rule hoare_return, simp add: saved_def)

lemma gate_rule:
  assumes "\<And>c. ac_task c = t \<Longrightarrow> action_ok (gh_attempts g) (gh_cycles g) (Some s) (Gated c)"
  shows "hoare (stands g s) (gate_decision env s G t y) (\<lambda>_. stands g s) (fails g)"
  unfolding gate_decision_def
  by (rule context_bind, rule hoare_then [OF note_rule call_rule [OF never_gate]])
    (auto intro: assms simp del: action_ok.simps dest: stands_traced)

lemma approve_rule:
  assumes "fit g n s G" and "names G ts" and "ready_approved (task_id ` set ts) G"
    and "weight (pot (limit g) {}) G \<le> w"
  shows "hoare (stands g s) (approve_ready env ts s G) (\<lambda>x st. approval_post g n w x \<and> stands g (fst x) st) (fails g)"
  using assms
proof (induction ts arbitrary: s G)
  case Nil
  then show ?case
    by (auto simp: approval_post_def intro: hoare_return)
next
  case (Cons t ts)
  let ?Q = "\<lambda>x st. approval_post g n w x \<and> stands g (fst x) st"
  obtain tl where inv: "inv_at tl G {}"
    using Cons.prems(1) by (auto simp: fit_def)
  obtain y where y: "task_at G (task_id t) = Some y" "spec y = t" and names: "names G ts"
    using Cons.prems(2) by (auto simp: names_def)
  show ?case
    unfolding approve_ready.simps
  proof (rule lift_bind, rule hoare_if)
    fix st
    assume "graph_state (task_id t) G = Inr st" and "\<not> task_approval t \<or> approval_granted st"
    then have "approved y"
      using y by (auto simp: graph_state_Inr approved_def)
    moreover have "k = task_id t \<or> k \<in> task_id ` set ts \<or> approved u" if "task_at G k = Some u" "ts_status u = READY" for k u
      using Cons.prems(3) that by (auto simp: ready_approved_def)
    ultimately have "ready_approved (task_id ` set ts) G"
      using y(1) unfolding ready_approved_def by fastforce
    then show "hoare (stands g s) (approve_ready env ts s G) ?Q (fails g)"
      by (rule Cons.IH [OF Cons.prems(1) names _ Cons.prems(4)])
  next
    fix st
    assume "graph_state (task_id t) G = Inr st" and no: "\<not> (\<not> task_approval t \<or> approval_granted st)"
    then have st: "st = y"
      using y by (simp add: graph_state_Inr)
    show "hoare (stands g s) (bindE (graphE (mark_waiting_approval (task_id t) G)) (\<lambda>(_, G1).
       bindE (save_team env s (Some G1) (saving T_WAITING_APPROVAL)) (\<lambda>s1.
       thenE (publish_team env TE_APPROVAL_REQUESTED s1 [] [text_entry ''task_id'' (task_id t)])
      (bindE (gate_decision env s1 G1 t st) (\<lambda>d. case d of
         APPROVED \<Rightarrow>
           bindE (graphE (resume_approval (task_id t) G1)) (\<lambda>(_, G2).
           bindE (save_team env s1 (Some G2) (saving T_RUNNING)) (\<lambda>s2.
           thenE (publish_team env TE_APPROVAL_GRANTED s2 [] [text_entry ''task_id'' (task_id t)])
          (thenE (publish_ready env s2 [t])
                 (approve_ready env ts s2 G2))))
       | DEFERRED \<Rightarrow> bindE (defer_task env s1 G1 t) (\<lambda>s2. returnE (s2, G1, False))
       | REJECTED \<Rightarrow> bindE (reject_task env s1 G1 t) (\<lambda>(s2, G2). returnE (s2, G2, False))))))) ?Q (fails g)"
    proof (rule op_bind [OF mark_waiting_effect [OF inv]], unfold prod.case, rule save_bind, simp, rule publish_then,
        rule hoare_bind [OF gate_rule])
      fix x G1 s1 and c :: agent_context
      assume ch: "changed (task_id t) (\<lambda>s s'. ts_status s = READY \<and> s' = s\<lparr>ts_status := WAITING\<rparr>) G G1"
        and inv1: "inv_at tl G1 {}" and sv: "saved s (Some G1) (saving T_WAITING_APPROVAL) s1" and c: "ac_task c = t"
      have "fit g n s1 G1"
        by (rule fit_changed [OF Cons.prems(1) sv _ _ inv1 ch]) (auto simp: attempt_ok_def)
      moreover have "task_at G1 (task_id t) = Some (y\<lparr>ts_status := WAITING\<rparr>)"
        using ch y by (auto simp: changed_def)
      ultimately show "action_ok (gh_attempts g) (gh_cycles g) (Some s1) (Gated c)"
        using no st c y(2) by (auto intro: fit_holds_task)
    next
      fix x G1 s1 d
      assume ch: "changed (task_id t) (\<lambda>s s'. ts_status s = READY \<and> s' = s\<lparr>ts_status := WAITING\<rparr>) G G1"
        and inv1: "inv_at tl G1 {}" and sv: "saved s (Some G1) (saving T_WAITING_APPROVAL) s1"
        and r1: "mark_waiting_approval (task_id t) G = (Inr x, G1)"
      have fit1: "fit g n s1 G1"
        by (rule fit_changed [OF Cons.prems(1) sv _ _ inv1 ch]) (auto simp: attempt_ok_def)
      have w1: "weight (pot (limit g) {}) G1 \<le> w"
        by (rule order_trans [OF weight_same [OF ch] Cons.prems(4)]) (auto simp: pot_def task_budget_def task_is_terminal_def)
      show "hoare (stands g s1) (case d of
         APPROVED \<Rightarrow>
           bindE (graphE (resume_approval (task_id t) G1)) (\<lambda>(_, G2).
           bindE (save_team env s1 (Some G2) (saving T_RUNNING)) (\<lambda>s2.
           thenE (publish_team env TE_APPROVAL_GRANTED s2 [] [text_entry ''task_id'' (task_id t)])
          (thenE (publish_ready env s2 [t])
                 (approve_ready env ts s2 G2))))
       | DEFERRED \<Rightarrow> bindE (defer_task env s1 G1 t) (\<lambda>s2. returnE (s2, G1, False))
       | REJECTED \<Rightarrow> bindE (reject_task env s1 G1 t) (\<lambda>(s2, G2). returnE (s2, G2, False))) ?Q (fails g)"
      proof (cases d)
        case APPROVED
        have "hoare (stands g s1) (bindE (graphE (resume_approval (task_id t) G1)) (\<lambda>(_, G2).
           bindE (save_team env s1 (Some G2) (saving T_RUNNING)) (\<lambda>s2.
           thenE (publish_team env TE_APPROVAL_GRANTED s2 [] [text_entry ''task_id'' (task_id t)])
          (thenE (publish_ready env s2 [t]) (approve_ready env ts s2 G2))))) ?Q (fails g)"
        proof (rule op_bind [OF resume_approval_effect [OF inv1]], unfold prod.case, rule save_bind, simp, rule publish_then,
            rule publish_ready_then, rule Cons.IH)
          fix z G2 s2
          assume ch2: "changed (task_id t) (\<lambda>s s'. ts_status s = WAITING
              \<and> s' = s\<lparr>ts_status := READY, approval_granted := True\<rparr>) G1 G2"
            and inv2: "inv_at tl G2 {}" and sv2: "saved s1 (Some G2) (saving T_RUNNING) s2"
            and r2: "resume_approval (task_id t) G1 = (Inr z, G2)"
          show "fit g n s2 G2"
            by (rule fit_changed [OF fit1 sv2 _ _ inv2 ch2]) (auto simp: attempt_ok_def)
          show "names G2 ts"
            by (rule names_changed [OF ch2 names_changed [OF ch names]]) auto
          show "ready_approved (task_id ` set ts) G2"
            unfolding ready_approved_def
          proof (intro allI impI)
            fix k u
            assume u: "task_at G2 k = Some u" "ts_status u = READY"
            show "k \<in> task_id ` set ts \<or> approved u"
            proof (cases "k = task_id t")
              case True
              then show ?thesis
                using u ch2 by (auto simp: changed_def approved_def)
            next
              case False
              then have "task_at G k = Some u"
                using u mark_waiting_same [OF r1] resume_approval_same [OF r2] by simp
              then show ?thesis
                using u(2) False Cons.prems(3) by (auto simp: ready_approved_def)
            qed
          qed
          show "weight (pot (limit g) {}) G2 \<le> w"
            by (rule order_trans [OF weight_same [OF ch2] w1]) (auto simp: pot_def task_budget_def task_is_terminal_def)
        qed
        then show ?thesis
          by (simp add: APPROVED)
      next
        case DEFERRED
        have "hoare (stands g s1) (bindE (defer_task env s1 G1 t) (\<lambda>s2. returnE (s2, G1, False))) ?Q (fails g)"
          by (rule hoare_bind_pure [OF defer_rule]) (auto simp: approval_post_def ended_def team_result_of_def intro!: hoare_return)
        then show ?thesis
          by (simp add: DEFERRED)
      next
        case REJECTED
        have "hoare (stands g s1) (bindE (reject_task env s1 G1 t) (\<lambda>(s2, G2). returnE (s2, G2, False))) ?Q (fails g)"
          by (rule hoare_bind_pure [OF reject_rule [OF inv1]])
            (auto simp: approval_post_def ended_def team_result_of_def split: prod.split intro!: hoare_return)
        then show ?thesis
          by (simp add: REJECTED)
      qed
    qed
  qed (rule graph_state_err)
qed

lemma ready_names:
  assumes "inv_at ts G {}"
  shows "names G (ready_tasks G)" and "ready_approved (task_id ` set (ready_tasks G)) G"
  using inv_task [OF assms] in_ready_tasks [OF inv_dict [OF assms]]
  by (fastforce simp: names_def ready_approved_def)+

end

end
