(* ===== verification/TeamBatches.thy ===== *)
theory TeamBatches
  imports TeamApproval
begin

text \<open>
  A batch: the ready tasks are given to agents, stored as running, invoked, verified, and their
  outcomes applied. Every task of a batch uses up one attempt.
\<close>

abbreviation sc_id :: "scheduled_task \<Rightarrow> string" where
  "sc_id sc \<equiv> task_id (sc_task sc)"

abbreviation oc_id :: "task_outcome \<Rightarrow> string" where
  "oc_id oc \<equiv> task_id (oc_task oc)"

text \<open>The graph has the task of \<open>sc\<close> as running, with the attempt and the agent of its context.\<close>

definition assigned_in :: "task_graph \<Rightarrow> scheduled_task \<Rightarrow> bool" where
  "assigned_in G sc \<longleftrightarrow> ac_task (sc_context sc) = sc_task sc
     \<and> (\<exists>y. task_at G (sc_id sc) = Some y \<and> spec y = sc_task sc \<and> ts_status y = RUNNING
        \<and> ts_attempt y = ac_attempt (sc_context sc) \<and> assigned_agent y = Some (ac_agent (sc_context sc)) \<and> approved y)"

definition schedule_ok :: "ghost \<Rightarrow> nat \<Rightarrow> schedule \<Rightarrow> bool" where
  "schedule_ok g w sd \<longleftrightarrow> (\<exists>ts. inv_at ts (sd_graph sd) {}) \<and> attempts_within (gh_attempts g) (sd_graph sd)
     \<and> ready_approved {} (sd_graph sd) \<and> (\<forall>sc \<in> set (sd_tasks sd). assigned_in (sd_graph sd) sc)
     \<and> weight (pot (limit g) (sc_id ` set (sd_tasks sd))) (sd_graph sd) + length (sd_tasks sd) \<le> w"

lemma graph_shows: "tn_tasks s = graph_states G \<Longrightarrow> task_at G k = Some y \<Longrightarrow> P y \<Longrightarrow> holds_task (Some s) P"
  using in_graph_states [of y G] by (auto simp: holds_task_def list_ex_iff)

lemma dependencies_succeeded:
  assumes "inv_at ts G {}" and "task_at G k = Some y" and "ts_status y = RUNNING" and "d \<in> set (dependencies (spec y))"
  obtains u where "task_at G d = Some u" and "ts_status u = SUCCEEDED" and "task_id (spec u) = d"
proof -
  have "dependencies (spec y) = needs ts k"
    using assms(1,2) by (simp add: inv_at_def shape_def states_ok_def)
  moreover have "has_status (task_at G) k (set executable)"
    using assms(2,3) by (simp add: has_status_def executable_set)
  ultimately have "has_status (task_at G) d {SUCCEEDED}"
    using assms(1,4) by (auto simp: inv_at_def sound_def)
  then obtain u where "task_at G d = Some u" "ts_status u = SUCCEEDED"
    by (auto simp: has_status_def)
  then show thesis
    using that inv_task [OF assms(1)] by blast
qed

lemma assigned_dispatched:
  assumes inv: "inv_at ts G {}" and sc: "assigned_in G sc" and s: "tn_tasks s = graph_states G"
  shows "dispatched (Some s) (sc_context sc)"
proof -
  obtain y where y: "task_at G (sc_id sc) = Some y" "spec y = sc_task sc" "ts_status y = RUNNING"
      "ts_attempt y = ac_attempt (sc_context sc)" "assigned_agent y = Some (ac_agent (sc_context sc))" "approved y"
    and c: "ac_task (sc_context sc) = sc_task sc"
    using sc by (auto simp: assigned_in_def)
  have "holds_task (Some s) (\<lambda>t. task_id (spec t) = d \<and> ts_status t = SUCCEEDED)"
    if "d \<in> set (dependencies (sc_task sc))" for d
    by (rule dependencies_succeeded [OF inv y(1,3)]) (use that y(2) graph_shows [OF s] in auto)
  moreover have "holds_task (Some s) (\<lambda>t. spec t = ac_task (sc_context sc) \<and> ts_status t = RUNNING
      \<and> ts_attempt t = ac_attempt (sc_context sc) \<and> assigned_agent t = Some (ac_agent (sc_context sc))
      \<and> (task_approval (spec t) \<longrightarrow> approval_granted t))"
    using y c by (intro graph_shows [OF s y(1)]) (auto simp: approved_def)
  ultimately show ?thesis
    by (simp add: dispatched_def list_all_iff c)
qed

lemma schedule_step:
  assumes ok: "schedule_ok g w sd" and r: "start_task (task_id t) a (sd_graph sd) = (Inr x, G')"
    and t: "task_at (sd_graph sd) (task_id t) = Some y" "spec y = t"
    and c: "ac_task c = t" "ac_agent c = a" "ac_attempt c = ts_attempt x"
  shows "schedule_ok g w (sd\<lparr>sd_graph := G', sd_tasks := sd_tasks sd @ [\<lparr>sc_task = t, sc_lease = l, sc_context = c\<rparr>]\<rparr>)"
proof -
  let ?G = "sd_graph sd"
  let ?T = "sc_id ` set (sd_tasks sd)"
  obtain ts where inv: "inv_at ts ?G {}"
    using ok by (auto simp: schedule_ok_def)
  note eff = effectD(1) [OF start_effect [OF inv, of "task_id t" a] r]
  then have ch: "changed (task_id t) (\<lambda>s s'. ts_status s = READY \<and> s' = s\<lparr>ts_status := RUNNING,
     ts_attempt := ts_attempt s + 1, assigned_agent := Some a, ts_result := None, ts_verification := None,
     ts_error := []\<rparr>) ?G G'" and inv': "inv_at ts G' {}" and x: "task_at G' (task_id t) = Some x"
    by simp_all
  have y: "ts_status y = READY" "x = y\<lparr>ts_status := RUNNING, ts_attempt := ts_attempt y + 1, assigned_agent := Some a,
      ts_result := None, ts_verification := None, ts_error := []\<rparr>"
    using ch t(1) x by (auto simp: changed_def)
  note same = start_same [OF r]
  have "attempts_within (gh_attempts g) G'"
    using ok by (intro attempts_changed [OF ch]) (auto simp: schedule_ok_def attempt_ok_def)
  moreover have "ready_approved {} G'"
    unfolding ready_approved_def
  proof (intro allI impI)
    fix k u
    assume u: "task_at G' k = Some u" "ts_status u = READY"
    then have "k \<noteq> task_id t"
      using x y(2) by auto
    then show "k \<in> {} \<or> approved u"
      using u same [of k] ok by (auto simp: schedule_ok_def ready_approved_def)
  qed
  moreover have "assigned_in G' sc" if sc: "sc \<in> set (sd_tasks sd)" for sc
  proof -
    have a: "assigned_in ?G sc"
      using ok sc by (simp add: schedule_ok_def)
    then have "sc_id sc \<noteq> task_id t"
      using t(1) y(1) by (auto simp: assigned_in_def)
    then show ?thesis
      using a same [of "sc_id sc"] by (simp add: assigned_in_def)
  qed
  moreover have "assigned_in G' \<lparr>sc_task = t, sc_lease = l, sc_context = c\<rparr>"
    using ok t y x c by (auto simp: assigned_in_def schedule_ok_def ready_approved_def approved_def)
  moreover have "weight (pot (limit g) (insert (task_id t) ?T)) G' + 1 \<le> weight (pot (limit g) ?T) ?G"
    by (rule weight_start [OF ch])
  moreover have "weight (pot (limit g) ?T) ?G + length (sd_tasks sd) \<le> w"
    using ok by (simp add: schedule_ok_def)
  ultimately show ?thesis
    using inv' by (auto simp: schedule_ok_def)
qed

definition runs_task :: "scheduled_task \<Rightarrow> task_outcome \<Rightarrow> bool" where
  "runs_task sc oc \<longleftrightarrow> oc_task oc = sc_task sc \<and> oc_context oc = sc_context sc"

context team_components begin

section \<open>Giving tasks to agents\<close>

lemma acquire_rule: "hoare (stands g s) (acquire_agent env t) (\<lambda>_. stands g s) (fails g)"
  unfolding acquire_agent_def
proof (rule hoare_try [OF hoare_bind [OF _ hoare_then [OF hoare_modify hoare_then [OF note_rule hoare_return]]]])
  show "hoare (stands g s) (doE (c_acquire env t)) (\<lambda>_. stands g s) (\<lambda>e st. stands g s st \<and> e \<noteq> FuelOut)"
    using never_acquire [of t] by (intro hoare_doE) (auto simp: never_def, metis fst_conv)
qed (auto intro!: hoare_if hoare_return hoare_raise fails_if dest: stands_traced)

lemma schedule_rule:
  assumes "schedule_ok g w sd" and "names (sd_graph sd) ts"
  shows "hoare (stands g s) (schedule_tasks env s ts sd) (\<lambda>sd' st. schedule_ok g w sd' \<and> stands g s st) (fails g)"
  using assms
proof (induction ts arbitrary: sd)
  case (Cons t ts)
  let ?Q = "\<lambda>sd' st. schedule_ok g w sd' \<and> stands g s st"
  obtain y where y: "task_at (sd_graph sd) (task_id t) = Some y" "spec y = t" and names: "names (sd_graph sd) ts"
    using Cons.prems(2) by (auto simp: names_def)
  obtain tl where inv: "inv_at tl (sd_graph sd) {}"
    using Cons.prems(1) by (auto simp: schedule_ok_def)
  have skip: "hoare (stands g s) (schedule_tasks env s ts (if is_capacity e then sd\<lparr>sd_capacity := Some e\<rparr>
      else sd\<lparr>sd_capability := Some e\<rparr>)) ?Q (fails g)" for e
    using Cons.prems(1) names by (intro Cons.IH) (auto simp: schedule_ok_def)
  have take: "hoare (stands g s) (bindE (graphE (start_task (task_id t) (agent_id (al_agent l)) (sd_graph sd))) (\<lambda>(started, G).
      bindE (task_context s G t (agent_id (al_agent l)) (ts_attempt started) err) (\<lambda>c.
        schedule_tasks env s ts (sd\<lparr>sd_graph := G,
              sd_tasks := sd_tasks sd @ [\<lparr>sc_task = t, sc_lease = l, sc_context = c\<rparr>]\<rparr>)))) ?Q (fails g)" for l err
  proof (rule op_bind [OF start_effect [OF inv]], unfold prod.case, rule context_bind, rule Cons.IH)
    fix x G' and c :: agent_context
    assume r: "start_task (task_id t) (agent_id (al_agent l)) (sd_graph sd) = (Inr x, G')"
      and c: "ac_task c = t" "ac_agent c = agent_id (al_agent l)" "ac_attempt c = ts_attempt x"
    show "schedule_ok g w (sd\<lparr>sd_graph := G', sd_tasks := sd_tasks sd @ [\<lparr>sc_task = t, sc_lease = l, sc_context = c\<rparr>]\<rparr>)"
      by (rule schedule_step [OF Cons.prems(1) r y c])
  next
    fix x G' and c :: agent_context
    assume ch: "changed (task_id t) (\<lambda>s s'. ts_status s = READY \<and> s' = s\<lparr>ts_status := RUNNING,
       ts_attempt := ts_attempt s + 1, assigned_agent := Some (agent_id (al_agent l)), ts_result := None,
       ts_verification := None, ts_error := []\<rparr>) (sd_graph sd) G'"
    show "names (sd_graph (sd\<lparr>sd_graph := G', sd_tasks := sd_tasks sd @ [\<lparr>sc_task = t, sc_lease = l, sc_context = c\<rparr>]\<rparr>)) ts"
      using names_changed [OF ch names] by simp
  qed
  show ?case
    unfolding schedule_tasks.simps
  proof (rule hoare_if)
    show "hoare (stands g s) (returnE sd) ?Q (fails g)"
      using Cons.prems(1) by (auto intro: hoare_return)
  next
    show "hoare (stands g s) (bindE (liftE (graph_state (task_id t) (sd_graph sd))) (\<lambda>st.
        bindE (acquire_agent env t) (\<lambda>r. case r of
          Inl e \<Rightarrow> schedule_tasks env s ts
            (if is_capacity e then sd\<lparr>sd_capacity := Some e\<rparr> else sd\<lparr>sd_capability := Some e\<rparr>)
        | Inr l \<Rightarrow>
            bindE (graphE (start_task (task_id t) (agent_id (al_agent l)) (sd_graph sd))) (\<lambda>(started, G).
            bindE (task_context s G t (agent_id (al_agent l)) (ts_attempt started) (ts_error st)) (\<lambda>c.
            schedule_tasks env s ts (sd\<lparr>sd_graph := G,
              sd_tasks := sd_tasks sd @ [\<lparr>sc_task = t, sc_lease = l, sc_context = c\<rparr>]\<rparr>)))))) ?Q (fails g)"
    proof (rule lift_bind, rule hoare_bind [OF acquire_rule])
      fix st r
      show "hoare (stands g s) (case r of
          Inl e \<Rightarrow> schedule_tasks env s ts
            (if is_capacity e then sd\<lparr>sd_capacity := Some e\<rparr> else sd\<lparr>sd_capability := Some e\<rparr>)
        | Inr l \<Rightarrow>
            bindE (graphE (start_task (task_id t) (agent_id (al_agent l)) (sd_graph sd))) (\<lambda>(started, G).
            bindE (task_context s G t (agent_id (al_agent l)) (ts_attempt started) (ts_error st)) (\<lambda>c.
            schedule_tasks env s ts (sd\<lparr>sd_graph := G,
              sd_tasks := sd_tasks sd @ [\<lparr>sc_task = t, sc_lease = l, sc_context = c\<rparr>]\<rparr>)))) ?Q (fails g)"
        by (cases r) (simp_all add: skip take)
    qed (rule graph_state_err)
  qed
qed (auto intro: hoare_return)

lemma block_rule:
  "hoare (stands g x) (block_team env s G reason err)
     (\<lambda>s' st. (saved s (Some G) ((saving T_BLOCKED)\<lparr>sv_reason := Some reason, sv_error := err\<rparr>) s') \<and> stands g s' st) (fails g)"
  unfolding block_team_def by (rule save_bind, simp, rule publish_then, rule hoare_return, simp)

section \<open>Running a batch\<close>

lemma invoke_rule:
  assumes "ac_attempt (sc_context sc) \<le> gh_attempts g" and "dispatched (Some s) (sc_context sc)"
  shows "hoare (stands g s) (invoke_task env sc) (\<lambda>oc st. stands g s st \<and> runs_task sc oc)
    (\<lambda>e st. stands g s st \<and> e \<noteq> FuelOut)"
proof -
  let ?E = "\<lambda>e st. stands g s st \<and> e \<noteq> FuelOut"
  have call: "hoare (stands g s) (doE (c_invoke env (sc_lease sc) (sc_context sc))) (\<lambda>_. stands g s) ?E"
    using never_invoke by (intro hoare_doE) (auto simp: never_def, metis fst_conv)
  have err: "result_error sc r = Some e \<Longrightarrow> e \<noteq> FuelOut" for r e
    by (auto simp: result_error_def split: if_splits)
  show ?thesis
    unfolding invoke_task_def Let_def
  proof (rule hoare_try [OF hoare_then [OF note_rule hoare_bind [OF call]]])
    show "action_ok (gh_attempts g) (gh_cycles g) (Some s) (Invoked (sc_context sc))"
      using assms by simp
  next
    fix r
    show "hoare (stands g s) (case result_error sc r of Some e \<Rightarrow> raiseE e
       | None \<Rightarrow> returnE (if \<not> tr_success r
             then \<lparr>oc_task = sc_task sc, oc_context = sc_context sc, oc_result = None, oc_verification = None, oc_error = []\<rparr>
               \<lparr>oc_result := Some r, oc_error := (if tr_error r \<noteq> [] then tr_error r
                    else ''agent reported an unsuccessful task result'')\<rparr>
             else \<lparr>oc_task = sc_task sc, oc_context = sc_context sc, oc_result = None, oc_verification = None, oc_error = []\<rparr>
               \<lparr>oc_result := Some r\<rparr>)) (\<lambda>oc st. stands g s st \<and> runs_task sc oc) ?E"
      by (cases "result_error sc r") (auto intro!: hoare_raise hoare_return simp: runs_task_def dest: err)
  qed (auto intro!: hoare_if hoare_raise hoare_return simp: runs_task_def)
qed

lemma release_rule:
  assumes world: "\<And>st w. I st \<Longrightarrow> I (st\<lparr>team_world := w\<rparr>)" and traced: "\<And>st. I st \<Longrightarrow> traced g st"
    and noted: "\<And>st a. I st \<Longrightarrow> I (st\<lparr>team_trace := team_trace st @ [Released a]\<rparr>)"
  shows "hoare I (release_all env ls) (\<lambda>_. I) (\<lambda>e st. I st \<and> e \<noteq> FuelOut)"
proof (induction ls)
  case (Cons a ls)
  have "hoare I (doE (c_release env a)) (\<lambda>_. I) (\<lambda>e st. I st \<and> e \<noteq> FuelOut)"
    using never_release [of a] world by (intro hoare_doE) (auto simp: never_def, metis fst_conv)
  then have "hoare I (thenE (noteE (Released a)) (doE (c_release env a))) (\<lambda>_. I) (\<lambda>e st. I st \<and> e \<noteq> FuelOut)"
    by (rule hoare_then [rotated]) (rule hoare_noteE, rule noted)
  moreover have "hoare (\<lambda>st. I st \<and> e \<noteq> FuelOut) (release_all env ls) (\<lambda>_ st. I st \<and> e \<noteq> FuelOut)
      (\<lambda>e st. I st \<and> e \<noteq> FuelOut)" for e :: exn
    using Cons by (cases "e = FuelOut") (auto simp: hoare_def)
  ultimately show ?case
    unfolding release_all.simps by (rule hoare_finallyE [OF _ Cons])
qed (auto intro: hoare_return)

lemma close_rule:
  assumes world: "\<And>st w. I st \<Longrightarrow> I (st\<lparr>team_world := w\<rparr>)" and traced: "\<And>st. I st \<Longrightarrow> traced g st"
    and noted: "\<And>st a. I st \<Longrightarrow> I (st\<lparr>team_trace := team_trace st @ [Released a]\<rparr>)"
    and leases: "\<And>st L. I st \<Longrightarrow> I (st\<lparr>leases := L\<rparr>)"
  shows "hoare I (close_leases env) (\<lambda>_. I) (fails g)"
proof -
  have *: "hoare I (release_all env ls) (\<lambda>_. I) (fails g)" for ls
    by (rule hoare_post [OF release_rule [OF world traced noted]]) (auto intro: fails_if traced)
  show ?thesis
    unfolding hoare_def close_leases_def
  proof (intro allI impI)
    fix s
    assume "I s"
    then have "I (s\<lparr>leases := []\<rparr>)"
      by (rule leases)
    then show "case release_all env (leases s) (s\<lparr>leases := []\<rparr>) of (Inl e, s') \<Rightarrow> fails g e s' | (Inr x, s') \<Rightarrow> I s'"
      by (rule * [unfolded hoare_def, rule_format])
  qed
qed

lemma close_stands: "hoare (stands g s) (close_leases env) (\<lambda>_. stands g s) (fails g)"
proof (rule close_rule)
  fix st :: "'w team_state" and a
  assume "stands g s st"
  then show "stands g s (st\<lparr>team_trace := team_trace st @ [Released a]\<rparr>)"
    by (rule stands_note) simp_all
qed (simp_all add: stands_traced)

lemma close_fails: "hoare (fails g e) (close_leases env) (\<lambda>_. fails g e) (fails g)"
proof (rule close_rule)
  fix st :: "'w team_state" and a
  assume "fails g e st"
  then show "fails g e (st\<lparr>team_trace := team_trace st @ [Released a]\<rparr>)"
    by (auto simp: fails_def traced_def trace_ok_append)
qed (simp_all add: fails_def)

end

end
