(* ===== verification/TeamRounds.thy ===== *)
theory TeamRounds
  imports TeamBatches
begin

text \<open>
  A whole batch, and the rounds of \<open>_execute\<close>: a round ends the run, starts a new cycle, or uses up
  something of what is left, so the rounds computed from the graph are enough.
\<close>

section \<open>The states of a batch\<close>

text \<open>\<open>mid\<close>: the snapshot has the graph, with \<open>T\<close> the tasks whose outcome has not been applied.\<close>

definition mid :: "ghost \<Rightarrow> int \<Rightarrow> nat \<Rightarrow> string set \<Rightarrow> team_snapshot \<Rightarrow> task_graph \<Rightarrow> bool" where
  "mid g n w T s G \<longleftrightarrow> fit g n s G \<and> weight (pot (limit g) T) G \<le> w"

definition under_way :: "task_graph \<Rightarrow> task_outcome \<Rightarrow> bool" where
  "under_way G oc \<longleftrightarrow> ac_task (oc_context oc) = oc_task oc \<and> (\<exists>y. task_at G (oc_id oc) = Some y \<and> spec y = oc_task oc)"

definition verifiable :: "task_outcome \<Rightarrow> bool" where
  "verifiable oc \<longleftrightarrow> (case oc_result oc of None \<Rightarrow> False | Some r \<Rightarrow> tr_success r)"

definition in_check :: "task_graph \<Rightarrow> task_outcome \<Rightarrow> bool" where
  "in_check G oc \<longleftrightarrow> (\<exists>y. task_at G (oc_id oc) = Some y \<and> spec y = oc_task oc \<and> ts_status y = CHECKING
     \<and> ts_result y = oc_result oc)"

lemma under_way_changed:
  assumes "changed t P G G'" and "under_way G oc" and "\<And>s s'. P s s' \<Longrightarrow> spec s' = spec s"
  shows "under_way G' oc"
proof -
  obtain y where "task_at G (oc_id oc) = Some y" "spec y = oc_task oc" and c: "ac_task (oc_context oc) = oc_task oc"
    using assms(2) by (auto simp: under_way_def)
  then have "names G [oc_task oc]"
    by (simp add: names_def)
  then have "names G' [oc_task oc]"
    by (rule names_changed [OF assms(1) _ assms(3)])
  then show ?thesis
    using c by (simp add: under_way_def names_def)
qed

definition batch_post ::
  "ghost \<Rightarrow> int \<Rightarrow> nat \<Rightarrow> team_snapshot + (team_snapshot \<times> task_graph \<times> task_outcome list) \<Rightarrow> bool" where
  "batch_post g n w r \<longleftrightarrow> (case r of
     Inl s \<Rightarrow> tn_status s = T_BLOCKED
   | Inr (s, G, ocs) \<Rightarrow> mid g n w (oc_id ` set ocs) s G \<and> (\<forall>oc \<in> set ocs. under_way G oc))"

definition stored_in :: "team_snapshot + (team_snapshot \<times> task_graph \<times> task_outcome list) \<Rightarrow> team_snapshot" where
  "stored_in r = (case r of Inl s \<Rightarrow> s | Inr (s, _, _) \<Rightarrow> s)"

context team_components begin

lemma run_scheduled_rule:
  assumes fit: "fit g n s G" and sd: "schedule_ok g w sd"
  shows "hoare (stands g s) (run_scheduled env s sd)
    (\<lambda>r st. batch_post g n (w - 1) r \<and> stands g (stored_in r) st) (fails g)"
proof -
  let ?Q = "\<lambda>r st. batch_post g n (w - 1) r \<and> stands g (stored_in r) st"
  obtain ts where inv: "inv_at ts (sd_graph sd) {}"
    using sd by (auto simp: schedule_ok_def)
  have block: "hoare (stands g s) (bindE (block_team env s (sd_graph sd) reason err) (\<lambda>s'. returnE (Inl s'))) ?Q (fails g)"
    for reason err
    by (rule hoare_bind_pure [OF block_rule]) (auto intro: hoare_return simp: batch_post_def stored_in_def saved_def)
  show ?thesis
  proof (cases "sd_tasks sd = []")
    case True
    have "hoare (stands g s) (raiseE (TeamExecution ''scheduler did not assign any ready task'')) ?Q (fails g)"
      by (rule hoare_raise) (auto intro: fails_if dest: stands_traced)
    then show ?thesis
      using block True by (auto simp: run_scheduled_def split: option.split)
  next
    case False
    have "hoare (stands g s) (bindE (save_team env s (Some (sd_graph sd)) (saving T_RUNNING)) (\<lambda>s'.
        thenE (eachE (\<lambda>sc.
            thenE (publish_team env TE_TASK_ASSIGNED s' [] (task_entries (sc_context sc)))
                  (publish_team env TE_TASK_STARTED s' [] (task_entries (sc_context sc)))) (sd_tasks sd))
       (bindE (gatherE (invoke_task env) (sd_tasks sd)) (\<lambda>ocs. returnE (Inr (s', sd_graph sd, ocs)))))) ?Q (fails g)"
    proof (rule save_bind, simp, rule hoare_then)
      fix s'
      assume sv: "saved s (Some (sd_graph sd)) (saving T_RUNNING) s'"
      show "hoare (stands g s') (eachE (\<lambda>sc.
            thenE (publish_team env TE_TASK_ASSIGNED s' [] (task_entries (sc_context sc)))
                  (publish_team env TE_TASK_STARTED s' [] (task_entries (sc_context sc)))) (sd_tasks sd))
         (\<lambda>_. stands g s') (fails g)"
        by (rule hoare_eachE) (rule publish_then, rule publish_rule)
      have tasks: "tn_tasks s' = graph_states (sd_graph sd)"
        using sv by (simp add: saved_def)
      have fit': "fit g n s' (sd_graph sd)"
        using fit sv sd by (auto simp: fit_def saved_def schedule_ok_def)
      have invoke: "hoare (stands g s') (invoke_task env sc) (\<lambda>oc st. stands g s' st \<and> runs_task sc oc)
          (\<lambda>e st. stands g s' st \<and> e \<noteq> FuelOut)" if "sc \<in> set (sd_tasks sd)" for sc
      proof (rule invoke_rule)
        have a: "assigned_in (sd_graph sd) sc"
          using sd that by (simp add: schedule_ok_def)
        show "dispatched (Some s') (sc_context sc)"
          by (rule assigned_dispatched [OF inv a tasks])
        obtain y where "task_at (sd_graph sd) (sc_id sc) = Some y" "ts_attempt y = ac_attempt (sc_context sc)"
          using a by (auto simp: assigned_in_def)
        moreover have "attempts_within (gh_attempts g) (sd_graph sd)"
          using sd by (simp add: schedule_ok_def)
        ultimately show "ac_attempt (sc_context sc) \<le> gh_attempts g"
          unfolding attempts_within_def attempt_ok_def by metis
      qed
      have "hoare (stands g s') (gatherE (invoke_task env) (sd_tasks sd))
          (\<lambda>ocs st. list_all2 runs_task (sd_tasks sd) ocs \<and> stands g s' st) (fails g)"
        by (rule hoare_post [OF hoare_gatherE [OF invoke]]) (auto intro: fails_if dest: stands_traced)
      then show "hoare (stands g s') (bindE (gatherE (invoke_task env) (sd_tasks sd)) (\<lambda>ocs. returnE (Inr (s', sd_graph sd, ocs))))
          ?Q (fails g)"
      proof (rule hoare_bind_pure, rule_tac hoare_return)
        fix ocs st
        assume ocs: "list_all2 runs_task (sd_tasks sd) ocs" and st: "stands g s' st"
        then have ids: "oc_id ` set ocs = sc_id ` set (sd_tasks sd)"
          by (induction rule: list_all2_induct) (auto simp: runs_task_def)
        have "\<exists>sc \<in> set (sd_tasks sd). runs_task sc oc" if "oc \<in> set ocs" for oc
          using ocs that by (metis in_set_conv_nth list_all2_conv_all_nth)
        then have "under_way (sd_graph sd) oc" if "oc \<in> set ocs" for oc
          using sd that by (fastforce simp: schedule_ok_def assigned_in_def under_way_def runs_task_def)
        moreover have "weight (pot (limit g) (oc_id ` set ocs)) (sd_graph sd) \<le> w - 1"
        proof -
          have "1 \<le> length (sd_tasks sd)"
            using False by (cases "sd_tasks sd") auto
          then show ?thesis
            using sd unfolding ids schedule_ok_def by linarith
        qed
        ultimately show "?Q (Inr (s', sd_graph sd, ocs)) st"
          using st fit' by (simp add: batch_post_def stored_in_def mid_def)
      qed
    qed
    then show ?thesis
      by (simp add: run_scheduled_def False)
  qed
qed

lemma begin_all_rule:
  assumes "\<exists>ts. inv_at ts G {}" and "attempts_within (gh_attempts g) G" and "\<forall>oc \<in> set (ocs @ all). under_way G oc"
    and "oc_id ` set ocs \<subseteq> T" and "\<forall>oc \<in> set done_ocs. in_check G oc" and "weight (pot (limit g) T) G \<le> w"
  shows "hoare (stands g s) (begin_all ocs G :: ('w, task_graph) team) (\<lambda>G' st. ((\<exists>ts. inv_at ts G' {}) \<and> attempts_within (gh_attempts g) G'
      \<and> (\<forall>oc \<in> set all. under_way G' oc) \<and> (\<forall>oc \<in> set (done_ocs @ ocs). in_check G' oc) \<and> weight (pot (limit g) T) G' \<le> w)
    \<and> stands g s st) (fails g)"
  using assms
proof (induction ocs arbitrary: G done_ocs)
  case Nil
  then show ?case
    by (auto intro: hoare_return)
next
  case (Cons oc ocs)
  obtain ts where inv: "inv_at ts G {}"
    using Cons.prems(1) by auto
  show ?case
    unfolding begin_all.simps
  proof (rule op_bind [OF begin_verification_effect [OF inv]], unfold prod.case)
    fix x G'
    assume r: "begin_verification (oc_id oc) (oc_result oc) G = (Inr x, G')" and inv': "inv_at ts G' {}"
      and ch: "changed (oc_id oc) (\<lambda>s s'. ts_status s = RUNNING
         \<and> s' = s\<lparr>ts_status := CHECKING, ts_result := oc_result oc, ts_verification := None\<rparr>) G G'"
    have same: "task_at G' k = task_at G k" if "k \<noteq> oc_id oc" for k
      using r that unfolding begin_verification_def by (rule change_same)
    have "hoare (stands g s) (begin_all ocs G' :: ('w, task_graph) team) (\<lambda>G' st. ((\<exists>ts. inv_at ts G' {}) \<and> attempts_within (gh_attempts g) G'
        \<and> (\<forall>oc \<in> set all. under_way G' oc) \<and> (\<forall>u \<in> set ((oc # done_ocs) @ ocs). in_check G' u)
        \<and> weight (pot (limit g) T) G' \<le> w) \<and> stands g s st) (fails g)"
    proof (rule Cons.IH)
      show "attempts_within (gh_attempts g) G'"
        by (rule attempts_changed [OF ch Cons.prems(2)]) (auto simp: attempt_ok_def)
      show "\<forall>oc \<in> set (ocs @ all). under_way G' oc"
        using Cons.prems(3) by (auto intro: under_way_changed [OF ch])
      have "under_way G oc"
        using Cons.prems(3) by simp
      then have "in_check G' oc"
        using ch by (auto simp: in_check_def changed_def under_way_def)
      moreover have "in_check G' u" if u: "u \<in> set done_ocs" for u
      proof -
        have c: "in_check G u"
          using Cons.prems(5) u by blast
        then have "oc_id u \<noteq> oc_id oc"
          using ch by (auto simp: in_check_def changed_def)
        then show ?thesis
          using c same by (simp add: in_check_def)
      qed
      ultimately show "\<forall>u \<in> set (oc # done_ocs). in_check G' u"
        by simp
      show "oc_id ` set ocs \<subseteq> T"
        using Cons.prems(4) by simp
      have "oc_id oc \<in> T"
        using Cons.prems(4) by simp
      then show "weight (pot (limit g) T) G' \<le> w"
        by (intro order_trans [OF weight_same [OF ch] Cons.prems(6)]) (auto simp: pot_def)
    qed (use inv' in blast)
    then show "hoare (stands g s) (begin_all ocs G' :: ('w, task_graph) team) (\<lambda>G' st. ((\<exists>ts. inv_at ts G' {}) \<and> attempts_within (gh_attempts g) G'
        \<and> (\<forall>oc \<in> set all. under_way G' oc) \<and> (\<forall>u \<in> set (done_ocs @ oc # ocs). in_check G' u)
        \<and> weight (pot (limit g) T) G' \<le> w) \<and> stands g s st) (fails g)"
      by simp
  qed
qed

lemma begin_verifying_rule:
  assumes m: "mid g n w T s G" and ocs: "\<forall>oc \<in> set ocs. under_way G oc" and T: "oc_id ` set ocs \<subseteq> T"
  shows "hoare (stands g s) (begin_verifying env s G ocs) (\<lambda>x st. (mid g n w T (fst x) (snd x)
      \<and> (\<forall>oc \<in> set ocs. under_way (snd x) oc \<and> (verifiable oc \<longrightarrow> in_check (snd x) oc))) \<and> stands g (fst x) st) (fails g)"
proof -
  let ?Q = "\<lambda>x st. (mid g n w T (fst x) (snd x)
      \<and> (\<forall>oc \<in> set ocs. under_way (snd x) oc \<and> (verifiable oc \<longrightarrow> in_check (snd x) oc))) \<and> stands g (fst x) st"
  let ?v = "filter verifiable ocs"
  have v: "filter (\<lambda>oc. case oc_result oc of None \<Rightarrow> False | Some r \<Rightarrow> tr_success r) ocs = ?v"
    by (intro filter_cong) (simp_all add: verifiable_def)
  show ?thesis
  proof (cases "?v = []")
    case True
    then have "\<forall>oc \<in> set ocs. \<not> verifiable oc"
      by (simp add: filter_empty_conv)
    then show ?thesis
      using m ocs True unfolding begin_verifying_def v Let_def by (auto intro: hoare_return)
  next
    case False
    have inv: "\<exists>ts. inv_at ts G {}" and att: "attempts_within (gh_attempts g) G" and wt: "weight (pot (limit g) T) G \<le> w"
      using m by (auto simp: mid_def fit_def)
    have sub: "\<forall>oc \<in> set (?v @ ocs). under_way G oc" "oc_id ` set ?v \<subseteq> T" "\<forall>oc \<in> set []. in_check G oc"
      using ocs T by auto
    have "hoare (stands g s) (bindE (begin_all ?v G) (\<lambda>G'.
        bindE (save_team env s (Some G') (saving T_RUNNING)) (\<lambda>s'.
        thenE (eachE (\<lambda>oc. publish_team env TE_TASK_VERIFYING s' [] (task_entries (oc_context oc))) ?v)
              (returnE (s', G'))))) ?Q (fails g)"
    proof (rule hoare_bind_pure [OF begin_all_rule [OF inv att sub wt]], rule save_bind, simp,
        rule hoare_then [OF hoare_eachE [OF publish_rule]], rule hoare_return)
      fix G' s' st
      assume G': "(\<exists>ts. inv_at ts G' {}) \<and> attempts_within (gh_attempts g) G' \<and> (\<forall>oc \<in> set ocs. under_way G' oc)
          \<and> (\<forall>oc \<in> set ([] @ ?v). in_check G' oc) \<and> weight (pot (limit g) T) G' \<le> w"
        and sv: "saved s (Some G') (saving T_RUNNING) s'" and st: "stands g s' st"
      have "mid g n w T s' G'"
        using m G' sv by (auto simp: mid_def fit_def saved_def)
      then show "?Q (s', G') st"
        using G' st by simp
    qed
    then show ?thesis
      using False unfolding begin_verifying_def v Let_def by simp
  qed
qed

lemma apply_all_rule:
  assumes m: "mid g n w (oc_id ` set ocs) s G" and l: "limit g \<le> gh_attempts g"
  shows "hoare (stands g s) (foldE (apply_outcome env) ocs (s, G))
    (\<lambda>x st. mid g n w {} (fst x) (snd x) \<and> stands g (fst x) st) (fails g)"
proof -
  let ?I = "\<lambda>rest x st. mid g n w (oc_id ` set rest) (fst x) (snd x) \<and> stands g (fst x) st"
  have step: "hoare (?I (oc # rest) x) (apply_outcome env oc x) (?I rest) (fails g)" for oc rest x
  proof -
    obtain s1 G1 where x: "x = (s1, G1)"
      by fastforce
    let ?T = "oc_id ` set (oc # rest)"
    show ?thesis
    proof (cases "mid g n w ?T s1 G1")
      case False
      then show ?thesis
        by (simp add: hoare_def x)
    next
      case True
      have "hoare (stands g s1) (apply_outcome env oc (s1, G1))
          (\<lambda>x st. done_with g n ?T (oc_id oc) G1 x \<and> stands g (fst x) st) (fails g)"
        using True l by (intro apply_rule) (auto simp: mid_def)
      moreover have "mid g n w (oc_id ` set rest) (fst z) (snd z)" if "done_with g n ?T (oc_id oc) G1 z" for z
      proof -
        have "weight (pot (limit g) (oc_id ` set rest)) (snd z) \<le> weight (pot (limit g) (?T - {oc_id oc})) (snd z)"
          by (rule weight_anti) auto
        then show ?thesis
          using that True by (auto simp: done_with_def progress_def mid_def)
      qed
      ultimately show ?thesis
        by (auto simp: x intro: hoare_conseq)
    qed
  qed
  have "hoare (?I ocs (s, G)) (foldE (apply_outcome env) ocs (s, G)) (?I []) (fails g)"
    by (rule hoare_foldE) (rule step)
  then show ?thesis
    by (rule hoare_conseq) (use m in auto)
qed

lemma batch_rule:
  assumes fit: "fit g n s G" and appr: "ready_approved {} G" and l: "limit g \<le> gh_attempts g"
    and w: "weight (pot (limit g) {}) G \<le> w"
  shows "hoare (stands g s) (execute_batch env s G (ready_tasks G))
    (\<lambda>x st. (tn_status (fst x) = T_BLOCKED \<or> mid g n (w - 1) {} (fst x) (snd x)) \<and> stands g (fst x) st) (fails g)"
proof -
  let ?Q = "\<lambda>x st. (tn_status (fst x) = T_BLOCKED \<or> mid g n (w - 1) {} (fst x) (snd x)) \<and> stands g (fst x) st"
  let ?sd = "\<lparr>sd_tasks = [], sd_graph = G, sd_capacity = None, sd_capability = None\<rparr>"
  obtain ts where inv: "inv_at ts G {}"
    using fit by (auto simp: fit_def)
  have sd: "schedule_ok g w ?sd"
    using fit appr w by (auto simp: schedule_ok_def fit_def)
  have names: "names (sd_graph ?sd) (ready_tasks G)"
    using ready_names [OF inv] by simp
  have "hoare (stands g s) (bindE (schedule_tasks env s (ready_tasks G) ?sd) (run_scheduled env s))
      (\<lambda>r st. batch_post g n (w - 1) r \<and> stands g (stored_in r) st) (fails g)"
    by (rule hoare_bind_pure [OF schedule_rule [OF sd names] run_scheduled_rule [OF fit]])
  then have closed: "hoare (stands g s) (finallyE (bindE (schedule_tasks env s (ready_tasks G) ?sd) (run_scheduled env s))
        (close_leases env)) (\<lambda>r st. batch_post g n (w - 1) r \<and> stands g (stored_in r) st) (fails g)"
  proof (rule hoare_finallyE)
    show "hoare (\<lambda>st. batch_post g n (w - 1) r \<and> stands g (stored_in r) st) (close_leases env)
        (\<lambda>_ st. batch_post g n (w - 1) r \<and> stands g (stored_in r) st) (fails g)" for r
      using close_stands [of g "stored_in r"] by (cases "batch_post g n (w - 1) r") (auto simp: hoare_def)
  qed (rule close_fails)
  show ?thesis
    unfolding execute_batch_def
  proof (rule hoare_bind_pure [OF closed])
    fix r
    assume post: "batch_post g n (w - 1) r"
    show "hoare (stands g (stored_in r)) (case r of Inl s' \<Rightarrow> returnE (s', G)
      | Inr (s1, G1, ocs) \<Rightarrow> bindE (begin_verifying env s1 G1 ocs) (\<lambda>(s2, G2).
         bindE (gatherE (verify_outcome env) ocs) (\<lambda>ocs'. foldE (apply_outcome env) ocs' (s2, G2)))) ?Q (fails g)"
    proof (cases r)
      case (Inl s')
      then show ?thesis
        using post by (auto intro: hoare_return simp: batch_post_def stored_in_def)
    next
      case (Inr p)
      obtain s1 G1 ocs where p: "p = (s1, G1, ocs)"
        by (cases p)
      have m: "mid g n (w - 1) (oc_id ` set ocs) s1 G1" and way: "\<forall>oc \<in> set ocs. under_way G1 oc"
        using post by (simp_all add: Inr p batch_post_def)
      have "hoare (stands g s1) (bindE (begin_verifying env s1 G1 ocs) (\<lambda>(s2, G2).
         bindE (gatherE (verify_outcome env) ocs) (\<lambda>ocs'. foldE (apply_outcome env) ocs' (s2, G2)))) ?Q (fails g)"
      proof (rule hoare_bind_pure [OF begin_verifying_rule [OF m way order_refl]])
        fix x
        assume x: "mid g n (w - 1) (oc_id ` set ocs) (fst x) (snd x)
          \<and> (\<forall>oc \<in> set ocs. under_way (snd x) oc \<and> (verifiable oc \<longrightarrow> in_check (snd x) oc))"
        obtain s2 G2 where x2: "x = (s2, G2)"
          by fastforce
        have fit2: "fit g n s2 G2"
          using x by (simp add: mid_def x2)
        have verify: "hoare (stands g s2) (verify_outcome env oc) (\<lambda>oc' st. stands g s2 st \<and> same_outcome oc oc')
            (\<lambda>e st. stands g s2 st \<and> e \<noteq> FuelOut)" if oc: "oc \<in> set ocs" for oc
        proof (rule verify_rule)
          fix r
          assume "oc_result oc = Some r" and "tr_success r"
          then obtain y where "task_at G2 (oc_id oc) = Some y" "spec y = oc_task oc" "ts_status y = CHECKING"
              "ts_result y = Some r" "ac_task (oc_context oc) = oc_task oc"
            using x oc by (auto simp: x2 verifiable_def in_check_def under_way_def)
          then show "action_ok (gh_attempts g) (gh_cycles g) (Some s2) (Checked (oc_context oc) r)"
            by (auto intro: fit_holds_task [OF fit2])
        qed
        have "hoare (stands g s2) (gatherE (verify_outcome env) ocs)
            (\<lambda>ocs' st. list_all2 same_outcome ocs ocs' \<and> stands g s2 st) (fails g)"
          by (rule hoare_post [OF hoare_gatherE [OF verify]]) (auto intro: fails_if dest: stands_traced)
        then have "hoare (stands g s2) (bindE (gatherE (verify_outcome env) ocs) (\<lambda>ocs'. foldE (apply_outcome env) ocs' (s2, G2)))
            ?Q (fails g)"
        proof (rule hoare_bind_pure)
          fix ocs'
          assume "list_all2 same_outcome ocs ocs'"
          then have "oc_id ` set ocs' = oc_id ` set ocs"
            by (induction rule: list_all2_induct) (auto simp: same_outcome_def)
          then have "mid g n (w - 1) (oc_id ` set ocs') s2 G2"
            using x by (simp add: x2)
          from apply_all_rule [OF this l] show "hoare (stands g s2) (foldE (apply_outcome env) ocs' (s2, G2)) ?Q (fails g)"
            by (rule hoare_post) auto
        qed
        then show "hoare (stands g (fst x)) (case x of (s2, G2) \<Rightarrow>
           bindE (gatherE (verify_outcome env) ocs) (\<lambda>ocs'. foldE (apply_outcome env) ocs' (s2, G2))) ?Q (fails g)"
          by (simp add: x2)
      qed
      then show ?thesis
        by (simp add: Inr p stored_in_def)
    qed
  qed
qed

end

end
