(* ===== verification/TeamRuns.thy ===== *)
theory TeamRuns
  imports TeamRounds
begin

text \<open>
  The rounds, the cycles and the calls \<open>run\<close> and \<open>resume\<close>: what they return has ended, their trace is
  good, and no bound of a loop is exhausted.
\<close>

abbreviation over :: "ghost \<Rightarrow> team_result \<Rightarrow> 'w team_state \<Rightarrow> bool" where
  "over g r st \<equiv> ended r \<and> traced g st"

definition at_cycle :: "ghost \<Rightarrow> int \<Rightarrow> team_snapshot \<Rightarrow> bool" where
  "at_cycle g n s \<longleftrightarrow> tn_request s = gh_request g \<and> tn_cycle s = n"

definition again_ok :: "ghost \<Rightarrow> int \<Rightarrow> (team_snapshot \<Rightarrow> ('w, team_result) team) \<Rightarrow> bool" where
  "again_ok g n f \<longleftrightarrow> (\<forall>s. at_cycle g n s \<longrightarrow> hoare (stands g s) (f s) (over g) (fails g))"

lemma fit_cycle: "fit g n s G \<Longrightarrow> at_cycle g n s"
  by (simp add: fit_def at_cycle_def)

lemma ended_result: "ended (team_result_of s) \<longleftrightarrow>
    tn_status s \<in> {T_COMPLETED, T_FAILED, T_CANCELLED, T_TIMED_OUT, T_BLOCKED, T_PAUSED}"
  by (simp add: ended_def team_result_of_def)

lemma all_done:
  assumes fit: "fit g n s G" and all: "all_succeeded G" and s': "tn_tasks s' = graph_states G"
  shows "all_tasks (Some s') succeeded"
proof -
  obtain ts where inv: "inv_at ts G {}"
    using fit by (auto simp: fit_def)
  have "succeeded y" if y: "y \<in> set (graph_states G)" for y
  proof -
    obtain k where "task_at G k = Some y"
      using y in_graph_states [of y G] by blast
    then have "ts_status y = SUCCEEDED" and "evidenced y"
      using all all_succeeded_iff [OF inv_dict [OF inv]] inv_task [OF inv] by blast+
    then show ?thesis
      by (auto simp: evidenced_def succeeded_def)
  qed
  then show ?thesis
    using inv_nonempty [OF inv] s' by (simp add: all_tasks_def list_all_iff)
qed

lemma new_TeamCycleRecord_Inr: "new_TeamCycleRecord c = Inr c' \<Longrightarrow> c' = c"
  by (auto simp: new_TeamCycleRecord_def)

lemma new_TeamCycleRecord_err: "new_TeamCycleRecord c = Inl e \<Longrightarrow> e \<noteq> FuelOut"
  unfolding new_TeamCycleRecord_def by (elim require_err) simp_all

context team_components begin

lemma cancelled_bind:
  assumes "\<And>b. hoare (stands g s) (f b) Q (fails g)"
  shows "hoare (stands g s) (bindE (is_cancelled_run env rid) f) Q (fails g)"
proof (rule hoare_bind)
  show "hoare (stands g s) (is_cancelled_run env rid) (\<lambda>_. stands g s) (fails g)"
    unfolding is_cancelled_run_def
    by (rule read_bind, rule hoare_then [where R = "stands g s"], rule hoare_modify) (auto simp: hoare_def)
qed (rule assms)

lemma over_return: "ended r \<Longrightarrow> hoare (stands g s) (returnE r) (over g) E"
  by (rule hoare_return) (auto dest: stands_traced)

lemma cancel_rule: "hoare (stands g x) (cancel_snapshot env s G) (over g) (fails g)"
  unfolding cancel_snapshot_def
  by (rule save_bind, simp, rule publish_then, rule over_return) (simp add: ended_result saved_def)

lemma fail_rule:
  "sv_status a = T_FAILED \<Longrightarrow> hoare (stands g x) (fail_team env s G a d) (over g) (fails g)"
  unfolding fail_team_def
  by (rule save_bind, simp, rule publish_then, rule over_return) (simp add: ended_result saved_def)

lemma archive_bind:
  assumes "\<And>r. cr_tasks r = graph_states G \<Longrightarrow> cr_output r = out \<Longrightarrow> cr_review r = v
     \<Longrightarrow> hoare (stands g x) (f (tn_history s @ [r])) Q (fails g)"
  shows "hoare (stands g x) (bindE (archive s G out v e) f) Q (fails g)"
  unfolding archive_def bindE_assoc
proof (rule lift_bind)
  fix r
  assume "new_TeamCycleRecord \<lparr>cr_cycle = tn_cycle s, cr_revision = tn_plan_revision s,
       cr_tasks = graph_states G, cr_output = out, cr_review = v, cr_error = e\<rparr> = Inr r"
  then show "hoare (stands g x) (bindE (returnE (tn_history s @ [r])) f) Q (fails g)"
    by (auto dest!: new_TeamCycleRecord_Inr intro: assms)
qed (rule new_TeamCycleRecord_err)

section \<open>The end of a cycle\<close>

lemma replan_rule:
  assumes "at_cycle g n s" and "again_ok g n again"
  shows "hoare (stands g s) (replan env again s G out v e) (over g) (fails g)"
  unfolding replan_def
proof (rule archive_bind, rule hoare_if, rule fail_rule, simp, rule hoare_if, rule fail_rule, simp, rule save_bind, simp,
    rule publish_then, rule publish_then)
  fix r s'
  assume "saved s (Some G) ((saving T_PLANNING)\<lparr>sv_tasks := Some [], sv_history := Some (tn_history s @ [r]),
         sv_revision := Some (tn_plan_revision s + 1), sv_approved := Some None\<rparr>) s'"
  then have "at_cycle g n s'"
    using assms(1) by (simp add: at_cycle_def saved_def)
  then show "hoare (stands g s') (again s') (over g) (fails g)"
    using assms(2) by (simp add: again_ok_def)
qed

lemma review_rule:
  assumes "all_tasks (Some s) succeeded"
  shows "hoare (stands g s) (review_team env s G out b) (\<lambda>_. stands g s) (fails g)"
proof -
  have review: "hoare (stands g s) (liftE (new_TeamReview v)) (\<lambda>_. stands g s) (fails g)" for v
    by (rule hoare_liftE) (auto intro!: fails_if dest: stands_traced simp: new_TeamReview_def require_def split: if_splits)
  show ?thesis
    unfolding review_team_def
  proof (rule lift_bind, rule publish_then, rule hoare_bind)
    fix c
    show "hoare (stands g s) (case c_review env of
        Some f \<Rightarrow> if b then liftE (new_TeamReview \<lparr>rv_action = RV_ACCEPT,
              rv_feedback = ''human approved the team draft'', rv_score = Some (Fin 100), rv_evidence = [],
              rv_failed = [], rv_interaction = None\<rparr>)
          else thenE (noteE (Reviewed c)) (doE (f c))
      | None \<Rightarrow> liftE (new_TeamReview \<lparr>rv_action = RV_ACCEPT,
              rv_feedback = (if b then ''human approved the team draft'' else []),
              rv_score = Some (Fin 100), rv_evidence = [], rv_failed = [], rv_interaction = None\<rparr>))
      (\<lambda>_. stands g s) (fails g)"
    proof (cases "c_review env")
      case (Some f)
      have "hoare (stands g s) (thenE (noteE (Reviewed c)) (doE (f c))) (\<lambda>_. stands g s) (fails g)"
        by (rule hoare_then [OF note_rule call_rule [OF never_review [OF Some]]]) (auto simp: assms dest: stands_traced)
      then show ?thesis
        unfolding Some option.case by (intro hoare_if review)
    qed (simp add: review)
  next
    fix v
    show "hoare (stands g s) (thenE (publish_team env TE_REVIEW_COMPLETED s []
       [text_entry ''action'' (case rv_action v of RV_ACCEPT \<Rightarrow> ''accept'' | RV_REPLAN \<Rightarrow> ''replan''
          | RV_REQUEST_HUMAN \<Rightarrow> ''request_human'' | RV_STOP \<Rightarrow> ''stop''),
        (PStr ''score'', case rv_score v of None \<Rightarrow> PNone | Some x \<Rightarrow> PFloat x),
        (PStr ''failed_criteria'', PList (map PStr (rv_failed v)))]) (returnE v)) (\<lambda>_. stands g s) (fails g)"
      by (rule publish_then) (auto intro: hoare_return)
  qed (auto simp: new_TeamReviewContext_def require_def split: if_splits)
qed

lemma finish_rule:
  assumes fit: "fit g n s G" and all: "all_succeeded G" and again: "again_ok g n again"
  shows "hoare (stands g s) (finish_review env again s G out v) (over g) (fails g)"
proof (cases "rv_action v")
  case RV_ACCEPT
  have "hoare (stands g s) (bindE (archive s G out (Some v) []) (\<lambda>history.
         bindE (save_team env s (Some G) ((saving T_COMPLETED)\<lparr>sv_reason := Some TS_COMPLETED, sv_output := out,
           sv_history := Some history, sv_interaction := Some None, sv_review := Some None\<rparr>)) (\<lambda>s'.
         thenE (publish_team env TE_COMPLETED s' [] []) (returnE (team_result_of s'))))) (over g) (fails g)"
  proof (rule archive_bind, rule hoare_bind_pure [OF save_rule], unfold completed_ok_def, intro impI)
    fix r s'
    assume r: "cr_tasks r = graph_states G" "cr_output r = out" "cr_review r = Some v"
      and sv: "saved s (Some G) ((saving T_COMPLETED)\<lparr>sv_reason := Some TS_COMPLETED, sv_output := out,
           sv_history := Some (tn_history s @ [r]), sv_interaction := Some None, sv_review := Some None\<rparr>) s'"
    have "tn_tasks s' = graph_states G"
      using sv by (simp add: saved_def)
    then show "all_tasks (Some s') succeeded \<and> tn_history s' \<noteq> [] \<and> (let h = last (tn_history s')
       in cr_tasks h = tn_tasks s' \<and> cr_output h = tn_output s'
          \<and> (case cr_review h of None \<Rightarrow> False | Some v \<Rightarrow> rv_action v = RV_ACCEPT))"
      using all_done [OF fit all] sv r RV_ACCEPT by (simp add: saved_def)
    show "hoare (stands g s') (thenE (publish_team env TE_COMPLETED s' [] []) (returnE (team_result_of s'))) (over g) (fails g)"
      using sv by (intro publish_then over_return) (simp add: ended_result saved_def)
  qed
  then show ?thesis
    by (simp add: finish_review_def RV_ACCEPT)
next
  case RV_REPLAN
  then show ?thesis
    using replan_rule [OF fit_cycle [OF fit] again] by (simp add: finish_review_def)
next
  case RV_REQUEST_HUMAN
  have "hoare (stands g s) (case rv_interaction v of
         None \<Rightarrow> raiseE (TeamExecution ''team reviewer omitted the human interaction'')
       | Some i \<Rightarrow>
           bindE (save_team env s (Some G) ((saving T_PAUSED)\<lparr>sv_reason := Some TS_APPROVAL_DEFERRED, sv_output := out,
             sv_error := rv_feedback v, sv_interaction := Some (Some i), sv_review := Some (Some v)\<rparr>)) (\<lambda>s'.
           thenE (publish_team env TE_HUMAN_INTERACTION_REQUESTED s' []
             [text_entry ''interaction_id'' (hi_interaction_id i)])
          (thenE (publish_team env TE_PAUSED s' [] []) (returnE (team_result_of s'))))) (over g) (fails g)"
  proof (cases "rv_interaction v")
    case None
    then show ?thesis
      by (auto intro!: hoare_raise fails_if dest: stands_traced)
  next
    case (Some i)
    then show ?thesis
      by (simp, intro save_bind publish_then over_return) (simp_all add: ended_result saved_def)
  qed
  then show ?thesis
    by (simp add: finish_review_def RV_REQUEST_HUMAN)
next
  case RV_STOP
  show ?thesis
    unfolding finish_review_def RV_STOP review_action.case by (rule archive_bind, rule fail_rule, simp)
qed

lemma complete_team_rule:
  assumes fit: "fit g n s G" and all: "all_succeeded G" and again: "again_ok g n again"
  shows "hoare (stands g s) (complete_team env again s G) (over g) (fails g)"
proof -
  have "tn_tasks s = graph_states G"
    using fit by (simp add: fit_def)
  note fin = all_done [OF fit all this]
  have draft: "hoare (stands g s) (if b then returnE x
      else thenE (noteE Aggregated) (doE (c_aggregate env q rs))) (\<lambda>_. stands g s) (fails g)" for b x q rs
    by (rule hoare_if, rule hoare_return, simp, rule hoare_then [OF note_rule call_rule [OF never_aggregate]])
      (auto simp: fin dest: stands_traced)
  show ?thesis
    unfolding complete_team_def Let_def
    by (intro cancelled_bind hoare_if cancel_rule hoare_bind [OF draft] hoare_bind [OF review_rule [OF fin]]
        finish_rule [OF fit all again])
qed

section \<open>Rounds\<close>

lemma rounds_rule:
  assumes "fit g n s G" and "weight (pot (limit g) {}) G < k" and "again_ok g n again" and l: "limit g \<le> gh_attempts g"
  shows "hoare (stands g s) (execute_rounds env again k s G) (over g) (fails g)"
  using assms(1-3)
proof (induction k arbitrary: s G)
  case (Suc k)
  obtain ts where inv: "inv_at ts G {}"
    using Suc.prems(1) by (auto simp: fit_def)
  have resume: "hoare (stands g s) (bindE (resume_verifying env s G) (\<lambda>(s', G'). execute_rounds env again k s' G'))
      (over g) (fails g)" if "list_ex (\<lambda>y. ts_status y = CHECKING) (graph_states G)"
  proof (rule hoare_bind_pure [OF resume_verifying_rule [OF Suc.prems(1) that l]])
    fix x
    assume "fit g n (fst x) (snd x) \<and> weight (pot (limit g) {}) (snd x) + 1 \<le> weight (pot (limit g) {}) G"
    then show "hoare (stands g (fst x)) (case x of (s', G') \<Rightarrow> execute_rounds env again k s' G') (over g) (fails g)"
      using Suc.IH [of "fst x" "snd x"] Suc.prems(2,3) by (cases x) auto
  qed
  have fail: "hoare (stands g s) (fail_tasks env again s G) (over g) (fails g)"
    unfolding fail_tasks_def Let_def by (rule replan_rule [OF fit_cycle [OF Suc.prems(1)] Suc.prems(3)])
  have round: "hoare (stands g s) (bindE (approve_ready env (ready_tasks G) s G) (\<lambda>(s1, G1, go).
       if \<not> go then returnE (team_result_of s1)
       else if ready_tasks G1 = []
       then bindE (block_team env s1 G1 TS_DEADLOCK ''task graph has no ready task and is not terminal'')
         (\<lambda>s'. returnE (team_result_of s'))
       else
         bindE (execute_batch env s1 G1 (ready_tasks G1)) (\<lambda>(s2, G2).
         if tn_status s2 \<in> {T_BLOCKED, T_FAILED} then returnE (team_result_of s2)
         else execute_rounds env again k s2 G2))) (over g) (fails g)"
  proof (rule hoare_bind_pure [OF approve_rule [OF Suc.prems(1) ready_names [OF inv] order_refl]])
    fix x
    assume x: "approval_post g n (weight (pot (limit g) {}) G) x"
    obtain s1 G1 go where x1: "x = (s1, G1, go)"
      by (cases x)
    have "hoare (stands g s1) (if \<not> go then returnE (team_result_of s1)
       else if ready_tasks G1 = []
       then bindE (block_team env s1 G1 TS_DEADLOCK ''task graph has no ready task and is not terminal'')
         (\<lambda>s'. returnE (team_result_of s'))
       else
         bindE (execute_batch env s1 G1 (ready_tasks G1)) (\<lambda>(s2, G2).
         if tn_status s2 \<in> {T_BLOCKED, T_FAILED} then returnE (team_result_of s2)
         else execute_rounds env again k s2 G2)) (over g) (fails g)"
    proof (rule hoare_if, rule over_return, use x in \<open>simp add: x1 approval_post_def\<close>, rule hoare_if)
      show "hoare (stands g s1) (bindE (block_team env s1 G1 TS_DEADLOCK ''task graph has no ready task and is not terminal'')
         (\<lambda>s'. returnE (team_result_of s'))) (over g) (fails g)"
        by (rule hoare_bind_pure [OF block_rule], rule over_return) (simp add: ended_result saved_def)
    next
      assume "\<not> \<not> go"
      then have fit1: "fit g n s1 G1" and w1: "weight (pot (limit g) {}) G1 \<le> weight (pot (limit g) {}) G"
        and appr: "ready_approved {} G1"
        using x by (simp_all add: x1 approval_post_def)
      have "0 < weight (pot (limit g) {}) G1" if ready: "ready_tasks G1 \<noteq> []"
      proof -
        obtain ts1 where inv1: "inv_at ts1 G1 {}"
          using fit1 by (auto simp: fit_def)
        obtain t where "t \<in> set (ready_tasks G1)"
          using ready by (cases "ready_tasks G1") auto
        then obtain j y where y: "task_at G1 j = Some y" "ts_status y = READY"
          using in_ready_tasks [OF inv_dict [OF inv1]] by blast
        have "0 < pot (limit g) {} j (the (task_at G1 j))"
          using y by (simp add: pot_def task_budget_def task_is_terminal_def)
        moreover have "j \<in> dom (task_at G1)" and "finite (dom (task_at G1))"
          using y(1) by (auto intro: finite_dom_map_of)
        ultimately show ?thesis
          unfolding weight_def by (meson sum_pos2 le0)
      qed
      moreover assume ready: "ready_tasks G1 \<noteq> []"
      ultimately have less: "weight (pot (limit g) {}) G1 - 1 < k"
        using Suc.prems(2) w1 by linarith
      show "hoare (stands g s1) (bindE (execute_batch env s1 G1 (ready_tasks G1)) (\<lambda>(s2, G2).
         if tn_status s2 \<in> {T_BLOCKED, T_FAILED} then returnE (team_result_of s2)
         else execute_rounds env again k s2 G2)) (over g) (fails g)"
      proof (rule hoare_bind_pure [OF batch_rule [OF fit1 appr l order_refl]])
        fix z
        assume z: "tn_status (fst z) = T_BLOCKED \<or> mid g n (weight (pot (limit g) {}) G1 - 1) {} (fst z) (snd z)"
        have "hoare (stands g (fst z)) (if tn_status (fst z) \<in> {T_BLOCKED, T_FAILED} then returnE (team_result_of (fst z))
           else execute_rounds env again k (fst z) (snd z)) (over g) (fails g)"
        proof (rule hoare_if)
          assume "tn_status (fst z) \<in> {T_BLOCKED, T_FAILED}"
          then show "hoare (stands g (fst z)) (returnE (team_result_of (fst z))) (over g) (fails g)"
            by (intro over_return) (auto simp: ended_result)
        next
          assume "tn_status (fst z) \<notin> {T_BLOCKED, T_FAILED}"
          then show "hoare (stands g (fst z)) (execute_rounds env again k (fst z) (snd z)) (over g) (fails g)"
            using z less Suc.prems(3) by (intro Suc.IH) (auto simp: mid_def)
        qed
        then show "hoare (stands g (fst z)) (case z of (s2, G2) \<Rightarrow>
           if tn_status s2 \<in> {T_BLOCKED, T_FAILED} then returnE (team_result_of s2)
           else execute_rounds env again k s2 G2) (over g) (fails g)"
          by (simp add: split_def)
      qed
    qed
    then show "hoare (stands g (fst x)) (case x of (s1, G1, go) \<Rightarrow> if \<not> go then returnE (team_result_of s1)
       else if ready_tasks G1 = []
       then bindE (block_team env s1 G1 TS_DEADLOCK ''task graph has no ready task and is not terminal'')
         (\<lambda>s'. returnE (team_result_of s'))
       else
         bindE (execute_batch env s1 G1 (ready_tasks G1)) (\<lambda>(s2, G2).
         if tn_status s2 \<in> {T_BLOCKED, T_FAILED} then returnE (team_result_of s2)
         else execute_rounds env again k s2 G2)) (over g) (fails g)"
      by (simp add: x1)
  qed
  show ?case
    unfolding execute_rounds.simps
    by (intro cancelled_bind hoare_if cancel_rule resume complete_team_rule [OF Suc.prems(1) _ Suc.prems(3)] fail round)
qed simp

end

end
