(* ===== verification/TeamCalls.thy ===== *)
theory TeamCalls
  imports TeamRuns
begin

text \<open>
  Cycles and calls: planning, the final states set by the handlers, \<open>run\<close> and \<open>resume\<close>.
\<close>

section \<open>Graphs from plans and snapshots\<close>

lemma initial_attempts:
  assumes "new_TaskGraph ts None = Inr G" and "1 \<le> l"
  shows "attempts_within l G"
proof -
  have G: "g_states G = initial_states ts"
    using assms(1) by (auto simp: new_TaskGraph_def Let_def split: sum.splits)
  have "attempt_ok l y" if "task_at G k = Some y" for k y
    using map_of_SomeD [OF that] assms(2) by (auto simp: G initial_states_def initial_state_def attempt_ok_def)
  then show ?thesis
    by (simp add: attempts_within_def)
qed

lemma validate_err: "validate_and_index ts = Inl e \<Longrightarrow> e \<noteq> FuelOut"
  by (auto simp: validate_and_index_def Let_def split: if_splits option.splits)

lemma statuses_err: "statuses_of sts ds = Inl e \<Longrightarrow> e \<noteq> FuelOut"
proof (induction ds)
  case (Cons d ds)
  then show ?case
    by (cases "dict_get sts d"; cases "statuses_of sts ds") auto
qed simp

lemma refresh_err: "fst (refresh deps pending queued sts) \<noteq> Inl FuelOut"
  by (induction deps pending queued sts rule: refresh.induct)
    (auto split: option.splits sum.splits prod.splits dest: statuses_err)

lemma violation_err: "restored_violation sts rest = Some e \<Longrightarrow> e \<noteq> FuelOut"
  by (induction sts rest rule: restored_violation.induct) (auto simp: Let_def split: if_splits)

lemma refresh_pending_err: "refresh_pending xs G = (Inl e, G') \<Longrightarrow> e \<noteq> FuelOut"
  using refresh_err [of "dependents G" "fromkeys xs" "set xs" "g_states G"]
  by (auto simp: refresh_pending_def split: prod.splits)

lemma new_TaskGraph_err:
  assumes "new_TaskGraph ts ss = Inl e"
  shows "e \<noteq> FuelOut"
proof (cases "validate_and_index ts")
  case (Inl x)
  then show ?thesis
    using assms by (auto simp: new_TaskGraph_def dest: validate_err)
next
  case (Inr deps)
  then show ?thesis
    using assms unfolding new_TaskGraph_def Let_def
    by (auto split: option.splits if_splits prod.splits sum.splits dest: violation_err refresh_pending_err)
qed

lemma from_snapshot_err: "from_snapshot s = Inl e \<Longrightarrow> e \<noteq> FuelOut"
  unfolding from_snapshot_def by (rule new_TaskGraph_err)

lemma graph_of_err: "graph_of s = Inl e \<Longrightarrow> e \<noteq> FuelOut"
  by (cases "from_snapshot s") (auto simp: graph_of_def split: if_splits dest: from_snapshot_err)

lemma cycles_enough: "nat (tl_max_cycles (tq_limits (tn_request s)) - tn_cycle s) < cycles_left s"
  by (simp add: cycles_left_def)

definition bounds_ok :: "ghost \<Rightarrow> bool" where
  "bounds_ok g \<longleftrightarrow> 1 \<le> gh_attempts g \<and> limit g \<le> gh_attempts g
     \<and> tl_max_cycles (tq_limits (gh_request g)) \<le> gh_cycles g"

context team_components begin

section \<open>Cycles\<close>

lemma plan_tasks_rule:
  assumes "tn_cycle s + 1 \<le> gh_cycles g"
  shows "hoare (stands g s) (plan_tasks env s) (\<lambda>_. stands g s) (fails g)"
  unfolding plan_tasks_def
proof (rule read_bind, rule lift_bind)
  fix agents c
  assume "new_TeamPlanningContext \<lparr>pc_run_id = tn_run_id s, pc_request = tn_request s,
       pc_cycle = tn_cycle s + 1, pc_plan_revision = tn_plan_revision s, pc_agents = agents,
       pc_reviews = prior_reviews s, pc_human = tn_human s\<rparr> = Inr c"
  then have "pc_cycle c = tn_cycle s + 1"
    by (auto simp: new_TeamPlanningContext_def)
  then have ok: "action_ok (gh_attempts g) (gh_cycles g) (Some s) (Planned c)"
    using assms by simp
  show "hoare (stands g s) (thenE (noteE (Planned c)) (bindE (doE (c_plan env c)) (\<lambda>ts.
     if int (length ts) > max_tasks (tq_limits (tn_request s))
     then raiseE (TeamExecution ''planner returned more tasks than the limit'') else returnE (c, ts)))) (\<lambda>_. stands g s) (fails g)"
    by (rule hoare_then [OF note_rule hoare_bind [OF call_rule [OF never_plan]]])
      (use ok in \<open>auto intro!: hoare_if hoare_raise hoare_return fails_if dest: stands_traced simp del: action_ok.simps\<close>)
qed (auto simp: new_TeamPlanningContext_def require_def split: if_splits)

lemma execute_rule:
  assumes "fit g n s G" and "again_ok g n again" and "limit g \<le> gh_attempts g"
  shows "hoare (stands g s) (execute_team env again s G) (over g) (fails g)"
proof -
  obtain ts where inv: "inv_at ts G {}"
    using assms(1) by (auto simp: fit_def)
  have "pot (limit g) {} = (\<lambda>_. task_budget (limit g))"
    by (rule ext) (rule pot_empty)
  then have "rounds_left (max_task_attempts (tq_limits (tn_request s))) G = weight (pot (limit g) {}) G"
    using rounds_weight [OF inv_dict [OF inv]] assms(1) by (simp add: fit_def)
  then show ?thesis
    unfolding execute_team_def by (intro rounds_rule [OF assms(1) _ assms(2,3)]) simp
qed

lemma cycles_rule:
  assumes "at_cycle g n s" and "nat (tl_max_cycles (tq_limits (gh_request g)) - n) < k" and "bounds_ok g"
  shows "hoare (stands g s) (plan_and_execute env k s) (over g) (fails g)"
  using assms(1,2)
proof (induction k arbitrary: s n)
  case (Suc k)
  have n: "tn_cycle s = n" and q: "tn_request s = gh_request g"
    using Suc.prems(1) by (simp_all add: at_cycle_def)
  show ?case
    unfolding plan_and_execute.simps
  proof (rule hoare_if, rule fail_rule, simp)
    assume "\<not> tn_cycle s + 1 > tl_max_cycles (tq_limits (tn_request s))"
    then have cyc: "n + 1 \<le> tl_max_cycles (tq_limits (gh_request g))"
      by (simp add: n q)
    then have c: "tn_cycle s + 1 \<le> gh_cycles g"
      using assms(3) by (simp add: bounds_ok_def n)
    have less: "nat (tl_max_cycles (tq_limits (gh_request g)) - (n + 1)) < k"
      using Suc.prems(2) cyc by linarith
    have again: "again_ok g (n + 1) (plan_and_execute env k)"
      unfolding again_ok_def using Suc.IH [OF _ less] by blast
    show "hoare (stands g s) (bindE (plan_tasks env s) (\<lambda>(c, ts).
        bindE (liftE (new_TaskGraph ts None)) (\<lambda>G.
        bindE (save_team env s (Some G) ((saving T_RUNNING)\<lparr>sv_cycle := Some (tn_cycle s + 1), sv_approved := Some None\<rparr>))
          (\<lambda>s'.
        thenE (publish_team env TE_PLAN_CREATED s' [] [(PStr ''task_count'', PInt (int (length ts)))])
       (if unknown_capabilities c ts \<noteq> []
        then bindE (block_team env s' G TS_NO_CAPABLE_AGENT
               (''plan references unregistered capabilities: '' @ join '', '' (unknown_capabilities c ts)))
               (\<lambda>s''. returnE (team_result_of s''))
        else thenE (publish_ready env s' (ready_tasks G)) (execute_team env (plan_and_execute env k) s' G)))))) (over g) (fails g)"
    proof (rule hoare_bind [OF plan_tasks_rule [OF c]], unfold split_def, rule lift_bind, rule save_bind, simp,
        rule publish_then, rule hoare_if)
      fix x G s'
      show "hoare (stands g s') (bindE (block_team env s' G TS_NO_CAPABLE_AGENT
               (''plan references unregistered capabilities: '' @ join '', '' (unknown_capabilities (fst x) (snd x))))
               (\<lambda>s''. returnE (team_result_of s''))) (over g) (fails g)"
        by (rule hoare_bind_pure [OF block_rule], rule over_return) (simp add: ended_result saved_def)
    next
      fix x G s'
      assume G: "new_TaskGraph (snd x) None = Inr G"
        and sv: "saved s (Some G) ((saving T_RUNNING)\<lparr>sv_cycle := Some (tn_cycle s + 1), sv_approved := Some None\<rparr>) s'"
      have "fit g (n + 1) s' G"
        using new_graph_inv [OF G] initial_attempts [OF G] assms(3) sv n q
        by (auto simp: fit_def saved_def bounds_ok_def)
      then show "hoare (stands g s') (thenE (publish_ready env s' (ready_tasks G)) (execute_team env (plan_and_execute env k) s' G))
          (over g) (fails g)"
        using assms(3) again by (intro publish_ready_then execute_rule) (auto simp: bounds_ok_def)
    qed (rule new_TaskGraph_err)
  qed
qed simp

section \<open>Final states\<close>

lemma require_run_rule: "hoare (traced g) (require_run env rid) (\<lambda>_. traced g) (fails g)"
  unfolding require_run_def
  by (rule hoare_bind [OF call_rule [OF never_load]])
    (auto split: option.split intro!: hoare_raise hoare_return fails_if)

lemma over_traced: "ended r \<Longrightarrow> hoare (traced g) (returnE r) (over g) E"
  by (rule hoare_return) simp

lemma mark_rule:
  assumes "sv_status a \<in> {T_TIMED_OUT, T_BLOCKED, T_CANCELLED, T_FAILED}" and "sv_cycle a = None"
  shows "hoare (traced g) (mark_run env rid f a et d) (over g) (fails g)"
  unfolding mark_run_def
proof (rule hoare_bind [OF require_run_rule], rule hoare_if)
  fix s :: team_snapshot
  assume "team_is_terminal (tn_status s)"
  then show "hoare (traced g) (returnE (team_result_of s)) (over g) (fails g)"
    by (intro over_traced) (auto simp: ended_result team_is_terminal_def)
next
  fix s :: team_snapshot
  show "hoare (traced g) (bindE (liftE (graph_of s)) (\<lambda>G. bindE (save_team env s (map_option f G) a) (\<lambda>s'.
       thenE (suppressE (publish_team env et s' (d s') [])) (returnE (team_result_of s'))))) (over g) (fails g)"
  proof (rule hoare_bind_pure [OF lift_rule [where A = "\<lambda>_. True"]], simp, rule graph_of_err, simp, simp)
    fix G
    show "hoare (traced g) (bindE (save_team env s (map_option f G) a) (\<lambda>s'.
       thenE (suppressE (publish_team env et s' (d s') [])) (returnE (team_result_of s')))) (over g) (fails g)"
    proof (rule hoare_bind_pure [OF save_traced])
      fix s'
      assume sv: "saved s (map_option f G) a s'"
      show "completed_ok s'"
        using sv assms(1) by (intro not_completed) (auto simp: saved_def)
      have "hoare (stands g s') (publish_team env et s' (d s') []) (\<lambda>_. traced g) (fails g)"
        by (rule hoare_post [OF publish_rule]) (auto dest: stands_traced)
      then have "hoare (stands g s') (suppressE (publish_team env et s' (d s') [])) (\<lambda>_. traced g) (fails g)"
        by (rule hoare_suppressE) (auto simp: fails_def)
      then show "hoare (stands g s') (thenE (suppressE (publish_team env et s' (d s') [])) (returnE (team_result_of s')))
         (over g) (fails g)"
        by (rule hoare_then, intro over_traced) (use sv assms(1) in \<open>auto simp: ended_result saved_def\<close>)
    qed
  qed
qed

lemma handler_rule: "hoare (fails g e) (run_handler env rid e) (over g) (fails g)"
proof -
  have mark: "hoare (fails g e) (mark_timed_out env rid) (over g) (fails g)"
    "hoare (fails g e) (mark_budget_exhausted env rid) (over g) (fails g)"
    "hoare (fails g e) (mark_component_failed env rid e) (over g) (fails g)"
    unfolding mark_timed_out_def mark_budget_exhausted_def mark_component_failed_def
    by (rule hoare_pre [OF mark_rule], simp_all add: fails_def)+
  have cancelled: "hoare (traced g) (mark_cancelled env rid) (\<lambda>_. traced g) (fails g)"
    unfolding mark_cancelled_def by (rule hoare_post [OF mark_rule]) simp_all
  then have "hoare (traced g) (bindE (mark_cancelled env rid) (\<lambda>_. returnE ())) (\<lambda>_. traced g) (fails g)"
    by (rule hoare_bind) (rule hoare_return)
  then have quiet: "hoare (traced g) (suppressE (bindE (mark_cancelled env rid) (\<lambda>_. returnE ()))) (\<lambda>_. traced g) (fails g)"
    by (rule hoare_suppressE) (auto simp: fails_def)
  have raise: "hoare (traced g) (raiseE e) (over g) (fails g)" if "e \<noteq> FuelOut"
    by (rule hoare_raise) (rule fails_if [OF _ that])
  have cancel: "hoare (fails g e) (thenE (suppressE (bindE (mark_cancelled env rid) (\<lambda>_. returnE ()))) (raiseE e))
      (over g) (fails g)" if "e \<noteq> FuelOut"
    by (rule hoare_pre [OF hoare_then [OF quiet raise [OF that]]]) (simp add: fails_def)
  have conflict: "hoare (fails g e) (resolve_conflict env rid e) (over g) (fails g)" if "e \<noteq> FuelOut"
  proof -
    have final: "hoare (traced g) (if team_is_terminal (tn_status s) then returnE (team_result_of s) else raiseE e)
        (over g) (fails g)" for s
      by (rule hoare_if, rule over_traced) (auto simp: ended_result team_is_terminal_def intro: raise [OF that])
    have cases: "hoare (traced g) (case x of Some s \<Rightarrow> if team_is_terminal (tn_status s) then returnE (team_result_of s) else raiseE e
       | None \<Rightarrow> raiseE e) (over g) (fails g)" for x
      by (cases x, simp_all only: option.case) (rule raise [OF that], rule final)
    have "hoare (traced g) (resolve_conflict env rid e) (over g) (fails g)"
      unfolding resolve_conflict_def by (rule hoare_bind [OF call_rule [OF never_load] cases]) simp_all
    then show ?thesis
      by (rule hoare_pre) (simp add: fails_def)
  qed
  show ?thesis
  proof (cases "e = FuelOut")
    case True
    then show ?thesis
      by (simp add: hoare_def fails_def)
  next
    case False
    then show ?thesis
      unfolding run_handler_def by (intro hoare_if mark cancel conflict hoare_raise)
  qed
qed

lemma guarded_rule:
  assumes "hoare P m (over g) (fails g)"
  shows "hoare P (guarded_run env rid m) (over g) (fails g)"
proof -
  have unclaim: "hoare I (thenE (finish_active rid) (doE (c_unclaim env rid (owner_id env)))) (\<lambda>_. I) (fails g)"
    if "\<And>st w. I st \<Longrightarrow> I (st\<lparr>team_world := w\<rparr>)" "\<And>st. I st \<Longrightarrow> traced g st"
      "\<And>st A C. I st \<Longrightarrow> I (st\<lparr>active_runs := A, cancel_requested := C\<rparr>)" for I
    unfolding finish_active_def
    by (rule hoare_then [OF hoare_modify call_rule [OF never_unclaim]]) (auto intro: that)
  show ?thesis
    unfolding guarded_run_def
    by (rule hoare_finallyE [OF hoare_try [OF assms handler_rule] unclaim unclaim]) (auto simp: fails_def)
qed

lemma timeout_rule:
  assumes "hoare P m (over g) (fails g)"
  shows "hoare P (await_with_timeout env m remaining) (over g) (fails g)"
proof (cases remaining)
  case (Some t)
  show ?thesis
    unfolding hoare_def
  proof (intro allI impI)
    fix st
    assume P: "P st"
    obtain r s1 where m: "m st = (r, s1)"
      by fastforce
    obtain late w where o: "c_overdue env t (team_world s1) = (late, w)"
      by fastforce
    have "case r of Inl e \<Rightarrow> fails g e s1 | Inr x \<Rightarrow> over g x s1"
      using assms P m unfolding hoare_def by (auto split: sum.splits)
    then show "case await_with_timeout env m remaining st of (Inl e, s') \<Rightarrow> fails g e s' | (Inr x, s') \<Rightarrow> over g x s'"
      by (auto simp: await_with_timeout_def Some m o fails_def deadline_exceeded_def split: sum.splits)
  qed
qed (simp add: await_with_timeout_def assms)

lemma claim_keeps:
  assumes world: "\<And>st w. I st \<Longrightarrow> I (st\<lparr>team_world := w\<rparr>)" and I: "\<And>st. I st \<Longrightarrow> traced g st"
    and runs: "\<And>st A C. I st \<Longrightarrow> I (st\<lparr>active_runs := A, cancel_requested := C\<rparr>)" "\<And>st A. I st \<Longrightarrow> I (st\<lparr>active_runs := A\<rparr>)"
  shows "hoare I (claim_run env rid) (\<lambda>_. I) (fails g)"
proof -
  have enter: "hoare I (begin_active rid) (\<lambda>_. I) (fails g)"
    by (auto simp: hoare_def begin_active_def fails_def intro: runs dest: I)
  have finish: "hoare I (finish_active rid) (\<lambda>_. I) E" for E
    unfolding finish_active_def by (rule hoare_modify) (rule runs)
  have raise: "hoare I (thenE (finish_active rid) (raiseE e)) Q (fails g)" if "e \<noteq> FuelOut" for e Q
    by (rule hoare_then [OF finish hoare_raise]) (rule fails_if [OF I that])
  have claim: "hoare I (tryE (doE (c_claim env rid (owner_id env))) (\<lambda>e. thenE (finish_active rid) (raiseE e)))
      (\<lambda>_. I) (fails g)"
  proof (rule hoare_try)
    show "hoare I (doE (c_claim env rid (owner_id env))) (\<lambda>_. I) (\<lambda>e st. I st \<and> e \<noteq> FuelOut)"
      using never_claim [of rid "owner_id env"] by (intro hoare_doE) (auto simp: never_def intro: world, metis fst_conv)
    show "hoare (\<lambda>st. I st \<and> e \<noteq> FuelOut) (thenE (finish_active rid) (raiseE e)) (\<lambda>_. I) (fails g)" for e
    proof (cases "e = FuelOut")
      case False
      show ?thesis
        by (rule hoare_pre [OF raise [OF False]]) simp
    qed (simp add: hoare_def)
  qed
  show ?thesis
    unfolding claim_run_def
    by (rule hoare_then [OF enter], rule hoare_bind [OF claim], rule hoare_if, rule hoare_return, simp, rule raise) simp
qed

lemma claim_rule: "hoare (stands g s) (claim_run env rid) (\<lambda>_. stands g s) (fails g)"
  by (rule claim_keeps) (auto dest: stands_traced)

lemma claim_traced: "hoare (traced g) (claim_run env rid) (\<lambda>_. traced g) (fails g)"
  by (rule claim_keeps) auto

end

end
