(* ===== verification/TeamResults.thy ===== *)
theory TeamResults
  imports TeamCalls TaskGraphProperties
begin

text \<open>
  \<open>run\<close> and \<open>resume\<close> as calls: which snapshots can be resumed, and what both calls guarantee.
\<close>

definition resumable :: "team_snapshot \<Rightarrow> bool" where
  "resumable s \<longleftrightarrow> tn_tasks s = [] \<or> (\<exists>G. graph_run G \<and> tn_tasks s = graph_states G)"

text \<open>A bound for the attempts of a resumed run.\<close>

definition attempt_bound :: "team_snapshot \<Rightarrow> int" where
  "attempt_bound s = fold max (map (\<lambda>t. ts_attempt t + 1) (tn_tasks s)) (max 1 (max_task_attempts (tq_limits (tn_request s))))"

lemma fold_max_le: "(x :: int) \<le> fold max xs x" and fold_max_mem: "(y :: int) \<in> set xs \<Longrightarrow> y \<le> fold max xs x"
proof -
  show le: "x \<le> fold max xs x" for x :: int and xs
  proof (induction xs arbitrary: x)
    case (Cons y xs)
    have "x \<le> max y x"
      by simp
    also have "\<dots> \<le> fold max xs (max y x)"
      by (rule Cons)
    finally show ?case
      by simp
  qed simp
  show "y \<le> fold max xs x" if "y \<in> set xs"
    using that
  proof (induction xs arbitrary: x)
    case (Cons z xs)
    show ?case
    proof (cases "y = z")
      case True
      have "y \<le> max z x"
        by (simp add: True)
      also have "\<dots> \<le> fold max xs (max z x)"
        by (rule le)
      finally show ?thesis
        by simp
    next
      case False
      then show ?thesis
        using Cons by simp
    qed
  qed simp
qed

lemma bound_limits: "1 \<le> attempt_bound s" "max_task_attempts (tq_limits (tn_request s)) \<le> attempt_bound s"
  using fold_max_le [of "max 1 (max_task_attempts (tq_limits (tn_request s)))" "map (\<lambda>t. ts_attempt t + 1) (tn_tasks s)"]
  by (simp_all add: attempt_bound_def)

lemma bound_task: "t \<in> set (tn_tasks s) \<Longrightarrow> ts_attempt t < attempt_bound s"
  unfolding attempt_bound_def
  by (rule less_le_trans [OF _ fold_max_mem [of "ts_attempt t + 1"]]) simp_all

definition ghost_of :: "team_action list \<Rightarrow> int \<Rightarrow> int \<Rightarrow> team_request \<Rightarrow> ghost" where
  "ghost_of tr l c q = \<lparr>gh_trace = tr, gh_attempts = l, gh_cycles = c, gh_request = q\<rparr>"

lemma ghost_simps [simp]:
  "gh_trace (ghost_of tr l c q) = tr" "gh_attempts (ghost_of tr l c q) = l" "gh_cycles (ghost_of tr l c q) = c"
  "gh_request (ghost_of tr l c q) = q"
  by (simp_all add: ghost_of_def)

lemma ghost_request: "traced (ghost_of tr l c q) = traced (ghost_of tr l c q')"
  "fails (ghost_of tr l c q) = fails (ghost_of tr l c q')"
  by (simp_all add: traced_def fails_def fun_eq_iff)

lemma traced_start: "traced (ghost_of (team_trace st) l c q) st"
  by (simp add: traced_def)

lemma bindE_liftE: "bindE (liftE (Inr x)) f = f x"
  by (simp add: bindE_def liftE_def)

lemma recovered_attempt:
  "ts_attempt y < l \<Longrightarrow> refreshed (recover_state y) y' \<Longrightarrow> attempt_ok l y'"
  by (auto simp: refreshed_def recover_state_def attempt_ok_def split: if_splits)

context team_components begin

lemma persist_rule:
  assumes "tn_status s \<noteq> T_COMPLETED"
  shows "hoare (stands g s) (persist_prepared env s) (\<lambda>s' st. (tn_request s' = tn_request s \<and> tn_cycle s' = tn_cycle s)
     \<and> stands g s' st) (fails g)"
  unfolding persist_prepared_def
proof (rule hoare_bind_pure [OF prepare_rule])
  fix p
  assume p: "p\<lparr>tn_propagation := tn_propagation s\<rparr> = s"
  have get: "tn_request p = tn_request s" "tn_cycle p = tn_cycle s" "tn_status p = tn_status s"
    using arg_cong [OF p, of tn_request] arg_cong [OF p, of tn_cycle] arg_cong [OF p, of tn_status] by simp_all
  have store: "hoare (stands g s) (store_snapshot env p (tn_version s)) (\<lambda>s' st. (tn_request s' = tn_request s \<and> tn_cycle s' = tn_cycle s)
     \<and> stands g s' st) (fails g)"
  proof (rule hoare_conseq [OF store_rule [of p]])
    fix s' :: team_snapshot
    assume s': "s'\<lparr>tn_version := tn_version p, tn_created := tn_created p, tn_updated := tn_updated p\<rparr> = p"
    show "completed_ok s'"
      using arg_cong [OF s', of tn_status] get assms by (simp add: not_completed)
  next
    fix s' :: team_snapshot and st :: "'w team_state"
    assume s': "s'\<lparr>tn_version := tn_version p, tn_created := tn_created p, tn_updated := tn_updated p\<rparr> = p \<and> stands g s' st"
    have "tn_request s' = tn_request p" "tn_cycle s' = tn_cycle p"
      using arg_cong [OF conjunct1 [OF s'], of tn_request] arg_cong [OF conjunct1 [OF s'], of tn_cycle] by simp_all
    then show "(tn_request s' = tn_request s \<and> tn_cycle s' = tn_cycle s) \<and> stands g s' st"
      using get s' by simp
  qed (auto dest: stands_traced)
  show "hoare (stands g s) (if p = s then returnE s else store_snapshot env p (tn_version s))
     (\<lambda>s' st. (tn_request s' = tn_request s \<and> tn_cycle s' = tn_cycle s) \<and> stands g s' st) (fails g)"
    by (rule hoare_if, rule hoare_return, simp, rule store)
qed (auto dest: stands_traced)

lemma timed_out_rule: "hoare (stands g s) (mark_timed_out env rid) (over g) (fails g)"
  unfolding mark_timed_out_def by (rule hoare_pre [OF mark_rule]) (auto dest: stands_traced)

lemma first_rule:
  assumes "at_cycle g 0 s" and "tn_status s \<noteq> T_COMPLETED" and "bounds_ok g"
  shows "hoare (stands g s) (first_run env s deadline) (over g) (fails g)"
  unfolding first_run_def
proof (rule publish_then, rule hoare_bind_pure [OF persist_rule [OF assms(2)]], rule publish_then)
  fix s' :: team_snapshot
  assume "tn_request s' = tn_request s \<and> tn_cycle s' = tn_cycle s"
  then have s': "at_cycle g 0 s'"
    using assms(1) by (simp add: at_cycle_def)
  have enough: "nat (tl_max_cycles (tq_limits (gh_request g)) - 0) < cycles_left s'"
    using cycles_enough [of s'] s' by (simp add: at_cycle_def)
  have time: "hoare (stands g s') (case deadline of None \<Rightarrow> returnE None
        | Some d \<Rightarrow> bindE (readE (c_mono env)) (\<lambda>t. returnE (Some (d - t)))) (\<lambda>_. stands g s') (fails g)"
    by (cases deadline) (auto intro: hoare_return read_bind)
  show "hoare (stands g s') (bindE (case deadline of None \<Rightarrow> returnE None
        | Some d \<Rightarrow> bindE (readE (c_mono env)) (\<lambda>t. returnE (Some (d - t)))) (\<lambda>remaining.
     if (case remaining of None \<Rightarrow> False | Some x \<Rightarrow> x \<le> 0) then mark_timed_out env (tn_run_id s)
     else await_with_timeout env (plan_and_execute env (cycles_left s') s') remaining)) (over g) (fails g)"
    by (intro hoare_bind [OF time] hoare_if timed_out_rule timeout_rule cycles_rule [OF s' enough assms(3)])
qed

lemma run_rule:
  assumes "1 \<le> max_task_attempts (tq_limits r)"
    and g_def: "g = ghost_of tr (max_task_attempts (tq_limits r)) (tl_max_cycles (tq_limits r)) r"
  shows "hoare (traced g) (run_team env r rid) (over g) (fails g)"
proof -
  have read: "hoare (traced g) (readE f) (\<lambda>_. traced g) (fails g)" for f
    by (rule read_rule) simp
  have name: "hoare (traced g) (case rid of Some i \<Rightarrow> if i \<noteq> [] then returnE i else readE (c_uuid env)
      | None \<Rightarrow> readE (c_uuid env)) (\<lambda>_. traced g) (fails g)"
    by (cases rid) (auto intro: hoare_return read)
  have time: "hoare (traced g) (case finite_limit r of None \<Rightarrow> returnE None
      | Some t \<Rightarrow> bindE (readE (c_mono env)) (\<lambda>m. returnE (Some (m + t)))) (\<lambda>_. traced g) (fails g)"
    by (cases "finite_limit r") (auto intro: hoare_return hoare_bind [OF read])
  have start: "hoare (traced g) (bindE (liftE (new_TeamSnapshot (initial_snapshot r i now))) (\<lambda>s.
       thenE (doE (c_create env s))
      (thenE (noteE (Created s))
      (thenE (claim_run env i) (guarded_run env i (first_run env s deadline)))))) (over g) (fails g)" for i now deadline
  proof (rule hoare_bind_pure [OF lift_rule [where A = "\<lambda>s. s = initial_snapshot r i now"]])
    fix s
    assume s: "s = initial_snapshot r i now"
    let ?g = "ghost_of tr (max_task_attempts (tq_limits r)) (tl_max_cycles (tq_limits r)) (tn_request s)"
    have g: "over g = over ?g" "fails g = fails ?g"
      unfolding g_def by (simp_all only: ghost_request [of _ _ _ r "tn_request s"])
    have "hoare (stands ?g s) (first_run env s deadline) (over ?g) (fails ?g)"
      using assms(1) by (intro first_rule) (auto simp: at_cycle_def bounds_ok_def s initial_snapshot_def)
    then have run: "hoare (stands ?g s) (thenE (claim_run env i) (guarded_run env i (first_run env s deadline))) (over ?g) (fails ?g)"
      by (intro hoare_then [OF claim_rule] guarded_rule)
    have note_it: "hoare (traced ?g) (noteE (Created s)) (\<lambda>_. stands ?g s) (fails ?g)"
      by (rule hoare_noteE) (rule traced_note, simp_all add: s initial_snapshot_def)
    have "hoare (traced ?g) (thenE (doE (c_create env s)) (thenE (noteE (Created s))
      (thenE (claim_run env i) (guarded_run env i (first_run env s deadline))))) (over ?g) (fails ?g)"
      by (rule hoare_then [OF call_rule [OF never_create] hoare_then [OF note_it run]]) simp_all
    then show "hoare (traced g) (thenE (doE (c_create env s)) (thenE (noteE (Created s))
      (thenE (claim_run env i) (guarded_run env i (first_run env s deadline))))) (over g) (fails g)"
      unfolding g_def by (simp only: ghost_request [of _ _ _ r "tn_request s"])
  qed (auto dest: new_TeamSnapshot_Inr new_TeamSnapshot_err)
  show ?thesis
    unfolding run_team_def
  proof (rule hoare_bind [OF name], rule hoare_if)
    show "hoare (traced g) (raiseE (ValueError ''run_id must not be empty'')) (over g) (fails g)"
      by (rule hoare_raise) (simp add: fails_def)
  qed (rule hoare_bind [OF time], rule hoare_bind [OF read], rule start)
qed

lemma remaining_rule: "hoare (stands g s) (remaining_team_timeout env s) (\<lambda>_. stands g s) (fails g)"
  unfolding remaining_team_timeout_def
  by (auto split: option.split intro!: hoare_return read_bind)

text \<open>A resumed snapshot: without tasks, or with the states of a recovered graph.\<close>

lemma recover_rule:
  assumes inv: "inv_at ts G {}" and q: "tn_request s = gh_request g" and bounds: "bounds_ok g"
    and att: "\<And>k y. task_at G k = Some y \<Longrightarrow> ts_attempt y < gh_attempts g"
    and f: "\<And>ids G' s'. fit g (max (tn_cycle s) 1) s' G' \<Longrightarrow> hoare (stands g s') (f (ids, G') s') Q (fails g)"
  shows "hoare (traced g) (bindE (graphE (recover_inflight G)) (\<lambda>x.
      bindE (save_team env s (Some (snd x)) ((saving T_RUNNING)\<lparr>sv_cycle := Some (max (tn_cycle s) 1)\<rparr>)) (f x))) Q (fails g)"
proof -
  obtain ids G' where r: "recover_inflight G = (Inr ids, G')" and inv': "inv_at ts G' {}"
    and st: "\<forall>k y. task_at G k = Some y \<longrightarrow> (\<exists>y'. task_at G' k = Some y' \<and> refreshed (recover_state y) y')"
    by (rule recover_result [OF inv])
  have "attempts_within (gh_attempts g) G'"
    unfolding attempts_within_def
  proof (intro allI impI)
    fix k y'
    assume y': "task_at G' k = Some y'"
    have "dom (task_at G') = dom (task_at G)"
      using inv inv' by (simp add: inv_at_def shape_def states_ok_def)
    then obtain y where y: "task_at G k = Some y"
      using y' by (metis domD domI)
    then have "refreshed (recover_state y) y'"
      using st y' by fastforce
    then show "attempt_ok (gh_attempts g) y'"
      by (rule recovered_attempt [OF att [OF y]])
  qed
  then have fit: "fit g (max (tn_cycle s) 1) s' G'"
    if "saved s (Some G') ((saving T_RUNNING)\<lparr>sv_cycle := Some (max (tn_cycle s) 1)\<rparr>) s'" for s'
    using that inv' q by (auto simp: fit_def saved_def)
  have graph: "hoare (traced g) (graphE (recover_inflight G)) (\<lambda>x st. x = (ids, G') \<and> traced g st) (fails g)"
    by (rule hoare_graphE) (auto simp: r)
  have save: "hoare (traced g) (save_team env s (Some G') ((saving T_RUNNING)\<lparr>sv_cycle := Some (max (tn_cycle s) 1)\<rparr>))
      (\<lambda>s' st. saved s (Some G') ((saving T_RUNNING)\<lparr>sv_cycle := Some (max (tn_cycle s) 1)\<rparr>) s' \<and> stands g s' st) (fails g)"
    by (rule save_traced) (auto simp: saved_def intro: not_completed)
  show ?thesis
    by (rule hoare_bind_pure [OF graph]) (simp, rule hoare_bind_pure [OF save], rule f, rule fit)
qed

lemma resumed_rule:
  assumes s: "tn_tasks s = [] \<or> (\<exists>G ts. inv_at ts G {} \<and> tn_tasks s = graph_states G)"
    and g: "g = ghost_of tr (attempt_bound s) (tl_max_cycles (tq_limits (tn_request s))) (tn_request s)"
  shows "hoare (traced g) (resumed_run env rid s) (over g) (fails g)"
proof -
  have bounds: "bounds_ok g"
    using bound_limits [of s] by (simp add: bounds_ok_def g)
  let ?go = "\<lambda>x. case x of
       Inl r \<Rightarrow> returnE r
     | Inr (s', G) \<Rightarrow>
         thenE (publish_team env TE_RESUMED s' [] [])
        (bindE (remaining_team_timeout env s') (\<lambda>remaining.
         if (case remaining of None \<Rightarrow> False | Some x \<Rightarrow> x \<le> 0) then mark_timed_out env rid
         else await_with_timeout env
           (case G of None \<Rightarrow> plan_and_execute env (cycles_left s') s'
            | Some g \<Rightarrow> execute_team env (plan_and_execute env (cycles_left s')) s' g) remaining))"
  have enough: "nat (tl_max_cycles (tq_limits (gh_request g)) - n) < cycles_left s'" if "at_cycle g n s'" for s' n
    using cycles_enough [of s'] that by (simp add: at_cycle_def)
  have go: "hoare (stands g s') (?go (Inr (s', G))) (over g) (fails g)"
    if "at_cycle g n s'" "\<And>G'. G = Some G' \<Longrightarrow> fit g n s' G'" for s' G n
  proof -
    have "hoare (stands g s') (case G of None \<Rightarrow> plan_and_execute env (cycles_left s') s'
            | Some g \<Rightarrow> execute_team env (plan_and_execute env (cycles_left s')) s' g) (over g) (fails g)"
    proof (cases G)
      case None
      then show ?thesis
        using cycles_rule [OF that(1) enough [OF that(1)] bounds] by simp
    next
      case (Some G')
      have "again_ok g n (plan_and_execute env (cycles_left s'))"
        unfolding again_ok_def using cycles_rule [OF _ enough [OF that(1)] bounds] by blast
      then show ?thesis
        using execute_rule [OF that(2) [OF Some]] bounds by (simp add: Some bounds_ok_def)
    qed
    then show ?thesis
      unfolding sum.case prod.case
      by (intro publish_then hoare_bind [OF remaining_rule] hoare_if timed_out_rule timeout_rule)
  qed
  show ?thesis
  proof (cases "tn_tasks s = []")
    case True
    have "hoare (traced g) (bindE (save_team env s None (saving T_PLANNING)) (\<lambda>s'. ?go (Inr (s', None)))) (over g) (fails g)"
    proof (rule hoare_bind_pure [OF save_traced])
      fix s'
      assume sv: "saved s None (saving T_PLANNING) s'"
      show "completed_ok s'"
        using sv by (intro not_completed) (simp add: saved_def)
      show "hoare (stands g s') (?go (Inr (s', None))) (over g) (fails g)"
        by (rule go [where n = "tn_cycle s"]) (use sv in \<open>auto simp: at_cycle_def saved_def g\<close>)
    qed
    then show ?thesis
      by (simp add: resumed_run_def prepare_resume_def True bindE_assoc)
  next
    case False
    then obtain G0 ts0 where G0: "inv_at ts0 G0 {}" "tn_tasks s = graph_states G0"
      using s by blast
    obtain G where G: "from_snapshot s = Inr G" "task_at G = task_at G0" "inv_at (map spec (graph_states G0)) G {}"
      by (rule restore_inv [OF G0])
    have att: "ts_attempt y < gh_attempts g" if "task_at G k = Some y" for k y
    proof -
      have "y \<in> set (tn_tasks s)"
        using that G(2) G0(2) in_graph_states [of y G0] by auto
      then show ?thesis
        using bound_task by (simp add: g)
    qed
    have "hoare (traced g) (bindE (graphE (recover_inflight G)) (\<lambda>x.
      bindE (save_team env s (Some (snd x)) ((saving T_RUNNING)\<lparr>sv_cycle := Some (max (tn_cycle s) 1)\<rparr>)) (\<lambda>s'.
        bindE (if fst x \<noteq> [] then
          thenE (publish_team env TE_RESUMED s' [] [])
         (bindE (block_team env s' (snd x) TS_RECOVERY_REQUIRED
            (''interrupted tasks require host reconciliation: '' @ join '', '' (fst x))) (\<lambda>s''.
          returnE (Inl (team_result_of s''))))
        else returnE (Inr (s', Some (snd x)))) ?go))) (over g) (fails g)"
    proof (rule recover_rule [OF G(3) _ bounds att])
      fix ids G' s'
      assume fit: "fit g (max (tn_cycle s) 1) s' G'"
      have block: "hoare (stands g s') (bindE (thenE (publish_team env TE_RESUMED s' [] [])
         (bindE (block_team env s' G' TS_RECOVERY_REQUIRED e) (\<lambda>s''. returnE (Inl (team_result_of s''))))) ?go) (over g) (fails g)" for e
      proof (rule hoare_bind)
        show "hoare (stands g s') (thenE (publish_team env TE_RESUMED s' [] [])
           (bindE (block_team env s' G' TS_RECOVERY_REQUIRED e) (\<lambda>s''. returnE (Inl (team_result_of s'')))))
           (\<lambda>x st. \<exists>r. x = Inl r \<and> over g r st) (fails g)"
          by (rule publish_then, rule hoare_bind_pure [OF block_rule], rule hoare_return)
            (auto simp: ended_result saved_def dest: stands_traced)
        show "hoare (\<lambda>st. \<exists>r. x = Inl r \<and> over g r st) (?go x) (over g) (fails g)" for x
          by (auto simp: hoare_def returnE_def)
      qed
      have on: "hoare (stands g s') (bindE (returnE (Inr (s', Some G'))) ?go) (over g) (fails g)"
        unfolding bindE_returnE by (rule go [OF fit_cycle [OF fit]]) (use fit in simp)
      show "hoare (stands g s') (bindE (if fst (ids, G') \<noteq> [] then
          thenE (publish_team env TE_RESUMED s' [] [])
         (bindE (block_team env s' (snd (ids, G')) TS_RECOVERY_REQUIRED
            (''interrupted tasks require host reconciliation: '' @ join '', '' (fst (ids, G')))) (\<lambda>s''.
          returnE (Inl (team_result_of s''))))
        else returnE (Inr (s', Some (snd (ids, G'))))) ?go) (over g) (fails g)"
        using block on by simp
    qed (simp add: g)
    then show ?thesis
      by (simp only: resumed_run_def prepare_resume_def False G(1) if_False bindE_liftE bindE_assoc split_def)
  qed
qed

end

end
