(* ===== verification/TeamStores.thy ===== *)
theory TeamStores
  imports TeamTypes
begin

text \<open>
  The components that the repository brings for a local team: \<open>InMemoryTeamRepository\<close> of
  \<open>matterloop_agents/collaboration/stores.py\<close>, \<open>AgentDirectory\<close> of \<open>directory.py\<close>, \<open>LeastBusyScheduler\<close> of
  \<open>scheduler.py\<close> and the default components of \<open>defaults.py\<close>. The methods hold a lock (or run without
  an \<open>await\<close>), so each is one step. Numbers are left out of error messages.
\<close>

section \<open>The repository\<close>

text \<open>Snapshots are values of the model, so \<open>_isolate\<close> is the identity.\<close>

record team_repo =
  tp_snapshots :: "(string, team_snapshot) dict"
  tp_leases :: "(string, string) dict"

definition new_team_repo :: team_repo where
  "new_team_repo = \<lparr>tp_snapshots = [], tp_leases = []\<rparr>"

definition team_repo_create :: "team_snapshot \<Rightarrow> team_repo \<Rightarrow> (exn + unit) \<times> team_repo" where
  "team_repo_create s R =
     (if tn_version s \<noteq> 0 then (Inl (ValueError ''initial team snapshot version must be 0''), R)
      else if dict_has (tn_run_id s) (tp_snapshots R)
      then (Inl (Other ''TeamRunAlreadyExistsError'' (''team run already exists: '' @ tn_run_id s)), R)
      else (Inr (), R\<lparr>tp_snapshots := dict_set (tn_run_id s) s (tp_snapshots R)\<rparr>))"

definition team_repo_load :: "string \<Rightarrow> team_repo \<Rightarrow> exn + team_snapshot option" where
  "team_repo_load rid R =
     (if blank rid then Inl (ValueError ''run_id must not be empty'') else Inr (dict_get (tp_snapshots R) rid))"

definition team_repo_require :: "string \<Rightarrow> team_repo \<Rightarrow> exn + team_snapshot" where
  "team_repo_require rid R = (case team_repo_load rid R of
     Inl e \<Rightarrow> Inl e
   | Inr None \<Rightarrow> Inl (TeamRunNotFound (''team run not found: '' @ rid))
   | Inr (Some s) \<Rightarrow> Inr s)"

definition team_repo_save ::
  "datetime \<Rightarrow> team_snapshot \<Rightarrow> int \<Rightarrow> team_repo \<Rightarrow> (exn + team_snapshot) \<times> team_repo" where
  "team_repo_save now s expected R =
     (if expected < 0 then (Inl (ValueError ''expected_version must not be negative''), R)
      else if tn_version s \<noteq> expected then (Inl (ValueError ''snapshot version must match expected_version''), R)
      else case dict_get (tp_snapshots R) (tn_run_id s) of
        None \<Rightarrow> (Inl (TeamRunNotFound (''team run not found: '' @ tn_run_id s)), R)
      | Some current \<Rightarrow>
          if tn_version current \<noteq> expected
          then (Inl (TeamStateConflict (''team snapshot version conflict: run_id='' @ tn_run_id s)), R)
          else (let saved = s\<lparr>tn_version := expected + 1, tn_created := tn_created current, tn_updated := now\<rparr> in
            (Inr saved, R\<lparr>tp_snapshots := dict_set (tn_run_id s) saved (tp_snapshots R)\<rparr>)))"

text \<open>\<open>list\<close>; the creation times are aware, so that they can be compared.\<close>

definition team_repo_list :: "team_status option \<Rightarrow> int \<Rightarrow> int \<Rightarrow> team_repo \<Rightarrow> exn + team_snapshot list" where
  "team_repo_list wanted limit offset R =
     (if limit < 1 then Inl (ValueError ''limit must be at least 1'')
      else if offset < 0 then Inl (ValueError ''offset must not be negative'')
      else Inr (take (nat limit) (drop (nat offset)
        (sort_key (\<lambda>s. (instant (tn_created s), tn_run_id s))
          (filter (\<lambda>s. case wanted of None \<Rightarrow> True | Some x \<Rightarrow> tn_status s = x) (dict_values (tp_snapshots R)))))))"

definition team_repo_claim :: "string \<Rightarrow> string \<Rightarrow> team_repo \<Rightarrow> (exn + bool) \<times> team_repo" where
  "team_repo_claim rid owner R =
     (if blank owner then (Inl (ValueError ''owner_id must not be empty''), R)
      else if \<not> dict_has rid (tp_snapshots R) then (Inl (TeamRunNotFound (''team run not found: '' @ rid)), R)
      else if dict_has rid (tp_leases R) then (Inr False, R)
      else (Inr True, R\<lparr>tp_leases := dict_set rid owner (tp_leases R)\<rparr>))"

definition team_repo_unclaim :: "string \<Rightarrow> string \<Rightarrow> team_repo \<Rightarrow> team_repo" where
  "team_repo_unclaim rid owner R =
     (if dict_get (tp_leases R) rid = Some owner then R\<lparr>tp_leases := dict_del rid (tp_leases R)\<rparr> else R)"

section \<open>The scheduler\<close>

text \<open>\<open>LeastBusyScheduler.select\<close>: the first candidate with a negative count is refused before any choice.\<close>

definition busy :: "(string, int) dict \<Rightarrow> agent_spec \<Rightarrow> int" where
  "busy counts a = (case dict_get counts (agent_id a) of None \<Rightarrow> 0 | Some n \<Rightarrow> n)"

definition capable :: "task_spec \<Rightarrow> agent_spec \<Rightarrow> bool" where
  "capable t a \<longleftrightarrow> capability t \<in> capabilities a"

definition least_busy :: "task_spec \<Rightarrow> agent_spec list \<Rightarrow> (string, int) dict \<Rightarrow> exn + string" where
  "least_busy t cs counts = (case find (\<lambda>a. busy counts a < 0) cs of
       Some a \<Rightarrow> Inl (ValueError (''active count must not be negative: '' @ agent_id a))
     | None \<Rightarrow>
         if filter (capable t) cs = []
         then Inl (Other ''NoCapableAgentError'' (''no agent has capability '' @ repr_text (capability t)
                     @ '' for task: '' @ task_id t))
         else (case sort_key (\<lambda>a. (busy counts a, agent_id a))
                  (filter (\<lambda>a. busy counts a < agent_concurrency a) (filter (capable t) cs)) of
             [] \<Rightarrow> Inl (Other ''AgentCapacityError'' (''all capable agents are at capacity for task: '' @ task_id t))
           | a # _ \<Rightarrow> Inr (agent_id a)))"

section \<open>The directory\<close>

text \<open>
  A slot is a mutable object that leases refer to; \<open>sl_ident\<close> is its identity. An endpoint is a
  number.
\<close>

record agent_slot =
  sl_spec :: agent_spec
  sl_endpoint :: nat
  active_count :: int
  generation :: int
  registered :: bool
  sl_ident :: nat

record directory =
  dir_slots :: "(string, agent_slot) dict"
  dir_next :: nat

definition new_directory :: directory where
  "new_directory = \<lparr>dir_slots = [], dir_next = 0\<rparr>"

definition replace_slot :: "agent_spec \<Rightarrow> nat \<Rightarrow> agent_slot \<Rightarrow> agent_slot" where
  "replace_slot a ep sl = sl\<lparr>sl_spec := a, sl_endpoint := ep, generation := generation sl + 1\<rparr>"

definition put_slot :: "string \<Rightarrow> agent_slot \<Rightarrow> directory \<Rightarrow> directory" where
  "put_slot k sl D = D\<lparr>dir_slots := dict_set k sl (dir_slots D)\<rparr>"

definition drop_slot :: "string \<Rightarrow> directory \<Rightarrow> directory" where
  "drop_slot k D = D\<lparr>dir_slots := dict_del k (dir_slots D)\<rparr>"

definition dir_register :: "agent_spec \<Rightarrow> nat \<Rightarrow> bool \<Rightarrow> directory \<Rightarrow> (exn + unit) \<times> directory" where
  "dir_register a ep replace D = (case dict_get (dir_slots D) (agent_id a) of
       None \<Rightarrow> (Inr (), put_slot (agent_id a) \<lparr>sl_spec = a, sl_endpoint = ep, active_count = 0, generation = 0,
         registered = True, sl_ident = dir_next D\<rparr> (D\<lparr>dir_next := dir_next D + 1\<rparr>))
     | Some sl \<Rightarrow>
         if \<not> registered sl then (Inr (), put_slot (agent_id a) ((replace_slot a ep sl)\<lparr>registered := True\<rparr>) D)
         else if \<not> replace
         then (Inl (Other ''AgentAlreadyRegisteredError'' (''agent is already registered: '' @ agent_id a)), D)
         else (Inr (), put_slot (agent_id a) (replace_slot a ep sl) D))"

abbreviation AgentNotFound :: "string \<Rightarrow> exn" where
  "AgentNotFound \<equiv> Other ''AgentNotFoundError''"

definition dir_replace :: "string \<Rightarrow> agent_spec \<Rightarrow> nat \<Rightarrow> directory \<Rightarrow> (exn + unit) \<times> directory" where
  "dir_replace k a ep D =
     (if agent_id a \<noteq> k
      then (Inl (ValueError ''replacement endpoint agent_id must match directory agent_id''), D)
      else case dict_get (dir_slots D) k of
        None \<Rightarrow> (Inl (AgentNotFound (''agent is not registered: '' @ k)), D)
      | Some sl \<Rightarrow>
          if \<not> registered sl then (Inl (AgentNotFound (''agent is not registered: '' @ k)), D)
          else (Inr (), put_slot k (replace_slot a ep sl) D))"

definition dir_unregister :: "string \<Rightarrow> directory \<Rightarrow> (exn + unit) \<times> directory" where
  "dir_unregister k D = (case dict_get (dir_slots D) k of
       None \<Rightarrow> (Inl (AgentNotFound (''agent is not registered: '' @ k)), D)
     | Some sl \<Rightarrow>
         if \<not> registered sl then (Inl (AgentNotFound (''agent is not registered: '' @ k)), D)
         else if active_count sl = 0 then (Inr (), drop_slot k D)
         else (Inr (), put_slot k (sl\<lparr>registered := False, generation := generation sl + 1\<rparr>) D))"

definition dir_view :: "directory \<Rightarrow> (string \<times> agent_slot) list" where
  "dir_view D = map (\<lambda>k. (k, the (dict_get (dir_slots D) k)))
     (sort (filter (\<lambda>k. case dict_get (dir_slots D) k of None \<Rightarrow> False | Some sl \<Rightarrow> registered sl) (dict_keys (dir_slots D))))"

definition dir_candidates :: "directory \<Rightarrow> agent_spec list" where
  "dir_candidates D = map (\<lambda>(k, sl). sl_spec sl) (dir_view D)"

text \<open>
  \<open>acquire\<close>: one turn takes a view, lets the policy choose outside the lock, and takes the slot when
  it is still the same one of the same generation with room. The list holds what others do to the
  directory while the policy of each turn runs; \<open>FuelOut\<close> marks that every turn was disturbed.
\<close>

type_synonym policy = "task_spec \<Rightarrow> agent_spec list \<Rightarrow> (string, int) dict \<Rightarrow> exn + string"

definition dir_select :: "policy \<Rightarrow> task_spec \<Rightarrow> directory \<Rightarrow> exn + string \<times> agent_slot" where
  "dir_select pol t D =
     (case pol t (dir_candidates D) (map (\<lambda>(k, sl). (k, active_count sl)) (dir_view D)) of
        Inl e \<Rightarrow> Inl e
      | Inr k \<Rightarrow> (case dict_get (dir_view D) k of
          None \<Rightarrow> Inl (AgentNotFound (''selection policy returned an unknown agent: '' @ k))
        | Some sl \<Rightarrow>
            if active_count sl \<ge> agent_concurrency (sl_spec sl)
            then Inl (Other ''AgentCapacityError'' (''selection policy returned an agent at capacity: '' @ k))
            else Inr (k, sl)))"

definition dir_take :: "string \<Rightarrow> agent_slot \<Rightarrow> directory \<Rightarrow> (agent_lease \<times> directory) option" where
  "dir_take k seen D = (case dict_get (dir_slots D) k of
       None \<Rightarrow> None
     | Some sl \<Rightarrow>
         if sl_ident sl \<noteq> sl_ident seen \<or> generation sl \<noteq> generation seen then None
         else if active_count sl \<ge> agent_concurrency (sl_spec sl) then None
         else Some (\<lparr>al_agent = sl_spec sl, al_endpoint = sl_endpoint sl, al_slot = sl_ident sl\<rparr>,
                    put_slot k (sl\<lparr>active_count := active_count sl + 1\<rparr>) D))"

fun dir_acquire ::
  "policy \<Rightarrow> task_spec \<Rightarrow> (directory \<Rightarrow> directory) list \<Rightarrow> directory \<Rightarrow> (exn + agent_lease) \<times> directory" where
  "dir_acquire pol t [] D = (Inl FuelOut, D)"
| "dir_acquire pol t (others # turns) D =
     (if dir_view D = []
      then (Inl (Other ''NoCapableAgentError'' (''no agents are registered for task: '' @ task_id t)), D)
      else case dir_select pol t D of
        Inl e \<Rightarrow> (Inl e, others D)
      | Inr (k, seen) \<Rightarrow> (case dir_take k seen (others D) of
          Some (lease, D') \<Rightarrow> (Inr lease, D')
        | None \<Rightarrow> dir_acquire pol t turns (others D)))"

text \<open>
  The exit of \<open>acquire\<close>. The slot of a lease stays in the directory until its count is zero, so a
  slot that is not found has no other trace.
\<close>

definition dir_release :: "agent_lease \<Rightarrow> directory \<Rightarrow> (exn + unit) \<times> directory" where
  "dir_release lease D = (case find (\<lambda>(k, sl). sl_ident sl = al_slot lease) (dir_slots D) of
       None \<Rightarrow> (Inr (), D)
     | Some (k, sl) \<Rightarrow>
         if active_count sl \<le> 0
         then (Inl (Other ''RuntimeError'' ''agent lease capacity counter is inconsistent''), D)
         else if \<not> registered sl \<and> active_count sl - 1 = 0 then (Inr (), drop_slot k D)
         else (Inr (), put_slot k (sl\<lparr>active_count := active_count sl - 1\<rparr>) D))"

section \<open>Default components\<close>

definition result_success_verify :: "task_result \<Rightarrow> exn + task_verification" where
  "result_success_verify r = new_TaskVerification \<lparr>tv_passed = tr_success r, tv_feedback = tr_error r,
     tv_score = Some (Fin (if tr_success r then 100 else 0)), tv_evidence = [], tv_failed = []\<rparr>"

definition always_approve :: approval_decision where
  "always_approve = APPROVED"

definition accept_all_review :: "exn + team_review" where
  "accept_all_review = new_TeamReview \<lparr>rv_action = RV_ACCEPT, rv_feedback = [], rv_score = Some (Fin 100),
     rv_evidence = [], rv_failed = [], rv_interaction = None\<rparr>"

definition concatenate_results :: "string \<Rightarrow> task_result list \<Rightarrow> string" where
  "concatenate_results sep rs = join sep (filter (\<lambda>x. x \<noteq> []) (map tr_output rs))"

definition new_StaticTeamPlanner :: "task_spec list \<Rightarrow> exn + task_spec list" where
  "new_StaticTeamPlanner ts = (if ts = [] then Inl (ValueError ''tasks must not be empty'') else Inr ts)"

end
