(* ===== verification/LocalTeam.thy ===== *)
theory LocalTeam
  imports TeamTrace TeamStores TeamSaving
begin

text \<open>
  A local team: the controller on the in-memory repository, the agent directory with the least-busy
  scheduler, and the default components. The plan, the clock, the identifiers and what an agent
  answers are parameters; an agent answers a task with an error text or a result.
\<close>

record local_config =
  lc_plan :: "task_spec list"
  lc_clock :: "nat \<Rightarrow> datetime"
  lc_names :: "nat \<Rightarrow> string"
  lc_agents :: "nat \<Rightarrow> agent_context \<Rightarrow> string + task_result"

record local_world =
  lw_repo :: team_repo
  lw_dir :: directory
  lw_events :: "team_event list"
  lw_ticks :: nat

definition local_now :: "local_config \<Rightarrow> local_world \<Rightarrow> datetime \<times> local_world" where
  "local_now cfg w = (lc_clock cfg (lw_ticks w), w\<lparr>lw_ticks := lw_ticks w + 1\<rparr>)"

definition local_uuid :: "local_config \<Rightarrow> local_world \<Rightarrow> string \<times> local_world" where
  "local_uuid cfg w = (lc_names cfg (lw_ticks w), w\<lparr>lw_ticks := lw_ticks w + 1\<rparr>)"

definition on_repo :: "(team_repo \<Rightarrow> 'a \<times> team_repo) \<Rightarrow> local_world \<Rightarrow> 'a \<times> local_world" where
  "on_repo f w = (case f (lw_repo w) of (r, R) \<Rightarrow> (r, w\<lparr>lw_repo := R\<rparr>))"

definition on_dir :: "(directory \<Rightarrow> 'a \<times> directory) \<Rightarrow> local_world \<Rightarrow> 'a \<times> local_world" where
  "on_dir f w = (case f (lw_dir w) of (r, D) \<Rightarrow> (r, w\<lparr>lw_dir := D\<rparr>))"

definition local_save ::
  "local_config \<Rightarrow> team_snapshot \<Rightarrow> int \<Rightarrow> local_world \<Rightarrow> (exn + team_snapshot) \<times> local_world" where
  "local_save cfg s v w = (case local_now cfg w of (now, w') \<Rightarrow> on_repo (team_repo_save now s v) w')"

definition local_env :: "local_config \<Rightarrow> local_world team_env" where
  "local_env cfg = \<lparr>owner_id = ''local'', c_now = local_now cfg, c_mono = (\<lambda>w. (of_nat (lw_ticks w), w)),
     c_uuid = local_uuid cfg, c_cancels = (\<lambda>w. ([], w)), c_overdue = (\<lambda>_ w. (False, w)),
     c_create = (\<lambda>s. on_repo (team_repo_create s)), c_load = (\<lambda>rid w. (team_repo_load rid (lw_repo w), w)),
     c_save = local_save cfg,
     c_claim = (\<lambda>rid owner. on_repo (team_repo_claim rid owner)),
     c_unclaim = (\<lambda>rid owner. on_repo (\<lambda>R. (Inr (), team_repo_unclaim rid owner R))),
     c_publish = (\<lambda>e w. (Inr (), w\<lparr>lw_events := lw_events w @ [e]\<rparr>)), c_observe = None, c_prepare = None,
     c_candidates = (\<lambda>w. (dir_candidates (lw_dir w), w)),
     c_plan = (\<lambda>_ w. (Inr (lc_plan cfg), w)),
     c_acquire = (\<lambda>t. on_dir (dir_acquire least_busy t [id])),
     c_release = (\<lambda>a. on_dir (dir_release a)),
     c_invoke = (\<lambda>a c w. (case lc_agents cfg (al_endpoint a) c of
        Inl msg \<Rightarrow> Inl (Other ''RuntimeError'' msg) | Inr r \<Rightarrow> Inr r, w)),
     c_verify = (\<lambda>_ r w. (result_success_verify r, w)),
     c_gate = (\<lambda>_ w. (Inr always_approve, w)),
     c_aggregate = (\<lambda>_ rs w. (Inr (concatenate_results [CHR 0x0A, CHR 0x0A] rs), w)),
     c_review = Some (\<lambda>_ w. (accept_all_review, w))\<rparr>"

section \<open>The contract\<close>

lemma find_registered: "dict_get (dir_view D) k = Some sl \<Longrightarrow> dict_get (dir_slots D) k = Some sl \<and> registered sl"
proof -
  assume "dict_get (dir_view D) k = Some sl"
  then have "(k, sl) \<in> set (dir_view D)"
    by (rule map_of_SomeD)
  then have "sl = the (dict_get (dir_slots D) k)"
    and "case dict_get (dir_slots D) k of None \<Rightarrow> False | Some sl \<Rightarrow> registered sl"
    by (auto simp: dir_view_def)
  then show ?thesis
    by (auto split: option.splits)
qed

lemma least_busy_err: "least_busy t cs counts \<noteq> Inl FuelOut"
  by (auto simp: least_busy_def Let_def split: option.splits list.splits)

lemma select_err: "dir_select least_busy t D \<noteq> Inl FuelOut"
  using least_busy_err [of t "dir_candidates D"] by (auto simp: dir_select_def split: sum.splits option.splits)

text \<open>Undisturbed, the first turn decides.\<close>

lemma take_selected:
  assumes "dir_select pol t D = Inr (k, seen)"
  shows "dir_take k seen D \<noteq> None"
proof -
  have "dict_get (dir_view D) k = Some seen" and "active_count seen < agent_concurrency (sl_spec seen)"
    using assms by (auto simp: dir_select_def split: sum.splits option.splits if_splits)
  then show ?thesis
    using find_registered by (auto simp: dir_take_def)
qed

lemma acquire_err: "fst (dir_acquire least_busy t [id] D) \<noteq> Inl FuelOut"
proof (cases "dir_select least_busy t D")
  case (Inl e)
  then show ?thesis
    using select_err [of t D] by auto
next
  case (Inr x)
  obtain k seen where x: "x = (k, seen)"
    by fastforce
  obtain lease D' where "dir_take k seen D = Some (lease, D')"
    using take_selected [OF Inr [unfolded x]] by auto
  then show ?thesis
    by (simp add: Inr x)
qed

lemma release_err: "fst (dir_release a D) \<noteq> Inl FuelOut"
  by (auto simp: dir_release_def split: option.splits)

lemma load_err: "team_repo_load rid R \<noteq> Inl FuelOut"
  by (simp add: team_repo_load_def)

lemma create_err: "fst (team_repo_create s R) \<noteq> Inl FuelOut"
  by (simp add: team_repo_create_def)

lemma claim_err: "fst (team_repo_claim rid owner R) \<noteq> Inl FuelOut"
  by (simp add: team_repo_claim_def)

lemma never_pure: "(\<And>w. r w \<noteq> Inl FuelOut) \<Longrightarrow> never (\<lambda>w. (r w, f w))"
  by (simp add: never_def)

lemma save_err: "fst (team_repo_save now s v R) \<noteq> Inl FuelOut"
  by (auto simp: team_repo_save_def Let_def split: option.splits)

lemma save_same:
  "team_repo_save now s v R = (Inr s', R') \<Longrightarrow>
     s'\<lparr>tn_version := tn_version s, tn_created := tn_created s, tn_updated := tn_updated s\<rparr> = s"
  by (auto simp: team_repo_save_def Let_def split: option.splits if_splits)

lemma on_repo_never: "(\<And>R. fst (f R) \<noteq> Inl FuelOut) \<Longrightarrow> never (on_repo f)"
  by (auto simp: never_def on_repo_def split: prod.split) (metis fst_conv)

lemma on_dir_never: "(\<And>D. fst (f D) \<noteq> Inl FuelOut) \<Longrightarrow> never (on_dir f)"
  by (auto simp: never_def on_dir_def split: prod.split) (metis fst_conv)

lemma verify_err: "result_success_verify r \<noteq> Inl FuelOut"
  by (auto simp: result_success_verify_def new_TaskVerification_def require_def split: if_splits)

lemma review_err: "accept_all_review \<noteq> Inl FuelOut"
  by (auto simp: accept_all_review_def new_TeamReview_def require_def split: if_splits)

interpretation local: team_components "local_env cfg" for cfg
proof (unfold_locales, goal_cases)
  case (1 s v w s' w')
  then show ?case
    by (auto simp: local_env_def local_save_def on_repo_def split: prod.splits dest: save_same)
next
  case (4 s v)
  show ?case
    using save_err by (auto simp: local_env_def local_save_def never_def on_repo_def split: prod.split) (metis fst_conv)
qed (auto simp: local_env_def simp del: dir_acquire.simps intro!: on_repo_never on_dir_never create_err claim_err load_err
    acquire_err release_err never_pure verify_err review_err split: sum.splits)

end
