(* ===== verification/TeamProperties.thy ===== *)
theory TeamProperties
  imports TeamResults LocalTeam
begin

text \<open>
  What a call of the team controller guarantees, whatever its components answer: it ends, agents
  are called behind the stored state, within the limits of the run, and a run is completed only on
  evidence. The conditions on the trace of \<open>TeamTrace\<close> are unfolded in the statements. The witnesses
  run the local team on one task.
\<close>

section \<open>Calls\<close>

datatype team_call = RunTeam team_request "string option" | ResumeTeam string

fun call_team :: "'w team_env \<Rightarrow> team_call \<Rightarrow> ('w, team_result) team" where
  "call_team env (RunTeam r rid) = run_team env r rid"
| "call_team env (ResumeTeam rid) = resume_team env rid"

text \<open>
  The limits of a request are validated; a snapshot that the repository holds has no tasks or the
  states of a graph that operations of \<open>TaskGraph\<close> have reached.
\<close>

fun call_ready :: "'w team_env \<Rightarrow> team_call \<Rightarrow> 'w team_state \<Rightarrow> bool" where
  "call_ready env (RunTeam r rid) st \<longleftrightarrow> new_TeamLimits (tq_limits r) = Inr (tq_limits r)"
| "call_ready env (ResumeTeam rid) st \<longleftrightarrow> (case fst (c_load env rid (team_world st)) of
     Inr (Some s) \<Rightarrow> resumable s | _ \<Rightarrow> True)"

fun call_bounds :: "'w team_env \<Rightarrow> team_call \<Rightarrow> 'w team_state \<Rightarrow> int \<times> int" where
  "call_bounds env (RunTeam r rid) st = (max_task_attempts (tq_limits r), tl_max_cycles (tq_limits r))"
| "call_bounds env (ResumeTeam rid) st = (case fst (c_load env rid (team_world st)) of
     Inr (Some s) \<Rightarrow> (attempt_bound s, tl_max_cycles (tq_limits (tn_request s))) | _ \<Rightarrow> (0, 0))"

definition settled_result :: "team_result \<Rightarrow> bool" where
  "settled_result r \<longleftrightarrow> tx_status r \<in> {T_COMPLETED, T_FAILED, T_CANCELLED, T_TIMED_OUT, T_BLOCKED, T_PAUSED}
     \<or> tx_interaction r \<noteq> None"

lemma valid_limits: "new_TeamLimits l = Inr l \<Longrightarrow> 1 \<le> max_task_attempts l"
  by (auto simp: new_TeamLimits_def require_def split: if_splits)

text \<open>The guarantee of both calls.\<close>

definition good_outcome :: "'w team_env \<Rightarrow> team_call \<Rightarrow> 'w team_state \<Rightarrow> (exn + team_result) \<times> 'w team_state \<Rightarrow> bool" where
  "good_outcome env call st res \<longleftrightarrow> (case res of (out, st') \<Rightarrow>
     (\<exists>new. team_trace st' = team_trace st @ new
        \<and> trace_ok (fst (call_bounds env call st)) (snd (call_bounds env call st)) None new)
     \<and> (case out of Inl e \<Rightarrow> e \<noteq> FuelOut | Inr r \<Rightarrow> settled_result r))"

lemma good_outcomeI:
  assumes "hoare (traced g) m (\<lambda>r st. settled_result r \<and> traced g st) (fails g)" and "traced g st0"
    and "g = ghost_of (team_trace st) (fst (call_bounds env call st)) (snd (call_bounds env call st)) q"
  shows "good_outcome env call st (m st0)"
proof -
  obtain out st' where m: "m st0 = (out, st')"
    by fastforce
  have "case out of Inl e \<Rightarrow> fails g e st' | Inr r \<Rightarrow> settled_result r \<and> traced g st'"
    using assms(1,2) m by (auto simp: hoare_def split: sum.splits)
  then show ?thesis
    by (auto simp: m good_outcome_def fails_def traced_def assms(3) split: sum.splits)
qed

lemma ended_settled: "ended r \<Longrightarrow> settled_result r"
  by (simp add: ended_def settled_result_def)

context team_components begin

lemma run_good:
  assumes "call_ready env (RunTeam r rid) st"
  shows "good_outcome env (RunTeam r rid) st (run_team env r rid st)"
proof -
  let ?g = "ghost_of (team_trace st) (max_task_attempts (tq_limits r)) (tl_max_cycles (tq_limits r)) r"
  have "hoare (traced ?g) (run_team env r rid) (over ?g) (fails ?g)"
    using assms by (intro run_rule [OF valid_limits refl]) simp
  then have "hoare (traced ?g) (run_team env r rid) (\<lambda>r st. settled_result r \<and> traced ?g st) (fails ?g)"
    by (rule hoare_post) (auto intro: ended_settled)
  then show ?thesis
    by (rule good_outcomeI [OF _ traced_start]) simp
qed

lemma resume_good:
  assumes ready: "call_ready env (ResumeTeam rid) st"
  shows "good_outcome env (ResumeTeam rid) st (resume_team env rid st)"
proof -
  obtain r w where load: "c_load env rid (team_world st) = (r, w)"
    by fastforce
  let ?st = "st\<lparr>team_world := w\<rparr>"
  have err: "good_outcome env (ResumeTeam rid) st (Inl e, ?st)" if "e \<noteq> FuelOut" for e
    using that by (auto simp: good_outcome_def)
  show ?thesis
  proof (cases r)
    case (Inl e)
    then have "e \<noteq> FuelOut"
      using never_load [of rid] load by (metis fst_conv never_def)
    then show ?thesis
      by (simp add: resume_team_def require_run_def bindE_def doE_def load Inl err)
  next
    case (Inr x)
    show ?thesis
    proof (cases x)
      case None
      then show ?thesis
        by (simp add: resume_team_def require_run_def bindE_def doE_def load Inr raiseE_def err)
    next
      case (Some s)
      let ?g = "ghost_of (team_trace st) (attempt_bound s) (tl_max_cycles (tq_limits (tn_request s))) (tn_request s)"
      let ?m = "if team_is_terminal (tn_status s) then returnE (team_result_of s)
        else if tn_status s = T_BLOCKED \<and> tn_stop_reason s = Some TS_HUMAN_REJECTED then returnE (team_result_of s)
        else if tn_interaction s \<noteq> None then returnE (team_result_of s)
        else if tn_status s \<notin> set resumable_statuses
        then raiseE (TeamExecution ''team run cannot resume from this status'')
        else thenE (claim_run env rid) (guarded_run env rid (resumed_run env rid s))"
      have run: "resume_team env rid st = ?m ?st"
        by (simp add: resume_team_def require_run_def bindE_def doE_def load Inr Some returnE_def)
      have "resumable s"
        using ready by (simp add: load Inr Some)
      then have s: "tn_tasks s = [] \<or> (\<exists>G ts. inv_at ts G {} \<and> tn_tasks s = graph_states G)"
        using graph_run_inv by (auto simp: resumable_def)
      have go: "hoare (traced ?g) (thenE (claim_run env rid) (guarded_run env rid (resumed_run env rid s)))
          (\<lambda>r st. settled_result r \<and> traced ?g st) (fails ?g)"
        by (rule hoare_then [OF claim_traced hoare_post [OF guarded_rule [OF resumed_rule [OF s refl]]]]) (simp_all add: ended_settled)
      have "hoare (traced ?g) ?m (\<lambda>r st. settled_result r \<and> traced ?g st) (fails ?g)"
        by (intro hoare_if go hoare_return hoare_raise)
          (auto simp: settled_result_def team_result_of_def team_is_terminal_def fails_def)
      then show ?thesis
        unfolding run by (rule good_outcomeI) (simp_all add: traced_start load Inr Some)
    qed
  qed
qed

lemma call_good: "call_ready env call st \<Longrightarrow> good_outcome env call st (call_team env call st)"
  by (cases call) (simp_all add: run_good resume_good del: call_ready.simps)

end

section \<open>Conditions on the actions of a call\<close>

text \<open>
  A condition relates an action to the snapshot that the call has stored last before it.
\<close>

fun every_action :: "(team_snapshot option \<Rightarrow> team_action \<Rightarrow> bool) \<Rightarrow> team_snapshot option \<Rightarrow> team_action list \<Rightarrow> bool" where
  "every_action P cur [] \<longleftrightarrow> True"
| "every_action P cur (a # as) \<longleftrightarrow> P cur a \<and> every_action P (after cur a) as"

definition actions_of :: "'w team_state \<Rightarrow> 'w team_state \<Rightarrow> (team_snapshot option \<Rightarrow> team_action \<Rightarrow> bool) \<Rightarrow> bool" where
  "actions_of st st' P \<longleftrightarrow> (\<exists>new. team_trace st' = team_trace st @ new \<and> every_action P None new)"

text \<open>Agents, verifiers and approval gates are called behind the stored state.\<close>

fun written_ahead :: "team_snapshot option \<Rightarrow> team_action \<Rightarrow> bool" where
  "written_ahead cur (Invoked c) \<longleftrightarrow>
     holds_task cur (\<lambda>t. spec t = ac_task c \<and> ts_status t = RUNNING \<and> ts_attempt t = ac_attempt c
       \<and> assigned_agent t = Some (ac_agent c) \<and> (task_approval (spec t) \<longrightarrow> approval_granted t))
     \<and> list_all (\<lambda>d. holds_task cur (\<lambda>t. task_id (spec t) = d \<and> ts_status t = SUCCEEDED)) (dependencies (ac_task c))"
| "written_ahead cur (Checked c r) \<longleftrightarrow> holds_task cur (\<lambda>t. spec t = ac_task c \<and> ts_status t = CHECKING \<and> ts_result t = Some r)"
| "written_ahead cur (Gated c) \<longleftrightarrow> holds_task cur (\<lambda>t. spec t = ac_task c \<and> ts_status t = WAITING \<and> \<not> approval_granted t)"
| "written_ahead cur _ \<longleftrightarrow> True"

fun within_limits :: "int \<Rightarrow> int \<Rightarrow> team_snapshot option \<Rightarrow> team_action \<Rightarrow> bool" where
  "within_limits l c cur (Invoked x) \<longleftrightarrow> ac_attempt x \<le> l"
| "within_limits l c cur (Planned p) \<longleftrightarrow> pc_cycle p \<le> c \<and> map_option tn_cycle cur = Some (pc_cycle p - 1)"
| "within_limits l c cur _ \<longleftrightarrow> True"

fun on_evidence :: "team_snapshot option \<Rightarrow> team_action \<Rightarrow> bool" where
  "on_evidence cur (Stored s) \<longleftrightarrow> completed_ok s"
| "on_evidence cur Aggregated \<longleftrightarrow> all_tasks cur succeeded"
| "on_evidence cur (Reviewed v) \<longleftrightarrow> all_tasks cur succeeded"
| "on_evidence cur _ \<longleftrightarrow> True"

fun truthful :: "team_snapshot option \<Rightarrow> team_action \<Rightarrow> bool" where
  "truthful cur (Announced e) \<longleftrightarrow> cur = Some (te_snapshot e)"
| "truthful cur _ \<longleftrightarrow> True"

lemma trace_every: "trace_ok l c cur as \<Longrightarrow> (\<And>cur a. action_ok l c cur a \<Longrightarrow> P cur a) \<Longrightarrow> every_action P cur as"
  by (induction as arbitrary: cur) auto

lemma good_actions:
  assumes "team_components env" and "call_ready env call st" and "call_team env call st = (out, st')"
    and "\<And>cur a. action_ok (fst (call_bounds env call st)) (snd (call_bounds env call st)) cur a \<Longrightarrow> P cur a"
  shows "actions_of st st' P"
proof -
  have "good_outcome env call st (out, st')"
    using team_components.call_good [OF assms(1,2)] by (simp add: assms(3))
  then show ?thesis
    using trace_every [OF _ assms(4)] by (auto simp: good_outcome_def actions_of_def)
qed

lemma action_cases:
  assumes "action_ok l c cur a"
  shows "written_ahead cur a" and "within_limits l c cur a" and "on_evidence cur a" and "truthful cur a"
  using assms by (cases a; simp add: dispatched_def)+

section \<open>Properties\<close>


text \<open>
  C28. Write-ahead: an agent is called only when the snapshot stored last shows the task as running, in
  this attempt, by this agent, approved if it has to be, with every dependency succeeded. A verifier
  sees only results that are stored with the task under verification, and an approval gate only
  tasks stored as waiting.
\<close>
theorem team_calls_written_ahead:
  assumes "team_components env" and "call_ready env call st" and "call_team env call st = (out, st')"
  shows "actions_of st st' written_ahead"
  by (rule good_actions [OF assms]) (rule action_cases)


text \<open>
  C30. Completion rests on evidence: a snapshot is stored as \<open>COMPLETED\<close> only when it has tasks and each
  succeeded, with a successful result of the assigned agent in the current attempt and a passed
  verification, and its last cycle record archives these tasks and the output with an accepting
  review. Results are aggregated and reviewed only when every stored task has succeeded.
\<close>
theorem team_completion_has_evidence:
  assumes "team_components env" and "call_ready env call st" and "call_team env call st = (out, st')"
  shows "actions_of st st' on_evidence"
  by (rule good_actions [OF assms]) (rule action_cases)

text \<open>
  Events tell what is stored: every event that a call publishes carries the snapshot that the call
  has created or saved last.
\<close>
theorem team_events_carry_stored_state:
  assumes "team_components env" and "call_ready env call st" and "call_team env call st = (out, st')"
  shows "actions_of st st' truthful"
  by (rule good_actions [OF assms]) (rule action_cases)

section \<open>A local run\<close>

definition demo_clock :: datetime where
  "demo_clock = \<lparr>dt_year = 2026, dt_month = 1, dt_day = 1, dt_hour = 0, dt_minute = 0, dt_second = 0,
     dt_microsecond = 0, dt_offset = Some 0\<rparr>"

definition demo_work :: "string \<Rightarrow> string list \<Rightarrow> bool \<Rightarrow> task_spec" where
  "demo_work i deps approval = \<lparr>task_id = i, task_description = i, capability = ''write'', dependencies = deps,
     task_criteria = [], task_approval = approval, priority = 0, task_metadata = [], replay_safe = False\<rparr>"

definition demo_agent :: agent_spec where
  "demo_agent = \<lparr>agent_id = ''w'', capabilities = {''write''}, agent_concurrency = 1, agent_version = ''1'',
     agent_description = [], agent_role = [], agent_metadata = []\<rparr>"

text \<open>The agent fails at its first attempt of a task and succeeds at the second one.\<close>

definition demo_config :: local_config where
  "demo_config = \<lparr>lc_plan = [demo_work ''a'' [] False, demo_work ''b'' [''a''] True], lc_clock = (\<lambda>_. demo_clock),
     lc_names = (\<lambda>_. ''r''), lc_agents = (\<lambda>_ c. if ac_attempt c = 1 then Inl ''not yet'' else
       Inr \<lparr>tr_task = task_id (ac_task c), tr_agent = ac_agent c, tr_success = True, tr_output = ''text'',
         tr_artifacts = [], tr_error = [], tr_attempt = ac_attempt c, tr_metadata = []\<rparr>)\<rparr>"

definition demo_team_request :: team_request where
  "demo_team_request = \<lparr>tq_goal = ''g'', tq_criteria = [], tq_limits = \<lparr>max_tasks = 10, max_concurrency = 2,
     max_task_attempts = 2, tl_max_cycles = 2, max_plan_revisions = 1, tl_timeout_seconds = None\<rparr>, tq_metadata = []\<rparr>"

definition demo_world :: local_world where
  "demo_world = \<lparr>lw_repo = new_team_repo, lw_dir = snd (dir_register demo_agent 0 False new_directory),
     lw_events = [], lw_ticks = 0\<rparr>"

definition demo_team_state :: "local_world team_state" where
  "demo_team_state = \<lparr>team_world = demo_world, active_runs = {}, cancel_requested = {}, leases = [], team_trace = []\<rparr>"

definition demo_call :: team_call where
  "demo_call = RunTeam demo_team_request (Some ''r'')"

definition team_demo :: "(exn + team_result) \<times> local_world team_state" where
  "team_demo = call_team (local_env demo_config) demo_call demo_team_state"

lemma team_demo_ready: "call_ready (local_env demo_config) demo_call demo_team_state"
  by (simp add: demo_call_def demo_team_request_def new_TeamLimits_def require_def)

lemma team_demo_runs: "call_team (local_env demo_config) demo_call demo_team_state = (fst team_demo, snd team_demo)"
  by (simp add: team_demo_def)


theorem team_calls_written_ahead_witness: "actions_of demo_team_state (snd team_demo) written_ahead"
  by (rule team_calls_written_ahead [OF local.team_components_axioms team_demo_ready team_demo_runs])


theorem team_completion_has_evidence_witness: "actions_of demo_team_state (snd team_demo) on_evidence"
  by (rule team_completion_has_evidence [OF local.team_components_axioms team_demo_ready team_demo_runs])

theorem team_events_carry_stored_state_witness: "actions_of demo_team_state (snd team_demo) truthful"
  by (rule team_events_carry_stored_state [OF local.team_components_axioms team_demo_ready team_demo_runs])

end
