(* ===== verification/TeamLeases.thy ===== *)
theory TeamLeases
  imports TeamProperties "HOL-Library.Multiset"
begin

text \<open>
  The agents that a batch leases are given back: the exit stack of \<open>_execute_batch\<close> is closed on every
  way out of the batch, also when scheduling, saving, publishing, an agent or the release of another
  lease fails.
\<close>

section \<open>The books of the leases\<close>

definition leased :: "team_action list \<Rightarrow> agent_lease multiset" where
  "leased tr = mset (concat (map (\<lambda>a. case a of Leased l \<Rightarrow> [l] | _ \<Rightarrow> []) tr))"

definition released :: "team_action list \<Rightarrow> agent_lease multiset" where
  "released tr = mset (concat (map (\<lambda>a. case a of Released l \<Rightarrow> [l] | _ \<Rightarrow> []) tr))"

text \<open>What was leased is released or still on the stack; between batches the stack is empty.\<close>

definition books :: "'w team_state \<Rightarrow> bool" where
  "books st \<longleftrightarrow> leased (team_trace st) = released (team_trace st) + mset (leases st)"

definition idle :: "'w team_state \<Rightarrow> bool" where
  "idle st \<longleftrightarrow> books st \<and> leases st = []"

fun apart_leases :: "team_action \<Rightarrow> bool" where
  "apart_leases (Leased _) \<longleftrightarrow> False"
| "apart_leases (Released _) \<longleftrightarrow> False"
| "apart_leases _ \<longleftrightarrow> True"

lemma leased_simps [simp]:
  "leased (tr @ tr') = leased tr + leased tr'" "leased [Leased l] = {#l#}" "leased [Released l] = {#}"
  "apart_leases a \<Longrightarrow> leased [a] = {#}"
  by (cases a; simp add: leased_def)+

lemma released_simps [simp]:
  "released (tr @ tr') = released tr + released tr'" "released [Released l] = {#l#}" "released [Leased l] = {#}"
  "apart_leases a \<Longrightarrow> released [a] = {#}"
  by (cases a; simp add: released_def)+

section \<open>What does not touch the leases\<close>

text \<open>
  A condition that the world, the flags of the runs and the actions apart from leases do not matter
  for is kept by every method that neither leases nor releases an agent.
\<close>

locale lease_condition =
  fixes I :: "'w team_state \<Rightarrow> bool"
  assumes world: "I st \<Longrightarrow> I (st\<lparr>team_world := w\<rparr>)"
    and flags: "I st \<Longrightarrow> I (st\<lparr>active_runs := A, cancel_requested := C\<rparr>)"
    and action: "I st \<Longrightarrow> apart_leases a \<Longrightarrow> I (st\<lparr>team_trace := team_trace st @ [a]\<rparr>)"
begin

lemma keeps_do [keeps_rules]: "keeps I (doE f)"
  by (auto simp: keeps_def doE_def split: prod.splits intro: world)

lemma keeps_read [keeps_rules]: "keeps I (readE f)"
  by (auto simp: keeps_def readE_def split: prod.splits intro: world)

lemma keeps_action [keeps_rules]: "apart_leases a \<Longrightarrow> keeps I (noteE a)"
  unfolding noteE_def by (rule keeps_modifyE) (rule action)

lemma requested: "I st \<Longrightarrow> I (st\<lparr>cancel_requested := C\<rparr>)"
  using flags [where st = st and A = "active_runs st" and C = C] by simp

lemma active: "I st \<Longrightarrow> I (st\<lparr>active_runs := A\<rparr>)"
  using flags [where st = st and A = A and C = "cancel_requested st"] by simp

lemma keeps_prepare [keeps_rules]: "keeps I (prepare_snapshot env s)"
  unfolding prepare_snapshot_def by (intro keeps_rules)

lemma keeps_store [keeps_rules]: "keeps I (store_snapshot env s v)"
  unfolding store_snapshot_def by (intro keeps_rules) simp

lemma keeps_save [keeps_rules]: "keeps I (save_team env s G a)"
  unfolding save_team_def by (intro keeps_rules)

lemma keeps_persist [keeps_rules]: "keeps I (persist_prepared env s)"
  unfolding persist_prepared_def by (intro keeps_rules)

lemma keeps_publish [keeps_rules]: "keeps I (publish_team env et s d m)"
  unfolding publish_team_def by (intro keeps_rules) simp

lemma keeps_publish_ready [keeps_rules]: "keeps I (publish_ready env s ts)"
  unfolding publish_ready_def by (intro keeps_rules)

lemma keeps_require [keeps_rules]: "keeps I (require_run env rid)"
  unfolding require_run_def by (intro keeps_rules)

lemma keeps_cancelled [keeps_rules]: "keeps I (is_cancelled_run env rid)"
proof -
  have ask: "keeps I (\<lambda>s. (Inr (rid \<in> cancel_requested s), s))"
    by (simp add: keeps_def)
  show ?thesis
    unfolding is_cancelled_run_def by (intro keeps_rules ask keeps_modifyE requested)
qed

lemma keeps_block [keeps_rules]: "keeps I (block_team env s G reason err)"
  unfolding block_team_def by (intro keeps_rules)

lemma keeps_cancel [keeps_rules]: "keeps I (cancel_snapshot env s G)"
  unfolding cancel_snapshot_def by (intro keeps_rules)

lemma keeps_mark [keeps_rules]: "keeps I (mark_run env rid f a et d)"
  unfolding mark_run_def by (intro keeps_rules)

lemma keeps_marks [keeps_rules]: "keeps I (mark_timed_out env rid)" "keeps I (mark_budget_exhausted env rid)"
  "keeps I (mark_cancelled env rid)" "keeps I (mark_component_failed env rid e)"
  unfolding mark_timed_out_def mark_budget_exhausted_def mark_cancelled_def mark_component_failed_def
  by (rule keeps_mark)+

lemma keeps_resolve [keeps_rules]: "keeps I (resolve_conflict env rid e)"
  unfolding resolve_conflict_def by (intro keeps_rules)

lemma keeps_verify [keeps_rules]: "keeps I (verify_outcome env oc)"
  unfolding verify_outcome_def by (intro keeps_rules) simp

lemma keeps_record [keeps_rules]: "keeps I (record_outcome env s G oc)"
  unfolding record_outcome_def by (intro keeps_rules)

lemma keeps_complete_task [keeps_rules]: "keeps I (complete_task env s G oc r)"
  unfolding complete_task_def by (intro keeps_rules)

lemma keeps_retry [keeps_rules]: "keeps I (retry_or_fail env s G oc)"
  unfolding retry_or_fail_def by (intro keeps_rules)

lemma keeps_apply [keeps_rules]: "keeps I (apply_outcome env oc x)"
  unfolding apply_outcome_def by (intro keeps_rules)

lemma keeps_context [keeps_rules]: "keeps I (task_context s G t agent attempt prev)"
  unfolding task_context_def by (intro keeps_rules)

lemma keeps_resume_task [keeps_rules]: "keeps I (resume_task env st x)"
  unfolding resume_task_def Let_def by (intro keeps_rules)

lemma keeps_resume_verifying [keeps_rules]: "keeps I (resume_verifying env s G)"
  unfolding resume_verifying_def by (intro keeps_rules)

lemma keeps_gate [keeps_rules]: "keeps I (gate_decision env s G t st)"
  unfolding gate_decision_def by (intro keeps_rules) simp

lemma keeps_defer [keeps_rules]: "keeps I (defer_task env s G t)"
  unfolding defer_task_def by (intro keeps_rules)

lemma keeps_reject [keeps_rules]: "keeps I (reject_task env s G t)"
  unfolding reject_task_def Let_def by (intro keeps_rules)

lemma keeps_decision: "keeps I m \<Longrightarrow> keeps I m' \<Longrightarrow> keeps I m'' \<Longrightarrow>
    keeps I (case d of APPROVED \<Rightarrow> m | DEFERRED \<Rightarrow> m' | REJECTED \<Rightarrow> m'')"
  by (cases d) simp_all

lemma keeps_approve_ready [keeps_rules]: "keeps I (approve_ready env ts s G)"
  by (induction ts arbitrary: s G) (auto simp only: approve_ready.simps intro!: keeps_rules keeps_decision)

lemma keeps_invoke [keeps_rules]: "keeps I (invoke_task env sc)"
  unfolding invoke_task_def Let_def by (intro keeps_rules) simp

lemma keeps_run_scheduled [keeps_rules]: "keeps I (run_scheduled env s sd)"
  unfolding run_scheduled_def by (intro keeps_rules)

lemma keeps_begin_all [keeps_rules]: "keeps I (begin_all ocs G)"
  by (induction ocs arbitrary: G) (auto simp only: begin_all.simps intro!: keeps_rules)

lemma keeps_begin [keeps_rules]: "keeps I (begin_verifying env s G ocs)"
  unfolding begin_verifying_def Let_def by (intro keeps_rules)

lemma keeps_archive [keeps_rules]: "keeps I (archive s G out v err)"
  unfolding archive_def by (intro keeps_rules)

lemma keeps_fail [keeps_rules]: "keeps I (fail_team env s G a d)"
  unfolding fail_team_def by (intro keeps_rules)

lemma keeps_replan: "(\<And>s. keeps I (again s)) \<Longrightarrow> keeps I (replan env again s G out v err)"
  unfolding replan_def by (intro keeps_rules)

lemma keeps_fail_tasks: "(\<And>s. keeps I (again s)) \<Longrightarrow> keeps I (fail_tasks env again s G)"
  unfolding fail_tasks_def Let_def by (rule keeps_replan)

lemma keeps_review [keeps_rules]: "keeps I (review_team env s G out human)"
  unfolding review_team_def by (intro keeps_rules) simp

lemma keeps_finish_review: "(\<And>s. keeps I (again s)) \<Longrightarrow> keeps I (finish_review env again s G out v)"
  unfolding finish_review_def by (cases "rv_action v"; simp only: review_action.case; intro keeps_rules keeps_replan)

lemma keeps_complete: "(\<And>s. keeps I (again s)) \<Longrightarrow> keeps I (complete_team env again s G)"
  unfolding complete_team_def Let_def by (intro keeps_rules keeps_finish_review) simp_all

lemma keeps_plan_tasks [keeps_rules]: "keeps I (plan_tasks env s)"
  unfolding plan_tasks_def by (intro keeps_rules) simp

lemma keeps_finish_active [keeps_rules]: "keeps I (finish_active rid)"
  unfolding finish_active_def by (rule keeps_modifyE) (rule flags)

lemma keeps_begin_active [keeps_rules]: "keeps I (begin_active rid)"
  by (auto simp: keeps_def begin_active_def intro: active)

lemma keeps_claim [keeps_rules]: "keeps I (claim_run env rid)"
  unfolding claim_run_def by (intro keeps_rules)

lemma keeps_handler [keeps_rules]: "keeps I (run_handler env rid e)"
  unfolding run_handler_def by (intro keeps_rules)

lemma keeps_guarded: "keeps I m \<Longrightarrow> keeps I (guarded_run env rid m)"
  unfolding guarded_run_def by (intro keeps_rules)

lemma keeps_timeout: "keeps I m \<Longrightarrow> keeps I (await_with_timeout env m t)"
  unfolding await_with_timeout_def keeps_def by (fastforce split: option.split prod.splits intro: world)

lemma keeps_team_remaining [keeps_rules]: "keeps I (remaining_team_timeout env s)"
  unfolding remaining_team_timeout_def by (intro keeps_rules)

lemma keeps_prepare_resume [keeps_rules]: "keeps I (prepare_resume env s)"
  unfolding prepare_resume_def by (intro keeps_rules)

end

interpretation books: lease_condition books
  by unfold_locales (simp_all add: books_def)

interpretation idle: lease_condition idle
  by unfold_locales (simp_all add: idle_def books_def)

section \<open>Batches\<close>

lemma keeps_acquire [keeps_rules]: "keeps books (acquire_agent env t)"
proof -
  have push: "keeps books (thenE (modifyE (\<lambda>s. s\<lparr>leases := l # leases s\<rparr>)) (thenE (noteE (Leased l)) (returnE (Inr l))))" for l
    by (simp add: keeps_def thenE_def bindE_def modifyE_def noteE_def returnE_def books_def)
  show ?thesis
    unfolding acquire_agent_def by (rule keeps_tryE, rule keeps_bindE, rule books.keeps_do, rule push, intro keeps_rules)
qed

lemma keeps_schedule [keeps_rules]: "keeps books (schedule_tasks env s ts sd)"
  by (induction ts arbitrary: sd) (auto simp only: schedule_tasks.simps intro!: keeps_rules)

lemma release_all_idle:
  assumes "leased (team_trace s) = released (team_trace s) + mset ls" and "leases s = []"
  shows "idle (snd (release_all env ls s))"
  using assms
proof (induction ls arbitrary: s)
  case (Cons l ls)
  obtain r s1 where step: "thenE (noteE (Released l)) (doE (c_release env l)) s = (r, s1)"
    by fastforce
  have "team_trace s1 = team_trace s @ [Released l]" and "leases s1 = leases s"
    using step by (auto simp: thenE_def bindE_def noteE_def modifyE_def doE_def split: prod.splits)
  then have "idle (snd (release_all env ls s1))"
    using Cons.prems by (intro Cons.IH) simp_all
  then show ?case
    by (cases "release_all env ls s1") (simp add: finallyE_def step split: sum.split)
qed (simp add: idle_def books_def returnE_def)

lemma close_idle: "books s \<Longrightarrow> idle (snd (close_leases env s))"
  unfolding close_leases_def by (rule release_all_idle) (simp_all add: books_def)

lemma idle_books: "idle s \<Longrightarrow> books s"
  by (simp add: idle_def)

lemma finally_idle:
  fixes m :: "('w, 'a) team"
  assumes "keeps books m"
  shows "keeps idle (finallyE m (close_leases env))"
  unfolding keeps_def
proof (intro allI impI)
  fix s :: "'w team_state"
  assume "idle s"
  then have "books (snd (m s))"
    using assms by (auto simp: keeps_def dest: idle_books)
  from close_idle [OF this, of env] show "idle (snd (finallyE m (close_leases env) s))"
    by (cases "close_leases env (snd (m s))") (auto simp: finallyE_def split_def split: sum.split)
qed

lemma keeps_batch [keeps_rules]: "keeps idle (execute_batch env s G ready)"
  unfolding execute_batch_def by (intro keeps_rules finally_idle)

section \<open>Whole calls\<close>

lemma keeps_rounds: "(\<And>s. keeps idle (again s)) \<Longrightarrow> keeps idle (execute_rounds env again n s G)"
  by (induction n arbitrary: s G)
    (auto simp only: execute_rounds.simps intro!: keeps_rules idle.keeps_complete idle.keeps_fail_tasks)

lemma keeps_execute: "(\<And>s. keeps idle (again s)) \<Longrightarrow> keeps idle (execute_team env again s G)"
  unfolding execute_team_def by (rule keeps_rounds)

lemma keeps_cycles [keeps_rules]: "keeps idle (plan_and_execute env k s)"
  by (induction k arbitrary: s) (auto simp only: plan_and_execute.simps intro!: keeps_rules keeps_execute)

lemma keeps_first_run [keeps_rules]: "keeps idle (first_run env s d)"
  unfolding first_run_def by (intro keeps_rules idle.keeps_timeout)

lemma keeps_resumed_run [keeps_rules]: "keeps idle (resumed_run env rid s)"
  unfolding resumed_run_def by (intro keeps_rules idle.keeps_timeout keeps_execute)

lemma idle_run: "keeps idle (run_team env r rid)"
  unfolding run_team_def by (intro keeps_rules idle.keeps_guarded) simp

lemma idle_resume: "keeps idle (resume_team env rid)"
  unfolding resume_team_def by (intro keeps_rules idle.keeps_guarded)

text \<open>
  C31. Every leased agent is given back: a call that starts without leases ends without leases, and
  the leases taken during the calls of a controller are exactly those released, whether the call
  returns or raises.
\<close>
theorem team_leases_returned:
  assumes "leased (team_trace st) = released (team_trace st)" and "leases st = []"
    and "call_team env call st = (out, st')"
  shows "leased (team_trace st') = released (team_trace st') \<and> leases st' = []"
proof -
  have "keeps idle (call_team env call)"
    by (cases call) (simp_all add: idle_run idle_resume)
  moreover have "idle st"
    using assms(1,2) by (simp add: idle_def books_def)
  ultimately have "idle st'"
    using assms(3) by (metis keepsD snd_conv)
  then show ?thesis
    by (simp add: idle_def books_def)
qed

theorem team_leases_returned_witness: "leased (team_trace (snd team_demo)) = released (team_trace (snd team_demo)) \<and> leases (snd team_demo) = []"
  by (rule team_leases_returned [OF _ _ team_demo_runs]) (simp_all add: demo_team_state_def leased_def released_def)

end
