(* ===== verification/TeamStoreProperties.thy ===== *)
theory TeamStoreProperties
  imports TeamProperties
begin

text \<open>
  What the in-memory repository, the agent directory and the least-busy scheduler promise to the team
  controller, over any sequence of operations.
\<close>

section \<open>The repository\<close>

datatype repo_op =
    RepoCreate team_snapshot
  | RepoSave datetime team_snapshot int
  | RepoClaim string string
  | RepoUnclaim string string

fun apply_repo :: "repo_op \<Rightarrow> team_repo \<Rightarrow> team_repo" where
  "apply_repo (RepoCreate s) R = snd (team_repo_create s R)"
| "apply_repo (RepoSave now s v) R = snd (team_repo_save now s v R)"
| "apply_repo (RepoClaim rid owner) R = snd (team_repo_claim rid owner R)"
| "apply_repo (RepoUnclaim rid owner) R = team_repo_unclaim rid owner R"

definition run_repo :: "repo_op list \<Rightarrow> team_repo \<Rightarrow> team_repo" where
  "run_repo ops R = fold apply_repo ops R"

text \<open>A stored run stays stored, and its version never decreases.\<close>

definition newer :: "int \<Rightarrow> string \<Rightarrow> team_repo \<Rightarrow> bool" where
  "newer v rid R \<longleftrightarrow> (case dict_get (tp_snapshots R) rid of None \<Rightarrow> False | Some s \<Rightarrow> v \<le> tn_version s)"

lemma apply_newer: "newer v rid R \<Longrightarrow> newer v rid (apply_repo op R)"
  by (cases op) (auto simp: newer_def team_repo_create_def team_repo_save_def team_repo_claim_def team_repo_unclaim_def
      Let_def dict_has_get split: option.splits)

lemma run_newer: "newer v rid R \<Longrightarrow> newer v rid (run_repo ops R)"
  unfolding run_repo_def by (induction ops arbitrary: R) (simp_all add: apply_newer)

text \<open>
  C32. No update is lost: after a snapshot has been saved over version \<open>v\<close>, whatever creations, saves and
  leases follow, another save over version \<open>v\<close> of the same run is refused with a state conflict and
  changes nothing.
\<close>
theorem stale_save_conflicts:
  assumes "team_repo_save now s v R = (Inr s', R1)"
    and "tn_run_id t = tn_run_id s" and "tn_version t = v"
  shows "\<exists>m. team_repo_save now' t v (run_repo ops R1) = (Inl (TeamStateConflict m), run_repo ops R1)"
proof -
  have "newer (v + 1) (tn_run_id s) R1" and "\<not> v < 0"
    using assms(1) by (auto simp: team_repo_save_def newer_def Let_def split: if_splits option.splits)
  from run_newer [OF this(1), of ops] show ?thesis
    using assms(2,3) \<open>\<not> v < 0\<close> by (auto simp: newer_def team_repo_save_def split: option.splits)
qed

definition leased_by :: "string \<Rightarrow> string \<Rightarrow> team_repo \<Rightarrow> bool" where
  "leased_by rid owner R \<longleftrightarrow> dict_get (tp_leases R) rid = Some owner \<and> dict_has rid (tp_snapshots R)"

lemma apply_leased: "leased_by rid owner R \<Longrightarrow> op \<noteq> RepoUnclaim rid owner \<Longrightarrow> leased_by rid owner (apply_repo op R)"
  by (cases op) (auto simp: leased_by_def team_repo_create_def team_repo_save_def team_repo_claim_def
      team_repo_unclaim_def Let_def dict_has_get split: option.splits if_splits)

lemma run_leased: "leased_by rid owner R \<Longrightarrow> RepoUnclaim rid owner \<notin> set ops \<Longrightarrow> leased_by rid owner (run_repo ops R)"
  unfolding run_repo_def
proof (induction ops arbitrary: R)
  case (Cons op ops)
  then have "leased_by rid owner (apply_repo op R)"
    by (intro apply_leased) auto
  with Cons show ?case
    by simp
qed simp

text \<open>
  One controller drives a run: once an owner has claimed a run, every claim by anyone fails until
  that owner releases it, whatever else is done to the repository.
\<close>
theorem claimed_run_is_exclusive:
  assumes "team_repo_claim rid owner R = (Inr True, R1)" and "RepoUnclaim rid owner \<notin> set ops" and "\<not> blank other"
  shows "team_repo_claim rid other (run_repo ops R1) = (Inr False, run_repo ops R1)"
proof -
  have "leased_by rid owner R1"
    using assms(1) by (auto simp: team_repo_claim_def leased_by_def dict_has_get split: if_splits)
  from run_leased [OF this assms(2)] show ?thesis
    using assms(3) by (auto simp: team_repo_claim_def leased_by_def dict_has_get)
qed

section \<open>The directory\<close>

text \<open>
  A directory with the leases that are out: \<open>taken\<close> is the second step of \<open>acquire\<close>, on whatever slot
  its view showed earlier.
\<close>

inductive dir_step :: "directory \<times> agent_lease list \<Rightarrow> directory \<times> agent_lease list \<Rightarrow> bool" where
  registered: "dir_step (D, L) (snd (dir_register a ep replace D), L)"
| replaced: "dir_step (D, L) (snd (dir_replace k a ep D), L)"
| unregistered: "dir_step (D, L) (snd (dir_unregister k D), L)"
| taken: "dir_take k seen D = Some (l, D') \<Longrightarrow> dir_step (D, L) (D', l # L)"
| given_back: "l \<in> set L \<Longrightarrow> dir_step (D, L) (snd (dir_release l D), remove1 l L)"

definition out_of :: "nat \<Rightarrow> agent_lease list \<Rightarrow> nat" where
  "out_of i L = length (filter (\<lambda>l. al_slot l = i) L)"

definition slot_ok :: "nat \<Rightarrow> agent_lease list \<Rightarrow> string \<Rightarrow> agent_slot \<Rightarrow> bool" where
  "slot_ok n L k sl \<longleftrightarrow> sl_ident sl < n \<and> agent_id (sl_spec sl) = k \<and> active_count sl = int (out_of (sl_ident sl) L)
     \<and> (registered sl \<or> active_count sl > 0)"

definition idents_ok :: "(string \<Rightarrow> agent_slot option) \<Rightarrow> bool" where
  "idents_ok m \<longleftrightarrow> (\<forall>k k' sl sl'. m k = Some sl \<longrightarrow> m k' = Some sl' \<longrightarrow> sl_ident sl = sl_ident sl' \<longrightarrow> k = k')"

definition homes_ok :: "(string \<Rightarrow> agent_slot option) \<Rightarrow> agent_lease list \<Rightarrow> bool" where
  "homes_ok m L \<longleftrightarrow> (\<forall>l \<in> set L. \<exists>k sl. m k = Some sl \<and> sl_ident sl = al_slot l)"

definition dir_ok :: "directory \<Rightarrow> agent_lease list \<Rightarrow> bool" where
  "dir_ok D L \<longleftrightarrow> dict_ok (dir_slots D) \<and> idents_ok (dict_get (dir_slots D)) \<and> homes_ok (dict_get (dir_slots D)) L
     \<and> (\<forall>k sl. dict_get (dir_slots D) k = Some sl \<longrightarrow> slot_ok (dir_next D) L k sl)"

lemma out_of_simps [simp]:
  "out_of i [] = 0" "out_of i (l # L) = (if al_slot l = i then Suc (out_of i L) else out_of i L)"
  by (simp_all add: out_of_def)

lemma out_of_pos: "l \<in> set L \<Longrightarrow> 0 < out_of (al_slot l) L"
  by (induction L) auto

lemma out_of_remove: "l \<in> set L \<Longrightarrow> out_of i L = (if al_slot l = i then Suc (out_of i (remove1 l L)) else out_of i (remove1 l L))"
  by (induction L) auto

lemma slot_ok_other: "slot_ok n L k sl \<Longrightarrow> out_of (sl_ident sl) L' = out_of (sl_ident sl) L \<Longrightarrow> slot_ok n L' k sl"
  by (auto simp: slot_ok_def)

lemma slot_at: "dir_ok D L \<Longrightarrow> dict_get (dir_slots D) k = Some sl \<Longrightarrow> slot_ok (dir_next D) L k sl"
  by (simp add: dir_ok_def)

lemma slot_in: "dir_ok D L \<Longrightarrow> (k, sl) \<in> set (dir_slots D) \<Longrightarrow> dict_get (dir_slots D) k = Some sl"
  by (simp add: dir_ok_def dict_get_iff)

lemma idents_put: "idents_ok m \<Longrightarrow> m k = Some sl \<Longrightarrow> sl_ident sl' = sl_ident sl \<Longrightarrow> idents_ok (m(k \<mapsto> sl'))"
  unfolding idents_ok_def by (metis fun_upd_apply option.inject)

lemma idents_del: "idents_ok m \<Longrightarrow> idents_ok (m(k := None))"
  unfolding idents_ok_def by (metis fun_upd_apply option.distinct(1))

lemma idents_new: "idents_ok m \<Longrightarrow> (\<And>k sl. m k = Some sl \<Longrightarrow> sl_ident sl \<noteq> sl_ident sl') \<Longrightarrow> idents_ok (m(k \<mapsto> sl'))"
  unfolding idents_ok_def by (metis fun_upd_apply option.inject)

lemma idents_apart: "idents_ok m \<Longrightarrow> m k = Some sl \<Longrightarrow> m k' = Some sl' \<Longrightarrow> k \<noteq> k' \<Longrightarrow> sl_ident sl \<noteq> sl_ident sl'"
  unfolding idents_ok_def by metis

lemma homes_put:
  assumes "homes_ok m L" and "m k = Some sl" and "sl_ident sl' = sl_ident sl"
    and "\<And>l. l \<in> set L' \<Longrightarrow> l \<in> set L \<or> al_slot l = sl_ident sl"
  shows "homes_ok (m(k \<mapsto> sl')) L'"
  unfolding homes_ok_def
proof
  fix l
  assume "l \<in> set L'"
  then consider "al_slot l = sl_ident sl" | "l \<in> set L" "al_slot l \<noteq> sl_ident sl"
    using assms(4) by blast
  then show "\<exists>k' x. (m(k \<mapsto> sl')) k' = Some x \<and> sl_ident x = al_slot l"
  proof cases
    case 1
    then show ?thesis
      using assms(3) by (intro exI [of _ k] exI [of _ sl']) simp
  next
    case 2
    then obtain k' x where "m k' = Some x" "sl_ident x = al_slot l"
      using assms(1) by (auto simp: homes_ok_def)
    then show ?thesis
      using 2 assms(2) by (intro exI [of _ k'] exI [of _ x]) auto
  qed
qed

lemma homes_del:
  assumes "homes_ok m L" and "m k = Some sl" and "set L' \<subseteq> set L" and "\<And>l. l \<in> set L' \<Longrightarrow> al_slot l \<noteq> sl_ident sl"
  shows "homes_ok (m(k := None)) L'"
  unfolding homes_ok_def
proof
  fix l
  assume l: "l \<in> set L'"
  then obtain k' x where "m k' = Some x" "sl_ident x = al_slot l"
    using assms(1) subsetD [OF assms(3) l] unfolding homes_ok_def by blast
  moreover have "k' \<noteq> k"
    using calculation assms(2) assms(4) [OF l] by auto
  ultimately show "\<exists>k' x. (m(k := None)) k' = Some x \<and> sl_ident x = al_slot l"
    by (intro exI [of _ k'] exI [of _ x]) simp
qed

lemma put_ok:
  assumes ok: "dir_ok D L" and k: "dict_get (dir_slots D) k = Some sl"
    and sl': "sl_ident sl' = sl_ident sl" "agent_id (sl_spec sl') = k" "active_count sl' = int (out_of (sl_ident sl) L')"
      "registered sl' \<or> active_count sl' > 0"
    and L': "\<And>i. i \<noteq> sl_ident sl \<Longrightarrow> out_of i L' = out_of i L" "\<And>l. l \<in> set L' \<Longrightarrow> l \<in> set L \<or> al_slot l = sl_ident sl"
  shows "dir_ok (put_slot k sl' D) L'"
proof -
  have "slot_ok (dir_next D) L' k' x" if x: "((dict_get (dir_slots D))(k \<mapsto> sl')) k' = Some x" for k' x
  proof (cases "k' = k")
    case True
    then show ?thesis
      using x sl' slot_at [OF ok k] by (auto simp: slot_ok_def)
  next
    case False
    then have x': "dict_get (dir_slots D) k' = Some x"
      using x by simp
    then have "sl_ident x \<noteq> sl_ident sl"
      using idents_apart [OF _ x' k False] ok by (simp add: dir_ok_def)
    then show ?thesis
      by (intro slot_ok_other [OF slot_at [OF ok x']] L')
  qed
  then show ?thesis
    using ok sl'(1) idents_put [where m = "dict_get (dir_slots D)", OF _ k]
      homes_put [where m = "dict_get (dir_slots D)", OF _ k _ L'(2)] by (simp add: dir_ok_def put_slot_def del: fun_upd_apply)
qed

lemma drop_ok:
  assumes ok: "dir_ok D L" and k: "dict_get (dir_slots D) k = Some sl" and none: "out_of (sl_ident sl) L' = 0"
    and L': "\<And>i. i \<noteq> sl_ident sl \<Longrightarrow> out_of i L' = out_of i L" "set L' \<subseteq> set L"
  shows "dir_ok (drop_slot k D) L'"
proof -
  have "slot_ok (dir_next D) L' k' x" if x: "((dict_get (dir_slots D))(k := None)) k' = Some x" for k' x
  proof -
    have x': "dict_get (dir_slots D) k' = Some x" "k' \<noteq> k"
      using x by (auto split: if_splits)
    then have "sl_ident x \<noteq> sl_ident sl"
      using idents_apart [OF _ x'(1) k x'(2)] ok by (simp add: dir_ok_def)
    then show ?thesis
      by (intro slot_ok_other [OF slot_at [OF ok x'(1)]] L')
  qed
  moreover have "al_slot l \<noteq> sl_ident sl" if "l \<in> set L'" for l
    using out_of_pos [OF that] none by auto
  ultimately show ?thesis
    using ok idents_del homes_del [where m = "dict_get (dir_slots D)", OF _ k L'(2)] by (simp add: dir_ok_def drop_slot_def del: fun_upd_apply)
qed

lemma register_ok:
  assumes ok: "dir_ok D L"
  shows "dir_ok (snd (dir_register a ep replace D)) L"
proof (cases "dict_get (dir_slots D) (agent_id a)")
  case None
  have below: "sl_ident x < dir_next D" if "dict_get (dir_slots D) k = Some x" for k x
    using slot_at [OF ok that] by (simp add: slot_ok_def)
  have "al_slot l \<noteq> dir_next D" if "l \<in> set L" for l
    using ok that below unfolding dir_ok_def homes_ok_def by (metis less_irrefl_nat)
  then have "out_of (dir_next D) L = 0"
    by (auto simp: out_of_def filter_empty_conv)
  moreover have "homes_ok ((dict_get (dir_slots D))(agent_id a \<mapsto> x)) L" for x
    using ok None unfolding dir_ok_def homes_ok_def by (metis fun_upd_other option.distinct(1))
  moreover have "idents_ok ((dict_get (dir_slots D))(agent_id a \<mapsto> x))" if "sl_ident x = dir_next D" for x
  proof (rule idents_new)
    show "sl_ident y \<noteq> sl_ident x" if "dict_get (dir_slots D) k = Some y" for k y
      using below [OF that] \<open>sl_ident x = dir_next D\<close> by simp
  qed (use ok in \<open>simp add: dir_ok_def\<close>)
  moreover have "slot_ok (Suc n) L k x" if "slot_ok n L k x" for n k x
    using that by (auto simp: slot_ok_def)
  ultimately show ?thesis
    using ok None slot_at [OF ok]
    by (auto simp: dir_ok_def dir_register_def put_slot_def) (simp add: slot_ok_def)
next
  case (Some sl)
  then show ?thesis
    using ok slot_at [OF ok Some] by (auto simp: dir_register_def replace_slot_def slot_ok_def intro!: put_ok [OF ok Some])
qed

lemma replace_ok:
  assumes ok: "dir_ok D L"
  shows "dir_ok (snd (dir_replace k a ep D)) L"
proof (cases "dict_get (dir_slots D) k")
  case (Some sl)
  have "dir_ok (put_slot k (replace_slot a ep sl) D) L" if "agent_id a = k"
    using that slot_at [OF ok Some] by (intro put_ok [OF ok Some]) (auto simp: replace_slot_def slot_ok_def)
  then show ?thesis
    using ok by (auto simp: dir_replace_def Some)
qed (simp add: dir_replace_def ok)

lemma unregister_ok:
  assumes ok: "dir_ok D L"
  shows "dir_ok (snd (dir_unregister k D)) L"
proof (cases "dict_get (dir_slots D) k")
  case (Some sl)
  have sl: "slot_ok (dir_next D) L k sl"
    by (rule slot_at [OF ok Some])
  have "dir_ok (drop_slot k D) L" if "active_count sl = 0"
    using sl that by (intro drop_ok [OF ok Some]) (simp_all add: slot_ok_def)
  moreover have "dir_ok (put_slot k (sl\<lparr>registered := False, generation := generation sl + 1\<rparr>) D) L" if "active_count sl \<noteq> 0"
    using sl that by (intro put_ok [OF ok Some]) (auto simp: slot_ok_def)
  ultimately show ?thesis
    by (simp add: dir_unregister_def Some ok)
qed (simp add: dir_unregister_def ok)

lemma take_cases:
  assumes "dir_take k seen D = Some (l, D')"
  obtains sl where "dict_get (dir_slots D) k = Some sl" and "sl_ident sl = sl_ident seen" and "generation sl = generation seen"
    and "active_count sl < agent_concurrency (sl_spec sl)"
    and "l = \<lparr>al_agent = sl_spec sl, al_endpoint = sl_endpoint sl, al_slot = sl_ident sl\<rparr>"
    and "D' = put_slot k (sl\<lparr>active_count := active_count sl + 1\<rparr>) D"
  using assms by (auto simp: dir_take_def split: option.splits if_splits)

lemma take_ok:
  assumes ok: "dir_ok D L" and take: "dir_take k seen D = Some (l, D')"
  shows "dir_ok D' (l # L)"
proof -
  obtain sl where sl: "dict_get (dir_slots D) k = Some sl"
    and l: "l = \<lparr>al_agent = sl_spec sl, al_endpoint = sl_endpoint sl, al_slot = sl_ident sl\<rparr>"
    and D': "D' = put_slot k (sl\<lparr>active_count := active_count sl + 1\<rparr>) D"
    by (rule take_cases [OF take])
  show ?thesis
    unfolding D' by (rule put_ok [OF ok sl]) (use slot_at [OF ok sl] in \<open>auto simp: slot_ok_def l\<close>)
qed

lemma slot_of_lease:
  assumes ok: "dir_ok D L" and l: "l \<in> set L"
  obtains k sl where "find (\<lambda>(k, sl). sl_ident sl = al_slot l) (dir_slots D) = Some (k, sl)"
    and "dict_get (dir_slots D) k = Some sl" and "sl_ident sl = al_slot l" and "0 < active_count sl"
proof -
  obtain k sl where k: "dict_get (dir_slots D) k = Some sl" "sl_ident sl = al_slot l"
    using ok l unfolding dir_ok_def homes_ok_def by blast
  have "find (\<lambda>(k, sl). sl_ident sl = al_slot l) (dir_slots D) \<noteq> None"
    using map_of_SomeD [OF k(1)] k(2) by (auto simp: find_None_iff)
  then obtain k' sl' where f: "find (\<lambda>(k, sl). sl_ident sl = al_slot l) (dir_slots D) = Some (k', sl')"
    by auto
  then have "(k', sl') \<in> set (dir_slots D)" and i: "sl_ident sl' = al_slot l"
    by (auto simp: find_Some_iff) (metis nth_mem)
  then have k': "dict_get (dir_slots D) k' = Some sl'"
    by (intro slot_in [OF ok])
  have "0 < active_count sl'"
    using slot_at [OF ok k'] out_of_pos [OF l] i by (simp add: slot_ok_def)
  with f k' i that show ?thesis
    by blast
qed

lemma give_back_ok:
  assumes ok: "dir_ok D L" and l: "l \<in> set L"
  shows "dir_ok (snd (dir_release l D)) (remove1 l L) \<and> fst (dir_release l D) = Inr ()"
proof -
  obtain k sl where f: "find (\<lambda>(k, sl). sl_ident sl = al_slot l) (dir_slots D) = Some (k, sl)"
    and k: "dict_get (dir_slots D) k = Some sl" and i: "sl_ident sl = al_slot l" and pos: "0 < active_count sl"
    by (rule slot_of_lease [OF assms])
  have n: "active_count sl = int (Suc (out_of (sl_ident sl) (remove1 l L)))"
    using slot_at [OF ok k] out_of_remove [OF l, of "sl_ident sl"] i by (simp add: slot_ok_def)
  have others: "out_of j (remove1 l L) = out_of j L" if "j \<noteq> sl_ident sl" for j
    using out_of_remove [OF l, of j] that i by simp
  have "dir_ok (drop_slot k D) (remove1 l L)" if "active_count sl - 1 = 0"
    using n that by (intro drop_ok [OF ok k] others set_remove1_subset) simp_all
  moreover have "dir_ok (put_slot k (sl\<lparr>active_count := active_count sl - 1\<rparr>) D) (remove1 l L)"
    if "\<not> (\<not> registered sl \<and> active_count sl - 1 = 0)"
    using n that slot_at [OF ok k] by (intro put_ok [OF ok k] others) (auto simp: slot_ok_def dest: in_set_remove1 set_remove1_subset [THEN subsetD])
  ultimately show ?thesis
    using pos by (auto simp: dir_release_def f)
qed

lemma step_ok: "dir_step X Y \<Longrightarrow> dir_ok (fst X) (snd X) \<Longrightarrow> dir_ok (fst Y) (snd Y)"
  by (induction rule: dir_step.induct) (simp_all add: register_ok replace_ok unregister_ok take_ok give_back_ok)

lemma new_ok: "dir_ok new_directory []"
  by (simp add: dir_ok_def new_directory_def idents_ok_def homes_ok_def)

lemma steps_ok: "dir_step\<^sup>*\<^sup>* (new_directory, []) (D, L) \<Longrightarrow> dir_ok D L"
proof -
  assume steps: "dir_step\<^sup>*\<^sup>* (new_directory, []) (D, L)"
  have "dir_ok (fst Y) (snd Y)" if "dir_step\<^sup>*\<^sup>* X Y" "dir_ok (fst X) (snd X)" for X Y
    using that by (induction) (auto dest: step_ok)
  from this [OF steps] show ?thesis
    by (simp add: new_ok)
qed

text \<open>
  The directory counts its leases: after any history of registrations, replacements, removals,
  leases and releases, from whatever view each lease was chosen, the active count of every slot is
  the number of its leases that are still out, and giving back any of them succeeds.
\<close>
theorem directory_counts_leases:
  assumes "dir_step\<^sup>*\<^sup>* (new_directory, []) (D, L)"
  shows "list_all (\<lambda>(k, sl). active_count sl = int (out_of (sl_ident sl) L)) (dir_slots D)
     \<and> list_all (\<lambda>l. fst (dir_release l D) = Inr ()) L"
proof -
  have ok: "dir_ok D L"
    by (rule steps_ok [OF assms])
  then have "active_count sl = int (out_of (sl_ident sl) L)" if "(k, sl) \<in> set (dir_slots D)" for k sl
    using slot_at [OF ok slot_in [OF ok that]] by (simp add: slot_ok_def)
  then show ?thesis
    using give_back_ok [OF ok] by (auto simp: list_all_iff)
qed

section \<open>Choice\<close>

lemma least_busy_Inr:
  assumes "least_busy t cs counts = Inr k"
  obtains a where "a \<in> set cs" and "agent_id a = k" and "capable t a" and "busy counts a < agent_concurrency a"
    and "\<And>b. b \<in> set cs \<Longrightarrow> capable t b \<Longrightarrow> busy counts b < agent_concurrency b \<Longrightarrow>
        (busy counts a, agent_id a) \<le> (busy counts b, agent_id b)"
proof -
  let ?free = "filter (\<lambda>a. busy counts a < agent_concurrency a) (filter (capable t) cs)"
  let ?order = "sort_key (\<lambda>a. (busy counts a, agent_id a)) ?free"
  obtain a as where order: "?order = a # as" and k: "k = agent_id a"
    using assms by (auto simp: least_busy_def Let_def split: option.splits list.splits if_splits)
  have "a \<in> set ?free"
    using order by (metis list.set_intros(1) set_sort)
  moreover have "(busy counts a, agent_id a) \<le> (busy counts b, agent_id b)" if "b \<in> set ?free" for b
  proof -
    have "b \<in> set (a # as)"
      using that order by (metis set_sort)
    moreover have "sorted (map (\<lambda>a. (busy counts a, agent_id a)) ?order)"
      by (rule sorted_sort_key)
    ultimately show ?thesis
      unfolding order by auto
  qed
  ultimately show ?thesis
    using k by (intro that [of a]) simp_all
qed

text \<open>The view of a directory.\<close>

lemma view_in:
  assumes "dir_ok D L"
  shows "(k, sl) \<in> set (dir_view D) \<longleftrightarrow> dict_get (dir_slots D) k = Some sl \<and> registered sl"
proof -
  have "k \<in> set (dict_keys (dir_slots D)) \<longleftrightarrow> dict_get (dir_slots D) k \<noteq> None"
    by (simp add: map_of_eq_None_iff)
  then show ?thesis
    by (auto simp: dir_view_def image_iff split: option.splits)
qed

lemma view_get:
  assumes "dir_ok D L"
  shows "dict_get (dir_view D) k = Some sl \<longleftrightarrow> dict_get (dir_slots D) k = Some sl \<and> registered sl"
proof -
  have "distinct (map fst (dir_view D))"
    using assms by (simp add: dir_view_def comp_def dir_ok_def dict_ok_def)
  then show ?thesis
    using view_in [OF assms] by simp
qed

lemma candidates_in: "a \<in> set (dir_candidates D) \<longleftrightarrow> (\<exists>k sl. (k, sl) \<in> set (dir_view D) \<and> a = sl_spec sl)"
  by (force simp: dir_candidates_def)

lemma busy_view:
  assumes ok: "dir_ok D L" and k: "dict_get (dir_slots D) k = Some sl" and reg: "registered sl"
  shows "busy (map (\<lambda>(k, sl). (k, active_count sl)) (dir_view D)) (sl_spec sl) = active_count sl"
proof -
  have "agent_id (sl_spec sl) = k"
    using slot_at [OF ok k] by (simp add: slot_ok_def)
  moreover have "map_of (map (\<lambda>(k, sl). (k, active_count sl)) (dir_view D)) = map_option active_count \<circ> dict_get (dir_view D)"
    by (rule map_of_map)
  moreover have "dict_get (dir_view D) k = Some sl"
    using k reg by (simp add: view_get [OF ok])
  ultimately show ?thesis
    by (simp add: busy_def)
qed

text \<open>
  No agent is leased beyond its capacity: whenever a slot is taken, in whatever history and on
  whatever earlier view, the leases of the slot that are out, with the new one, are at most the
  \<open>max_concurrency\<close> of the agent that the lease names.
\<close>
theorem leases_within_capacity:
  assumes "dir_step\<^sup>*\<^sup>* (new_directory, []) (D, L)" and "dir_take k seen D = Some (l, D')"
  shows "int (out_of (al_slot l) (l # L)) \<le> agent_concurrency (al_agent l)"
proof -
  obtain sl where sl: "dict_get (dir_slots D) k = Some sl" "active_count sl < agent_concurrency (sl_spec sl)"
    and l: "l = \<lparr>al_agent = sl_spec sl, al_endpoint = sl_endpoint sl, al_slot = sl_ident sl\<rparr>"
    by (rule take_cases [OF assms(2)])
  then show ?thesis
    using slot_at [OF steps_ok [OF assms(1)] sl(1)] by (simp add: slot_ok_def)
qed

text \<open>
  The least-busy scheduler, on the directory: the lease goes to a registered agent that has the
  capability of the task and a free place, and no other such agent has fewer leases out, nor as many
  and a smaller identifier.
\<close>
theorem least_busy_choice:
  assumes run: "dir_step\<^sup>*\<^sup>* (new_directory, []) (D, L)" and acq: "dir_acquire least_busy t [id] D = (Inr l, D')"
  shows "\<exists>k sl. dict_get (dir_slots D) k = Some sl \<and> registered sl \<and> al_agent l = sl_spec sl
     \<and> capable t (sl_spec sl) \<and> active_count sl < agent_concurrency (sl_spec sl)
     \<and> list_all (\<lambda>(k', sl'). \<not> registered sl' \<or> \<not> capable t (sl_spec sl') \<or> active_count sl' \<ge> agent_concurrency (sl_spec sl')
          \<or> (active_count sl, k) \<le> (active_count sl', k')) (dir_slots D)"
proof -
  let ?counts = "map (\<lambda>(k, sl). (k, active_count sl)) (dir_view D)"
  have ok: "dir_ok D L"
    by (rule steps_ok [OF run])
  obtain k seen where sel: "dir_select least_busy t D = Inr (k, seen)" and take: "dir_take k seen D = Some (l, D')"
    using acq by (auto split: if_splits sum.splits prod.splits option.splits)
  have lb: "least_busy t (dir_candidates D) ?counts = Inr k"
    using sel by (auto simp: dir_select_def split: sum.splits option.splits if_splits)
  obtain sl where sl: "dict_get (dir_slots D) k = Some sl" "active_count sl < agent_concurrency (sl_spec sl)"
    and l: "al_agent l = sl_spec sl"
    by (rule take_cases [OF take]) simp
  have "dict_get (dir_view D) k \<noteq> None"
    using sel by (auto simp: dir_select_def split: sum.splits option.splits if_splits)
  then have reg: "registered sl"
    using view_get [OF ok] sl(1) by auto
  from lb show ?thesis
  proof (rule least_busy_Inr)
    fix a
    assume a: "a \<in> set (dir_candidates D)" "agent_id a = k" "capable t a"
      and least: "\<And>b. b \<in> set (dir_candidates D) \<Longrightarrow> capable t b \<Longrightarrow> busy ?counts b < agent_concurrency b \<Longrightarrow>
        (busy ?counts a, agent_id a) \<le> (busy ?counts b, agent_id b)"
    have "a = sl_spec sl"
    proof -
      obtain k' sl' where k': "dict_get (dir_slots D) k' = Some sl'" "a = sl_spec sl'"
        using a(1) view_in [OF ok] by (auto simp: candidates_in)
      then have "k' = k"
        using slot_at [OF ok k'(1)] a(2) by (simp add: slot_ok_def)
      then show ?thesis
        using k' sl(1) by simp
    qed
    have "(active_count sl, k) \<le> (active_count sl', k')"
      if k': "(k', sl') \<in> set (dir_slots D)" and b: "registered sl'" "capable t (sl_spec sl')"
        "\<not> active_count sl' \<ge> agent_concurrency (sl_spec sl')" for k' sl'
    proof -
      have get: "dict_get (dir_slots D) k' = Some sl'"
        by (rule slot_in [OF ok k'])
      then have "sl_spec sl' \<in> set (dir_candidates D)"
        using view_in [OF ok] b(1) by (auto simp: candidates_in)
      from least [OF this b(2)] show ?thesis
        using b(3) busy_view [OF ok get b(1)] busy_view [OF ok sl(1) reg] a(2) slot_at [OF ok get]
        by (simp add: \<open>a = sl_spec sl\<close> slot_ok_def)
    qed
    then show ?thesis
      using sl reg l a(3) \<open>a = sl_spec sl\<close> by (intro exI [of _ k] exI [of _ sl]) (auto simp: list_all_iff)
  qed
qed

section \<open>Witnesses\<close>

definition demo_initial :: team_snapshot where
  "demo_initial = initial_snapshot demo_team_request ''r'' demo_clock"

definition demo_repo :: team_repo where
  "demo_repo = \<lparr>tp_snapshots = [(''r'', demo_initial)], tp_leases = []\<rparr>"

theorem stale_save_conflicts_witness:
  "\<exists>m. team_repo_save demo_clock demo_initial 0
       (run_repo [RepoClaim ''r'' ''o''] (snd (team_repo_save demo_clock demo_initial 0 demo_repo)))
     = (Inl (TeamStateConflict m), run_repo [RepoClaim ''r'' ''o''] (snd (team_repo_save demo_clock demo_initial 0 demo_repo)))"
proof -
  have "team_repo_save demo_clock demo_initial 0 demo_repo =
      (Inr (demo_initial\<lparr>tn_version := 1\<rparr>), snd (team_repo_save demo_clock demo_initial 0 demo_repo))"
    by (simp add: team_repo_save_def demo_repo_def demo_initial_def initial_snapshot_def Let_def)
  from stale_save_conflicts [OF this refl] show ?thesis
    by (simp add: demo_initial_def initial_snapshot_def)
qed

theorem claimed_run_is_exclusive_witness:
  "team_repo_claim ''r'' ''b'' (run_repo [RepoUnclaim ''r'' ''b''] (snd (team_repo_claim ''r'' ''a'' demo_repo)))
     = (Inr False, run_repo [RepoUnclaim ''r'' ''b''] (snd (team_repo_claim ''r'' ''a'' demo_repo)))"
proof -
  have "team_repo_claim ''r'' ''a'' demo_repo = (Inr True, snd (team_repo_claim ''r'' ''a'' demo_repo))" and "\<not> blank ''b''"
    by code_simp+
  from claimed_run_is_exclusive [OF this(1) _ this(2)] show ?thesis
    by simp
qed

definition demo_dir :: directory where
  "demo_dir = snd (dir_register demo_agent 0 False new_directory)"

definition demo_seen :: agent_slot where
  "demo_seen = the (dict_get (dir_slots demo_dir) ''w'')"

definition demo_taken :: "agent_lease \<times> directory" where
  "demo_taken = the (dir_take ''w'' demo_seen demo_dir)"

lemma demo_take: "dir_take ''w'' demo_seen demo_dir = Some (fst demo_taken, snd demo_taken)"
proof -
  have "dir_take ''w'' demo_seen demo_dir \<noteq> None"
    by (simp add: dir_take_def demo_seen_def demo_dir_def dir_register_def new_directory_def put_slot_def demo_agent_def)
  then show ?thesis
    by (auto simp: demo_taken_def)
qed

lemma demo_dir_step: "dir_step\<^sup>*\<^sup>* (new_directory, []) (demo_dir, [])"
  unfolding demo_dir_def by (rule r_into_rtranclp) (rule dir_step.registered)

theorem directory_counts_leases_witness:
  "list_all (\<lambda>(k, sl). active_count sl = int (out_of (sl_ident sl) [fst demo_taken])) (dir_slots (snd demo_taken))
     \<and> list_all (\<lambda>l. fst (dir_release l (snd demo_taken)) = Inr ()) [fst demo_taken]"
  by (rule directory_counts_leases [OF rtranclp.rtrancl_into_rtrancl [OF demo_dir_step dir_step.taken [OF demo_take]]])

theorem leases_within_capacity_witness:
  "int (out_of (al_slot (fst demo_taken)) [fst demo_taken]) \<le> agent_concurrency (al_agent (fst demo_taken))"
  by (rule leases_within_capacity [OF demo_dir_step demo_take])

theorem least_busy_choice_witness:
  "\<exists>k sl. dict_get (dir_slots demo_dir) k = Some sl \<and> registered sl \<and> capable (demo_work ''a'' [] False) (sl_spec sl) \<and> active_count sl < agent_concurrency (sl_spec sl)"
proof -
  have "\<exists>l D'. dir_acquire least_busy (demo_work ''a'' [] False) [id] demo_dir = (Inr l, D')"
    by (simp add: demo_dir_def dir_register_def new_directory_def put_slot_def demo_agent_def dir_view_def dir_select_def
        dir_candidates_def least_busy_def busy_def capable_def demo_work_def dir_take_def)
  then obtain l D' where "dir_acquire least_busy (demo_work ''a'' [] False) [id] demo_dir = (Inr l, D')"
    by blast
  from least_busy_choice [OF demo_dir_step this] show ?thesis
    by blast
qed

end
