(* ===== verification/Execution.thy ===== *)
theory Execution
  imports LoopModels "HOL-Library.Product_Lexorder"
begin

text \<open>
  Side effects that are executed at most once: the execution ledger of
  \<open>matterloop_runtime/ledger.py\<close>, the idempotent invoker of \<open>idempotency.py\<close> and the three-phase
  executor of \<open>transactional.py\<close>. Every method of the ledger holds a lock, so it is one step;
  \<open>now\<close> is the time it reads. A method of the clients is split at its awaits.
\<close>

section \<open>Records\<close>

datatype execution_status = XS_PREPARED | XS_EXECUTING | XS_COMMITTED | XS_FAILED | XS_RECONCILIATION

fun execution_status_value :: "execution_status \<Rightarrow> string" where
  "execution_status_value XS_PREPARED = ''prepared''"
| "execution_status_value XS_EXECUTING = ''executing''"
| "execution_status_value XS_COMMITTED = ''committed''"
| "execution_status_value XS_FAILED = ''failed''"
| "execution_status_value XS_RECONCILIATION = ''reconciliation_required''"

definition execution_is_pending :: "execution_status \<Rightarrow> bool" where
  "execution_is_pending st \<longleftrightarrow> st \<in> {XS_PREPARED, XS_EXECUTING}"

text \<open>\<open>_LEGAL_TRANSITIONS[target]\<close>; no transition leads to \<open>PREPARED\<close>.\<close>

fun legal_sources :: "execution_status \<Rightarrow> execution_status list" where
  "legal_sources XS_EXECUTING = [XS_PREPARED]"
| "legal_sources XS_COMMITTED = [XS_EXECUTING, XS_RECONCILIATION]"
| "legal_sources XS_FAILED = [XS_EXECUTING, XS_RECONCILIATION]"
| "legal_sources XS_RECONCILIATION = [XS_EXECUTING]"
| "legal_sources XS_PREPARED = []"

record execution_record =
  xr_id :: string
  xr_run :: string
  xr_hash :: string
  xr_task :: "string option"
  xr_agent :: "string option"
  xr_tool :: "string option"
  xr_status :: execution_status
  xr_result :: "string option"
  xr_error :: string
  xr_created :: datetime
  xr_updated :: datetime
  xr_attempt :: int

definition new_ExecutionRecord :: "execution_record \<Rightarrow> exn + execution_record" where
  "new_ExecutionRecord r =
     require (xr_id r \<noteq> [] \<and> xr_run r \<noteq> [] \<and> xr_hash r \<noteq> []) ''execution_id, run_id and request_hash must not be empty''
    (require (\<not> xr_attempt r < 1) ''attempt must be at least 1''
    (require (dt_offset (xr_created r) \<noteq> None \<and> dt_offset (xr_updated r) \<noteq> None) ''record timestamps must include a timezone''
    (require (\<not> (xr_status r = XS_COMMITTED \<and> xr_result r = None)) ''committed record requires a result payload''
    (Inr r))))"

section \<open>The ledger\<close>

abbreviation ExecutionLedgerError :: "string \<Rightarrow> exn" where
  "ExecutionLedgerError \<equiv> Other ''ExecutionLedgerError''"

record execution_ledger =
  xl_records :: "(string, execution_record) dict"
  xl_by_hash :: "(string, string) dict"

definition new_execution_ledger :: execution_ledger where
  "new_execution_ledger = \<lparr>xl_records = [], xl_by_hash = []\<rparr>"

definition exec_prepare :: "execution_record \<Rightarrow> execution_ledger \<Rightarrow> (exn + execution_record) \<times> execution_ledger" where
  "exec_prepare r L = (case dict_get (xl_by_hash L) (xr_hash r) of
       Some i \<Rightarrow> (case dict_get (xl_records L) i of
           None \<Rightarrow> (Inl (KeyError i), L)
         | Some old \<Rightarrow> (Inr old, L))
     | None \<Rightarrow>
         if xr_status r \<noteq> XS_PREPARED
         then (Inl (ExecutionLedgerError (''prepare requires a PREPARED record: '' @ xr_id r)), L)
         else if dict_has (xr_id r) (xl_records L)
         then (Inl (ExecutionLedgerError (''execution id is already bound to another request: '' @ xr_id r)), L)
         else (Inr r, L\<lparr>xl_records := dict_set (xr_id r) r (xl_records L),
                        xl_by_hash := dict_set (xr_hash r) (xr_id r) (xl_by_hash L)\<rparr>))"

definition exec_transition ::
  "string \<Rightarrow> execution_status \<Rightarrow> string option \<Rightarrow> string option \<Rightarrow> datetime \<Rightarrow> execution_ledger
   \<Rightarrow> (exn + execution_record) \<times> execution_ledger" where
  "exec_transition i target payload err now L = (case dict_get (xl_records L) i of
       None \<Rightarrow> (Inl (ExecutionLedgerError (''execution not found: '' @ i)), L)
     | Some r \<Rightarrow>
         if xr_status r \<notin> set (legal_sources target)
         then (Inl (ExecutionLedgerError (''illegal transition '' @ execution_status_value (xr_status r) @ '' -> ''
                @ execution_status_value target @ '': '' @ i)), L)
         else (case new_ExecutionRecord (r\<lparr>xr_status := target,
                xr_result := (case payload of None \<Rightarrow> xr_result r | Some p \<Rightarrow> Some p),
                xr_error := (case err of None \<Rightarrow> xr_error r | Some e \<Rightarrow> e), xr_updated := now\<rparr>) of
             Inl e \<Rightarrow> (Inl e, L)
           | Inr r' \<Rightarrow> (Inr r', L\<lparr>xl_records := dict_set i r' (xl_records L)\<rparr>)))"

definition exec_mark :: "string \<Rightarrow> datetime \<Rightarrow> execution_ledger \<Rightarrow> (exn + execution_record) \<times> execution_ledger" where
  "exec_mark i now L = exec_transition i XS_EXECUTING None None now L"

definition exec_commit :: "string \<Rightarrow> string \<Rightarrow> datetime \<Rightarrow> execution_ledger \<Rightarrow> (exn + execution_record) \<times> execution_ledger" where
  "exec_commit i payload now L = exec_transition i XS_COMMITTED (Some payload) (Some []) now L"

definition exec_fail :: "string \<Rightarrow> string \<Rightarrow> datetime \<Rightarrow> execution_ledger \<Rightarrow> (exn + execution_record) \<times> execution_ledger" where
  "exec_fail i err now L = exec_transition i XS_FAILED None (Some err) now L"

definition exec_require_reconciliation :: "string \<Rightarrow> datetime \<Rightarrow> execution_ledger \<Rightarrow> (exn + execution_record) \<times> execution_ledger" where
  "exec_require_reconciliation i now L = exec_transition i XS_RECONCILIATION None None now L"

definition exec_get :: "string \<Rightarrow> execution_ledger \<Rightarrow> execution_record option" where
  "exec_get i L = dict_get (xl_records L) i"

definition exec_find :: "string \<Rightarrow> execution_ledger \<Rightarrow> exn + execution_record option" where
  "exec_find h L = (case dict_get (xl_by_hash L) h of
       None \<Rightarrow> Inr None
     | Some i \<Rightarrow> (case dict_get (xl_records L) i of None \<Rightarrow> Inl (KeyError i) | Some r \<Rightarrow> Inr (Some r)))"

definition exec_pending :: "string option \<Rightarrow> execution_ledger \<Rightarrow> execution_record list" where
  "exec_pending run L = sort_key (\<lambda>r. (instant (xr_created r), xr_id r))
     (filter (\<lambda>r. execution_is_pending (xr_status r) \<and> (case run of None \<Rightarrow> True | Some x \<Rightarrow> xr_run r = x))
       (dict_values (xl_records L)))"

section \<open>The request hash\<close>

text \<open>
  \<open>_canonicalize\<close>. \<open>json.dumps\<close> with sorted keys and the digest of its encoding are the parameter
  \<open>digest\<close>, applied to the value with the items of every mapping in the order of their keys.
\<close>

fun canonicalize :: "pyval \<Rightarrow> exn + pyval"
  and canonicalize_list :: "pyval list \<Rightarrow> exn + pyval list"
  and canonicalize_items :: "(pyval \<times> pyval) list \<Rightarrow> exn + (pyval \<times> pyval) list" where
  "canonicalize (PFloat x) =
     (if isfinite x then Inr (PFloat x) else Inl (ValueError ''arguments must not contain non-finite floats''))"
| "canonicalize (PDict ds) = map_sum id PDict (canonicalize_items ds)"
| "canonicalize (PList xs) = map_sum id PList (canonicalize_list xs)"
| "canonicalize (POther t) =
     (if t = ''bytes'' \<or> t = ''bytearray'' then Inl (ValueError ''arguments must not contain raw bytes'')
      else Inl (ValueError (''argument value is not canonically serializable: '' @ t)))"
| "canonicalize v = Inr v"
| "canonicalize_list [] = Inr []"
| "canonicalize_list (x # xs) = (case canonicalize x of
     Inl e \<Rightarrow> Inl e
   | Inr y \<Rightarrow> map_sum id (Cons y) (canonicalize_list xs))"
| "canonicalize_items [] = Inr []"
| "canonicalize_items ((k, v) # ds) = (case k of
     PStr s \<Rightarrow> (case canonicalize v of
       Inl e \<Rightarrow> Inl e
     | Inr y \<Rightarrow> map_sum id (Cons (PStr s, y)) (canonicalize_items ds))
   | _ \<Rightarrow> Inl (ValueError ''argument mapping keys must be strings''))"

definition key_text :: "pyval \<times> pyval \<Rightarrow> string" where
  "key_text kv = (case fst kv of PStr s \<Rightarrow> s | _ \<Rightarrow> [])"

fun sort_items :: "pyval \<Rightarrow> pyval" where
  "sort_items (PDict ds) = PDict (sort_key key_text (map (\<lambda>(k, v). (k, sort_items v)) ds))"
| "sort_items (PList xs) = PList (map sort_items xs)"
| "sort_items v = v"

definition canonical_request_hash :: "(pyval \<Rightarrow> string) \<Rightarrow> string \<Rightarrow> metadata \<Rightarrow> exn + string" where
  "canonical_request_hash digest operation arguments =
     (if operation = [] then Inl (ValueError ''operation must not be empty'')
      else case canonicalize (PDict arguments) of
        Inl e \<Rightarrow> Inl e
      | Inr v \<Rightarrow> Inr (digest (sort_items (PDict [(PStr ''operation'', PStr operation), (PStr ''arguments'', v)]))))"

section \<open>The idempotent invoker\<close>

text \<open>
  \<open>DuplicateExecutionError\<close> carries the execution and its status; every other exception is a
  \<open>Fault\<close>.
\<close>

datatype execution_error = Fault exn | DuplicateExecution string execution_status

record invocation_request =
  vq_operation :: string
  vq_arguments :: metadata
  vq_run :: string
  vq_task :: "string option"
  vq_agent :: "string option"
  vq_tool :: "string option"

definition candidate_record ::
  "(pyval \<Rightarrow> string) \<Rightarrow> invocation_request \<Rightarrow> string \<Rightarrow> datetime \<Rightarrow> exn + execution_record" where
  "candidate_record digest q i now =
     (case canonical_request_hash digest (vq_operation q) (vq_arguments q) of
        Inl e \<Rightarrow> Inl e
      | Inr h \<Rightarrow> new_ExecutionRecord \<lparr>xr_id = i, xr_run = vq_run q, xr_hash = h, xr_task = vq_task q,
          xr_agent = vq_agent q, xr_tool = vq_tool q, xr_status = XS_PREPARED, xr_result = None, xr_error = [],
          xr_created = now, xr_updated = now, xr_attempt = 1\<rparr>)"

text \<open>
  Where a call stands between two of its awaits: it owns a prepared record, the record is marked and
  the executor is called next, the executor has answered, or the call is over. \<open>Inl\<close> is the exception
  that the executor raised.
\<close>

datatype invocation =
    Claimed string
  | Dispatched string
  | Answered string "exn + string"
  | Ended "execution_error + string"

definition invoke_enter ::
  "(pyval \<Rightarrow> string) \<Rightarrow> invocation_request \<Rightarrow> string \<Rightarrow> datetime \<Rightarrow> execution_ledger \<Rightarrow> invocation \<times> execution_ledger" where
  "invoke_enter digest q i now L = (case candidate_record digest q i now of
       Inl e \<Rightarrow> (Ended (Inl (Fault e)), L)
     | Inr c \<Rightarrow> (case exec_prepare c L of
         (Inl e, L') \<Rightarrow> (Ended (Inl (Fault e)), L')
       | (Inr r, L') \<Rightarrow>
           if xr_id r \<noteq> xr_id c then
             (if xr_status r = XS_COMMITTED then
                (case xr_result r of
                   None \<Rightarrow> Ended (Inl (Fault (ExecutionLedgerError
                     (''committed execution has no result payload: '' @ xr_id r))))
                 | Some p \<Rightarrow> Ended (Inr p))
              else Ended (Inl (DuplicateExecution (xr_id r) (xr_status r))), L')
           else (Claimed (xr_id r), L')))"

definition invoke_mark :: "string \<Rightarrow> datetime \<Rightarrow> execution_ledger \<Rightarrow> invocation \<times> execution_ledger" where
  "invoke_mark i now L = (case exec_mark i now L of
       (Inl e, L') \<Rightarrow> (Ended (Inl (Fault e)), L')
     | (Inr r, L') \<Rightarrow> (Dispatched i, L'))"

text \<open>\<open>except Exception\<close>: a cancelled executor leaves the record as it is.\<close>

definition invoke_failed :: "string \<Rightarrow> exn \<Rightarrow> datetime \<Rightarrow> execution_ledger \<Rightarrow> invocation \<times> execution_ledger" where
  "invoke_failed i e now L =
     (if is_exception e then (case exec_fail i (exn_text e) now L of
          (Inl e', L') \<Rightarrow> (Ended (Inl (Fault e')), L')
        | (Inr _, L') \<Rightarrow> (Ended (Inl (Fault e)), L'))
      else (Ended (Inl (Fault e)), L))"

definition invoke_settle :: "string \<Rightarrow> exn + string \<Rightarrow> datetime \<Rightarrow> execution_ledger \<Rightarrow> invocation \<times> execution_ledger" where
  "invoke_settle i answer now L = (case answer of
       Inl e \<Rightarrow> invoke_failed i e now L
     | Inr x \<Rightarrow> (case exec_commit i x now L of
         (Inl e, L') \<Rightarrow> (Ended (Inl (Fault e)), L')
       | (Inr _, L') \<Rightarrow> (Ended (Inr x), L')))"

text \<open>
  \<open>invoke\<close> as a whole, when nothing else happens between its awaits; \<open>f\<close> is the executor, and the
  times are those read for the candidate, the mark and the end.
\<close>

definition invoke ::
  "(pyval \<Rightarrow> string) \<Rightarrow> invocation_request \<Rightarrow> string \<Rightarrow> ('w \<Rightarrow> (exn + string) \<times> 'w) \<Rightarrow> datetime \<times> datetime \<times> datetime
   \<Rightarrow> 'w \<times> execution_ledger \<Rightarrow> (execution_error + string) \<times> 'w \<times> execution_ledger" where
  "invoke digest q i f clock = (\<lambda>(w, L). case clock of (t1, t2, t3) \<Rightarrow>
     (case invoke_enter digest q i t1 L of
        (Claimed j, L1) \<Rightarrow> (case invoke_mark j t2 L1 of
            (Dispatched k, L2) \<Rightarrow> (case f w of (answer, w') \<Rightarrow>
              (case invoke_settle k answer t3 L2 of
                 (Ended r, L3) \<Rightarrow> (r, w', L3)
               | (_, L3) \<Rightarrow> (Inl (Fault FuelOut), w', L3)))
          | (Ended r, L2) \<Rightarrow> (r, w, L2)
          | (_, L2) \<Rightarrow> (Inl (Fault FuelOut), w, L2))
      | (Ended r, L1) \<Rightarrow> (r, w, L1)
      | (_, L1) \<Rightarrow> (Inl (Fault FuelOut), w, L1)))"

section \<open>The transactional executor\<close>

definition tx_prepare ::
  "(pyval \<Rightarrow> string) \<Rightarrow> invocation_request \<Rightarrow> string \<Rightarrow> datetime \<Rightarrow> execution_ledger
   \<Rightarrow> (exn + execution_record) \<times> execution_ledger" where
  "tx_prepare digest q i now L = (case candidate_record digest q i now of
     Inl e \<Rightarrow> (Inl e, L) | Inr c \<Rightarrow> exec_prepare c L)"

text \<open>\<open>execute\<close>: marked as above; the result is left for the host to commit.\<close>

definition tx_settle :: "string \<Rightarrow> exn + string \<Rightarrow> datetime \<Rightarrow> execution_ledger \<Rightarrow> invocation \<times> execution_ledger" where
  "tx_settle i answer now L = (case answer of
     Inl e \<Rightarrow> invoke_failed i e now L | Inr x \<Rightarrow> (Ended (Inr x), L))"

definition tx_commit :: "string \<Rightarrow> string \<Rightarrow> datetime \<Rightarrow> execution_ledger \<Rightarrow> (exn + execution_record) \<times> execution_ledger" where
  "tx_commit i x now L = exec_commit i x now L"

datatype recovery_action = XA_RELEASE | XA_RECONCILE

record recovery_decision =
  xd_id :: string
  xd_action :: recovery_action
  xd_reason :: string

text \<open>\<open>recover\<close> over the pending records, with the time of every mark.\<close>

fun recover_records ::
  "execution_record list \<Rightarrow> (nat \<Rightarrow> datetime) \<Rightarrow> execution_ledger \<Rightarrow> (exn + recovery_decision list) \<times> execution_ledger" where
  "recover_records [] clock L = (Inr [], L)"
| "recover_records (r # rs) clock L =
     (if xr_status r = XS_PREPARED then
        (case recover_records rs clock L of (out, L') \<Rightarrow>
          (map_sum id (Cons \<lparr>xd_id = xr_id r, xd_action = XA_RELEASE,
             xd_reason = ''execution never started; safe to re-initiate''\<rparr>) out, L'))
      else (case exec_require_reconciliation (xr_id r) (clock (length rs)) L of
          (Inl e, L') \<Rightarrow> (Inl e, L')
        | (Inr _, L') \<Rightarrow> (case recover_records rs clock L' of (out, L'') \<Rightarrow>
            (map_sum id (Cons \<lparr>xd_id = xr_id r, xd_action = XA_RECONCILE,
               xd_reason = ''side effect is uncertain; host reconciliation required''\<rparr>) out, L''))))"

definition tx_recover ::
  "string option \<Rightarrow> (nat \<Rightarrow> datetime) \<Rightarrow> execution_ledger \<Rightarrow> (exn + recovery_decision list) \<times> execution_ledger" where
  "tx_recover run clock L = recover_records (exec_pending run L) clock L"

record reconciliation_outcome =
  xo_committed :: bool
  xo_result :: "string option"
  xo_error :: string

definition new_ReconciliationOutcome :: "reconciliation_outcome \<Rightarrow> exn + reconciliation_outcome" where
  "new_ReconciliationOutcome r =
     (if xo_committed r then
        require (xo_result r \<noteq> None) ''committed outcome requires a result payload''
       (require (xo_error r = []) ''committed outcome must not carry an error'' (Inr r))
      else
        require (xo_error r \<noteq> []) ''failed outcome requires an error message''
       (require (xo_result r = None) ''failed outcome must not carry a result payload'' (Inr r)))"

definition tx_reconcile ::
  "string \<Rightarrow> reconciliation_outcome \<Rightarrow> datetime \<Rightarrow> execution_ledger \<Rightarrow> (exn + execution_record) \<times> execution_ledger" where
  "tx_reconcile i r now L =
     (if xo_committed r then
        (case xo_result r of
           None \<Rightarrow> (Inl (ValueError ''committed outcome requires a result payload''), L)
         | Some x \<Rightarrow> exec_commit i x now L)
      else exec_fail i (xo_error r) now L)"

end
