(* ===== verification/ExecutionProperties.thy ===== *)
theory ExecutionProperties
  imports Execution "HOL-Library.Multiset"
begin

text \<open>
  Side effects happen at most once, whatever calls of the invoker and of the transactional executor
  are interleaved, recovered and reconciled on one ledger, and also when they crash.
\<close>

section \<open>Calls on one ledger\<close>

text \<open>
  A call of \<open>invoke\<close> (flag \<open>True\<close>) or of \<open>execute\<close>. \<open>sy_effects\<close> records the request hash of every
  run of an executor. A new execution identifier is a fresh \<open>uuid4\<close>.
\<close>

record system =
  sy_ledger :: execution_ledger
  sy_calls :: "(bool \<times> invocation) list"
  sy_effects :: "string list"

definition new_system :: system where
  "new_system = \<lparr>sy_ledger = new_execution_ledger, sy_calls = [], sy_effects = []\<rparr>"

inductive exec_step :: "(pyval \<Rightarrow> string) \<Rightarrow> system \<Rightarrow> system \<Rightarrow> bool" for digest where
  entering: "exec_get i (sy_ledger S) = None \<Longrightarrow> invoke_enter digest q i now (sy_ledger S) = (c, L)
    \<Longrightarrow> exec_step digest S (S\<lparr>sy_ledger := L, sy_calls := sy_calls S @ [(True, c)]\<rparr>)"
| preparing: "exec_get i (sy_ledger S) = None
    \<Longrightarrow> exec_step digest S (S\<lparr>sy_ledger := snd (tx_prepare digest q i now (sy_ledger S))\<rparr>)"
| executing: "exec_step digest S (S\<lparr>sy_calls := sy_calls S @ [(False, Claimed i)]\<rparr>)"
| marking: "k < length (sy_calls S) \<Longrightarrow> sy_calls S ! k = (b, Claimed i) \<Longrightarrow> invoke_mark i now (sy_ledger S) = (c, L)
    \<Longrightarrow> exec_step digest S (S\<lparr>sy_ledger := L, sy_calls := (sy_calls S)[k := (b, c)]\<rparr>)"
| running: "k < length (sy_calls S) \<Longrightarrow> sy_calls S ! k = (b, Dispatched i) \<Longrightarrow> exec_get i (sy_ledger S) = Some r
    \<Longrightarrow> exec_step digest S (S\<lparr>sy_calls := (sy_calls S)[k := (b, Answered i answer)], sy_effects := sy_effects S @ [xr_hash r]\<rparr>)"
| settling: "k < length (sy_calls S) \<Longrightarrow> sy_calls S ! k = (b, Answered i answer)
    \<Longrightarrow> (if b then invoke_settle else tx_settle) i answer now (sy_ledger S) = (c, L)
    \<Longrightarrow> exec_step digest S (S\<lparr>sy_ledger := L, sy_calls := (sy_calls S)[k := (b, c)]\<rparr>)"
| committing: "exec_step digest S (S\<lparr>sy_ledger := snd (tx_commit i x now (sy_ledger S))\<rparr>)"
| reconciling: "exec_step digest S (S\<lparr>sy_ledger := snd (tx_reconcile i out now (sy_ledger S))\<rparr>)"
| recovering: "exec_step digest S (S\<lparr>sy_ledger := snd (exec_require_reconciliation i now (sy_ledger S))\<rparr>)"
| crashing: "exec_step digest S (S\<lparr>sy_calls := take n (sy_calls S)\<rparr>)"

section \<open>The ledger moves forward\<close>

definition legal :: "execution_status \<Rightarrow> execution_status \<Rightarrow> bool" where
  "legal a b \<longleftrightarrow> a \<in> set (legal_sources b)"

text \<open>A record keeps its request, moves along legal transitions and does not change once it is final.\<close>

definition advanced :: "execution_record \<Rightarrow> execution_record \<Rightarrow> bool" where
  "advanced r r' \<longleftrightarrow> xr_id r' = xr_id r \<and> xr_run r' = xr_run r \<and> xr_hash r' = xr_hash r
     \<and> legal\<^sup>*\<^sup>* (xr_status r) (xr_status r') \<and> (xr_status r \<in> {XS_COMMITTED, XS_FAILED} \<longrightarrow> r' = r)"

definition advances :: "execution_ledger \<Rightarrow> execution_ledger \<Rightarrow> bool" where
  "advances L L' \<longleftrightarrow> (\<forall>i r. exec_get i L = Some r \<longrightarrow> (\<exists>r'. exec_get i L' = Some r' \<and> advanced r r'))"

definition ledger_ok :: "execution_ledger \<Rightarrow> bool" where
  "ledger_ok L \<longleftrightarrow> dict_ok (xl_records L)
     \<and> (\<forall>i r. exec_get i L = Some r \<longrightarrow> xr_id r = i \<and> dict_get (xl_by_hash L) (xr_hash r) = Some i
       \<and> new_ExecutionRecord r = Inr r)
     \<and> (\<forall>h i. dict_get (xl_by_hash L) h = Some i \<longrightarrow> (\<exists>r. exec_get i L = Some r \<and> xr_hash r = h))"

lemma legal_final: "legal a b \<Longrightarrow> a \<notin> {XS_COMMITTED, XS_FAILED}"
  by (cases b) (auto simp: legal_def)

lemma not_prepared: "legal\<^sup>*\<^sup>* a b \<Longrightarrow> a \<noteq> XS_PREPARED \<Longrightarrow> b \<noteq> XS_PREPARED"
  by (induction rule: rtranclp_induct) (auto simp: legal_def)

lemma advanced_refl: "advanced r r"
  by (simp add: advanced_def)

lemma advanced_trans: "advanced r r' \<Longrightarrow> advanced r' r'' \<Longrightarrow> advanced r r''"
  unfolding advanced_def by (metis rtranclp_trans)

lemma advances_refl: "advances L L"
  by (simp add: advances_def advanced_refl)

lemma advances_trans: "advances L L' \<Longrightarrow> advances L' L'' \<Longrightarrow> advances L L''"
  unfolding advances_def by (metis advanced_trans)

lemma exec_get_set [simp]: "exec_get i (L\<lparr>xl_records := dict_set j r (xl_records L)\<rparr>) = (if i = j then Some r else exec_get i L)"
  by (simp add: exec_get_def)

lemma new_record_Inr: "new_ExecutionRecord r = Inr x \<Longrightarrow> x = r"
  by (simp add: new_ExecutionRecord_def)

lemma ledger_okD1: "ledger_ok L \<Longrightarrow> exec_get i L = Some r \<Longrightarrow> xr_id r = i \<and> dict_get (xl_by_hash L) (xr_hash r) = Some i
    \<and> new_ExecutionRecord r = Inr r"
  by (simp add: ledger_ok_def)

lemma ledger_okD2: "ledger_ok L \<Longrightarrow> dict_get (xl_by_hash L) h = Some i \<Longrightarrow> \<exists>r. exec_get i L = Some r \<and> xr_hash r = h"
  by (simp add: ledger_ok_def)

lemma ledger_hash: "ledger_ok L \<Longrightarrow> dict_get (xl_by_hash L) h = Some i \<Longrightarrow> exec_get i L = Some r \<Longrightarrow> xr_hash r = h"
  using ledger_okD2 by fastforce

lemma transition_cases:
  assumes "exec_transition i target payload err now L = (out, L')"
  obtains (kept) e where "out = Inl e" and "L' = L"
    | (moved) r r' where "out = Inr r'" and "exec_get i L = Some r" and "xr_status r \<in> set (legal_sources target)"
      and "r' = r\<lparr>xr_status := target, xr_result := (case payload of None \<Rightarrow> xr_result r | Some p \<Rightarrow> Some p),
            xr_error := (case err of None \<Rightarrow> xr_error r | Some e \<Rightarrow> e), xr_updated := now\<rparr>"
      and "new_ExecutionRecord r' = Inr r'" and "L' = L\<lparr>xl_records := dict_set i r' (xl_records L)\<rparr>"
proof (cases "dict_get (xl_records L) i")
  case None
  then show ?thesis
    using assms kept by (auto simp: exec_transition_def)
next
  case (Some r)
  let ?r = "r\<lparr>xr_status := target, xr_result := (case payload of None \<Rightarrow> xr_result r | Some p \<Rightarrow> Some p),
            xr_error := (case err of None \<Rightarrow> xr_error r | Some e \<Rightarrow> e), xr_updated := now\<rparr>"
  show ?thesis
  proof (cases "xr_status r \<in> set (legal_sources target) \<and> new_ExecutionRecord ?r = Inr ?r")
    case True
    then have "out = Inr ?r" "L' = L\<lparr>xl_records := dict_set i ?r (xl_records L)\<rparr>"
      using assms Some by (simp_all add: exec_transition_def)
    then show ?thesis
      using moved Some True by (simp add: exec_get_def)
  next
    case False
    then consider "xr_status r \<notin> set (legal_sources target)" | e where "new_ExecutionRecord ?r = Inl e"
      using new_record_Inr [of ?r] by (cases "new_ExecutionRecord ?r") blast+
    then show ?thesis
    proof cases
      case 1
      then show ?thesis
        using assms Some kept by (auto simp: exec_transition_def)
    next
      case 2
      then show ?thesis
        using assms Some kept by (cases "xr_status r \<in> set (legal_sources target)") (auto simp add: exec_transition_def 2)
    qed
  qed
qed

lemma transition_advances:
  assumes "ledger_ok L" and "exec_transition i target payload err now L = (out, L')"
  shows "ledger_ok L' \<and> advances L L' \<and> xl_by_hash L' = xl_by_hash L"
  using assms(2)
proof (cases rule: transition_cases)
  case kept
  then show ?thesis
    using assms(1) advances_refl by simp
next
  case (moved r r')
  have r: "xr_id r = i" "dict_get (xl_by_hash L) (xr_hash r) = Some i"
    using ledger_okD1 [OF assms(1) moved(2)] by simp_all
  have adv: "advanced r r'"
    using moved(3) legal_final [of "xr_status r" target] by (auto simp: advanced_def legal_def moved(4))
  have get: "exec_get j L' = (if j = i then Some r' else exec_get j L)" for j
    by (simp add: moved(6))
  have "xr_id x = j \<and> dict_get (xl_by_hash L) (xr_hash x) = Some j \<and> new_ExecutionRecord x = Inr x"
    if "exec_get j L' = Some x" for j x
  proof (cases "j = i")
    case True
    have "xr_id r' = xr_id r" "xr_hash r' = xr_hash r"
      by (simp_all add: moved(4))
    moreover have "x = r'"
      using that True by (simp add: get)
    ultimately show ?thesis
      using r moved(5) True by simp
  next
    case False
    then show ?thesis
      using that ledger_okD1 [OF assms(1), of j x] by (simp add: get)
  qed
  moreover have "\<exists>x. exec_get j L' = Some x \<and> xr_hash x = h" if "dict_get (xl_by_hash L) h = Some j" for h j
    using ledger_okD2 [OF assms(1) that] ledger_hash [OF assms(1) that] moved(2) by (auto simp: get moved(4))
  moreover have "advances L L'"
    using adv moved(2) by (auto simp: advances_def get advanced_refl)
  moreover have "dict_ok (xl_records L')"
    using assms(1) by (simp add: ledger_ok_def moved(6))
  ultimately show ?thesis
    by (simp add: ledger_ok_def moved(6))
qed

lemma prepare_advances:
  assumes ok: "ledger_ok L" and fresh: "exec_get (xr_id c) L = None" and valid: "new_ExecutionRecord c = Inr c"
    and prep: "exec_prepare c L = (out, L')"
  shows "ledger_ok L' \<and> advances L L' \<and> (\<forall>r. out = Inr r \<longrightarrow> exec_get (xr_id r) L' = Some r \<and> xr_hash r = xr_hash c
     \<and> (xr_id r = xr_id c \<longrightarrow> xr_status r = XS_PREPARED \<and> dict_get (xl_by_hash L) (xr_hash c) = None)
     \<and> (xr_id r \<noteq> xr_id c \<longrightarrow> L' = L))
     \<and> (\<forall>h i. dict_get (xl_by_hash L) h = Some i \<longrightarrow> dict_get (xl_by_hash L') h = Some i)"
proof (cases "dict_get (xl_by_hash L) (xr_hash c)")
  case (Some i)
  then obtain r where r: "exec_get i L = Some r" "xr_hash r = xr_hash c"
    using ledger_okD2 [OF ok] by blast
  moreover have "xr_id r = i"
    using ledger_okD1 [OF ok r(1)] by simp
  moreover have "i \<noteq> xr_id c"
    using r fresh by auto
  ultimately show ?thesis
    using prep Some ok advances_refl by (auto simp: exec_prepare_def exec_get_def)
next
  case None
  show ?thesis
  proof (cases "xr_status c = XS_PREPARED")
    case True
    have new: "\<not> dict_has (xr_id c) (xl_records L)"
      using fresh by (simp add: exec_get_def dict_has_get)
    have L': "out = Inr c" "L' = L\<lparr>xl_records := dict_set (xr_id c) c (xl_records L),
        xl_by_hash := dict_set (xr_hash c) (xr_id c) (xl_by_hash L)\<rparr>"
      using prep None True new by (simp_all add: exec_prepare_def)
    have "advances L L'"
      using fresh by (auto simp: advances_def L' exec_get_def intro: advanced_refl)
    moreover have "ledger_ok L'"
      unfolding ledger_ok_def
    proof (intro conjI allI impI)
      fix j x
      assume x: "exec_get j L' = Some x"
      have other: "xr_hash y \<noteq> xr_hash c" if "exec_get j L = Some y" for y
        using ledger_okD1 [OF ok that] None by auto
      show "xr_id x = j" "dict_get (xl_by_hash L') (xr_hash x) = Some j"
        using x ledger_okD1 [OF ok, of j x] other by (auto simp: L' exec_get_def split: if_splits)
      show "new_ExecutionRecord x = Inr x"
        using x ledger_okD1 [OF ok, of j x] valid by (auto simp: L' exec_get_def split: if_splits)
    next
      show "dict_ok (xl_records L')"
        using ok by (simp add: L' ledger_ok_def)
    next
      fix h j
      assume "dict_get (xl_by_hash L') h = Some j"
      then show "\<exists>x. exec_get j L' = Some x \<and> xr_hash x = h"
        using ledger_okD2 [OF ok, of h j] fresh by (cases "h = xr_hash c") (auto simp: L' exec_get_def)
    qed
    ultimately show ?thesis
      using L' True None by (auto simp: exec_get_def)
  next
    case False
    then show ?thesis
      using prep None ok advances_refl by (auto simp: exec_prepare_def)
  qed
qed

lemma candidate_cases:
  "candidate_record digest q i now = Inr c \<Longrightarrow> xr_id c = i \<and> xr_status c = XS_PREPARED
     \<and> new_ExecutionRecord c = Inr c \<and> canonical_request_hash digest (vq_operation q) (vq_arguments q) = Inr (xr_hash c)"
  by (auto simp: candidate_record_def new_ExecutionRecord_def split: sum.splits)

section \<open>At most one execution\<close>

definition about_to_run :: "string \<Rightarrow> (bool \<times> invocation) list \<Rightarrow> nat" where
  "about_to_run i cs = count (mset (map snd cs)) (Dispatched i)"

definition times_run :: "string \<Rightarrow> system \<Rightarrow> nat" where
  "times_run h S = count (mset (sy_effects S)) h"

definition system_ok :: "system \<Rightarrow> bool" where
  "system_ok S \<longleftrightarrow> ledger_ok (sy_ledger S)
     \<and> (\<forall>i r. exec_get i (sy_ledger S) = Some r \<longrightarrow>
          times_run (xr_hash r) S + about_to_run i (sy_calls S) \<le> (if xr_status r = XS_PREPARED then 0 else 1))
     \<and> (\<forall>h. times_run h S > 0 \<longrightarrow> dict_get (xl_by_hash (sy_ledger S)) h \<noteq> None)
     \<and> (\<forall>i. about_to_run i (sy_calls S) > 0 \<longrightarrow> exec_get i (sy_ledger S) \<noteq> None)"

definition grows :: "execution_ledger \<Rightarrow> execution_ledger \<Rightarrow> bool" where
  "grows L L' \<longleftrightarrow> ledger_ok L' \<and> advances L L'
     \<and> (\<forall>h i. dict_get (xl_by_hash L) h = Some i \<longrightarrow> dict_get (xl_by_hash L') h = Some i)"

lemma grows_refl: "ledger_ok L \<Longrightarrow> grows L L"
  by (simp add: grows_def advances_refl)

lemma transition_grows:
  "ledger_ok L \<Longrightarrow> exec_transition i target payload err now L = (out, L') \<Longrightarrow> grows L L'"
  using transition_advances by (fastforce simp: grows_def)

lemma about_simps [simp]:
  "about_to_run i [] = 0"
  "about_to_run i (cs @ [(b, c)]) = about_to_run i cs + (if c = Dispatched i then 1 else 0)"
  by (simp_all add: about_to_run_def)

lemma about_update:
  assumes "k < length cs" and "cs ! k = (b, c0)"
  shows "about_to_run i (cs[k := (b', c)]) + (if c0 = Dispatched i then 1 else 0)
    = about_to_run i cs + (if c = Dispatched i then 1 else 0)"
proof -
  let ?xs = "map snd cs"
  have k: "k < length ?xs" "?xs ! k = c0"
    using assms by simp_all
  then have "0 < count (mset ?xs) c0"
    by (metis count_greater_zero_iff in_multiset_in_set nth_mem)
  moreover have "count (mset (?xs[k := c])) x = (if c = x then 1 else 0) + (count (mset ?xs) x - (if c0 = x then 1 else 0))" for x
    unfolding mset_update [OF k(1)] k(2) by simp
  ultimately have "count (mset (?xs[k := c])) x + (if c0 = x then 1 else 0) = count (mset ?xs) x + (if c = x then 1 else 0)" for x
    by (cases "c0 = x") (simp_all del: mset_map count_greater_zero_iff)
  then show ?thesis
    by (simp add: about_to_run_def map_update)
qed

lemma about_take: "about_to_run i (take n cs) \<le> about_to_run i cs"
proof -
  have "about_to_run i cs = about_to_run i (take n cs) + about_to_run i (drop n cs)"
    unfolding about_to_run_def by (metis append_take_drop_id count_union map_append mset_append)
  then show ?thesis
    by simp
qed

lemma system_run_known: "system_ok S \<Longrightarrow> times_run h S > 0 \<Longrightarrow> \<exists>j. dict_get (xl_by_hash (sy_ledger S)) h = Some j"
  unfolding system_ok_def by blast

lemma system_bound: "system_ok S \<Longrightarrow> exec_get i (sy_ledger S) = Some r
    \<Longrightarrow> times_run (xr_hash r) S + about_to_run i (sy_calls S) \<le> (if xr_status r = XS_PREPARED then 0 else 1)"
  by (simp add: system_ok_def)

lemma calm_step:
  assumes ok: "system_ok S" and L: "grows (sy_ledger S) L" and cs: "\<And>i. about_to_run i cs \<le> about_to_run i (sy_calls S)"
  shows "system_ok (S\<lparr>sy_ledger := L, sy_calls := cs\<rparr>)"
proof -
  have L': "ledger_ok L" "advances (sy_ledger S) L"
    "\<And>h i. dict_get (xl_by_hash (sy_ledger S)) h = Some i \<Longrightarrow> dict_get (xl_by_hash L) h = Some i"
    using L by (auto simp: grows_def)
  have kept: "exec_get i L \<noteq> None" if "exec_get i (sy_ledger S) \<noteq> None" for i
    using L'(2) that by (auto simp: advances_def)
  have bound: "times_run (xr_hash r') S + about_to_run i cs \<le> (if xr_status r' = XS_PREPARED then 0 else 1)"
    if r': "exec_get i L = Some r'" for i r'
  proof (cases "exec_get i (sy_ledger S)")
    case (Some r)
    then have adv: "advanced r r'"
      using L'(2) r' unfolding advances_def by (metis option.inject)
    then have "xr_status r = XS_PREPARED" if "xr_status r' = XS_PREPARED"
      using not_prepared that by (auto simp: advanced_def)
    moreover have "times_run (xr_hash r) S + about_to_run i (sy_calls S) \<le> (if xr_status r = XS_PREPARED then 0 else 1)"
      using ok Some by (simp add: system_ok_def)
    ultimately show ?thesis
      using adv cs [of i] by (cases "xr_status r' = XS_PREPARED") (simp_all add: advanced_def split: if_splits)
  next
    case None
    have "times_run (xr_hash r') S = 0"
    proof (rule ccontr)
      assume "times_run (xr_hash r') S \<noteq> 0"
      then obtain j where j: "dict_get (xl_by_hash (sy_ledger S)) (xr_hash r') = Some j"
        using system_run_known [OF ok, of "xr_hash r'"] by blast
      then have "j = i"
        using L'(3) [OF j] ledger_okD1 [OF L'(1) r'] by simp
      then show False
        using j None ledger_okD2 [of "sy_ledger S", OF _ j] ok by (auto simp: system_ok_def)
    qed
    moreover have "about_to_run i (sy_calls S) = 0"
      using ok None by (auto simp: system_ok_def)
    ultimately show ?thesis
      using cs [of i] by simp
  qed
  have same: "times_run h (S\<lparr>sy_ledger := L, sy_calls := cs\<rparr>) = times_run h S" for h
    by (simp add: times_run_def)
  have "exec_get i L \<noteq> None" if "about_to_run i cs > 0" for i
    using kept [of i] cs [of i] that ok by (fastforce simp: system_ok_def)
  moreover have "dict_get (xl_by_hash L) h \<noteq> None" if "times_run h S > 0" for h
    using system_run_known [OF ok that] L'(3) by auto
  ultimately show ?thesis
    using L'(1) bound by (simp add: system_ok_def same)
qed

lemma failed_grows:
  assumes "ledger_ok L" and "invoke_failed i e now L = (c, L')"
  shows "grows L L' \<and> (\<forall>j. c \<noteq> Dispatched j)"
  using assms transition_grows [OF assms(1)] grows_refl [OF assms(1)]
  by (auto simp: invoke_failed_def exec_fail_def split: if_splits prod.splits sum.splits)

lemma settle_grows:
  assumes "ledger_ok L" and "(if b then invoke_settle else tx_settle) i answer now L = (c, L')"
  shows "grows L L' \<and> (\<forall>j. c \<noteq> Dispatched j)"
  using assms transition_grows [OF assms(1)] grows_refl [OF assms(1)] failed_grows [OF assms(1)]
  by (cases answer) (auto simp: invoke_settle_def tx_settle_def exec_commit_def split: if_splits prod.splits sum.splits)

lemma prepare_grows:
  assumes "ledger_ok L" and "exec_get (xr_id c) L = None" and "new_ExecutionRecord c = Inr c"
    and "exec_prepare c L = (out, L')"
  shows "grows L L'"
  using prepare_advances [OF assms] by (simp add: grows_def)

lemma enter_grows:
  assumes ok: "ledger_ok L" and fresh: "exec_get i L = None" and enter: "invoke_enter digest q i now L = (c, L')"
  shows "grows L L' \<and> (\<forall>j. c \<noteq> Dispatched j)"
proof (cases "candidate_record digest q i now")
  case (Inl e)
  then show ?thesis
    using enter ok grows_refl by (auto simp: invoke_enter_def)
next
  case (Inr x)
  obtain out L1 where prep: "exec_prepare x L = (out, L1)"
    by fastforce
  have "grows L L1"
    by (rule prepare_grows [OF ok _ _ prep]) (use fresh candidate_cases [OF Inr] in simp_all)
  then show ?thesis
    using enter by (auto simp: invoke_enter_def Inr prep split: sum.splits if_splits option.splits)
qed

lemma transition_snd_grows: "ledger_ok L \<Longrightarrow> grows L (snd (exec_transition i target payload err now L))"
  using transition_grows by (metis prod.collapse)

lemma reconcile_grows: "ledger_ok L \<Longrightarrow> grows L (snd (tx_reconcile i out now L))"
  by (auto simp: tx_reconcile_def exec_commit_def exec_fail_def transition_snd_grows grows_refl split: option.split)

lemma tx_prepare_grows:
  assumes "ledger_ok L" and "exec_get i L = None"
  shows "grows L (snd (tx_prepare digest q i now L))"
proof (cases "candidate_record digest q i now")
  case (Inr c)
  then show ?thesis
    using prepare_grows [OF assms(1), of c] candidate_cases [OF Inr] assms(2)
    by (cases "exec_prepare c L") (simp add: tx_prepare_def)
qed (simp add: tx_prepare_def grows_refl assms)

text \<open>Marking a record: it was prepared, and is executing now.\<close>

lemma mark_step:
  assumes ok: "system_ok S" and k: "k < length (sy_calls S)" "sy_calls S ! k = (b, Claimed i)"
    and mark: "invoke_mark i now (sy_ledger S) = (c, L)"
  shows "system_ok (S\<lparr>sy_ledger := L, sy_calls := (sy_calls S)[k := (b, c)]\<rparr>)"
proof -
  let ?cs = "(sy_calls S)[k := (b, c)]"
  have L0: "ledger_ok (sy_ledger S)"
    using ok by (simp add: system_ok_def)
  have about: "about_to_run j ?cs = about_to_run j (sy_calls S) + (if c = Dispatched j then 1 else 0)" for j
    using about_update [OF k, of j b c] by simp
  obtain out where t: "exec_transition i XS_EXECUTING None None now (sy_ledger S) = (out, L)"
    using mark by (auto simp: invoke_mark_def exec_mark_def split: prod.splits sum.splits)
  have grows: "grows (sy_ledger S) L"
    by (rule transition_grows [OF L0 t])
  from t show ?thesis
  proof (cases rule: transition_cases)
    case (kept e)
    then have c: "c = Ended (Inl (Fault e))"
      using mark t by (simp add: invoke_mark_def exec_mark_def)
    have "about_to_run j ?cs \<le> about_to_run j (sy_calls S)" for j
      using about [of j] by (simp add: c)
    then show ?thesis
      by (rule calm_step [OF ok grows])
  next
    case (moved r r')
    have c: "c = Dispatched i"
      using mark t moved(1) by (simp add: invoke_mark_def exec_mark_def)
    have r: "xr_status r = XS_PREPARED" "xr_status r' = XS_EXECUTING" "xr_hash r' = xr_hash r"
      using moved(3) by (simp_all add: moved(4))
    have none: "times_run (xr_hash r) S = 0" "about_to_run i (sy_calls S) = 0"
      using system_bound [OF ok moved(2)] r(1) by simp_all
    have get: "exec_get j L = (if j = i then Some r' else exec_get j (sy_ledger S))" for j
      by (simp add: moved(6))
    have same: "times_run h (S\<lparr>sy_ledger := L, sy_calls := ?cs\<rparr>) = times_run h S" for h
      by (simp add: times_run_def)
    have "times_run (xr_hash x) S + about_to_run j ?cs \<le> (if xr_status x = XS_PREPARED then 0 else 1)"
      if x: "exec_get j L = Some x" for j x
    proof (cases "j = i")
      case True
      then show ?thesis
        using x none r about [of j] by (simp add: get c)
    next
      case False
      then show ?thesis
        using x system_bound [OF ok] about [of j] by (simp add: get c)
    qed
    moreover have "exec_get j L \<noteq> None" if "about_to_run j ?cs > 0" for j
      using that ok about [of j] unfolding system_ok_def by (cases "j = i") (simp_all add: get c)
    moreover have "xl_by_hash L = xl_by_hash (sy_ledger S)"
      by (simp add: moved(6))
    ultimately show ?thesis
      using ok grows by (simp add: system_ok_def same grows_def)
  qed
qed

lemma run_step:
  assumes ok: "system_ok S" and k: "k < length (sy_calls S)" "sy_calls S ! k = (b, Dispatched i)"
    and r: "exec_get i (sy_ledger S) = Some r"
  shows "system_ok (S\<lparr>sy_calls := (sy_calls S)[k := (b, Answered i answer)], sy_effects := sy_effects S @ [xr_hash r]\<rparr>)"
proof -
  let ?S = "S\<lparr>sy_calls := (sy_calls S)[k := (b, Answered i answer)], sy_effects := sy_effects S @ [xr_hash r]\<rparr>"
  have L0: "ledger_ok (sy_ledger S)"
    using ok by (simp add: system_ok_def)
  have about: "about_to_run j (sy_calls ?S) + (if j = i then 1 else 0) = about_to_run j (sy_calls S)" for j
    using about_update [OF k, of j b "Answered i answer"] by auto
  have ran: "times_run h ?S = times_run h S + (if h = xr_hash r then 1 else 0)" for h
    by (simp add: times_run_def)
  have "times_run (xr_hash x) ?S + about_to_run j (sy_calls ?S) \<le> (if xr_status x = XS_PREPARED then 0 else 1)"
    if x: "exec_get j (sy_ledger S) = Some x" for j x
  proof -
    have "xr_hash x = xr_hash r \<longleftrightarrow> j = i"
      using x r ledger_okD1 [OF L0] by (metis option.inject)
    moreover have "times_run (xr_hash x) S + about_to_run j (sy_calls S) \<le> (if xr_status x = XS_PREPARED then 0 else 1)"
      using ok x by (simp add: system_ok_def)
    ultimately show ?thesis
      using ran [of "xr_hash x"] about [of j] by (cases "j = i") simp_all
  qed
  moreover have "dict_get (xl_by_hash (sy_ledger S)) h \<noteq> None" if "times_run h ?S > 0" for h
    using that system_run_known [OF ok, of h] ledger_okD1 [OF L0 r] by (cases "h = xr_hash r") (auto simp: ran)
  moreover have "exec_get j (sy_ledger S) \<noteq> None" if "about_to_run j (sy_calls ?S) > 0" for j
    using that ok about [of j] unfolding system_ok_def by (metis add_gr_0)
  ultimately show ?thesis
    using L0 by (simp add: system_ok_def)
qed

lemma system_ledger: "system_ok S \<Longrightarrow> ledger_ok (sy_ledger S)"
  by (simp add: system_ok_def)

lemma step_grows: "exec_step digest S S' \<Longrightarrow> ledger_ok (sy_ledger S) \<Longrightarrow> grows (sy_ledger S) (sy_ledger S')"
proof (induction rule: exec_step.induct)
  case (entering i S q now c L)
  then show ?case
    using enter_grows by fastforce
next
  case (marking k S b i now c L)
  then show ?case
    using transition_grows by (auto simp: invoke_mark_def exec_mark_def split: prod.splits sum.splits)
next
  case (settling k S b i answer now c L)
  then show ?case
    using settle_grows by fastforce
qed (simp_all add: tx_prepare_grows grows_refl tx_commit_def exec_commit_def exec_require_reconciliation_def
    transition_snd_grows reconcile_grows)

lemma step_system: "exec_step digest S S' \<Longrightarrow> system_ok S \<Longrightarrow> system_ok S'"
proof (induction rule: exec_step.induct)
  case (entering i S q now c L)
  then have "grows (sy_ledger S) L" "\<forall>j. c \<noteq> Dispatched j"
    using enter_grows [OF system_ledger] by blast+
  then show ?case
    by (intro calm_step [OF entering(3)]) simp_all
next
  case (preparing i S q now)
  have "system_ok (S\<lparr>sy_ledger := snd (tx_prepare digest q i now (sy_ledger S)), sy_calls := sy_calls S\<rparr>)"
    by (rule calm_step [OF preparing(2) tx_prepare_grows [OF system_ledger [OF preparing(2)] preparing(1)]]) simp
  then show ?case
    by simp
next
  case (executing S i)
  have "system_ok (S\<lparr>sy_ledger := sy_ledger S, sy_calls := sy_calls S @ [(False, Claimed i)]\<rparr>)"
    by (rule calm_step [OF executing grows_refl [OF system_ledger [OF executing]]]) simp
  then show ?case
    by simp
next
  case (marking k S b i now c L)
  then show ?case
    by (intro mark_step)
next
  case (running k S b i r answer)
  then show ?case
    by (intro run_step)
next
  case (settling k S b i answer now c L)
  then have "grows (sy_ledger S) L" and c: "\<forall>j. c \<noteq> Dispatched j"
    using settle_grows [OF system_ledger] by blast+
  then show ?case
    using about_update [OF settling(1,2), of _ b c] by (intro calm_step [OF settling(4)]) simp_all
next
  case (committing S i x now)
  have "system_ok (S\<lparr>sy_ledger := snd (tx_commit i x now (sy_ledger S)), sy_calls := sy_calls S\<rparr>)"
    by (rule calm_step [OF committing]) (simp_all add: tx_commit_def exec_commit_def transition_snd_grows system_ledger [OF committing])
  then show ?case
    by simp
next
  case (reconciling S i out now)
  have "system_ok (S\<lparr>sy_ledger := snd (tx_reconcile i out now (sy_ledger S)), sy_calls := sy_calls S\<rparr>)"
    by (rule calm_step [OF reconciling reconcile_grows [OF system_ledger [OF reconciling]]]) simp
  then show ?case
    by simp
next
  case (recovering S i now)
  have "system_ok (S\<lparr>sy_ledger := snd (exec_require_reconciliation i now (sy_ledger S)), sy_calls := sy_calls S\<rparr>)"
    by (rule calm_step [OF recovering])
      (simp_all add: exec_require_reconciliation_def transition_snd_grows system_ledger [OF recovering])
  then show ?case
    by simp
next
  case (crashing S n)
  have "system_ok (S\<lparr>sy_ledger := sy_ledger S, sy_calls := take n (sy_calls S)\<rparr>)"
    by (rule calm_step [OF crashing grows_refl [OF system_ledger [OF crashing]]]) (rule about_take)
  then show ?case
    by simp
qed

lemma new_system_ok: "system_ok new_system"
  by (simp add: system_ok_def new_system_def new_execution_ledger_def ledger_ok_def exec_get_def times_run_def)

lemma steps_system:
  assumes "(exec_step digest)\<^sup>*\<^sup>* S S'" and "system_ok S"
  shows "system_ok S' \<and> grows (sy_ledger S) (sy_ledger S')"
  using assms(1)
proof (induction rule: rtranclp_induct)
  case base
  then show ?case
    using assms(2) grows_refl system_ledger by blast
next
  case (step S1 S2)
  have "system_ok S2" "grows (sy_ledger S1) (sy_ledger S2)"
    using step step_system step_grows system_ledger by blast+
  then show ?case
    using step.IH advances_trans unfolding grows_def by blast
qed

text \<open>
  C33. A side effect happens at most once: in whatever way calls of \<open>invoke\<close> and \<open>execute\<close>, commits,
  recoveries, reconciliations and crashes are interleaved on a ledger, no executor is run twice for
  requests with the same hash.
\<close>
theorem executed_at_most_once:
  assumes "(exec_step digest)\<^sup>*\<^sup>* new_system S"
  shows "distinct (sy_effects S)"
proof -
  have ok: "system_ok S"
    using steps_system [OF assms new_system_ok] by simp
  have "count (mset (sy_effects S)) h \<le> 1" for h
  proof (cases "times_run h S > 0")
    case True
    obtain j r where "exec_get j (sy_ledger S) = Some r" "xr_hash r = h"
      using system_run_known [OF ok True] ledger_okD2 [OF system_ledger [OF ok]] by blast
    then have "times_run h S + about_to_run j (sy_calls S) \<le> (if xr_status r = XS_PREPARED then 0 else 1)"
      using system_bound [OF ok] by blast
    then show ?thesis
      using \<open>xr_hash r = h\<close> by (simp add: times_run_def del: count_mset_0_iff split: if_splits)
  qed (simp add: times_run_def del: count_mset_0_iff count_greater_zero_iff)
  then have "count (mset (sy_effects S)) h = (if h \<in> set (sy_effects S) then 1 else 0)" for h
    by (metis count_eq_zero_iff le_less less_one set_mset_mset)
  then show ?thesis
    by (simp add: distinct_count_atmost_1)
qed

text \<open>
  Records only move forward: over any interleaving, a record keeps its identifier, run and request,
  its status follows the legal transitions, and once committed or failed it does not change at all.
\<close>
theorem execution_records_advance:
  assumes "(exec_step digest)\<^sup>*\<^sup>* new_system S" and "(exec_step digest)\<^sup>*\<^sup>* S S'"
    and "exec_get i (sy_ledger S) = Some r"
  shows "\<exists>r'. exec_get i (sy_ledger S') = Some r' \<and> xr_id r' = xr_id r \<and> xr_run r' = xr_run r \<and> xr_hash r' = xr_hash r
     \<and> legal\<^sup>*\<^sup>* (xr_status r) (xr_status r') \<and> (r' = r \<or> xr_status r \<notin> {XS_COMMITTED, XS_FAILED})"
proof -
  have "grows (sy_ledger S) (sy_ledger S')"
    using steps_system [OF assms(2)] steps_system [OF assms(1) new_system_ok] by blast
  then obtain r' where "exec_get i (sy_ledger S') = Some r'" "advanced r r'"
    using assms(3) unfolding grows_def advances_def by blast
  then show ?thesis
    by (auto simp: advanced_def)
qed

lemma commit_result:
  assumes "ledger_ok L" and "invoke_settle i (Inr x) now L = (Ended (Inr x), L')"
  obtains r where "exec_get i L' = Some r" and "xr_status r = XS_COMMITTED" and "xr_result r = Some x" and "xr_id r = i"
    and "\<exists>r0. exec_get i L = Some r0 \<and> xr_hash r0 = xr_hash r" and "ledger_ok L'"
proof -
  obtain out where t: "exec_transition i XS_COMMITTED (Some x) (Some []) now L = (out, L')" and "\<exists>y. out = Inr y"
    using assms(2) by (auto simp: invoke_settle_def exec_commit_def split: prod.splits sum.splits)
  from t show ?thesis
  proof (cases rule: transition_cases)
    case kept
    then show ?thesis
      using \<open>\<exists>y. out = Inr y\<close> by auto
  next
    case (moved r0 r')
    have "xr_id r' = i"
      using ledger_okD1 [OF assms(1) moved(2)] by (simp add: moved(4))
    then show ?thesis
      using that [of r'] moved(2) transition_grows [OF assms(1) t] by (simp add: moved(4,6) grows_def)
  qed
qed

text \<open>
  C34. The result of a side effect is reused: once \<open>invoke\<close> has returned a result, every later call for a
  request with the same hash, after any interleaving of other calls, returns that result and leaves
  the ledger alone; the executor is not reached.
\<close>
theorem committed_result_reused:
  assumes "(exec_step digest)\<^sup>*\<^sup>* new_system S" and "invoke_settle i (Inr x) now (sy_ledger S) = (Ended (Inr x), L)"
    and "exec_get i (sy_ledger S) = Some r" and "(exec_step digest)\<^sup>*\<^sup>* (S\<lparr>sy_ledger := L\<rparr>) S'"
    and "candidate_record digest q j t = Inr c" and "xr_hash c = xr_hash r" and "exec_get j (sy_ledger S') = None"
  shows "invoke_enter digest q j t (sy_ledger S') = (Ended (Inr x), sy_ledger S')"
proof -
  have ok: "ledger_ok (sy_ledger S)"
    using steps_system [OF assms(1) new_system_ok] system_ledger by blast
  obtain r1 where r1: "exec_get i L = Some r1" "xr_status r1 = XS_COMMITTED" "xr_result r1 = Some x" "xr_id r1 = i"
    and h: "\<exists>r0. exec_get i (sy_ledger S) = Some r0 \<and> xr_hash r0 = xr_hash r1" and L: "ledger_ok L"
    by (rule commit_result [OF ok assms(2)])
  have "grows L (sy_ledger S')"
    using assms(4)
  proof (induction rule: rtranclp_induct)
    case (step S1 S2)
    then show ?case
      using step_grows [OF step(2)] advances_trans unfolding grows_def by blast
  qed (simp add: grows_refl L)
  then have L': "ledger_ok (sy_ledger S')" and "exec_get i (sy_ledger S') = Some r1"
    using r1(1,2) unfolding grows_def advances_def advanced_def by fastforce+
  moreover have "xr_hash c = xr_hash r1"
    using h assms(3,6) by auto
  ultimately have "dict_get (xl_by_hash (sy_ledger S')) (xr_hash c) = Some i"
    using ledger_okD1 by auto
  then have "exec_prepare c (sy_ledger S') = (Inr r1, sy_ledger S')"
    using \<open>exec_get i (sy_ledger S') = Some r1\<close> by (simp add: exec_prepare_def exec_get_def)
  moreover have "xr_id r1 \<noteq> xr_id c"
    using r1(4) assms(7) \<open>exec_get i (sy_ledger S') = Some r1\<close> candidate_cases [OF assms(5)] by auto
  ultimately show ?thesis
    by (simp add: invoke_enter_def assms(5) r1(2,3))
qed

section \<open>Recovery\<close>









text \<open>
  A released execution cannot be invoked again: a request whose record is not committed is refused as
  a duplicate, even when recovery has just declared it safe to initiate once more.
\<close>
theorem released_execution_refused:
  assumes "(exec_step digest)\<^sup>*\<^sup>* new_system S" and "exec_get i (sy_ledger S) = Some r" and "xr_status r \<noteq> XS_COMMITTED"
    and "candidate_record digest q j t = Inr c" and "xr_hash c = xr_hash r" and "exec_get j (sy_ledger S) = None"
  shows "invoke_enter digest q j t (sy_ledger S) = (Ended (Inl (DuplicateExecution i (xr_status r))), sy_ledger S)"
proof -
  have r: "xr_id r = i" "dict_get (xl_by_hash (sy_ledger S)) (xr_hash r) = Some i"
    using ledger_okD1 [OF _ assms(2)] steps_system [OF assms(1) new_system_ok] system_ledger by blast+
  then have "exec_prepare c (sy_ledger S) = (Inr r, sy_ledger S)"
    using assms(2,5) by (simp add: exec_prepare_def exec_get_def)
  moreover have "xr_id r \<noteq> xr_id c"
    using r(1) assms(2,6) candidate_cases [OF assms(4)] by auto
  ultimately show ?thesis
    using assms(3) r(1) by (simp add: invoke_enter_def assms(4))
qed

section \<open>The request hash\<close>

definition canonical_item :: "pyval \<times> pyval \<Rightarrow> bool" where
  "canonical_item kv \<longleftrightarrow> (\<exists>s. fst kv = PStr s) \<and> (\<exists>y. canonicalize (snd kv) = Inr y)"

definition canonical_value :: "pyval \<times> pyval \<Rightarrow> pyval \<times> pyval" where
  "canonical_value kv = (fst kv, projr (canonicalize (snd kv)))"

lemma canonicalize_items_map:
  "canonicalize_items ds = Inr es \<longleftrightarrow> (\<forall>kv \<in> set ds. canonical_item kv) \<and> es = map canonical_value ds"
proof (induction ds arbitrary: es)
  case (Cons kv ds)
  obtain k v where kv: "kv = (k, v)"
    by (cases kv)
  show ?case
  proof (cases "canonical_item kv")
    case True
    then obtain t y where ty: "k = PStr t" "canonicalize v = Inr y"
      by (auto simp: canonical_item_def kv)
    then have item: "canonicalize_items (kv # ds) = map_sum id (Cons (canonical_value kv)) (canonicalize_items ds)"
      by (simp add: kv canonical_value_def)
    show ?thesis
    proof (cases "canonicalize_items ds")
      case (Inl e)
      then show ?thesis
        using Cons.IH [of "map canonical_value ds"] by (simp add: item)
    next
      case (Inr es')
      then show ?thesis
        using Cons.IH [of es'] True by (auto simp: item)
    qed
  next
    case False
    have "canonicalize_items (kv # ds) \<noteq> Inr es"
      using False unfolding kv by (cases k; cases "canonicalize v") (simp_all add: canonical_item_def)
    then show ?thesis
      using False by simp
  qed
qed auto

lemma sort_items_same:
  assumes "mset ds = mset es" and "distinct (map fst ds)" and "\<And>kv. kv \<in> set ds \<Longrightarrow> \<exists>s. fst kv = PStr s"
  shows "sort_items (PDict ds) = sort_items (PDict es)"
proof -
  let ?f = "\<lambda>(k, v). (k, sort_items v)"
  have "mset (map ?f ds) = mset (map ?f es)"
    using assms(1) by (simp add: mset_map)
  moreover have "inj_on key_text (set (map ?f ds))"
  proof (rule inj_onI)
    fix x y
    assume "x \<in> set (map ?f ds)" "y \<in> set (map ?f ds)" and same: "key_text x = key_text y"
    then obtain a b where a: "a \<in> set ds" "x = ?f a" and b: "b \<in> set ds" "y = ?f b"
      by (auto simp: image_iff)
    have "fst a = fst b"
      using assms(3) [OF a(1)] assms(3) [OF b(1)] same a(2) b(2) by (auto simp: key_text_def split_beta)
    then have "a = b"
      using assms(2) a(1) b(1) by (meson distinct_map inj_onD)
    then show "x = y"
      using a(2) b(2) by simp
  qed
  ultimately have "sort_key key_text (map ?f ds) = sort_key key_text (map ?f es)"
    using sort_key_inj_key_eq [of "map ?f ds" "sort_key key_text (map ?f es)" key_text] by simp
  then show ?thesis
    by simp
qed

text \<open>
  C36. The request hash names the request, not its spelling: arguments given in any other order of their
  keys have the same hash, for every digest.
\<close>
theorem request_hash_ignores_order:
  assumes "canonical_request_hash digest operation arguments = Inr h"
    and "mset arguments = mset arguments'" and "distinct (map fst arguments)"
  shows "canonical_request_hash digest operation arguments' = Inr h"
proof -
  have op: "operation \<noteq> []"
    using assms(1) by (auto simp: canonical_request_hash_def)
  obtain ds where ds: "canonicalize_items arguments = Inr ds"
    using assms(1) op by (cases "canonicalize_items arguments") (auto simp: canonical_request_hash_def)
  then have items: "\<forall>kv \<in> set arguments. canonical_item kv" "ds = map canonical_value arguments"
    by (simp_all add: canonicalize_items_map)
  have all: "set arguments' = set arguments"
    using assms(2) by (metis set_mset_mset)
  then have ds': "canonicalize_items arguments' = Inr (map canonical_value arguments')"
    using items(1) by (simp add: canonicalize_items_map)
  have "sort_items (PDict ds) = sort_items (PDict (map canonical_value arguments'))"
  proof (rule sort_items_same)
    show "mset ds = mset (map canonical_value arguments')"
      unfolding items(2) mset_map assms(2) ..
    have "map fst ds = map fst arguments"
      by (simp add: items(2) canonical_value_def)
    then show "distinct (map fst ds)"
      using assms(3) by simp
    show "\<exists>s. fst kv = PStr s" if "kv \<in> set ds" for kv
      using that items by (auto simp: canonical_value_def canonical_item_def)
  qed
  then have "sort_items (PDict [(PStr ''operation'', PStr operation), (PStr ''arguments'', PDict ds)])
      = sort_items (PDict [(PStr ''operation'', PStr operation), (PStr ''arguments'', PDict (map canonical_value arguments'))])"
    by simp
  then show ?thesis
    using assms(1) op ds ds' by (simp add: canonical_request_hash_def del: sort_items.simps)
qed

theorem request_hash_ignores_order_witness:
  "canonical_request_hash (\<lambda>v. if v = PNone then [] else ''d'') ''send'' [(PStr ''to'', PStr ''a''), (PStr ''body'', PInt 1)] = Inr ''d''
   \<and> canonical_request_hash (\<lambda>v. if v = PNone then [] else ''d'') ''send'' [(PStr ''body'', PInt 1), (PStr ''to'', PStr ''a'')] = Inr ''d''"
proof -
  have h: "canonical_request_hash (\<lambda>v. if v = PNone then [] else ''d'') ''send'' [(PStr ''to'', PStr ''a''), (PStr ''body'', PInt 1)] = Inr ''d''"
    by (simp add: canonical_request_hash_def)
  show ?thesis
    using h request_hash_ignores_order [OF h, of "[(PStr ''body'', PInt 1), (PStr ''to'', PStr ''a'')]"] by simp
qed

section \<open>One request, sent twice\<close>

definition demo_now :: datetime where
  "demo_now = \<lparr>dt_year = 2026, dt_month = 1, dt_day = 1, dt_hour = 0, dt_minute = 0, dt_second = 0,
     dt_microsecond = 0, dt_offset = Some 0\<rparr>"

abbreviation demo_digest :: "pyval \<Rightarrow> string" where
  "demo_digest \<equiv> \<lambda>v. ''h''"

definition demo_request :: invocation_request where
  "demo_request = \<lparr>vq_operation = ''send'', vq_arguments = [], vq_run = ''run'', vq_task = None, vq_agent = None, vq_tool = None\<rparr>"

definition demo_execution :: "execution_status \<Rightarrow> execution_record" where
  "demo_execution st = \<lparr>xr_id = ''e'', xr_run = ''run'', xr_hash = ''h'', xr_task = None, xr_agent = None, xr_tool = None,
     xr_status = st, xr_result = (if st = XS_COMMITTED then Some ''sent'' else None), xr_error = [],
     xr_created = demo_now, xr_updated = demo_now, xr_attempt = 1\<rparr>"

definition demo_ledger :: "execution_status \<Rightarrow> execution_ledger" where
  "demo_ledger st = \<lparr>xl_records = [(''e'', demo_execution st)], xl_by_hash = [(''h'', ''e'')]\<rparr>"

definition demo_system :: "execution_status \<Rightarrow> invocation \<Rightarrow> string list \<Rightarrow> system" where
  "demo_system st c hs = \<lparr>sy_ledger = demo_ledger st, sy_calls = [(True, c)], sy_effects = hs\<rparr>"

lemma demo_candidate: "i \<noteq> [] \<Longrightarrow> candidate_record demo_digest demo_request i demo_now = Inr (demo_execution XS_PREPARED\<lparr>xr_id := i\<rparr>)"
proof -
  assume "i \<noteq> []"
  moreover have "canonical_request_hash demo_digest (vq_operation demo_request) (vq_arguments demo_request) = Inr ''h''"
    by (simp add: canonical_request_hash_def demo_request_def)
  ultimately show ?thesis
    by (simp add: candidate_record_def new_ExecutionRecord_def demo_request_def demo_execution_def demo_now_def require_def)
qed

lemma demo_transitions:
  "exec_transition ''e'' XS_EXECUTING None None demo_now (demo_ledger XS_PREPARED) = (Inr (demo_execution XS_EXECUTING), demo_ledger XS_EXECUTING)"
  "exec_transition ''e'' XS_COMMITTED (Some ''sent'') (Some []) demo_now (demo_ledger XS_EXECUTING)
     = (Inr (demo_execution XS_COMMITTED), demo_ledger XS_COMMITTED)"
  by code_simp+

lemma demo_claimed: "(exec_step demo_digest)\<^sup>*\<^sup>* new_system (demo_system XS_PREPARED (Claimed ''e'') [])"
proof -
  have "invoke_enter demo_digest demo_request ''e'' demo_now (sy_ledger new_system) = (Claimed ''e'', demo_ledger XS_PREPARED)"
    by (simp add: invoke_enter_def demo_candidate)
      (simp add: demo_execution_def demo_ledger_def exec_prepare_def dict_has_def new_system_def new_execution_ledger_def)
  then have "exec_step demo_digest new_system (new_system\<lparr>sy_ledger := demo_ledger XS_PREPARED,
      sy_calls := sy_calls new_system @ [(True, Claimed ''e'')]\<rparr>)"
    by (rule entering [rotated]) (simp add: exec_get_def new_system_def new_execution_ledger_def)
  then show ?thesis
    by (simp add: new_system_def demo_system_def r_into_rtranclp)
qed

lemma demo_answered:
  "(exec_step demo_digest)\<^sup>*\<^sup>* (demo_system XS_PREPARED (Claimed ''e'') []) (demo_system XS_EXECUTING (Answered ''e'' (Inr ''sent'')) [''h''])"
proof -
  have "invoke_mark ''e'' demo_now (demo_ledger XS_PREPARED) = (Dispatched ''e'', demo_ledger XS_EXECUTING)"
    by (simp add: invoke_mark_def exec_mark_def demo_transitions)
  then have "exec_step demo_digest (demo_system XS_PREPARED (Claimed ''e'') []) (demo_system XS_EXECUTING (Dispatched ''e'') [])"
    using marking [of 0 "demo_system XS_PREPARED (Claimed ''e'') []" True "''e''" demo_now] by (simp add: demo_system_def)
  moreover have "exec_step demo_digest (demo_system XS_EXECUTING (Dispatched ''e'') [])
      (demo_system XS_EXECUTING (Answered ''e'' (Inr ''sent'')) [''h''])"
    using running [of 0 "demo_system XS_EXECUTING (Dispatched ''e'') []" True "''e''" "demo_execution XS_EXECUTING" _ "Inr ''sent''"]
    by (simp add: demo_system_def demo_ledger_def exec_get_def) (simp add: demo_execution_def)
  ultimately show ?thesis
    by (simp add: converse_rtranclp_into_rtranclp r_into_rtranclp)
qed

lemma demo_settles: "invoke_settle ''e'' (Inr ''sent'') demo_now (demo_ledger XS_EXECUTING) = (Ended (Inr ''sent''), demo_ledger XS_COMMITTED)"
  by (simp add: invoke_settle_def exec_commit_def demo_transitions)

lemma demo_settled:
  "(exec_step demo_digest)\<^sup>*\<^sup>* (demo_system XS_EXECUTING (Answered ''e'' (Inr ''sent'')) [''h''])
     (demo_system XS_COMMITTED (Ended (Inr ''sent'')) [''h''])"
  using settling [of 0 "demo_system XS_EXECUTING (Answered ''e'' (Inr ''sent'')) [''h'']" True "''e''" "Inr ''sent''" demo_now] demo_settles
  by (simp add: demo_system_def r_into_rtranclp)

lemma demo_running: "(exec_step demo_digest)\<^sup>*\<^sup>* new_system (demo_system XS_EXECUTING (Answered ''e'' (Inr ''sent'')) [''h''])"
  by (rule rtranclp_trans [OF demo_claimed demo_answered])

theorem executed_at_most_once_witness:
  "sy_effects (demo_system XS_COMMITTED (Ended (Inr ''sent'')) [''h'']) = [''h'']
   \<and> distinct (sy_effects (demo_system XS_COMMITTED (Ended (Inr ''sent'')) [''h'']))"
  using executed_at_most_once [OF rtranclp_trans [OF demo_running demo_settled]] by (simp add: demo_system_def)

theorem execution_records_advance_witness:
  "\<exists>r. exec_get ''e'' (demo_ledger XS_COMMITTED) = Some r \<and> xr_id r = ''e'' \<and> xr_hash r = ''h'' \<and> xr_status r = XS_COMMITTED"
proof -
  have "exec_get ''e'' (sy_ledger (demo_system XS_PREPARED (Claimed ''e'') [])) = Some (demo_execution XS_PREPARED)"
    by (simp add: demo_system_def demo_ledger_def exec_get_def)
  from execution_records_advance [OF demo_claimed rtranclp_trans [OF demo_answered demo_settled] this]
  show ?thesis
    by (auto simp: demo_system_def demo_ledger_def exec_get_def demo_execution_def)
qed

theorem committed_result_reused_witness:
  "invoke_enter demo_digest demo_request ''other'' demo_now (demo_ledger XS_COMMITTED) = (Ended (Inr ''sent''), demo_ledger XS_COMMITTED)"
proof -
  let ?S = "demo_system XS_EXECUTING (Answered ''e'' (Inr ''sent'')) [''h'']"
  have "invoke_settle ''e'' (Inr ''sent'') demo_now (sy_ledger ?S) = (Ended (Inr ''sent''), demo_ledger XS_COMMITTED)"
    using demo_settles by (simp add: demo_system_def)
  moreover have "exec_get ''e'' (sy_ledger ?S) = Some (demo_execution XS_EXECUTING)"
    by (simp add: demo_system_def demo_ledger_def exec_get_def)
  moreover have "candidate_record demo_digest demo_request ''other'' demo_now = Inr (demo_execution XS_PREPARED\<lparr>xr_id := ''other''\<rparr>)"
    by (rule demo_candidate) simp
  ultimately have "invoke_enter demo_digest demo_request ''other'' demo_now (sy_ledger (?S\<lparr>sy_ledger := demo_ledger XS_COMMITTED\<rparr>))
      = (Ended (Inr ''sent''), sy_ledger (?S\<lparr>sy_ledger := demo_ledger XS_COMMITTED\<rparr>))"
    by (rule committed_result_reused [OF demo_running _ _ rtranclp.rtrancl_refl])
      (simp_all add: demo_execution_def demo_ledger_def exec_get_def)
  then show ?thesis
    by simp
qed


end
