(* ===== verification/ContextTypes.thy ===== *)
theory ContextTypes
  imports ModelTypes CheckpointCodec
begin

text \<open>
  The values of the context manager: the policy, token states, snapshots and references of
  \<open>matterloop_runtime/context/models.py\<close> and \<open>policy.py\<close>, the events of \<open>events.py\<close>, the analysis of
  \<open>analyzer.py\<close>, the estimate of \<open>token.py\<close> and the key of a \<open>ModelContextScope\<close>. Numbers are left out
  of messages; the time of an event is left out.
\<close>

abbreviation ContextSnapshotError :: "string \<Rightarrow> exn" where
  "ContextSnapshotError \<equiv> Other ''ContextSnapshotError''"

abbreviation ContextBudgetExceeded :: "string \<Rightarrow> exn" where
  "ContextBudgetExceeded \<equiv> Other ''ContextBudgetExceededError''"

abbreviation ContextConflict :: "string \<Rightarrow> exn" where
  "ContextConflict \<equiv> Other ''ContextConflictError''"

abbreviation IncompatibleContext :: "string \<Rightarrow> exn" where
  "IncompatibleContext \<equiv> Other ''IncompatibleContextSnapshotError''"

section \<open>Keys\<close>

text \<open>\<open>urllib.parse.quote\<close> with \<open>safe='-._~'\<close>: the other bytes of the UTF-8 encoding in hexadecimal.\<close>

definition url_safe :: "char \<Rightarrow> bool" where
  "url_safe c \<longleftrightarrow> (let n = of_char c :: nat in
     (48 \<le> n \<and> n \<le> 57) \<or> (65 \<le> n \<and> n \<le> 90) \<or> (97 \<le> n \<and> n \<le> 122) \<or> c \<in> set ''-._~'')"

definition hex_digit :: "nat \<Rightarrow> char" where
  "hex_digit n = char_of (if n < 10 then 48 + n else 55 + n)"

definition hex_byte :: "nat \<Rightarrow> string" where
  "hex_byte n = [CHR ''%'', hex_digit (n div 16), hex_digit (n mod 16)]"

definition quote_char :: "char \<Rightarrow> string" where
  "quote_char c = (let n = of_char c :: nat in
     if url_safe c then [c]
     else if n < 128 then hex_byte n
     else hex_byte (192 + n div 64) @ hex_byte (128 + n mod 64))"

definition url_quote :: "string \<Rightarrow> string" where
  "url_quote s = concat (map quote_char s)"

definition scope_key :: "context_scope \<Rightarrow> string" where
  "scope_key s = url_quote (cs_tenant_id s) @ '':'' @ url_quote (cs_run_id s) @ '':'' @ url_quote (cs_participant s) @ '':''
     @ url_quote (case cs_task_id s of Some (c # cs) \<Rightarrow> c # cs | _ \<Rightarrow> ''-'')"

section \<open>Input items\<close>

fun item_id :: "input_item \<Rightarrow> string" where
  "item_id (MessageItem m) = mi_item_id m"
| "item_id (ToolCallItem c) = ci_item_id c"
| "item_id (ToolOutputItem x) = oi_item_id x"
| "item_id (CompactionItem x) = pi_item_id x"

fun item_category :: "input_item \<Rightarrow> item_category option" where
  "item_category (MessageItem m) = mi_category m"
| "item_category (ToolCallItem c) = Some (ci_category c)"
| "item_category (ToolOutputItem x) = Some (oi_category x)"
| "item_category (CompactionItem x) = Some (pi_category x)"

fun item_retention :: "input_item \<Rightarrow> item_retention option" where
  "item_retention (MessageItem m) = mi_retention m"
| "item_retention (ToolCallItem c) = Some (ci_retention c)"
| "item_retention (ToolOutputItem x) = Some (oi_retention x)"
| "item_retention (CompactionItem x) = Some (pi_retention x)"

fun item_metadata :: "input_item \<Rightarrow> metadata" where
  "item_metadata (MessageItem m) = mi_metadata m"
| "item_metadata (ToolCallItem c) = ci_metadata c"
| "item_metadata (ToolOutputItem x) = oi_metadata x"
| "item_metadata (CompactionItem x) = pi_metadata x"

definition flagged :: "string \<Rightarrow> metadata \<Rightarrow> bool" where
  "flagged k m \<longleftrightarrow> field k m = PBool True"

fun is_native :: "input_item \<Rightarrow> bool" where
  "is_native (CompactionItem x) = pi_native x"
| "is_native _ = False"

fun is_user_message :: "input_item \<Rightarrow> bool" where
  "is_user_message (MessageItem m) = (mi_role m = USER)"
| "is_user_message _ = False"

section \<open>Policies\<close>

record context_policy =
  cp_max_tokens :: "int option"
  cp_soft :: pyfloat
  cp_hard :: pyfloat
  cp_target :: pyfloat
  cp_recent_turns :: int
  cp_inline_tokens :: int
  cp_reserved_output :: int
  cp_margin :: pyfloat
  cp_passes :: int
  cp_tool_output :: int
  cp_summary_output :: int
  cp_memory_extraction :: bool
  cp_cross_provider :: bool

definition new_ContextPolicy :: "context_policy \<Rightarrow> exn + context_policy" where
  "new_ContextPolicy p =
     require (case cp_max_tokens p of None \<Rightarrow> True | Some n \<Rightarrow> \<not> n < 1) ''max context tokens must be at least 1'' (
     require (\<not> list_ex (\<lambda>x. \<not> isfinite x) [cp_target p, cp_soft p, cp_hard p]) ''context thresholds must be finite'' (
     require (float_less (Fin 0) (cp_target p) \<and> float_less (cp_target p) (cp_soft p) \<and> float_less (cp_soft p) (cp_hard p)
         \<and> float_less (cp_hard p) (Fin 1)) ''context thresholds must satisfy 0 < target < soft < hard < 1'' (
     require (\<not> list_ex (\<lambda>n. n < 1) [cp_recent_turns p, cp_inline_tokens p, cp_reserved_output p, cp_passes p,
         cp_tool_output p, cp_summary_output p]) ''context integer limits must be positive integers'' (
     require (isfinite (cp_margin p) \<and> \<not> float_less (cp_margin p) (Fin 0))
       ''estimate safety margin must be finite and non-negative'' (
     Inr p)))))"

text \<open>\<open>max_context_tokens or descriptor_limit\<close>\<close>

definition resolve_limit :: "context_policy \<Rightarrow> int option \<Rightarrow> exn + int" where
  "resolve_limit p window =
     (case (if cp_max_tokens p \<notin> {None, Some 0} then cp_max_tokens p else window) of
        None \<Rightarrow> Inl (ValueError
          ''context lifecycle requires policy.max_context_tokens or model descriptor.context_window_tokens'')
      | Some n \<Rightarrow> Inr n)"

record retention_policy =
  rp_snapshot_ttl :: int
  rp_archive_ttl :: int
  rp_tool_result_ttl :: int

definition new_ContextRetentionPolicy :: "retention_policy \<Rightarrow> exn + retention_policy" where
  "new_ContextRetentionPolicy p =
     require (\<not> list_ex (\<lambda>n. n < 1) [rp_snapshot_ttl p, rp_archive_ttl p, rp_tool_result_ttl p])
       ''context retention TTL values must be positive integers'' (Inr p)"

section \<open>Snapshots\<close>

record token_state =
  tk_current :: int
  tk_projected :: int
  tk_limit :: int

definition new_ContextTokenState :: "token_state \<Rightarrow> exn + token_state" where
  "new_ContextTokenState t =
     require (\<not> min (tk_current t) (tk_projected t) < 0) ''context token counts must not be negative'' (
     require (\<not> tk_limit t < 1) ''context token limit must be positive'' (
     require (\<not> tk_projected t < tk_current t) ''projected tokens must not be below current tokens'' (Inr t)))"

text \<open>Divisions of token counts are exact.\<close>

definition usage_ratio :: "token_state \<Rightarrow> pyfloat" where
  "usage_ratio t = Fin (of_int (tk_projected t) / of_int (tk_limit t))"

datatype context_pressure = PR_NORMAL | PR_SOFT | PR_HARD

fun context_pressure_value :: "context_pressure \<Rightarrow> string" where
  "context_pressure_value PR_NORMAL = ''normal''"
| "context_pressure_value PR_SOFT = ''soft''"
| "context_pressure_value PR_HARD = ''hard''"

record context_snapshot =
  xs_key :: string
  xs_scope :: context_scope
  xs_revision :: int
  xs_items :: "input_item list"
  xs_tokens :: token_state
  xs_provider :: "string option"
  xs_model :: "string option"
  xs_compactions :: int
  xs_archives :: "string list"
  xs_metadata :: metadata
  xs_created :: datetime
  xs_updated :: datetime

definition new_ContextSnapshot :: "context_snapshot \<Rightarrow> exn + context_snapshot" where
  "new_ContextSnapshot s =
     require (\<not> (blank (xs_key s) \<or> xs_key s \<noteq> scope_key (xs_scope s))) ''context snapshot key must match its scope'' (
     require (\<not> xs_revision s < 1) ''context snapshot revision must be at least 1'' (
     require (\<not> xs_compactions s < 0) ''context compaction count must not be negative'' (
     require (case xs_provider s of None \<Rightarrow> True | Some p \<Rightarrow> \<not> blank p) ''context snapshot provider must not be empty'' (
     require (case xs_model s of None \<Rightarrow> True | Some p \<Rightarrow> \<not> blank p) ''context snapshot model must not be empty'' (
     require (\<not> list_ex blank (xs_archives s)) ''context archive URI must not be empty'' (Inr s))))))"

record snapshot_ref =
  sr_key :: string
  sr_revision :: int
  sr_checksum :: string
  sr_version :: int

definition new_ContextSnapshotRef :: "snapshot_ref \<Rightarrow> exn + snapshot_ref" where
  "new_ContextSnapshotRef r =
     require (\<not> (blank (sr_key r) \<or> blank (sr_checksum r))) ''context snapshot reference fields must not be empty'' (
     require (\<not> (sr_revision r < 1 \<or> sr_version r < 1)) ''context snapshot reference versions must be positive'' (Inr r))"

record blob_ref =
  br_uri :: string
  br_sha256 :: string
  br_size :: int
  br_media_type :: string

definition new_ContextBlobRef :: "blob_ref \<Rightarrow> exn + blob_ref" where
  "new_ContextBlobRef r =
     require (\<not> (blank (br_uri r) \<or> blank (br_sha256 r) \<or> blank (br_media_type r))) ''context blob reference fields must not be empty'' (
     require (\<not> br_size r < 0) ''context blob size must not be negative'' (Inr r))"

section \<open>Events\<close>

datatype context_event_type = CE_PRESSURE | CE_COMPACTION_STARTED | CE_COMPACTION_COMPLETED | CE_COMPACTION_FAILED
  | CE_TOOL_RESULT_EXTERNALIZED | CE_SNAPSHOT_SAVED | CE_SNAPSHOT_RESTORED

record context_event =
  ce_type :: context_event_type
  ce_key :: string
  ce_revision :: int
  ce_current :: int
  ce_projected :: int
  ce_limit :: int
  ce_metadata :: metadata

definition new_ContextEvent :: "context_event \<Rightarrow> exn + context_event" where
  "new_ContextEvent e =
     require (\<not> blank (ce_key e)) ''context event key must not be empty'' (
     require (\<not> list_ex (\<lambda>n. n < 0) [ce_revision e, ce_current e, ce_projected e, ce_limit e])
       ''context event counters must not be negative'' (Inr e))"

section \<open>Analysis\<close>

text \<open>
  \<open>ContextAnalyzer.analyze\<close>: the old items that may be summarised. The recent turns start at the
  user message that is the \<open>recent_turns\<close>-th from the end.
\<close>

definition recent_start :: "int \<Rightarrow> input_item list \<Rightarrow> nat" where
  "recent_start turns items =
     (let users = filter (\<lambda>i. is_user_message (items ! i)) [0..<length items]
      in if turns \<le> int (length users) then users ! (length users - nat turns) else 0)"

definition summarizable_at :: "nat \<Rightarrow> nat \<times> input_item \<Rightarrow> bool" where
  "summarizable_at start ix \<longleftrightarrow>
     (fst ix < start \<or> flagged ''historical_payload'' (item_metadata (snd ix)) \<or> is_native (snd ix))
     \<and> item_retention (snd ix) = Some IR_SUMMARIZABLE"

definition summarizable :: "int \<Rightarrow> input_item list \<Rightarrow> input_item list" where
  "summarizable turns items =
     map snd (filter (summarizable_at (recent_start turns items)) (zip [0..<length items] items))"

text \<open>The loop of \<open>rebuild\<close>: \<open>compacted\<close> takes the place of the first item that is removed.\<close>

fun replace_items :: "string set \<Rightarrow> input_item list \<Rightarrow> bool \<Rightarrow> input_item list \<Rightarrow> input_item list" where
  "replace_items ids compacted inserted [] = []"
| "replace_items ids compacted inserted (x # xs) =
     (if item_id x \<in> ids
      then (if inserted then [] else compacted) @ replace_items ids compacted True xs
      else x # replace_items ids compacted inserted xs)"

definition rebuild :: "input_item list \<Rightarrow> input_item list \<Rightarrow> input_item list \<Rightarrow> input_item list" where
  "rebuild original old compacted =
     (if old = [] then original else replace_items (item_id ` set old) compacted False original)"

section \<open>Estimates\<close>

fun float_value :: "pyfloat \<Rightarrow> rat" where
  "float_value (Fin x) = x"
| "float_value _ = 0"

definition count_text :: "pyfloat \<Rightarrow> string \<Rightarrow> int" where
  "count_text margin s = \<lceil>of_int \<lceil>of_int (utf8_length s) / (3 :: rat)\<rceil> * (1 + float_value margin)\<rceil>"

end
