(* ===== verification/ContextStores.thy ===== *)
theory ContextStores
  imports ContextTypes
begin

text \<open>
  \<open>matterloop_runtime/context/stores.py\<close>: the codec of input items and snapshots, the in-memory store
  with compare-and-set revisions, and the in-memory blob store. The text layer (\<open>json.dumps\<close>,
  \<open>json.loads\<close>) and SHA-256 are parameters. The bytes of a blob are the text they encode. The methods
  hold a lock, so each is one step. \<open>FilesystemContextBlobStore\<close> is not modelled.
\<close>

section \<open>Enumerations\<close>

fun category_value :: "item_category \<Rightarrow> string" where
  "category_value IC_SYSTEM = ''system''"
| "category_value IC_GOAL = ''goal''"
| "category_value IC_WORKING_MEMORY = ''working_memory''"
| "category_value IC_HISTORY = ''history''"
| "category_value IC_TOOL_RESULT = ''tool_result''"
| "category_value IC_AGENT_STATE = ''agent_state''"

fun retention_value :: "item_retention \<Rightarrow> string" where
  "retention_value IR_PINNED = ''pinned''"
| "retention_value IR_RECENT = ''recent''"
| "retention_value IR_SUMMARIZABLE = ''summarizable''"
| "retention_value IR_EXTERNALIZED = ''externalized''"

definition category_of :: "string \<Rightarrow> exn + item_category" where
  "category_of = enum_of category_value [IC_SYSTEM, IC_GOAL, IC_WORKING_MEMORY, IC_HISTORY, IC_TOOL_RESULT, IC_AGENT_STATE]
     ''ModelItemCategory''"

definition retention_of :: "string \<Rightarrow> exn + item_retention" where
  "retention_of = enum_of retention_value [IR_PINNED, IR_RECENT, IR_SUMMARIZABLE, IR_EXTERNALIZED] ''ModelItemRetention''"

definition role_of :: "string \<Rightarrow> exn + message_role" where
  "role_of = enum_of role_value [DEVELOPER, SYSTEM, USER, ASSISTANT] ''MessageRole''"

section \<open>Fields\<close>

abbreviation snapshot_error :: "string \<Rightarrow> exn + 'a" where
  "snapshot_error m \<equiv> Inl (ContextSnapshotError m)"

definition cx_mapping :: "pyval \<Rightarrow> string \<Rightarrow> exn + metadata" where
  "cx_mapping v p = (case v of
     PDict ds \<Rightarrow> if list_all (\<lambda>(k, _). case k of PStr _ \<Rightarrow> True | _ \<Rightarrow> False) ds then Inr ds
       else snapshot_error (p @ '' must be an object with string keys'')
   | _ \<Rightarrow> snapshot_error (p @ '' must be an object with string keys''))"

definition cx_text :: "pyval \<Rightarrow> string \<Rightarrow> exn + string" where
  "cx_text v p = (case v of
     PStr s \<Rightarrow> if blank s then snapshot_error (p @ '' must be non-empty text'') else Inr s
   | _ \<Rightarrow> snapshot_error (p @ '' must be non-empty text''))"

definition cx_string :: "pyval \<Rightarrow> string \<Rightarrow> exn + string" where
  "cx_string v p = (case v of PStr s \<Rightarrow> Inr s | _ \<Rightarrow> snapshot_error (p @ '' must be text''))"

definition cx_optional_text :: "pyval \<Rightarrow> string \<Rightarrow> exn + string option" where
  "cx_optional_text v p = unless_none (\<lambda>v. cx_text v p) v"

definition cx_integer :: "pyval \<Rightarrow> string \<Rightarrow> exn + int" where
  "cx_integer v p = (case v of PInt i \<Rightarrow> Inr i | _ \<Rightarrow> snapshot_error (p @ '' must be an integer''))"

definition cx_boolean :: "pyval \<Rightarrow> string \<Rightarrow> exn + bool" where
  "cx_boolean v p = (case v of PBool b \<Rightarrow> Inr b | _ \<Rightarrow> snapshot_error (p @ '' must be boolean''))"

definition cx_datetime :: "pyval \<Rightarrow> string \<Rightarrow> exn + datetime" where
  "cx_datetime v p = ebind (cx_text v p) (\<lambda>s. case fromisoformat s of
     None \<Rightarrow> snapshot_error (p @ '' must be an ISO datetime'') | Some d \<Rightarrow> Inr d)"

section \<open>Input items\<close>

definition item_head :: "input_item \<Rightarrow> item_category \<Rightarrow> item_retention \<Rightarrow> (string \<times> pyval) list" where
  "item_head x c r = [(''item_id'', PStr (item_id x)), (''category'', PStr (category_value c)),
     (''retention'', PStr (retention_value r)), (''metadata'', PDict (item_metadata x))]"

fun item_body :: "input_item \<Rightarrow> (string \<times> pyval) list" where
  "item_body (MessageItem m) = [(''type'', PStr ''message''), (''role'', PStr (role_value (mi_role m))),
     (''content'', PStr (mi_content m)), (''name'', none_or PStr (mi_name m))]"
| "item_body (ToolCallItem c) = [(''type'', PStr ''tool_call''), (''call_id'', PStr (ci_call_id c)),
     (''name'', PStr (ci_name c)), (''arguments'', PDict (ci_arguments c))]"
| "item_body (ToolOutputItem x) = [(''type'', PStr ''tool_output''), (''call_id'', PStr (oi_call_id x)),
     (''output'', PStr (oi_output x)), (''is_error'', PBool (oi_is_error x)),
     (''artifact_uri'', none_or PStr (oi_artifact_uri x))]"
| "item_body (CompactionItem x) = [(''type'', PStr ''compaction''), (''payload'', PStr (pi_payload x)),
     (''provider'', PStr (pi_provider x)), (''model'', PStr (pi_model x)), (''native'', PBool (pi_native x))]"

definition encode_input_item :: "input_item \<Rightarrow> exn + pyval" where
  "encode_input_item x = (case (item_category x, item_retention x) of
     (Some c, Some r) \<Rightarrow> Inr (obj (item_head x c r @ item_body x))
   | _ \<Rightarrow> Inl (ValueError ''model input item classification was not normalized''))"

definition encode_input_items :: "input_item list \<Rightarrow> exn + pyval list" where
  "encode_input_items = each encode_input_item"

definition decode_message ::
  "metadata \<Rightarrow> string \<Rightarrow> item_category \<Rightarrow> item_retention \<Rightarrow> metadata \<Rightarrow> exn + input_item" where
  "decode_message d i c r m =
     ebind (cx_text (field ''role'' d) ''message role'') (\<lambda>rt.
     ebind (role_of rt) (\<lambda>role.
     ebind (cx_text (field ''content'' d) ''message content'') (\<lambda>content.
     ebind (cx_optional_text (field ''name'' d) ''message name'') (\<lambda>name.
     map_sum id MessageItem (new_ModelMessageItem \<lparr>mi_role = role, mi_content = content, mi_name = name,
       mi_category = Some c, mi_retention = Some r, mi_item_id = i, mi_metadata = m\<rparr>)))))"

definition decode_tool_call ::
  "metadata \<Rightarrow> string \<Rightarrow> item_category \<Rightarrow> item_retention \<Rightarrow> metadata \<Rightarrow> exn + input_item" where
  "decode_tool_call d i c r m =
     ebind (cx_text (field ''call_id'' d) ''tool call id'') (\<lambda>call.
     ebind (cx_text (field ''name'' d) ''tool call name'') (\<lambda>name.
     ebind (cx_mapping (field ''arguments'' d) ''tool call arguments'') (\<lambda>args.
     map_sum id ToolCallItem (new_ModelToolCallItem \<lparr>ci_call_id = call, ci_name = name, ci_arguments = args,
       ci_category = c, ci_retention = r, ci_item_id = i, ci_metadata = m\<rparr>))))"

definition decode_tool_output ::
  "metadata \<Rightarrow> string \<Rightarrow> item_category \<Rightarrow> item_retention \<Rightarrow> metadata \<Rightarrow> exn + input_item" where
  "decode_tool_output d i c r m =
     ebind (cx_boolean (field ''is_error'' d) ''tool output is_error'') (\<lambda>bad.
     ebind (cx_text (field ''call_id'' d) ''tool output call id'') (\<lambda>call.
     ebind (cx_string (field ''output'' d) ''tool output'') (\<lambda>result.
     ebind (cx_optional_text (field ''artifact_uri'' d) ''tool output artifact URI'') (\<lambda>uri.
     map_sum id ToolOutputItem (new_ModelToolOutputItem \<lparr>oi_call_id = call, oi_output = result, oi_is_error = bad,
       oi_artifact_uri = uri, oi_category = c, oi_retention = r, oi_item_id = i, oi_metadata = m\<rparr>)))))"

definition decode_compaction ::
  "metadata \<Rightarrow> string \<Rightarrow> item_category \<Rightarrow> item_retention \<Rightarrow> metadata \<Rightarrow> exn + input_item" where
  "decode_compaction d i c r m =
     ebind (cx_boolean (field ''native'' d) ''compaction native'') (\<lambda>native.
     ebind (cx_text (field ''payload'' d) ''compaction payload'') (\<lambda>payload.
     ebind (cx_text (field ''provider'' d) ''compaction provider'') (\<lambda>provider.
     ebind (cx_text (field ''model'' d) ''compaction model'') (\<lambda>model.
     map_sum id CompactionItem (new_ModelCompactionItem \<lparr>pi_payload = payload, pi_provider = provider,
       pi_model = model, pi_native = native, pi_category = c, pi_retention = r, pi_item_id = i, pi_metadata = m\<rparr>)))))"

definition decode_input_item :: "pyval \<Rightarrow> exn + input_item" where
  "decode_input_item v =
     ebind (cx_mapping v ''input item'') (\<lambda>d.
     ebind (cx_text (field ''item_id'' d) ''input item id'') (\<lambda>i.
     ebind (cx_text (field ''category'' d) ''item category'') (\<lambda>ct.
     ebind (category_of ct) (\<lambda>c.
     ebind (cx_text (field ''retention'' d) ''item retention'') (\<lambda>rt.
     ebind (retention_of rt) (\<lambda>r.
     ebind (cx_mapping (field ''metadata'' d) ''item metadata'') (\<lambda>m.
     let t = field ''type'' d in
     if t = PStr ''message'' then decode_message d i c r m
     else if t = PStr ''tool_call'' then decode_tool_call d i c r m
     else if t = PStr ''tool_output'' then decode_tool_output d i c r m
     else if t = PStr ''compaction'' then decode_compaction d i c r m
     else snapshot_error ''unsupported context input item type'')))))))"

definition decode_input_items :: "pyval list \<Rightarrow> exn + input_item list" where
  "decode_input_items = each decode_input_item"

section \<open>Snapshots\<close>

definition encode_scope :: "context_scope \<Rightarrow> pyval" where
  "encode_scope s = obj [(''tenant_id'', PStr (cs_tenant_id s)), (''run_id'', PStr (cs_run_id s)),
     (''participant'', PStr (cs_participant s)), (''task_id'', none_or PStr (cs_task_id s)),
     (''invocation_id'', none_or PStr (cs_invocation_id s))]"

definition encode_tokens :: "token_state \<Rightarrow> pyval" where
  "encode_tokens t = obj [(''current_tokens'', PInt (tk_current t)), (''projected_tokens'', PInt (tk_projected t)),
     (''limit_tokens'', PInt (tk_limit t))]"

definition encode_snapshot :: "context_snapshot \<Rightarrow> exn + pyval" where
  "encode_snapshot s = ebind (encode_input_items (xs_items s)) (\<lambda>items. Inr (obj
     [(''schema_version'', PInt 1), (''key'', PStr (xs_key s)), (''scope'', encode_scope (xs_scope s)),
      (''revision'', PInt (xs_revision s)), (''input_items'', PList items), (''token_state'', encode_tokens (xs_tokens s)),
      (''provider'', none_or PStr (xs_provider s)), (''model'', none_or PStr (xs_model s)),
      (''compaction_count'', PInt (xs_compactions s)), (''archive_uris'', PList (map PStr (xs_archives s))),
      (''metadata'', PDict (xs_metadata s)), (''created_at'', PStr (isoformat (xs_created s))),
      (''updated_at'', PStr (isoformat (xs_updated s)))]))"

definition decode_scope :: "metadata \<Rightarrow> exn + context_scope" where
  "decode_scope d =
     ebind (cx_text (field ''tenant_id'' d) ''scope.tenant_id'') (\<lambda>tenant.
     ebind (cx_text (field ''run_id'' d) ''scope.run_id'') (\<lambda>run.
     ebind (cx_text (field ''participant'' d) ''scope.participant'') (\<lambda>participant.
     ebind (cx_optional_text (field ''task_id'' d) ''scope.task_id'') (\<lambda>task.
     ebind (cx_optional_text (field ''invocation_id'' d) ''scope.invocation_id'') (\<lambda>invocation.
     new_ModelContextScope \<lparr>cs_run_id = run, cs_participant = participant, cs_tenant_id = tenant,
       cs_task_id = task, cs_invocation_id = invocation\<rparr>)))))"

definition decode_tokens :: "metadata \<Rightarrow> exn + token_state" where
  "decode_tokens d =
     ebind (cx_integer (field ''current_tokens'' d) ''token_state.current_tokens'') (\<lambda>current.
     ebind (cx_integer (field ''projected_tokens'' d) ''token_state.projected_tokens'') (\<lambda>projected.
     ebind (cx_integer (field ''limit_tokens'' d) ''token_state.limit_tokens'') (\<lambda>limit.
     new_ContextTokenState \<lparr>tk_current = current, tk_projected = projected, tk_limit = limit\<rparr>)))"

text \<open>\<open>value[name]\<close> raises \<open>KeyError\<close>.\<close>

definition required :: "string \<Rightarrow> metadata \<Rightarrow> exn + pyval" where
  "required n d = (case map_of d (PStr n) of None \<Rightarrow> Inl (KeyError n) | Some v \<Rightarrow> Inr v)"

definition cx_array :: "pyval \<Rightarrow> string \<Rightarrow> exn + pyval list" where
  "cx_array v p = (case v of PList xs \<Rightarrow> Inr xs | _ \<Rightarrow> snapshot_error (p @ '' must be an array''))"

definition decode_fields :: "metadata \<Rightarrow> exn + context_snapshot" where
  "decode_fields d =
     ebind (ebind (required ''scope'' d) (\<lambda>v. cx_mapping v ''scope'')) (\<lambda>scope_value.
     ebind (ebind (required ''token_state'' d) (\<lambda>v. cx_mapping v ''token_state'')) (\<lambda>token_value.
     ebind (decode_scope scope_value) (\<lambda>scope.
     ebind (ebind (required ''input_items'' d) (\<lambda>v. cx_array v ''input_items'')) (\<lambda>raw_items.
     ebind (ebind (required ''archive_uris'' d) (\<lambda>v. cx_array v ''archive_uris'')) (\<lambda>raw_archives.
     ebind (cx_text (field ''key'' d) ''key'') (\<lambda>key.
     ebind (cx_integer (field ''revision'' d) ''revision'') (\<lambda>revision.
     ebind (decode_input_items raw_items) (\<lambda>items.
     ebind (decode_tokens token_value) (\<lambda>tokens.
     ebind (cx_optional_text (field ''provider'' d) ''provider'') (\<lambda>provider.
     ebind (cx_optional_text (field ''model'' d) ''model'') (\<lambda>model.
     ebind (cx_integer (field ''compaction_count'' d) ''compaction_count'') (\<lambda>compactions.
     ebind (each (\<lambda>v. cx_text v ''archive URI'') raw_archives) (\<lambda>archives.
     ebind (cx_mapping (field ''metadata'' d) ''metadata'') (\<lambda>meta.
     ebind (cx_datetime (field ''created_at'' d) ''created_at'') (\<lambda>created.
     ebind (cx_datetime (field ''updated_at'' d) ''updated_at'') (\<lambda>updated.
     new_ContextSnapshot \<lparr>xs_key = key, xs_scope = scope, xs_revision = revision, xs_items = items, xs_tokens = tokens,
       xs_provider = provider, xs_model = model, xs_compactions = compactions, xs_archives = archives,
       xs_metadata = meta, xs_created = created, xs_updated = updated\<rparr>))))))))))))))))"

text \<open>\<open>decode\<close>: \<open>KeyError\<close>, \<open>TypeError\<close> and \<open>ValueError\<close> become \<open>ContextSnapshotError\<close>. \<open>True == 1 == 1.0\<close>.\<close>

fun as_snapshot_error :: "exn \<Rightarrow> exn" where
  "as_snapshot_error (KeyError k) = ContextSnapshotError (''context snapshot is missing '' @ k)"
| "as_snapshot_error (ValueError m) = ContextSnapshotError (''context snapshot is invalid: '' @ m)"
| "as_snapshot_error e = e"

definition decode_snapshot :: "metadata \<Rightarrow> exn + context_snapshot" where
  "decode_snapshot d =
     (if \<not> py_eq (field ''schema_version'' d) (PInt 1)
      then snapshot_error ''unsupported context snapshot schema version''
      else map_sum as_snapshot_error id (decode_fields d))"

text \<open>\<open>dumps\<close>, \<open>loads\<close>, \<open>checksum\<close>. \<open>to_json\<close> raises \<open>TypeError\<close> or \<open>ValueError\<close>.\<close>

definition snapshot_dumps :: "(pyval \<Rightarrow> exn + string) \<Rightarrow> context_snapshot \<Rightarrow> exn + string" where
  "snapshot_dumps to_json s = map_sum (\<lambda>e. ContextSnapshotError (''context snapshot is not JSON serializable: '' @ exn_message e)) id
     (ebind (encode_snapshot s) to_json)"

definition snapshot_loads :: "(string \<Rightarrow> pyval option) \<Rightarrow> string \<Rightarrow> exn + context_snapshot" where
  "snapshot_loads of_json t = (case of_json t of
     None \<Rightarrow> snapshot_error ''context snapshot is invalid JSON''
   | Some (PDict d) \<Rightarrow> decode_snapshot d
   | Some _ \<Rightarrow> snapshot_error ''context snapshot root must be an object'')"

definition snapshot_checksum :: "(pyval \<Rightarrow> exn + string) \<Rightarrow> (string \<Rightarrow> string) \<Rightarrow> context_snapshot \<Rightarrow> exn + string" where
  "snapshot_checksum to_json digest s = map_sum id digest (snapshot_dumps to_json s)"

section \<open>The in-memory store\<close>

record context_store =
  xt_values :: "(string, (int, string) dict) dict"
  xt_latest :: "(string, int) dict"

definition new_context_store :: context_store where
  "new_context_store = \<lparr>xt_values = [], xt_latest = []\<rparr>"

definition context_load ::
  "(string \<Rightarrow> pyval option) \<Rightarrow> string \<Rightarrow> int option \<Rightarrow> context_store \<Rightarrow> exn + context_snapshot option" where
  "context_load of_json key which S =
     (if blank key then Inl (ValueError ''context key must not be empty'')
      else case (case which of None \<Rightarrow> dict_get (xt_latest S) key | Some r \<Rightarrow> Some r) of
        None \<Rightarrow> Inr None
      | Some r \<Rightarrow> (case dict_get (case dict_get (xt_values S) key of None \<Rightarrow> [] | Some d \<Rightarrow> d) r of
          None \<Rightarrow> Inr None
        | Some t \<Rightarrow> map_sum id Some (snapshot_loads of_json t)))"

definition context_save ::
  "(pyval \<Rightarrow> exn + string) \<Rightarrow> (string \<Rightarrow> string) \<Rightarrow> context_snapshot \<Rightarrow> int \<Rightarrow> context_store
   \<Rightarrow> (exn + snapshot_ref) \<times> context_store" where
  "context_save to_json digest s expected S =
     (if expected < 0 then (Inl (ValueError ''expected context revision must not be negative''), S)
      else if xs_revision s \<noteq> expected + 1
      then (Inl (ValueError ''context snapshot revision must equal expected revision plus one''), S)
      else case snapshot_dumps to_json s of
        Inl e \<Rightarrow> (Inl e, S)
      | Inr t \<Rightarrow>
          if (case dict_get (xt_latest S) (xs_key s) of None \<Rightarrow> 0 | Some r \<Rightarrow> r) \<noteq> expected
          then (Inl (ContextConflict (''context revision conflict for '' @ xs_key s)), S)
          else (new_ContextSnapshotRef \<lparr>sr_key = xs_key s, sr_revision = xs_revision s, sr_checksum = digest t, sr_version = 1\<rparr>,
            S\<lparr>xt_values := dict_set (xs_key s) (dict_set (xs_revision s) t
                  (case dict_get (xt_values S) (xs_key s) of None \<Rightarrow> [] | Some d \<Rightarrow> d)) (xt_values S),
              xt_latest := dict_set (xs_key s) (xs_revision s) (xt_latest S)\<rparr>))"

section \<open>The in-memory blob store\<close>

text \<open>\<open>purpose.replace('-', '').replace('_', '').isalnum()\<close>, on ASCII texts.\<close>

definition is_alnum :: "char \<Rightarrow> bool" where
  "is_alnum c \<longleftrightarrow> (let n = of_char c :: nat in (48 \<le> n \<and> n \<le> 57) \<or> (65 \<le> n \<and> n \<le> 90) \<or> (97 \<le> n \<and> n \<le> 122))"

definition blob_arguments :: "string \<Rightarrow> string \<Rightarrow> int option \<Rightarrow> exn + unit" where
  "blob_arguments media_type purpose ttl =
     require (\<not> blank media_type) ''context blob media type must not be empty'' (
     require (let p = filter (\<lambda>c. c \<notin> set ''-_'') purpose in p \<noteq> [] \<and> list_all is_alnum p)
       ''context blob purpose must be a safe non-empty identifier'' (
     require (case ttl of None \<Rightarrow> True | Some n \<Rightarrow> \<not> n < 1) ''context blob TTL must be a positive integer'' (Inr ())))"

type_synonym blob_store = "(string, string) dict"

definition blob_put ::
  "(string \<Rightarrow> string) \<Rightarrow> string \<Rightarrow> string \<Rightarrow> string \<Rightarrow> int option \<Rightarrow> blob_store \<Rightarrow> (exn + blob_ref) \<times> blob_store" where
  "blob_put digest content media_type purpose ttl B =
     (case blob_arguments media_type purpose ttl of
        Inl e \<Rightarrow> (Inl e, B)
      | Inr _ \<Rightarrow> (let uri = ''context-memory://'' @ purpose @ ''/'' @ digest content in
          (new_ContextBlobRef \<lparr>br_uri = uri, br_sha256 = digest content, br_size = utf8_length content, br_media_type = media_type\<rparr>,
           dict_set uri content B)))"

definition blob_get :: "string \<Rightarrow> blob_store \<Rightarrow> exn + string" where
  "blob_get uri B = (case dict_get B uri of None \<Rightarrow> Inl (Other ''FileNotFoundError'' uri) | Some t \<Rightarrow> Inr t)"

end
