(* ===== verification/ContextManager.thy ===== *)
theory ContextManager
  imports ContextStores
begin

text \<open>
  \<open>ContextLifecycleManager\<close> of \<open>matterloop_runtime/context/manager.py\<close>, method by method, with the
  client \<open>ContextManagedModelClient\<close> and the publisher \<open>ContextCheckpointEventPublisher\<close>. What it awaits
  is an environment of programs over the whole state: while one of them runs, other calls may use the
  manager. \<open>json.dumps\<close> (with or without spaces) and \<open>json.loads\<close> are parameters.
\<close>

section \<open>State and environment\<close>

record 'w context_state =
  ct_latest :: "(string, snapshot_ref) dict"
  ct_recovery :: "(string, snapshot_ref) dict"
  ct_registered :: "string set"
  ct_world :: 'w

type_synonym ('w, 'a) ctx = "('w context_state, exn, 'a) prog"

record 'w context_env =
  e_policy :: context_policy
  e_load :: "string \<Rightarrow> int option \<Rightarrow> ('w, context_snapshot option) ctx"
  e_save :: "context_snapshot \<Rightarrow> int \<Rightarrow> ('w, snapshot_ref) ctx"
  e_put :: "string \<Rightarrow> string \<Rightarrow> string \<Rightarrow> int option \<Rightarrow> ('w, blob_ref) ctx"
  e_blob :: "string \<Rightarrow> ('w, string) ctx"
  e_compactor :: "(string option \<times> (input_item list \<Rightarrow> context_scope \<Rightarrow> int \<Rightarrow> ('w, input_item list) ctx)) option"
  e_count :: "model_request \<Rightarrow> ('w, int) ctx"
  e_publish :: "context_event \<Rightarrow> ('w, unit) ctx"
  e_reduce :: "string \<Rightarrow> blob_ref \<Rightarrow> bool \<Rightarrow> exn + string"
  e_memory :: "((string list \<Rightarrow> exn + string list) \<times> (context_scope \<Rightarrow> string list \<Rightarrow> string list \<Rightarrow> ('w, unit) ctx)) option"
  e_retention :: "retention_policy option"
  e_checksum :: "context_snapshot \<Rightarrow> exn + string"
  e_json :: "bool \<Rightarrow> pyval \<Rightarrow> exn + string"
  e_parse :: "string \<Rightarrow> pyval option"
  e_now :: "('w, datetime) ctx"
  e_uuid :: "('w, string) ctx"

text \<open>A model client: its descriptor (or the name of its type) and its optional capabilities.\<close>

record 'w context_model =
  md_provider :: string
  md_model :: string
  md_window :: "int option"
  md_count :: "(model_request \<Rightarrow> ('w, int) ctx) option"
  md_compact :: "(model_request \<Rightarrow> ('w, input_item list) ctx) option"
  md_generate :: "model_request \<Rightarrow> ('w, model_response) ctx"

record prepared_request =
  pq_request :: model_request
  pq_snapshot :: context_snapshot
  pq_ref :: snapshot_ref

definition new_ContextLifecycleManager :: "'w context_env \<Rightarrow> exn + 'w context_env" where
  "new_ContextLifecycleManager env =
     require (\<not> (cp_memory_extraction (e_policy env) \<and> e_memory env = None))
       ''enabled context memory extraction requires a sink and admission policy'' (Inr env)"

definition with_exceptions :: "('w, 'a) ctx \<Rightarrow> (exn \<Rightarrow> ('w, 'a) ctx) \<Rightarrow> ('w, 'a) ctx" where
  "with_exceptions m h = tryE m (\<lambda>e. if is_exception e then h e else raiseE e)"

definition context_publish ::
  "'w context_env \<Rightarrow> context_event_type \<Rightarrow> string \<Rightarrow> int \<Rightarrow> token_state option \<Rightarrow> metadata \<Rightarrow> ('w, unit) ctx" where
  "context_publish env et key revision_no tokens meta =
     (let t = (case tokens of None \<Rightarrow> \<lparr>tk_current = 0, tk_projected = 0, tk_limit = 1\<rparr> | Some t \<Rightarrow> t) in
      bindE (liftE (new_ContextEvent \<lparr>ce_type = et, ce_key = key, ce_revision = revision_no, ce_current = tk_current t,
        ce_projected = tk_projected t, ce_limit = tk_limit t, ce_metadata = meta\<rparr>)) (e_publish env))"

section \<open>Canonical input\<close>

definition protected_names :: "string list" where
  "protected_names = [''goal'', ''team_goal'', ''acceptance_criteria'', ''constraints'', ''current_plan'', ''current_state'',
     ''pending'', ''step'', ''step_id'', ''task'', ''execution'', ''execution_output'', ''draft_output'', ''task_results'',
     ''dependency_results'', ''artifacts'']"

definition fresh_message :: "'w context_env \<Rightarrow> message_item \<Rightarrow> ('w, input_item) ctx" where
  "fresh_message env m = bindE (e_uuid env) (\<lambda>i.
     liftE (map_sum id MessageItem (new_ModelMessageItem (m\<lparr>mi_item_id := i\<rparr>))))"

definition goal_item :: "string \<Rightarrow> string option \<Rightarrow> message_item" where
  "goal_item content name = \<lparr>mi_role = USER, mi_content = content, mi_name = name, mi_category = Some IC_GOAL,
     mi_retention = Some IR_PINNED, mi_item_id = [], mi_metadata = []\<rparr>"

definition history_item :: "string \<Rightarrow> string option \<Rightarrow> message_item" where
  "history_item content name = \<lparr>mi_role = USER, mi_content = content, mi_name = name, mi_category = Some IC_WORKING_MEMORY,
     mi_retention = Some IR_SUMMARIZABLE, mi_item_id = [], mi_metadata = [(PStr ''historical_payload'', PBool True)]\<rparr>"

definition is_protected :: "pyval \<times> pyval \<Rightarrow> bool" where
  "is_protected kv \<longleftrightarrow> (\<exists>n \<in> set protected_names. fst kv = PStr n)"

definition split_goal_message :: "'w context_env \<Rightarrow> string \<Rightarrow> string option \<Rightarrow> ('w, input_item list) ctx" where
  "split_goal_message env content name = (case e_parse env content of
     Some (PDict payload) \<Rightarrow>
       (let protected = filter is_protected payload; historical = filter (\<lambda>kv. \<not> is_protected kv) payload in
        bindE (liftE (e_json env False (PDict (if protected \<noteq> [] then protected else payload)))) (\<lambda>t.
        bindE (fresh_message env (goal_item t name)) (\<lambda>goal.
        if protected \<noteq> [] \<and> historical \<noteq> [] then
          bindE (liftE (e_json env False (PDict historical))) (\<lambda>h.
          bindE (fresh_message env (history_item h name)) (\<lambda>old. returnE [goal, old]))
        else returnE [goal])))
   | _ \<Rightarrow> bindE (fresh_message env (goal_item content name)) (\<lambda>goal. returnE [goal]))"

fun message_items :: "'w context_env \<Rightarrow> bool \<Rightarrow> model_message list \<Rightarrow> ('w, input_item list) ctx" where
  "message_items env first_user [] = returnE []"
| "message_items env first_user (m # ms) =
     bindE (if first_user \<and> mm_role m = USER then split_goal_message env (mm_content m) (mm_name m)
       else bindE (fresh_message env \<lparr>mi_role = mm_role m, mi_content = mm_content m, mi_name = mm_name m,
         mi_category = None, mi_retention = None, mi_item_id = [], mi_metadata = []\<rparr>) (\<lambda>x. returnE [x])) (\<lambda>xs.
     bindE (message_items env (first_user \<and> mm_role m \<noteq> USER) ms) (\<lambda>ys. returnE (xs @ ys)))"

fun tool_output_items :: "'w context_env \<Rightarrow> tool_output list \<Rightarrow> ('w, input_item list) ctx" where
  "tool_output_items env [] = returnE []"
| "tool_output_items env (x # xs) =
     bindE (e_uuid env) (\<lambda>i.
     bindE (liftE (new_ModelToolOutputItem \<lparr>oi_call_id = to_call_id x, oi_output = to_output x, oi_is_error = to_is_error x,
       oi_artifact_uri = None, oi_category = IC_TOOL_RESULT, oi_retention = IR_PINNED, oi_item_id = i, oi_metadata = []\<rparr>)) (\<lambda>y.
     bindE (tool_output_items env xs) (\<lambda>ys. returnE (ToolOutputItem y # ys))))"

definition canonical_items :: "'w context_env \<Rightarrow> model_request \<Rightarrow> ('w, input_item list) ctx" where
  "canonical_items env r =
     (if rq_input_items r \<noteq> [] then returnE (rq_input_items r)
      else bindE (message_items env True (rq_messages r)) (\<lambda>xs.
           bindE (tool_output_items env (rq_tool_outputs r)) (\<lambda>ys. returnE (xs @ ys))))"

definition canonical_request :: "model_request \<Rightarrow> input_item list \<Rightarrow> exn + model_request" where
  "canonical_request r items = new_ModelRequest (r\<lparr>rq_messages := [], rq_input_items := items, rq_tool_outputs := [],
     rq_previous_response_id := None, rq_continuation := None\<rparr>)"

section \<open>Token counts\<close>

fun call_ids :: "input_item list \<Rightarrow> string set" where
  "call_ids [] = {}"
| "call_ids (ToolCallItem c # xs) = insert (ci_call_id c) (call_ids xs)"
| "call_ids (_ # xs) = call_ids xs"

fun output_ids :: "input_item list \<Rightarrow> string set" where
  "output_ids [] = {}"
| "output_ids (ToolOutputItem x # xs) = insert (oi_call_id x) (output_ids xs)"
| "output_ids (_ # xs) = output_ids xs"

definition pending_tool_count :: "input_item list \<Rightarrow> int" where
  "pending_tool_count items = int (card (call_ids items - output_ids items))"

definition count_tokens :: "'w context_env \<Rightarrow> model_request \<Rightarrow> 'w context_model \<Rightarrow> ('w, int) ctx" where
  "count_tokens env r model = (case md_count model of
     None \<Rightarrow> e_count env r
   | Some exact \<Rightarrow> with_exceptions (exact r) (\<lambda>_. e_count env r))"

definition context_tokens :: "'w context_env \<Rightarrow> model_request \<Rightarrow> 'w context_model \<Rightarrow> int \<Rightarrow> ('w, token_state) ctx" where
  "context_tokens env r model limit =
     bindE (count_tokens env r model) (\<lambda>current.
     if current < 0 then raiseE (ValueError ''token counter returned a negative value'')
     else let reserved = (case rq_max_output_tokens r of Some n \<Rightarrow> if n = 0 then cp_reserved_output (e_policy env) else n
            | None \<Rightarrow> cp_reserved_output (e_policy env));
          pending = pending_tool_count (rq_input_items r) * cp_tool_output (e_policy env)
       in liftE (new_ContextTokenState \<lparr>tk_current = current, tk_projected = current + reserved + pending, tk_limit = limit\<rparr>))"

definition pressure :: "context_policy \<Rightarrow> token_state \<Rightarrow> context_pressure" where
  "pressure p t = (if float_le (cp_hard p) (usage_ratio t) then PR_HARD
     else if float_le (cp_soft p) (usage_ratio t) then PR_SOFT else PR_NORMAL)"

section \<open>Tool results\<close>

definition needs_blob :: "context_policy \<Rightarrow> tool_output_item \<Rightarrow> bool" where
  "needs_blob p x \<longleftrightarrow> \<not> (oi_artifact_uri x \<noteq> None \<or> count_text (cp_margin p) (oi_output x) \<le> cp_inline_tokens p)"

definition externalized_item :: "tool_output_item \<Rightarrow> blob_ref \<Rightarrow> string \<Rightarrow> exn + tool_output_item" where
  "externalized_item x r shown = new_ModelToolOutputItem (x\<lparr>oi_output := shown, oi_artifact_uri := Some (br_uri r),
     oi_retention := IR_EXTERNALIZED,
     oi_metadata := dict_update (oi_metadata x) [(PStr ''externalized'', PBool True), (PStr ''sha256'', PStr (br_sha256 r)),
       (PStr ''size_bytes'', PInt (br_size r))]\<rparr>)"

definition externalize_one :: "'w context_env \<Rightarrow> string \<Rightarrow> tool_output_item \<Rightarrow> ('w, input_item) ctx" where
  "externalize_one env key x =
     bindE (with_exceptions
         (bindE (e_put env (oi_output x) ''text/plain; charset=utf-8'' ''tool-result'' (map_option rp_tool_result_ttl (e_retention env)))
            (\<lambda>r. returnE (Some r)))
         (\<lambda>e. thenE (context_publish env CE_COMPACTION_FAILED key 0 None
             [(PStr ''stage'', PStr ''tool_result_externalization''), (PStr ''error_type'', PStr (exn_type e))])
           (returnE None))) (\<lambda>found. case found of
       None \<Rightarrow> returnE (ToolOutputItem x)
     | Some r \<Rightarrow>
         bindE (liftE (e_reduce env (oi_output x) r (oi_is_error x))) (\<lambda>shown.
         bindE (liftE (externalized_item x r shown)) (\<lambda>y.
         thenE (context_publish env CE_TOOL_RESULT_EXTERNALIZED key 0 None [(PStr ''size_bytes'', PInt (br_size r))])
           (returnE (ToolOutputItem y)))))"

fun externalize :: "'w context_env \<Rightarrow> string \<Rightarrow> input_item list \<Rightarrow> ('w, input_item list) ctx" where
  "externalize env key [] = returnE []"
| "externalize env key (x # xs) =
     bindE (case x of
         ToolOutputItem y \<Rightarrow> if needs_blob (e_policy env) y then externalize_one env key y else returnE x
       | _ \<Rightarrow> returnE x) (\<lambda>y.
     bindE (externalize env key xs) (\<lambda>ys. returnE (y # ys)))"

section \<open>Compaction\<close>

definition archive_items :: "'w context_env \<Rightarrow> input_item list \<Rightarrow> ('w, string) ctx" where
  "archive_items env items =
     bindE (liftE (ebind (encode_input_items items) (\<lambda>vs. e_json env True (PList vs)))) (\<lambda>payload.
     bindE (e_put env payload ''application/json'' ''context-archive'' (map_option rp_archive_ttl (e_retention env))) (\<lambda>r.
     returnE (br_uri r)))"

definition ensure_semantic_provider :: "'w context_env \<Rightarrow> string \<Rightarrow> ('w, unit) ctx" where
  "ensure_semantic_provider env provider =
     (case e_compactor env of
        Some (Some summary, _) \<Rightarrow>
          if \<not> cp_cross_provider (e_policy env) \<and> provider \<noteq> summary
          then raiseE (IncompatibleContext (''semantic compactor provider differs from the primary model; ''
            @ ''set allow_cross_provider_summary=True to opt in''))
          else returnE ()
      | _ \<Rightarrow> returnE ())"

definition native_request :: "model_request \<Rightarrow> input_item list \<Rightarrow> exn + model_request" where
  "native_request r items = new_ModelRequest (r\<lparr>rq_input_items := items, rq_tools := [], rq_response_schema := None,
     rq_max_output_tokens := None, rq_temperature := None, rq_tool_choice := None, rq_context_scope := None,
     rq_context_mode := CM_REPLACE\<rparr>)"

text \<open>The native attempt: \<open>Inl\<close> the exception it raised, \<open>Inr []\<close> when there is none or no result.\<close>

definition native_compaction ::
  "'w context_model \<Rightarrow> model_request \<Rightarrow> input_item list \<Rightarrow> ('w, exn + input_item list) ctx" where
  "native_compaction model r items = (case md_compact model of
     None \<Rightarrow> returnE (Inr [])
   | Some summarize \<Rightarrow> bindE (liftE (native_request r items)) (\<lambda>nr.
       with_exceptions (bindE (summarize nr) (\<lambda>xs. returnE (Inr xs))) (\<lambda>e. returnE (Inl e))))"

definition compact_items ::
  "'w context_env \<Rightarrow> input_item list \<Rightarrow> model_request \<Rightarrow> 'w context_model \<Rightarrow> context_scope \<Rightarrow> int
   \<Rightarrow> ('w, input_item list) ctx" where
  "compact_items env items r model scope target =
     bindE (native_compaction model r items) (\<lambda>native. case native of
       Inr (x # xs) \<Rightarrow> returnE (x # xs)
     | _ \<Rightarrow> (case e_compactor env of
         Some (_, summarize) \<Rightarrow> thenE (ensure_semantic_provider env (md_provider model)) (summarize items scope target)
       | None \<Rightarrow> raiseE (case native of Inl e \<Rightarrow> e
           | Inr _ \<Rightarrow> ContextBudgetExceeded ''no context compactor is available'')))"

definition memory_facts :: "'w context_env \<Rightarrow> compaction_item \<Rightarrow> string list option" where
  "memory_facts env x = (case e_parse env (pi_payload x) of
     Some (PDict summary) \<Rightarrow> (case field ''facts'' summary of
         PList vs \<Rightarrow> if list_all (\<lambda>v. case v of PStr _ \<Rightarrow> True | _ \<Rightarrow> False) vs
           then Some (map (\<lambda>v. case v of PStr s \<Rightarrow> s | _ \<Rightarrow> []) vs) else None
       | _ \<Rightarrow> None)
   | _ \<Rightarrow> None)"

definition source_ids :: "compaction_item \<Rightarrow> string list" where
  "source_ids x = (case field ''source_item_ids'' (pi_metadata x) of
     PList vs \<Rightarrow> map (\<lambda>v. case v of PStr s \<Rightarrow> s | _ \<Rightarrow> []) (filter (\<lambda>v. case v of PStr _ \<Rightarrow> True | _ \<Rightarrow> False) vs)
   | _ \<Rightarrow> [])"

fun remember_all ::
  "'w context_env \<Rightarrow> (string list \<Rightarrow> exn + string list) \<Rightarrow> (context_scope \<Rightarrow> string list \<Rightarrow> string list \<Rightarrow> ('w, unit) ctx)
   \<Rightarrow> context_scope \<Rightarrow> input_item list \<Rightarrow> ('w, unit) ctx" where
  "remember_all env admit remember scope [] = returnE ()"
| "remember_all env admit remember scope (x # xs) =
     thenE (case x of
         CompactionItem c \<Rightarrow> if pi_native c then returnE () else (case memory_facts env c of
             None \<Rightarrow> returnE ()
           | Some facts \<Rightarrow> bindE (liftE (admit facts)) (\<lambda>admitted.
               if admitted \<noteq> [] then remember scope admitted (source_ids c) else returnE ()))
       | _ \<Rightarrow> returnE ())
     (remember_all env admit remember scope xs)"

definition extract_memories :: "'w context_env \<Rightarrow> input_item list \<Rightarrow> context_scope \<Rightarrow> ('w, unit) ctx" where
  "extract_memories env compacted scope =
     (if \<not> cp_memory_extraction (e_policy env) then returnE ()
      else case e_memory env of None \<Rightarrow> returnE ()
        | Some (admit, remember) \<Rightarrow> remember_all env admit remember scope compacted)"

text \<open>
  Where the passes stand: the items, the request made of them and its token state, the archives
  written and the passes counted so far.
\<close>

record compaction =
  cx_items :: "input_item list"
  cx_request :: model_request
  cx_tokens :: token_state
  cx_archives :: "string list"
  cx_passes :: int

definition target_tokens :: "context_policy \<Rightarrow> int \<Rightarrow> int" where
  "target_tokens p limit = max 1 \<lfloor>of_int limit * float_value (cp_target p)\<rfloor>"

text \<open>The \<open>try\<close> block of a pass; its value is the new state and the compacted items.\<close>

definition compaction_pass ::
  "'w context_env \<Rightarrow> 'w context_model \<Rightarrow> context_scope \<Rightarrow> input_item list \<Rightarrow> compaction \<Rightarrow> ('w, compaction \<times> input_item list) ctx" where
  "compaction_pass env model scope old c =
     bindE (archive_items env old) (\<lambda>archive.
     bindE (compact_items env old (cx_request c) model scope (target_tokens (e_policy env) (tk_limit (cx_tokens c)))) (\<lambda>compacted.
     let candidate = rebuild (cx_items c) old compacted in
     bindE (liftE (new_ModelRequest (cx_request c\<lparr>rq_input_items := candidate\<rparr>))) (\<lambda>r.
     bindE (context_tokens env r model (tk_limit (cx_tokens c))) (\<lambda>t.
     if tk_current (cx_tokens c) \<le> tk_current t then raiseE (ValueError ''compaction did not reduce context tokens'')
     else thenE (extract_memories env compacted scope)
       (returnE (\<lparr>cx_items = candidate, cx_request = r, cx_tokens = t, cx_archives = cx_archives c @ [archive],
          cx_passes = cx_passes c + 1\<rparr>, compacted))))))"

fun compact_passes ::
  "'w context_env \<Rightarrow> 'w context_model \<Rightarrow> context_scope \<Rightarrow> nat \<Rightarrow> compaction \<Rightarrow> ('w, compaction) ctx" where
  "compact_passes env model scope 0 c = returnE c"
| "compact_passes env model scope (Suc n) c =
     (if float_less (usage_ratio (cx_tokens c)) (cp_target (e_policy env)) then returnE c
      else let old = summarizable (cp_recent_turns (e_policy env)) (cx_items c) in
      if old = [] then returnE c
      else thenE (context_publish env CE_COMPACTION_STARTED (scope_key scope) 0 (Some (cx_tokens c))
             [(PStr ''source_items'', PInt (int (length old)))])
        (bindE (with_exceptions (bindE (compaction_pass env model scope old c) (\<lambda>x. returnE (Some x)))
          (\<lambda>e. thenE (context_publish env CE_COMPACTION_FAILED (scope_key scope) 0 (Some (cx_tokens c))
                  [(PStr ''error_type'', PStr (exn_type e))])
               (if float_le (cp_hard (e_policy env)) (usage_ratio (cx_tokens c))
                then raiseE (ContextBudgetExceeded (''context compaction failed at hard threshold ('' @ exn_type e @ '')''))
                else returnE None))) (\<lambda>outcome. case outcome of
          None \<Rightarrow> returnE c
        | Some (d, compacted) \<Rightarrow>
            thenE (context_publish env CE_COMPACTION_COMPLETED (scope_key scope) 0 (Some (cx_tokens d))
               [(PStr ''pass'', PInt (cx_passes d)),
                (PStr ''strategy'', PStr (if list_ex is_native compacted then ''native'' else ''semantic'')),
                (PStr ''before_tokens'', PInt (tk_current (cx_tokens c))), (PStr ''after_tokens'', PInt (tk_current (cx_tokens d)))])
              (compact_passes env model scope n d))))"

definition compact_to_budget ::
  "'w context_env \<Rightarrow> model_request \<Rightarrow> input_item list \<Rightarrow> 'w context_model \<Rightarrow> context_scope \<Rightarrow> token_state
   \<Rightarrow> ('w, compaction) ctx" where
  "compact_to_budget env r items model scope t =
     compact_passes env model scope (nat (cp_passes (e_policy env)))
       \<lparr>cx_items = items, cx_request = r, cx_tokens = t, cx_archives = [], cx_passes = 0\<rparr>"

section \<open>Switching models\<close>

definition provider_output :: "input_item \<Rightarrow> bool" where
  "provider_output x \<longleftrightarrow> flagged ''provider_output_item'' (item_metadata x)"

definition private_keys :: "string list" where
  "private_keys = [''provider_private_state'', ''provider'', ''model'', ''assistant_private_fields'']"

definition portable_item :: "input_item \<Rightarrow> exn + input_item" where
  "portable_item x = (case x of
     ToolCallItem c \<Rightarrow> if flagged ''provider_private_state'' (ci_metadata c)
       then map_sum id ToolCallItem (new_ModelToolCallItem (c\<lparr>ci_metadata :=
              filter (\<lambda>kv. \<not> (\<exists>k \<in> set private_keys. fst kv = PStr k)) (ci_metadata c)\<rparr>))
       else Inr x
   | _ \<Rightarrow> Inr x)"

fun is_compaction :: "input_item \<Rightarrow> bool" where
  "is_compaction (CompactionItem _) = True"
| "is_compaction _ = False"

definition portable_items :: "input_item list \<Rightarrow> exn + input_item list" where
  "portable_items items = each portable_item (filter (\<lambda>x. \<not> (is_compaction x \<and> provider_output x)) items)"

text \<open>The archived items in order, each identifier once.\<close>

fun merge_new :: "input_item list \<Rightarrow> input_item list \<Rightarrow> input_item list" where
  "merge_new acc [] = acc"
| "merge_new acc (x # xs) = merge_new (if item_id x \<in> item_id ` set acc then acc else acc @ [x]) xs"

fun read_archives :: "'w context_env \<Rightarrow> input_item list \<Rightarrow> string list \<Rightarrow> ('w, input_item list) ctx" where
  "read_archives env acc [] = returnE acc"
| "read_archives env acc (uri # uris) =
     bindE (e_blob env uri) (\<lambda>payload.
     bindE (liftE (case e_parse env payload of
         None \<Rightarrow> Inl (ValueError ''invalid JSON'')
       | Some (PList vs) \<Rightarrow> decode_input_items vs
       | Some _ \<Rightarrow> Inl (ValueError ''context archive root must be an array''))) (\<lambda>xs.
     read_archives env (merge_new acc xs) uris))"

definition archived_history :: "'w context_env \<Rightarrow> context_snapshot \<Rightarrow> ('w, input_item list) ctx" where
  "archived_history env s =
     bindE (with_exceptions (read_archives env [] (xs_archives s))
        (\<lambda>_. raiseE (IncompatibleContext (''context '' @ xs_key s @ '' archived history cannot be restored'')))) (\<lambda>archived.
     if archived = [] then raiseE (IncompatibleContext (''context '' @ xs_key s @ '' archived history is empty''))
     else returnE archived)"

definition compatible_items ::
  "'w context_env \<Rightarrow> context_snapshot \<Rightarrow> 'w context_model \<Rightarrow> context_scope \<Rightarrow> int \<Rightarrow> ('w, input_item list) ctx" where
  "compatible_items env s model scope limit =
     (let native = filter (\<lambda>x. is_native x \<and> \<not> provider_output x) (xs_items s) in
      if xs_provider s = Some (md_provider model) \<and> xs_model s = Some (md_model model) then returnE (xs_items s)
      else bindE (liftE (portable_items (xs_items s))) (\<lambda>portable.
        if native = [] then returnE portable
        else case e_compactor env of
          None \<Rightarrow> raiseE (IncompatibleContext (''context '' @ xs_key s @ '' contains native compaction state; archived history ''
            @ ''and a semantic compactor are required to switch models''))
        | Some (_, summarize) \<Rightarrow>
            if xs_archives s = []
            then raiseE (IncompatibleContext (''context '' @ xs_key s @ '' contains native compaction state; archived history ''
              @ ''and a semantic compactor are required to switch models''))
            else thenE (ensure_semantic_provider env (md_provider model))
              (bindE (archived_history env s) (\<lambda>archived.
               bindE (summarize archived scope (target_tokens (e_policy env) limit)) (\<lambda>compacted.
               returnE (replace_items (item_id ` set native) compacted False portable))))))"

section \<open>References\<close>

definition restore :: "'w context_env \<Rightarrow> snapshot_ref \<Rightarrow> ('w, context_snapshot) ctx" where
  "restore env r =
     (if sr_version r \<noteq> 1 then raiseE (ContextSnapshotError ''context snapshot reference schema version is unsupported'')
      else bindE (e_load env (sr_key r) (Some (sr_revision r))) (\<lambda>found. case found of
          None \<Rightarrow> raiseE (ContextSnapshotError (''context snapshot '' @ sr_key r @ '' is missing''))
        | Some s \<Rightarrow> bindE (liftE (e_checksum env s)) (\<lambda>sum.
            if sum \<noteq> sr_checksum r then raiseE (ContextSnapshotError ''context snapshot checksum mismatch'')
            else returnE s)))"

definition register_recovery_references :: "snapshot_ref list \<Rightarrow> ('w, unit) ctx" where
  "register_recovery_references rs =
     modifyE (\<lambda>s. s\<lparr>ct_recovery := fold (\<lambda>r d. dict_set (sr_key r) r d) rs (ct_recovery s)\<rparr>)"

definition ref_of_external :: "state_ref \<Rightarrow> exn + snapshot_ref" where
  "ref_of_external r = new_ContextSnapshotRef \<lparr>sr_key = ref_key r, sr_revision = ref_revision r, sr_checksum = ref_checksum r,
     sr_version = ref_schema_version r\<rparr>"

definition register_external_state_references :: "state_ref list \<Rightarrow> ('w, unit) ctx" where
  "register_external_state_references rs =
     bindE (liftE (each ref_of_external (filter (\<lambda>r. ref_kind r = ''model_context'') rs))) register_recovery_references"

definition infix_of :: "string \<Rightarrow> string \<Rightarrow> bool" where
  "infix_of p t \<longleftrightarrow> list_ex (\<lambda>i. take (length p) (List.drop i t) = p) [0..<length t + 1]"

definition external_of_ref :: "snapshot_ref \<Rightarrow> exn + state_ref" where
  "external_of_ref r = new_ExternalStateRef ''model_context'' (sr_key r) (sr_revision r) (sr_checksum r) (sr_version r)"

definition external_state_references :: "string \<Rightarrow> 'w context_state \<Rightarrow> exn + state_ref list" where
  "external_state_references run s =
     each (\<lambda>kv. external_of_ref (snd kv)) (filter (\<lambda>kv. infix_of ('':'' @ url_quote run @ '':'') (fst kv))
       (sort_key fst (dict_update (ct_latest s) (ct_recovery s))))"

section \<open>Before and after a model call\<close>

definition take_recovery :: "string \<Rightarrow> ('w, snapshot_ref option) ctx" where
  "take_recovery key = (\<lambda>s. (Inr (dict_get (ct_recovery s) key), s\<lparr>ct_recovery := dict_del key (ct_recovery s)\<rparr>))"

definition existing_snapshot :: "'w context_env \<Rightarrow> string \<Rightarrow> ('w, context_snapshot option \<times> int) ctx" where
  "existing_snapshot env key =
     bindE (take_recovery key) (\<lambda>recovery.
     bindE (e_load env key None) (\<lambda>latest.
     bindE (case recovery of Some r \<Rightarrow> bindE (restore env r) (\<lambda>s. returnE (Some s)) | None \<Rightarrow> returnE latest) (\<lambda>existing.
     thenE (case existing of None \<Rightarrow> returnE ()
        | Some s \<Rightarrow> context_publish env CE_SNAPSHOT_RESTORED key (xs_revision s) (Some (xs_tokens s)) [])
       (returnE (existing, case latest of None \<Rightarrow> 0 | Some s \<Rightarrow> xs_revision s)))))"

definition request_items ::
  "'w context_env \<Rightarrow> model_request \<Rightarrow> 'w context_model \<Rightarrow> context_scope \<Rightarrow> int \<Rightarrow> context_snapshot option \<Rightarrow> ('w, input_item list) ctx" where
  "request_items env r model scope limit existing =
     bindE (canonical_items env r) (\<lambda>raw.
     bindE (externalize env (scope_key scope) raw) (\<lambda>incoming.
     if rq_context_mode r = CM_APPEND then (case existing of
         None \<Rightarrow> raiseE (ContextSnapshotError (''cannot append to missing context snapshot '' @ scope_key scope))
       | Some s \<Rightarrow> bindE (compatible_items env s model scope limit) (\<lambda>old. returnE (old @ incoming)))
     else returnE incoming))"

definition within_budget ::
  "'w context_env \<Rightarrow> 'w context_model \<Rightarrow> context_scope \<Rightarrow> compaction \<Rightarrow> ('w, compaction) ctx" where
  "within_budget env model scope c =
     bindE (if float_le (cp_soft (e_policy env)) (usage_ratio (cx_tokens c))
       then compact_to_budget env (cx_request c) (cx_items c) model scope (cx_tokens c) else returnE c) (\<lambda>d.
     if float_le (cp_hard (e_policy env)) (usage_ratio (cx_tokens d))
     then raiseE (ContextBudgetExceeded (''context '' @ scope_key scope @ '' uses too many projected tokens''))
     else returnE d)"

definition invocation_entry :: "context_scope \<Rightarrow> pyval \<times> pyval" where
  "invocation_entry scope = (PStr ''last_invocation_id'', none_or PStr (cs_invocation_id scope))"

definition save_context :: "'w context_env \<Rightarrow> context_snapshot \<Rightarrow> int \<Rightarrow> ('w, snapshot_ref) ctx" where
  "save_context env s expected =
     bindE (e_save env s expected) (\<lambda>r.
     thenE (modifyE (\<lambda>st. st\<lparr>ct_latest := dict_set (xs_key s) r (ct_latest st)\<rparr>))
    (thenE (context_publish env CE_SNAPSHOT_SAVED (xs_key s) (xs_revision s) (Some (xs_tokens s)) [])
       (returnE r)))"

definition next_snapshot ::
  "context_snapshot option \<Rightarrow> int \<Rightarrow> context_scope \<Rightarrow> 'w context_model \<Rightarrow> compaction \<Rightarrow> datetime \<Rightarrow> context_snapshot" where
  "next_snapshot existing expected scope model c now = \<lparr>xs_key = scope_key scope, xs_scope = scope, xs_revision = expected + 1,
     xs_items = cx_items c, xs_tokens = cx_tokens c, xs_provider = Some (md_provider model), xs_model = Some (md_model model),
     xs_compactions = (case existing of None \<Rightarrow> 0 | Some s \<Rightarrow> xs_compactions s) + cx_passes c,
     xs_archives = (case existing of None \<Rightarrow> [] | Some s \<Rightarrow> xs_archives s) @ cx_archives c,
     xs_metadata = [invocation_entry scope],
     xs_created = (case existing of None \<Rightarrow> now | Some s \<Rightarrow> xs_created s), xs_updated = now\<rparr>"

definition prepare :: "'w context_env \<Rightarrow> model_request \<Rightarrow> 'w context_model \<Rightarrow> ('w, prepared_request) ctx" where
  "prepare env r model = (case rq_context_scope r of
     None \<Rightarrow> raiseE (ValueError ''managed model request requires a context scope'')
   | Some scope \<Rightarrow>
       bindE (liftE (resolve_limit (e_policy env) (md_window model))) (\<lambda>limit.
       bindE (existing_snapshot env (scope_key scope)) (\<lambda>(existing, expected).
       bindE (request_items env r model scope limit existing) (\<lambda>items.
       bindE (liftE (canonical_request r items)) (\<lambda>canonical.
       bindE (context_tokens env canonical model limit) (\<lambda>t.
       thenE (context_publish env CE_PRESSURE (scope_key scope) (case existing of None \<Rightarrow> 0 | Some s \<Rightarrow> xs_revision s) (Some t)
          [(PStr ''pressure'', PStr (context_pressure_value (pressure (e_policy env) t)))])
      (bindE (within_budget env model scope \<lparr>cx_items = items, cx_request = canonical, cx_tokens = t, cx_archives = [], cx_passes = 0\<rparr>) (\<lambda>c.
       bindE (e_now env) (\<lambda>now.
       bindE (liftE (new_ContextSnapshot (next_snapshot existing expected scope model c now))) (\<lambda>s.
       bindE (save_context env s expected) (\<lambda>ref.
       returnE \<lparr>pq_request = cx_request c, pq_snapshot = s, pq_ref = ref\<rparr>)))))))))))"

text \<open>A tool call with its result, and provider state next to a result, may be summarised from now on.\<close>

definition releasable :: "string set \<Rightarrow> input_item \<Rightarrow> bool" where
  "releasable done_ids x \<longleftrightarrow> item_retention x = Some IR_PINNED \<and> (case x of
     ToolCallItem c \<Rightarrow> ci_call_id c \<in> done_ids
   | ToolOutputItem y \<Rightarrow> oi_call_id y \<in> done_ids
   | CompactionItem c \<Rightarrow> flagged ''provider_output_item'' (pi_metadata c) \<and> done_ids \<noteq> {}
   | MessageItem _ \<Rightarrow> False)"

fun set_summarizable :: "input_item \<Rightarrow> exn + input_item" where
  "set_summarizable (ToolCallItem c) = map_sum id ToolCallItem (new_ModelToolCallItem (c\<lparr>ci_retention := IR_SUMMARIZABLE\<rparr>))"
| "set_summarizable (ToolOutputItem y) = map_sum id ToolOutputItem (new_ModelToolOutputItem (y\<lparr>oi_retention := IR_SUMMARIZABLE\<rparr>))"
| "set_summarizable (CompactionItem c) = map_sum id CompactionItem (new_ModelCompactionItem (c\<lparr>pi_retention := IR_SUMMARIZABLE\<rparr>))"
| "set_summarizable (MessageItem m) = map_sum id MessageItem (new_ModelMessageItem (m\<lparr>mi_retention := Some IR_SUMMARIZABLE\<rparr>))"

definition release_completed :: "input_item list \<Rightarrow> exn + input_item list" where
  "release_completed items = each (\<lambda>x. if releasable (output_ids items) x then set_summarizable x else Inr x) items"

fun tool_call_items :: "'w context_env \<Rightarrow> tool_call list \<Rightarrow> ('w, input_item list) ctx" where
  "tool_call_items env [] = returnE []"
| "tool_call_items env (c # cs) =
     bindE (e_uuid env) (\<lambda>i.
     bindE (liftE (new_ModelToolCallItem \<lparr>ci_call_id = tc_call_id c, ci_name = tc_name c, ci_arguments = tc_arguments c,
       ci_category = IC_AGENT_STATE, ci_retention = IR_PINNED, ci_item_id = i, ci_metadata = []\<rparr>)) (\<lambda>y.
     bindE (tool_call_items env cs) (\<lambda>ys. returnE (ToolCallItem y # ys))))"

definition response_items :: "'w context_env \<Rightarrow> model_response \<Rightarrow> ('w, input_item list) ctx" where
  "response_items env resp =
     bindE (if \<not> blank (rs_output_text resp)
       then bindE (fresh_message env \<lparr>mi_role = ASSISTANT, mi_content = rs_output_text resp, mi_name = None, mi_category = None,
         mi_retention = Some IR_RECENT, mi_item_id = [], mi_metadata = []\<rparr>) (\<lambda>x. returnE [x])
       else returnE []) (\<lambda>xs.
     bindE (tool_call_items env (rs_tool_calls resp)) (\<lambda>ys. returnE (xs @ ys)))"

definition usage_entry :: "token_usage \<Rightarrow> pyval \<times> pyval" where
  "usage_entry u = (PStr ''last_model_usage'', obj [(''input_tokens'', PInt (tu_input u)), (''output_tokens'', PInt (tu_output u)),
     (''total_tokens'', PInt (tu_total u)), (''cache_hit_tokens'', PInt (tu_cache_hit u)),
     (''cache_miss_tokens'', PInt (tu_cache_miss u)), (''reasoning_tokens'', PInt (tu_reasoning u))])"

definition record_response :: "'w context_env \<Rightarrow> prepared_request \<Rightarrow> model_response \<Rightarrow> ('w, model_response) ctx" where
  "record_response env p resp =
     bindE (if rs_output_items resp \<noteq> [] then returnE (rs_output_items resp) else response_items env resp) (\<lambda>out.
     bindE (liftE (release_completed (xs_items (pq_snapshot p)))) (\<lambda>released.
     let items = released @ out in
     bindE (liftE (new_ModelRequest (pq_request p\<lparr>rq_input_items := items\<rparr>))) (\<lambda>r.
     bindE (e_count env r) (\<lambda>current.
     bindE (liftE (new_ContextTokenState \<lparr>tk_current = current,
         tk_projected = current + cp_reserved_output (e_policy env) + pending_tool_count items * cp_tool_output (e_policy env),
         tk_limit = tk_limit (xs_tokens (pq_snapshot p))\<rparr>)) (\<lambda>t.
     bindE (e_now env) (\<lambda>now.
     bindE (liftE (new_ContextSnapshot (pq_snapshot p\<lparr>xs_revision := xs_revision (pq_snapshot p) + 1, xs_items := items, xs_tokens := t,
         xs_metadata := dict_update (xs_metadata (pq_snapshot p)) [usage_entry (rs_usage resp)], xs_updated := now\<rparr>))) (\<lambda>s.
     bindE (save_context env s (xs_revision (pq_snapshot p))) (\<lambda>ref.
     liftE (new_ModelResponse (resp\<lparr>rs_output_items := out, rs_metadata := dict_update (rs_metadata resp)
         [(PStr ''context_key'', PStr (sr_key ref)), (PStr ''context_revision'', PInt (sr_revision ref)),
          (PStr ''context_checksum'', PStr (sr_checksum ref))]\<rparr>))))))))))"

text \<open>The truth value of an object.\<close>

fun py_true :: "pyval \<Rightarrow> bool" where
  "py_true PNone = False"
| "py_true (PBool b) = b"
| "py_true (PInt i) = (i \<noteq> 0)"
| "py_true (PFloat x) = (x \<noteq> Fin 0)"
| "py_true (PStr s) = (s \<noteq> [])"
| "py_true (PList xs) = (xs \<noteq> [])"
| "py_true (PDict ds) = (ds \<noteq> [])"
| "py_true (POther t) = True"

definition managed_generate :: "'w context_env \<Rightarrow> 'w context_model \<Rightarrow> model_request \<Rightarrow> ('w, model_response) ctx" where
  "managed_generate env model r =
     (if rq_context_scope r = None \<or> py_true (field ''context_lifecycle_internal'' (rq_metadata r)) then md_generate model r
      else bindE (prepare env r model) (\<lambda>p.
        bindE (md_generate model (pq_request p)) (\<lambda>resp. record_response env p resp)))"

section \<open>Checkpoints\<close>

definition register_run :: "loop_context \<Rightarrow> ('w, unit) ctx" where
  "register_run c = bindE getE (\<lambda>s.
     if run_id c \<in> ct_registered s then returnE ()
     else thenE (register_external_state_references (external_state_refs c))
       (modifyE (\<lambda>s. s\<lparr>ct_registered := insert (run_id c) (ct_registered s)\<rparr>)))"

definition context_publish_event ::
  "(loop_event \<Rightarrow> ('w, unit) ctx) \<Rightarrow> loop_event \<Rightarrow> ('w, unit) ctx" where
  "context_publish_event delegate e = thenE (register_run (ev_context e)) (delegate e)"

text \<open>The new references of the context; \<open>delegate\<close> is there when it prepares checkpoints itself.\<close>

definition prepare_checkpoint ::
  "(loop_context \<Rightarrow> ('w, loop_context) ctx) option \<Rightarrow> loop_context \<Rightarrow> ('w, loop_context) ctx" where
  "prepare_checkpoint delegate c =
     thenE (register_run c)
    (bindE (case delegate of None \<Rightarrow> returnE c | Some f \<Rightarrow> f c) (\<lambda>d.
     bindE getE (\<lambda>s. bindE (liftE (external_state_references (run_id d) s)) (\<lambda>refs.
     returnE (d\<lparr>external_state_refs := filter (\<lambda>r. ref_kind r \<noteq> ''model_context'') (external_state_refs d) @ refs\<rparr>)))))"

end
