(* ===== verification/ContextStoreProperties.thy ===== *)
theory ContextStoreProperties
  imports ContextStores CodecFacts
begin

text \<open>
  Snapshots can be read back and stored versions never change: the codec of context snapshots as an
  instance of \<open>part_codec\<close>, and the in-memory store over any sequence of saves. Scope keys separate
  scopes.
\<close>

section \<open>Fields\<close>

lemma cx_back [simp]:
  "cx_text (PStr s) p = Inr t \<longleftrightarrow> \<not> blank s \<and> t = s"
  "cx_string (PStr s) p = Inr s"
  "cx_integer (PInt i) p = Inr i"
  "cx_boolean (PBool b) p = Inr b"
  "cx_array (PList xs) p = Inr xs"
  by (auto simp: cx_text_def cx_string_def cx_integer_def cx_boolean_def cx_array_def)

lemma cx_text_PStr: "\<not> blank s \<Longrightarrow> cx_text (PStr s) p = Inr s"
  by simp

lemma cx_text_Inr: "cx_text v p = Inr s \<longleftrightarrow> v = PStr s \<and> \<not> blank s"
  by (auto simp: cx_text_def split: pyval.splits)

lemma cx_optional_back: "pred_option (\<lambda>s. \<not> blank s) x \<Longrightarrow> cx_optional_text (none_or PStr x) p = Inr x"
  by (cases x) (simp_all add: cx_optional_text_def none_or_def unless_none_def cx_text_PStr)

lemma cx_optional_Inr: "cx_optional_text v p = Inr x \<Longrightarrow> pred_option (\<lambda>s. \<not> blank s) x"
  unfolding cx_optional_text_def by (erule unless_none_Inr) (simp add: cx_text_Inr)

definition string_keys :: "metadata \<Rightarrow> bool" where
  "string_keys ds \<longleftrightarrow> list_all (\<lambda>(k, _). case k of PStr _ \<Rightarrow> True | _ \<Rightarrow> False) ds"

lemma cx_mapping_Inr: "cx_mapping v p = Inr d \<longleftrightarrow> v = PDict d \<and> string_keys d"
  by (auto simp: cx_mapping_def string_keys_def split: pyval.splits)

lemma members_keys [simp]: "string_keys (members fs)"
  by (auto simp: string_keys_def list_all_iff)

lemma cx_mapping_back: "string_keys d \<Longrightarrow> cx_mapping (PDict d) p = Inr d" "cx_mapping (obj fs) p = Inr (members fs)"
  by (simp_all add: cx_mapping_Inr obj_def)

lemma cx_datetime_back: "valid_datetime d \<Longrightarrow> cx_datetime (PStr (isoformat d)) p = Inr d"
proof -
  have "CHR ''T'' \<in> set (isoformat d)" and "\<not> is_space CHR ''T''"
    by (simp_all add: isoformat_def is_space_def)
  then have "\<not> blank (isoformat d)"
    by (auto simp: blank_all list_all_iff)
  moreover assume "valid_datetime d"
  ultimately show ?thesis
    by (simp add: cx_datetime_def cx_text_PStr fromisoformat_isoformat)
qed

lemma cx_datetime_Inr: "cx_datetime v p = Inr d \<Longrightarrow> valid_datetime d"
  by (auto simp: cx_datetime_def ebind_Inr fromisoformat_def Let_def bind_eq_Some_conv
      split: option.splits if_splits prod.splits)

lemma category_back [simp]: "category_of (category_value c) = Inr c"
  by (cases c) (simp_all add: category_of_def enum_of_def)

lemma retention_back [simp]: "retention_of (retention_value r) = Inr r"
  by (cases r) (simp_all add: retention_of_def enum_of_def)

lemma role_back [simp]: "role_of (role_value m) = Inr m"
  by (cases m) (simp_all add: role_of_def enum_of_def)

lemma category_value_not_blank [simp]: "\<not> blank (category_value c)"
  by (cases c) (simp_all add: blank_all is_space_def)

lemma retention_value_not_blank [simp]: "\<not> blank (retention_value r)"
  by (cases r) (simp_all add: blank_all is_space_def)

lemma role_value_not_blank [simp]: "\<not> blank (role_value m)"
  by (cases m) (simp_all add: blank_all is_space_def)

section \<open>Items\<close>

text \<open>
  Items as their constructors accept them, with string keys in their mappings; the payload of a
  compaction must not be blank, which the constructor does not ask for.
\<close>

fun item_ok :: "input_item \<Rightarrow> bool" where
  "item_ok (MessageItem m) = (new_ModelMessageItem m = Inr m \<and> string_keys (mi_metadata m))"
| "item_ok (ToolCallItem c) = (new_ModelToolCallItem c = Inr c \<and> string_keys (ci_metadata c) \<and> string_keys (ci_arguments c))"
| "item_ok (ToolOutputItem x) = (new_ModelToolOutputItem x = Inr x \<and> string_keys (oi_metadata x))"
| "item_ok (CompactionItem x) = (new_ModelCompactionItem x = Inr x \<and> string_keys (pi_metadata x) \<and> \<not> blank (pi_payload x))"

lemma optional_text: "(case x of None \<Rightarrow> True | Some n \<Rightarrow> \<not> blank n) \<longleftrightarrow> pred_option (\<lambda>s. \<not> blank s) x"
  by (cases x) simp_all

lemma message_ok: "new_ModelMessageItem m = Inr m \<longleftrightarrow> \<not> blank (mi_content m) \<and> pred_option (\<lambda>s. \<not> blank s) (mi_name m)
    \<and> \<not> blank (mi_item_id m) \<and> mi_category m \<noteq> None \<and> mi_retention m \<noteq> None"
  by (cases m; cases "mi_category m"; cases "mi_retention m") (auto simp: new_ModelMessageItem_def optional_text Let_def)

lemma require_True: "require True msg r = r"
  by (simp add: require_def)

text \<open>A record is made of its fields.\<close>

lemma made_of_fields [simp]:
  "\<lparr>ci_call_id = ci_call_id c, ci_name = ci_name c, ci_arguments = ci_arguments c, ci_category = ci_category c,
     ci_retention = ci_retention c, ci_item_id = ci_item_id c, ci_metadata = ci_metadata c\<rparr> = c"
  "\<lparr>oi_call_id = oi_call_id x, oi_output = oi_output x, oi_is_error = oi_is_error x, oi_artifact_uri = oi_artifact_uri x,
     oi_category = oi_category x, oi_retention = oi_retention x, oi_item_id = oi_item_id x, oi_metadata = oi_metadata x\<rparr> = x"
  "\<lparr>pi_payload = pi_payload y, pi_provider = pi_provider y, pi_model = pi_model y, pi_native = pi_native y,
     pi_category = pi_category y, pi_retention = pi_retention y, pi_item_id = pi_item_id y, pi_metadata = pi_metadata y\<rparr> = y"
  "\<lparr>cs_run_id = cs_run_id k, cs_participant = cs_participant k, cs_tenant_id = cs_tenant_id k, cs_task_id = cs_task_id k,
     cs_invocation_id = cs_invocation_id k\<rparr> = k"
  "\<lparr>tk_current = tk_current t, tk_projected = tk_projected t, tk_limit = tk_limit t\<rparr> = t"
  "\<lparr>xs_key = xs_key s, xs_scope = xs_scope s, xs_revision = xs_revision s, xs_items = xs_items s, xs_tokens = xs_tokens s,
     xs_provider = xs_provider s, xs_model = xs_model s, xs_compactions = xs_compactions s, xs_archives = xs_archives s,
     xs_metadata = xs_metadata s, xs_created = xs_created s, xs_updated = xs_updated s\<rparr> = s"
  by (cases c, simp, cases x, simp, cases y, simp, cases k, simp, cases t, simp, cases s, simp)

lemma item_written: "item_ok x \<Longrightarrow> \<exists>v. encode_input_item x = Inr v \<and> decode_input_item v = Inr x"
proof (cases x)
  case (MessageItem m)
  assume "item_ok x"
  then have m: "\<not> blank (mi_content m)" "pred_option (\<lambda>s. \<not> blank s) (mi_name m)" "\<not> blank (mi_item_id m)"
    "mi_category m \<noteq> None" "mi_retention m \<noteq> None" "string_keys (mi_metadata m)" "new_ModelMessageItem m = Inr m"
    by (simp_all add: MessageItem message_ok)
  then obtain c r where cr: "mi_category m = Some c" "mi_retention m = Some r"
    by blast
  have same: "\<lparr>mi_role = mi_role m, mi_content = mi_content m, mi_name = mi_name m,
       mi_category = Some c, mi_retention = Some r, mi_item_id = mi_item_id m, mi_metadata = mi_metadata m\<rparr> = m"
    using cr by (cases m) simp
  then show ?thesis
    using m cr by (simp add: MessageItem encode_input_item_def decode_input_item_def item_head_def decode_message_def
        cx_mapping_back cx_text_PStr cx_optional_back same)
next
  case (ToolCallItem c)
  assume "item_ok x"
  then show ?thesis
    by (simp add: ToolCallItem encode_input_item_def decode_input_item_def item_head_def decode_tool_call_def
        cx_mapping_back cx_text_PStr new_ModelToolCallItem_def require_True)
next
  case (ToolOutputItem y)
  assume "item_ok x"
  then show ?thesis
    by (simp add: ToolOutputItem encode_input_item_def decode_input_item_def item_head_def decode_tool_output_def
        cx_mapping_back cx_text_PStr cx_optional_back optional_text new_ModelToolOutputItem_def require_True)
next
  case (CompactionItem y)
  assume "item_ok x"
  then show ?thesis
    by (simp add: CompactionItem encode_input_item_def decode_input_item_def item_head_def decode_compaction_def
        cx_mapping_back cx_text_PStr new_ModelCompactionItem_def require_True)
qed

lemma item_read: "decode_input_item v = Inr x \<Longrightarrow> item_ok x"
  by (auto simp: decode_input_item_def ebind_Inr Let_def cx_mapping_Inr cx_text_Inr map_sum_Inr message_ok
      decode_message_def decode_tool_call_def decode_tool_output_def decode_compaction_def
      new_ModelMessageItem_def new_ModelToolCallItem_def new_ModelToolOutputItem_def new_ModelCompactionItem_def
      optional_text split: if_splits)

lemma items_written: "list_all item_ok xs \<Longrightarrow> \<exists>vs. encode_input_items xs = Inr vs \<and> decode_input_items vs = Inr xs"
proof (induction xs)
  case (Cons x xs)
  then obtain v vs where "encode_input_item x = Inr v" "decode_input_item v = Inr x"
    "encode_input_items xs = Inr vs" "decode_input_items vs = Inr xs"
    using item_written [of x] by auto
  then show ?case
    by (intro exI [of _ "v # vs"]) (simp add: encode_input_items_def decode_input_items_def)
qed (simp add: encode_input_items_def decode_input_items_def)

lemma items_read: "decode_input_items vs = Inr xs \<Longrightarrow> list_all item_ok xs"
  unfolding decode_input_items_def by (erule each_all) (rule item_read)

section \<open>Snapshots\<close>

definition snapshot_ok :: "context_snapshot \<Rightarrow> bool" where
  "snapshot_ok s \<longleftrightarrow> new_ModelContextScope (xs_scope s) = Inr (xs_scope s) \<and> list_all item_ok (xs_items s)
     \<and> new_ContextTokenState (xs_tokens s) = Inr (xs_tokens s) \<and> new_ContextSnapshot s = Inr s
     \<and> string_keys (xs_metadata s) \<and> valid_datetime (xs_created s) \<and> valid_datetime (xs_updated s)"

lemma scope_written:
  assumes "new_ModelContextScope s = Inr s"
  shows "\<exists>fs. encode_scope s = obj fs \<and> decode_scope (members fs) = Inr s"
proof -
  have "\<not> blank (cs_tenant_id s)" "\<not> blank (cs_run_id s)" "\<not> blank (cs_participant s)"
    "pred_option (\<lambda>t. \<not> blank t) (cs_task_id s)" "pred_option (\<lambda>t. \<not> blank t) (cs_invocation_id s)"
    using assms by (auto simp: new_ModelContextScope_def optional_text)
  then show ?thesis
    using assms by (intro exI conjI) (rule encode_scope_def, simp add: decode_scope_def cx_text_PStr cx_optional_back)
qed

lemma scope_read: "decode_scope d = Inr s \<Longrightarrow> new_ModelContextScope s = Inr s"
proof -
  assume "decode_scope d = Inr s"
  then obtain r where "new_ModelContextScope r = Inr s"
    by (auto simp: decode_scope_def ebind_Inr)
  then show ?thesis
    by (auto simp: new_ModelContextScope_def option.map_comp o_def optional_text option.pred_map)
qed

lemma tokens_written:
  "new_ContextTokenState t = Inr t \<Longrightarrow> \<exists>fs. encode_tokens t = obj fs \<and> decode_tokens (members fs) = Inr t"
  by (intro exI conjI) (rule encode_tokens_def, simp add: decode_tokens_def)

lemma tokens_read: "decode_tokens d = Inr t \<Longrightarrow> new_ContextTokenState t = Inr t"
  by (auto simp: decode_tokens_def ebind_Inr new_ContextTokenState_def)

lemma archives_back: "\<not> list_ex blank xs \<Longrightarrow> each (\<lambda>v. cx_text v p) (map PStr xs) = Inr xs"
  by (induction xs) (simp_all add: cx_text_PStr)

lemma required_members: "required n ((PStr k, v) # fs) = (if k = n then Inr v else required n fs)"
  by (simp add: required_def)

interpretation snapshots: part_codec encode_snapshot decode_snapshot snapshot_ok
proof
  fix s
  assume ok: "snapshot_ok s"
  obtain fs where scope: "encode_scope (xs_scope s) = obj fs" "decode_scope (members fs) = Inr (xs_scope s)"
    using ok scope_written by (auto simp: snapshot_ok_def)
  obtain gs where tokens: "encode_tokens (xs_tokens s) = obj gs" "decode_tokens (members gs) = Inr (xs_tokens s)"
    using ok tokens_written by (auto simp: snapshot_ok_def)
  obtain vs where items: "encode_input_items (xs_items s) = Inr vs" "decode_input_items vs = Inr (xs_items s)"
    using ok items_written by (auto simp: snapshot_ok_def)
  have s: "new_ContextSnapshot s = Inr s" and "\<not> blank (xs_key s)" "\<not> list_ex blank (xs_archives s)"
    "pred_option (\<lambda>t. \<not> blank t) (xs_provider s)" "pred_option (\<lambda>t. \<not> blank t) (xs_model s)"
    using ok by (auto simp: snapshot_ok_def new_ContextSnapshot_def optional_text)
  moreover have "string_keys (xs_metadata s)" "valid_datetime (xs_created s)" "valid_datetime (xs_updated s)"
    using ok by (simp_all add: snapshot_ok_def)
  ultimately show "\<exists>fs. encode_snapshot s = Inr (obj fs) \<and> decode_snapshot (members fs) = Inr s"
    by (intro exI conjI, simp add: encode_snapshot_def items(1))
      (simp add: decode_snapshot_def decode_fields_def required_members scope tokens items(2) cx_mapping_back cx_text_PStr
        cx_optional_back archives_back cx_datetime_back)
next
  fix d s
  assume "decode_snapshot d = Inr s"
  then have "decode_fields d = Inr s"
    by (cases "decode_fields d") (simp_all add: decode_snapshot_def split: if_splits)
  then obtain scope items tokens key revision compactions provider model archives meta created updated a b c e p q x y z where
    "decode_scope a = Inr scope" "decode_input_items b = Inr items" "decode_tokens c = Inr tokens"
    "cx_mapping e p = Inr meta" "cx_datetime x q = Inr created" "cx_datetime y z = Inr updated"
    and s: "new_ContextSnapshot \<lparr>xs_key = key, xs_scope = scope, xs_revision = revision, xs_items = items, xs_tokens = tokens,
       xs_provider = provider, xs_model = model, xs_compactions = compactions, xs_archives = archives,
       xs_metadata = meta, xs_created = created, xs_updated = updated\<rparr> = Inr s"
    unfolding decode_fields_def ebind_Inr by (elim exE conjE) (rule that, assumption+)
  moreover from s have "s = \<lparr>xs_key = key, xs_scope = scope, xs_revision = revision, xs_items = items, xs_tokens = tokens,
       xs_provider = provider, xs_model = model, xs_compactions = compactions, xs_archives = archives,
       xs_metadata = meta, xs_created = created, xs_updated = updated\<rparr>"
    by (auto simp: new_ContextSnapshot_def)
  ultimately show "snapshot_ok s"
    by (simp add: snapshot_ok_def cx_mapping_Inr scope_read tokens_read items_read cx_datetime_Inr)
qed


section \<open>The in-memory store\<close>

definition stored :: "context_store \<Rightarrow> string \<Rightarrow> int \<Rightarrow> string option" where
  "stored S key = dict_get (case dict_get (xt_values S) key of None \<Rightarrow> [] | Some d \<Rightarrow> d)"

definition latest :: "context_store \<Rightarrow> string \<Rightarrow> int" where
  "latest S key = (case dict_get (xt_latest S) key of None \<Rightarrow> 0 | Some r \<Rightarrow> r)"

definition saves ::
  "(pyval \<Rightarrow> exn + string) \<Rightarrow> (string \<Rightarrow> string) \<Rightarrow> (context_snapshot \<times> int) list \<Rightarrow> context_store \<Rightarrow> context_store" where
  "saves to_json digest = fold (\<lambda>(s, e) S. snd (context_save to_json digest s e S))"

text \<open>The versions of a key are the ones from 1 to the latest.\<close>

definition versions_ok :: "context_store \<Rightarrow> bool" where
  "versions_ok S \<longleftrightarrow> (\<forall>key r. stored S key r \<noteq> None \<longleftrightarrow> 1 \<le> r \<and> r \<le> latest S key)"

lemma save_cases:
  assumes "context_save to_json digest s e S = (out, S')"
  obtains (kept) "S' = S" and "\<And>x. out \<noteq> Inr x"
    | (saved) t where "latest S (xs_key s) = e" and "xs_revision s = e + 1" and "0 \<le> e"
      and "snapshot_dumps to_json s = Inr t"
      and "\<And>key r. stored S' key r = (if key = xs_key s \<and> r = e + 1 then Some t else stored S key r)"
      and "\<And>key. latest S' key = (if key = xs_key s then e + 1 else latest S key)"
proof (cases "e < 0 \<or> xs_revision s \<noteq> e + 1 \<or> latest S (xs_key s) \<noteq> e \<or> (\<exists>x. snapshot_dumps to_json s = Inl x)")
  case True
  then show ?thesis
    using assms kept by (auto simp: context_save_def latest_def split: if_splits sum.splits)
next
  case False
  then obtain t where t: "snapshot_dumps to_json s = Inr t"
    by (cases "snapshot_dumps to_json s") auto
  then have "S' = S\<lparr>xt_values := dict_set (xs_key s) (dict_set (xs_revision s) t
                  (case dict_get (xt_values S) (xs_key s) of None \<Rightarrow> [] | Some d \<Rightarrow> d)) (xt_values S),
              xt_latest := dict_set (xs_key s) (xs_revision s) (xt_latest S)\<rparr>"
    using assms False by (auto simp: context_save_def latest_def)
  then show ?thesis
    using saved [OF _ _ _ t] False by (simp add: stored_def latest_def update_conv' split: option.splits)
qed

lemma save_keeps:
  assumes "versions_ok S" and "context_save to_json digest s e S = (out, S')"
  shows "versions_ok S' \<and> latest S key \<le> latest S' key \<and> (stored S key r = Some t \<longrightarrow> stored S' key r = Some t)"
  using assms(2)
proof (cases rule: save_cases)
  case (saved u)
  have "\<not> (1 \<le> e + 1 \<and> e + 1 \<le> latest S (xs_key s))"
    using saved(1) by simp
  then have "stored S (xs_key s) (e + 1) = None"
    using assms(1) unfolding versions_ok_def by blast
  moreover have "versions_ok S'"
    using assms(1) saved(1,3) unfolding versions_ok_def saved(5,6) by (auto split: if_splits)
  ultimately show ?thesis
    using saved by auto
qed (simp add: assms(1))

lemma saves_keep:
  "versions_ok S \<Longrightarrow> versions_ok (saves to_json digest ops S) \<and> latest S key \<le> latest (saves to_json digest ops S) key
     \<and> (stored S key r = Some t \<longrightarrow> stored (saves to_json digest ops S) key r = Some t)"
proof (induction ops arbitrary: S)
  case (Cons x ops)
  obtain s e where "x = (s, e)"
    by (cases x)
  moreover obtain out S' where "context_save to_json digest s e S = (out, S')"
    by (cases "context_save to_json digest s e S")
  ultimately have "saves to_json digest (x # ops) S = saves to_json digest ops S'"
    and "versions_ok S' \<and> latest S key \<le> latest S' key \<and> (stored S key r = Some t \<longrightarrow> stored S' key r = Some t)"
    using save_keeps [OF Cons.prems] by (simp_all add: saves_def)
  then show ?case
    using Cons.IH [of S'] by auto
qed (simp add: saves_def)

lemma new_store_ok: "versions_ok new_context_store"
  by (simp add: versions_ok_def stored_def latest_def new_context_store_def)

lemma load_stored: "context_load of_json key (Some r) S = Inr (Some s)
    \<Longrightarrow> \<exists>t. stored S key r = Some t \<and> snapshot_loads of_json t = Inr s \<and> \<not> blank key"
  by (auto simp: context_load_def stored_def map_sum_Inr split: if_splits option.splits)

text \<open>
  C40. Stored versions are immutable and no save is lost: once a version of a context can be loaded, it
  can be loaded unchanged after any further saves; and once a snapshot has been saved over a revision,
  no later save over that revision succeeds.
\<close>
theorem stored_versions_immutable:
  assumes "S = saves to_json digest ops new_context_store" and "S' = saves to_json digest ops' S"
    and "context_load of_json key (Some r) S = Inr (Some s)" and "xs_key new = key" and "e < r"
  shows "context_load of_json key (Some r) S' = Inr (Some s) \<and> (\<forall>ref. fst (context_save to_json digest new e S') \<noteq> Inr ref)"
proof -
  have ok: "versions_ok S"
    using saves_keep [OF new_store_ok] assms(1) by blast
  obtain t where t: "stored S key r = Some t" "snapshot_loads of_json t = Inr s" "\<not> blank key"
    using load_stored [OF assms(3)] by blast
  have kept: "stored S' key r = Some t" "versions_ok S'"
    using saves_keep [OF ok] t(1) assms(2) by blast+
  then have "context_load of_json key (Some r) S' = Inr (Some s)"
    using t(2,3) by (simp add: context_load_def stored_def)
  moreover have bound: "r \<le> latest S' key"
    using kept unfolding versions_ok_def by blast
  have "fst (context_save to_json digest new e S') \<noteq> Inr ref" for ref
  proof -
    obtain out S2 where save: "context_save to_json digest new e S' = (out, S2)"
      by (cases "context_save to_json digest new e S'")
    from save show ?thesis
    proof (cases rule: save_cases)
      case kept
      then show ?thesis
        using save by auto
    next
      case (saved u)
      then show ?thesis
        using assms(4,5) bound by simp
    qed
  qed
  ultimately show ?thesis
    by blast
qed

section \<open>Scope keys\<close>

lemma of_char_hex: "n < 16 \<Longrightarrow> (of_char (hex_digit n) :: nat) = (if n < 10 then 48 + n else 55 + n)"
  by (simp add: hex_digit_def)

lemma hex_digit_inj: "hex_digit m = hex_digit n \<Longrightarrow> m < 16 \<Longrightarrow> n < 16 \<Longrightarrow> m = n"
proof -
  assume "hex_digit m = hex_digit n" and less: "m < 16" "n < 16"
  then have "(of_char (hex_digit m) :: nat) = of_char (hex_digit n)"
    by simp
  then show ?thesis
    unfolding of_char_hex [OF less(1)] of_char_hex [OF less(2)] by (auto split: if_splits)
qed

lemma hex_digit_colon: "n < 16 \<Longrightarrow> hex_digit n \<noteq> CHR '':''"
proof
  assume "n < 16" and "hex_digit n = CHR '':''"
  then have "(if n < 10 then 48 + n else 55 + n) = (58 :: nat)"
    using of_char_hex [of n] by simp
  then show False
    by (simp split: if_splits)
qed

lemma hex_byte_inj: "hex_byte m = hex_byte n \<Longrightarrow> m < 256 \<Longrightarrow> n < 256 \<Longrightarrow> m = n"
proof -
  assume "hex_byte m = hex_byte n" and less: "m < 256" "n < 256"
  then have "hex_digit (m div 16) = hex_digit (n div 16)" "hex_digit (m mod 16) = hex_digit (n mod 16)"
    by (simp_all add: hex_byte_def)
  moreover have "m div 16 < 16" "n div 16 < 16"
    using less by (simp_all add: less_mult_imp_div_less)
  ultimately have "m div 16 = n div 16" "m mod 16 = n mod 16"
    by (auto intro: hex_digit_inj)
  then show ?thesis
    by (metis div_mult_mod_eq)
qed

lemma hex_byte_colon: "n < 256 \<Longrightarrow> CHR '':'' \<notin> set (hex_byte n)"
  using hex_digit_colon [of "n div 16"] hex_digit_colon [of "n mod 16"] by (auto simp: hex_byte_def less_mult_imp_div_less)

lemma byte_less: "(of_char c :: nat) < 256"
  by simp

lemma utf8_bytes: "k < 256 \<Longrightarrow> 192 + k div 64 < (256 :: nat)" "128 + k mod 64 < (256 :: nat)"
proof -
  assume "k < 256"
  then have "k div 64 < 4"
    by (intro less_mult_imp_div_less) simp
  then show "192 + k div 64 < 256"
    by simp
next
  have "k mod 64 < 64"
    by simp
  then show "128 + k mod 64 < 256"
    by simp
qed

lemma url_safe_not: "\<not> url_safe CHR '':''" "\<not> url_safe CHR 0x25"
  by (simp_all add: url_safe_def)

lemma quote_char_colon: "CHR '':'' \<notin> set (quote_char c)"
proof -
  show ?thesis
    using url_safe_not(1) hex_byte_colon [OF byte_less [of c]] hex_byte_colon [OF utf8_bytes(1) [OF byte_less [of c]]]
      hex_byte_colon [OF utf8_bytes(2) [of "of_char c"]] by (auto simp: quote_char_def Let_def)
qed

lemma quote_char_prefix: "quote_char c @ xs = quote_char d @ ys \<Longrightarrow> c = d \<and> xs = ys"
proof -
  assume eq: "quote_char c @ xs = quote_char d @ ys"
  let ?n = "of_char c :: nat" and ?m = "of_char d :: nat"
  have less: "?n < 256" "?m < 256"
    by (rule byte_less)+
  have hex: "hex_byte a @ us = hex_byte b @ vs \<Longrightarrow> a < 256 \<Longrightarrow> b < 256 \<Longrightarrow> a = b \<and> us = vs" for a b us vs
    using hex_byte_inj [of a b] by (simp add: hex_byte_def)
  have safe: "url_safe x \<Longrightarrow> x # us \<noteq> hex_byte a @ vs" for x us a vs
    using url_safe_not(2) by (auto simp: hex_byte_def)
  consider "url_safe c" "url_safe d" | "url_safe c" "\<not> url_safe d" | "\<not> url_safe c" "url_safe d"
    | "\<not> url_safe c" "\<not> url_safe d" "?n < 128" "?m < 128" | "\<not> url_safe c" "\<not> url_safe d" "?n < 128" "\<not> ?m < 128"
    | "\<not> url_safe c" "\<not> url_safe d" "\<not> ?n < 128" "?m < 128" | "\<not> url_safe c" "\<not> url_safe d" "\<not> ?n < 128" "\<not> ?m < 128"
    by blast
  then show ?thesis
  proof cases
    case 1
    then show ?thesis
      using eq by (simp add: quote_char_def)
  next
    case 2
    then show ?thesis
      using eq safe [of c xs] by (auto simp: quote_char_def Let_def split: if_splits)
  next
    case 3
    then show ?thesis
      using eq safe [of d ys] by (auto simp: quote_char_def Let_def split: if_splits dest: sym)
  next
    case 4
    then have "?n = ?m \<and> xs = ys"
      using eq hex [of ?n xs ?m ys] by (simp add: quote_char_def Let_def)
    then show ?thesis
      by simp
  next
    case 5
    then have "?n = 192 + ?m div 64"
      using eq hex [of ?n xs "192 + ?m div 64"] less utf8_bytes(1) [OF less(2)] by (simp add: quote_char_def Let_def)
    then show ?thesis
      using 5 by simp
  next
    case 6
    then have "192 + ?n div 64 = ?m"
      using eq hex [of "192 + ?n div 64" _ ?m ys] less utf8_bytes(1) [OF less(1)] by (simp add: quote_char_def Let_def)
    then show ?thesis
      using 6 by simp
  next
    case 7
    then have "quote_char c = hex_byte (192 + ?n div 64) @ hex_byte (128 + ?n mod 64)"
      and "quote_char d = hex_byte (192 + ?m div 64) @ hex_byte (128 + ?m mod 64)"
      by (simp_all add: quote_char_def Let_def)
    then have both: "hex_byte (192 + ?n div 64) @ hex_byte (128 + ?n mod 64) @ xs = hex_byte (192 + ?m div 64) @ hex_byte (128 + ?m mod 64) @ ys"
      using eq by (simp only: append_assoc)
    note a = hex [OF both utf8_bytes(1) [OF less(1)] utf8_bytes(1) [OF less(2)]]
    have "128 + ?n mod 64 = 128 + ?m mod 64 \<and> xs = ys"
      by (rule hex [OF conjunct2 [OF a] utf8_bytes(2) utf8_bytes(2)])
    with a have "?n = ?m \<and> xs = ys"
      by (metis add_left_imp_eq div_mult_mod_eq)
    then show ?thesis
      by simp
  qed
qed

lemma url_quote_inj: "url_quote s = url_quote t \<Longrightarrow> s = t"
proof (induction s arbitrary: t)
  case Nil
  then show ?case
    by (cases t) (auto simp: url_quote_def quote_char_def hex_byte_def Let_def split: if_splits)
next
  case (Cons c s)
  then obtain d u where t: "t = d # u"
    by (cases t) (auto simp: url_quote_def quote_char_def hex_byte_def Let_def split: if_splits)
  then have "quote_char c @ url_quote s = quote_char d @ url_quote u"
    using Cons.prems by (simp add: url_quote_def)
  then show ?case
    using quote_char_prefix Cons.IH t by blast
qed

lemma url_quote_colon: "CHR '':'' \<notin> set (url_quote s)"
  using quote_char_colon by (auto simp: url_quote_def)

lemma split_colon: "x \<notin> set a \<Longrightarrow> x \<notin> set b \<Longrightarrow> a @ x # c = b @ x # d \<Longrightarrow> a = b \<and> c = d"
proof (induction a arbitrary: b)
  case Nil
  then show ?case
    by (cases b) auto
next
  case (Cons y a)
  then show ?case
    by (cases b) auto
qed

text \<open>
  Contexts of different participants never mix: scopes with the same key have the same tenant, run
  and participant, and the same task, where no task, the empty task and the task \<open>-\<close> count as one.
\<close>
theorem scope_keys_distinct:
  assumes "scope_key s = scope_key t"
  shows "cs_tenant_id s = cs_tenant_id t \<and> cs_run_id s = cs_run_id t \<and> cs_participant s = cs_participant t
     \<and> (cs_task_id s = cs_task_id t \<or> {cs_task_id s, cs_task_id t} \<subseteq> {None, Some [], Some ''-''})"
proof -
  let ?q = url_quote and ?task = "\<lambda>s. case cs_task_id s of Some (c # cs) \<Rightarrow> c # cs | _ \<Rightarrow> ''-''"
  have eq: "?q (cs_tenant_id s) @ CHR '':'' # ?q (cs_run_id s) @ CHR '':'' # ?q (cs_participant s) @ CHR '':'' # ?q (?task s)
      = ?q (cs_tenant_id t) @ CHR '':'' # ?q (cs_run_id t) @ CHR '':'' # ?q (cs_participant t) @ CHR '':'' # ?q (?task t)"
    using assms by (simp add: scope_key_def)
  note part = split_colon [OF url_quote_colon url_quote_colon]
  have one: "?q (cs_tenant_id s) = ?q (cs_tenant_id t)" and r1: "?q (cs_run_id s) @ CHR '':'' # ?q (cs_participant s) @ CHR '':'' # ?q (?task s)
      = ?q (cs_run_id t) @ CHR '':'' # ?q (cs_participant t) @ CHR '':'' # ?q (?task t)"
    using part [OF eq] by simp_all
  have two: "?q (cs_run_id s) = ?q (cs_run_id t)" and r2: "?q (cs_participant s) @ CHR '':'' # ?q (?task s)
      = ?q (cs_participant t) @ CHR '':'' # ?q (?task t)"
    using part [OF r1] by simp_all
  have three: "?q (cs_participant s) = ?q (cs_participant t)" and r3: "?q (?task s) = ?q (?task t)"
    using part [OF r2] by simp_all
  have "?task s = ?task t"
    by (rule url_quote_inj [OF r3])
  then have "cs_task_id s = cs_task_id t \<or> {cs_task_id s, cs_task_id t} \<subseteq> {None, Some [], Some ''-''}"
    by (auto split: option.splits list.splits)
  then show ?thesis
    using url_quote_inj [OF one] url_quote_inj [OF two] url_quote_inj [OF three] by simp
qed

section \<open>An example\<close>

definition demo_clock :: datetime where
  "demo_clock = \<lparr>dt_year = 2026, dt_month = 1, dt_day = 1, dt_hour = 0, dt_minute = 0, dt_second = 0,
     dt_microsecond = 0, dt_offset = Some 0\<rparr>"

definition demo_scope :: context_scope where
  "demo_scope = \<lparr>cs_run_id = ''r'', cs_participant = ''p'', cs_tenant_id = ''t'', cs_task_id = None, cs_invocation_id = None\<rparr>"

definition demo_message :: "message_role \<Rightarrow> item_retention \<Rightarrow> string \<Rightarrow> input_item" where
  "demo_message role kind i = MessageItem \<lparr>mi_role = role, mi_content = i, mi_name = None, mi_category = Some IC_HISTORY,
     mi_retention = Some kind, mi_item_id = i, mi_metadata = []\<rparr>"

definition demo_snapshot :: "int \<Rightarrow> context_snapshot" where
  "demo_snapshot r = \<lparr>xs_key = scope_key demo_scope, xs_scope = demo_scope, xs_revision = r,
     xs_items = [demo_message USER IR_PINNED ''goal''], xs_tokens = \<lparr>tk_current = 10, tk_projected = 20, tk_limit = 100\<rparr>,
     xs_provider = Some ''p'', xs_model = None, xs_compactions = 0, xs_archives = [], xs_metadata = [],
     xs_created = demo_clock, xs_updated = demo_clock\<rparr>"

lemma demo_snapshot_ok: "snapshot_ok (demo_snapshot 1)"
  by code_simp

theorem stored_versions_immutable_witness:
  "\<exists>of_json. context_load of_json (scope_key demo_scope) (Some 1)
      (saves (\<lambda>_. Inr ''j'') id [(demo_snapshot 2, 1)] (saves (\<lambda>_. Inr ''j'') id [(demo_snapshot 1, 0)] new_context_store))
      = Inr (Some (demo_snapshot 1))"
proof -
  let ?S = "saves (\<lambda>_. Inr ''j'') id [(demo_snapshot 1, 0)] new_context_store"
  obtain fs where fs: "decode_snapshot (members fs) = Inr (demo_snapshot 1)"
    using snapshots.written [OF demo_snapshot_ok] by blast
  have "stored ?S (scope_key demo_scope) 1 = Some ''j''"
    by code_simp
  moreover have "\<not> blank (scope_key demo_scope)"
    by code_simp
  ultimately have "context_load (\<lambda>_. Some (PDict (members fs))) (scope_key demo_scope) (Some 1) ?S = Inr (Some (demo_snapshot 1))"
    using fs by (simp add: context_load_def stored_def [symmetric] snapshot_loads_def)
  then have "context_load (\<lambda>_. Some (PDict (members fs))) (scope_key demo_scope) (Some 1)
      (saves (\<lambda>_. Inr ''j'') id [(demo_snapshot 2, 1)] ?S) = Inr (Some (demo_snapshot 1))"
    using stored_versions_immutable [OF refl refl, of _ _ _ _ _ _ _ "demo_snapshot 1" 0] by (simp add: demo_snapshot_def)
  then show ?thesis
    by blast
qed

theorem scope_keys_distinct_witness:
  "scope_key demo_scope = scope_key (demo_scope\<lparr>cs_task_id := Some ''-''\<rparr>)
   \<and> cs_run_id demo_scope = cs_run_id (demo_scope\<lparr>cs_task_id := Some ''-''\<rparr>)"
proof -
  have "scope_key demo_scope = scope_key (demo_scope\<lparr>cs_task_id := Some ''-''\<rparr>)"
    by code_simp
  then show ?thesis
    using scope_keys_distinct by blast
qed

end
