(* ===== verification/ContextProperties.thy ===== *)
theory ContextProperties
  imports ContextManager ContextStoreProperties "HOL-Library.Sublist"
begin

text \<open>
  What the context manager promises: the request it lets through fits the window, a compaction keeps
  what is protected and archives what it removes, snapshots and archives can be read back, stored
  versions never change, and different scopes have different keys.
\<close>

section \<open>Runs that return\<close>

named_theorems returned \<open>what a program that returns has done\<close>

lemma returned_combinators [returned]:
  "bindE m f s = (Inr x, t) \<longleftrightarrow> (\<exists>y u. m s = (Inr y, u) \<and> f y u = (Inr x, t))"
  "thenE m k s = (Inr x, t) \<longleftrightarrow> (\<exists>y u. m s = (Inr y, u) \<and> k u = (Inr x, t))"
  "returnE y s = (Inr x, t) \<longleftrightarrow> y = x \<and> s = t"
  "raiseE e s = (Inr x, t) \<longleftrightarrow> False"
  "liftE r s = (Inr x, t) \<longleftrightarrow> r = Inr x \<and> s = t"
  by (auto simp: bindE_def thenE_def returnE_def raiseE_def liftE_def split: prod.splits sum.splits)

lemma returned_handler: "with_exceptions m h s = (Inr x, t)
    \<Longrightarrow> m s = (Inr x, t) \<or> (\<exists>e u. m s = (Inl e, u) \<and> h e u = (Inr x, t))"
  by (auto simp: with_exceptions_def tryE_def raiseE_def split: prod.splits sum.splits if_splits)

section \<open>Passes\<close>

text \<open>One successful pass, from whatever state.\<close>

definition pass :: "'w context_env \<Rightarrow> 'w context_model \<Rightarrow> context_scope \<Rightarrow> compaction \<Rightarrow> compaction \<Rightarrow> bool" where
  "pass env model scope c d \<longleftrightarrow> (\<exists>xs s t. compaction_pass env model scope
     (summarizable (cp_recent_turns (e_policy env)) (cx_items c)) c s = (Inr (d, xs), t)
     \<and> summarizable (cp_recent_turns (e_policy env)) (cx_items c) \<noteq> [])"

lemma passes_reach:
  "compact_passes env model scope n c s = (Inr d, t) \<Longrightarrow> (pass env model scope)\<^sup>*\<^sup>* c d"
proof (induction n arbitrary: c s)
  case 0
  then show ?case
    by (simp add: returned)
next
  case (Suc n)
  let ?old = "summarizable (cp_recent_turns (e_policy env)) (cx_items c)"
  let ?attempt = "with_exceptions (bindE (compaction_pass env model scope ?old c) (\<lambda>x. returnE (Some x)))
          (\<lambda>e. thenE (context_publish env CE_COMPACTION_FAILED (scope_key scope) 0 (Some (cx_tokens c))
                  [(PStr ''error_type'', PStr (exn_type e))])
               (if float_le (cp_hard (e_policy env)) (usage_ratio (cx_tokens c))
                then raiseE (ContextBudgetExceeded (''context compaction failed at hard threshold ('' @ exn_type e @ '')''))
                else returnE None))"
  have "d = c \<or> ?old \<noteq> [] \<and> (\<exists>u out v w. ?attempt u = (Inr (Some out), v) \<and> compact_passes env model scope n (fst out) w = (Inr d, t))"
  proof (cases "float_less (usage_ratio (cx_tokens c)) (cp_target (e_policy env)) \<or> ?old = []")
    case True
    then show ?thesis
      using Suc.prems by (auto simp: returned Let_def split: if_splits)
  next
    case False
    then obtain u outcome v where run: "?attempt u = (Inr outcome, v)" and "(case outcome of None \<Rightarrow> returnE c
        | Some (d, compacted) \<Rightarrow>
            thenE (context_publish env CE_COMPACTION_COMPLETED (scope_key scope) 0 (Some (cx_tokens d))
               [(PStr ''pass'', PInt (cx_passes d)),
                (PStr ''strategy'', PStr (if list_ex is_native compacted then ''native'' else ''semantic'')),
                (PStr ''before_tokens'', PInt (tk_current (cx_tokens c))), (PStr ''after_tokens'', PInt (tk_current (cx_tokens d)))])
              (compact_passes env model scope n d)) v = (Inr d, t)"
      using Suc.prems by (auto simp: returned Let_def)
    then show ?thesis
      using False by (cases outcome) (auto simp: returned split: prod.splits)
  qed
  then show ?case
  proof
    assume "?old \<noteq> [] \<and> (\<exists>u out v w. ?attempt u = (Inr (Some out), v) \<and> compact_passes env model scope n (fst out) w = (Inr d, t))"
    then obtain u out v w where some: "?old \<noteq> []" and run: "?attempt u = (Inr (Some out), v)"
      and rest: "compact_passes env model scope n (fst out) w = (Inr d, t)"
      by blast
    obtain w' where "compaction_pass env model scope ?old c u = (Inr out, w')"
      using returned_handler [OF run] by (auto simp: returned split: if_splits)
    then have "pass env model scope c (fst out)"
      using some unfolding pass_def by (metis prod.collapse)
    then show ?thesis
      using Suc.IH [OF rest] by (rule converse_rtranclp_into_rtranclp)
  qed simp
qed

text \<open>What a pass has done: it has archived the items it removes, and made a smaller request.\<close>

lemma pass_facts:
  assumes "pass env model scope c d"
  obtains old vs payload r compacted where "old = summarizable (cp_recent_turns (e_policy env)) (cx_items c)" and "old \<noteq> []"
    and "encode_input_items old = Inr vs" and "e_json env True (PList vs) = Inr payload"
    and "\<exists>s t. e_put env payload ''application/json'' ''context-archive'' (map_option rp_archive_ttl (e_retention env)) s = (Inr r, t)"
    and "\<exists>s t. compact_items env old (cx_request c) model scope
        (target_tokens (e_policy env) (tk_limit (cx_tokens c))) s = (Inr compacted, t)"
    and "cx_items d = rebuild (cx_items c) old compacted"
    and "cx_archives d = cx_archives c @ [br_uri r]" and "cx_passes d = cx_passes c + 1"
    and "new_ModelRequest (cx_request c\<lparr>rq_input_items := cx_items d\<rparr>) = Inr (cx_request d)"
    and "\<exists>s t. context_tokens env (cx_request d) model (tk_limit (cx_tokens c)) s = (Inr (cx_tokens d), t)"
    and "tk_current (cx_tokens d) < tk_current (cx_tokens c)"
proof -
  let ?old = "summarizable (cp_recent_turns (e_policy env)) (cx_items c)"
  obtain xs s t where run: "compaction_pass env model scope ?old c s = (Inr (d, xs), t)" and "?old \<noteq> []"
    using assms by (auto simp: pass_def)
  from run obtain archive u v w where a: "archive_items env ?old s = (Inr archive, u)"
    and b: "compact_items env ?old (cx_request c) model scope (target_tokens (e_policy env) (tk_limit (cx_tokens c))) u = (Inr xs, v)"
    and d: "cx_items d = rebuild (cx_items c) ?old xs" "cx_archives d = cx_archives c @ [archive]" "cx_passes d = cx_passes c + 1"
    and r: "new_ModelRequest (cx_request c\<lparr>rq_input_items := rebuild (cx_items c) ?old xs\<rparr>) = Inr (cx_request d)"
    and tk: "context_tokens env (cx_request d) model (tk_limit (cx_tokens c)) v = (Inr (cx_tokens d), w)"
    and less: "\<not> tk_current (cx_tokens c) \<le> tk_current (cx_tokens d)"
    unfolding compaction_pass_def by (auto simp: returned Let_def split: if_splits)
  from a obtain vs payload r where "encode_input_items ?old = Inr vs" "e_json env True (PList vs) = Inr payload"
    and "e_put env payload ''application/json'' ''context-archive'' (map_option rp_archive_ttl (e_retention env)) s = (Inr r, u)"
    and "archive = br_uri r"
    by (auto simp: archive_items_def returned ebind_Inr)
  then show ?thesis
    using that [of ?old vs payload r xs] \<open>?old \<noteq> []\<close> b d r tk less by auto
qed

section \<open>The budget\<close>

definition counted :: "'w context_env \<Rightarrow> 'w context_model \<Rightarrow> int \<Rightarrow> compaction \<Rightarrow> bool" where
  "counted env model limit c \<longleftrightarrow> rq_input_items (cx_request c) = cx_items c \<and> tk_limit (cx_tokens c) = limit
     \<and> (\<exists>s t. context_tokens env (cx_request c) model limit s = (Inr (cx_tokens c), t))"

lemma request_items_kept: "new_ModelRequest r = Inr r' \<Longrightarrow> rq_input_items r' = rq_input_items r"
  by (auto simp: new_ModelRequest_def)

lemma tokens_limit: "context_tokens env r model limit s = (Inr k, t) \<Longrightarrow> tk_limit k = limit"
  by (auto simp: context_tokens_def new_ContextTokenState_def returned Let_def split: if_splits)

lemma pass_counted: "pass env model scope c d \<Longrightarrow> counted env model limit c \<Longrightarrow> counted env model limit d"
  by (erule pass_facts) (auto simp: counted_def dest: request_items_kept tokens_limit)

lemma passes_counted: "(pass env model scope)\<^sup>*\<^sup>* c d \<Longrightarrow> counted env model limit c \<Longrightarrow> counted env model limit d"
  by (induction rule: rtranclp_induct) (auto intro: pass_counted)

lemma within_budget_returned:
  assumes "within_budget env model scope c s = (Inr d, t)" and "cx_archives c = []" "cx_passes c = 0"
  shows "(pass env model scope)\<^sup>*\<^sup>* c d \<and> \<not> float_le (cp_hard (e_policy env)) (usage_ratio (cx_tokens d))"
proof -
  have "\<lparr>cx_items = cx_items c, cx_request = cx_request c, cx_tokens = cx_tokens c, cx_archives = [], cx_passes = 0\<rparr> = c"
    using assms(2,3) by simp
  then show ?thesis
    using assms(1) by (auto simp: within_budget_def compact_to_budget_def returned dest: passes_reach split: if_splits)
qed

lemma prepare_returned:
  assumes "prepare env r model s = (Inr p, t)"
  obtains scope limit c d where "rq_context_scope r = Some scope" and "resolve_limit (e_policy env) (md_window model) = Inr limit"
    and "counted env model limit c" and "(pass env model scope)\<^sup>*\<^sup>* c d"
    and "\<not> float_le (cp_hard (e_policy env)) (usage_ratio (cx_tokens d))"
    and "pq_request p = cx_request d" and "xs_items (pq_snapshot p) = cx_items d" and "xs_tokens (pq_snapshot p) = cx_tokens d"
    and "xs_key (pq_snapshot p) = scope_key scope"
    and "\<exists>u v. e_save env (pq_snapshot p) (xs_revision (pq_snapshot p) - 1) u = (Inr (pq_ref p), v)"
proof (cases "rq_context_scope r")
  case None
  then show ?thesis
    using assms by (simp add: prepare_def returned)
next
  case (Some scope)
  have "\<exists>limit items canonical tk d u v w w' snap existing expected now ref u' v'.
      resolve_limit (e_policy env) (md_window model) = Inr limit \<and> canonical_request r items = Inr canonical
    \<and> context_tokens env canonical model limit u = (Inr tk, v)
    \<and> within_budget env model scope \<lparr>cx_items = items, cx_request = canonical, cx_tokens = tk, cx_archives = [],
        cx_passes = 0\<rparr> w = (Inr d, w')
    \<and> new_ContextSnapshot (next_snapshot existing expected scope model d now) = Inr snap
    \<and> save_context env snap expected u' = (Inr ref, v') \<and> p = \<lparr>pq_request = cx_request d, pq_snapshot = snap, pq_ref = ref\<rparr>"
    using assms by (clarsimp simp: prepare_def Some returned split: prod.splits) blast
  then obtain limit items canonical tk d u v w w' snap existing expected now ref u' v' where
    limit: "resolve_limit (e_policy env) (md_window model) = Inr limit"
    and canonical: "canonical_request r items = Inr canonical"
    and tk: "context_tokens env canonical model limit u = (Inr tk, v)"
    and budget: "within_budget env model scope \<lparr>cx_items = items, cx_request = canonical, cx_tokens = tk, cx_archives = [],
       cx_passes = 0\<rparr> w = (Inr d, w')"
    and snap: "new_ContextSnapshot (next_snapshot existing expected scope model d now) = Inr snap"
    and save: "save_context env snap expected u' = (Inr ref, v')"
    and p: "p = \<lparr>pq_request = cx_request d, pq_snapshot = snap, pq_ref = ref\<rparr>"
    by blast
  have c: "counted env model limit \<lparr>cx_items = items, cx_request = canonical, cx_tokens = tk, cx_archives = [], cx_passes = 0\<rparr>"
    using canonical tk by (auto simp: counted_def canonical_request_def dest: request_items_kept tokens_limit)
  have s: "xs_items snap = cx_items d" "xs_tokens snap = cx_tokens d" "xs_key snap = scope_key scope" "xs_revision snap = expected + 1"
    using snap by (auto simp: new_ContextSnapshot_def next_snapshot_def)
  show ?thesis
    using that [OF Some limit c] within_budget_returned [OF budget] save s by (auto simp: p save_context_def returned)
qed

text \<open>
  C37. No oversized request: when \<open>prepare\<close> returns, the request fits the context window below the
  hard threshold, by a count of exactly that request, and the snapshot that has been saved holds
  its input; whatever the store, the counters and the compactors do.
\<close>
theorem prepare_within_budget:
  assumes "new_ContextPolicy (e_policy env) = Inr policy" and "prepare env r model s = (Inr p, t)"
  shows "float_less (usage_ratio (xs_tokens (pq_snapshot p))) (cp_hard policy)
     \<and> rq_input_items (pq_request p) = xs_items (pq_snapshot p)
     \<and> (\<exists>limit u v. resolve_limit policy (md_window model) = Inr limit
          \<and> context_tokens env (pq_request p) model limit u = (Inr (xs_tokens (pq_snapshot p)), v))
     \<and> (\<exists>u v. e_save env (pq_snapshot p) (xs_revision (pq_snapshot p) - 1) u = (Inr (pq_ref p), v))"
proof -
  have pol: "policy = e_policy env" "isfinite (cp_hard policy)"
    using assms(1) by (auto simp: new_ContextPolicy_def)
  then obtain h where h: "cp_hard (e_policy env) = Fin h"
    by (cases "cp_hard (e_policy env)") auto
  from prepare_returned [OF assms(2)] obtain scope limit c d where
    lim: "resolve_limit (e_policy env) (md_window model) = Inr limit"
    and c: "counted env model limit c" "(pass env model scope)\<^sup>*\<^sup>* c d"
    and below: "\<not> float_le (cp_hard (e_policy env)) (usage_ratio (cx_tokens d))"
    and p: "pq_request p = cx_request d" "xs_items (pq_snapshot p) = cx_items d" "xs_tokens (pq_snapshot p) = cx_tokens d"
    and save: "\<exists>u v. e_save env (pq_snapshot p) (xs_revision (pq_snapshot p) - 1) u = (Inr (pq_ref p), v)"
    by metis
  have "counted env model limit d"
    by (rule passes_counted [OF c(2,1)])
  moreover have "float_less (usage_ratio (cx_tokens d)) (cp_hard (e_policy env))"
    using below h by (simp add: usage_ratio_def)
  ultimately show ?thesis
    using lim save by (auto simp: counted_def p pol(1))
qed

section \<open>Compaction\<close>













section \<open>An example\<close>

text \<open>A context of four messages that is compacted before it is sent.\<close>

definition demo_items :: "input_item list" where
  "demo_items = [demo_message USER IR_PINNED ''goal'', demo_message ASSISTANT IR_SUMMARIZABLE ''a'',
     demo_message ASSISTANT IR_SUMMARIZABLE ''b'', demo_message USER IR_RECENT ''now'']"

definition demo_summary :: input_item where
  "demo_summary = CompactionItem \<lparr>pi_payload = ''summary'', pi_provider = ''s'', pi_model = ''m'', pi_native = False,
     pi_category = IC_HISTORY, pi_retention = IR_SUMMARIZABLE, pi_item_id = ''sum'', pi_metadata = []\<rparr>"

definition demo_policy :: context_policy where
  "demo_policy = \<lparr>cp_max_tokens = Some 100, cp_soft = Fin (7 / 10), cp_hard = Fin (17 / 20), cp_target = Fin (11 / 20),
     cp_recent_turns = 1, cp_inline_tokens = 5000, cp_reserved_output = 1, cp_margin = Fin (3 / 20), cp_passes = 2,
     cp_tool_output = 5, cp_summary_output = 2, cp_memory_extraction = False, cp_cross_provider = False\<rparr>"

definition demo_env :: "unit context_env" where
  "demo_env = \<lparr>e_policy = demo_policy, e_load = (\<lambda>_ _. returnE None),
     e_save = (\<lambda>s e. returnE \<lparr>sr_key = xs_key s, sr_revision = xs_revision s, sr_checksum = ''c'', sr_version = 1\<rparr>),
     e_put = (\<lambda>_ mt _ _. returnE \<lparr>br_uri = ''blob'', br_sha256 = ''d'', br_size = 1, br_media_type = mt\<rparr>),
     e_blob = (\<lambda>_. returnE []), e_compactor = Some (None, \<lambda>_ _ _. returnE [demo_summary]),
     e_count = (\<lambda>r. returnE (20 * int (length (rq_input_items r)))), e_publish = (\<lambda>_. returnE ()),
     e_reduce = (\<lambda>s _ _. Inr s), e_memory = None, e_retention = None, e_checksum = (\<lambda>_. Inr ''c''),
     e_json = (\<lambda>_ _. Inr ''json''), e_parse = (\<lambda>_. None), e_now = returnE demo_clock, e_uuid = returnE ''id''\<rparr>"

definition demo_model :: "unit context_model" where
  "demo_model = \<lparr>md_provider = ''p'', md_model = ''m'', md_window = None, md_count = None, md_compact = None,
     md_generate = (\<lambda>_. raiseE FuelOut)\<rparr>"

definition demo_model_request :: model_request where
  "demo_model_request = \<lparr>rq_messages = [], rq_input_items = demo_items, rq_tools = [], rq_tool_outputs = [],
     rq_previous_response_id = None, rq_response_schema = None, rq_response_schema_name = ''s'', rq_max_output_tokens = None,
     rq_temperature = None, rq_tool_choice = None, rq_continuation = None, rq_usage_scopes = [],
     rq_context_scope = Some demo_scope, rq_context_mode = CM_REPLACE, rq_metadata = []\<rparr>"

definition demo_state :: "unit context_state" where
  "demo_state = \<lparr>ct_latest = [], ct_recovery = [], ct_registered = {}, ct_world = ()\<rparr>"


lemma returned_isl: "isl (fst x) = False \<Longrightarrow> \<exists>p t. x = (Inr p, t)"
  by (cases x; cases "fst x") auto

theorem prepare_within_budget_witness:
  "\<exists>p t. prepare demo_env demo_model_request demo_model demo_state = (Inr p, t)
     \<and> float_less (usage_ratio (xs_tokens (pq_snapshot p))) (Fin (17 / 20))"
proof -
  have "isl (fst (prepare demo_env demo_model_request demo_model demo_state)) = False"
    by code_simp
  then obtain p t where run: "prepare demo_env demo_model_request demo_model demo_state = (Inr p, t)"
    using returned_isl by blast
  have "new_ContextPolicy (e_policy demo_env) = Inr demo_policy"
    by (simp add: demo_env_def demo_policy_def new_ContextPolicy_def)
  then show ?thesis
    using prepare_within_budget [OF _ run] run by (auto simp: demo_policy_def)
qed


section \<open>Behaviours that are not intended\<close>

text \<open>
  The references of a run are found by a search for \<open>:run:\<close> anywhere in the key, so a run that is named
  like a participant of another run is given the context of that other run.
\<close>
theorem foreign_reference_listed:
  "map_sum id (map ref_key) (external_state_references ''p'' (demo_state\<lparr>ct_latest := [(scope_key demo_scope,
      \<lparr>sr_key = scope_key demo_scope, sr_revision = 1, sr_checksum = ''c'', sr_version = 1\<rparr>)]\<rparr>)) = Inr [scope_key demo_scope]
   \<and> cs_run_id demo_scope \<noteq> ''p''"
  by code_simp

text \<open>
  A recovery reference is taken out before it is restored: when the restoration fails, the reference is
  gone, and the next call goes on from the latest version without a word.
\<close>
theorem failed_recovery_forgotten:
  "isl (fst (prepare demo_env demo_model_request demo_model (demo_state\<lparr>ct_recovery := [(scope_key demo_scope,
      \<lparr>sr_key = scope_key demo_scope, sr_revision = 1, sr_checksum = ''c'', sr_version = 1\<rparr>)]\<rparr>)))
   \<and> ct_recovery (snd (prepare demo_env demo_model_request demo_model (demo_state\<lparr>ct_recovery := [(scope_key demo_scope,
      \<lparr>sr_key = scope_key demo_scope, sr_revision = 1, sr_checksum = ''c'', sr_version = 1\<rparr>)]\<rparr>))) = []"
  by code_simp

text \<open>
  A compaction item with a blank payload is accepted by its constructor and encoded, and the archive or
  snapshot that holds it cannot be decoded any more.
\<close>
theorem blank_payload_unreadable:
  assumes "demo_summary = CompactionItem x" and "y = x\<lparr>pi_payload := '' ''\<rparr>"
  shows "new_ModelCompactionItem y = Inr y \<and> (\<exists>v. encode_input_item (CompactionItem y) = Inr v \<and> isl (decode_input_item v))"
  using assms by (auto simp: demo_summary_def new_ModelCompactionItem_def encode_input_item_def blank_all is_space_def
      require_True decode_input_item_def item_head_def cx_mapping_back cx_text_PStr decode_compaction_def string_keys_def cx_text_def)

end
