(* ===== verification/ContextDefaults.thy ===== *)
theory ContextDefaults
  imports ContextManager
begin

text \<open>
  The components that the context engine brings: \<open>ApproximateTokenCounter\<close> of
  \<open>matterloop_runtime/context/token.py\<close>, \<open>DefaultToolResultReducer\<close> and \<open>SemanticCompactor\<close> of
  \<open>compression.py\<close>. \<open>to_json\<close> is \<open>json.dumps\<close> with sorted keys, the instructions of the compactor
  (a text beyond the range of \<open>char\<close>) are a parameter.
\<close>

section \<open>The approximate token counter\<close>

fun item_payload :: "input_item \<Rightarrow> pyval" where
  "item_payload (MessageItem m) = obj [(''type'', PStr ''message''), (''role'', PStr (role_value (mi_role m))),
     (''content'', PStr (mi_content m)), (''name'', none_or PStr (mi_name m)), (''metadata'', PDict (mi_metadata m))]"
| "item_payload (ToolCallItem c) = obj [(''type'', PStr ''tool_call''), (''call_id'', PStr (ci_call_id c)),
     (''name'', PStr (ci_name c)), (''arguments'', PDict (ci_arguments c)), (''metadata'', PDict (ci_metadata c))]"
| "item_payload (ToolOutputItem x) = obj [(''type'', PStr ''tool_output''), (''call_id'', PStr (oi_call_id x)),
     (''output'', PStr (oi_output x)), (''is_error'', PBool (oi_is_error x)), (''artifact_uri'', none_or PStr (oi_artifact_uri x)),
     (''metadata'', PDict (oi_metadata x))]"
| "item_payload (CompactionItem x) = obj [(''type'', PStr ''compaction''), (''payload'', PStr (pi_payload x)),
     (''provider'', PStr (pi_provider x)), (''model'', PStr (pi_model x)), (''native'', PBool (pi_native x)),
     (''metadata'', PDict (pi_metadata x))]"

definition request_payload :: "model_request \<Rightarrow> pyval" where
  "request_payload r = obj
     [(''input'', if rq_input_items r \<noteq> [] then PList (map item_payload (rq_input_items r))
        else obj [(''messages'', PList (map (\<lambda>m. obj [(''role'', PStr (role_value (mm_role m))),
                (''content'', PStr (mm_content m)), (''name'', none_or PStr (mm_name m))]) (rq_messages r))),
              (''tool_outputs'', PList (map (\<lambda>x. obj [(''call_id'', PStr (to_call_id x)), (''output'', PStr (to_output x)),
                (''is_error'', PBool (to_is_error x))]) (rq_tool_outputs r)))]),
      (''tools'', PList (map (\<lambda>d. obj [(''name'', PStr (td_name d)), (''description'', PStr (td_description d)),
         (''parameters'', PDict (td_parameters d))]) (rq_tools r))),
      (''response_schema'', none_or PDict (rq_response_schema r))]"

definition approximate_count :: "(pyval \<Rightarrow> string) \<Rightarrow> pyfloat \<Rightarrow> model_request \<Rightarrow> int" where
  "approximate_count to_json margin r = count_text margin (to_json (request_payload r))"

definition new_ApproximateTokenCounter :: "pyfloat \<Rightarrow> exn + pyfloat" where
  "new_ApproximateTokenCounter margin =
     require (isfinite margin \<and> \<not> float_less margin (Fin 0)) ''token estimate safety margin must be finite and non-negative''
       (Inr margin)"

section \<open>The reduction of tool results\<close>

definition new_DefaultToolResultReducer :: "int \<Rightarrow> exn + int" where
  "new_DefaultToolResultReducer n = require (\<not> n < 1) ''tool result excerpt characters must be positive'' (Inr n)"

definition last_chars :: "nat \<Rightarrow> string \<Rightarrow> string" where
  "last_chars n s = List.drop (length s - n) s"

definition default_reduce :: "(pyval \<Rightarrow> exn + string) \<Rightarrow> int \<Rightarrow> string \<Rightarrow> blob_ref \<Rightarrow> bool \<Rightarrow> exn + string" where
  "default_reduce to_json excerpt result r is_error =
     (let n = nat excerpt in to_json (obj
       [(''is_error'', PBool is_error), (''externalized'', PBool True), (''size_bytes'', PInt (br_size r)),
        (''sha256'', PStr (br_sha256 r)), (''artifact_uri'', PStr (br_uri r)), (''head'', PStr (take n result)),
        (''tail'', PStr (if length result > n then last_chars n result else []))]))"

section \<open>The semantic compactor\<close>

record 'w semantic_compactor =
  sc_model :: "model_request \<Rightarrow> ('w, model_response) ctx"
  sc_provider :: string
  sc_model_name :: string
  sc_max_output :: int

definition new_SemanticCompactor :: "'w semantic_compactor \<Rightarrow> exn + 'w semantic_compactor" where
  "new_SemanticCompactor c =
     require (\<not> (blank (sc_provider c) \<or> blank (sc_model_name c))) ''semantic compactor provider and model must not be empty'' (
     require (\<not> sc_max_output c < 1) ''semantic compactor output limit must be positive'' (Inr c))"

definition text_schema :: pyval where
  "text_schema = obj [(''type'', PStr ''string'')]"

definition texts_schema :: pyval where
  "texts_schema = obj [(''type'', PStr ''array''), (''items'', text_schema)]"

definition summary_schema :: metadata where
  "summary_schema = [(PStr ''type'', PStr ''object''), (PStr ''additionalProperties'', PBool False),
     (PStr ''properties'', obj [(''objective'', text_schema), (''constraints'', texts_schema), (''completed'', texts_schema),
        (''decisions'', texts_schema), (''failures'', texts_schema), (''current_state'', text_schema), (''pending'', texts_schema),
        (''artifacts'', texts_schema), (''facts'', texts_schema)]),
     (PStr ''required'', PList (map PStr [''objective'', ''constraints'', ''completed'', ''decisions'', ''failures'',
        ''current_state'', ''pending'', ''artifacts'', ''facts'']))]"

fun summary_body :: "input_item \<Rightarrow> (string \<times> pyval) list" where
  "summary_body (MessageItem m) = [(''type'', PStr ''message''), (''role'', PStr (role_value (mi_role m))),
     (''content'', PStr (mi_content m))]"
| "summary_body (ToolCallItem c) = [(''type'', PStr ''tool_call''), (''call_id'', PStr (ci_call_id c)),
     (''name'', PStr (ci_name c)), (''arguments'', PDict (ci_arguments c))]"
| "summary_body (ToolOutputItem x) = [(''type'', PStr ''tool_output''), (''call_id'', PStr (oi_call_id x)),
     (''output'', PStr (oi_output x)), (''is_error'', PBool (oi_is_error x)), (''artifact_uri'', none_or PStr (oi_artifact_uri x))]"
| "summary_body (CompactionItem x) = [(''type'', PStr ''compaction''), (''content'', PStr (pi_payload x))]"

definition summary_payload :: "input_item \<Rightarrow> exn + pyval" where
  "summary_payload x = (case item_category x of
     None \<Rightarrow> Inl (ValueError ''model input item category was not normalized'')
   | Some c \<Rightarrow> Inr (obj ([(''item_id'', PStr (item_id x)), (''category'', PStr (category_value c))] @ summary_body x)))"

definition summary_request ::
  "string \<Rightarrow> (bool \<Rightarrow> pyval \<Rightarrow> exn + string) \<Rightarrow> int \<Rightarrow> input_item list \<Rightarrow> context_scope \<Rightarrow> int \<Rightarrow> exn + model_request" where
  "summary_request instructions to_json max_output items scope target =
     ebind (new_ModelMessage \<lparr>mm_role = SYSTEM, mm_content = instructions, mm_name = None\<rparr>) (\<lambda>sys.
     ebind (each summary_payload items) (\<lambda>vs.
     ebind (to_json False (obj [(''target_tokens'', PInt target), (''context_scope'', PStr (scope_key scope)), (''items'', PList vs)])) (\<lambda>t.
     ebind (new_ModelMessage \<lparr>mm_role = USER, mm_content = t, mm_name = None\<rparr>) (\<lambda>usr.
     new_ModelRequest \<lparr>rq_messages = [sys, usr], rq_input_items = [], rq_tools = [], rq_tool_outputs = [],
       rq_previous_response_id = None, rq_response_schema = Some summary_schema,
       rq_response_schema_name = ''matterloop_context_summary'', rq_max_output_tokens = Some max_output,
       rq_temperature = None, rq_tool_choice = None, rq_continuation = None, rq_usage_scopes = [], rq_context_scope = None,
       rq_context_mode = CM_REPLACE, rq_metadata = [(PStr ''context_lifecycle_internal'', PBool True)]\<rparr>))))"

definition summary_item ::
  "(bool \<Rightarrow> pyval \<Rightarrow> exn + string) \<Rightarrow> (string \<Rightarrow> pyval option) \<Rightarrow> 'w semantic_compactor \<Rightarrow> input_item list \<Rightarrow> string \<Rightarrow> string
   \<Rightarrow> exn + input_item" where
  "summary_item to_json of_json c items answer i =
     (case of_json answer of
        None \<Rightarrow> Inl (ValueError ''semantic compactor returned invalid JSON'')
      | Some (PDict summary) \<Rightarrow>
          ebind (to_json True (PDict (dict_set (PStr ''source_item_ids'') (PList (map (PStr \<circ> item_id) items)) summary))) (\<lambda>payload.
          map_sum id CompactionItem (new_ModelCompactionItem \<lparr>pi_payload = payload, pi_provider = sc_provider c,
            pi_model = sc_model_name c, pi_native = False, pi_category = IC_HISTORY, pi_retention = IR_SUMMARIZABLE,
            pi_item_id = i, pi_metadata = [(PStr ''source_item_ids'', PList (map (PStr \<circ> item_id) items))]\<rparr>))
      | Some _ \<Rightarrow> Inl (ValueError ''semantic compactor summary must be an object''))"

definition semantic_compact ::
  "string \<Rightarrow> (bool \<Rightarrow> pyval \<Rightarrow> exn + string) \<Rightarrow> (string \<Rightarrow> pyval option) \<Rightarrow> ('w, string) ctx \<Rightarrow> 'w semantic_compactor
   \<Rightarrow> input_item list \<Rightarrow> context_scope \<Rightarrow> int \<Rightarrow> ('w, input_item list) ctx" where
  "semantic_compact instructions to_json of_json uuid c items scope target =
     bindE (liftE (summary_request instructions to_json (sc_max_output c) items scope target)) (\<lambda>r.
     bindE (sc_model c r) (\<lambda>resp.
     bindE uuid (\<lambda>i.
     bindE (liftE (summary_item to_json of_json c items (rs_output_text resp) i)) (\<lambda>x. returnE [x]))))"

section \<open>Summaries\<close>

text \<open>
  A summary names what it summarises: the compactor answers with one item that is not native, may be
  summarised again, and lists the identifiers of its sources, whatever the model has written; its own
  request is marked, so that a managed client lets it through and does not manage it again.
\<close>
theorem summary_names_sources:
  assumes "semantic_compact instructions to_json of_json uuid c items scope target s = (Inr xs, t)"
  shows "\<exists>p. xs = [CompactionItem p] \<and> \<not> pi_native p \<and> pi_retention p = IR_SUMMARIZABLE \<and> source_ids p = map item_id items
     \<and> pi_provider p = sc_provider c"
proof -
  obtain x answer i where xs: "xs = [x]" and "summary_item to_json of_json c items answer i = Inr x"
    using assms by (auto simp: semantic_compact_def bindE_def liftE_def returnE_def split: sum.splits prod.splits)
  then obtain payload where "map_sum id CompactionItem (new_ModelCompactionItem \<lparr>pi_payload = payload, pi_provider = sc_provider c,
            pi_model = sc_model_name c, pi_native = False, pi_category = IC_HISTORY, pi_retention = IR_SUMMARIZABLE,
            pi_item_id = i, pi_metadata = [(PStr ''source_item_ids'', PList (map (PStr \<circ> item_id) items))]\<rparr>) = Inr x"
    by (auto simp: summary_item_def ebind_Inr split: option.splits pyval.splits)
  then have "x = CompactionItem \<lparr>pi_payload = payload, pi_provider = sc_provider c,
            pi_model = sc_model_name c, pi_native = False, pi_category = IC_HISTORY, pi_retention = IR_SUMMARIZABLE,
            pi_item_id = i, pi_metadata = [(PStr ''source_item_ids'', PList (map (PStr \<circ> item_id) items))]\<rparr>"
    by (simp add: new_ModelCompactionItem_def require_def split: if_splits)
  moreover have "map (\<lambda>v. case v of PStr s \<Rightarrow> s | _ \<Rightarrow> []) (filter (\<lambda>v. case v of PStr _ \<Rightarrow> True | _ \<Rightarrow> False) (map (PStr \<circ> item_id) items))
      = map item_id items"
    by (induction items) simp_all
  ultimately show ?thesis
    using xs by (simp add: source_ids_def field_def)
qed

end
